(* ===== verification/Fuse_Prelude.thy ===== *)
theory Fuse_Prelude
  imports "HOL-Library.Word" "HOL-Library.Monad_Syntax"
begin

text \<open>
  What the component theories share: the collections of facts the proofs use, the types that
  stand for C types, the \<open>errno\<close> constants, the model of memory allocation and the generic
  lemmas on lists and options.

  Conventions of the whole development. A C function becomes a HOL function of the same name
  that takes the state it reads and returns the state it writes. Its C return value keeps its
  C meaning (\<open>0\<close>, a byte count, \<open>-errno\<close>). Where the C function can fail to return (a failed
  \<open>assert\<close>, \<open>abort()\<close>, the dereference of a null pointer, a loop that does not end, a wait for
  another thread), the HOL function returns an option and \<open>None\<close> stands for that, so that a
  claim that the code returns is the claim that the value is a \<open>Some\<close>.
\<close>

named_theorems fuse_defs \<open>definitions of straight-line operations, unfolded together\<close>
named_theorems inv_intro \<open>preservation facts of component invariants\<close>
named_theorems inv_dest \<open>consequences of component invariants\<close>
named_theorems frame \<open>fields an operation leaves alone\<close>

subsection \<open>C types\<close>

type_synonym cstring = string
type_synonym byte = "8 word"
type_synonym u32 = "32 word"
type_synonym u64 = "64 word"
type_synonym off_t = int

subsection \<open>Error numbers (Linux values)\<close>

abbreviation (input) EPERM :: int where "EPERM \<equiv> 1"
abbreviation (input) ENOENT :: int where "ENOENT \<equiv> 2"
abbreviation (input) EINTR :: int where "EINTR \<equiv> 4"
abbreviation (input) EIO :: int where "EIO \<equiv> 5"
abbreviation (input) EAGAIN :: int where "EAGAIN \<equiv> 11"
abbreviation (input) ENOMEM :: int where "ENOMEM \<equiv> 12"
abbreviation (input) EACCES :: int where "EACCES \<equiv> 13"
abbreviation (input) EBUSY :: int where "EBUSY \<equiv> 16"
abbreviation (input) ENODEV :: int where "ENODEV \<equiv> 19"
abbreviation (input) EINVAL :: int where "EINVAL \<equiv> 22"
abbreviation (input) ERANGE :: int where "ERANGE \<equiv> 34"
abbreviation (input) ENOLCK :: int where "ENOLCK \<equiv> 37"
abbreviation (input) ENOSYS :: int where "ENOSYS \<equiv> 38"
abbreviation (input) EPROTO :: int where "EPROTO \<equiv> 71"
abbreviation (input) ESTALE :: int where "ESTALE \<equiv> 116"

abbreviation (input) OFFSET_MAX :: int where "OFFSET_MAX \<equiv> 9223372036854775807"

subsection \<open>Allocation\<close>

text \<open>
  Whether a call of \<open>malloc\<close>, \<open>calloc\<close>, \<open>realloc\<close> or \<open>strdup\<close> succeeds is decided outside the
  program. A state that allocates carries the outcomes of its coming allocations, in order;
  when the list is used up, every further allocation succeeds.
\<close>

type_synonym allocs = "bool list"

definition alloc :: "allocs \<Rightarrow> bool \<times> allocs" where
  "alloc as = (case as of [] \<Rightarrow> (True, []) | b # bs \<Rightarrow> (b, bs))"

lemma alloc_simps [simp]:
  "alloc [] = (True, [])"
  "alloc (b # bs) = (b, bs)"
  by (simp_all add: alloc_def)

subsection \<open>Lists\<close>

lemma find_filter_None: "find P xs = None \<longleftrightarrow> filter P xs = []"
  by (induction xs) auto

lemma find_SomeD: "find P xs = Some x \<Longrightarrow> x \<in> set xs \<and> P x"
  by (induction xs) (auto split: if_splits)

lemma find_None_iff_set: "find P xs = None \<longleftrightarrow> (\<forall>x\<in>set xs. \<not> P x)"
  by (induction xs) auto

lemma find_append: "find P (xs @ ys) = (case find P xs of None \<Rightarrow> find P ys | Some x \<Rightarrow> Some x)"
  by (induction xs) auto

lemma find_unique:
  "x \<in> set xs \<Longrightarrow> P x \<Longrightarrow> (\<And>y. y \<in> set xs \<Longrightarrow> P y \<Longrightarrow> y = x) \<Longrightarrow> find P xs = Some x"
proof (induction xs)
  case Nil
  then show ?case by simp
next
  case (Cons a xs)
  show ?case
  proof (cases "P a")
    case True
    with Cons.prems(3) [of a] show ?thesis by simp
  next
    case False
    with Cons.prems(1,2) have "x \<in> set xs" by auto
    then have "find P xs = Some x"
      using Cons.prems(2,3) by (intro Cons.IH) simp_all
    with False show ?thesis by simp
  qed
qed

end
