(* ===== verification/Fuse_Locks.thy ===== *)
theory Fuse_Locks
  imports Fuse_Prelude
begin

text \<open>
  The POSIX record locks of a node (\<open>lib/fuse.c\<close>: \<open>struct lock\<close>, \<open>locks_conflict\<close>,
  \<open>locks_insert\<close>, \<open>flock_to_lock\<close>, \<open>lock_to_flock\<close>).

  \<open>node->locks\<close> is a singly linked list through \<open>next\<close>; it is modelled as the list of its
  elements in order. Offsets (\<open>off_t\<close>, signed 64 bit) are integers; the invariant keeps every
  bound between 0 and \<open>OFFSET_MAX\<close>, so no C arithmetic on them overflows.
\<close>

subsection \<open>Data\<close>

abbreviation (input) F_RDLCK :: int where "F_RDLCK \<equiv> 0"
abbreviation (input) F_WRLCK :: int where "F_WRLCK \<equiv> 1"
abbreviation (input) F_UNLCK :: int where "F_UNLCK \<equiv> 2"

record lock =
  lk_type :: int
  lk_start :: off_t
  lk_end :: off_t
  lk_pid :: int
  lk_owner :: u64

record flock =
  l_type :: int
  l_whence :: int
  l_start :: off_t
  l_len :: off_t
  l_pid :: int

subsection \<open>Operations\<close>

definition locks_conflict :: "lock list \<Rightarrow> lock \<Rightarrow> lock option" where
  "locks_conflict locks lk =
     find (\<lambda>l. lk_owner l \<noteq> lk_owner lk \<and>
               lk_start lk \<le> lk_end l \<and> lk_start l \<le> lk_end lk \<and>
               (lk_type l = F_WRLCK \<or> lk_type lk = F_WRLCK)) locks"

text \<open>
  What follows the loop of \<open>locks_insert\<close> when it ends at the end of the list or with
  \<open>break\<close>: unless the request is an unlock, a copy of it (in \<open>newl1\<close>) goes in front of the
  current position. \<open>newl1\<close> is null exactly when it was not allocated.
\<close>

definition locks_place :: "bool \<Rightarrow> lock \<Rightarrow> lock list \<Rightarrow> lock list option" where
  "locks_place newl1 lk rest =
     (if lk_type lk \<noteq> F_UNLCK then if newl1 then Some (lk # rest) else None else Some rest)"

text \<open>
  The loop of \<open>locks_insert\<close>. \<open>lk\<close> is the request, which the loop widens when it merges;
  \<open>newl2\<close> says whether the second preallocated element is still there. The result is the list
  from the current position on; \<open>None\<close> is the write through a null \<open>newl1\<close> or \<open>newl2\<close>.
\<close>

function locks_insert_loop :: "bool \<Rightarrow> bool \<Rightarrow> lock \<Rightarrow> lock list \<Rightarrow> lock list option" where
  "locks_insert_loop newl1 newl2 lk [] = locks_place newl1 lk []"
| "locks_insert_loop newl1 newl2 lk (l # ls) =
     (if lk_owner l \<noteq> lk_owner lk then map_option (Cons l) (locks_insert_loop newl1 newl2 lk ls)
      else if lk_type lk = lk_type l then
        (if lk_end l < lk_start lk - 1 then
           map_option (Cons l) (locks_insert_loop newl1 newl2 lk ls)
         else if lk_end lk < lk_start l - 1 then locks_place newl1 lk (l # ls)
         else if lk_start l \<le> lk_start lk \<and> lk_end lk \<le> lk_end l then Some (l # ls)
         else
           locks_insert_loop newl1 newl2
             (lk\<lparr>lk_start := (if lk_start l < lk_start lk then lk_start l else lk_start lk),
                 lk_end := (if lk_end lk < lk_end l then lk_end l else lk_end lk)\<rparr>) ls)
      else
        (if lk_end l < lk_start lk then
           map_option (Cons l) (locks_insert_loop newl1 newl2 lk ls)
         else if lk_end lk < lk_start l then locks_place newl1 lk (l # ls)
         else if lk_start lk \<le> lk_start l \<and> lk_end l \<le> lk_end lk then
           locks_insert_loop newl1 newl2 lk ls
         else if lk_end l \<le> lk_end lk then
           map_option (Cons (l\<lparr>lk_end := lk_start lk - 1\<rparr>))
             (locks_insert_loop newl1 newl2 lk ls)
         else if lk_start lk \<le> lk_start l then
           locks_place newl1 lk (l\<lparr>lk_start := lk_end lk + 1\<rparr> # ls)
         else if newl2 then
           map_option (Cons (l\<lparr>lk_end := lk_start lk - 1\<rparr>))
             (locks_insert_loop newl1 False lk (l\<lparr>lk_start := lk_end lk + 1\<rparr> # ls))
         else None))"
  by pat_completeness auto
termination
  by (relation "measure (\<lambda>(newl1, newl2, lk, ls). length ls + (if newl2 then 1 else 0))") auto

text \<open>
  \<open>locks_insert\<close>: the outcomes of the two \<open>malloc\<close> calls are the first argument. The result
  is the C return value and the node's new lock list.
\<close>

definition locks_insert ::
  "bool \<times> bool \<Rightarrow> lock list \<Rightarrow> lock \<Rightarrow> (int \<times> lock list) option" where
  "locks_insert mem locks lk =
     (let need = (lk_type lk \<noteq> F_UNLCK \<or> lk_start lk \<noteq> 0 \<or> lk_end lk \<noteq> OFFSET_MAX)
      in if need \<and> \<not> (fst mem \<and> snd mem) then Some (- ENOLCK, locks)
         else map_option (Pair 0) (locks_insert_loop need need lk locks))"

definition flock_to_lock :: "flock \<Rightarrow> lock" where
  "flock_to_lock fl =
     \<lparr>lk_type = l_type fl, lk_start = l_start fl,
      lk_end = (if l_len fl \<noteq> 0 then l_start fl + l_len fl - 1 else OFFSET_MAX),
      lk_pid = l_pid fl, lk_owner = 0\<rparr>"

definition lock_to_flock :: "lock \<Rightarrow> flock \<Rightarrow> flock" where
  "lock_to_flock lk fl =
     fl\<lparr>l_type := lk_type lk, l_start := lk_start lk,
        l_len := (if lk_end lk = OFFSET_MAX then 0 else lk_end lk - lk_start lk + 1),
        l_pid := lk_pid lk\<rparr>"


subsection \<open>Invariant and abstraction\<close>

definition lock_ok :: "lock \<Rightarrow> bool" where
  "lock_ok l \<longleftrightarrow> 0 \<le> lk_start l \<and> lk_start l \<le> lk_end l \<and> lk_end l \<le> OFFSET_MAX \<and>
                (lk_type l = F_RDLCK \<or> lk_type l = F_WRLCK)"

definition req_ok :: "lock \<Rightarrow> bool" where
  "req_ok l \<longleftrightarrow> 0 \<le> lk_start l \<and> lk_start l \<le> lk_end l \<and> lk_end l \<le> OFFSET_MAX \<and>
               (lk_type l = F_RDLCK \<or> lk_type l = F_WRLCK \<or> lk_type l = F_UNLCK)"

text \<open>
  Two locks of one owner are ordered and disjoint, and when they have the same type there is a
  gap between them (otherwise they would have been merged).
\<close>

definition lock_before :: "lock \<Rightarrow> lock \<Rightarrow> bool" where
  "lock_before l l' \<longleftrightarrow>
     (lk_owner l = lk_owner l' \<longrightarrow>
        lk_end l < lk_start l' \<and> (lk_type l = lk_type l' \<longrightarrow> lk_end l + 1 < lk_start l'))"

definition locks_inv :: "lock list \<Rightarrow> bool" where
  "locks_inv ls \<longleftrightarrow> (\<forall>l\<in>set ls. lock_ok l) \<and> sorted_wrt lock_before ls"

definition covers :: "lock \<Rightarrow> u64 \<Rightarrow> off_t \<Rightarrow> bool" where
  "covers l ow x \<longleftrightarrow> lk_owner l = ow \<and> lk_start l \<le> x \<and> x \<le> lk_end l"

text \<open>What the list means: the lock type an owner holds at each offset.\<close>

definition held :: "lock list \<Rightarrow> u64 \<Rightarrow> off_t \<Rightarrow> int" where
  "held ls ow x = (case find (\<lambda>l. covers l ow x) ls of None \<Rightarrow> F_UNLCK | Some l \<Rightarrow> lk_type l)"

lemma held_simps [simp]:
  "held [] ow x = F_UNLCK"
  "held (l # ls) ow x = (if covers l ow x then lk_type l else held ls ow x)"
  by (simp_all add: held_def)

lemma held_none: "(\<And>l. l \<in> set ls \<Longrightarrow> \<not> covers l ow x) \<Longrightarrow> held ls ow x = F_UNLCK"
  by (induction ls) auto

lemma locks_inv_Nil [simp]: "locks_inv []"
  by (simp add: locks_inv_def)

lemma locks_inv_Cons [simp]:
  "locks_inv (l # ls) \<longleftrightarrow> lock_ok l \<and> (\<forall>l'\<in>set ls. lock_before l l') \<and> locks_inv ls"
  by (auto simp: locks_inv_def)

subsection \<open>Correctness of locks_insert\<close>

text \<open>
  What the loop owes for a request \<open>lk\<close> on the list \<open>ls\<close>: the new list is well formed, an
  element in front of both stays in front of the result, and the result means the old meaning
  overwritten by the request.
\<close>

definition insert_spec :: "lock \<Rightarrow> lock list \<Rightarrow> lock list \<Rightarrow> bool" where
  "insert_spec lk ls ls' \<longleftrightarrow>
     locks_inv ls' \<and>
     (\<forall>p. lock_before p lk \<longrightarrow> (\<forall>l\<in>set ls. lock_before p l) \<longrightarrow> (\<forall>l\<in>set ls'. lock_before p l)) \<and>
     (\<forall>ow x. held ls' ow x = (if covers lk ow x then lk_type lk else held ls ow x))"

lemma insert_specI:
  assumes "locks_inv ls'"
    and "\<And>p l. lock_before p lk \<Longrightarrow> (\<And>l. l \<in> set ls \<Longrightarrow> lock_before p l) \<Longrightarrow>
           l \<in> set ls' \<Longrightarrow> lock_before p l"
    and "\<And>ow x. held ls' ow x = (if covers lk ow x then lk_type lk else held ls ow x)"
  shows "insert_spec lk ls ls'"
  using assms unfolding insert_spec_def by blast

lemma insert_specD:
  assumes "insert_spec lk ls ls'"
  shows "locks_inv ls'"
    and "lock_before p lk \<Longrightarrow> (\<And>l. l \<in> set ls \<Longrightarrow> lock_before p l) \<Longrightarrow> l' \<in> set ls' \<Longrightarrow>
           lock_before p l'"
    and "held ls' ow x = (if covers lk ow x then lk_type lk else held ls ow x)"
  using assms unfolding insert_spec_def by blast+

lemma lock_before_apart: "lock_before l lk \<Longrightarrow> covers l ow x \<Longrightarrow> \<not> covers lk ow x"
  by (auto simp: lock_before_def covers_def)

lemma lock_before_apart': "lock_before lk l \<Longrightarrow> covers l ow x \<Longrightarrow> \<not> covers lk ow x"
  by (auto simp: lock_before_def covers_def)

lemma insert_spec_skip:
  assumes "insert_spec lk ls ls'" "locks_inv (l # ls)" "lock_before l lk"
  shows "insert_spec lk (l # ls) (l # ls')"
  using assms lock_before_apart [OF assms(3)] unfolding insert_spec_def by auto

lemma insert_spec_place:
  assumes "locks_inv ls" "\<And>l. l \<in> set ls \<Longrightarrow> lock_before lk l" "req_ok lk"
    and "newl1 \<or> lk_type lk = F_UNLCK"
  shows "\<exists>ls'. locks_place newl1 lk ls = Some ls' \<and> insert_spec lk ls ls'"
proof (cases "lk_type lk = F_UNLCK")
  case True
  have "held ls ow x = F_UNLCK" if "covers lk ow x" for ow x
    by (rule held_none) (use assms(2) that lock_before_apart' in blast)
  with True assms(1) show ?thesis
    by (auto simp: locks_place_def insert_spec_def)
next
  case False
  with assms show ?thesis
    by (auto simp: locks_place_def insert_spec_def lock_ok_def req_ok_def)
qed

lemma insert_spec_delete:
  assumes "insert_spec lk ls ls'" "lk_owner l = lk_owner lk"
    and "lk_start lk \<le> lk_start l" "lk_end l \<le> lk_end lk"
  shows "insert_spec lk (l # ls) ls'"
  using assms unfolding insert_spec_def by (auto simp: covers_def)

definition widen :: "lock \<Rightarrow> lock \<Rightarrow> lock" where
  "widen l lk = lk\<lparr>lk_start := (if lk_start l < lk_start lk then lk_start l else lk_start lk),
                   lk_end := (if lk_end lk < lk_end l then lk_end l else lk_end lk)\<rparr>"

lemma insert_spec_merge:
  assumes "insert_spec (widen l lk) ls ls'" "lk_owner l = lk_owner lk" "lk_type lk = lk_type l"
    and "\<not> lk_end l < lk_start lk - 1" "\<not> lk_end lk < lk_start l - 1"
    and "locks_inv (l # ls)" "req_ok lk"
  shows "insert_spec lk (l # ls) ls'"
proof -
  have cov: "covers (widen l lk) ow x \<longleftrightarrow> covers lk ow x \<or> covers l ow x" for ow x
    using assms(2,4-7) by (auto simp: covers_def widen_def lock_ok_def req_ok_def)
  have bef: "lock_before p (widen l lk)" if "lock_before p lk" "lock_before p l" for p
    using that assms(2,3) by (auto simp: lock_before_def widen_def)
  show ?thesis
  proof (rule insert_specI)
    show "locks_inv ls'" by (rule insert_specD [OF assms(1)])
    show "held ls' ow x = (if covers lk ow x then lk_type lk else held (l # ls) ow x)" for ow x
      using assms(3) by (simp add: insert_specD(3) [OF assms(1)] cov) (simp add: widen_def)
    show "lock_before p l'" if "lock_before p lk" "\<And>l'. l' \<in> set (l # ls) \<Longrightarrow> lock_before p l'"
      "l' \<in> set ls'" for p l'
      by (rule insert_specD(2) [OF assms(1) bef [OF that(1)] _ that(3)]) (simp_all add: that(2))
  qed
qed

lemma insert_spec_contained:
  assumes "locks_inv (l # ls)" "lk_owner l = lk_owner lk" "lk_type lk = lk_type l"
    and "lk_start l \<le> lk_start lk" "lk_end lk \<le> lk_end l"
  shows "insert_spec lk (l # ls) (l # ls)"
  using assms unfolding insert_spec_def by (auto simp: covers_def)

text \<open>The request cuts off the tail of \<open>l\<close>; what is left of \<open>l\<close> is in front of the request.\<close>

lemma insert_spec_trim:
  assumes "insert_spec lk ls ls'" "lk_owner l = lk_owner lk" "lk_type lk \<noteq> lk_type l"
    and "lk_start l < lk_start lk" "lk_start lk \<le> lk_end l" "lk_end l \<le> lk_end lk"
    and "locks_inv (l # ls)"
  shows "insert_spec lk (l # ls) (l\<lparr>lk_end := lk_start lk - 1\<rparr> # ls')"
proof -
  let ?l = "l\<lparr>lk_end := lk_start lk - 1\<rparr>"
  have b: "lock_before ?l lk" using assms(3) by (auto simp: lock_before_def)
  have b': "lock_before ?l l'" if "lock_before l l'" for l'
    using that assms(5) by (auto simp: lock_before_def)
  have p: "lock_before p ?l" if "lock_before p l" for p
    using that by (auto simp: lock_before_def)
  have ok: "lock_ok ?l" using assms(4,5,7) by (auto simp: lock_ok_def)
  have cov: "covers ?l ow x \<longleftrightarrow> covers l ow x \<and> \<not> covers lk ow x" for ow x
    using assms(2,4-6) by (auto simp: covers_def)
  show ?thesis
  proof (rule insert_specI)
    have "lock_before ?l l'" if "l' \<in> set ls'" for l'
      by (rule insert_specD(2) [OF assms(1) b _ that], rule b') (use assms(7) in simp)
    then show "locks_inv (?l # ls')"
      using ok insert_specD(1) [OF assms(1)] by simp
    show "held (?l # ls') ow x = (if covers lk ow x then lk_type lk else held (l # ls) ow x)"
      for ow x
      by (simp add: insert_specD(3) [OF assms(1)] cov)
    show "lock_before q l'" if "lock_before q lk" "\<And>l'. l' \<in> set (l # ls) \<Longrightarrow> lock_before q l'"
      "l' \<in> set (?l # ls')" for q l'
      using that insert_specD(2) [OF assms(1) that(1)] p by auto
  qed
qed

lemma insert_spec_behead:
  assumes "lk_owner l = lk_owner lk" "lk_type lk \<noteq> lk_type l"
    and "lk_start lk \<le> lk_start l" "lk_start l \<le> lk_end lk" "lk_end lk < lk_end l"
    and "locks_inv (l # ls)"
  shows "locks_inv (l\<lparr>lk_start := lk_end lk + 1\<rparr> # ls)"
    and "\<And>l'. l' \<in> set (l\<lparr>lk_start := lk_end lk + 1\<rparr> # ls) \<Longrightarrow> lock_before lk l'"
    and "insert_spec lk (l\<lparr>lk_start := lk_end lk + 1\<rparr> # ls) ls' \<Longrightarrow> insert_spec lk (l # ls) ls'"
proof -
  let ?l = "l\<lparr>lk_start := lk_end lk + 1\<rparr>"
  show "locks_inv (?l # ls)"
    using assms(3-6) by (auto simp: lock_ok_def lock_before_def)
  show "lock_before lk l'" if "l' \<in> set (?l # ls)" for l'
    using that assms(1,2,5,6) by (auto simp: lock_before_def)
  have p: "lock_before p ?l" if "lock_before p l" for p
    using that assms(4) by (auto simp: lock_before_def)
  have cov: "covers ?l ow x \<longleftrightarrow> covers l ow x \<and> \<not> covers lk ow x" for ow x
    using assms(1,3-5) by (auto simp: covers_def)
  show "insert_spec lk (l # ls) ls'" if spec: "insert_spec lk (?l # ls) ls'"
  proof (rule insert_specI)
    show "locks_inv ls'" by (rule insert_specD [OF spec])
    show "held ls' ow x = (if covers lk ow x then lk_type lk else held (l # ls) ow x)" for ow x
      by (simp add: insert_specD(3) [OF spec] cov)
    show "lock_before q l'" if "lock_before q lk" "\<And>l'. l' \<in> set (l # ls) \<Longrightarrow> lock_before q l'"
      "l' \<in> set ls'" for q l'
      using that p by (intro insert_specD(2) [OF spec that(1) _ that(3)]) auto
  qed
qed


declare locks_insert_loop.simps(2) [simp del]
lemmas loop_step = locks_insert_loop.simps(2)

lemma widen_req_ok: "lock_ok l \<Longrightarrow> req_ok lk \<Longrightarrow> req_ok (widen l lk)"
  by (auto simp: widen_def lock_ok_def req_ok_def)

lemma lock_before_later:
  "locks_inv (l # ls) \<Longrightarrow> lock_before lk l \<Longrightarrow> lk_owner l = lk_owner lk \<Longrightarrow> l' \<in> set ls \<Longrightarrow>
     lock_before lk l'"
  by (fastforce simp: lock_before_def lock_ok_def)

text \<open>The request the loop may handle, and the claim about the rest of the list.\<close>

definition loop_pre :: "bool \<Rightarrow> bool \<Rightarrow> lock \<Rightarrow> bool" where
  "loop_pre newl1 newl2 lk \<longleftrightarrow>
     req_ok lk \<and> (newl1 \<or> lk_type lk = F_UNLCK) \<and> (newl2 \<or> lk_start lk = 0)"

definition loop_done :: "lock list option \<Rightarrow> lock \<Rightarrow> lock list \<Rightarrow> bool" where
  "loop_done r lk ls \<longleftrightarrow> (\<exists>ls'. r = Some ls' \<and> insert_spec lk ls ls')"

lemma loop_pre_widen: "lock_ok l \<Longrightarrow> loop_pre n1 n2 lk \<Longrightarrow> loop_pre n1 n2 (widen l lk)"
  by (auto simp: loop_pre_def widen_req_ok) (auto simp: widen_def lock_ok_def)

lemma loop_done_place:
  assumes "loop_pre n1 n2 lk" "locks_inv (l # ls)" "lock_before lk l" "lk_owner l = lk_owner lk"
  shows "loop_done (locks_place n1 lk (l # ls)) lk (l # ls)"
proof -
  have "\<And>l'. l' \<in> set (l # ls) \<Longrightarrow> lock_before lk l'"
    using assms(3) lock_before_later [OF assms(2-4)] by auto
  then show ?thesis
    using insert_spec_place [OF assms(2)] assms(1) by (auto simp: loop_done_def loop_pre_def)
qed

lemma loop_done_skip:
  "loop_done r lk ls \<Longrightarrow> locks_inv (l # ls) \<Longrightarrow> lock_before l lk \<Longrightarrow>
     loop_done (map_option (Cons l) r) lk (l # ls)"
  unfolding loop_done_def using insert_spec_skip by fastforce

lemma loop_same_type:
  assumes "locks_inv (l # ls)" "loop_pre n1 n2 lk" "lk_owner l = lk_owner lk"
    and same: "lk_type lk = lk_type l"
    and IH: "\<And>lk'. loop_pre n1 n2 lk' \<Longrightarrow> loop_done (locks_insert_loop n1 n2 lk' ls) lk' ls"
  shows "loop_done (locks_insert_loop n1 n2 lk (l # ls)) lk (l # ls)"
proof -
  consider (skip) "lk_end l < lk_start lk - 1"
    | (stop) "\<not> lk_end l < lk_start lk - 1" "lk_end lk < lk_start l - 1"
    | (inside) "\<not> lk_end l < lk_start lk - 1" "\<not> lk_end lk < lk_start l - 1"
        "lk_start l \<le> lk_start lk \<and> lk_end lk \<le> lk_end l"
    | (merge) "\<not> lk_end l < lk_start lk - 1" "\<not> lk_end lk < lk_start l - 1"
        "\<not> (lk_start l \<le> lk_start lk \<and> lk_end lk \<le> lk_end l)"
    by blast
  then show ?thesis
  proof cases
    case skip
    then have "lock_before l lk" by (simp add: lock_before_def)
    then show ?thesis
      using skip assms(3) same loop_done_skip [OF IH [OF assms(2)] assms(1)]
      by (simp add: loop_step)
  next
    case stop
    then have "lock_before lk l" using assms(1) by (auto simp: lock_before_def lock_ok_def)
    then show ?thesis
      using stop assms(3) same loop_done_place [OF assms(2,1)] by (simp add: loop_step)
  next
    case inside
    then show ?thesis
      using insert_spec_contained [OF assms(1,3) same] assms(3) same
      by (simp add: loop_step loop_done_def)
  next
    case merge
    have eq: "locks_insert_loop n1 n2 lk (l # ls) = locks_insert_loop n1 n2 (widen l lk) ls"
      using assms(3) same merge by (auto simp: loop_step widen_def)
    have "loop_pre n1 n2 (widen l lk)"
      using assms(1,2) by (simp add: loop_pre_widen)
    then show ?thesis
      using IH insert_spec_merge [OF _ assms(3) same merge(1,2) assms(1)] assms(2) eq
      unfolding loop_done_def loop_pre_def by metis
  qed
qed

lemma loop_behead:
  assumes "locks_inv (l # ls)" "loop_pre n1 n2 lk" "lk_owner l = lk_owner lk"
    and "lk_type lk \<noteq> lk_type l" "lk_start lk \<le> lk_start l" "lk_start l \<le> lk_end lk"
    and "lk_end lk < lk_end l"
  shows "loop_done (locks_place n1 lk (l\<lparr>lk_start := lk_end lk + 1\<rparr> # ls)) lk (l # ls)"
proof -
  note b = insert_spec_behead [OF assms(3,4,5,6,7,1)]
  have "loop_done (locks_place n1 lk (l\<lparr>lk_start := lk_end lk + 1\<rparr> # ls)) lk
          (l\<lparr>lk_start := lk_end lk + 1\<rparr> # ls)"
    by (rule loop_done_place [OF assms(2) b(1)]) (use b(2) assms(3) in auto)
  then show ?thesis using b(3) unfolding loop_done_def by blast
qed

text \<open>The request lies strictly inside \<open>l\<close>: the rest of \<open>l\<close> stays on both sides of it.\<close>

lemma split_left_before:
  assumes "locks_inv (l # ls)" "lk_start lk \<le> lk_end lk" "lk_end lk < lk_end l"
    and "m \<in> set (l\<lparr>lk_start := lk_end lk + 1\<rparr> # ls)"
  shows "lock_before (l\<lparr>lk_end := lk_start lk - 1\<rparr>) m"
proof (cases "m \<in> set ls")
  case True
  with assms(1) have "lock_before l m" by simp
  then show ?thesis using assms(2,3) by (auto simp: lock_before_def)
next
  case False
  with assms(4) show ?thesis using assms(2) by (simp add: lock_before_def)
qed

lemma insert_spec_split:
  assumes spec: "insert_spec lk (l\<lparr>lk_start := lk_end lk + 1\<rparr> # ls) ls'"
    and "locks_inv (l # ls)" "req_ok lk" "lk_owner l = lk_owner lk" "lk_type lk \<noteq> lk_type l"
    and "lk_start l < lk_start lk" "lk_end lk < lk_end l"
  shows "insert_spec lk (l # ls) (l\<lparr>lk_end := lk_start lk - 1\<rparr> # ls')"
proof (rule insert_specI)
  let ?b = "l\<lparr>lk_start := lk_end lk + 1\<rparr>" and ?c = "l\<lparr>lk_end := lk_start lk - 1\<rparr>"
  have req: "lk_start lk \<le> lk_end lk" "0 \<le> lk_start lk"
    using assms(3) by (auto simp: req_ok_def)
  have c: "lock_before ?c lk" using assms(5) by (auto simp: lock_before_def)
  have "lock_before ?c l'" if "l' \<in> set ls'" for l'
    by (rule insert_specD(2) [OF spec c _ that]) (rule split_left_before [OF assms(2) req(1) assms(7)])
  then show "locks_inv (?c # ls')"
    using insert_specD(1) [OF spec] assms(2,6,7) req by (auto simp: lock_ok_def)
  have cov: "covers ?c ow x \<longleftrightarrow> covers l ow x \<and> \<not> covers lk ow x \<and> \<not> covers ?b ow x"
    "covers ?b ow x \<Longrightarrow> covers l ow x" for ow x
    using assms(4,6,7) req by (auto simp: covers_def)
  show "held (?c # ls') ow x = (if covers lk ow x then lk_type lk else held (l # ls) ow x)" for ow x
    using cov [of ow x] by (auto simp: insert_specD(3) [OF spec])
  show "lock_before q l'" if q: "lock_before q lk" "\<And>l'. l' \<in> set (l # ls) \<Longrightarrow> lock_before q l'"
    "l' \<in> set (?c # ls')" for q l'
  proof (cases "l' = ?c")
    case True
    then show ?thesis using q(2) [of l] by (simp add: lock_before_def)
  next
    case False
    have "lock_before q ?b"
      using q(2) [of l] assms(6) req by (auto simp: lock_before_def)
    then show ?thesis
      using False q by (intro insert_specD(2) [OF spec q(1), of l']) auto
  qed
qed

lemma loop_split:
  assumes "locks_inv (l # ls)" "loop_pre n1 n2 lk" "lk_owner l = lk_owner lk"
    and "lk_type lk \<noteq> lk_type l" "lk_start l < lk_start lk" "lk_end lk < lk_end l"
  shows "loop_done (map_option (Cons (l\<lparr>lk_end := lk_start lk - 1\<rparr>))
           (locks_insert_loop n1 False lk (l\<lparr>lk_start := lk_end lk + 1\<rparr> # ls))) lk (l # ls)"
proof -
  let ?b = "l\<lparr>lk_start := lk_end lk + 1\<rparr>"
  have req: "req_ok lk" using assms(2) by (simp add: loop_pre_def)
  then have inv: "locks_inv (?b # ls)" and bef: "lock_before lk ?b"
    using assms(1,4-6) by (auto simp: req_ok_def lock_ok_def lock_before_def)
  have "locks_insert_loop n1 False lk (?b # ls) = locks_place n1 lk (?b # ls)"
    using assms(3,4,6) req by (simp add: loop_step req_ok_def)
  moreover have "loop_done (locks_place n1 lk (?b # ls)) lk (?b # ls)"
    by (rule loop_done_place [OF assms(2) inv bef]) (simp add: assms(3))
  ultimately show ?thesis
    using insert_spec_split [OF _ assms(1) req assms(3-6)] by (auto simp: loop_done_def)
qed

lemma loop_other_type:
  assumes "locks_inv (l # ls)" "loop_pre n1 n2 lk" "lk_owner l = lk_owner lk"
    and diff: "lk_type lk \<noteq> lk_type l"
    and IH: "\<And>lk'. loop_pre n1 n2 lk' \<Longrightarrow> loop_done (locks_insert_loop n1 n2 lk' ls) lk' ls"
  shows "loop_done (locks_insert_loop n1 n2 lk (l # ls)) lk (l # ls)"
proof -
  consider (skip) "lk_end l < lk_start lk"
    | (stop) "\<not> lk_end l < lk_start lk" "lk_end lk < lk_start l"
    | (delete) "\<not> lk_end l < lk_start lk" "\<not> lk_end lk < lk_start l"
        "lk_start lk \<le> lk_start l" "lk_end l \<le> lk_end lk"
    | (trim) "\<not> lk_end l < lk_start lk" "\<not> lk_end lk < lk_start l"
        "lk_start l < lk_start lk" "lk_end l \<le> lk_end lk"
    | (behead) "\<not> lk_end l < lk_start lk" "\<not> lk_end lk < lk_start l"
        "lk_end lk < lk_end l" "lk_start lk \<le> lk_start l"
    | (split) "\<not> lk_end l < lk_start lk" "\<not> lk_end lk < lk_start l"
        "lk_end lk < lk_end l" "lk_start l < lk_start lk"
    by linarith
  then show ?thesis
  proof cases
    case skip
    then have "lock_before l lk" using diff by (simp add: lock_before_def)
    then show ?thesis
      using skip assms(3) diff loop_done_skip [OF IH [OF assms(2)] assms(1)]
      by (simp add: loop_step)
  next
    case stop
    then have "lock_before lk l" using diff by (simp add: lock_before_def)
    then show ?thesis
      using stop assms(3) diff loop_done_place [OF assms(2,1)] by (simp add: loop_step)
  next
    case delete
    then show ?thesis
      using IH [OF assms(2)] insert_spec_delete [OF _ assms(3)] assms(3) diff
      by (auto simp: loop_step loop_done_def)
  next
    case trim
    then show ?thesis
      using IH [OF assms(2)] insert_spec_trim [OF _ assms(3) diff _ _ _ assms(1)] assms(3) diff
      by (auto simp: loop_step loop_done_def)
  next
    case behead
    then show ?thesis
      using loop_behead [OF assms(1-3) diff] assms(3) diff by (simp add: loop_step)
  next
    case split
    moreover have "n2"
      using split assms(1,2) by (auto simp: loop_pre_def lock_ok_def)
    ultimately show ?thesis
      using loop_split [OF assms(1-3) diff] assms(3) diff by (simp add: loop_step)
  qed
qed

lemma locks_insert_loop_done:
  "locks_inv ls \<Longrightarrow> loop_pre n1 n2 lk \<Longrightarrow> loop_done (locks_insert_loop n1 n2 lk ls) lk ls"
proof (induction ls arbitrary: lk)
  case Nil
  then show ?case
    using insert_spec_place [OF locks_inv_Nil] by (auto simp: loop_pre_def loop_done_def)
next
  case (Cons l ls)
  have IH: "loop_done (locks_insert_loop n1 n2 lk' ls) lk' ls" if "loop_pre n1 n2 lk'" for lk'
    using Cons that by simp
  show ?case
  proof (cases "lk_owner l = lk_owner lk")
    case True
    then show ?thesis
      using loop_same_type [OF Cons.prems True _ IH] loop_other_type [OF Cons.prems True _ IH]
      by blast
  next
    case False
    then have "lock_before l lk" by (simp add: lock_before_def)
    with False show ?thesis
      using loop_done_skip [OF IH [OF Cons.prems(2)] Cons.prems(1)] by (simp add: loop_step)
  qed
qed


subsection \<open>Correctness of the operations\<close>

lemma locks_insert_done:
  assumes "locks_inv ls" "req_ok lk"
  shows "\<exists>ls'. locks_insert (True, True) ls lk = Some (0, ls') \<and> insert_spec lk ls ls'"
proof -
  let ?need = "lk_type lk \<noteq> F_UNLCK \<or> lk_start lk \<noteq> 0 \<or> lk_end lk \<noteq> OFFSET_MAX"
  have "loop_pre ?need ?need lk" using assms(2) by (auto simp: loop_pre_def)
  then show ?thesis
    using locks_insert_loop_done [OF assms(1)] unfolding loop_done_def locks_insert_def
    by (fastforce simp: Let_def)
qed

text \<open>C11: With memory for the two spare elements, setting or clearing a lock on a well-formed
  lock list always succeeds, keeps the list well formed (bounds inside \<open>off_t\<close>, one owner's
  locks ordered, disjoint and merged), and afterwards each owner holds at each offset exactly
  what POSIX asks for: the requested type where the request applies, the old type elsewhere.\<close>

theorem locks_insert_correct:
  assumes "locks_inv ls" "req_ok lk"
  shows "\<exists>ls'. locks_insert (True, True) ls lk = Some (0, ls') \<and> locks_inv ls' \<and>
           (\<forall>ow x. held ls' ow x = (if covers lk ow x then lk_type lk else held ls ow x))"
  using locks_insert_done [OF assms] unfolding insert_spec_def by blast

abbreviation (input) mk_lock :: "int \<Rightarrow> off_t \<Rightarrow> off_t \<Rightarrow> u64 \<Rightarrow> lock" where
  "mk_lock t a b ow \<equiv> \<lparr>lk_type = t, lk_start = a, lk_end = b, lk_pid = 1, lk_owner = ow\<rparr>"

theorem locks_insert_correct_witness:
  "locks_inv [mk_lock F_RDLCK 0 99 7] \<and> req_ok (mk_lock F_WRLCK 10 19 7) \<and>
   (\<exists>ls'. locks_insert (True, True) [mk_lock F_RDLCK 0 99 7] (mk_lock F_WRLCK 10 19 7) = Some (0, ls') \<and>
     locks_inv ls' \<and>
     (\<forall>ow x. held ls' ow x =
        (if covers (mk_lock F_WRLCK 10 19 7) ow x then lk_type (mk_lock F_WRLCK 10 19 7)
         else held [mk_lock F_RDLCK 0 99 7] ow x)))"
proof -
  have h: "locks_inv [mk_lock F_RDLCK 0 99 7]" "req_ok (mk_lock F_WRLCK 10 19 7)"
    by (simp_all add: lock_ok_def req_ok_def)
  show ?thesis by (intro conjI h locks_insert_correct [OF h])
qed

text \<open>When one of the two spare elements cannot be allocated, \<open>locks_insert\<close> returns
  \<open>-ENOLCK\<close> and changes nothing, except that clearing the whole file needs no memory and
  succeeds even then.\<close>

theorem locks_insert_no_memory:
  assumes "\<not> (m1 \<and> m2)" "locks_inv ls" "req_ok lk"
  shows "if lk_type lk = F_UNLCK \<and> lk_start lk = 0 \<and> lk_end lk = OFFSET_MAX
         then \<exists>ls'. locks_insert (m1, m2) ls lk = Some (0, ls') \<and> locks_inv ls' \<and>
                (\<forall>x. 0 \<le> x \<longrightarrow> held ls' (lk_owner lk) x = F_UNLCK \<or> OFFSET_MAX < x)
         else locks_insert (m1, m2) ls lk = Some (- ENOLCK, ls)"
proof (cases "lk_type lk = F_UNLCK \<and> lk_start lk = 0 \<and> lk_end lk = OFFSET_MAX")
  case True
  then have "locks_insert (m1, m2) ls lk = locks_insert (True, True) ls lk"
    by (simp add: locks_insert_def)
  with True locks_insert_done [OF assms(2,3)] show ?thesis
    by (auto simp: insert_spec_def covers_def not_less)
next
  case False
  with assms(1) show ?thesis by (auto simp: locks_insert_def)
qed

theorem locks_insert_no_memory_witness:
  "locks_insert (True, False) [mk_lock F_RDLCK 0 99 7] (mk_lock F_WRLCK 10 19 7) =
     Some (- ENOLCK, [mk_lock F_RDLCK 0 99 7])"
  using locks_insert_no_memory [of True False "[mk_lock F_RDLCK 0 99 7]" "mk_lock F_WRLCK 10 19 7"]
  by (simp add: lock_ok_def req_ok_def)

lemma held_type: "locks_inv ls \<Longrightarrow> l \<in> set ls \<Longrightarrow> covers l ow x \<Longrightarrow> held ls ow x = lk_type l"
proof (induction ls)
  case Nil
  then show ?case by simp
next
  case (Cons a ls)
  show ?case
  proof (cases "l \<in> set ls")
    case True
    with Cons.prems have "\<not> covers a ow x" using lock_before_apart by auto
    with True Cons show ?thesis by simp
  next
    case False
    with Cons.prems show ?thesis by simp
  qed
qed

lemma held_cases:
  "held ls ow x = F_UNLCK \<or> (\<exists>l\<in>set ls. covers l ow x \<and> held ls ow x = lk_type l)"
  by (induction ls) auto

text \<open>\<open>locks_conflict\<close> finds a conflicting lock exactly when some other owner holds, at
  some offset of the request, a lock that is incompatible with it (either one is a write
  lock), and what it returns is such a lock of the list.\<close>

lemma locks_conflict_iff:
  assumes "locks_inv ls" "req_ok lk"
  shows "(\<exists>c. locks_conflict ls lk = Some c) \<longleftrightarrow>
           (\<exists>ow x. ow \<noteq> lk_owner lk \<and> lk_start lk \<le> x \<and> x \<le> lk_end lk \<and>
                   held ls ow x \<noteq> F_UNLCK \<and> (held ls ow x = F_WRLCK \<or> lk_type lk = F_WRLCK))"
    (is "?L \<longleftrightarrow> ?R")
proof
  assume ?L
  then obtain c where c: "c \<in> set ls" "lk_owner c \<noteq> lk_owner lk" "lk_start lk \<le> lk_end c"
    "lk_start c \<le> lk_end lk" "lk_type c = F_WRLCK \<or> lk_type lk = F_WRLCK"
    unfolding locks_conflict_def by (blast dest: find_SomeD)
  let ?x = "max (lk_start c) (lk_start lk)"
  from c(1) assms(1) have ok: "lock_ok c" by (simp add: locks_inv_def)
  then have cov: "covers c (lk_owner c) ?x" using c by (auto simp: covers_def lock_ok_def)
  have "held ls (lk_owner c) ?x = lk_type c" by (rule held_type [OF assms(1) c(1) cov])
  moreover have "lk_start lk \<le> ?x" "?x \<le> lk_end lk" using c assms(2) by (auto simp: req_ok_def)
  moreover have "lk_type c \<noteq> F_UNLCK" using ok by (auto simp: lock_ok_def)
  ultimately show ?R using c(2,5) by metis
next
  assume ?R
  then obtain ow x where x: "ow \<noteq> lk_owner lk" "lk_start lk \<le> x" "x \<le> lk_end lk"
    "held ls ow x \<noteq> F_UNLCK" "held ls ow x = F_WRLCK \<or> lk_type lk = F_WRLCK" by blast
  then obtain l where "l \<in> set ls" "covers l ow x" "held ls ow x = lk_type l"
    using held_cases [of ls ow x] by blast
  with x have "locks_conflict ls lk \<noteq> None"
    unfolding locks_conflict_def find_None_iff_set by (fastforce simp: covers_def)
  then show ?L by blast
qed

lemma locks_conflict_iff_witness:
  "(\<exists>c. locks_conflict [mk_lock F_RDLCK 0 99 7] (mk_lock F_WRLCK 10 19 8) = Some c) \<longleftrightarrow>
     (\<exists>ow x. ow \<noteq> 8 \<and> 10 \<le> x \<and> x \<le> 19 \<and> held [mk_lock F_RDLCK 0 99 7] ow x \<noteq> F_UNLCK \<and>
        (held [mk_lock F_RDLCK 0 99 7] ow x = F_WRLCK \<or> F_WRLCK = F_WRLCK))"
  using locks_conflict_iff [of "[mk_lock F_RDLCK 0 99 7]" "mk_lock F_WRLCK 10 19 8"]
  by (simp add: lock_ok_def req_ok_def)

subsection \<open>The lock table as an interface\<close>

text \<open>
  What a client of the table (the handlers of \<open>F_GETLK\<close>, \<open>F_SETLK\<close> and \<open>FLUSH\<close>) relies on,
  and what follows for it.
\<close>

locale lock_table =
  fixes inv :: "'t \<Rightarrow> bool"
    and holds :: "'t \<Rightarrow> u64 \<Rightarrow> off_t \<Rightarrow> int"
    and set_lock :: "'t \<Rightarrow> lock \<Rightarrow> (int \<times> 't) option"
    and get_lock :: "'t \<Rightarrow> lock \<Rightarrow> lock option"
  assumes set_lock_total: "inv t \<Longrightarrow> req_ok r \<Longrightarrow> \<exists>t'. set_lock t r = Some (0, t')"
    and inv_set_lock: "inv t \<Longrightarrow> req_ok r \<Longrightarrow> set_lock t r = Some (0, t') \<Longrightarrow> inv t'"
    and holds_set_lock: "inv t \<Longrightarrow> req_ok r \<Longrightarrow> set_lock t r = Some (0, t') \<Longrightarrow>
          holds t' ow x = (if covers r ow x then lk_type r else holds t ow x)"
    and get_lock_iff: "inv t \<Longrightarrow> req_ok r \<Longrightarrow>
          get_lock t r \<noteq> None \<longleftrightarrow>
            (\<exists>ow x. ow \<noteq> lk_owner r \<and> lk_start r \<le> x \<and> x \<le> lk_end r \<and> holds t ow x \<noteq> F_UNLCK \<and>
                    (holds t ow x = F_WRLCK \<or> lk_type r = F_WRLCK))"
begin

text \<open>No two owners hold incompatible locks at one offset.\<close>

definition exclusive :: "'t \<Rightarrow> bool" where
  "exclusive t \<longleftrightarrow> (\<forall>a b x. a \<noteq> b \<and> holds t a x = F_WRLCK \<longrightarrow> holds t b x = F_UNLCK)"

lemma exclusive_set_lock:
  assumes "inv t" "exclusive t" "req_ok r" "get_lock t r = None" "set_lock t r = Some (0, t')"
  shows "exclusive t'"
proof -
  have free: "holds t ow x = F_UNLCK \<or> holds t ow x \<noteq> F_WRLCK \<and> lk_type r \<noteq> F_WRLCK"
    if "ow \<noteq> lk_owner r" "lk_start r \<le> x" "x \<le> lk_end r" for ow x
    using get_lock_iff [OF assms(1,3)] assms(4) that by blast
  have "holds t' b x = F_UNLCK" if ab: "a \<noteq> b" "holds t' a x = F_WRLCK" for a b x
  proof -
    note eq = holds_set_lock [OF assms(1,3,5)]
    show ?thesis
      using ab assms(2) free [of a x] free [of b x] unfolding eq exclusive_def
      by (fastforce simp: covers_def split: if_splits)
  qed
  then show ?thesis unfolding exclusive_def by blast
qed

lemma set_then_get:
  assumes "inv t" "req_ok r" "lk_type r \<noteq> F_UNLCK" "set_lock t r = Some (0, t')"
    and "req_ok q" "lk_owner q \<noteq> lk_owner r" "lk_start q \<le> lk_end r" "lk_start r \<le> lk_end q"
    and "lk_type r = F_WRLCK \<or> lk_type q = F_WRLCK"
  shows "get_lock t' q \<noteq> None"
proof -
  let ?x = "max (lk_start q) (lk_start r)"
  have "covers r (lk_owner r) ?x" and x: "lk_start q \<le> ?x" "?x \<le> lk_end q"
    using assms(2,5,7,8) by (auto simp: covers_def req_ok_def)
  then have "holds t' (lk_owner r) ?x = lk_type r"
    using holds_set_lock [OF assms(1,2,4)] by simp
  then show ?thesis
    using get_lock_iff [OF inv_set_lock [OF assms(1,2,4)] assms(5)] assms(3,6,9) x by metis
qed

end

interpretation locks: lock_table locks_inv held "locks_insert (True, True)" locks_conflict
proof
  fix t r t' ow x
  assume inv: "locks_inv t" and req: "req_ok r"
  obtain t0 where t0: "locks_insert (True, True) t r = Some (0, t0)" "insert_spec r t t0"
    using locks_insert_done [OF inv req] by blast
  then show "\<exists>t'. locks_insert (True, True) t r = Some (0, t')" by blast
  show "locks_inv t'" if "locks_insert (True, True) t r = Some (0, t')"
    using that t0 by (simp add: insert_spec_def)
  show "held t' ow x = (if covers r ow x then lk_type r else held t ow x)"
    if "locks_insert (True, True) t r = Some (0, t')"
    using that t0 by (simp add: insert_spec_def)
  show "locks_conflict t r \<noteq> None \<longleftrightarrow>
          (\<exists>ow x. ow \<noteq> lk_owner r \<and> lk_start r \<le> x \<and> x \<le> lk_end r \<and> held t ow x \<noteq> F_UNLCK \<and>
                  (held t ow x = F_WRLCK \<or> lk_type r = F_WRLCK))"
    using locks_conflict_iff [OF inv req] by simp
qed


text \<open>C22: Mutual exclusion: if no two owners hold incompatible locks at any offset and the
  request was found free of conflicts by \<open>locks_conflict\<close>, then after \<open>locks_insert\<close> still no
  two owners hold incompatible locks.\<close>

theorem locks_exclusive:
  assumes "locks_inv ls" "\<forall>a b x. a \<noteq> b \<and> held ls a x = F_WRLCK \<longrightarrow> held ls b x = F_UNLCK"
    and "req_ok lk" "locks_conflict ls lk = None" "locks_insert (True, True) ls lk = Some (0, ls')"
  shows "\<forall>a b x. a \<noteq> b \<and> held ls' a x = F_WRLCK \<longrightarrow> held ls' b x = F_UNLCK"
  using locks.exclusive_set_lock assms unfolding locks.exclusive_def by blast

theorem locks_exclusive_witness:
  "\<exists>ls'. locks_insert (True, True) [] (mk_lock F_WRLCK 10 19 7) = Some (0, ls') \<and>
     (\<forall>a b x. a \<noteq> b \<and> held ls' a x = F_WRLCK \<longrightarrow> held ls' b x = F_UNLCK)"
proof -
  have h: "locks_inv []" "\<forall>a b x. a \<noteq> b \<and> held [] a x = F_WRLCK \<longrightarrow> held [] b x = F_UNLCK"
    "req_ok (mk_lock F_WRLCK 10 19 7)" "locks_conflict [] (mk_lock F_WRLCK 10 19 7) = None"
    "locks_insert (True, True) [] (mk_lock F_WRLCK 10 19 7) = Some (0, [mk_lock F_WRLCK 10 19 7])"
    by (simp_all add: req_ok_def locks_conflict_def locks_insert_def locks_place_def)
  show ?thesis using locks_exclusive [OF h] h(5) by blast
qed

text \<open>\<open>lock_to_flock\<close> followed by \<open>flock_to_lock\<close> gives back type, range and pid of every
  lock the list may hold, including a lock to the end of the file (length 0).\<close>

theorem flock_round_trip:
  assumes "0 \<le> lk_start lk" "lk_start lk \<le> lk_end lk"
  shows "flock_to_lock (lock_to_flock lk fl) = lk\<lparr>lk_owner := 0\<rparr>"
  using assms by (simp add: flock_to_lock_def lock_to_flock_def)

theorem flock_round_trip_witness:
  "flock_to_lock (lock_to_flock (mk_lock F_WRLCK 5 OFFSET_MAX 7)
      \<lparr>l_type = 0, l_whence = 0, l_start = 0, l_len = 0, l_pid = 0\<rparr>) =
     mk_lock F_WRLCK 5 OFFSET_MAX 0"
  using flock_round_trip [of "mk_lock F_WRLCK 5 OFFSET_MAX 7"] by simp

end
