(* ===== verification/Fuse_Opt.thy ===== *)
theory Fuse_Opt
  imports Complex_Main Fuse_Prelude
begin

text \<open>
  The option parser, \<open>lib/fuse_opt.c\<close>: argument vectors, option templates, comma separated
  option groups with backslash escapes, and \<open>fuse_opt_parse\<close>.

  A \<open>struct fuse_args\<close> keeps its arguments as a list (\<open>argc\<close> is its length), \<open>None\<close> for a null
  \<open>argv\<close>. The structure an option table writes into (\<open>data\<close>) is a map from its fields, which
  stand for the byte offsets of the C table, to values. The parsing context is a record; the
  option table and the processing function, which never change during a parse, are arguments.
\<close>

subsection \<open>Values written by options; sscanf\<close>

datatype optval = VInt int | VStr cstring | VDbl real

type_synonym 'k optdata = "'k \<Rightarrow> optval option"

definition is_space :: "char \<Rightarrow> bool" where
  "is_space c \<longleftrightarrow> c \<in> {CHR '' '', CHR 0x09, CHR 0x0A, CHR 0x0B, CHR 0x0C, CHR 0x0D}"

definition digit_val :: "char \<Rightarrow> nat" where
  "digit_val c = (let n = of_char c in
     if 48 \<le> n \<and> n \<le> 57 then n - 48
     else if 97 \<le> n \<and> n \<le> 102 then n - 87
     else if 65 \<le> n \<and> n \<le> 70 then n - 55 else 99)"

definition digits_value :: "nat \<Rightarrow> cstring \<Rightarrow> int" where
  "digits_value b ds = foldl (\<lambda>v c. v * int b + int (digit_val c)) 0 ds"

definition scan_sign :: "cstring \<Rightarrow> bool \<times> cstring" where
  "scan_sign s = (case s of
       c # cs \<Rightarrow> if c = CHR ''-'' then (True, cs) else if c = CHR ''+'' then (False, cs) else (False, s)
     | [] \<Rightarrow> (False, s))"

text \<open>An integer in base \<open>b\<close>: white space, an optional sign, at least one digit.\<close>

definition scan_int :: "nat \<Rightarrow> cstring \<Rightarrow> int option" where
  "scan_int b s =
     (let (neg, t) = scan_sign (dropWhile is_space s);
          ds = takeWhile (\<lambda>c. digit_val c < b) t
      in if ds = [] then None
         else Some (if neg then - digits_value b ds else digits_value b ds))"

text \<open>A decimal fraction: sign, digits with an optional point, optional exponent.\<close>

definition scan_exponent :: "cstring \<Rightarrow> int" where
  "scan_exponent s = (case s of
       c # cs \<Rightarrow> if c = CHR ''e'' \<or> c = CHR ''E'' then
                   (let (neg, t) = scan_sign cs; ds = takeWhile (\<lambda>c. digit_val c < 10) t
                    in if neg then - digits_value 10 ds else digits_value 10 ds)
                 else 0
     | [] \<Rightarrow> 0)"

definition scan_double :: "cstring \<Rightarrow> real option" where
  "scan_double s =
     (let (neg, t) = scan_sign (dropWhile is_space s);
          ip = takeWhile (\<lambda>c. digit_val c < 10) t; r = dropWhile (\<lambda>c. digit_val c < 10) t;
          (fp, r') = (case r of
              c # cs \<Rightarrow> if c = CHR ''.'' then (takeWhile (\<lambda>c. digit_val c < 10) cs,
                                                dropWhile (\<lambda>c. digit_val c < 10) cs)
                       else ([], r)
            | [] \<Rightarrow> ([], r));
          m = real_of_int (digits_value 10 (ip @ fp)) / 10 ^ length fp * 10 powi (scan_exponent r')
      in if ip = [] \<and> fp = [] then None else Some (if neg then - m else m))"

text \<open>
  The one conversion \<open>sscanf(param, format, var)\<close> makes, for the integer and floating point
  conversions option tables use (\<open>%d\<close>, \<open>%u\<close>, \<open>%o\<close>, \<open>%x\<close>, \<open>%f\<close>, each with \<open>l\<close> modifiers);
  integers are stored at the width of the variable. \<open>None\<close> is any result but 1. A \<open>double\<close>
  is a real number: rounding is not modelled.
\<close>

definition sscanf :: "cstring \<Rightarrow> cstring \<Rightarrow> optval option" where
  "sscanf param fmt =
     (let long = (take 2 fmt = ''%l''); c = hd (dropWhile (\<lambda>c. c = CHR ''l'') (tl fmt) @ '' '');
          sgn32 = (\<lambda>v. VInt (if long then sint (word_of_int v :: 64 word)
                              else sint (word_of_int v :: 32 word)));
          uns32 = (\<lambda>v. VInt (if long then uint (word_of_int v :: 64 word)
                              else uint (word_of_int v :: 32 word)))
      in if c = CHR ''d'' then map_option sgn32 (scan_int 10 param)
         else if c = CHR ''u'' then map_option uns32 (scan_int 10 param)
         else if c = CHR ''o'' then map_option uns32 (scan_int 8 param)
         else if c = CHR ''x'' then map_option uns32 (scan_int 16 param)
         else if c = CHR ''f'' then map_option VDbl (scan_double param)
         else None)"

subsection \<open>Argument vectors\<close>

record fuse_args =
  argv :: "cstring list option"
  allocated :: bool

definition args_list :: "fuse_args \<Rightarrow> cstring list" where
  "args_list a = (case argv a of None \<Rightarrow> [] | Some xs \<Rightarrow> xs)"

abbreviation (input) FUSE_ARGS_INIT :: "cstring list option \<Rightarrow> fuse_args" where
  "FUSE_ARGS_INIT xs \<equiv> \<lparr>argv = xs, allocated = False\<rparr>"

definition fuse_opt_free_args :: "fuse_args \<Rightarrow> fuse_args" where
  "fuse_opt_free_args a = a\<lparr>argv := None, allocated := False\<rparr>"

definition fuse_opt_add_arg ::
  "allocs \<Rightarrow> fuse_args \<Rightarrow> cstring \<Rightarrow> (int \<times> fuse_args \<times> allocs) option" where
  "fuse_opt_add_arg mem args arg =
     (if argv args = None \<or> allocated args then
        (let (newargv, mem) = alloc mem;
             (newarg, mem) = (if newargv then alloc mem else (False, mem))
         in if \<not> newargv \<or> \<not> newarg then Some (- 1, args, mem)
            else Some (0, args\<lparr>argv := Some (args_list args @ [arg]), allocated := True\<rparr>, mem))
      else None)"

definition fuse_opt_insert_arg_common ::
  "allocs \<Rightarrow> fuse_args \<Rightarrow> nat \<Rightarrow> cstring \<Rightarrow> (int \<times> fuse_args \<times> allocs) option" where
  "fuse_opt_insert_arg_common mem args pos arg =
     (if pos \<le> length (args_list args) then do {
        (res, args, mem) \<leftarrow> fuse_opt_add_arg mem args arg;
        if res = - 1 then Some (- 1, args, mem)
        else
          (let v = args_list args; argc = length v
           in if pos \<noteq> argc - 1 then
                (let newarg = v ! (argc - 1);
                     moved = take (pos + 1) v @ take (argc - pos - 1) (drop pos v)
                 in Some (0, args\<lparr>argv := Some (moved[pos := newarg])\<rparr>, mem))
              else Some (0, args, mem))
      } else None)"

definition fuse_opt_insert_arg ::
  "allocs \<Rightarrow> fuse_args \<Rightarrow> nat \<Rightarrow> cstring \<Rightarrow> (int \<times> fuse_args \<times> allocs) option" where
  "fuse_opt_insert_arg mem args pos arg = fuse_opt_insert_arg_common mem args pos arg"

subsection \<open>Option strings\<close>

primrec escape :: "bool \<Rightarrow> cstring \<Rightarrow> cstring" where
  "escape esc [] = []"
| "escape esc (c # cs) =
     (if esc \<and> (c = CHR '','' \<or> c = CHR 0x5C) then CHR 0x5C # c # escape esc cs
      else c # escape esc cs)"

definition add_opt_common ::
  "allocs \<Rightarrow> cstring option \<Rightarrow> cstring \<Rightarrow> bool \<Rightarrow> int \<times> cstring option \<times> allocs" where
  "add_opt_common mem opts opt esc =
     (let old = (case opts of None \<Rightarrow> [] | Some s \<Rightarrow> s); (d, mem) = alloc mem
      in if \<not> d then (- 1, opts, mem)
         else (0, Some (old @ (if old \<noteq> [] then '','' else []) @ escape esc opt), mem))"

definition fuse_opt_add_opt ::
  "allocs \<Rightarrow> cstring option \<Rightarrow> cstring \<Rightarrow> int \<times> cstring option \<times> allocs" where
  "fuse_opt_add_opt mem opts opt = add_opt_common mem opts opt False"

definition fuse_opt_add_opt_escaped ::
  "allocs \<Rightarrow> cstring option \<Rightarrow> cstring \<Rightarrow> int \<times> cstring option \<times> allocs" where
  "fuse_opt_add_opt_escaped mem opts opt = add_opt_common mem opts opt True"

subsection \<open>Templates\<close>

text \<open>An entry of an option table; \<open>offset = None\<close> is the value \<open>-1U\<close> of \<open>FUSE_OPT_KEY\<close>.\<close>

record 'k fuse_opt =
  templ :: cstring
  offset :: "'k option"
  opt_value :: int

abbreviation (input) FUSE_OPT_KEY_OPT :: int where "FUSE_OPT_KEY_OPT \<equiv> - 1"
abbreviation (input) FUSE_OPT_KEY_NONOPT :: int where "FUSE_OPT_KEY_NONOPT \<equiv> - 2"
abbreviation (input) FUSE_OPT_KEY_KEEP :: int where "FUSE_OPT_KEY_KEEP \<equiv> - 3"
abbreviation (input) FUSE_OPT_KEY_DISCARD :: int where "FUSE_OPT_KEY_DISCARD \<equiv> - 4"

definition strchr :: "cstring \<Rightarrow> char \<Rightarrow> nat option" where
  "strchr s c = (if c \<in> set s then Some (length (takeWhile (\<lambda>x. x \<noteq> c) s)) else None)"

text \<open>\<open>match_template\<close>: the position it stores in \<open>*sepp\<close> when it matches.\<close>

definition match_template :: "cstring \<Rightarrow> cstring \<Rightarrow> nat option" where
  "match_template t arg =
     (let exact = (if t = arg then Some 0 else None);
          sep = (case strchr t (CHR ''='') of None \<Rightarrow> strchr t (CHR '' '') | Some i \<Rightarrow> Some i)
      in case sep of
           None \<Rightarrow> exact
         | Some i \<Rightarrow>
             if Suc i = length t \<or> t ! Suc i = CHR ''%'' then
               (let tlen = (if t ! i = CHR ''='' then Suc i else i)
                in if tlen \<le> length arg \<and> take tlen arg = take tlen t then Some i else exact)
             else exact)"

text \<open>\<open>find_opt\<close>: the first matching entry, the table after it and the separator position.\<close>

primrec find_opt :: "'k fuse_opt list \<Rightarrow> cstring \<Rightarrow> ('k fuse_opt \<times> 'k fuse_opt list \<times> nat) option" where
  "find_opt [] arg = None"
| "find_opt (opt # opts) arg =
     (case match_template (templ opt) arg of
        Some sep \<Rightarrow> Some (opt, opts, sep)
      | None \<Rightarrow> find_opt opts arg)"

definition fuse_opt_match :: "'k fuse_opt list \<Rightarrow> cstring \<Rightarrow> int" where
  "fuse_opt_match opts opt = (case find_opt opts opt of None \<Rightarrow> 0 | Some _ \<Rightarrow> 1)"

lemma find_opt_shorter: "find_opt opts arg = Some (opt, rest, sep) \<Longrightarrow> length rest < length opts"
  by (induction opts) (auto split: option.splits)

subsection \<open>The parsing context\<close>

record 'k fuse_opt_context =
  data :: "'k optdata"
  argctr :: nat
  ctx_argv :: "cstring list"
  outargs :: fuse_args
  opts :: "cstring option"
  nonopt :: nat
  mem :: allocs

text \<open>A processing function gets the data, the argument, its key and the arguments so far, which it may change.\<close>

type_synonym 'k opt_proc =
  "'k optdata \<Rightarrow> cstring \<Rightarrow> int \<Rightarrow> fuse_args \<Rightarrow> allocs \<Rightarrow> (int \<times> 'k optdata \<times> fuse_args \<times> allocs) option"

definition next_arg :: "'k fuse_opt_context \<Rightarrow> int \<times> 'k fuse_opt_context" where
  "next_arg ctx =
     (if argctr ctx + 1 \<ge> length (ctx_argv ctx) then (- 1, ctx)
      else (0, ctx\<lparr>argctr := argctr ctx + 1\<rparr>))"

definition add_arg ::
  "'k fuse_opt_context \<Rightarrow> cstring \<Rightarrow> (int \<times> 'k fuse_opt_context) option" where
  "add_arg ctx arg = do {
     (res, out, m) \<leftarrow> fuse_opt_add_arg (mem ctx) (outargs ctx) arg;
     Some (res, ctx\<lparr>outargs := out, mem := m\<rparr>)
   }"

definition add_opt :: "'k fuse_opt_context \<Rightarrow> cstring \<Rightarrow> int \<times> 'k fuse_opt_context" where
  "add_opt ctx opt =
     (let (res, os, m) = add_opt_common (mem ctx) (opts ctx) opt True
      in (res, ctx\<lparr>opts := os, mem := m\<rparr>))"

definition call_proc ::
  "'k opt_proc option \<Rightarrow> 'k fuse_opt_context \<Rightarrow> cstring \<Rightarrow> int \<Rightarrow> bool \<Rightarrow>
   (int \<times> 'k fuse_opt_context) option" where
  "call_proc proc ctx arg key isopt =
     (let keep = (\<lambda>ctx. if isopt then Some (add_opt ctx arg) else add_arg ctx arg)
      in if key = FUSE_OPT_KEY_DISCARD then Some (0, ctx)
         else case proc of
             Some p \<Rightarrow>
               if key \<noteq> FUSE_OPT_KEY_KEEP then do {
                 (res, d, out, m) \<leftarrow> p (data ctx) arg key (outargs ctx) (mem ctx);
                 let ctx = ctx\<lparr>data := d, outargs := out, mem := m\<rparr>;
                 if res = - 1 \<or> res = 0 then Some (res, ctx) else keep ctx
               }
               else keep ctx
           | None \<Rightarrow> keep ctx)"

definition process_opt_param ::
  "'k fuse_opt_context \<Rightarrow> 'k \<Rightarrow> cstring \<Rightarrow> cstring \<Rightarrow> (int \<times> 'k fuse_opt_context) option" where
  "process_opt_param ctx var fmt param =
     (if fmt = [] \<or> hd fmt \<noteq> CHR ''%'' then None
      else if tl fmt \<noteq> [] \<and> hd (tl fmt) = CHR ''s'' then
        (let (copy, m) = alloc (mem ctx); ctx = ctx\<lparr>mem := m\<rparr>
         in if \<not> copy then Some (- 1, ctx)
            else Some (0, ctx\<lparr>data := (data ctx)(var \<mapsto> VStr param)\<rparr>))
      else case sscanf param fmt of
          None \<Rightarrow> Some (- 1, ctx)
        | Some v \<Rightarrow> Some (0, ctx\<lparr>data := (data ctx)(var \<mapsto> v)\<rparr>))"

definition process_opt ::
  "'k opt_proc option \<Rightarrow> 'k fuse_opt_context \<Rightarrow> 'k fuse_opt \<Rightarrow> nat \<Rightarrow> cstring \<Rightarrow> bool \<Rightarrow>
   (int \<times> 'k fuse_opt_context) option" where
  "process_opt proc ctx opt sep arg isopt =
     (case offset opt of
        None \<Rightarrow> do {
          (res, ctx) \<leftarrow> call_proc proc ctx arg (opt_value opt) isopt;
          Some (if res = - 1 then - 1 else 0, ctx)
        }
      | Some var \<Rightarrow>
          if sep \<noteq> 0 \<and> Suc sep < length (templ opt) then
            (let param = drop (if templ opt ! sep = CHR ''='' then Suc sep else sep) arg
             in do {
               (res, ctx) \<leftarrow> process_opt_param ctx var (drop (Suc sep) (templ opt)) param;
               Some (if res = - 1 then - 1 else 0, ctx)
             })
          else Some (0, ctx\<lparr>data := (data ctx)(var \<mapsto> VInt (opt_value opt))\<rparr>))"

definition process_opt_sep_arg ::
  "'k opt_proc option \<Rightarrow> 'k fuse_opt_context \<Rightarrow> 'k fuse_opt \<Rightarrow> nat \<Rightarrow> cstring \<Rightarrow> bool \<Rightarrow>
   (int \<times> 'k fuse_opt_context) option" where
  "process_opt_sep_arg proc ctx opt sep arg isopt =
     (let (res, ctx) = next_arg ctx
      in if res = - 1 then Some (- 1, ctx)
         else
           (let param = ctx_argv ctx ! argctr ctx; (newarg, m) = alloc (mem ctx);
                ctx = ctx\<lparr>mem := m\<rparr>
            in if \<not> newarg then Some (- 1, ctx)
               else process_opt proc ctx opt sep (take sep arg @ param) isopt))"

text \<open>The loop of \<open>process_gopt\<close> over the entries of the table that match.\<close>

function process_gopt_loop ::
  "'k opt_proc option \<Rightarrow> 'k fuse_opt list \<Rightarrow> cstring \<Rightarrow> bool \<Rightarrow> 'k fuse_opt_context \<Rightarrow>
   (int \<times> 'k fuse_opt_context) option" where
  "process_gopt_loop proc tbl arg isopt ctx =
     (case find_opt tbl arg of
        None \<Rightarrow> Some (0, ctx)
      | Some (opt, rest, sep) \<Rightarrow> do {
          (res, ctx) \<leftarrow>
            (if sep \<noteq> 0 \<and> templ opt ! sep = CHR '' '' \<and> length arg = sep
             then process_opt_sep_arg proc ctx opt sep arg isopt
             else process_opt proc ctx opt sep arg isopt);
          if res = - 1 then Some (- 1, ctx) else process_gopt_loop proc rest arg isopt ctx
        })"
  by pat_completeness auto
termination
  by (relation "measure (\<lambda>(proc, tbl, arg, isopt, ctx). length tbl)")
    (auto dest: find_opt_shorter)

declare process_gopt_loop.simps [simp del]

definition process_gopt ::
  "'k opt_proc option \<Rightarrow> 'k fuse_opt list \<Rightarrow> 'k fuse_opt_context \<Rightarrow> cstring \<Rightarrow> bool \<Rightarrow>
   (int \<times> 'k fuse_opt_context) option" where
  "process_gopt proc tbl ctx arg isopt =
     (case find_opt tbl arg of
        Some _ \<Rightarrow> process_gopt_loop proc tbl arg isopt ctx
      | None \<Rightarrow> call_proc proc ctx arg FUSE_OPT_KEY_OPT isopt)"

text \<open>
  \<open>process_real_option_group\<close> reads the string through \<open>s\<close> and writes the current option back
  into the same buffer through \<open>d\<close>, which never passes \<open>s\<close>; \<open>d\<close> is the option so far.
\<close>

fun process_real_option_group ::
  "'k opt_proc option \<Rightarrow> 'k fuse_opt list \<Rightarrow> 'k fuse_opt_context \<Rightarrow> cstring \<Rightarrow> cstring \<Rightarrow>
   (int \<times> 'k fuse_opt_context) option" where
  "process_real_option_group proc tbl ctx d [] = do {
     (res, ctx) \<leftarrow> process_gopt proc tbl ctx d True;
     Some (if res = - 1 then - 1 else 0, ctx)
   }"
| "process_real_option_group proc tbl ctx d (c # s) =
     (if c = CHR '','' then do {
        (res, ctx) \<leftarrow> process_gopt proc tbl ctx d True;
        if res = - 1 then Some (- 1, ctx) else process_real_option_group proc tbl ctx [] s
      }
      else case s of
          e # s' \<Rightarrow> if c = CHR 0x5C then process_real_option_group proc tbl ctx (d @ [e]) s'
                    else process_real_option_group proc tbl ctx (d @ [c]) s
        | [] \<Rightarrow> process_real_option_group proc tbl ctx (d @ [c]) s)"

definition process_option_group ::
  "'k opt_proc option \<Rightarrow> 'k fuse_opt list \<Rightarrow> 'k fuse_opt_context \<Rightarrow> cstring \<Rightarrow>
   (int \<times> 'k fuse_opt_context) option" where
  "process_option_group proc tbl ctx os =
     (let (copy, m) = alloc (mem ctx); ctx = ctx\<lparr>mem := m\<rparr>
      in if \<not> copy then Some (- 1, ctx)
         else process_real_option_group proc tbl ctx [] os)"

definition process_one ::
  "'k opt_proc option \<Rightarrow> 'k fuse_opt list \<Rightarrow> 'k fuse_opt_context \<Rightarrow> cstring \<Rightarrow>
   (int \<times> 'k fuse_opt_context) option" where
  "process_one proc tbl ctx arg =
     (if nonopt ctx \<noteq> 0 \<or> take 1 arg \<noteq> ''-'' then call_proc proc ctx arg FUSE_OPT_KEY_NONOPT False
      else if take 2 arg = ''-o'' then
        if length arg > 2 then process_option_group proc tbl ctx (drop 2 arg)
        else
          (let (res, ctx) = next_arg ctx
           in if res = - 1 then Some (- 1, ctx)
              else process_option_group proc tbl ctx (ctx_argv ctx ! argctr ctx))
      else if arg = ''--'' then do {
        (res, ctx) \<leftarrow> add_arg ctx arg;
        if res = - 1 then Some (- 1, ctx)
        else Some (0, ctx\<lparr>nonopt := length (args_list (outargs ctx))\<rparr>)
      }
      else process_gopt proc tbl ctx arg False)"


text \<open>
  No step of the parser touches the argument vector it reads or moves back in it: what makes
  the loop of \<open>opt_parse\<close> end.
\<close>

definition ctx_grows :: "'k fuse_opt_context \<Rightarrow> 'k fuse_opt_context \<Rightarrow> bool" where
  "ctx_grows ctx ctx' \<longleftrightarrow> ctx_argv ctx' = ctx_argv ctx \<and> argctr ctx \<le> argctr ctx'"

lemma ctx_grows_refl [simp]: "ctx_grows ctx ctx"
  by (simp add: ctx_grows_def)

lemma ctx_grows_trans [trans]: "ctx_grows a b \<Longrightarrow> ctx_grows b c \<Longrightarrow> ctx_grows a c"
  by (simp add: ctx_grows_def)

lemma next_arg_grows: "next_arg ctx = (r, ctx') \<Longrightarrow> ctx_grows ctx ctx'"
  by (auto simp: next_arg_def ctx_grows_def split: if_splits)

lemma add_arg_grows: "add_arg ctx arg = Some (r, ctx') \<Longrightarrow> ctx_grows ctx ctx'"
  by (auto simp: add_arg_def ctx_grows_def bind_eq_Some_conv)

lemma add_opt_grows: "add_opt ctx arg = (r, ctx') \<Longrightarrow> ctx_grows ctx ctx'"
  by (auto simp: add_opt_def ctx_grows_def split: prod.splits)

lemma call_proc_grows: "call_proc proc ctx arg key isopt = Some (r, ctx') \<Longrightarrow> ctx_grows ctx ctx'"
  by (auto simp: call_proc_def Let_def bind_eq_Some_conv split: if_splits option.splits prod.splits
           dest!: add_opt_grows add_arg_grows)
    (auto simp: ctx_grows_def)

lemma process_opt_param_grows:
  "process_opt_param ctx var fmt param = Some (r, ctx') \<Longrightarrow> ctx_grows ctx ctx'"
  by (auto simp: process_opt_param_def ctx_grows_def Let_def split: if_splits option.splits prod.splits)

lemma process_opt_grows:
  "process_opt proc ctx opt sep arg isopt = Some (r, ctx') \<Longrightarrow> ctx_grows ctx ctx'"
  by (auto simp: process_opt_def Let_def bind_eq_Some_conv split: if_splits option.splits
           dest: call_proc_grows process_opt_param_grows)
    (auto simp: ctx_grows_def)

lemma process_opt_sep_arg_grows:
  assumes "process_opt_sep_arg proc ctx opt sep arg isopt = Some (r, ctx')"
  shows "ctx_grows ctx ctx'"
proof -
  obtain r1 ctx1 where n: "next_arg ctx = (r1, ctx1)" by fastforce
  then have g: "ctx_grows ctx ctx1" by (rule next_arg_grows)
  show ?thesis
    using assms g n by (auto simp: process_opt_sep_arg_def Let_def split: if_splits prod.splits
        dest!: process_opt_grows) (auto simp: ctx_grows_def)
qed

lemma process_gopt_loop_grows:
  "process_gopt_loop proc tbl arg isopt ctx = Some (r, ctx') \<Longrightarrow> ctx_grows ctx ctx'"
proof (induction tbl arbitrary: ctx rule: length_induct)
  case (1 tbl)
  show ?case
  proof (cases "find_opt tbl arg")
    case None
    with "1.prems" show ?thesis by (simp add: process_gopt_loop.simps [of _ tbl])
  next
    case (Some a)
    then obtain opt rest sep where f: "find_opt tbl arg = Some (opt, rest, sep)"
      by (cases a) auto
    define step where "step = (if sep \<noteq> 0 \<and> templ opt ! sep = CHR '' '' \<and> length arg = sep
             then process_opt_sep_arg proc ctx opt sep arg isopt
             else process_opt proc ctx opt sep arg isopt)"
    from "1.prems" f obtain res c where c: "step = Some (res, c)"
      and r: "(if res = - 1 then Some (- 1, c) else process_gopt_loop proc rest arg isopt c) = Some (r, ctx')"
      unfolding step_def by (subst (asm) process_gopt_loop.simps) (auto simp: bind_eq_Some_conv)
    have "ctx_grows ctx c"
      using c unfolding step_def
      by (auto split: if_splits dest: process_opt_grows process_opt_sep_arg_grows)
    moreover have "ctx_grows c ctx'"
      using r "1.IH" find_opt_shorter [OF f] by (auto split: if_splits)
    ultimately show ?thesis by (rule ctx_grows_trans)
  qed
qed

lemma process_gopt_grows:
  "process_gopt proc tbl ctx arg isopt = Some (r, ctx') \<Longrightarrow> ctx_grows ctx ctx'"
  by (auto simp: process_gopt_def split: option.splits
      dest: process_gopt_loop_grows call_proc_grows)

text \<open>
  The reference meaning of an option group: cut the string at its unescaped commas, remove the
  escapes, process the pieces in order until one fails.
\<close>

fun split_opts :: "cstring \<Rightarrow> cstring \<Rightarrow> cstring list" where
  "split_opts d [] = [d]"
| "split_opts d [c] = (if c = CHR '','' then [d, []] else [d @ [c]])"
| "split_opts d (c # e # s) =
     (if c = CHR '','' then d # split_opts [] (e # s)
      else if c = CHR 0x5C then split_opts (d @ [e]) s
      else split_opts (d @ [c]) (e # s))"

primrec process_gopts ::
  "'k opt_proc option \<Rightarrow> 'k fuse_opt list \<Rightarrow> 'k fuse_opt_context \<Rightarrow> cstring list \<Rightarrow>
   (int \<times> 'k fuse_opt_context) option" where
  "process_gopts proc tbl ctx [] = Some (0, ctx)"
| "process_gopts proc tbl ctx (a # as) = do {
     (res, ctx) \<leftarrow> process_gopt proc tbl ctx a True;
     if res = - 1 then Some (- 1, ctx) else process_gopts proc tbl ctx as
   }"

lemma process_real_option_group_eq:
  "process_real_option_group proc tbl ctx d s = process_gopts proc tbl ctx (split_opts d s)"
proof (induction d s arbitrary: ctx rule: split_opts.induct)
  case (1 d)
  then show ?case by (auto intro!: Option.bind_cong)
next
  case (2 d c)
  then show ?case by (auto intro!: Option.bind_cong)
next
  case (3 d c e s)
  show ?case
  proof (cases "c = CHR '',''")
    case True
    with 3(1) show ?thesis
      by (subst process_real_option_group.simps(2)) (simp del: process_real_option_group.simps(2) cong: if_cong)
  next
    case False
    with 3(2,3) show ?thesis
      by (simp del: process_real_option_group.simps(2)
          add: process_real_option_group.simps(2) [of _ _ _ _ c])
  qed
qed

lemma process_gopts_grows:
  "process_gopts proc tbl ctx as = Some (r, ctx') \<Longrightarrow> ctx_grows ctx ctx'"
proof (induction as arbitrary: ctx)
  case Nil
  then show ?case by simp
next
  case (Cons a as)
  then obtain res c where c: "process_gopt proc tbl ctx a True = Some (res, c)"
    and "(if res = - 1 then Some (- 1, c) else process_gopts proc tbl c as) = Some (r, ctx')"
    by (auto simp: bind_eq_Some_conv)
  then have "ctx_grows c ctx'" using Cons.IH by (auto split: if_splits)
  with process_gopt_grows [OF c] show ?case by (rule ctx_grows_trans)
qed

lemma process_real_option_group_grows:
  "process_real_option_group proc tbl ctx d s = Some (r, ctx') \<Longrightarrow> ctx_grows ctx ctx'"
  by (simp add: process_real_option_group_eq process_gopts_grows)

lemma process_option_group_grows:
  "process_option_group proc tbl ctx os = Some (r, ctx') \<Longrightarrow> ctx_grows ctx ctx'"
  by (auto simp: process_option_group_def Let_def split: if_splits prod.splits
      dest!: process_real_option_group_grows) (auto simp: ctx_grows_def)

lemma process_one_grows:
  assumes "process_one proc tbl ctx arg = Some (r, ctx')"
  shows "ctx_grows ctx ctx'"
proof -
  obtain r1 ctx1 where n: "next_arg ctx = (r1, ctx1)" by fastforce
  then have g: "ctx_grows ctx ctx1" by (rule next_arg_grows)
  show ?thesis
    using assms g n
    by (auto simp: process_one_def Let_def bind_eq_Some_conv split: if_splits prod.splits
        dest!: process_option_group_grows process_gopt_grows call_proc_grows add_arg_grows
        intro: ctx_grows_trans) (auto simp: ctx_grows_def)
qed

subsection \<open>Parsing\<close>

text \<open>The \<open>for\<close> loop of \<open>opt_parse\<close>.\<close>

function opt_parse_loop ::
  "'k opt_proc option \<Rightarrow> 'k fuse_opt list \<Rightarrow> 'k fuse_opt_context \<Rightarrow>
   (int \<times> 'k fuse_opt_context) option" where
  "opt_parse_loop proc tbl ctx =
     (if argctr ctx < length (ctx_argv ctx) then do {
        (res, ctx) \<leftarrow> process_one proc tbl ctx (ctx_argv ctx ! argctr ctx);
        if res = - 1 then Some (- 1, ctx)
        else opt_parse_loop proc tbl (ctx\<lparr>argctr := argctr ctx + 1\<rparr>)
      } else Some (0, ctx))"
  by pat_completeness auto
termination
  by (relation "measure (\<lambda>(proc, tbl, ctx). length (ctx_argv ctx) - argctr ctx)")
    (auto dest!: process_one_grows simp: ctx_grows_def)

declare opt_parse_loop.simps [simp del]

definition opt_parse ::
  "'k opt_proc option \<Rightarrow> 'k fuse_opt list \<Rightarrow> 'k fuse_opt_context \<Rightarrow>
   (int \<times> 'k fuse_opt_context) option" where
  "opt_parse proc tbl ctx = do {
     (res, ctx) \<leftarrow> (if ctx_argv ctx \<noteq> [] then add_arg ctx (ctx_argv ctx ! 0) else Some (0, ctx));
     if res = - 1 then Some (- 1, ctx) else do {
       (res, ctx) \<leftarrow> opt_parse_loop proc tbl (ctx\<lparr>argctr := 1\<rparr>);
       if res = - 1 then Some (- 1, ctx) else do {
         (res, ctx) \<leftarrow>
           (case opts ctx of
              None \<Rightarrow> Some (0 :: int, ctx)
            | Some os \<Rightarrow> do {
                (r1, out, m) \<leftarrow> fuse_opt_insert_arg (mem ctx) (outargs ctx) 1 ''-o'';
                if r1 = - 1 then Some (- 1, ctx\<lparr>outargs := out, mem := m\<rparr>) else do {
                  (r2, out, m) \<leftarrow> fuse_opt_insert_arg m out 2 os;
                  Some (if r2 = - 1 then - 1 else 0, ctx\<lparr>outargs := out, mem := m\<rparr>)
                }
              });
         if res = - 1 then Some (- 1, ctx)
         else
           (let v = args_list (outargs ctx)
            in if nonopt ctx \<noteq> 0 \<and> nonopt ctx = length v \<and> last v = ''--''
               then Some (0, ctx\<lparr>outargs := (outargs ctx)\<lparr>argv := Some (butlast v)\<rparr>\<rparr>)
               else Some (0, ctx))
       }
     }
   }"

text \<open>
  \<open>fuse_opt_parse\<close>: the C result, the arguments and the data afterwards. The caller's vector is
  replaced by the new one only when parsing succeeds. \<open>args = None\<close> is the null pointer.
\<close>

definition fuse_opt_parse ::
  "allocs \<Rightarrow> fuse_args option \<Rightarrow> 'k optdata \<Rightarrow> 'k fuse_opt list \<Rightarrow> 'k opt_proc option \<Rightarrow>
   (int \<times> fuse_args option \<times> 'k optdata \<times> allocs) option" where
  "fuse_opt_parse m args d tbl proc =
     (case args of
        None \<Rightarrow> Some (0, args, d, m)
      | Some a \<Rightarrow>
          if args_list a = [] then Some (0, args, d, m)
          else do {
            (res, ctx) \<leftarrow> opt_parse proc tbl
               \<lparr>data = d, argctr = 0, ctx_argv = args_list a, outargs = FUSE_ARGS_INIT None,
                opts = None, nonopt = 0, mem = m\<rparr>;
            Some (res, Some (if res \<noteq> - 1 then outargs ctx else a), data ctx, mem ctx)
          })"


subsection \<open>Argument vectors: insertion\<close>

lemma args_list_simps [simp]:
  "args_list \<lparr>argv = Some xs, allocated = b\<rparr> = xs"
  "args_list \<lparr>argv = None, allocated = b\<rparr> = []"
  "args_list (a\<lparr>argv := Some xs\<rparr>) = xs"
  "args_list (a\<lparr>allocated := b\<rparr>) = args_list a"
  by (simp_all add: args_list_def)

lemma fuse_opt_add_arg_ok:
  "argv a = None \<or> allocated a \<Longrightarrow>
     fuse_opt_add_arg [] a x = Some (0, a\<lparr>argv := Some (args_list a @ [x]), allocated := True\<rparr>, [])"
  by (simp add: fuse_opt_add_arg_def)

lemma memmove_insert:
  "pos < length v \<Longrightarrow>
     (take (pos + 1) (v @ [x]) @ take (length v - pos) (drop pos (v @ [x])))[pos := x] =
     take pos v @ x # drop pos v"
  by (simp add: list_update_append take_Suc_conv_app_nth nth_append)

lemma fuse_opt_insert_arg_ok:
  assumes "argv a = None \<or> allocated a" "pos \<le> length (args_list a)"
  shows "fuse_opt_insert_arg [] a pos x =
           Some (0, \<lparr>argv = Some (take pos (args_list a) @ x # drop pos (args_list a)),
                     allocated = True\<rparr>, [])"
proof (cases "pos = length (args_list a)")
  case True
  with assms show ?thesis
    by (cases a) (simp add: fuse_opt_insert_arg_def fuse_opt_insert_arg_common_def
        fuse_opt_add_arg_ok Let_def)
next
  case False
  with assms(2) have "pos < length (args_list a)" by simp
  with assms memmove_insert [of pos "args_list a" x] show ?thesis
    by (cases a) (simp add: fuse_opt_insert_arg_def fuse_opt_insert_arg_common_def
        fuse_opt_add_arg_ok Let_def)
qed

text \<open>Inserting an argument puts it at the requested position of the vector and keeps all
  other arguments in their order (the \<open>realloc\<close>, append and \<open>memmove\<close> of the code together).\<close>

theorem insert_arg_at:
  assumes "argv a = None \<or> allocated a" "pos \<le> length (args_list a)"
  shows "\<exists>a'. fuse_opt_insert_arg [] a pos x = Some (0, a', []) \<and> allocated a' \<and>
           args_list a' = take pos (args_list a) @ x # drop pos (args_list a)"
  by (simp add: fuse_opt_insert_arg_ok [OF assms])

theorem insert_arg_at_witness:
  "\<exists>a'. fuse_opt_insert_arg [] \<lparr>argv = Some [''prog'', ''mnt''], allocated = True\<rparr> 1 ''-o'' =
          Some (0, a', []) \<and> allocated a' \<and> args_list a' = [''prog'', ''-o'', ''mnt'']"
  using insert_arg_at [of "\<lparr>argv = Some [''prog'', ''mnt''], allocated = True\<rparr>" 1 "''-o''"]
  by simp

subsection \<open>Escaping and splitting are inverse\<close>

lemma split_opts_plain:
  "c \<noteq> CHR '','' \<Longrightarrow> c \<noteq> CHR 0x5C \<Longrightarrow> split_opts d (c # s) = split_opts (d @ [c]) s"
  by (cases s) auto

lemma split_opts_comma: "split_opts d (CHR '','' # s) = d # split_opts [] s"
  by (cases s) auto

lemma split_opts_escape_comma:
  "split_opts d (escape True s @ CHR '','' # t) = (d @ s) # split_opts [] t"
  by (induction s arbitrary: d) (auto simp: split_opts_plain split_opts_comma)

lemma split_opts_escape: "split_opts d (escape True s) = [d @ s]"
  by (induction s arbitrary: d) (auto simp: split_opts_plain)

text \<open>The option string built from a list of options by repeated \<open>fuse_opt_add_opt_escaped\<close>.\<close>

definition opts_add :: "cstring option \<Rightarrow> cstring \<Rightarrow> cstring option" where
  "opts_add s opt = fst (snd (fuse_opt_add_opt_escaped [] s opt))"

definition join_escaped :: "cstring list \<Rightarrow> cstring option" where
  "join_escaped os = foldl opts_add None os"

lemma join_escaped_Nil [simp]: "join_escaped [] = None"
  by (simp add: join_escaped_def)

lemma opts_add_simps:
  "opts_add None opt = Some (escape True opt)"
  "s \<noteq> [] \<Longrightarrow> opts_add (Some s) opt = Some (s @ CHR '','' # escape True opt)"
  by (simp_all add: opts_add_def fuse_opt_add_opt_escaped_def add_opt_common_def)

lemma escape_eq_Nil [simp]: "escape esc s = [] \<longleftrightarrow> s = []"
  by (cases s) auto

lemma foldl_opts_add:
  "s \<noteq> [] \<Longrightarrow>
     foldl opts_add (Some s) os = Some (s @ concat (map (\<lambda>x. CHR '','' # escape True x) os))"
  by (induction os arbitrary: s) (auto simp: opts_add_simps)

lemma join_escaped_Cons:
  "x \<noteq> [] \<Longrightarrow>
     join_escaped (x # os) = Some (escape True x @ concat (map (\<lambda>x. CHR '','' # escape True x) os))"
  by (simp add: join_escaped_def opts_add_simps foldl_opts_add)

lemma split_opts_join:
  "split_opts d (escape True x @ concat (map (\<lambda>x. CHR '','' # escape True x) os)) = (d @ x) # os"
  by (induction os arbitrary: d x) (auto simp: split_opts_escape split_opts_escape_comma)

text \<open>C21: Parsing an option group undoes building it: when options are collected into one string
  with \<open>fuse_opt_add_opt_escaped\<close> (commas and backslashes escaped), the group parser processes
  exactly those options, in order and unescaped, whatever characters they contain.\<close>

theorem option_group_round_trip:
  assumes "x \<noteq> []"
  shows "\<exists>s. join_escaped (x # os) = Some s \<and>
           process_real_option_group proc tbl ctx [] s = process_gopts proc tbl ctx (x # os)"
  using split_opts_join [of "[]" x os]
  by (simp add: join_escaped_Cons [OF assms] process_real_option_group_eq del: process_gopts.simps)

abbreviation (input) ctx0 :: "nat fuse_opt_context" where
  "ctx0 \<equiv> \<lparr>data = (\<lambda>_. None), argctr = 0, ctx_argv = [], outargs = FUSE_ARGS_INIT None,
           opts = None, nonopt = 0, mem = []\<rparr>"

theorem option_group_round_trip_witness:
  "\<exists>s. join_escaped [''fsname=a,b'', ''ro''] = Some s \<and>
     process_real_option_group (None :: nat opt_proc option) [] ctx0 [] s =
       process_gopts None [] ctx0 [''fsname=a,b'', ''ro'']"
  using option_group_round_trip [of "''fsname=a,b''" "[''ro'']" "None :: nat opt_proc option" "[]" ctx0]
  by simp

subsection \<open>Matching\<close>

lemma strchr_name:
  "c \<notin> set name \<Longrightarrow> strchr (name @ c # t) c = Some (length name)"
proof -
  assume "c \<notin> set name"
  then have "takeWhile (\<lambda>x. x \<noteq> c) (name @ c # t) = name"
    by (induction name) auto
  then show ?thesis by (simp add: strchr_def)
qed

lemma match_template_param:
  assumes "CHR ''='' \<notin> set name" "fmt = [] \<or> hd fmt = CHR ''%''"
  shows "match_template (name @ ''='' @ fmt) arg =
           (if take (Suc (length name)) arg = name @ ''='' then Some (length name) else None)"
proof -
  have "Suc (length name) = length (name @ ''='' @ fmt) \<or>
          (name @ ''='' @ fmt) ! Suc (length name) = CHR ''%''"
    using assms(2) by (cases fmt) (auto simp: nth_append)
  moreover have "take (Suc (length name)) (name @ ''='' @ fmt) = name @ ''=''" by simp
  moreover have "(name @ ''='' @ fmt) ! length name = CHR ''=''" by (simp add: nth_append)
  moreover have "strchr (name @ ''='' @ fmt) CHR ''='' = Some (length name)"
    using strchr_name [OF assms(1), of fmt] by simp
  moreover have "Suc (length name) \<le> length arg" if "take (Suc (length name)) arg = name @ ''=''"
    using arg_cong [OF that, of length] by simp
  ultimately show ?thesis
    by (auto simp: match_template_def Let_def)
qed

text \<open>A table entry \<open>name=%s\<close> (or \<open>name=\<close>, or with another format) matches exactly the
  arguments that start with \<open>name=\<close>, and when the option is processed the text after the equals
  sign is what is stored in the variable of the entry.\<close>

theorem string_option_stored:
  assumes "CHR ''='' \<notin> set name" "name \<noteq> []" "templ e = name @ ''=%s''" "offset e = Some var"
  shows "(fuse_opt_match [e] arg = 1 \<longleftrightarrow> (\<exists>v. arg = name @ ''='' @ v)) \<and>
         (mem ctx = [] \<longrightarrow>
            process_gopt proc [e] ctx (name @ ''='' @ v) isopt =
              Some (0, ctx\<lparr>data := (data ctx)(var \<mapsto> VStr v)\<rparr>))"
proof
  have m: "match_template (templ e) arg =
             (if take (Suc (length name)) arg = name @ ''='' then Some (length name) else None)" for arg
    using match_template_param [OF assms(1), of "''%s''"] assms(3) by simp
  have "take (Suc (length name)) arg = name @ ''='' \<longleftrightarrow> (\<exists>v. arg = name @ ''='' @ v)"
  proof
    assume "take (Suc (length name)) arg = name @ ''=''"
    then have "arg = (name @ ''='') @ drop (Suc (length name)) arg"
      by (metis append_take_drop_id)
    then show "\<exists>v. arg = name @ ''='' @ v" by auto
  qed auto
  then show "fuse_opt_match [e] arg = 1 \<longleftrightarrow> (\<exists>v. arg = name @ ''='' @ v)"
    by (simp add: fuse_opt_match_def m)
  have f: "find_opt [e] (name @ ''='' @ v) = Some (e, [], length name)"
    by (simp add: m)
  have n: "(name @ ''=%s'') ! length name = CHR ''=''" by (simp add: nth_append)
  show "mem ctx = [] \<longrightarrow> process_gopt proc [e] ctx (name @ ''='' @ v) isopt =
          Some (0, ctx\<lparr>data := (data ctx)(var \<mapsto> VStr v)\<rparr>)"
  proof
    assume "mem ctx = []"
    then have "ctx\<lparr>mem := []\<rparr> = ctx" by simp
    then show "process_gopt proc [e] ctx (name @ ''='' @ v) isopt =
          Some (0, ctx\<lparr>data := (data ctx)(var \<mapsto> VStr v)\<rparr>)"
      using f n assms(2-4) \<open>mem ctx = []\<close>
      by (simp add: process_gopt_def process_gopt_loop.simps [of _ "[e]"]
          process_gopt_loop.simps [of _ "[]"] process_opt_def process_opt_param_def Let_def
          del: find_opt.simps(2))
  qed
qed

theorem string_option_stored_witness:
  "fuse_opt_match [\<lparr>templ = ''subdir=%s'', offset = Some (0::nat), opt_value = 0\<rparr>] ''subdir=/x'' = 1"
  using string_option_stored [of "''subdir''" "\<lparr>templ = ''subdir=%s'', offset = Some (0::nat), opt_value = 0\<rparr>"
      0 "''subdir=/x''"]
  by simp


subsection \<open>Parsing without a table\<close>

text \<open>
  What \<open>fuse_opt_parse\<close> computes with an empty table and no processing function, from the
  arguments after the program name: the arguments kept as they are and the options of all
  \<open>-o\<close> groups; \<open>None\<close> when a final \<open>-o\<close> has no argument.
\<close>

fun keep_spec :: "cstring list \<Rightarrow> (cstring list \<times> cstring list) option" where
  "keep_spec [] = Some ([], [])"
| "keep_spec (a # as) =
     (if take 2 a = ''-o'' then
        if length a > 2 then map_option (\<lambda>(p, q). (p, split_opts [] (drop 2 a) @ q)) (keep_spec as)
        else (case as of
                [] \<Rightarrow> None
              | g # as' \<Rightarrow> map_option (\<lambda>(p, q). (p, split_opts [] g @ q)) (keep_spec as'))
      else map_option (\<lambda>(p, q). (a # p, q)) (keep_spec as))"

definition ctx_ok :: "'k fuse_opt_context \<Rightarrow> bool" where
  "ctx_ok ctx \<longleftrightarrow> mem ctx = [] \<and> nonopt ctx = 0 \<and> argv (outargs ctx) \<noteq> None \<and> allocated (outargs ctx)"

definition ctx_keep :: "'k fuse_opt_context \<Rightarrow> cstring list \<Rightarrow> cstring list \<Rightarrow> 'k fuse_opt_context" where
  "ctx_keep ctx p q =
     ctx\<lparr>outargs := \<lparr>argv = Some (args_list (outargs ctx) @ p), allocated = True\<rparr>,
         opts := foldl opts_add (opts ctx) q\<rparr>"

lemma ctx_keep_ok [simp]: "ctx_ok ctx \<Longrightarrow> ctx_ok (ctx_keep ctx p q)"
  by (simp add: ctx_ok_def ctx_keep_def)

lemma ctx_keep_keep [simp]: "ctx_keep (ctx_keep ctx p q) p' q' = ctx_keep ctx (p @ p') (q @ q')"
  by (simp add: ctx_keep_def)

lemma ctx_keep_fields [simp]:
  "argctr (ctx_keep ctx p q) = argctr ctx" "ctx_argv (ctx_keep ctx p q) = ctx_argv ctx"
  "data (ctx_keep ctx p q) = data ctx"
  by (simp_all add: ctx_keep_def)

lemma ctx_keep_Nil [simp]: "ctx_ok ctx \<Longrightarrow> ctx_keep ctx [] [] = ctx"
  by (cases "outargs ctx") (auto simp: ctx_ok_def ctx_keep_def)

lemma ctx_keep_argctr:
  "ctx_keep (ctx\<lparr>argctr := i\<rparr>) p q = (ctx_keep ctx p q)\<lparr>argctr := i\<rparr>"
  by (simp add: ctx_keep_def)

lemma call_proc_keep:
  assumes "ctx_ok ctx" "key \<noteq> FUSE_OPT_KEY_DISCARD"
  shows "call_proc None ctx a key isopt =
           Some (0, if isopt then ctx_keep ctx [] [a] else ctx_keep ctx [a] [])"
proof -
  obtain v where "outargs ctx = \<lparr>argv = Some v, allocated = True\<rparr>"
    using assms(1) by (cases "outargs ctx") (auto simp: ctx_ok_def)
  with assms show ?thesis
    by (auto simp: call_proc_def add_opt_def add_arg_def ctx_keep_def ctx_ok_def opts_add_def
        fuse_opt_add_opt_escaped_def add_opt_common_def fuse_opt_add_arg_def Let_def)
qed

lemma process_gopts_keep:
  "ctx_ok ctx \<Longrightarrow> process_gopts None [] ctx as = Some (0, ctx_keep ctx [] as)"
  by (induction as arbitrary: ctx) (simp_all add: process_gopt_def call_proc_keep)

lemma process_option_group_keep:
  assumes "ctx_ok ctx"
  shows "process_option_group None [] ctx g = Some (0, ctx_keep ctx [] (split_opts [] g))"
proof -
  have m: "mem ctx = []" "ctx\<lparr>mem := []\<rparr> = ctx" using assms by (simp_all add: ctx_ok_def)
  have "process_option_group None [] ctx g = process_gopts None [] (ctx\<lparr>mem := []\<rparr>) (split_opts [] g)"
    by (simp add: process_option_group_def process_real_option_group_eq m(1))
  then show ?thesis by (simp only: m(2) process_gopts_keep [OF assms])
qed

text \<open>What one argument, or \<open>-o\<close> and its argument, does to the context.\<close>

lemma process_one_keep:
  assumes "ctx_ok ctx" "a \<noteq> ''--''"
  shows "take 2 a \<noteq> ''-o'' \<Longrightarrow> process_one None [] ctx a = Some (0, ctx_keep ctx [a] [])"
    and "take 2 a = ''-o'' \<Longrightarrow> length a > 2 \<Longrightarrow>
           process_one None [] ctx a = Some (0, ctx_keep ctx [] (split_opts [] (drop 2 a)))"
    and "take 2 a = ''-o'' \<Longrightarrow> \<not> length a > 2 \<Longrightarrow> argctr ctx + 1 < length (ctx_argv ctx) \<Longrightarrow>
           process_one None [] ctx a =
             Some (0, ctx_keep (ctx\<lparr>argctr := argctr ctx + 1\<rparr>) []
                        (split_opts [] (ctx_argv ctx ! (argctr ctx + 1))))"
proof -
  have no: "nonopt ctx = 0" using assms(1) by (simp add: ctx_ok_def)
  show "process_one None [] ctx a = Some (0, ctx_keep ctx [a] [])" if "take 2 a \<noteq> ''-o''"
    using that assms call_proc_keep [OF assms(1)]
    by (simp add: process_one_def process_gopt_def no)
  assume o: "take 2 a = ''-o''"
  then have d: "take 1 a = ''-''" by (cases a) auto
  show "process_one None [] ctx a = Some (0, ctx_keep ctx [] (split_opts [] (drop 2 a)))"
    if "length a > 2"
    using that o d no process_option_group_keep [OF assms(1)] by (simp add: process_one_def)
  have "ctx_ok (ctx\<lparr>argctr := argctr ctx + 1\<rparr>)" using assms(1) by (simp add: ctx_ok_def)
  from process_option_group_keep [OF this] show "process_one None [] ctx a =
             Some (0, ctx_keep (ctx\<lparr>argctr := argctr ctx + 1\<rparr>) []
                        (split_opts [] (ctx_argv ctx ! (argctr ctx + 1))))"
    if "\<not> length a > 2" "argctr ctx + 1 < length (ctx_argv ctx)"
    using that o d no by (simp add: process_one_def next_arg_def)
qed

lemma opt_parse_loop_step:
  assumes "process_one None [] ctx a = Some (0, ctx')" "ctx_argv ctx = pre @ a # as"
    and "argctr ctx = length pre"
  shows "opt_parse_loop None [] ctx = opt_parse_loop None [] (ctx'\<lparr>argctr := argctr ctx' + 1\<rparr>)"
  using assms by (subst opt_parse_loop.simps) simp

lemma ctx_ok_argctr [simp]: "ctx_ok (ctx\<lparr>argctr := i\<rparr>) = ctx_ok ctx"
  by (simp add: ctx_ok_def)

lemma opt_parse_loop_keep:
  assumes "ctx_ok ctx" "''--'' \<notin> set as" "ctx_argv ctx = pre @ as" "argctr ctx = length pre"
    and "keep_spec as = Some (p, q)"
  shows "opt_parse_loop None [] ctx = Some (0, (ctx_keep ctx p q)\<lparr>argctr := length (ctx_argv ctx)\<rparr>)"
  using assms
proof (induction as arbitrary: ctx pre p q rule: keep_spec.induct)
  case 1
  then have "ctx\<lparr>argctr := length pre\<rparr> = ctx" by (metis fuse_opt_context.surjective fuse_opt_context.update_convs(2))
  with 1 show ?case by (subst opt_parse_loop.simps) simp
next
  case (2 a as)
  from "2.prems"(2) have a: "a \<noteq> ''--''" "''--'' \<notin> set as" by auto
  note ok = "2.prems"(1)
  note step = opt_parse_loop_step [OF _ "2.prems"(3,4)]
  consider (plain) "take 2 a \<noteq> ''-o''" | (group) "take 2 a = ''-o''" "length a > 2"
    | (sep) "take 2 a = ''-o''" "\<not> length a > 2" by blast
  then show ?case
  proof cases
    case plain
    then obtain p' where p': "keep_spec as = Some (p', q)" "p = a # p'"
      using "2.prems"(5) by auto
    have "opt_parse_loop None [] (ctx_keep ctx [a] []\<lparr>argctr := argctr ctx + 1\<rparr>) =
            Some (0, (ctx_keep ctx p q)\<lparr>argctr := length (ctx_argv ctx)\<rparr>)"
      using "2.IH"(3) [OF plain, of "ctx_keep ctx [a] []\<lparr>argctr := argctr ctx + 1\<rparr>" "pre @ [a]" p' q]
        "2.prems"(3,4) ok a p' by (simp add: ctx_keep_argctr)
    with step [OF process_one_keep(1) [OF ok a(1) plain]] show ?thesis by simp
  next
    case group
    then obtain q' where q': "keep_spec as = Some (p, q')" "q = split_opts [] (drop 2 a) @ q'"
      using "2.prems"(5) by auto
    let ?c = "ctx_keep ctx [] (split_opts [] (drop 2 a))\<lparr>argctr := argctr ctx + 1\<rparr>"
    have "opt_parse_loop None [] ?c = Some (0, (ctx_keep ctx p q)\<lparr>argctr := length (ctx_argv ctx)\<rparr>)"
      using "2.IH"(1) [OF group, of ?c "pre @ [a]" p q'] "2.prems"(3,4) ok a q'
      by (simp add: ctx_keep_argctr)
    with step [OF process_one_keep(2) [OF ok a(1) group]] show ?thesis by simp
  next
    case sep
    then obtain g as' q' where q': "as = g # as'" "keep_spec as' = Some (p, q')"
      "q = split_opts [] g @ q'"
      using "2.prems"(5) by (auto split: list.splits)
    then have g: "ctx_argv ctx ! (argctr ctx + 1) = g" "argctr ctx + 1 < length (ctx_argv ctx)"
      using "2.prems"(3,4) by (simp_all add: nth_append)
    let ?c = "ctx_keep (ctx\<lparr>argctr := argctr ctx + 1\<rparr>) [] (split_opts [] g)\<lparr>argctr := argctr ctx + 2\<rparr>"
    have "opt_parse_loop None [] ?c = Some (0, (ctx_keep ctx p q)\<lparr>argctr := length (ctx_argv ctx)\<rparr>)"
      using "2.IH"(2) [OF sep q'(1), of ?c "pre @ [a, g]" p q'] "2.prems"(3,4) ok a q'
      by (simp add: ctx_keep_argctr)
    with step [OF process_one_keep(3) [OF ok a(1) sep g(2)]] g(1) show ?thesis by simp
  qed
qed


lemma add_arg_first:
  "add_arg \<lparr>data = d, argctr = 0, ctx_argv = v, outargs = FUSE_ARGS_INIT None, opts = None,
            nonopt = 0, mem = []\<rparr> x =
     Some (0, \<lparr>data = d, argctr = 0, ctx_argv = v, outargs = \<lparr>argv = Some [x], allocated = True\<rparr>,
               opts = None, nonopt = 0, mem = []\<rparr>)"
  by (simp add: add_arg_def fuse_opt_add_arg_def)

lemma foldl_opts_add_Some: "\<exists>s. foldl opts_add (Some t) os = Some s"
proof (induction os arbitrary: t)
  case Nil
  then show ?case by simp
next
  case (Cons x os)
  obtain u where "opts_add (Some t) x = Some u"
    by (cases "t = []") (auto simp: opts_add_simps opts_add_def fuse_opt_add_opt_escaped_def add_opt_common_def)
  with Cons show ?case by simp
qed

lemma join_escaped_None [simp]: "join_escaped os = None \<longleftrightarrow> os = []"
proof (cases os)
  case Nil
  then show ?thesis by (simp add: join_escaped_def)
next
  case (Cons x xs)
  then show ?thesis
    using foldl_opts_add_Some [of "escape True x" xs] by (auto simp: join_escaped_def opts_add_simps)
qed

text \<open>With no option table and no processing function nothing is lost or reordered: the
  program name stays first, the options of all \<open>-o\<close> groups are merged, in order, into a single
  \<open>-o\<close> group behind it, every other argument follows in its old order, and the data is left
  alone. The parser always returns.\<close>

lemma parse_keeps_everything:
  assumes "''--'' \<notin> set as" "keep_spec as = Some (p, q)"
  shows "fuse_opt_parse [] (Some \<lparr>argv = Some (prog # as), allocated = b\<rparr>) d [] None =
           Some (0, Some \<lparr>argv = Some (prog # (case join_escaped q of None \<Rightarrow> []
                                                | Some s \<Rightarrow> [''-o'', s]) @ p),
                           allocated = True\<rparr>, d, [])"
proof -
  define c0 where "c0 = \<lparr>data = d, argctr = 0, ctx_argv = prog # as,
    outargs = \<lparr>argv = Some [prog], allocated = True\<rparr>, opts = None, nonopt = 0, mem = []\<rparr>"
  have "opt_parse_loop None [] (c0\<lparr>argctr := 1\<rparr>) =
          Some (0, (ctx_keep c0 p q)\<lparr>argctr := length (prog # as)\<rparr>)"
    using opt_parse_loop_keep [of "c0\<lparr>argctr := 1\<rparr>" as "[prog]" p q] assms
    by (simp add: c0_def ctx_ok_def ctx_keep_def)
  then have loop: "opt_parse_loop None [] (c0\<lparr>argctr := 1\<rparr>) =
      Some (0, \<lparr>data = d, argctr = length (prog # as), ctx_argv = prog # as,
         outargs = \<lparr>argv = Some (prog # p), allocated = True\<rparr>, opts = join_escaped q,
         nonopt = 0, mem = []\<rparr>)"
    by (simp add: c0_def ctx_keep_def join_escaped_def)
  show ?thesis
    using loop
    by (cases "join_escaped q")
      (simp_all add: fuse_opt_parse_def opt_parse_def add_arg_first c0_def fuse_opt_insert_arg_ok)
qed

lemma parse_keeps_everything_witness:
  "fuse_opt_parse [] (Some \<lparr>argv = Some [''sshfs'', ''-oro'', ''host:'', ''-o'', ''a,b'', ''/mnt''],
      allocated = False\<rparr>) (\<lambda>_::nat. None) [] None =
     Some (0, Some \<lparr>argv = Some [''sshfs'', ''-o'', ''ro,a,b'', ''host:'', ''/mnt''],
        allocated = True\<rparr>, \<lambda>_. None, [])"
  using parse_keeps_everything [of "[''-oro'', ''host:'', ''-o'', ''a,b'', ''/mnt'']"
      "[''host:'', ''/mnt'']" "[''ro'', ''a'', ''b'']" "''sshfs''" False "\<lambda>_::nat. None"]
  by (simp add: join_escaped_Cons)

text \<open>A failed parse (a bad parameter, a missing argument, a rejected option, no memory)
  leaves the caller's argument vector exactly as it was.\<close>

theorem parse_failure_keeps_args:
  assumes "fuse_opt_parse m (Some a) d tbl proc = Some (- 1, a', d', m')"
  shows "a' = Some a"
  using assms by (auto simp: fuse_opt_parse_def bind_eq_Some_conv split: if_splits)

theorem parse_failure_keeps_args_witness:
  "fuse_opt_parse [] (Some \<lparr>argv = Some [''prog'', ''-o''], allocated = False\<rparr>)
     (\<lambda>_::nat. None) [] None = Some (- 1, Some \<lparr>argv = Some [''prog'', ''-o''], allocated = False\<rparr>,
     \<lambda>_. None, []) \<and>
   Some \<lparr>argv = Some [''prog'', ''-o''], allocated = False\<rparr> =
     Some \<lparr>argv = Some [''prog'', ''-o''], allocated = False\<rparr>"
proof -
  have h: "fuse_opt_parse [] (Some \<lparr>argv = Some [''prog'', ''-o''], allocated = False\<rparr>)
     (\<lambda>_::nat. None) [] None = Some (- 1, Some \<lparr>argv = Some [''prog'', ''-o''], allocated = False\<rparr>,
     \<lambda>_. None, [])"
    by (simp add: fuse_opt_parse_def opt_parse_def add_arg_def fuse_opt_add_arg_def
        opt_parse_loop.simps process_one_def next_arg_def)
  show ?thesis using h parse_failure_keeps_args [OF h] by blast
qed

end
