(* ===== verification/Fuse_Node.thy ===== *)
theory Fuse_Node
  imports Complex_Main Fuse_Prelude Fuse_Locks
begin

text \<open>
  The node cache of the high-level library (\<open>lib/fuse.c\<close>): \<open>struct node\<close>, \<open>struct fuse\<close>, the
  two hash tables, node identifiers, reference and lookup counts.

  Nodes live in a heap that maps addresses to the contents of \<open>struct node\<close>; \<open>calloc\<close> hands out
  an address never used before and \<open>free\<close> takes the address out of the heap. A hash chain
  (\<open>id_next\<close>, \<open>name_next\<close>) is the list of the addresses on it, in order, so that the two link
  fields are not fields of the record. The critical sections under \<open>f->lock\<close> are atomic.
\<close>

unbundle bit_operations_syntax

subsection \<open>Data\<close>

type_synonym fuse_ino_t = u64
type_synonym addr = nat

abbreviation (input) FUSE_ROOT_ID :: fuse_ino_t where "FUSE_ROOT_ID \<equiv> 1"
abbreviation (input) FUSE_UNKNOWN_INO :: u64 where "FUSE_UNKNOWN_INO \<equiv> 0xffffffff"

record timespec =
  tv_sec :: int
  tv_nsec :: int

record node =
  nodeid :: fuse_ino_t
  node_generation :: u32
  refctr :: int
  parent :: "addr option"
  node_name :: "cstring option"
  nlookup :: u64
  open_count :: int
  stat_updated :: timespec
  node_mtime :: timespec
  node_size :: off_t
  node_locks :: "lock list"
  is_hidden :: bool
  cache_valid :: bool
  treelock :: int
  ticket :: int

record fuse_config =
  conf_uid :: u32
  conf_gid :: u32
  conf_umask :: u32
  entry_timeout :: real
  negative_timeout :: real
  attr_timeout :: real
  ac_attr_timeout :: real
  noforget :: bool
  hard_remove :: bool
  use_ino :: bool
  readdir_ino :: bool
  set_mode :: bool
  set_uid :: bool
  set_gid :: bool
  conf_direct_io :: bool
  kernel_cache :: bool
  auto_cache :: bool
  conf_intr :: bool

record fuse =
  heap :: "addr \<Rightarrow> node option"
  brk :: addr
  name_table :: "nat \<Rightarrow> addr list"
  name_table_size :: nat
  id_table :: "nat \<Rightarrow> addr list"
  id_table_size :: nat
  ctr :: fuse_ino_t
  generation :: u32
  hidectr :: u32
  conf :: fuse_config
  nullpath_ok :: bool
  curr_ticket :: int
  lockq :: "nat list"
  signals :: "nat list"
  fuse_mem :: allocs

text \<open>Assignment to fields of the node at an address.\<close>

definition upd_node :: "addr \<Rightarrow> (node \<Rightarrow> node) \<Rightarrow> fuse \<Rightarrow> fuse" where
  "upd_node a g f = f\<lparr>heap := (heap f)(a := map_option g (heap f a))\<rparr>"

definition malloc_ok :: "fuse \<Rightarrow> bool \<times> fuse" where
  "malloc_ok f = (let (ok, m) = alloc (fuse_mem f) in (ok, f\<lparr>fuse_mem := m\<rparr>))"

subsection \<open>The identifier table\<close>

definition id_hash :: "fuse \<Rightarrow> fuse_ino_t \<Rightarrow> nat" where
  "id_hash f i = unat i mod id_table_size f"

definition get_node_nocheck :: "fuse \<Rightarrow> fuse_ino_t \<Rightarrow> addr option" where
  "get_node_nocheck f i =
     find (\<lambda>a. case heap f a of Some n \<Rightarrow> nodeid n = i | None \<Rightarrow> False) (id_table f (id_hash f i))"

text \<open>\<open>get_node\<close>: \<open>None\<close> is its \<open>abort()\<close>.\<close>

definition get_node :: "fuse \<Rightarrow> fuse_ino_t \<Rightarrow> addr option" where
  "get_node f i = get_node_nocheck f i"

definition free_node :: "addr \<Rightarrow> fuse \<Rightarrow> fuse" where
  "free_node a f = f\<lparr>heap := (heap f)(a := None)\<rparr>"

definition unhash_id :: "fuse \<Rightarrow> addr \<Rightarrow> fuse option" where
  "unhash_id f a = do {
     n \<leftarrow> heap f a;
     let h = id_hash f (nodeid n);
     Some (f\<lparr>id_table := (id_table f)(h := remove1 a (id_table f h))\<rparr>)
   }"

definition hash_id :: "fuse \<Rightarrow> addr \<Rightarrow> fuse option" where
  "hash_id f a = do {
     n \<leftarrow> heap f a;
     let h = id_hash f (nodeid n);
     Some (f\<lparr>id_table := (id_table f)(h := a # id_table f h)\<rparr>)
   }"

subsection \<open>The name table\<close>

text \<open>A plain \<open>char\<close> is signed; converting it to \<open>unsigned int\<close> extends the sign.\<close>

definition char_uint :: "char \<Rightarrow> u32" where
  "char_uint c = word_of_int (signed_take_bit 7 (of_char c))"

definition name_hash :: "fuse \<Rightarrow> fuse_ino_t \<Rightarrow> cstring \<Rightarrow> nat" where
  "name_hash f p name =
     (let hash = (case name of
            [] \<Rightarrow> 0
          | c # cs \<Rightarrow> foldl (\<lambda>h c. push_bit 5 h - h + char_uint c) (char_uint c) cs)
      in unat (ucast hash + p :: u64) mod name_table_size f)"

text \<open>\<open>delete_node\<close> and \<open>unref_node\<close>: \<open>None\<close> is a failed \<open>assert\<close>.\<close>

definition delete_node :: "fuse \<Rightarrow> addr \<Rightarrow> fuse option" where
  "delete_node f a = do {
     n \<leftarrow> heap f a;
     if treelock n = 0 \<and> node_name n = None then do {
       f \<leftarrow> unhash_id f a;
       Some (free_node a f)
     } else None
   }"

definition unref_node :: "fuse \<Rightarrow> addr \<Rightarrow> fuse option" where
  "unref_node f a = do {
     n \<leftarrow> heap f a;
     if refctr n > 0 then
       (let f = upd_node a (refctr_update (\<lambda>r. r - 1)) f
        in if refctr n - 1 = 0 then delete_node f a else Some f)
     else None
   }"

definition unhash_name :: "fuse \<Rightarrow> addr \<Rightarrow> fuse option" where
  "unhash_name f a = do {
     n \<leftarrow> heap f a;
     case node_name n of
       None \<Rightarrow> Some f
     | Some name \<Rightarrow> do {
         p \<leftarrow> parent n;
         pn \<leftarrow> heap f p;
         let h = name_hash f (nodeid pn) name;
         if a \<in> set (name_table f h) then do {
           let f = f\<lparr>name_table := (name_table f)(h := remove1 a (name_table f h))\<rparr>;
           f \<leftarrow> unref_node f p;
           Some (upd_node a (\<lambda>n. n\<lparr>node_name := None, parent := None\<rparr>) f)
         } else None
       }
   }"

text \<open>\<open>hash_name\<close>: the C result (\<open>-1\<close> when \<open>strdup\<close> fails) and the state.\<close>

definition hash_name :: "fuse \<Rightarrow> addr \<Rightarrow> fuse_ino_t \<Rightarrow> cstring \<Rightarrow> (int \<times> fuse) option" where
  "hash_name f a parentid name = do {
     let h = name_hash f parentid name;
     p \<leftarrow> get_node f parentid;
     let (ok, f) = malloc_ok f;
     if \<not> ok then Some (- 1, upd_node a (\<lambda>n. n\<lparr>node_name := None\<rparr>) f)
     else do {
       let f = upd_node p (refctr_update (\<lambda>r. r + 1)) f;
       let f = upd_node a (\<lambda>n. n\<lparr>node_name := Some name, parent := Some p\<rparr>) f;
       Some (0, f\<lparr>name_table := (name_table f)(h := a # name_table f h)\<rparr>)
     }
   }"

text \<open>\<open>next_id\<close>: the loop may have no end (every identifier in use), which is \<open>None\<close>.\<close>

definition next_ctr :: "fuse \<Rightarrow> fuse" where
  "next_ctr f =
     (let c = (ctr f + 1) AND 0xffffffff
      in f\<lparr>ctr := c, generation := (if c = 0 then generation f + 1 else generation f)\<rparr>)"

partial_function (option) next_id :: "fuse \<Rightarrow> (fuse_ino_t \<times> fuse) option" where
  [code]: "next_id f =
     (let f = next_ctr f
      in if ctr f = 0 \<or> ctr f = FUSE_UNKNOWN_INO \<or> get_node_nocheck f (ctr f) \<noteq> None
         then next_id f else Some (ctr f, f))"

definition lookup_node :: "fuse \<Rightarrow> fuse_ino_t \<Rightarrow> cstring \<Rightarrow> addr option" where
  "lookup_node f p name =
     find (\<lambda>a. case heap f a of
                 Some n \<Rightarrow> node_name n = Some name \<and>
                   (case parent n of
                      Some q \<Rightarrow> (case heap f q of Some pn \<Rightarrow> nodeid pn = p | None \<Rightarrow> False)
                    | None \<Rightarrow> False)
               | None \<Rightarrow> False) (name_table f (name_hash f p name))"

definition new_node :: node where
  "new_node = \<lparr>nodeid = 0, node_generation = 0, refctr = 0, parent = None, node_name = None,
     nlookup = 0, open_count = 0, stat_updated = \<lparr>tv_sec = 0, tv_nsec = 0\<rparr>,
     node_mtime = \<lparr>tv_sec = 0, tv_nsec = 0\<rparr>, node_size = 0, node_locks = [], is_hidden = False,
     cache_valid = False, treelock = 0, ticket = 0\<rparr>"

text \<open>
  \<open>find_node\<close>: the address of the node, \<open>Some None\<close> for the null result when memory runs out.
  \<open>name = None\<close> is the null pointer.
\<close>

definition find_node ::
  "fuse \<Rightarrow> fuse_ino_t \<Rightarrow> cstring option \<Rightarrow> (addr option \<times> fuse) option" where
  "find_node f p name =
     (let bump = (\<lambda>f a. Some (Some a, upd_node a (nlookup_update (\<lambda>k. k + 1)) f))
      in case name of
           None \<Rightarrow> do { a \<leftarrow> get_node f p; bump f a }
         | Some nm \<Rightarrow>
             (case lookup_node f p nm of
                Some a \<Rightarrow> bump f a
              | None \<Rightarrow> do {
                  let (ok, f) = malloc_ok f;
                  if \<not> ok then Some (None, f) else do {
                    let a = brk f;
                    let n = new_node\<lparr>nlookup := (if noforget (conf f) then 1 else 0), refctr := 1\<rparr>;
                    let f = f\<lparr>brk := brk f + 1\<rparr>;
                    (i, f) \<leftarrow> next_id f;
                    let n = n\<lparr>nodeid := i, node_generation := generation f\<rparr>;
                    let f = f\<lparr>heap := (heap f)(a := Some n)\<rparr>;
                    (res, f) \<leftarrow> hash_name f a p nm;
                    if res = - 1 then Some (None, free_node a f) else do {
                      f \<leftarrow> hash_id f a;
                      bump f a
                    }
                  }
                }))"

text \<open>
  \<open>forget_node\<close>. While the node is locked and the count is the one to forget, the thread waits
  for another thread to unlock it; in a single-threaded run that wait has no end.
\<close>

definition forget_node :: "fuse \<Rightarrow> fuse_ino_t \<Rightarrow> u64 \<Rightarrow> fuse option" where
  "forget_node f i k =
     (if i = FUSE_ROOT_ID then Some f
      else do {
        a \<leftarrow> get_node f i;
        n \<leftarrow> heap f a;
        if nlookup n = k \<and> treelock n \<noteq> 0 then None
        else if \<not> nlookup n \<ge> k then None
        else do {
          let f = upd_node a (nlookup_update (\<lambda>m. m - k)) f;
          if nlookup n - k = 0 then do {
            f \<leftarrow> unhash_name f a;
            unref_node f a
          } else Some f
        }
      })"

definition unlink_node :: "fuse \<Rightarrow> addr \<Rightarrow> fuse option" where
  "unlink_node f a =
     (if noforget (conf f) then do {
        n \<leftarrow> heap f a;
        if nlookup n > 1 then unhash_name (upd_node a (nlookup_update (\<lambda>m. m - 1)) f) a else None
      } else unhash_name f a)"

definition remove_node :: "fuse \<Rightarrow> fuse_ino_t \<Rightarrow> cstring \<Rightarrow> fuse option" where
  "remove_node f dir name =
     (case lookup_node f dir name of None \<Rightarrow> Some f | Some a \<Rightarrow> unlink_node f a)"

definition rename_node ::
  "fuse \<Rightarrow> fuse_ino_t \<Rightarrow> cstring \<Rightarrow> fuse_ino_t \<Rightarrow> cstring \<Rightarrow> bool \<Rightarrow> (int \<times> fuse) option" where
  "rename_node f olddir oldname newdir newname hide =
     (case lookup_node f olddir oldname of
        None \<Rightarrow> Some (0, f)
      | Some a \<Rightarrow>
          let newnode = lookup_node f newdir newname
          in if newnode \<noteq> None \<and> hide then Some (- EBUSY, f)
             else do {
               f \<leftarrow> (case newnode of None \<Rightarrow> Some f | Some b \<Rightarrow> unlink_node f b);
               f \<leftarrow> unhash_name f a;
               (res, f) \<leftarrow> hash_name f a newdir newname;
               if res = - 1 then Some (- ENOMEM, f)
               else Some (0, if hide then upd_node a (is_hidden_update (\<lambda>_. True)) f else f)
             })"


text \<open>
  The node cache a new file system starts with: the end of \<open>fuse_new_common\<close>, from the tables to
  the root. \<open>intr_ok\<close> is whether \<open>fuse_init_intr_signal\<close> succeeds; \<open>None\<close> is the null result.
\<close>

definition init_nodes :: "fuse_config \<Rightarrow> bool \<Rightarrow> bool \<Rightarrow> u32 \<Rightarrow> allocs \<Rightarrow> fuse option" where
  "init_nodes cfg nullp intr_ok hctr mem = do {
     let f = \<lparr>heap = (\<lambda>_. None), brk = 0, name_table = (\<lambda>_. []), name_table_size = 14057,
       id_table = (\<lambda>_. []), id_table_size = 14057, ctr = 0, generation = 0, hidectr = hctr,
       conf = cfg, nullpath_ok = nullp, curr_ticket = 0, lockq = [], signals = [], fuse_mem = mem\<rparr>;
     let (ok, f) = malloc_ok f;
     if \<not> ok then None else do {
       let (ok, f) = malloc_ok f;
       if \<not> ok then None else do {
         let (ok, f) = malloc_ok f;
         if \<not> ok then None else do {
           let (ok, f) = malloc_ok f;
           if \<not> ok then None else if conf_intr cfg \<and> \<not> intr_ok then None else do {
             let a = brk f;
             let root = new_node\<lparr>node_name := Some ''/'', parent := None, nodeid := FUSE_ROOT_ID,
               node_generation := 0, refctr := 1, nlookup := 1\<rparr>;
             hash_id (f\<lparr>brk := brk f + 1, heap := (heap f)(a := Some root)\<rparr>) a
           }
         }
       }
     }
   }"

subsection \<open>Invariant\<close>

text \<open>
  The tree: of each live node its identifier, parent and name. The invariants of the tree and of
  the two hash tables are predicates of this view alone.
\<close>

type_synonym tree = "addr \<Rightarrow> (fuse_ino_t \<times> addr option \<times> cstring option) option"

definition place :: "fuse \<Rightarrow> tree" where
  "place f a = map_option (\<lambda>n. (nodeid n, parent n, node_name n)) (heap f a)"

definition edge :: "tree \<Rightarrow> addr \<Rightarrow> addr \<Rightarrow> cstring \<Rightarrow> bool" where
  "edge t a p nm \<longleftrightarrow> (\<exists>i. t a = Some (i, Some p, Some nm))"

definition children :: "tree \<Rightarrow> addr \<Rightarrow> addr set" where
  "children t p = {c. \<exists>i nm. t c = Some (i, Some p, nm)}"

definition parent_rel :: "tree \<Rightarrow> (addr \<times> addr) set" where
  "parent_rel t = {(a, p). \<exists>i nm. t a = Some (i, Some p, nm)}"

text \<open>What the pointers in the heap point to: \<open>b\<close> bounds the addresses in use.\<close>

definition tree_ok :: "tree \<Rightarrow> addr \<Rightarrow> bool" where
  "tree_ok t b \<longleftrightarrow>
     finite (dom t) \<and> (\<forall>a\<in>dom t. a < b) \<and>
     (\<forall>a c i x y. t a = Some (i, x) \<and> t c = Some (i, y) \<longrightarrow> a = c) \<and>
     (\<forall>a i p nm. t a = Some (i, Some p, nm) \<longrightarrow> p \<in> dom t) \<and>
     acyclic (parent_rel t) \<and>
     (\<forall>a i p nm. t a = Some (i, p, nm) \<longrightarrow>
        (if i = FUSE_ROOT_ID then p = None else p = None \<longleftrightarrow> nm = None)) \<and>
     (\<exists>a x. t a = Some (FUSE_ROOT_ID, x))"

text \<open>The tables: each live node is on the chain of its identifier, and on the chain of its
  parent and name exactly when it has them; no chain has a freed or a repeated element.\<close>

definition id_ok :: "tree \<Rightarrow> (fuse_ino_t \<Rightarrow> nat) \<Rightarrow> (nat \<Rightarrow> addr list) \<Rightarrow> bool" where
  "id_ok t hf tab \<longleftrightarrow> (\<forall>h. distinct (tab h)) \<and>
     (\<forall>h a. a \<in> set (tab h) \<longleftrightarrow> (\<exists>i x. t a = Some (i, x) \<and> hf i = h))"

definition name_ok :: "tree \<Rightarrow> (fuse_ino_t \<Rightarrow> cstring \<Rightarrow> nat) \<Rightarrow> (nat \<Rightarrow> addr list) \<Rightarrow> bool" where
  "name_ok t hf tab \<longleftrightarrow> (\<forall>h. distinct (tab h)) \<and>
     (\<forall>h a. a \<in> set (tab h) \<longleftrightarrow> (\<exists>p nm i x. edge t a p nm \<and> t p = Some (i, x) \<and> hf i nm = h)) \<and>
     (\<forall>a b p nm. edge t a p nm \<and> edge t b p nm \<longrightarrow> a = b)"

text \<open>
  The counts: a node is referenced once while the kernel knows it (\<open>nlookup\<close> is not zero), once
  by each child, and \<open>D a\<close> times by code that is using it. A node the kernel has forgotten has
  no name and is not locked; the kernel never forgets the root.
\<close>

definition ref_ok :: "(addr \<Rightarrow> nat) \<Rightarrow> addr \<Rightarrow> nat \<Rightarrow> node \<Rightarrow> bool" where
  "ref_ok D a k n \<longleftrightarrow>
     refctr n = int k + (if nlookup n = 0 then 0 else 1) + int (D a) \<and> 0 < refctr n \<and>
     (nlookup n = 0 \<longrightarrow> (node_name n = None \<or> 0 < D a) \<and> treelock n = 0 \<and> nodeid n \<noteq> FUSE_ROOT_ID)"

definition ref_inv :: "(addr \<Rightarrow> nat) \<Rightarrow> fuse \<Rightarrow> bool" where
  "ref_inv D f \<longleftrightarrow>
     (\<forall>a n. heap f a = Some n \<longrightarrow> ref_ok D a (card (children (place f) a)) n)"

definition node_inv :: "(addr \<Rightarrow> nat) \<Rightarrow> fuse \<Rightarrow> bool" where
  "node_inv D f \<longleftrightarrow> tree_ok (place f) (brk f) \<and> id_ok (place f) (id_hash f) (id_table f) \<and>
     name_ok (place f) (name_hash f) (name_table f) \<and> ref_inv D f"

abbreviation node_inv0 :: "fuse \<Rightarrow> bool" where
  "node_inv0 \<equiv> node_inv (\<lambda>_. 0)"

lemma node_invD [inv_dest]:
  assumes "node_inv D f"
  shows "tree_ok (place f) (brk f)" "id_ok (place f) (id_hash f) (id_table f)"
    "name_ok (place f) (name_hash f) (name_table f)" "ref_inv D f"
  using assms by (simp_all add: node_inv_def)

lemma tree_okD:
  assumes "tree_ok t b"
  shows "finite (dom t)"
    and "t a = Some w \<Longrightarrow> a < b"
    and "t a = Some (i, x) \<Longrightarrow> t c = Some (i, y) \<Longrightarrow> a = c"
    and "t a = Some (i, Some p, nm) \<Longrightarrow> \<exists>x. t p = Some x"
    and "t a = Some (i, q, nm) \<Longrightarrow> i \<noteq> FUSE_ROOT_ID \<Longrightarrow> q = None \<longleftrightarrow> nm = None"
    and "t a = Some (FUSE_ROOT_ID, q, nm) \<Longrightarrow> q = None"
    and "\<exists>a x. t a = Some (FUSE_ROOT_ID, x)"
    and "acyclic (parent_rel t)"
  using assms unfolding tree_ok_def by (blast | force)+

lemma parent_neq: "tree_ok t b \<Longrightarrow> t a = Some (i, Some p, nm) \<Longrightarrow> p \<noteq> a"
  using tree_okD(8) [of t b] by (auto simp: acyclic_def parent_rel_def)

lemma place_Some [simp]:
  "place f a = Some (i, q, nm) \<longleftrightarrow>
     (\<exists>n. heap f a = Some n \<and> nodeid n = i \<and> parent n = q \<and> node_name n = nm)"
  "place f a = None \<longleftrightarrow> heap f a = None"
  by (auto simp: place_def)

lemma dom_place: "dom (place f) = dom (heap f)"
  by (auto simp: place_def dom_def)

lemma get_node_nocheck_iff:
  assumes "node_inv D f"
  shows "get_node_nocheck f i = Some a \<longleftrightarrow> (\<exists>n. heap f a = Some n \<and> nodeid n = i)"
proof
  assume "get_node_nocheck f i = Some a"
  then show "\<exists>n. heap f a = Some n \<and> nodeid n = i"
    by (auto simp: get_node_nocheck_def dest!: find_SomeD split: option.splits)
next
  assume "\<exists>n. heap f a = Some n \<and> nodeid n = i"
  then obtain n where n: "heap f a = Some n" "nodeid n = i" by blast
  have uniq: "b = a" if "heap f b = Some m" "nodeid m = i" for b m
    using tree_okD(3) [OF node_invD(1) [OF assms],
        of b i "(parent m, node_name m)" a "(parent n, node_name n)"] that n by simp
  have "a \<in> set (id_table f (id_hash f i))"
    using node_invD(2) [OF assms] n by (auto simp: id_ok_def)
  then show "get_node_nocheck f i = Some a"
    unfolding get_node_nocheck_def
  proof (rule find_unique)
    fix b assume "case heap f b of Some n \<Rightarrow> nodeid n = i | None \<Rightarrow> False"
    then show "b = a" by (cases "heap f b") (simp_all add: uniq)
  qed (simp add: n)
qed

lemma get_node_nocheck_None:
  assumes "node_inv D f"
  shows "get_node_nocheck f i = None \<longleftrightarrow> (\<forall>a n. heap f a = Some n \<longrightarrow> nodeid n \<noteq> i)"
  using get_node_nocheck_iff [OF assms, of i] by (metis option.exhaust option.distinct(1))

text \<open>A lookup finds exactly the node that the tree has under that directory and name.\<close>

definition is_child :: "tree \<Rightarrow> fuse_ino_t \<Rightarrow> cstring \<Rightarrow> addr \<Rightarrow> bool" where
  "is_child t i nm a \<longleftrightarrow> (\<exists>p x. t p = Some (i, x) \<and> edge t a p nm)"

lemma is_child_unique:
  assumes "node_inv D f" "is_child (place f) i nm a" "is_child (place f) i nm b"
  shows "a = b"
proof -
  obtain p x q y where "place f p = Some (i, x)" "edge (place f) a p nm"
    "place f q = Some (i, y)" "edge (place f) b q nm"
    using assms(2,3) unfolding is_child_def by blast
  then show ?thesis
    using tree_okD(3) [OF node_invD(1) [OF assms(1)]] node_invD(3) [OF assms(1)]
    unfolding name_ok_def by metis
qed

lemma child_name_unique:
  assumes "node_inv D f" "is_child (place f) i nm a" "is_child (place f) i' nm' a"
  shows "i = i' \<and> nm = nm'"
  using assms(2,3) by (auto simp: is_child_def edge_def)

lemma lookup_node_test:
  "(case heap f a of
      Some n \<Rightarrow> node_name n = Some nm \<and>
        (case parent n of Some q \<Rightarrow> (case heap f q of Some pn \<Rightarrow> nodeid pn = i | None \<Rightarrow> False)
         | None \<Rightarrow> False)
    | None \<Rightarrow> False) \<longleftrightarrow> is_child (place f) i nm a"
  by (cases "heap f a") (auto simp: is_child_def edge_def split: option.splits)

lemma lookup_node_iff:
  assumes "node_inv D f"
  shows "lookup_node f i nm = Some a \<longleftrightarrow> is_child (place f) i nm a"
proof
  assume "lookup_node f i nm = Some a"
  then show "is_child (place f) i nm a"
    unfolding lookup_node_def lookup_node_test using find_SomeD by metis
next
  assume c: "is_child (place f) i nm a"
  then have "a \<in> set (name_table f (name_hash f i nm))"
    using node_invD(3) [OF assms] unfolding name_ok_def is_child_def by blast
  then show "lookup_node f i nm = Some a"
    unfolding lookup_node_def lookup_node_test
    by (rule find_unique) (use c is_child_unique [OF assms] in auto)
qed

lemma lookup_node_None:
  assumes "node_inv D f"
  shows "lookup_node f i nm = None \<longleftrightarrow> (\<forall>a. \<not> is_child (place f) i nm a)"
  using lookup_node_iff [OF assms, of i nm] by (metis option.exhaust option.distinct(1))

subsection \<open>Fresh identifiers\<close>

lemma next_ctr_same [simp]:
  "heap (next_ctr f) = heap f" "id_table (next_ctr f) = id_table f"
  "id_table_size (next_ctr f) = id_table_size f"
  by (simp_all add: next_ctr_def Let_def)

lemma get_node_nocheck_next_ctr [simp]: "get_node_nocheck (next_ctr f) i = get_node_nocheck f i"
  by (simp add: get_node_nocheck_def id_hash_def)

lemma ctr_next_ctr: "unat (ctr (next_ctr f)) = (unat (ctr f) + 1) mod 2 ^ 32"
proof -
  have "ctr (next_ctr f) = take_bit 32 (ctr f + 1)"
    by (simp add: next_ctr_def Let_def take_bit_eq_mask mask_numeral)
  then have "unat (ctr (next_ctr f)) = take_bit 32 (unat (ctr f + 1))"
    by (simp only: unsigned_take_bit_eq)
  also have "\<dots> = (unat (ctr f) + 1) mod 2 ^ 64 mod 2 ^ 32"
    by (simp add: unat_word_ariths take_bit_eq_mod)
  also have "\<dots> = (unat (ctr f) + 1) mod 2 ^ 32"
    by (simp add: mod_mod_cancel)
  finally show ?thesis .
qed

lemma next_ctr_record:
  obtains g where "next_ctr f = f\<lparr>ctr := ctr (next_ctr f), generation := g\<rparr>"
  by (rule that) (simp add: next_ctr_def Let_def)

definition id_free :: "fuse \<Rightarrow> fuse_ino_t \<Rightarrow> bool" where
  "id_free f i \<longleftrightarrow> i \<noteq> 0 \<and> i \<noteq> FUSE_UNKNOWN_INO \<and> get_node_nocheck f i = None"

lemma id_free_next_ctr [simp]: "id_free (next_ctr f) i = id_free f i"
  by (simp add: id_free_def)

lemma next_id_step:
  "next_id f = (if id_free f (ctr (next_ctr f)) then Some (ctr (next_ctr f), next_ctr f)
                else next_id (next_ctr f))"
  by (subst next_id.simps) (auto simp: id_free_def Let_def)

lemma next_id_reaches:
  "unat x = (unat (ctr f) + Suc k) mod 2 ^ 32 \<Longrightarrow> id_free f x \<Longrightarrow>
     \<exists>i g. next_id f = Some (i, f\<lparr>ctr := i, generation := g\<rparr>) \<and> id_free f i \<and> unat i < 2 ^ 32"
proof (induction k arbitrary: f)
  case 0
  then have x: "ctr (next_ctr f) = x"
    using ctr_next_ctr [of f] by (simp add: word_unat_eq_iff)
  obtain g where "next_ctr f = f\<lparr>ctr := ctr (next_ctr f), generation := g\<rparr>"
    by (rule next_ctr_record)
  then have "next_id f = Some (x, f\<lparr>ctr := x, generation := g\<rparr>)"
    using x 0(2) next_id_step [of f] by simp
  moreover have "unat x < 2 ^ 32" using 0(1) by simp
  ultimately show ?case using 0(2) by blast
next
  case (Suc k)
  let ?f = "next_ctr f"
  obtain g where g: "?f = f\<lparr>ctr := ctr ?f, generation := g\<rparr>" by (rule next_ctr_record)
  show ?case
  proof (cases "id_free f (ctr ?f)")
    case True
    moreover have "unat (ctr ?f) < 2 ^ 32" by (simp add: ctr_next_ctr)
    moreover have "next_id f = Some (ctr ?f, f\<lparr>ctr := ctr ?f, generation := g\<rparr>)"
      using True next_id_step [of f] g by simp
    ultimately show ?thesis by blast
  next
    case False
    have "next_id f = next_id ?f" using False next_id_step [of f] by simp
    moreover have "unat x = (unat (ctr ?f) + Suc k) mod 2 ^ 32"
      using Suc.prems(1) unfolding ctr_next_ctr mod_add_left_eq by (simp only: add.assoc plus_1_eq_Suc)
    moreover have "id_free ?f x" using Suc.prems(2) by simp
    ultimately obtain i g' where i: "next_id f = Some (i, ?f\<lparr>ctr := i, generation := g'\<rparr>)"
      "id_free ?f i" "unat i < 2 ^ 32"
      using Suc.IH [of ?f] by auto
    have "?f\<lparr>ctr := i, generation := g'\<rparr> = f\<lparr>ctr := i, generation := g'\<rparr>" by (subst g) simp
    then show ?thesis using i by auto
  qed
qed

text \<open>Some identifier is free while the live nodes leave one out.\<close>

lemma id_free_exists:
  assumes "node_inv D f" "card (dom (heap f)) < 2 ^ 32 - 2"
  shows "\<exists>x. id_free f x \<and> unat x < 2 ^ 32"
proof (rule ccontr)
  assume no: "\<not> ?thesis"
  let ?ids = "(\<lambda>a. nodeid (the (heap f a))) ` dom (heap f)"
  let ?all = "{1 ..< (0xffffffff :: nat)}"
  have fin: "finite (dom (heap f))"
    using tree_okD(1) [OF node_invD(1) [OF assms(1)]] by (simp add: dom_place)
  have "(\<lambda>k. word_of_nat k :: u64) ` ?all \<subseteq> ?ids"
  proof
    fix x :: u64 assume "x \<in> word_of_nat ` ?all"
    then obtain k where k: "x = word_of_nat k" "1 \<le> k" "k < 0xffffffff" by auto
    then have un: "unat x = k" by (simp add: unat_of_nat)
    then have "x \<noteq> 0" "x \<noteq> FUSE_UNKNOWN_INO" using k by (auto simp: word_unat_eq_iff)
    moreover have "unat x < 2 ^ 32" using un k by simp
    ultimately have "get_node_nocheck f x \<noteq> None" using no by (auto simp: id_free_def)
    then obtain a n where "heap f a = Some n" "nodeid n = x"
      using get_node_nocheck_None [OF assms(1), of x] by auto
    then show "x \<in> ?ids" by (auto simp: image_iff intro!: bexI [of _ a])
  qed
  moreover have "inj_on (\<lambda>k. word_of_nat k :: u64) ?all"
    by (rule inj_onI) (simp add: word_unat_eq_iff unat_of_nat)
  ultimately have "card ?all \<le> card ?ids"
    using fin card_image card_mono finite_imageI by metis
  also have "\<dots> \<le> card (dom (heap f))" using fin by (rule card_image_le)
  finally show False using assms(2) by simp
qed

lemma next_id_fresh:
  assumes "node_inv D f" "card (dom (heap f)) < 2 ^ 32 - 2"
  obtains i g where "next_id f = Some (i, f\<lparr>ctr := i, generation := g\<rparr>)" "id_free f i"
    "unat i < 2 ^ 32"
proof -
  obtain x where x: "id_free f x" "unat x < 2 ^ 32" using id_free_exists [OF assms] by blast
  define k where "k = unat x + 2 ^ 32 * (unat (ctr f) + 1) - unat (ctr f) - 1"
  have "unat (ctr f) + Suc k = unat x + 2 ^ 32 * (unat (ctr f) + 1)" by (simp add: k_def)
  then have "unat x = (unat (ctr f) + Suc k) mod 2 ^ 32" using x(2) by simp
  then show ?thesis using next_id_reaches x(1) that by blast
qed

subsection \<open>What each change of the state keeps\<close>

lemma hash_cong:
  "name_table_size f' = name_table_size f \<Longrightarrow> name_hash f' = name_hash f"
  "id_table_size f' = id_table_size f \<Longrightarrow> id_hash f' = id_hash f"
  by (simp_all add: name_hash_def id_hash_def fun_eq_iff)

lemma upd_node_sel [simp]:
  "heap (upd_node a g f) = (heap f)(a := map_option g (heap f a))"
  "brk (upd_node a g f) = brk f" "name_table (upd_node a g f) = name_table f"
  "name_table_size (upd_node a g f) = name_table_size f" "id_table (upd_node a g f) = id_table f"
  "id_table_size (upd_node a g f) = id_table_size f" "conf (upd_node a g f) = conf f"
  "ctr (upd_node a g f) = ctr f" "fuse_mem (upd_node a g f) = fuse_mem f"
  "name_hash (upd_node a g f) = name_hash f" "id_hash (upd_node a g f) = id_hash f"
  by (simp_all add: upd_node_def name_hash_def id_hash_def fun_eq_iff)

lemma free_node_sel [simp]:
  "heap (free_node a f) = (heap f)(a := None)"
  "brk (free_node a f) = brk f" "name_table (free_node a f) = name_table f"
  "name_table_size (free_node a f) = name_table_size f" "id_table (free_node a f) = id_table f"
  "id_table_size (free_node a f) = id_table_size f" "conf (free_node a f) = conf f"
  "name_hash (free_node a f) = name_hash f" "id_hash (free_node a f) = id_hash f"
  by (simp_all add: free_node_def name_hash_def id_hash_def fun_eq_iff)

lemma hash_upd [simp]:
  "name_hash (f\<lparr>heap := x1\<rparr>) = name_hash f" "id_hash (f\<lparr>heap := x1\<rparr>) = id_hash f"
  "name_hash (f\<lparr>name_table := x2\<rparr>) = name_hash f" "id_hash (f\<lparr>name_table := x2\<rparr>) = id_hash f"
  "name_hash (f\<lparr>id_table := x2\<rparr>) = name_hash f" "id_hash (f\<lparr>id_table := x2\<rparr>) = id_hash f"
  "name_hash (f\<lparr>fuse_mem := x3\<rparr>) = name_hash f" "id_hash (f\<lparr>fuse_mem := x3\<rparr>) = id_hash f"
  "name_hash (f\<lparr>brk := x4\<rparr>) = name_hash f" "id_hash (f\<lparr>brk := x4\<rparr>) = id_hash f"
  "name_hash (f\<lparr>ctr := x5\<rparr>) = name_hash f" "id_hash (f\<lparr>ctr := x5\<rparr>) = id_hash f"
  "name_hash (f\<lparr>generation := x6\<rparr>) = name_hash f" "id_hash (f\<lparr>generation := x6\<rparr>) = id_hash f"
  by (simp_all add: name_hash_def id_hash_def fun_eq_iff)

lemma place_cong: "heap f' = heap f \<Longrightarrow> place f' = place f"
  by (simp add: place_def fun_eq_iff)

lemma place_upd [simp]:
  "place (f\<lparr>name_table := x2\<rparr>) = place f" "place (f\<lparr>id_table := x2\<rparr>) = place f"
  "place (f\<lparr>fuse_mem := x3\<rparr>) = place f" "place (f\<lparr>brk := x4\<rparr>) = place f"
  "place (f\<lparr>ctr := x5\<rparr>) = place f" "place (f\<lparr>generation := x6\<rparr>) = place f"
  "place (f\<lparr>heap := h\<rparr>) = (\<lambda>a. map_option (\<lambda>n. (nodeid n, parent n, node_name n)) (h a))"
  "place (free_node a f) = (place f)(a := None)"
  by (simp_all add: place_def fun_eq_iff)

text \<open>Changing fields other than the identifier, the name and the parent leaves the tree.\<close>

definition keeps_place :: "(node \<Rightarrow> node) \<Rightarrow> bool" where
  "keeps_place g \<longleftrightarrow>
     (\<forall>n. nodeid (g n) = nodeid n \<and> parent (g n) = parent n \<and> node_name (g n) = node_name n)"

lemma keeps_place_simps [simp]:
  "keeps_place (refctr_update h)" "keeps_place (nlookup_update h1)"
  "keeps_place (is_hidden_update h2)" "keeps_place (treelock_update h3)"
  by (simp_all add: keeps_place_def)

lemma place_upd_node [simp]: "keeps_place g \<Longrightarrow> place (upd_node a g f) = place f"
  by (auto simp: keeps_place_def place_def fun_eq_iff option.map_comp comp_def)

text \<open>The four changes of the tree.\<close>

lemma children_upd:
  "children (t(a := v)) p =
     (case v of Some (i, Some q, nm) \<Rightarrow> if q = p then insert a (children t p) else children t p - {a}
      | _ \<Rightarrow> children t p - {a})"
  by (auto simp: children_def split: option.splits prod.splits)

lemma parent_rel_upd_None:
  "v = None \<or> v = Some (i, None, nm) \<Longrightarrow> parent_rel (t(a := v)) \<subseteq> parent_rel t"
  by (auto simp: parent_rel_def split: if_splits)

text \<open>A change at one node that keeps its identifier, if it has one, keeps identifiers apart.\<close>

lemma tree_ok_upd:
  assumes ok: "tree_ok t b" and v: "t a = None \<and> (\<forall>c y. t c \<noteq> Some (i, y)) \<or> t a = Some (i, u)"
    and q: "case q of None \<Rightarrow> nm = None | Some p \<Rightarrow> nm \<noteq> None \<and> p \<in> dom t \<and> (p, a) \<notin> (parent_rel t)\<^sup>*"
    and i: "i \<noteq> FUSE_ROOT_ID" and b: "a < b'" "b \<le> b'"
  shows "tree_ok (t(a := Some (i, q, nm))) b'" (is "tree_ok ?t b'")
  unfolding tree_ok_def
proof (intro conjI)
  note I = tree_okD [OF ok]
  show "finite (dom ?t)" using I(1) by simp
  show "\<forall>a\<in>dom ?t. a < b'" using I(2) b by fastforce
  show "\<forall>a c i x y. ?t a = Some (i, x) \<and> ?t c = Some (i, y) \<longrightarrow> a = c"
    using I(3) v by (simp split: if_splits) metis
  show "\<forall>c i p nm. ?t c = Some (i, Some p, nm) \<longrightarrow> p \<in> dom ?t"
    using I(4) q by (auto split: if_splits option.splits)
  show "\<forall>c i p nm. ?t c = Some (i, p, nm) \<longrightarrow>
      (if i = FUSE_ROOT_ID then p = None else p = None \<longleftrightarrow> nm = None)"
    using I(5,6) q i by (auto split: if_splits option.splits)
  obtain r x where r: "t r = Some (FUSE_ROOT_ID, x)" using I(7) by blast
  then have "r \<noteq> a" using v i by auto
  with r show "\<exists>a x. ?t a = Some (FUSE_ROOT_ID, x)" by (intro exI [of _ r] exI [of _ x]) simp
  show "acyclic (parent_rel ?t)"
  proof (cases q)
    case None
    then show ?thesis
      by (intro acyclic_subset [OF I(8) parent_rel_upd_None [of _ i nm]]) simp
  next
    case (Some p)
    have "parent_rel ?t \<subseteq> insert (a, p) (parent_rel t)"
      using Some by (auto simp: parent_rel_def split: if_splits)
    moreover have "acyclic (insert (a, p) (parent_rel t))"
      using I(8) q Some by (simp add: acyclic_insert)
    ultimately show ?thesis using acyclic_subset by blast
  qed
qed

lemma tree_ok_delete:
  assumes ok: "tree_ok t b" and a: "children t a = {}" "t a = Some (i, u)" "i \<noteq> FUSE_ROOT_ID"
  shows "tree_ok (t(a := None)) b" (is "tree_ok ?t b")
  unfolding tree_ok_def
proof (intro conjI)
  note I = tree_okD [OF ok]
  show "finite (dom ?t)" using I(1) by simp
  show "\<forall>a\<in>dom ?t. a < b" using I(2) by auto
  show "\<forall>a c i x y. ?t a = Some (i, x) \<and> ?t c = Some (i, y) \<longrightarrow> a = c"
    using I(3) by (simp split: if_splits) metis
  show "\<forall>c i p nm. ?t c = Some (i, Some p, nm) \<longrightarrow> p \<in> dom ?t"
    using I(4) a(1) by (auto simp: children_def)
  show "\<forall>c i p nm. ?t c = Some (i, p, nm) \<longrightarrow>
      (if i = FUSE_ROOT_ID then p = None else p = None \<longleftrightarrow> nm = None)"
    using I(5,6) by (simp split: if_splits)
  obtain r x where r: "t r = Some (FUSE_ROOT_ID, x)" using I(7) by blast
  then have "r \<noteq> a" using a(2,3) by auto
  with r show "\<exists>a x. ?t a = Some (FUSE_ROOT_ID, x)" by (intro exI [of _ r] exI [of _ x]) simp
  show "acyclic (parent_rel ?t)"
    by (rule acyclic_subset [OF I(8) parent_rel_upd_None]) simp
qed

lemma id_ok_same: "id_ok t hf tab \<Longrightarrow> t a = Some (i, u) \<Longrightarrow> id_ok (t(a := Some (i, v))) hf tab"
  by (auto simp: id_ok_def)

lemma id_ok_insert:
  "id_ok t hf tab \<Longrightarrow> t a = None \<Longrightarrow>
     id_ok (t(a := Some (i, v))) hf (tab(hf i := a # tab (hf i)))"
  by (auto simp: id_ok_def)

lemma id_ok_delete:
  "id_ok t hf tab \<Longrightarrow> t a = Some (i, u) \<Longrightarrow>
     id_ok (t(a := None)) hf (tab(hf i := remove1 a (tab (hf i))))"
  by (auto simp: id_ok_def)

text \<open>The name table: a node that has no name and no child may come and go.\<close>

lemma edge_upd:
  "edge (t(a := v)) c p nm \<longleftrightarrow>
     (if c = a then \<exists>i. v = Some (i, Some p, Some nm) else edge t c p nm)"
  by (simp add: edge_def)

lemma name_ok_unnamed:
  assumes ok: "name_ok t hf tab" and a: "children t a = {}" "\<forall>p nm. \<not> edge t a p nm"
    and v: "\<forall>i p nm. v \<noteq> Some (i, Some p, Some nm)"
  shows "name_ok (t(a := v)) hf tab"
proof -
  have e: "edge (t(a := v)) = edge t" using a(2) v by (auto simp: edge_upd fun_eq_iff)
  have "p \<noteq> a" if "edge t c p nm" for c p nm using that a(1) by (auto simp: edge_def children_def)
  then show ?thesis using ok unfolding name_ok_def e by (metis fun_upd_other)
qed

lemma name_ok_clear:
  assumes ok: "name_ok t hf tab" and a: "t a = Some (i, Some p, Some nm)" and p: "t p = Some (j, u)"
  shows "name_ok (t(a := Some (i, None, None))) hf
           (tab(hf j nm := remove1 a (tab (hf j nm))))" (is "name_ok ?t hf ?tab")
proof -
  have mem: "c \<in> set (tab h) \<longleftrightarrow> (\<exists>p nm j. edge t c p nm \<and> (\<exists>x. t p = Some (j, x)) \<and> hf j nm = h)"
    and d: "distinct (tab h)" and u: "edge t c q nm' \<Longrightarrow> edge t c' q nm' \<Longrightarrow> c = c'" for c c' h q nm'
    using ok unfolding name_ok_def by blast+
  have e: "edge ?t c q nm' \<longleftrightarrow> edge t c q nm' \<and> c \<noteq> a" for c q nm' by (auto simp: edge_upd)
  have ea: "edge t a q nm' \<longleftrightarrow> q = p \<and> nm' = nm" for q nm' using a by (auto simp: edge_def)
  have "c \<in> set (?tab h) \<longleftrightarrow> c \<in> set (tab h) \<and> (c = a \<longrightarrow> h \<noteq> hf j nm)" for c h
    using d by auto
  also have "\<dots> c h \<longleftrightarrow> c \<in> set (tab h) \<and> c \<noteq> a" for c h
    using mem [of a h] ea p by auto
  finally have mem': "c \<in> set (?tab h) \<longleftrightarrow> c \<in> set (tab h) \<and> c \<noteq> a" for c h .
  have pt: "(\<exists>x. ?t q = Some (j', x)) \<longleftrightarrow> (\<exists>x. t q = Some (j', x))" for q j' using a by auto
  show ?thesis
    unfolding name_ok_def
  proof (intro conjI allI impI)
    show "distinct (?tab h)" for h using d by simp
    show "c \<in> set (?tab h) \<longleftrightarrow>
      (\<exists>q nm' j' x. edge ?t c q nm' \<and> ?t q = Some (j', x) \<and> hf j' nm' = h)" for c h
      using mem [of c h] pt unfolding mem' e by blast
    show "c = c'" if "edge ?t c q nm' \<and> edge ?t c' q nm'" for c c' q nm'
      using that u unfolding e by blast
  qed
qed

lemma name_ok_link:
  assumes ok: "name_ok t hf tab" and a: "t a = Some (i, None, None)" and p: "t p = Some (j, u)"
    and free: "\<forall>c. \<not> edge t c p nm"
  shows "name_ok (t(a := Some (i, Some p, Some nm))) hf
           (tab(hf j nm := a # tab (hf j nm)))" (is "name_ok ?t hf ?tab")
proof -
  have mem: "c \<in> set (tab h) \<longleftrightarrow> (\<exists>p nm j. edge t c p nm \<and> (\<exists>x. t p = Some (j, x)) \<and> hf j nm = h)"
    and d: "distinct (tab h)" and u: "edge t c q nm' \<Longrightarrow> edge t c' q nm' \<Longrightarrow> c = c'" for c c' h q nm'
    using ok unfolding name_ok_def by blast+
  have e: "edge ?t c q nm' \<longleftrightarrow> edge t c q nm' \<or> c = a \<and> q = p \<and> nm' = nm" for c q nm'
    using a by (auto simp: edge_upd edge_def)
  have ea: "\<not> edge t a q nm'" for q nm' using a by (simp add: edge_def)
  have na: "a \<notin> set (tab h)" for h using mem [of a h] a by (auto simp: edge_def)
  have mem': "c \<in> set (?tab h) \<longleftrightarrow> c \<in> set (tab h) \<or> c = a \<and> h = hf j nm" for c h by auto
  have pj: "(\<exists>x. t p = Some (j', x)) \<longleftrightarrow> j' = j" for j' using p by auto
  have pt: "(\<exists>x. ?t q = Some (j', x)) \<longleftrightarrow> (\<exists>x. t q = Some (j', x))" for q j' using a by auto
  show ?thesis
    unfolding name_ok_def
  proof (intro conjI allI impI)
    show "distinct (?tab h)" for h using d na by simp
    show "c \<in> set (?tab h) \<longleftrightarrow>
      (\<exists>q nm' j' x. edge ?t c q nm' \<and> ?t q = Some (j', x) \<and> hf j' nm' = h)" (is "_ \<longleftrightarrow> ?rhs c h") for c h
    proof -
      have "?rhs c h \<longleftrightarrow> (\<exists>q nm' j'. edge ?t c q nm' \<and> (\<exists>x. t q = Some (j', x)) \<and> hf j' nm' = h)"
        unfolding pt [symmetric] by blast
      also have "\<dots> \<longleftrightarrow> c \<in> set (?tab h)"
      proof (cases "c = a")
        case True
        then show ?thesis using na pj ea unfolding mem' e by auto
      next
        case False
        then show ?thesis using mem [of c h] unfolding mem' e by simp
      qed
      finally show ?thesis ..
    qed
    show "c = c'" if "edge ?t c q nm' \<and> edge ?t c' q nm'" for c c' q nm'
      using that u free unfolding e by blast
  qed
qed

subsection \<open>The operations keep the invariant\<close>

lemma children_finite: "node_inv D f \<Longrightarrow> finite (children (place f) a)"
  using tree_okD(1) [OF node_invD(1)]
  by (rule finite_subset [rotated]) (auto simp: children_def dom_def)

lemma ref_invD: "node_inv D f \<Longrightarrow> heap f a = Some n \<Longrightarrow> ref_ok D a (card (children (place f) a)) n"
  using node_invD(4) unfolding ref_inv_def by blast

lemma ref_ok_cong: "D' b = D b \<Longrightarrow> ref_ok D' b = ref_ok D b"
  by (simp add: ref_ok_def fun_eq_iff)

lemma upd_node_inv:
  assumes "node_inv D f" "heap f a = Some n" "keeps_place g"
    "ref_ok D' a (card (children (place f) a)) (g n)" "\<And>b. b \<noteq> a \<Longrightarrow> D' b = D b"
  shows "node_inv D' (upd_node a g f)"
proof -
  have "ref_inv D' (upd_node a g f)"
    unfolding ref_inv_def place_upd_node [OF assms(3)]
  proof (intro allI impI)
    fix b m assume m: "heap (upd_node a g f) b = Some m"
    show "ref_ok D' b (card (children (place f) b)) m"
    proof (cases "b = a")
      case True
      then show ?thesis using m assms(2,4) by simp
    next
      case False
      then show ?thesis using m ref_invD [OF assms(1)] ref_ok_cong [of D' b D, OF assms(5)] by simp
    qed
  qed
  then show ?thesis using node_invD [OF assms(1)] assms(3) by (simp add: node_inv_def)
qed

lemma nonroot_parent:
  "node_inv D f \<Longrightarrow> heap f a = Some n \<Longrightarrow> nodeid n \<noteq> FUSE_ROOT_ID \<Longrightarrow>
     parent n = None \<longleftrightarrow> node_name n = None"
  using tree_okD(5) [OF node_invD(1), of D f a "nodeid n" "parent n" "node_name n"] by simp

lemma root_parent:
  "node_inv D f \<Longrightarrow> heap f a = Some n \<Longrightarrow> nodeid n = FUSE_ROOT_ID \<Longrightarrow> parent n = None"
  using tree_okD(6) [OF node_invD(1), of D f a "parent n" "node_name n"] by simp

lemma delete_inv:
  assumes inv: "node_inv D f" and n: "heap f a = Some n" "nodeid n \<noteq> FUSE_ROOT_ID"
    "node_name n = None" "children (place f) a = {}" and D: "\<And>b. b \<noteq> a \<Longrightarrow> D' b = D b"
  shows "node_inv D' (free_node a (f\<lparr>id_table :=
     (id_table f)(id_hash f (nodeid n) := remove1 a (id_table f (id_hash f (nodeid n))))\<rparr>))"
    (is "node_inv D' ?f")
proof -
  have p: "parent n = None" using nonroot_parent [OF inv n(1,2)] n(3) by simp
  then have pl: "place f a = Some (nodeid n, None, None)" using n by simp
  have c: "children (place ?f) b = children (place f) b" if "b \<noteq> a" for b
    using p n(1) by (auto simp: children_upd) (simp add: children_def)
  have "tree_ok (place ?f) (brk ?f)"
    using tree_ok_delete [OF node_invD(1) [OF inv] n(4) pl n(2)] by simp
  moreover have "id_ok (place ?f) (id_hash ?f) (id_table ?f)"
    using id_ok_delete [OF node_invD(2) [OF inv] pl] by simp
  moreover have "name_ok (place ?f) (name_hash ?f) (name_table ?f)"
    using name_ok_unnamed [OF node_invD(3) [OF inv] n(4), of None] pl by (simp add: edge_def)
  moreover have "ref_inv D' ?f"
    unfolding ref_inv_def
  proof (intro allI impI)
    fix b m assume "heap ?f b = Some m"
    then have b: "b \<noteq> a" "heap f b = Some m" by (auto split: if_splits)
    show "ref_ok D' b (card (children (place ?f) b)) m"
      using ref_invD [OF inv b(2)] D [OF b(1)] unfolding c [OF b(1)] by (simp add: ref_ok_def)
  qed
  ultimately show ?thesis by (simp add: node_inv_def)
qed

text \<open>Giving back one reference: the node goes when it was the last.\<close>

lemma unref_node_inv:
  assumes inv: "node_inv D f" and n: "heap f a = Some n" and D: "0 < D a"
    and name: "nlookup n = 0 \<Longrightarrow> node_name n = None"
  obtains f' h t where "unref_node f a = Some f'" "f' = f\<lparr>heap := h, id_table := t\<rparr>"
    "node_inv (D(a := D a - 1)) f'" "\<And>b. b \<noteq> a \<Longrightarrow> h b = heap f b"
    "place f' = place f \<or> place f' = (place f)(a := None) \<and> children (place f) a = {} \<and>
       (\<forall>q nm. \<not> edge (place f) a q nm)"
    "nlookup n \<noteq> 0 \<Longrightarrow> h a = Some (n\<lparr>refctr := refctr n - 1\<rparr>)"
proof (cases "refctr n = 1")
  case False
  let ?f = "upd_node a (refctr_update (\<lambda>r. r - 1)) f"
  note r = ref_invD [OF inv n]
  have "unref_node f a = Some ?f" using False r n by (simp add: unref_node_def ref_ok_def Let_def)
  moreover have "node_inv (D(a := D a - 1)) ?f"
    by (rule upd_node_inv [OF inv n]) (use r D False name in \<open>auto simp: ref_ok_def\<close>)
  moreover have "?f = f\<lparr>heap := heap ?f, id_table := id_table f\<rparr>" by (simp add: upd_node_def)
  moreover have "place ?f = place f" by simp
  ultimately show ?thesis using n by (intro that [of ?f "id_table f" "heap ?f"]) (assumption | simp)+
next
  case True
  note r = ref_invD [OF inv n]
  have z: "card (children (place f) a) = 0" "nlookup n = 0" "D a = 1"
    using r True D by (auto simp: ref_ok_def split: if_splits)
  have c: "children (place f) a = {}" using z(1) children_finite [OF inv] by simp
  let ?g = "upd_node a (refctr_update (\<lambda>r. r - 1)) f"
  let ?n = "n\<lparr>refctr := refctr n - 1\<rparr>"
  let ?t = "(id_table f)(id_hash f (nodeid n) := remove1 a (id_table f (id_hash f (nodeid n))))"
  let ?f = "free_node a (f\<lparr>id_table := ?t\<rparr>)"
  have "unref_node f a = Some (free_node a (?g\<lparr>id_table := ?t\<rparr>))"
    using r n True name z(2)
    by (simp add: unref_node_def ref_ok_def delete_node_def unhash_id_def Let_def)
  also have "free_node a (?g\<lparr>id_table := ?t\<rparr>) = ?f" by (simp add: free_node_def upd_node_def)
  finally have "unref_node f a = Some ?f" .
  moreover have "node_inv (D(a := D a - 1)) ?f"
    by (rule delete_inv [OF inv n]) (use r z name c in \<open>auto simp: ref_ok_def\<close>)
  moreover have "?f = f\<lparr>heap := heap ?f, id_table := ?t\<rparr>" by (simp add: free_node_def)
  moreover have "place ?f = (place f)(a := None)" by simp
  moreover have "\<not> edge (place f) a q nm" for q nm using name [OF z(2)] n by (simp add: edge_def)
  ultimately show ?thesis using c z by (intro that [of ?f ?t "heap ?f"]) (assumption | simp)+
qed

text \<open>Taking a node off its directory: the directory is owed a reference.\<close>

abbreviation (input) unnamed :: "node \<Rightarrow> node" where
  "unnamed n \<equiv> n\<lparr>node_name := None, parent := None\<rparr>"

lemma place_unnamed:
  "heap f a = Some n \<Longrightarrow> place (upd_node a unnamed f) = (place f)(a := Some (nodeid n, None, None))"
  by (simp add: place_def fun_eq_iff)

lemma ref_ok_more: "ref_ok D a (Suc k) n \<Longrightarrow> ref_ok (D(a := Suc (D a))) a k n"
  by (auto simp: ref_ok_def)

lemma ref_ok_other: "b \<noteq> p \<Longrightarrow> ref_ok (D(p := x)) b k n = ref_ok D b k n"
  by (simp add: ref_ok_def)

lemma clear_inv:
  assumes inv: "node_inv D f" and n: "heap f a = Some n" "parent n = Some p" "node_name n = Some nm"
    and p: "heap f p = Some pn" and h: "h = name_hash f (nodeid pn) nm"
  shows "node_inv (D(p := D p + 1))
    (upd_node a unnamed (f\<lparr>name_table := (name_table f)(h := remove1 a (name_table f h))\<rparr>))"
    (is "node_inv ?D ?f")
proof -
  note T = node_invD(1) [OF inv]
  have pl: "place f a = Some (nodeid n, Some p, Some nm)" "place f p = Some (nodeid pn, parent pn, node_name pn)"
    using n p by simp_all
  have pl': "place ?f = (place f)(a := Some (nodeid n, None, None))" using n by (simp add: place_unnamed)
  have root: "nodeid n \<noteq> FUSE_ROOT_ID" using root_parent [OF inv n(1)] n(2) by auto
  have ap: "p \<noteq> a" using parent_neq [OF T pl(1)] .
  have ch: "children (place ?f) b = children (place f) b - {a}" for b
    unfolding pl' by (simp add: children_upd)
  have "a \<in> children (place f) b \<longleftrightarrow> b = p" for b using n by (auto simp: children_def)
  then have card: "card (children (place f) b) = (if b = p then Suc (card (children (place ?f) b))
      else card (children (place ?f) b))" for b
    using card.remove [OF children_finite [OF inv], of a b] unfolding ch by simp
  have "tree_ok (place ?f) (brk ?f)"
    using tree_ok_upd [OF T, of a "nodeid n" _ None None "brk f"] pl(1) root tree_okD(2) [OF T pl(1)]
    unfolding pl' by simp
  moreover have "id_ok (place ?f) (id_hash ?f) (id_table ?f)"
    using id_ok_same [OF node_invD(2) [OF inv] pl(1)] unfolding pl' by simp
  moreover have "name_ok (place ?f) (name_hash ?f) (name_table ?f)"
    using name_ok_clear [OF node_invD(3) [OF inv] pl] unfolding pl' by (simp add: h)
  moreover have "ref_inv ?D ?f"
    unfolding ref_inv_def
  proof (intro allI impI)
    fix b m assume m: "heap ?f b = Some m"
    then obtain m' where m': "heap f b = Some m'" "m = m' \<or> m = unnamed m'"
      using n by (auto split: if_splits)
    then have "ref_ok D b (card (children (place f) b)) m"
      using ref_invD [OF inv m'(1)] by (auto simp: ref_ok_def)
    then show "ref_ok ?D b (card (children (place ?f) b)) m"
      unfolding card
      by (cases "b = p") (auto simp: ref_ok_more ref_ok_other)
  qed
  ultimately show ?thesis by (simp add: node_inv_def)
qed

lemma unref_node_commute:
  "a \<noteq> p \<Longrightarrow> unref_node (upd_node a g f) p = map_option (upd_node a g) (unref_node f p)"
  by (auto simp: unref_node_def delete_node_def unhash_id_def upd_node_def free_node_def Let_def
      fun_upd_twist split: option.splits bind_splits)

lemma is_child_delete:
  assumes "children t p = {}" "\<forall>q nm. \<not> edge t p q nm"
  shows "is_child (t(p := None)) i nm c = is_child t i nm c"
proof -
  have "q \<noteq> p" if "edge t d q nm'" for d q nm' using that assms(1) by (auto simp: edge_def children_def)
  then show ?thesis using assms(2) unfolding is_child_def edge_upd by auto
qed

lemma is_child_same_id:
  assumes "t a = Some (i, u)"
  shows "is_child (t(a := Some (i, v))) j nm c \<longleftrightarrow>
           (\<exists>p. (\<exists>x. t p = Some (j, x)) \<and> edge (t(a := Some (i, v))) c p nm)"
proof -
  have "(\<exists>x. (t(a := Some (i, v))) p = Some (j, x)) \<longleftrightarrow> (\<exists>x. t p = Some (j, x))" for p
    using assms by (cases u) auto
  then show ?thesis unfolding is_child_def by blast
qed

lemma is_child_clear:
  assumes "t a = Some (i, u)"
  shows "is_child (t(a := Some (i, None, None))) j nm c \<longleftrightarrow> is_child t j nm c \<and> c \<noteq> a"
  unfolding is_child_same_id [of t, OF assms] unfolding edge_upd is_child_def by auto

text \<open>\<open>unhash_name\<close> takes exactly the one name away.\<close>

lemma unhash_name_inv:
  assumes inv: "node_inv D f" and n: "heap f a = Some n" "nodeid n \<noteq> FUSE_ROOT_ID"
    and D: "\<And>p. parent n = Some p \<Longrightarrow> D p = 0"
  obtains f' h t nt where "unhash_name f a = Some f'"
    "f' = f\<lparr>heap := h, id_table := t, name_table := nt\<rparr>" "node_inv D f'" "h a = Some (unnamed n)"
    "\<And>i nm c. is_child (place f') i nm c \<longleftrightarrow> is_child (place f) i nm c \<and> c \<noteq> a"
    "parent_rel (place f') \<subseteq> parent_rel (place f)"
    "\<And>b m. heap f b = Some m \<Longrightarrow> nlookup m \<noteq> 0 \<Longrightarrow> b \<noteq> a \<Longrightarrow>
       \<exists>r. h b = Some (m\<lparr>refctr := r\<rparr>)"
proof (cases "parent n")
  case None
  then have nm: "node_name n = None" using nonroot_parent [OF inv n] by simp
  then have "n = unnamed n" using None by simp
  moreover have "\<not> is_child (place f) i nm' a" for i nm' using n(1) nm by (auto simp: is_child_def edge_def)
  moreover have "\<exists>r. m = m\<lparr>refctr := r\<rparr>" for m :: node by (rule exI [of _ "refctr m"]) simp
  ultimately show ?thesis
    using inv n nm
    by (intro that [of f "name_table f" "id_table f" "heap f"])
      (auto simp: unhash_name_def simp del: place_Some)
next
  case (Some p)
  then obtain nm where nm: "node_name n = Some nm" using nonroot_parent [OF inv n] by auto
  have pl: "place f a = Some (nodeid n, Some p, Some nm)" using n nm Some by simp
  obtain pn where pn: "heap f p = Some pn"
    using tree_okD(4) [OF node_invD(1) [OF inv] pl] by (auto simp: place_def)
  have ap: "p \<noteq> a" using parent_neq [OF node_invD(1) [OF inv] pl] .
  define h where "h = name_hash f (nodeid pn) nm"
  let ?g = "f\<lparr>name_table := (name_table f)(h := remove1 a (name_table f h))\<rparr>"
  let ?f = "upd_node a unnamed ?g"
  let ?D = "D(p := D p + 1)"
  have in_h: "a \<in> set (name_table f h)"
    using node_invD(3) [OF inv] pl pn unfolding name_ok_def h_def edge_def by (auto simp: place_def)
  have inv': "node_inv ?D ?f" by (rule clear_inv [OF inv n(1) Some nm pn h_def])
  have hp: "heap ?f p = Some pn" using ap pn by simp
  have nm_p: "nlookup pn = 0 \<Longrightarrow> node_name pn = None"
    using ref_invD [OF inv pn] D [OF Some] by (auto simp: ref_ok_def)
  obtain f' hh t where f': "unref_node ?f p = Some f'" "f' = ?f\<lparr>heap := hh, id_table := t\<rparr>"
    "node_inv (?D(p := ?D p - 1)) f'" "\<And>b. b \<noteq> p \<Longrightarrow> hh b = heap ?f b"
    "place f' = place ?f \<or> place f' = (place ?f)(p := None) \<and> children (place ?f) p = {} \<and>
       (\<forall>q nm. \<not> edge (place ?f) p q nm)"
    "nlookup pn \<noteq> 0 \<Longrightarrow> hh p = Some (pn\<lparr>refctr := refctr pn - 1\<rparr>)"
    by (rule unref_node_inv [OF inv' hp _ nm_p]) simp_all
  have "unhash_name f a = map_option (upd_node a unnamed) (unref_node ?g p)"
    using n Some nm pn in_h by (simp add: unhash_name_def h_def Let_def map_conv_bind_option comp_def)
  then have un: "unhash_name f a = Some f'"
    using f'(1) unref_node_commute [of a p unnamed ?g] ap by simp
  have pl1: "place ?f = (place f)(a := Some (nodeid n, None, None))" using n(1) by (simp add: place_unnamed)
  have sub: "is_child (place f') i nm' c \<longleftrightarrow> is_child (place ?f) i nm' c" for i nm' c
    using f'(5) is_child_delete by metis
  have "is_child (place ?f) i nm' c \<longleftrightarrow> is_child (place f) i nm' c \<and> c \<noteq> a" for i nm' c
    unfolding pl1 by (rule is_child_clear [of "place f", OF pl])
  note child = this [folded sub]
  have "parent_rel (place f') \<subseteq> parent_rel (place ?f)"
    using f'(5) parent_rel_upd_None [of None] by fastforce
  also have "\<dots> \<subseteq> parent_rel (place f)"
    unfolding pl1 by (rule parent_rel_upd_None) simp
  finally have rel: "parent_rel (place f') \<subseteq> parent_rel (place f)" .
  show ?thesis
  proof (rule that [OF un _ _ _ child rel])
    show "f' = f\<lparr>heap := hh, id_table := t, name_table := name_table ?g\<rparr>"
      unfolding f'(2) by (simp add: upd_node_def)
    show "node_inv D f'" using f'(3) by simp
    show "hh a = Some (unnamed n)" using f'(4) ap n by simp
    show "\<exists>r. hh b = Some (m\<lparr>refctr := r\<rparr>)" if "heap f b = Some m" "nlookup m \<noteq> 0" "b \<noteq> a" for b m
    proof (cases "b = p")
      case True
      then show ?thesis using f'(6) that pn by auto
    next
      case False
      then have "hh b = Some (m\<lparr>refctr := refctr m\<rparr>)" using f'(4) that by simp
      then show ?thesis by blast
    qed
  qed
qed

text \<open>\<open>hash_name\<close> puts a nameless node under a directory outside its own subtree.\<close>

definition inside :: "fuse \<Rightarrow> addr \<Rightarrow> addr \<Rightarrow> bool" where
  "inside f p a \<longleftrightarrow> (p, a) \<in> (parent_rel (place f))\<^sup>*"

abbreviation (input) named :: "cstring \<Rightarrow> addr \<Rightarrow> node \<Rightarrow> node" where
  "named nm p n \<equiv> n\<lparr>node_name := Some nm, parent := Some p\<rparr>"

lemma is_child_link:
  assumes "t a = Some (i, None, None)" "t p = Some (j, u)"
  shows "is_child (t(a := Some (i, Some p, Some nm))) k nm' c \<longleftrightarrow>
           is_child t k nm' c \<or> (k = j \<and> nm' = nm \<and> c = a)"
proof -
  have "\<not> edge t a q nm'" for q using assms(1) by (simp add: edge_def)
  moreover have "(\<exists>x. t p = Some (k, x)) \<longleftrightarrow> k = j" using assms(2) by (cases u) auto
  ultimately show ?thesis
    unfolding is_child_same_id [of t, OF assms(1)] unfolding edge_upd is_child_def
    by (cases "c = a") auto
qed

lemma link_inv:
  assumes inv: "node_inv D f" and n: "heap f a = Some n" "nodeid n \<noteq> FUSE_ROOT_ID"
    "node_name n = None" "nlookup n \<noteq> 0 \<or> 0 < D a"
    and p: "heap f p = Some pn" "\<not> inside f p a"
    and free: "\<And>c. \<not> is_child (place f) (nodeid pn) nm c" and h: "h = name_hash f (nodeid pn) nm"
    and g: "g = upd_node a (named nm p) (upd_node p (refctr_update (\<lambda>r. r + 1)) f)"
    and f': "f' = g\<lparr>name_table := (name_table g)(h := a # name_table g h)\<rparr>"
  shows "node_inv D f'"
    and "is_child (place f') i nm' c \<longleftrightarrow>
           is_child (place f) i nm' c \<or> (i = nodeid pn \<and> nm' = nm \<and> c = a)"
proof -
  note T = node_invD(1) [OF inv]
  have par: "parent n = None" using nonroot_parent [OF inv n(1,2)] n(3) by simp
  have ap: "p \<noteq> a" using p(2) by (auto simp: inside_def)
  have pl: "place f a = Some (nodeid n, None, None)" "place f p = Some (nodeid pn, parent pn, node_name pn)"
    using n p par by simp_all
  have "place f' = (place g)" by (simp add: f')
  also have "\<dots> = (place f)(a := Some (nodeid n, Some p, Some nm))"
    unfolding g using n(1) p(1) ap by (auto simp: place_def fun_eq_iff)
  finally have pl': "place f' = (place f)(a := Some (nodeid n, Some p, Some nm))" .
  have ch: "children (place f') b = (if b = p then insert a (children (place f) b) else children (place f) b - {a})" for b
    unfolding pl' by (simp add: children_upd)
  have na: "a \<notin> children (place f) b" for b using n(1) par by (auto simp: children_def)
  have card: "card (children (place f') b) = (if b = p then Suc (card (children (place f) b))
      else card (children (place f) b))" for b
    unfolding ch using na children_finite [OF inv] by simp
  show "is_child (place f') i nm' c \<longleftrightarrow> is_child (place f) i nm' c \<or> (i = nodeid pn \<and> nm' = nm \<and> c = a)"
    unfolding pl' by (rule is_child_link [OF pl])
  have "tree_ok (place f') (brk f')"
    using tree_ok_upd [OF T, where a = a and i = "nodeid n" and q = "Some p" and nm = "Some nm"
        and b' = "brk f"] pl n(2) tree_okD(2) [OF T pl(1)] p
    unfolding pl' by (simp add: f' g inside_def dom_def)
  moreover have "id_ok (place f') (id_hash f') (id_table f')"
    using id_ok_same [OF node_invD(2) [OF inv] pl(1)] unfolding pl' by (simp add: f' g)
  moreover have "\<forall>c. \<not> edge (place f) c p nm" using free pl(2) unfolding is_child_def by blast
  then have "name_ok (place f') (name_hash f') (name_table f')"
    using name_ok_link [OF node_invD(3) [OF inv] pl] unfolding pl' by (simp add: f' g h)
  moreover have "ref_inv D f'"
    unfolding ref_inv_def
  proof (intro allI impI)
    fix b m assume m: "heap f' b = Some m"
    consider "b = p" | "b = a" | "b \<noteq> p" "b \<noteq> a" by blast
    then show "ref_ok D b (card (children (place f') b)) m"
    proof cases
      case 1
      then show ?thesis using m p ap ref_invD [OF inv p(1)] unfolding card by (auto simp: f' g ref_ok_def)
    next
      case 2
      then show ?thesis using m n ap ref_invD [OF inv n(1)] unfolding card by (auto simp: f' g ref_ok_def)
    next
      case 3
      then show ?thesis using m ref_invD [OF inv, of b m] unfolding card by (simp add: f' g)
    qed
  qed
  ultimately show "node_inv D f'" by (simp add: node_inv_def)
qed

lemma hash_name_keeps: "hash_name f a j nm = Some (r, f') \<Longrightarrow> id_table f' = id_table f"
  by (auto simp: hash_name_def malloc_ok_def Let_def split: bind_splits prod.splits if_splits)

text \<open>The new node, in the heap and in the identifier table, before it has a name.\<close>

definition with_node :: "fuse \<Rightarrow> node \<Rightarrow> fuse" where
  "with_node f n = f\<lparr>brk := Suc (brk f), heap := (heap f)(brk f := Some n),
     id_table := (id_table f)(id_hash f (nodeid n) := brk f # id_table f (id_hash f (nodeid n)))\<rparr>"

lemma insert_inv:
  assumes inv: "node_inv D f" and i: "id_free f i" "i \<noteq> FUSE_ROOT_ID"
    and n: "nodeid n = i" "parent n = None" "node_name n = None" "refctr n = 1" "treelock n = 0"
    and D: "D' (brk f) = (if nlookup n = 0 then 1 else 0)" "\<And>b. b \<noteq> brk f \<Longrightarrow> D' b = D b"
  shows "node_inv D' (with_node f n)" (is "node_inv D' ?f")
  unfolding with_node_def n(1)
proof -
  let ?f = "f\<lparr>brk := Suc (brk f), heap := (heap f)(brk f := Some n),
     id_table := (id_table f)(id_hash f i := brk f # id_table f (id_hash f i))\<rparr>"
  let ?a = "brk f"
  note T = node_invD(1) [OF inv]
  have new: "heap f ?a = None"
  proof (rule ccontr)
    assume "heap f ?a \<noteq> None"
    then obtain x where "place f ?a = Some x" by (auto simp: place_def)
    then show False using tree_okD(2) [OF T] by blast
  qed
  have fresh: "place f c \<noteq> Some (i, y)" for c y
    using i(1) get_node_nocheck_None [OF inv, of i] unfolding id_free_def by (auto simp: place_def)
  have pl': "place ?f = (place f)(?a := Some (i, None, None))"
    using n by (auto simp: place_def fun_eq_iff)
  have none: "children (place f) ?a = {}"
  proof -
    have "\<not> place f c = Some (j, Some ?a, nm)" for c j nm
      using tree_okD(4) [OF T, of c j ?a nm] new [folded place_Some(2)] by (auto simp del: place_Some)
    then show ?thesis by (auto simp: children_def simp del: place_Some)
  qed
  have "?a \<notin> children (place f) b" for b using new by (auto simp: children_def)
  then have ch: "children (place ?f) b = children (place f) b" for b
    unfolding pl' by (simp add: children_upd)
  have "tree_ok (place ?f) (brk ?f)"
    using tree_ok_upd [OF T, of ?a i _ None None "Suc (brk f)"] new fresh i(2) unfolding pl' by simp
  moreover have "id_ok (place ?f) (id_hash ?f) (id_table ?f)"
    using id_ok_insert [OF node_invD(2) [OF inv], of ?a i] new unfolding pl' by simp
  moreover have "name_ok (place ?f) (name_hash ?f) (name_table ?f)"
    using name_ok_unnamed [OF node_invD(3) [OF inv] none, of "Some (i, None, None)"] new unfolding pl'
    by (simp add: edge_def)
  moreover have "ref_inv D' ?f"
    unfolding ref_inv_def ch
  proof (intro allI impI)
    fix b m assume m: "heap ?f b = Some m"
    show "ref_ok D' b (card (children (place f) b)) m"
    proof (cases "b = ?a")
      case True
      then show ?thesis using m n none D i(2) by (auto simp: ref_ok_def)
    next
      case False
      then show ?thesis using m ref_invD [OF inv, of b m] D(2) ref_ok_cong [of D' b D] by simp
    qed
  qed
  ultimately show "node_inv D' ?f" by (simp add: node_inv_def)
qed

lemma hash_name_fail:
  assumes "get_node f j = Some p" "malloc_ok f = (False, f')" "heap f a = Some n" "node_name n = None"
  shows "hash_name f a j nm = Some (- 1, f')"
proof -
  have "heap f' = heap f" using assms(2) by (auto simp: malloc_ok_def split: prod.splits)
  moreover have "n\<lparr>node_name := None\<rparr> = n" using assms(4) by simp
  ultimately have "upd_node a (\<lambda>n. n\<lparr>node_name := None\<rparr>) f' = f'"
    using assms(3) by (simp add: upd_node_def fun_upd_idem)
  then show ?thesis using assms(1,2) by (simp add: hash_name_def)
qed

lemma malloc_ok_cases:
  obtains (ok) m where "malloc_ok f = (True, f\<lparr>fuse_mem := m\<rparr>)" "m = tl (fuse_mem f)"
  | (fail) m where "malloc_ok f = (False, f\<lparr>fuse_mem := m\<rparr>)" "fuse_mem f \<noteq> []"
proof (cases "fuse_mem f")
  case Nil
  then show ?thesis by (intro ok [of "[]"]) (simp_all add: malloc_ok_def)
next
  case (Cons b m)
  show ?thesis
  proof (cases b)
    case True
    then show ?thesis using Cons by (intro ok [of m]) (simp_all add: malloc_ok_def)
  next
    case False
    then show ?thesis using Cons by (intro fail [of m]) (simp_all add: malloc_ok_def)
  qed
qed

lemma mem_inv [simp]: "node_inv D (f\<lparr>fuse_mem := m\<rparr>) = node_inv D f"
  by (simp add: node_inv_def ref_inv_def)

lemma mem_inside [simp]: "inside (f\<lparr>fuse_mem := m\<rparr>) = inside f"
  by (simp add: inside_def fun_eq_iff)

lemma hash_name_inv:
  assumes inv: "node_inv D f" and n: "heap f a = Some n" "nodeid n \<noteq> FUSE_ROOT_ID"
    "node_name n = None" "nlookup n \<noteq> 0 \<or> 0 < D a"
    and p: "heap f p = Some pn" "nodeid pn = j" "\<not> inside f p a"
    and free: "\<And>c. \<not> is_child (place f) j nm c"
  obtains (linked) h nt m where
    "hash_name f a j nm = Some (0, f\<lparr>fuse_mem := m, heap := h, name_table := nt\<rparr>)"
    "node_inv D (f\<lparr>fuse_mem := m, heap := h, name_table := nt\<rparr>)" "h a = Some (named nm p n)"
    "\<And>i nm' c. is_child (place (f\<lparr>fuse_mem := m, heap := h, name_table := nt\<rparr>)) i nm' c \<longleftrightarrow>
       is_child (place f) i nm' c \<or> (i = j \<and> nm' = nm \<and> c = a)"
  | (no_memory) m where "hash_name f a j nm = Some (- 1, f\<lparr>fuse_mem := m\<rparr>)" "fuse_mem f \<noteq> []"
proof -
  have g: "get_node f j = Some p" using get_node_nocheck_iff [OF inv] p by (auto simp: get_node_def)
  have ap: "p \<noteq> a" using p(3) by (auto simp: inside_def)
  show ?thesis
  proof (cases f rule: malloc_ok_cases)
    case (fail m)
    then show ?thesis using no_memory [OF hash_name_fail [OF g fail(1) n(1,3)]] by simp
  next
    case (ok m)
    let ?fm = "f\<lparr>fuse_mem := m\<rparr>"
    let ?g = "upd_node a (named nm p) (upd_node p (refctr_update (\<lambda>r. r + 1)) ?fm)"
    let ?h = "name_hash f j nm"
    let ?f = "?g\<lparr>name_table := (name_table ?g)(?h := a # name_table ?g ?h)\<rparr>"
    have eq: "?f = f\<lparr>fuse_mem := m, heap := heap ?f, name_table := name_table ?f\<rparr>"
      by (simp add: upd_node_def)
    have L: "node_inv D ?fm" "heap ?fm a = Some n" "heap ?fm p = Some pn" "\<not> inside ?fm p a"
      "\<And>c. \<not> is_child (place ?fm) (nodeid pn) nm c" "?h = name_hash ?fm (nodeid pn) nm"
      using inv n(1) p free by simp_all
    note R = link_inv [OF L(1,2) n(2,3,4) L(3,4,5,6) refl refl]
    have "node_inv D ?f" by (rule R)
    moreover have "is_child (place ?f) i nm' c \<longleftrightarrow>
       is_child (place f) i nm' c \<or> (i = j \<and> nm' = nm \<and> c = a)" for i nm' c
      using R(2) [of i nm' c] unfolding p(2) by simp
    moreover have "hash_name f a j nm = Some (0, ?f)" using g ok by (simp add: hash_name_def Let_def)
    moreover have "heap ?f a = Some (named nm p n)" using n ap by simp
    ultimately show ?thesis using linked [of "name_table ?f" "heap ?f" m] unfolding eq [symmetric] by blast
  qed
qed

text \<open>The result of a lookup after a change, from the names the change left.\<close>

lemma lookup_node_cong:
  assumes "node_inv D f" "node_inv D' f'" "\<And>c. is_child (place f') i nm c \<longleftrightarrow> is_child (place f) i nm c"
  shows "lookup_node f' i nm = lookup_node f i nm"
proof (cases "lookup_node f i nm")
  case None
  then show ?thesis using lookup_node_None [OF assms(1)] lookup_node_None [OF assms(2)] assms(3) by metis
next
  case (Some a)
  then show ?thesis using lookup_node_iff [OF assms(1)] lookup_node_iff [OF assms(2)] assms(3) by metis
qed

lemma lookup_node_without:
  assumes "node_inv D f" "node_inv D' f'"
    "\<And>i nm c. is_child (place f') i nm c \<longleftrightarrow> is_child (place f) i nm c \<and> c \<noteq> a"
  shows "lookup_node f' i nm = (if lookup_node f i nm = Some a then None else lookup_node f i nm)"
proof (cases "lookup_node f i nm = Some a")
  case True
  then have "\<not> is_child (place f') i nm c" for c
    using lookup_node_iff [OF assms(1)] is_child_unique [OF assms(1)] assms(3) by metis
  then show ?thesis using True lookup_node_None [OF assms(2)] by simp
next
  case False
  then have "\<not> is_child (place f) i nm a" using lookup_node_iff [OF assms(1)] by simp
  then show ?thesis using False lookup_node_cong [OF assms(1,2), of i nm] assms(3) by metis
qed

lemma lookup_node_heap:
  assumes "node_inv D f" "lookup_node f i nm = Some a"
  obtains n p where "heap f a = Some n" "parent n = Some p" "node_name n = Some nm"
    "nodeid n \<noteq> FUSE_ROOT_ID"
proof -
  have "is_child (place f) i nm a" using assms lookup_node_iff by blast
  then obtain p n where "heap f a = Some n" "parent n = Some p" "node_name n = Some nm"
    by (auto simp: is_child_def edge_def)
  moreover have "nodeid n \<noteq> FUSE_ROOT_ID" using root_parent [OF assms(1)] calculation by fastforce
  ultimately show ?thesis using that by blast
qed

subsection \<open>What the operations do\<close>

text \<open>
  C23: \<open>next_id\<close> returns when fewer than \<open>2 ^ 32 - 2\<close> nodes are live, and the identifier it
  returns is not zero, not the unknown inode number, not in use, and fits in 32 bits.
\<close>

theorem next_id_returns_fresh:
  assumes "node_inv D f" "card (dom (heap f)) < 2 ^ 32 - 2"
  shows "\<exists>i f'. next_id f = Some (i, f') \<and> i \<noteq> 0 \<and> i \<noteq> FUSE_UNKNOWN_INO \<and> i < 0x100000000 \<and>
           get_node_nocheck f i = None \<and> heap f' = heap f \<and> ctr f' = i"
proof -
  obtain i g where i: "next_id f = Some (i, f\<lparr>ctr := i, generation := g\<rparr>)" "id_free f i" "unat i < 2 ^ 32"
    by (rule next_id_fresh [OF assms])
  have "i < 0x100000000" using i(3) by (simp add: word_less_nat_alt)
  then show ?thesis using i(1,2) by (auto simp: id_free_def)
qed

lemma ctr_inv [simp]: "node_inv D (f\<lparr>ctr := c, generation := g\<rparr>) = node_inv D f"
  by (simp add: node_inv_def ref_inv_def)

lemma tree_ok_Suc: "tree_ok t b \<Longrightarrow> tree_ok t (Suc b)"
  unfolding tree_ok_def using less_SucI by blast

lemma brk_inv: "node_inv D f \<Longrightarrow> node_inv D (f\<lparr>brk := Suc (brk f)\<rparr>)"
  using tree_ok_Suc by (simp add: node_inv_def ref_inv_def)

lemma hash_name_id_table:
  "get_node (f\<lparr>id_table := t\<rparr>) j = get_node f j \<Longrightarrow>
     hash_name (f\<lparr>id_table := t\<rparr>) a j nm =
       map_option (\<lambda>(r, x). (r, x\<lparr>id_table := t\<rparr>)) (hash_name f a j nm)"
  by (cases "get_node f j"; cases "alloc (fuse_mem f)")
    (simp_all add: hash_name_def malloc_ok_def upd_node_def Let_def)

lemma nlookup_bump_inv:
  assumes "node_inv D f" "heap f a = Some n" "nlookup n \<noteq> - 1"
    "D' = (if nlookup n = 0 then D(a := D a - 1) else D)" "nlookup n = 0 \<Longrightarrow> 0 < D a"
  shows "node_inv D' (upd_node a (nlookup_update (\<lambda>k. k + 1)) f)"
proof (rule upd_node_inv [OF assms(1,2)])
  have "nlookup n + 1 \<noteq> 0" using assms(3) by (metis add.commute add_eq_0_iff)
  then show "ref_ok D' a (card (children (place f) a)) (nlookup_update (\<lambda>k. k + 1) n)"
    using ref_invD [OF assms(1,2)] assms(4,5) by (auto simp: ref_ok_def)
qed (use assms(4) in auto)

lemma brk_fresh: "node_inv D f \<Longrightarrow> heap f (brk f) = None"
  using tree_okD(2) [OF node_invD(1)] by (cases "heap f (brk f)") (fastforce simp: place_def)+

lemma with_node_tree:
  assumes inv: "node_inv D f" and n: "parent n = None" "node_name n = None"
  shows "is_child (place (with_node f n)) j nm c = is_child (place f) j nm c"
    and "p \<noteq> brk f \<Longrightarrow> \<not> inside (with_node f n) p (brk f)"
proof -
  let ?a = "brk f"
  have new: "place f ?a = None" using brk_fresh [OF inv] by simp
  have pl: "place (with_node f n) = (place f)(?a := Some (nodeid n, None, None))"
    using n by (auto simp: with_node_def place_def fun_eq_iff)
  have no: "\<not> place f b = Some (k, Some ?a, x)" for b k x
    using tree_okD(4) [OF node_invD(1) [OF inv], of b k ?a x] new by (auto simp del: place_Some)
  have e: "edge (place (with_node f n)) = edge (place f)"
    unfolding pl using new by (auto simp: edge_def fun_eq_iff)
  have "q \<noteq> ?a" if "edge (place f) c q nm" for q
    using that no unfolding edge_def by blast
  then show "is_child (place (with_node f n)) j nm c = is_child (place f) j nm c"
    unfolding is_child_def e unfolding pl by auto
  have "parent_rel (place (with_node f n)) \<subseteq> parent_rel (place f)"
    unfolding pl by (rule parent_rel_upd_None) simp
  then have "(x, ?a) \<notin> parent_rel (place (with_node f n))" for x
    using no unfolding parent_rel_def by blast
  then show "p \<noteq> ?a \<Longrightarrow> \<not> inside (with_node f n) p ?a" unfolding inside_def by (metis rtranclE)
qed

lemma get_node_with_node:
  assumes "nodeid n \<noteq> j" "heap f (brk f) = None"
  shows "get_node (f\<lparr>brk := b, heap := (heap f)(brk f := Some n), id_table := t\<rparr>) j =
     get_node (f\<lparr>id_table := t\<rparr>) j"
  using assms by (auto simp: get_node_def get_node_nocheck_def id_hash_def intro!: arg_cong2 [of _ _ _ _ find] ext)

lemma find_node_new:
  assumes inv: "node_inv0 f" and ids: "card (dom (heap f)) < 2 ^ 32 - 2"
    and p: "heap f p = Some pn" and none: "lookup_node f (nodeid pn) nm = None"
  obtains (made) a n f' where "find_node f (nodeid pn) (Some nm) = Some (Some a, f')" "node_inv0 f'"
    "heap f a = None" "heap f' a = Some n" "node_name n = Some nm" "parent n = Some p"
    "nlookup n = (if noforget (conf f) then 2 else 1)" "get_node_nocheck f (nodeid n) = None"
    "\<And>i nm' c. is_child (place f') i nm' c \<longleftrightarrow>
       is_child (place f) i nm' c \<or> (i = nodeid pn \<and> nm' = nm \<and> c = a)"
  | (no_memory) f' where "find_node f (nodeid pn) (Some nm) = Some (None, f')" "node_inv0 f'" "heap f' = heap f"
    "fuse_mem f \<noteq> []"
proof (cases f rule: malloc_ok_cases)
  case (fail m)
  then have "find_node f (nodeid pn) (Some nm) = Some (None, f\<lparr>fuse_mem := m\<rparr>)"
    using none by (simp add: find_node_def)
  then show ?thesis using no_memory inv fail(2) by simp
next
  case (ok m)
  let ?a = "brk f"
  let ?fb = "f\<lparr>fuse_mem := m, brk := Suc ?a\<rparr>"
  have "node_inv0 ?fb" using brk_inv [of _ "f\<lparr>fuse_mem := m\<rparr>"] inv by simp
  moreover have "card (dom (heap ?fb)) < 2 ^ 32 - 2" using ids by simp
  ultimately obtain i g where nx: "next_id ?fb = Some (i, ?fb\<lparr>ctr := i, generation := g\<rparr>)"
    and i: "id_free ?fb i" by (rule next_id_fresh)
  define n where "n = new_node\<lparr>nlookup := (if noforget (conf f) then 1 else 0), refctr := 1,
      nodeid := i, node_generation := g\<rparr>"
  have n: "nodeid n = i" "parent n = None" "node_name n = None" "refctr n = 1" "treelock n = 0"
    "nlookup n = (if noforget (conf f) then 1 else 0)"
    by (simp_all add: n_def new_node_def)
  let ?fc = "f\<lparr>fuse_mem := m, ctr := i, generation := g\<rparr>"
  let ?fd = "?fb\<lparr>ctr := i, generation := g, heap := (heap f)(?a := Some n)\<rparr>"
  let ?fe = "with_node ?fc n"
  have new: "heap f ?a = None" by (rule brk_fresh [OF inv])
  have free: "id_free f i" using i by (simp add: id_free_def get_node_nocheck_def id_hash_def)
  have "get_node_nocheck f (nodeid n') \<noteq> None" if "heap f b = Some n'" for b n'
    using get_node_nocheck_None [OF inv] that by blast
  then have ne: "i \<noteq> FUSE_ROOT_ID" "nodeid pn \<noteq> i"
    using free p tree_okD(7) [OF node_invD(1) [OF inv]] unfolding id_free_def by (fastforce simp: place_def)+
  define D where "D = (\<lambda>_. 0 :: nat)(?a := if noforget (conf f) then 0 else 1)"
  have fc: "node_inv0 ?fc" "id_free ?fc i" using inv free
    by (simp_all add: id_free_def get_node_nocheck_def id_hash_def node_inv_def ref_inv_def)
  have inv_e: "node_inv D ?fe"
    by (rule insert_inv [OF fc ne(1) n(1-5)]) (simp_all add: D_def n)
  have n_e: "heap ?fe ?a = Some n" by (simp add: with_node_def)
  have pa: "p \<noteq> ?a" using p new by auto
  have p_e: "heap ?fe p = Some pn" using p pa by (simp add: with_node_def)
  note tr = with_node_tree [OF fc(1) n(2,3)]
  have ins: "\<not> inside ?fe p ?a" using tr(2) pa by simp
  have ch: "is_child (place ?fe) j nm' c = is_child (place f) j nm' c" for j nm' c
    using tr(1) by simp
  have no: "\<not> is_child (place ?fe) (nodeid pn) nm c" for c
    unfolding ch using none lookup_node_None [OF inv] by blast
  let ?t = "id_table ?fe"
  have e_d: "?fe = ?fd\<lparr>id_table := ?t\<rparr>" by (simp add: with_node_def)
  have gn: "get_node (?fd\<lparr>id_table := ?t\<rparr>) (nodeid pn) = get_node ?fd (nodeid pn)"
    using ne(2) n(1) by (simp add: get_node_def get_node_nocheck_def with_node_def)
  have hn: "hash_name ?fe ?a (nodeid pn) nm =
     map_option (\<lambda>(r, x). (r, x\<lparr>id_table := ?t\<rparr>)) (hash_name ?fd ?a (nodeid pn) nm)"
    using hash_name_id_table [OF gn] unfolding e_d [symmetric] .
  have fn: "find_node f (nodeid pn) (Some nm) = do {
      (res, f) \<leftarrow> hash_name ?fd ?a (nodeid pn) nm;
      if res = - 1 then Some (None, free_node ?a f) else do {
        f \<leftarrow> hash_id f ?a;
        Some (Some ?a, upd_node ?a (nlookup_update (\<lambda>k. k + 1)) f)
      }}"
    using none ok(1) nx by (simp add: find_node_def Let_def n_def cong: if_cong)
  have nl: "nlookup n \<noteq> 0 \<or> 0 < D ?a" by (simp add: D_def n)
  have nr: "nodeid n \<noteq> FUSE_ROOT_ID" using ne(1) n(1) by simp
  show ?thesis
  proof (rule hash_name_inv [OF inv_e n_e nr n(3) nl p_e refl ins no])
    fix m' assume no: "hash_name ?fe ?a (nodeid pn) nm = Some (- 1, ?fe\<lparr>fuse_mem := m'\<rparr>)"
      "fuse_mem ?fe \<noteq> []"
    then obtain x where x: "hash_name ?fd ?a (nodeid pn) nm = Some (- 1, x)"
      "x\<lparr>id_table := ?t\<rparr> = ?fe\<lparr>fuse_mem := m'\<rparr>"
      unfolding hn by auto
    have "x = (x\<lparr>id_table := ?t\<rparr>)\<lparr>id_table := id_table f\<rparr>"
      using hash_name_keeps [OF x(1)] by simp
    also have "\<dots> = ?fe\<lparr>fuse_mem := m', id_table := id_table f\<rparr>" unfolding x(2) by simp
    finally have "free_node ?a x =
        f\<lparr>fuse_mem := m', ctr := i, generation := g, brk := Suc (brk f)\<rparr>"
      using new by (simp add: with_node_def free_node_def fun_upd_idem)
    moreover have "node_inv0 (f\<lparr>fuse_mem := m', ctr := i, generation := g, brk := Suc (brk f)\<rparr>)"
      using brk_inv [of _ "f\<lparr>fuse_mem := m', ctr := i, generation := g\<rparr>"] inv by simp
    moreover have "fuse_mem f \<noteq> []" using no(2) ok(2) by (cases "fuse_mem f") (simp_all add: with_node_def)
    ultimately show ?thesis using no_memory [of "free_node ?a x"] x(1) unfolding fn by simp
  next
    fix h nt m'
    let ?ff = "?fe\<lparr>fuse_mem := m', heap := h, name_table := nt\<rparr>"
    assume "hash_name ?fe ?a (nodeid pn) nm = Some (0, ?ff)" and inv_f: "node_inv D ?ff"
      and h: "h ?a = Some (named nm p n)"
      and c: "\<And>i nm' c. is_child (place ?ff) i nm' c \<longleftrightarrow>
        is_child (place ?fe) i nm' c \<or> (i = nodeid pn \<and> nm' = nm \<and> c = ?a)"
    then obtain x where x: "hash_name ?fd ?a (nodeid pn) nm = Some (0, x)" "x\<lparr>id_table := ?t\<rparr> = ?ff"
      unfolding hn by auto
    have "x = (x\<lparr>id_table := ?t\<rparr>)\<lparr>id_table := id_table f\<rparr>"
      using hash_name_keeps [OF x(1)] by simp
    also have "\<dots> = ?ff\<lparr>id_table := id_table f\<rparr>" unfolding x(2) by simp
    finally have hid: "hash_id x ?a = Some ?ff"
      using h n(1) by (simp add: hash_id_def with_node_def Let_def)
    let ?r = "upd_node ?a (nlookup_update (\<lambda>k. k + 1)) ?ff"
    have "heap ?ff ?a = Some (named nm p n)" using h by simp
    then have "node_inv0 ?r"
      by (rule nlookup_bump_inv [OF inv_f]) (auto simp: D_def n)
    moreover have "heap ?r ?a = Some (nlookup_update (\<lambda>k. k + 1) (named nm p n))" using h by simp
    moreover have "is_child (place ?r) i nm' c \<longleftrightarrow>
        is_child (place f) i nm' c \<or> (i = nodeid pn \<and> nm' = nm \<and> c = ?a)" for i nm' c
      using c [of i nm' c] ch by (simp del: place_upd)
    moreover have "find_node f (nodeid pn) (Some nm) = Some (Some ?a, ?r)"
      unfolding fn using x(1) hid by simp
    ultimately show ?thesis
      using new free n by (intro made [of ?a ?r "nlookup_update (\<lambda>k. k + 1) (named nm p n)"])
        (simp_all add: id_free_def del: place_upd)
  qed
qed

lemma init_nodes_facts:
  assumes "init_nodes cfg nullp intr_ok hctr mem = Some f"
  shows "node_inv0 f \<and> dom (heap f) = {0} \<and> get_node f FUSE_ROOT_ID = Some 0 \<and>
         (\<forall>i nm. lookup_node f i nm = None) \<and> conf f = cfg"
proof -
  let ?root = "new_node\<lparr>node_name := Some ''/'', parent := None, nodeid := FUSE_ROOT_ID,
               node_generation := 0, refctr := 1, nlookup := 1\<rparr>"
  obtain m where f: "f = \<lparr>heap = [0 \<mapsto> ?root], brk = 1, name_table = (\<lambda>_. []), name_table_size = 14057,
       id_table = (\<lambda>_. [])(1 := [0]), id_table_size = 14057, ctr = 0, generation = 0, hidectr = hctr,
       conf = cfg, nullpath_ok = nullp, curr_ticket = 0, lockq = [], signals = [], fuse_mem = m\<rparr>"
    using assms
    by (auto simp: init_nodes_def malloc_ok_def Let_def hash_id_def id_hash_def
        split: prod.splits if_splits)
  have pl: "place f = [0 \<mapsto> (1, None, Some ''/'')]"
    by (auto simp: place_def f new_node_def fun_eq_iff)
  have no: "children (place f) a = {}" "\<not> edge (place f) a p nm" "parent_rel (place f) = {}" for a p nm
    by (auto simp: pl children_def edge_def parent_rel_def split: if_splits)
  have nt: "name_table f h = []" for h by (simp add: f)
  have "tree_ok (place f) (brk f)"
    unfolding tree_ok_def no unfolding pl by (simp add: f acyclic_def)
  moreover have "id_ok (place f) (id_hash f) (id_table f)"
    by (auto simp: id_ok_def pl id_hash_def f)
  moreover have "name_ok (place f) (name_hash f) (name_table f)"
    using no(2) nt by (simp add: name_ok_def)
  moreover have "ref_inv (\<lambda>_. 0) f"
    unfolding ref_inv_def no by (simp add: f ref_ok_def new_node_def)
  ultimately show ?thesis
    by (auto simp: node_inv_def f get_node_def get_node_nocheck_def id_hash_def lookup_node_def
        new_node_def split: if_splits)
qed

text \<open>
  The cache \<open>fuse_new\<close> sets up satisfies the invariant; it holds the root and nothing else.
\<close>

lemma init_nodes_inv:
  assumes "init_nodes cfg nullp intr_ok hctr mem = Some f"
  shows "node_inv0 f \<and> dom (heap f) = {0} \<and> get_node f FUSE_ROOT_ID = Some 0 \<and>
         (\<forall>i nm. lookup_node f i nm = None) \<and> conf f = cfg"
  by (rule init_nodes_facts [OF assms])

definition demo_conf :: fuse_config where
  "demo_conf = \<lparr>conf_uid = 0, conf_gid = 0, conf_umask = 0, entry_timeout = 1, negative_timeout = 0,
     attr_timeout = 1, ac_attr_timeout = 1, noforget = False, hard_remove = False, use_ino = False,
     readdir_ino = False, set_mode = False, set_uid = False, set_gid = False, conf_direct_io = False,
     kernel_cache = False, auto_cache = False, conf_intr = False\<rparr>"

definition demo_root :: node where
  "demo_root = new_node\<lparr>node_name := Some ''/'', parent := None, nodeid := FUSE_ROOT_ID,
     node_generation := 0, refctr := 1, nlookup := 1\<rparr>"

definition demo0 :: fuse where
  "demo0 = \<lparr>heap = [0 \<mapsto> demo_root], brk = 1, name_table = (\<lambda>_. []), name_table_size = 14057,
     id_table = (\<lambda>_. [])(1 := [0]), id_table_size = 14057, ctr = 0, generation = 0, hidectr = 0,
     conf = demo_conf, nullpath_ok = True, curr_ticket = 0, lockq = [], signals = [], fuse_mem = []\<rparr>"

lemma demo0: "init_nodes demo_conf True True 0 [] = Some demo0"
  by (simp add: init_nodes_def malloc_ok_def Let_def hash_id_def id_hash_def demo0_def
      demo_conf_def demo_root_def)

lemma init_nodes_inv_witness:
  "init_nodes demo_conf True True 0 [] = Some demo0 \<and> node_inv0 demo0 \<and> get_node demo0 1 = Some 0"
  using init_nodes_inv [OF demo0] demo0 by simp

lemmas demo0_facts = init_nodes_facts [OF demo0]

lemma demo0_root: "heap demo0 0 = Some demo_root" "nodeid demo_root = 1"
  "card (dom (heap demo0)) < 2 ^ 32 - 2" "fuse_mem demo0 = []"
  by (simp_all add: demo0_def demo_root_def)

theorem next_id_returns_fresh_witness:
  "node_inv0 demo0 \<and> card (dom (heap demo0)) < 2 ^ 32 - 2 \<and>
   (\<exists>i f'. next_id demo0 = Some (i, f') \<and> i \<noteq> 0 \<and> get_node_nocheck demo0 i = None)"
  using next_id_returns_fresh [of "\<lambda>_. 0" demo0] demo0_facts demo0_root by blast

text \<open>A name that is there, and one that is not.\<close>

lemma find_node_again:
  assumes inv: "node_inv0 f" and a: "lookup_node f i nm = Some a" and wrap: "\<And>n. heap f a = Some n \<Longrightarrow> nlookup n \<noteq> - 1"
  shows "\<exists>f' n. find_node f i (Some nm) = Some (Some a, f') \<and> node_inv0 f' \<and> heap f a = Some n \<and>
    heap f' a = Some (n\<lparr>nlookup := nlookup n + 1\<rparr>) \<and> (\<forall>i m. lookup_node f' i m = lookup_node f i m)"
proof -
  obtain n where n: "heap f a = Some n" and nm: "node_name n = Some nm"
    by (rule lookup_node_heap [OF inv a])
  let ?f = "upd_node a (nlookup_update (\<lambda>k. k + 1)) f"
  have nz: "nlookup n \<noteq> 0"
    using ref_invD [OF inv n] nm by (auto simp: ref_ok_def)
  have inv': "node_inv0 ?f"
    by (rule nlookup_bump_inv [OF inv n wrap [OF n]]) (use nz in auto)
  have "find_node f i (Some nm) = Some (Some a, ?f)"
    using a by (simp add: find_node_def)
  moreover have "lookup_node ?f i m = lookup_node f i m" for i m
    by (rule lookup_node_cong [OF inv inv']) simp
  ultimately show ?thesis using inv' n by auto
qed

lemma find_node_first:
  assumes inv: "node_inv0 f" and p: "heap f p = Some pn" and ids: "card (dom (heap f)) < 2 ^ 32 - 2"
    and none: "lookup_node f (nodeid pn) nm = None"
  shows "\<exists>r f'. find_node f (nodeid pn) (Some nm) = Some (r, f') \<and> node_inv0 f' \<and>
    (case r of
       None \<Rightarrow> heap f' = heap f \<and> fuse_mem f \<noteq> []
     | Some a \<Rightarrow>
         (\<forall>i m. lookup_node f' i m = (if i = nodeid pn \<and> m = nm then Some a else lookup_node f i m)) \<and> heap f a = None \<and>
         (\<exists>n. heap f' a = Some n \<and> nlookup n = (if noforget (conf f) then 2 else 1) \<and> get_node_nocheck f (nodeid n) = None))"
proof (rule find_node_new [OF inv ids p none])
  fix a n f' assume r: "find_node f (nodeid pn) (Some nm) = Some (Some a, f')" "node_inv0 f'"
    "heap f a = None" "heap f' a = Some n" "nlookup n = (if noforget (conf f) then 2 else 1)"
    "get_node_nocheck f (nodeid n) = None"
    and c: "\<And>i nm' c. is_child (place f') i nm' c \<longleftrightarrow>
      is_child (place f) i nm' c \<or> (i = nodeid pn \<and> nm' = nm \<and> c = a)"
  have "lookup_node f' (nodeid pn) nm = Some a" using lookup_node_iff [OF r(2)] c by blast
  moreover have "lookup_node f' i m = lookup_node f i m" if "\<not> (i = nodeid pn \<and> m = nm)" for i m
    by (rule lookup_node_cong [OF inv r(2)]) (use c that in auto)
  ultimately show ?thesis using r by (intro exI [of _ "Some a"] exI [of _ f']) auto
qed auto

text \<open>
  C7: \<open>find_node\<close> under a live directory returns with the invariant intact. Unless memory runs
  out, the name is then bound to the node returned, every other name is bound as before, and the
  node has one more lookup (two for a new node when nodes are never to be forgotten).
\<close>

theorem find_node_correct:
  assumes inv: "node_inv0 f" and p: "heap f p = Some pn" and ids: "card (dom (heap f)) < 2 ^ 32 - 2"
    and wrap: "\<And>a n. lookup_node f (nodeid pn) nm = Some a \<Longrightarrow> heap f a = Some n \<Longrightarrow> nlookup n \<noteq> - 1"
  shows "\<exists>r f'. find_node f (nodeid pn) (Some nm) = Some (r, f') \<and> node_inv0 f' \<and>
    (case r of
       None \<Rightarrow> lookup_node f (nodeid pn) nm = None \<and> heap f' = heap f \<and> fuse_mem f \<noteq> []
     | Some a \<Rightarrow>
         (\<forall>i m. lookup_node f' i m = (if i = nodeid pn \<and> m = nm then Some a else lookup_node f i m)) \<and>
         (\<exists>n. heap f' a = Some n \<and>
            (case heap f a of Some n0 \<Rightarrow> n = n0\<lparr>nlookup := nlookup n0 + 1\<rparr>
             | None \<Rightarrow> nlookup n = (if noforget (conf f) then 2 else 1) \<and> get_node_nocheck f (nodeid n) = None)))"
proof (cases "lookup_node f (nodeid pn) nm")
  case (Some a)
  then show ?thesis using find_node_again [OF inv Some wrap [OF Some]] by auto
next
  case None
  obtain r f' where r: "find_node f (nodeid pn) (Some nm) = Some (r, f')" "node_inv0 f'"
    "case r of
       None \<Rightarrow> heap f' = heap f \<and> fuse_mem f \<noteq> []
     | Some a \<Rightarrow>
         (\<forall>i m. lookup_node f' i m = (if i = nodeid pn \<and> m = nm then Some a else lookup_node f i m)) \<and> heap f a = None \<and>
         (\<exists>n. heap f' a = Some n \<and> nlookup n = (if noforget (conf f) then 2 else 1) \<and> get_node_nocheck f (nodeid n) = None)"
    using find_node_first [OF inv p ids None] by blast
  then show ?thesis using None by (intro exI [of _ r] exI [of _ f']) (auto split: option.split)
qed

theorem find_node_correct_witness:
  "node_inv0 demo0 \<and> (\<exists>a f'. find_node demo0 1 (Some ''a'') = Some (Some a, f') \<and> node_inv0 f' \<and>
     lookup_node f' 1 ''a'' = Some a \<and> lookup_node f' 1 ''b'' = None)"
proof -
  have "node_inv0 demo0" "\<And>i nm. lookup_node demo0 i nm = None" using demo0_facts by blast+
  then show ?thesis
    using find_node_correct [of demo0 0 demo_root "''a''"] demo0_root by (auto split: option.splits)
qed

definition demo_node :: node where
  "demo_node = new_node\<lparr>nodeid := 2, refctr := 1, nlookup := 1, node_name := Some ''a'', parent := Some 0\<rparr>"

definition demo1 :: fuse where
  "demo1 = demo0\<lparr>heap := [0 \<mapsto> demo_root\<lparr>refctr := 2\<rparr>, 1 \<mapsto> demo_node], brk := 2,
     name_table := (\<lambda>_. [])(98 := [1]), id_table := (\<lambda>_. [])(1 := [0], 2 := [1]), ctr := 2\<rparr>"

lemma demo_next_id: "next_id (demo0\<lparr>brk := 2\<rparr>) = Some (2, demo0\<lparr>brk := 2, ctr := 2\<rparr>)"
proof -
  let ?f = "demo0\<lparr>brk := 2\<rparr>" and ?g = "demo0\<lparr>brk := 2, ctr := 1\<rparr>"
  have 1: "next_ctr ?f = ?g" and 2: "next_ctr ?g = demo0\<lparr>brk := 2, ctr := 2\<rparr>"
    by (simp_all add: next_ctr_def demo0_def Let_def)
  have "\<not> id_free ?f 1" "id_free ?g 2"
    by (simp_all add: id_free_def get_node_nocheck_def id_hash_def demo0_def demo_root_def)
  then show ?thesis using next_id_step [of ?f] next_id_step [of ?g] unfolding 1 2 by simp
qed

lemma demo_hash: "name_table_size f = 14057 \<Longrightarrow> name_hash f 1 ''a'' = 98"
  by (simp add: name_hash_def char_uint_def)

lemma demo_find: "find_node demo0 1 (Some ''a'') = Some (Some 1, demo1)"
proof -
  let ?f = "demo0\<lparr>brk := 2, ctr := 2, heap := (heap demo0)(1 := Some (new_node\<lparr>nlookup := 0, refctr := 1,
    nodeid := 2, node_generation := 0\<rparr>))\<rparr>"
  let ?g = "demo1\<lparr>heap := (heap demo1)(1 := Some (demo_node\<lparr>nlookup := 0\<rparr>)), id_table := id_table demo0\<rparr>"
  have m: "malloc_ok demo0 = (True, demo0)" by (simp add: malloc_ok_def demo0_def)
  have sel: "brk demo0 = 1" "\<not> noforget (conf demo0)" "generation demo0 = 0"
    by (simp_all add: demo0_def demo_conf_def)
  have "lookup_node demo0 1 ''a'' = None" using demo0_facts by blast
  moreover have "get_node ?f 1 = Some 0"
    by (simp add: get_node_def get_node_nocheck_def id_hash_def demo0_def demo_root_def)
  then have "hash_name ?f 1 1 ''a'' = Some (0, ?g)"
    by (simp add: hash_name_def malloc_ok_def Let_def upd_node_def demo1_def demo0_def demo_node_def
        demo_root_def new_node_def demo_hash fun_eq_iff)
  moreover have "hash_id ?g 1 = Some (?g\<lparr>id_table := id_table demo1\<rparr>)"
    by (simp add: hash_id_def id_hash_def Let_def demo1_def demo0_def demo_node_def)
  moreover have "upd_node 1 (nlookup_update (\<lambda>k. k + 1)) (?g\<lparr>id_table := id_table demo1\<rparr>) = demo1"
    by (simp add: upd_node_def demo1_def demo0_def demo_node_def new_node_def)
  ultimately show ?thesis
    using demo_next_id m sel by (simp add: find_node_def Let_def numeral_2_eq_2 cong: if_cong)
qed

text \<open>A forget that leaves lookups, and one that takes the last.\<close>

lemma forget_node_partial:
  assumes inv: "node_inv0 f" and n: "heap f a = Some n" "nodeid n \<noteq> FUSE_ROOT_ID" and k: "k \<le> nlookup n" "k \<noteq> nlookup n"
  shows "\<exists>f'. forget_node f (nodeid n) k = Some f' \<and> node_inv0 f' \<and>
    heap f' a = Some (n\<lparr>nlookup := nlookup n - k\<rparr>) \<and> (\<forall>i m. lookup_node f' i m = lookup_node f i m)"
proof -
  let ?f = "upd_node a (nlookup_update (\<lambda>m. m - k)) f"
  have g: "get_node f (nodeid n) = Some a" using get_node_nocheck_iff [OF inv] n by (auto simp: get_node_def)
  have inv': "node_inv0 ?f"
    by (rule upd_node_inv [OF inv n(1)]) (use ref_invD [OF inv n(1)] k in \<open>auto simp: ref_ok_def\<close>)
  have "lookup_node ?f i m = lookup_node f i m" for i m
    by (rule lookup_node_cong [OF inv inv']) simp
  then show ?thesis using inv' g n k by (simp add: forget_node_def)
qed

lemma forget_node_last:
  assumes inv: "node_inv0 f" and n: "heap f a = Some n" "nodeid n \<noteq> FUSE_ROOT_ID"
    and k: "nlookup n \<noteq> 0" "treelock n = 0"
  shows "\<exists>f'. forget_node f (nodeid n) (nlookup n) = Some f' \<and> node_inv0 f' \<and>
    (\<forall>i m. lookup_node f' i m = (if lookup_node f i m = Some a then None else lookup_node f i m))"
proof -
  have g: "get_node f (nodeid n) = Some a" using get_node_nocheck_iff [OF inv] n by (auto simp: get_node_def)
  let ?f = "upd_node a (nlookup_update (\<lambda>m. m - nlookup n)) f"
  let ?D = "(\<lambda>_. 0 :: nat)(a := 1)" and ?n = "n\<lparr>nlookup := 0\<rparr>"
  have inv1: "node_inv ?D ?f"
    by (rule upd_node_inv [OF inv n(1)])
      (use ref_invD [OF inv n(1)] k n in \<open>auto simp: ref_ok_def split: if_splits\<close>)
  have n1: "heap ?f a = Some ?n" using n by simp
  have nr: "nodeid ?n \<noteq> FUSE_ROOT_ID" using n(2) by simp
  have Dp: "?D p = 0" if "parent ?n = Some p" for p
    using parent_neq [OF node_invD(1) [OF inv], of a "nodeid n" p "node_name n"] that n by simp
  obtain f2 h t nt where un: "unhash_name ?f a = Some f2"
    "f2 = ?f\<lparr>heap := h, id_table := t, name_table := nt\<rparr>" "node_inv ?D f2" "h a = Some (unnamed ?n)"
    "\<And>i nm c. is_child (place f2) i nm c \<longleftrightarrow> is_child (place ?f) i nm c \<and> c \<noteq> a"
    by (rule unhash_name_inv [OF inv1 n1 nr Dp]) (assumption | rule that)+
  have h2: "heap f2 a = Some (unnamed ?n)" using un(2,4) by simp
  obtain f' h' t' where f': "unref_node f2 a = Some f'" "node_inv (?D(a := ?D a - 1)) f'"
    "place f' = place f2 \<or> place f' = (place f2)(a := None) \<and> children (place f2) a = {} \<and>
      (\<forall>q nm. \<not> edge (place f2) a q nm)"
    by (rule unref_node_inv [OF un(3) h2]) simp_all
  have D: "?D(a := ?D a - 1) = (\<lambda>_. 0)" by auto
  note inv' = f'(2) [unfolded D]
  have "is_child (place f') i nm c \<longleftrightarrow> is_child (place f2) i nm c" for i nm c
    using f'(3) is_child_delete by metis
  then have c: "is_child (place f') i nm c \<longleftrightarrow> is_child (place f) i nm c \<and> c \<noteq> a" for i nm c
    using un(5) by simp
  have "forget_node f (nodeid n) (nlookup n) = Some f'"
    using g n k un(1) f'(1) by (simp add: forget_node_def Let_def)
  then show ?thesis using inv' lookup_node_without [OF inv inv' c] by blast
qed

text \<open>
  C8: \<open>forget_node\<close> for a count the node has never aborts and never waits when the node is not
  locked. A partial forget lowers the count and keeps every name; when the count reaches zero the
  node's name goes and every other name stays. The invariant holds after it.
\<close>

theorem forget_node_correct:
  assumes inv: "node_inv0 f" and n: "heap f a = Some n" "nodeid n \<noteq> FUSE_ROOT_ID"
    and k: "k \<le> nlookup n" "nlookup n \<noteq> 0" "treelock n = 0"
  shows "\<exists>f'. forget_node f (nodeid n) k = Some f' \<and> node_inv0 f' \<and>
    (if k = nlookup n
     then \<forall>i m. lookup_node f' i m = (if lookup_node f i m = Some a then None else lookup_node f i m)
     else heap f' a = Some (n\<lparr>nlookup := nlookup n - k\<rparr>) \<and> (\<forall>i m. lookup_node f' i m = lookup_node f i m))"
  using forget_node_partial [OF inv n k(1)] forget_node_last [OF inv n k(2,3)] by (cases "k = nlookup n") auto

text \<open>Unlinking a name: under \<open>noforget\<close> the library's own lookup goes with it.\<close>

abbreviation (input) unlinked :: "fuse \<Rightarrow> node \<Rightarrow> node" where
  "unlinked f n \<equiv> unnamed (n\<lparr>nlookup := (if noforget (conf f) then nlookup n - 1 else nlookup n)\<rparr>)"

lemma word_gr_1: "1 < (k :: u64) \<Longrightarrow> k - 1 \<noteq> 0"
  by auto

lemma unlink_node_inv:
  assumes inv: "node_inv0 f" and n: "heap f a = Some n" "nodeid n \<noteq> FUSE_ROOT_ID"
    and nf: "noforget (conf f) \<Longrightarrow> 1 < nlookup n"
  obtains f' h t nt where "unlink_node f a = Some f'" "f' = f\<lparr>heap := h, id_table := t, name_table := nt\<rparr>"
    "node_inv0 f'" "h a = Some (unlinked f n)"
    "\<And>i nm c. is_child (place f') i nm c \<longleftrightarrow> is_child (place f) i nm c \<and> c \<noteq> a"
    "parent_rel (place f') \<subseteq> parent_rel (place f)"
    "\<And>b m. heap f b = Some m \<Longrightarrow> nlookup m \<noteq> 0 \<Longrightarrow> b \<noteq> a \<Longrightarrow> \<exists>r. h b = Some (m\<lparr>refctr := r\<rparr>)"
proof (cases "noforget (conf f)")
  case False
  have "n\<lparr>nlookup := nlookup n\<rparr> = n" by simp
  with False show ?thesis
    by (intro unhash_name_inv [OF inv n refl that]) (assumption | simp add: unlink_node_def)+
next
  case True
  let ?f = "upd_node a (nlookup_update (\<lambda>m. m - 1)) f" and ?n = "n\<lparr>nlookup := nlookup n - 1\<rparr>"
  have nz: "nlookup n \<noteq> 0" "nlookup n - 1 \<noteq> 0" using nf [OF True] by auto
  have inv1: "node_inv0 ?f"
    by (rule upd_node_inv [OF inv n(1)]) (use ref_invD [OF inv n(1)] nz in \<open>auto simp: ref_ok_def\<close>)
  have n1: "heap ?f a = Some ?n" "nodeid ?n \<noteq> FUSE_ROOT_ID" using n by simp_all
  obtain f' h t nt where r: "unhash_name ?f a = Some f'"
    "f' = ?f\<lparr>heap := h, id_table := t, name_table := nt\<rparr>" "node_inv0 f'" "h a = Some (unnamed ?n)"
    "\<And>i nm c. is_child (place f') i nm c \<longleftrightarrow> is_child (place ?f) i nm c \<and> c \<noteq> a"
    "parent_rel (place f') \<subseteq> parent_rel (place ?f)"
    "\<And>b m. heap ?f b = Some m \<Longrightarrow> nlookup m \<noteq> 0 \<Longrightarrow> b \<noteq> a \<Longrightarrow> \<exists>r. h b = Some (m\<lparr>refctr := r\<rparr>)"
    by (rule unhash_name_inv [OF inv1 n1 refl]) (rule that; assumption)
  show ?thesis
  proof (rule that [of f' nt t h])
    show "unlink_node f a = Some f'" using True n nf r(1) by (simp add: unlink_node_def)
    show "f' = f\<lparr>heap := h, id_table := t, name_table := nt\<rparr>" unfolding r(2) by (simp add: upd_node_def)
    show "h a = Some (unlinked f n)" using r(4) True by simp
    show "is_child (place f') i nm c \<longleftrightarrow> is_child (place f) i nm c \<and> c \<noteq> a" for i nm c using r(5) by simp
    show "parent_rel (place f') \<subseteq> parent_rel (place f)" using r(6) by simp
    show "\<exists>r. h b = Some (m\<lparr>refctr := r\<rparr>)" if "heap f b = Some m" "nlookup m \<noteq> 0" "b \<noteq> a" for b m
      using r(7) [of b m] that by simp
  qed (rule r(3))
qed

text \<open>
  \<open>remove_node\<close> takes the name away and no other; the invariant holds after it. (Under
  \<open>noforget\<close> a linked node carries a lookup of the library's own, so its count is above one
  while the kernel still has it.)
\<close>

lemma remove_node_correct:
  assumes inv: "node_inv0 f"
    and nf: "\<And>a n. lookup_node f dir nm = Some a \<Longrightarrow> heap f a = Some n \<Longrightarrow> noforget (conf f) \<Longrightarrow> 1 < nlookup n"
  shows "\<exists>f'. remove_node f dir nm = Some f' \<and> node_inv0 f' \<and>
    (\<forall>i m. lookup_node f' i m = (if i = dir \<and> m = nm then None else lookup_node f i m))"
proof (cases "lookup_node f dir nm")
  case None
  then show ?thesis using inv by (auto simp: remove_node_def)
next
  case (Some a)
  obtain n p where n: "heap f a = Some n" "nodeid n \<noteq> FUSE_ROOT_ID"
    by (rule lookup_node_heap [OF inv Some])
  obtain f' where f': "unlink_node f a = Some f'" "node_inv0 f'"
    "\<And>i nm c. is_child (place f') i nm c \<longleftrightarrow> is_child (place f) i nm c \<and> c \<noteq> a"
    by (rule unlink_node_inv [OF inv n nf [OF Some n(1)]]) (assumption | rule that)+
  have "is_child (place f) i m a \<longleftrightarrow> i = dir \<and> m = nm" for i m
    using Some lookup_node_iff [OF inv] child_name_unique [OF inv] by metis
  then have "lookup_node f i m = Some a \<longleftrightarrow> i = dir \<and> m = nm" for i m
    using lookup_node_iff [OF inv] by metis
  then show ?thesis
    using f'(1,2) lookup_node_without [OF inv f'(2,3)]
    by (intro exI [of _ f']) (simp add: remove_node_def Some)
qed

lemma inside_mono: "parent_rel (place f') \<subseteq> parent_rel (place f) \<Longrightarrow> inside f' p a \<Longrightarrow> inside f p a"
  unfolding inside_def using rtrancl_mono by blast

text \<open>The first half of a rename: the target's name goes, then the source's.\<close>

lemma rename_detach:
  assumes inv: "node_inv0 f" and src: "heap f a = Some n" "nodeid n \<noteq> FUSE_ROOT_ID" "nlookup n \<noteq> 0"
    and q: "heap f q = Some qn" "nlookup qn \<noteq> 0" "q \<noteq> a"
    and b: "\<And>b. newnode = Some b \<Longrightarrow> b \<noteq> a \<and> b \<noteq> q \<and>
      (\<exists>m. heap f b = Some m \<and> nodeid m \<noteq> FUSE_ROOT_ID \<and> (noforget (conf f) \<longrightarrow> 1 < nlookup m))"
  obtains f1 f2 n2 r where
    "(case newnode of None \<Rightarrow> Some f | Some b \<Rightarrow> unlink_node f b) = Some f1"
    "unhash_name f1 a = Some f2" "node_inv0 f2" "heap f2 a = Some n2" "nodeid n2 = nodeid n"
    "node_name n2 = None" "nlookup n2 = nlookup n" "heap f2 q = Some (qn\<lparr>refctr := r\<rparr>)"
    "parent_rel (place f2) \<subseteq> parent_rel (place f)"
    "\<And>i nm c. is_child (place f2) i nm c \<longleftrightarrow> is_child (place f) i nm c \<and> newnode \<noteq> Some c \<and> c \<noteq> a"
proof -
  obtain f1 r1 r2 where f1: "(case newnode of None \<Rightarrow> Some f | Some b \<Rightarrow> unlink_node f b) = Some f1"
    "node_inv0 f1" "heap f1 a = Some (n\<lparr>refctr := r1\<rparr>)" "heap f1 q = Some (qn\<lparr>refctr := r2\<rparr>)"
    "parent_rel (place f1) \<subseteq> parent_rel (place f)"
    "\<And>i nm c. is_child (place f1) i nm c \<longleftrightarrow> is_child (place f) i nm c \<and> newnode \<noteq> Some c"
  proof (cases newnode)
    case None
    then show ?thesis using inv src q by (intro that [of f "refctr n" "refctr qn"]) simp_all
  next
    case (Some b)
    then obtain m where m: "heap f b = Some m" "nodeid m \<noteq> FUSE_ROOT_ID"
      and nf: "noforget (conf f) \<Longrightarrow> 1 < nlookup m" and ne: "a \<noteq> b" "q \<noteq> b"
      using b [of b] by auto
    obtain f1 h t nt where r: "unlink_node f b = Some f1" "f1 = f\<lparr>heap := h, id_table := t, name_table := nt\<rparr>"
      "node_inv0 f1"
      "\<And>i nm c. is_child (place f1) i nm c \<longleftrightarrow> is_child (place f) i nm c \<and> c \<noteq> b"
      "parent_rel (place f1) \<subseteq> parent_rel (place f)"
      "\<And>c m. heap f c = Some m \<Longrightarrow> nlookup m \<noteq> 0 \<Longrightarrow> c \<noteq> b \<Longrightarrow> \<exists>r. h c = Some (m\<lparr>refctr := r\<rparr>)"
      by (rule unlink_node_inv [OF inv m nf]) (assumption | rule that)+
    obtain r1 r2 where "h a = Some (n\<lparr>refctr := r1\<rparr>)" "h q = Some (qn\<lparr>refctr := r2\<rparr>)"
      using r(6) src q ne by blast
    then show ?thesis using r Some by (intro that [of f1 r1 r2]) auto
  qed
  let ?n = "n\<lparr>refctr := r1\<rparr>"
  have nr: "nodeid ?n \<noteq> FUSE_ROOT_ID" using src(2) by simp
  obtain f2 h t nt where r: "unhash_name f1 a = Some f2"
    "f2 = f1\<lparr>heap := h, id_table := t, name_table := nt\<rparr>" "node_inv0 f2" "h a = Some (unnamed ?n)"
    "\<And>i nm c. is_child (place f2) i nm c \<longleftrightarrow> is_child (place f1) i nm c \<and> c \<noteq> a"
    "parent_rel (place f2) \<subseteq> parent_rel (place f1)"
    "\<And>c m. heap f1 c = Some m \<Longrightarrow> nlookup m \<noteq> 0 \<Longrightarrow> c \<noteq> a \<Longrightarrow> \<exists>r. h c = Some (m\<lparr>refctr := r\<rparr>)"
    by (rule unhash_name_inv [OF f1(2,3) nr refl]) (assumption | rule that)+
  obtain r3 where "h q = Some (qn\<lparr>refctr := r3\<rparr>)" using r(7) [OF f1(4)] q by auto
  then show ?thesis
    using f1(1,5,6) r by (intro that [of f1 f2 "unnamed ?n" r3]) auto
qed

lemma lookup_node_rebound:
  assumes "node_inv D f" "node_inv D' f'"
    "\<And>i nm c. is_child (place f') i nm c \<longleftrightarrow>
       is_child (place f) i nm c \<and> c \<noteq> a \<and> \<not> (i = j \<and> nm = k) \<or> (here \<and> i = j \<and> nm = k \<and> c = a)"
  shows "lookup_node f' i nm =
    (if i = j \<and> nm = k then if here then Some a else None
     else if lookup_node f i nm = Some a then None else lookup_node f i nm)"
proof (cases "lookup_node f' i nm")
  case None
  then have "\<not> is_child (place f') i nm c" for c using lookup_node_None [OF assms(2)] by blast
  then show ?thesis using None assms(3) lookup_node_iff [OF assms(1)] by (metis option.exhaust)
next
  case (Some c)
  then have "is_child (place f') i nm c" using lookup_node_iff [OF assms(2)] by blast
  then show ?thesis using Some assms(3) lookup_node_iff [OF assms(1)] by (metis option.inject)
qed

text \<open>The node a rename replaces is neither the renamed one nor the directory it goes to.\<close>

lemma rename_target:
  assumes inv: "node_inv0 f" and q: "heap f q = Some qn" "nodeid qn = newdir" and new: "lookup_node f newdir newname = Some b"
  shows "b \<noteq> q \<and> (\<exists>m. heap f b = Some m \<and> nodeid m \<noteq> FUSE_ROOT_ID)"
proof -
  obtain m p where m: "heap f b = Some m" "nodeid m \<noteq> FUSE_ROOT_ID" by (rule lookup_node_heap [OF inv new])
  obtain p x where "place f p = Some (newdir, x)" "edge (place f) b p newname"
    using lookup_node_iff [OF inv] new unfolding is_child_def by blast
  moreover have "place f q = Some (newdir, parent qn, node_name qn)" using q by simp
  ultimately have "edge (place f) b q newname" using tree_okD(3) [OF node_invD(1) [OF inv]] by blast
  then have "b \<noteq> q" using parent_neq [OF node_invD(1) [OF inv]] unfolding edge_def by blast
  then show ?thesis using m by auto
qed

text \<open>A rename that is not refused.\<close>

lemma rename_node_moves:
  assumes inv: "node_inv0 f" and src: "lookup_node f olddir oldname = Some a"
    and q: "heap f q = Some qn" "nodeid qn = newdir" "nlookup qn \<noteq> 0" "\<not> inside f q a"
    and diff: "lookup_node f newdir newname \<noteq> Some a"
    and nf: "\<And>b m. lookup_node f newdir newname = Some b \<Longrightarrow> heap f b = Some m \<Longrightarrow>
      noforget (conf f) \<Longrightarrow> 1 < nlookup m"
    and go: "\<not> (lookup_node f newdir newname \<noteq> None \<and> hide)"
  shows "\<exists>res f'. rename_node f olddir oldname newdir newname hide = Some (res, f') \<and> node_inv0 f' \<and>
    (res = 0 \<or> res = - ENOMEM) \<and>
    (\<forall>i m. lookup_node f' i m =
       (if i = newdir \<and> m = newname then if res = 0 then Some a else None
        else if i = olddir \<and> m = oldname then None else lookup_node f i m))"
proof -
  let ?new = "lookup_node f newdir newname"
  obtain n p where n: "heap f a = Some n" "node_name n = Some oldname" "nodeid n \<noteq> FUSE_ROOT_ID"
    by (rule lookup_node_heap [OF inv src])
  have nz: "nlookup n \<noteq> 0" using ref_invD [OF inv n(1)] n(2) by (auto simp: ref_ok_def)
  have qa: "q \<noteq> a" using q(4) by (auto simp: inside_def)
  have b: "b \<noteq> a \<and> b \<noteq> q \<and> (\<exists>m. heap f b = Some m \<and> nodeid m \<noteq> FUSE_ROOT_ID \<and>
      (noforget (conf f) \<longrightarrow> 1 < nlookup m))" if new: "?new = Some b" for b
    using rename_target [OF inv q(1,2) new] diff new nf by auto
  obtain f1 f2 n2 r where d: "(case ?new of None \<Rightarrow> Some f | Some b \<Rightarrow> unlink_node f b) = Some f1"
    "unhash_name f1 a = Some f2" "node_inv0 f2" "heap f2 a = Some n2" "nodeid n2 = nodeid n"
    "node_name n2 = None" "nlookup n2 = nlookup n" "heap f2 q = Some (qn\<lparr>refctr := r\<rparr>)"
    "parent_rel (place f2) \<subseteq> parent_rel (place f)"
    and c: "\<And>i nm c. is_child (place f2) i nm c \<longleftrightarrow> is_child (place f) i nm c \<and> ?new \<noteq> Some c \<and> c \<noteq> a"
    by (rule rename_detach [OF inv n(1,3) nz q(1,3) qa b]) (assumption | rule that)+
  have new: "?new = Some c \<longleftrightarrow> is_child (place f) newdir newname c" for c by (rule lookup_node_iff [OF inv])
  have c': "is_child (place f2) i nm c \<longleftrightarrow>
      is_child (place f) i nm c \<and> c \<noteq> a \<and> \<not> (i = newdir \<and> nm = newname)" for i nm c
    unfolding c new using child_name_unique [OF inv] by blast
  have old: "lookup_node f i m = Some a \<longleftrightarrow> i = olddir \<and> m = oldname" for i m
    using src child_name_unique [OF inv] unfolding lookup_node_iff [OF inv] by metis
  have rn: "rename_node f olddir oldname newdir newname hide = do {
      (res, f) \<leftarrow> hash_name f2 a newdir newname;
      if res = - 1 then Some (- ENOMEM, f)
      else Some (0, if hide then upd_node a (is_hidden_update (\<lambda>_. True)) f else f)}"
    using go src d(1,2) by (auto simp: rename_node_def Let_def)
  have n2: "nodeid n2 \<noteq> FUSE_ROOT_ID" "nlookup n2 \<noteq> 0 \<or> 0 < (0::nat)" using d(5,7) n(3) nz by simp_all
  have q2: "nodeid (qn\<lparr>refctr := r\<rparr>) = newdir" "\<not> inside f2 q a"
    using q(2,4) inside_mono [OF d(9)] by auto
  have free: "\<not> is_child (place f2) newdir newname c" for c unfolding c' by simp
  show ?thesis
  proof (rule hash_name_inv [OF d(3,4) n2(1) d(6) n2(2) d(8) q2 free])
    fix m assume no: "hash_name f2 a newdir newname = Some (- 1, f2\<lparr>fuse_mem := m\<rparr>)" "fuse_mem f2 \<noteq> []"
    then have "rename_node f olddir oldname newdir newname hide = Some (- ENOMEM, f2\<lparr>fuse_mem := m\<rparr>)"
      unfolding rn by simp
    moreover have inv': "node_inv0 (f2\<lparr>fuse_mem := m\<rparr>)" using d(3) by simp
    moreover have "lookup_node (f2\<lparr>fuse_mem := m\<rparr>) i nm = (if i = newdir \<and> nm = newname then None
        else if lookup_node f i nm = Some a then None else lookup_node f i nm)" for i nm
      using lookup_node_rebound [OF inv inv', of a newdir newname False i nm] c' by simp
    ultimately show ?thesis unfolding old by auto
  next
    fix h nt m
    let ?f = "f2\<lparr>fuse_mem := m, heap := h, name_table := nt\<rparr>"
    let ?r = "if hide then upd_node a (is_hidden_update (\<lambda>_. True)) ?f else ?f"
    assume hn: "hash_name f2 a newdir newname = Some (0, ?f)" and inv2: "node_inv0 ?f"
      and ha: "h a = Some (named newname q n2)"
      and c2: "\<And>i nm' c. is_child (place ?f) i nm' c \<longleftrightarrow>
        is_child (place f2) i nm' c \<or> (i = newdir \<and> nm' = newname \<and> c = a)"
    have "heap ?f a = Some (named newname q n2)" using ha by simp
    from upd_node_inv [OF inv2 this, of "is_hidden_update (\<lambda>_. True)"] ref_invD [OF inv2 this]
    have inv': "node_inv0 ?r" using inv2 by (auto simp: ref_ok_def)
    have "place ?r = place ?f" by simp
    then have "lookup_node ?r i nm = (if i = newdir \<and> nm = newname then Some a
        else if lookup_node f i nm = Some a then None else lookup_node f i nm)" for i nm
      using lookup_node_rebound [OF inv inv', of a newdir newname True i nm] c' c2 by simp
    moreover have "rename_node f olddir oldname newdir newname hide = Some (0, ?r)" unfolding rn hn by simp
    ultimately show ?thesis using inv' unfolding old by auto
  qed
qed

text \<open>Only \<open>hash_name\<close> takes memory in a rename, and the result says whether it got it.\<close>

lemma unref_node_mem: "unref_node f a = Some f' \<Longrightarrow> fuse_mem f' = fuse_mem f"
  by (auto simp: unref_node_def delete_node_def unhash_id_def free_node_def upd_node_def Let_def bind_eq_Some_conv split: if_splits)

lemma unhash_name_mem: "unhash_name f a = Some f' \<Longrightarrow> fuse_mem f' = fuse_mem f"
  by (auto simp: unhash_name_def upd_node_def Let_def bind_eq_Some_conv dest!: unref_node_mem split: option.splits if_splits)

lemma unlink_node_mem: "unlink_node f a = Some f' \<Longrightarrow> fuse_mem f' = fuse_mem f"
  by (auto simp: unlink_node_def upd_node_def bind_eq_Some_conv dest!: unhash_name_mem split: if_splits)

lemma hash_name_result: "hash_name f a j nm = Some (r, f') \<Longrightarrow> r = (if fst (alloc (fuse_mem f)) then 0 else - 1)"
  by (auto simp: hash_name_def malloc_ok_def Let_def bind_eq_Some_conv split: prod.splits if_splits)

lemma rename_node_result:
  assumes "rename_node f olddir oldname newdir newname hide = Some (res, f')" "lookup_node f olddir oldname = Some a"
    "\<not> (lookup_node f newdir newname \<noteq> None \<and> hide)"
  shows "res = (if fst (alloc (fuse_mem f)) then 0 else - ENOMEM)"
    "res = 0 \<and> hide \<longrightarrow> (\<forall>n. heap f' a = Some n \<longrightarrow> is_hidden n)"
proof -
  obtain f1 f2 r f3 where s: "(case lookup_node f newdir newname of None \<Rightarrow> Some f | Some b \<Rightarrow> unlink_node f b) = Some f1"
    "unhash_name f1 a = Some f2" "hash_name f2 a newdir newname = Some (r, f3)"
    "(if r = - 1 then Some (- ENOMEM, f3) else Some (0, if hide then upd_node a (is_hidden_update (\<lambda>_. True)) f3 else f3)) = Some (res, f')"
    using assms by (auto simp: rename_node_def Let_def bind_eq_Some_conv)
  have "fuse_mem f2 = fuse_mem f"
    using s(1) unhash_name_mem [OF s(2)] by (auto dest: unlink_node_mem split: option.splits)
  then show "res = (if fst (alloc (fuse_mem f)) then 0 else - ENOMEM)" using hash_name_result [OF s(3)] s(4) by (auto split: if_splits)
  show "res = 0 \<and> hide \<longrightarrow> (\<forall>n. heap f' a = Some n \<longrightarrow> is_hidden n)"
    using s(4) by (auto simp: upd_node_def split: if_splits)
qed

text \<open>
  C9: \<open>rename_node\<close> of a name to a place outside the renamed subtree returns with the invariant
  intact. It succeeds exactly when there is memory for the new name. Then the node is found under the new name, no longer under the old one, and every
  other name is bound as before, and with \<open>hide\<close> the node is marked as hidden; without memory the result is \<open>ENOMEM\<close>, both names are gone and every other name is bound as before.
  With \<open>hide\<close> an existing target is left alone and the result is \<open>EBUSY\<close>.
\<close>

theorem rename_node_correct:
  assumes inv: "node_inv0 f" and src: "lookup_node f olddir oldname = Some a"
    and q: "heap f q = Some qn" "nodeid qn = newdir" "nlookup qn \<noteq> 0" "\<not> inside f q a"
    and diff: "lookup_node f newdir newname \<noteq> Some a"
    and nf: "\<And>b m. lookup_node f newdir newname = Some b \<Longrightarrow> heap f b = Some m \<Longrightarrow>
      noforget (conf f) \<Longrightarrow> 1 < nlookup m"
  shows "\<exists>res f'. rename_node f olddir oldname newdir newname hide = Some (res, f') \<and> node_inv0 f' \<and>
    (if lookup_node f newdir newname \<noteq> None \<and> hide then res = - EBUSY \<and> f' = f
     else res = (if fst (alloc (fuse_mem f)) then 0 else - ENOMEM) \<and>
       (res = 0 \<and> hide \<longrightarrow> (\<forall>n. heap f' a = Some n \<longrightarrow> is_hidden n)) \<and>
       (\<forall>i m. lookup_node f' i m =
          (if i = newdir \<and> m = newname then if res = 0 then Some a else None
           else if i = olddir \<and> m = oldname then None else lookup_node f i m)))"
proof (cases "lookup_node f newdir newname \<noteq> None \<and> hide")
  case True
  then show ?thesis using inv src by (auto simp: rename_node_def)
next
  case False
  obtain res f' where r: "rename_node f olddir oldname newdir newname hide = Some (res, f')" "node_inv0 f'"
    "\<forall>i m. lookup_node f' i m = (if i = newdir \<and> m = newname then if res = 0 then Some a else None
      else if i = olddir \<and> m = oldname then None else lookup_node f i m)"
    by (rule exE [OF rename_node_moves [OF inv src q diff _ False]], erule (2) nf) (elim exE conjE, erule (2) that)
  show ?thesis unfolding if_not_P [OF False] using r rename_node_result [OF r(1) src False] by blast
qed

text \<open>The node cache after one lookup, on which the operations are tried.\<close>

lemma demo1_inv: "node_inv0 demo1"
proof -
  have f: "node_inv0 demo0" "lookup_node demo0 (nodeid demo_root) ''a'' = None" using demo0_facts by blast+
  show ?thesis
    by (rule find_node_new [OF f(1) demo0_root(3,1) f(2)]) (use demo_find demo0_root in auto)
qed

lemma demo1_heap:
  "heap demo1 0 = Some (demo_root\<lparr>refctr := 2\<rparr>)" "heap demo1 1 = Some demo_node"
  "nlookup demo_node = 1" "treelock demo_node = 0" "nodeid demo_node = 2"
  "nlookup (demo_root\<lparr>refctr := 2\<rparr>) = 1" "\<not> noforget (conf demo1)"
  by (simp_all add: demo1_def demo_node_def demo_root_def new_node_def demo0_def demo_conf_def)

lemma demo1_lookup: "lookup_node demo1 i nm = (if i = 1 \<and> nm = ''a'' then Some 1 else None)"
proof -
  have pl: "place demo1 = [0 \<mapsto> (1, None, Some ''/''), 1 \<mapsto> (2, Some 0, Some ''a'')]"
    by (auto simp: place_def demo1_def demo_node_def demo_root_def new_node_def fun_eq_iff)
  have "is_child (place demo1) i nm c \<longleftrightarrow> i = 1 \<and> nm = ''a'' \<and> c = 1" for i nm c
    unfolding pl by (auto simp: is_child_def edge_def split: if_splits)
  then show ?thesis
    using lookup_node_iff [OF demo1_inv] lookup_node_None [OF demo1_inv] by auto
qed

lemma demo1_outside: "\<not> inside demo1 0 1"
proof -
  have "(0, x) \<notin> parent_rel (place demo1)" for x
    using demo1_heap(1) by (auto simp: parent_rel_def demo_root_def)
  then show ?thesis unfolding inside_def by (metis converse_rtranclE zero_neq_one)
qed

theorem forget_node_correct_witness:
  "node_inv0 demo1 \<and> (\<exists>f'. forget_node demo1 2 1 = Some f' \<and> node_inv0 f' \<and> lookup_node f' 1 ''a'' = None)"
  using forget_node_correct [OF demo1_inv demo1_heap(2), of 1] demo1_heap demo1_lookup demo1_inv by auto

lemma remove_node_correct_witness:
  "node_inv0 demo1 \<and> (\<exists>f'. remove_node demo1 1 ''a'' = Some f' \<and> node_inv0 f' \<and> lookup_node f' 1 ''a'' = None)"
  using remove_node_correct [OF demo1_inv, of 1 "''a''"] demo1_heap(7) demo1_inv by auto

theorem rename_node_correct_witness:
  "node_inv0 demo1 \<and> (\<exists>f'. rename_node demo1 1 ''a'' 1 ''b'' False = Some (0, f') \<and> node_inv0 f' \<and>
     lookup_node f' 1 ''a'' = None \<and> lookup_node f' 1 ''b'' = Some 1)"
proof -
  have "nodeid (demo_root\<lparr>refctr := 2\<rparr>) = 1" "fst (alloc (fuse_mem demo1))" by (simp_all add: demo_root_def demo1_def demo0_def)
  then show ?thesis
    using rename_node_correct [OF demo1_inv _ demo1_heap(1) _ _ demo1_outside, of 1 "''a''" 1 "''b''" False]
      demo1_heap(6,7) demo1_lookup demo1_inv by auto
qed

subsection \<open>The states of the cache\<close>

text \<open>
  The states the library's requests take the cache through. A name is looked up under a live directory while identifiers and lookup counts are left; the kernel
  forgets lookups it has, of nodes other than the root that no request has locked; a name is removed or renamed, not into itself, and under \<open>noforget\<close> while the kernel
  still has the node whose name goes away. Memory may run short at any time. A lookup without a name counts one more lookup of the directory itself, which the kernel has. The
  reference that a lookup of the directory itself holds while it runs, and gives back, is not among these states.
\<close>

inductive node_reach :: "fuse \<Rightarrow> bool" where
  start: "init_nodes cfg nullp intr_ok hctr mem = Some f \<Longrightarrow> node_reach f"
| memory: "node_reach f \<Longrightarrow> node_reach (f\<lparr>fuse_mem := m\<rparr>)"
| find: "node_reach f \<Longrightarrow> heap f p = Some pn \<Longrightarrow> card (dom (heap f)) < 2 ^ 32 - 2 \<Longrightarrow>
    (\<And>a n. lookup_node f (nodeid pn) nm = Some a \<Longrightarrow> heap f a = Some n \<Longrightarrow> nlookup n \<noteq> - 1) \<Longrightarrow>
    find_node f (nodeid pn) (Some nm) = Some (r, f') \<Longrightarrow> node_reach f'"
| find_self: "node_reach f \<Longrightarrow> heap f p = Some pn \<Longrightarrow> nlookup pn \<noteq> 0 \<Longrightarrow> nlookup pn \<noteq> - 1 \<Longrightarrow>
    find_node f (nodeid pn) None = Some (r, f') \<Longrightarrow> node_reach f'"
| forget: "node_reach f \<Longrightarrow> heap f a = Some n \<Longrightarrow> nodeid n \<noteq> FUSE_ROOT_ID \<Longrightarrow> k \<le> nlookup n \<Longrightarrow> nlookup n \<noteq> 0 \<Longrightarrow> treelock n = 0 \<Longrightarrow>
    forget_node f (nodeid n) k = Some f' \<Longrightarrow> node_reach f'"
| remove: "node_reach f \<Longrightarrow> (\<And>a n. lookup_node f dir nm = Some a \<Longrightarrow> heap f a = Some n \<Longrightarrow> noforget (conf f) \<Longrightarrow> 1 < nlookup n) \<Longrightarrow>
    remove_node f dir nm = Some f' \<Longrightarrow> node_reach f'"
| rename: "node_reach f \<Longrightarrow> lookup_node f olddir oldname = Some a \<Longrightarrow> heap f q = Some qn \<Longrightarrow> nodeid qn = newdir \<Longrightarrow> nlookup qn \<noteq> 0 \<Longrightarrow>
    \<not> inside f q a \<Longrightarrow> lookup_node f newdir newname \<noteq> Some a \<Longrightarrow>
    (\<And>b m. lookup_node f newdir newname = Some b \<Longrightarrow> heap f b = Some m \<Longrightarrow> noforget (conf f) \<Longrightarrow> 1 < nlookup m) \<Longrightarrow>
    rename_node f olddir oldname newdir newname hide = Some (res, f') \<Longrightarrow> node_reach f'"

lemma node_reach_inv: "node_reach f \<Longrightarrow> node_inv0 f"
proof (induction rule: node_reach.induct)
  case (start cfg nullp intr_ok hctr mem f)
  then show ?case using init_nodes_facts by blast
next
  case (find f p pn nm r f')
  show ?case
  proof (cases "lookup_node f (nodeid pn) nm")
    case None
    then show ?thesis using find_node_first [OF find.IH find.hyps(2,3) None] find.hyps by auto
  next
    case (Some a)
    then show ?thesis using find_node_again [OF find.IH Some find.hyps(4) [OF Some]] find.hyps by auto
  qed
next
  case (find_self f p pn r f')
  have "get_node f (nodeid pn) = Some p" using get_node_nocheck_iff [OF find_self.IH] find_self.hyps(2) by (auto simp: get_node_def)
  then show ?case using nlookup_bump_inv [OF find_self.IH find_self.hyps(2,4)] find_self.hyps by (auto simp: find_node_def)
next
  case (forget f a n k f')
  then show ?case using forget_node_partial [OF forget.IH forget.hyps(2,3,4)] forget_node_last [OF forget.IH forget.hyps(2,3,5,6)]
    by (cases "k = nlookup n") auto
next
  case (remove f dir nm f')
  then show ?case using remove_node_correct [OF remove.IH, of dir nm] by fastforce
next
  case (rename f olddir oldname a q qn newdir newname hide res f')
  show ?case
  proof (cases "lookup_node f newdir newname \<noteq> None \<and> hide")
    case True
    then show ?thesis using rename by (auto simp: rename_node_def)
  next
    case False
    have "\<exists>res f'. rename_node f olddir oldname newdir newname hide = Some (res, f') \<and> node_inv0 f' \<and> (res = 0 \<or> res = - ENOMEM) \<and>
        (\<forall>i m. lookup_node f' i m = (if i = newdir \<and> m = newname then if res = 0 then Some a else None
          else if i = olddir \<and> m = oldname then None else lookup_node f i m))"
      by (rule rename_node_moves [OF rename.IH rename.hyps(2-7) _ False]) (rule rename.hyps(8))
    then show ?thesis using rename.hyps(9) by auto
  qed
qed simp

text \<open>
  C3: the cache is well formed in every state it can reach: every node is found by its identifier, a node with a name is found under its parent
  by this name and by no other, its parent is alive, the names form a tree, and every reference count is the number of children, with one more for the kernel's lookups.
\<close>

theorem reachable_well_formed:
  assumes "node_reach f" "heap f a = Some n"
  shows "get_node_nocheck f (nodeid n) = Some a \<and>
    (\<forall>i m. lookup_node f i m = Some a \<longleftrightarrow> (\<exists>p pn. heap f p = Some pn \<and> nodeid pn = i \<and> parent n = Some p \<and> node_name n = Some m)) \<and>
    refctr n = int (card {c. \<exists>m. heap f c = Some m \<and> parent m = Some a}) + (if nlookup n = 0 then 0 else 1) \<and> 0 < refctr n \<and>
    acyclic {(c, p). \<exists>m. heap f c = Some m \<and> parent m = Some p}"
proof -
  note inv = node_reach_inv [OF assms(1)]
  have "children (place f) a = {c. \<exists>m. heap f c = Some m \<and> parent m = Some a}"
    "parent_rel (place f) = {(c, p). \<exists>m. heap f c = Some m \<and> parent m = Some p}"
    by (auto simp: children_def parent_rel_def)
  moreover have "lookup_node f i m = Some a \<longleftrightarrow> (\<exists>p pn. heap f p = Some pn \<and> nodeid pn = i \<and> parent n = Some p \<and> node_name n = Some m)" for i m
    unfolding lookup_node_iff [OF inv] using assms(2) by (auto simp: is_child_def edge_def place_def)
  ultimately show ?thesis
    using get_node_nocheck_iff [OF inv] ref_invD [OF inv assms(2)] tree_okD(8) [OF node_invD(1) [OF inv]] assms(2)
    by (auto simp: ref_ok_def)
qed

theorem reachable_well_formed_witness:
  "node_reach demo1 \<and> get_node_nocheck demo1 2 = Some 1 \<and> lookup_node demo1 1 ''a'' = Some 1"
proof -
  have r0: "node_reach demo0" by (rule node_reach.start [OF demo0])
  have "nodeid demo_root = 1" by (rule demo0_root)
  then have r1: "node_reach demo1"
    using node_reach.find [OF r0 demo0_root(1), of "''a''" "Some 1" demo1] demo_find demo0_facts by auto
  show ?thesis using reachable_well_formed [OF r1 demo1_heap(2)] r1 demo1_heap demo1_lookup by auto
qed

end
