(* ===== verification/Fuse_Path.thy ===== *)
theory Fuse_Path
  imports Complex_Main Fuse_Prelude Fuse_Node
begin

text \<open>
  Paths of the high-level library (\<open>lib/fuse.c\<close>): building the path of a node backwards into a
  growing buffer, and the path locks (\<open>treelock\<close>, tickets, the queue of waiting requests) that
  keep the names on a path from changing while a request uses it.

  A C buffer of characters is the list of its characters; what \<open>malloc\<close> and \<open>realloc\<close> leave
  uninitialised is filled with zeros, and no result depends on it.
\<close>

subsection \<open>The path buffer\<close>

abbreviation (input) NUL :: char where "NUL \<equiv> CHR 0x00"

text \<open>\<open>memmove\<close> or \<open>strncpy\<close> of \<open>xs\<close> to position \<open>i\<close> of a buffer.\<close>

definition copy_at :: "nat \<Rightarrow> char list \<Rightarrow> char list \<Rightarrow> char list" where
  "copy_at i xs b = take i b @ xs @ drop (i + length xs) b"

text \<open>The loop that doubles the buffer size; it has no end when more than \<open>0xffffffff\<close> bytes are
  needed. The doubling cannot wrap, since it is done below \<open>0x80000000\<close> only.\<close>

partial_function (option) grow_bufsize :: "nat \<Rightarrow> nat \<Rightarrow> nat option" where
  [code]: "grow_bufsize need n =
     (if n < need then grow_bufsize need (if n \<ge> 0x80000000 then 0xffffffff else n * 2)
      else Some n)"

text \<open>
  \<open>add_name\<close>: buffer, position \<open>s\<close> in it, name; the result is the buffer and the new position,
  or \<open>Inl\<close> for the null result (the buffer is then as before).
\<close>

definition add_name ::
  "char list \<Rightarrow> nat \<Rightarrow> cstring \<Rightarrow> allocs \<Rightarrow> ((unit + char list \<times> nat) \<times> allocs) option" where
  "add_name buf s name mem = do {
     let len = length name;
     let bufsize = length buf;
     (grown, mem) \<leftarrow>
       (if s \<le> len then do {
          let pathlen = bufsize - s;
          newbufsize \<leftarrow> grow_bufsize (pathlen + len + 1) bufsize;
          let (ok, mem) = alloc mem;
          if \<not> ok then Some (Inl (), mem)
          else do {
            let newbuf = buf @ replicate (newbufsize - bufsize) NUL;
            let s = newbufsize - pathlen;
            Some (Inr (copy_at s (take pathlen (drop (bufsize - pathlen) newbuf)) newbuf, s), mem)
          }
        } else Some (Inr (buf, s), mem));
     case grown of
       Inl _ \<Rightarrow> Some (Inl (), mem)
     | Inr (buf, s) \<Rightarrow> do {
         let s = s - len;
         let buf = copy_at s name buf;
         let s = s - 1;
         Some (Inr (copy_at s ''/'' buf, s), mem)
       }
   }"

text \<open>The C string at a position of a buffer.\<close>

definition cstr_at :: "char list \<Rightarrow> nat \<Rightarrow> cstring" where
  "cstr_at buf s = takeWhile (\<lambda>c. c \<noteq> NUL) (drop s buf)"

subsection \<open>Locking a path\<close>

text \<open>\<open>unlock_path\<close>: from the node up to \<open>end\<close> (the null pointer is \<open>None\<close>) or the root.\<close>

partial_function (option) unlock_loop :: "fuse \<Rightarrow> addr option \<Rightarrow> addr option \<Rightarrow> int \<Rightarrow> fuse option" where
  [code]: "unlock_loop f node stop tk =
     (if node = stop then Some f
      else do {
        a \<leftarrow> node;
        n \<leftarrow> heap f a;
        if nodeid n = FUSE_ROOT_ID then Some f
        else if treelock n > 0
        then unlock_loop
          (upd_node a (\<lambda>n. n\<lparr>treelock := treelock n - 1, ticket := (if ticket n = 0 then tk else ticket n)\<rparr>) f)
          (parent n) stop tk
        else None
      })"

definition unlock_path ::
  "fuse \<Rightarrow> fuse_ino_t \<Rightarrow> addr option \<Rightarrow> addr option \<Rightarrow> int \<Rightarrow> fuse option" where
  "unlock_path f i wnode stop tk = do {
     f \<leftarrow> (case wnode of
             None \<Rightarrow> Some f
           | Some w \<Rightarrow> do {
               n \<leftarrow> heap f w;
               if treelock n = - 1
               then Some (upd_node w (\<lambda>n. n\<lparr>treelock := 0, ticket := (if ticket n = 0 then tk else ticket n)\<rparr>) f)
               else None
             });
     a \<leftarrow> get_node f i;
     unlock_loop f (Some a) stop tk
   }"

text \<open>The loop of \<open>try_get_path\<close> over the ancestors: the error (0 when the root is reached), and
  the node it stopped at.\<close>

partial_function (option) path_loop ::
  "int \<Rightarrow> fuse \<Rightarrow> char list \<Rightarrow> nat \<Rightarrow> addr \<Rightarrow> (int \<times> fuse \<times> char list \<times> nat \<times> addr) option" where
  [code]: "path_loop tk f buf s a =
     Option.bind (heap f a) (\<lambda>n.
       if nodeid n = FUSE_ROOT_ID then Some (0, f, buf, s, a)
       else if node_name n = None \<or> parent n = None then Some (- ENOENT, f, buf, s, a)
       else Option.bind (add_name buf s (the (node_name n)) (fuse_mem f)) (\<lambda>(r, m).
         case r of
           Inl _ \<Rightarrow> Some (- ENOMEM, f\<lparr>fuse_mem := m\<rparr>, buf, s, a)
         | Inr (buf, s) \<Rightarrow>
             if tk = 0 then path_loop tk (f\<lparr>fuse_mem := m\<rparr>) buf s (the (parent n))
             else if treelock n = - 1 \<or> ticket n \<noteq> 0 \<and> ticket n \<noteq> tk
             then Some (- EAGAIN, f\<lparr>fuse_mem := m\<rparr>, buf, s, a)
             else path_loop tk
               (upd_node a (\<lambda>n. n\<lparr>treelock := treelock n + 1, ticket := 0\<rparr>) (f\<lparr>fuse_mem := m\<rparr>))
               buf s (the (parent n))))"

record path_result =
  pr_err :: int
  pr_path :: "cstring option"
  pr_wnode :: "addr option"

text \<open>The lock on the last component, when \<open>wnodep\<close> is given: the error (0 when it may go on)
  and the node.\<close>

definition lock_wnode ::
  "fuse \<Rightarrow> fuse_ino_t \<Rightarrow> cstring \<Rightarrow> int \<Rightarrow> (int \<times> addr option \<times> fuse) option" where
  "lock_wnode f i name tk =
     (if tk = 0 then None
      else case lookup_node f i name of
        None \<Rightarrow> Some (0, None, f)
      | Some w \<Rightarrow> do {
          n \<leftarrow> heap f w;
          if treelock n \<noteq> 0 \<or> ticket n \<noteq> 0 \<and> ticket n \<noteq> tk
          then Some (- EAGAIN, None, if ticket n = 0 then upd_node w (ticket_update (\<lambda>_. tk)) f else f)
          else Some (0, Some w, upd_node w (\<lambda>n. n\<lparr>treelock := - 1, ticket := 0\<rparr>) f)
        })"

text \<open>
  \<open>try_get_path\<close>: \<open>wr\<close> is whether \<open>wnodep\<close> is given. \<open>None\<close>: a failed \<open>assert\<close> or \<open>abort\<close>, a null
  pointer (no name although \<open>wnodep\<close> is given), a loop without end.
\<close>

definition try_get_path ::
  "fuse \<Rightarrow> fuse_ino_t \<Rightarrow> cstring option \<Rightarrow> bool \<Rightarrow> int \<Rightarrow> (path_result \<times> fuse) option" where
  "try_get_path f i name wr tk = do {
     let fail = (\<lambda>err f. Some (\<lparr>pr_err = err, pr_path = None, pr_wnode = None\<rparr>, f));
     let (ok, f) = malloc_ok f;
     if \<not> ok then fail (- ENOMEM) f
     else do {
       let buf = replicate 256 NUL;
       let s = 255;
       (r, m) \<leftarrow> (case name of None \<Rightarrow> Some (Inr (buf, s), fuse_mem f) | Some nm \<Rightarrow> add_name buf s nm (fuse_mem f));
       let f = f\<lparr>fuse_mem := m\<rparr>;
       case r of
         Inl _ \<Rightarrow> fail (- ENOMEM) f
       | Inr (buf, s) \<Rightarrow> do {
           (err, wnode, f) \<leftarrow> (if wr then do { nm \<leftarrow> name; lock_wnode f i nm tk } else Some (0, None, f));
           if err \<noteq> 0 then fail err f
           else do {
             a \<leftarrow> get_node f i;
             (err, f, buf, s, stop) \<leftarrow> path_loop tk f buf s a;
             if err = 0
             then Some (\<lparr>pr_err = 0, pr_path = Some (if cstr_at buf s \<noteq> [] then cstr_at buf s else ''/''),
                        pr_wnode = wnode\<rparr>, f)
             else do {
               f \<leftarrow> (if tk \<noteq> 0 then unlock_path f i wnode (Some stop) tk else Some f);
               fail err f
             }
           }
         }
     }
   }"

text \<open>The queue of waiting requests; a request is identified by its queue element. The condition
  variables signalled so far are in \<open>signals\<close>.\<close>

definition wake_up_first :: "fuse \<Rightarrow> fuse" where
  "wake_up_first f = (case lockq f of [] \<Rightarrow> f | q # _ \<Rightarrow> f\<lparr>signals := signals f @ [q]\<rparr>)"

definition wake_up_next :: "fuse \<Rightarrow> nat \<Rightarrow> fuse" where
  "wake_up_next f qe =
     (case drop 1 (dropWhile (\<lambda>q. q \<noteq> qe) (lockq f)) of [] \<Rightarrow> f | q # _ \<Rightarrow> f\<lparr>signals := signals f @ [q]\<rparr>)"

text \<open>A ticket is an \<open>int\<close>: the counter wraps and skips zero.\<close>

definition int_inc :: "int \<Rightarrow> int" where
  "int_inc k = (if k = 2147483647 then - 2147483648 else k + 1)"

definition get_ticket :: "fuse \<Rightarrow> int \<times> fuse" where
  "get_ticket f =
     (let t = int_inc (curr_ticket f); t = (if t = 0 then int_inc t else t) in (t, f\<lparr>curr_ticket := t\<rparr>))"

definition queue_path :: "fuse \<Rightarrow> nat \<Rightarrow> fuse" where
  "queue_path f qe = f\<lparr>lockq := lockq f @ [qe]\<rparr>"

definition dequeue_path :: "fuse \<Rightarrow> nat \<Rightarrow> fuse option" where
  "dequeue_path f qe = (if qe \<in> set (lockq f) then Some (f\<lparr>lockq := remove1 qe (lockq f)\<rparr>) else None)"

text \<open>
  Waiting releases the mutex: \<open>wait f\<close> is the state the other threads have made of \<open>f\<close> when this
  one is woken, \<open>None\<close> when it never is. In a run with one thread nobody wakes it: \<open>no_wait\<close>.
\<close>

definition no_wait :: "fuse \<Rightarrow> fuse option" where
  "no_wait f = None"

partial_function (option) retry_path ::
  "(fuse \<Rightarrow> fuse option) \<Rightarrow> nat \<Rightarrow> (fuse \<Rightarrow> ('r \<times> fuse) option) \<Rightarrow> ('r \<Rightarrow> int) \<Rightarrow> fuse \<Rightarrow> ('r \<times> fuse) option" where
  [code]: "retry_path wait qe attempt err f =
     Option.bind (wait f) (\<lambda>f. Option.bind (attempt f) (\<lambda>(r, f).
       if err r = - EAGAIN then retry_path wait qe attempt err (wake_up_next f qe)
       else Some (r, wake_up_next f qe)))"

definition get_path_common ::
  "(fuse \<Rightarrow> fuse option) \<Rightarrow> nat \<Rightarrow> fuse \<Rightarrow> fuse_ino_t \<Rightarrow> cstring option \<Rightarrow> bool \<Rightarrow> (path_result \<times> fuse) option" where
  "get_path_common wait qe f i name wr = do {
     let (tk, f) = get_ticket f;
     (r, f) \<leftarrow> try_get_path f i name wr tk;
     if pr_err r = - EAGAIN then do {
       let f = queue_path f qe;
       (r, f) \<leftarrow> retry_path wait qe (\<lambda>f. try_get_path f i name wr tk) pr_err f;
       f \<leftarrow> dequeue_path f qe;
       Some (r, f)
     } else Some (r, f)
   }"

definition get_path :: "(fuse \<Rightarrow> fuse option) \<Rightarrow> nat \<Rightarrow> fuse \<Rightarrow> fuse_ino_t \<Rightarrow> (path_result \<times> fuse) option" where
  "get_path wait qe f i = get_path_common wait qe f i None False"

definition get_path_nullok ::
  "(fuse \<Rightarrow> fuse option) \<Rightarrow> nat \<Rightarrow> fuse \<Rightarrow> fuse_ino_t \<Rightarrow> (path_result \<times> fuse) option" where
  "get_path_nullok wait qe f i = do {
     (r, f) \<leftarrow> get_path_common wait qe f i None False;
     Some (if pr_err r = - ENOENT \<and> nullpath_ok f then r\<lparr>pr_err := 0\<rparr> else r, f)
   }"

definition get_path_name ::
  "(fuse \<Rightarrow> fuse option) \<Rightarrow> nat \<Rightarrow> fuse \<Rightarrow> fuse_ino_t \<Rightarrow> cstring option \<Rightarrow> (path_result \<times> fuse) option" where
  "get_path_name wait qe f i name = get_path_common wait qe f i name False"

definition get_path_wrlock ::
  "(fuse \<Rightarrow> fuse option) \<Rightarrow> nat \<Rightarrow> fuse \<Rightarrow> fuse_ino_t \<Rightarrow> cstring \<Rightarrow> (path_result \<times> fuse) option" where
  "get_path_wrlock wait qe f i name = get_path_common wait qe f i (Some name) True"

text \<open>Two paths at once; a name that is not there is the null pointer. \<open>wr1\<close> and \<open>wr2\<close> are whether \<open>wnode1\<close> and \<open>wnode2\<close> are given.\<close>

record path2_result =
  pr2_err :: int
  pr2_path1 :: "cstring option"
  pr2_path2 :: "cstring option"
  pr2_wnode1 :: "addr option"
  pr2_wnode2 :: "addr option"

definition try_get_path2 ::
  "fuse \<Rightarrow> fuse_ino_t \<Rightarrow> cstring option \<Rightarrow> fuse_ino_t \<Rightarrow> cstring option \<Rightarrow> bool \<Rightarrow> bool \<Rightarrow> int \<Rightarrow> (path2_result \<times> fuse) option" where
  "try_get_path2 f i1 name1 i2 name2 wr1 wr2 tk = do {
     (r1, f) \<leftarrow> try_get_path f i1 name1 wr1 tk;
     if pr_err r1 \<noteq> 0
     then Some (\<lparr>pr2_err = pr_err r1, pr2_path1 = pr_path r1, pr2_path2 = None, pr2_wnode1 = None,
                pr2_wnode2 = None\<rparr>, f)
     else do {
       (r2, f) \<leftarrow> try_get_path f i2 name2 wr2 tk;
       f \<leftarrow> (if pr_err r2 \<noteq> 0 then unlock_path f i1 (pr_wnode r1) None tk else Some f);
       Some (\<lparr>pr2_err = pr_err r2, pr2_path1 = pr_path r1, pr2_path2 = pr_path r2,
              pr2_wnode1 = pr_wnode r1, pr2_wnode2 = pr_wnode r2\<rparr>, f)
     }
   }"

definition get_path2 ::
  "(fuse \<Rightarrow> fuse option) \<Rightarrow> nat \<Rightarrow> fuse \<Rightarrow> fuse_ino_t \<Rightarrow> cstring option \<Rightarrow> fuse_ino_t \<Rightarrow> cstring option \<Rightarrow> bool \<Rightarrow> bool \<Rightarrow>
     (path2_result \<times> fuse) option" where
  "get_path2 wait qe f i1 name1 i2 name2 wr1 wr2 = do {
     let (tk, f) = get_ticket f;
     (r, f) \<leftarrow> try_get_path2 f i1 name1 i2 name2 wr1 wr2 tk;
     if pr2_err r = - EAGAIN then do {
       let f = queue_path f qe;
       (r, f) \<leftarrow> retry_path wait qe (\<lambda>f. try_get_path2 f i1 name1 i2 name2 wr1 wr2 tk) pr2_err f;
       f \<leftarrow> dequeue_path f qe;
       Some (r, f)
     } else Some (r, f)
   }"

definition free_path_wrlock :: "fuse \<Rightarrow> fuse_ino_t \<Rightarrow> addr option \<Rightarrow> fuse option" where
  "free_path_wrlock f i wnode = do {
     f \<leftarrow> unlock_path f i wnode None 0;
     Some (wake_up_first f)
   }"

definition free_path :: "fuse \<Rightarrow> fuse_ino_t \<Rightarrow> cstring option \<Rightarrow> fuse option" where
  "free_path f i path = (if path \<noteq> None then free_path_wrlock f i None else Some f)"

definition free_path2 ::
  "fuse \<Rightarrow> fuse_ino_t \<Rightarrow> fuse_ino_t \<Rightarrow> addr option \<Rightarrow> addr option \<Rightarrow> fuse option" where
  "free_path2 f i1 i2 wnode1 wnode2 = do {
     f \<leftarrow> unlock_path f i1 wnode1 None 0;
     f \<leftarrow> unlock_path f i2 wnode2 None 0;
     Some (wake_up_first f)
   }"

subsection \<open>The buffer holds the path\<close>

lemma grow_bufsize_ok:
  "0 < n \<Longrightarrow> n \<le> 0xffffffff \<Longrightarrow> need \<le> 0xffffffff \<Longrightarrow>
     \<exists>m. grow_bufsize need n = Some m \<and> need \<le> m \<and> n \<le> m \<and> m \<le> 0xffffffff"
proof (induction "0xffffffff - n" arbitrary: n rule: less_induct)
  case less
  show ?case
  proof (cases "n < need")
    case False
    then show ?thesis using less.prems by (subst grow_bufsize.simps) simp
  next
    case True
    define k :: nat where "k = (if n \<ge> 0x80000000 then 0xffffffff else n * 2)"
    have k: "n < k" "k \<le> 0xffffffff" using True less.prems by (auto simp: k_def)
    then have "0xffffffff - k < 0xffffffff - n" by simp
    from less.hyps [OF this] obtain m where
      "grow_bufsize need k = Some m" "need \<le> m" "k \<le> m" "m \<le> 0xffffffff"
      using k less.prems by auto
    moreover have "grow_bufsize need n = grow_bufsize need k"
      using True by (subst grow_bufsize.simps) (simp add: k_def)
    ultimately show ?thesis using k(1) by simp
  qed
qed

lemma grow_bufsize_bound:
  "grow_bufsize need n = Some m \<Longrightarrow> n \<le> 0xffffffff \<longrightarrow> m \<le> 0xffffffff \<and> need \<le> m"
  by (rule grow_bufsize.raw_induct
      [of "\<lambda>need n m. n \<le> 0xffffffff \<longrightarrow> m \<le> 0xffffffff \<and> need \<le> m", rotated])
    (auto split: if_splits)

text \<open>Beyond \<open>0xffffffff\<close> bytes the loop that doubles the buffer size never ends.\<close>

lemma grow_bufsize_endless:
  assumes "n \<le> 0xffffffff" "0xffffffff < need"
  shows "grow_bufsize need n = None"
  using grow_bufsize_bound [of need n] assms by (cases "grow_bufsize need n") auto

lemma grow_bufsize_endless_witness: "grow_bufsize 0x100000000 256 = None"
  using grow_bufsize_endless [of 256 "0x100000000"] by simp

lemma copy_at_length [simp]: "i + length xs \<le> length b \<Longrightarrow> length (copy_at i xs b) = length b"
  by (simp add: copy_at_def)

lemma copy_at_drop: "i + length xs \<le> length b \<Longrightarrow> drop i (copy_at i xs b) = xs @ drop (i + length xs) b"
  by (simp add: copy_at_def)

text \<open>The end of the buffer, from the position on, is the path and its terminator.\<close>

definition buf_holds :: "char list \<Rightarrow> nat \<Rightarrow> cstring \<Rightarrow> bool" where
  "buf_holds b s p \<longleftrightarrow> drop s b = p @ [NUL] \<and> s + length p + 1 = length b \<and> NUL \<notin> set p \<and>
     length b \<le> 0xffffffff"

lemma buf_holds_cstr: "buf_holds b s p \<Longrightarrow> cstr_at b s = p"
  unfolding buf_holds_def cstr_at_def by (auto simp: takeWhile_tail)

lemma buf_holds_add:
  assumes "drop s b = p @ [NUL]" "s + length p + 1 = length b" "NUL \<notin> set (nm @ p)" "length nm < s"
    "length b \<le> 0xffffffff"
  shows "buf_holds (copy_at (s - length nm - 1) ''/'' (copy_at (s - length nm) nm b)) (s - length nm - 1)
           (''/'' @ nm @ p)"
proof -
  let ?c = "copy_at (s - length nm) nm b"
  have l: "length ?c = length b" using assms(2,4) by simp
  have "drop (s - length nm) ?c = nm @ p @ [NUL]"
    using assms(1,2,4) copy_at_drop [of "s - length nm" nm b] by simp
  moreover have "Suc (s - length nm - 1) = s - length nm" using assms(4) by simp
  ultimately have "drop (s - length nm - 1) (copy_at (s - length nm - 1) ''/'' ?c) = ''/'' @ nm @ p @ [NUL]"
    using copy_at_drop [of "s - length nm - 1" "''/''" ?c] l assms(2,4) by simp
  then show ?thesis using l assms(2-5) by (simp add: buf_holds_def)
qed

text \<open>What \<open>add_name\<close> does: the path grows at the front, or memory has run out.\<close>

definition add_name_post :: "char list \<Rightarrow> nat \<Rightarrow> cstring \<Rightarrow> allocs \<Rightarrow> (unit + char list \<times> nat) \<times> allocs \<Rightarrow> bool" where
  "add_name_post b s q m r \<longleftrightarrow> (m = [] \<longrightarrow> snd r = []) \<and>
     (case fst r of Inl _ \<Rightarrow> m \<noteq> [] | Inr (b', s') \<Rightarrow> buf_holds b' s' q)"

lemma add_name_ok:
  assumes b: "buf_holds b s p" and nm: "NUL \<notin> set nm" "length p + length nm + 2 \<le> 0xffffffff"
  shows "\<exists>r. add_name b s nm m = Some r \<and> add_name_post b s (''/'' @ nm @ p) m r"
proof (cases "s \<le> length nm")
  case False
  then have "buf_holds (copy_at (s - length nm - 1) ''/'' (copy_at (s - length nm) nm b)) (s - length nm - 1)
      (''/'' @ nm @ p)"
    using b nm by (intro buf_holds_add) (auto simp: buf_holds_def)
  then show ?thesis using False by (simp add: add_name_def add_name_post_def Let_def)
next
  case True
  let ?pl = "length b - s"
  have pl: "?pl = length p + 1" "length b - ?pl = s" using b by (auto simp: buf_holds_def)
  obtain n where n: "grow_bufsize (?pl + length nm + 1) (length b) = Some n"
    "?pl + length nm + 1 \<le> n" "length b \<le> n" "n \<le> 0xffffffff"
    using grow_bufsize_ok [of "length b" "?pl + length nm + 1"] b nm pl
    by (cases b) (auto simp: buf_holds_def)
  let ?nb = "b @ replicate (n - length b) NUL"
  let ?c = "copy_at (n - ?pl) (take ?pl (drop s ?nb)) ?nb"
  have x: "take ?pl (drop s ?nb) = p @ [NUL]" using b pl by (simp add: buf_holds_def)
  have "drop (n - ?pl) ?c = p @ [NUL]" "length ?c = n"
    unfolding x using copy_at_drop [of "n - ?pl" "p @ [NUL]" ?nb] n pl by simp_all
  then have "buf_holds (copy_at (n - ?pl - length nm - 1) ''/'' (copy_at (n - ?pl - length nm) nm ?c))
      (n - ?pl - length nm - 1) (''/'' @ nm @ p)"
    using b nm n pl by (intro buf_holds_add) (auto simp: buf_holds_def)
  then show ?thesis
    using True n(1) pl by (cases m) (auto simp: add_name_def add_name_post_def Let_def)
qed

text \<open>
  \<open>add_name\<close> puts a slash and the name in front of the path in the buffer, keeps the path and
  its terminator at the end of the buffer and stays inside it, also when the buffer has to grow;
  it returns a null pointer only when \<open>realloc\<close> fails.
\<close>

theorem add_name_correct:
  assumes "buf_holds b s p" "NUL \<notin> set nm" "length p + length nm + 2 \<le> 0xffffffff"
  shows "\<exists>b' s'. add_name b s nm [] = Some (Inr (b', s'), []) \<and> buf_holds b' s' (''/'' @ nm @ p) \<and>
           cstr_at b' s' = ''/'' @ nm @ p \<and> s' < length b'"
proof -
  obtain r where r: "add_name b s nm [] = Some r" "add_name_post b s (''/'' @ nm @ p) [] r"
    using add_name_ok [OF assms] by blast
  then obtain b' s' where "r = (Inr (b', s'), [])" "buf_holds b' s' (''/'' @ nm @ p)"
    by (cases r) (auto simp: add_name_post_def split: sum.splits)
  then show ?thesis using r(1) buf_holds_cstr by (auto simp: buf_holds_def)
qed

theorem add_name_correct_witness:
  "buf_holds (replicate 256 NUL) 255 [] \<and>
   (\<exists>b' s'. add_name (replicate 256 NUL) 255 (replicate 300 CHR ''x'') [] = Some (Inr (b', s'), []) \<and>
      cstr_at b' s' = ''/'' @ replicate 300 CHR ''x'')"
proof -
  have h: "buf_holds (replicate 256 NUL) 255 []" by (simp add: buf_holds_def)
  then show ?thesis using add_name_correct [OF h, of "replicate 300 CHR ''x''"] by auto
qed

subsection \<open>The way up\<close>

declare place_Some [simp del]

text \<open>\<open>walk t a as e\<close>: going up from \<open>a\<close> passes the named nodes \<open>as\<close> and stops at \<open>e\<close>, the root or
  a node without name.\<close>

inductive walk :: "tree \<Rightarrow> addr \<Rightarrow> addr list \<Rightarrow> addr \<Rightarrow> bool" for t where
  stop: "t a = Some (i, q, nm) \<Longrightarrow> i = FUSE_ROOT_ID \<or> nm = None \<or> q = None \<Longrightarrow> walk t a [] a"
| up: "t a = Some (i, Some p, Some nm) \<Longrightarrow> i \<noteq> FUSE_ROOT_ID \<Longrightarrow> walk t p as e \<Longrightarrow> walk t a (a # as) e"

inductive_cases walk_NilE: "walk t a [] e"
inductive_cases walk_ConsE: "walk t a (x # xs) e"

lemma walk_exists:
  assumes ok: "tree_ok t b" and a: "t a = Some x"
  shows "\<exists>as e. walk t a as e"
proof -
  have "parent_rel t \<subseteq> dom t \<times> dom t" using tree_okD(4) [OF ok] by (auto simp: parent_rel_def)
  then have "finite (parent_rel t)" using tree_okD(1) [OF ok] finite_subset by blast
  then have "wf ((parent_rel t)\<inverse>)" using tree_okD(8) [OF ok] by (rule finite_acyclic_wf_converse)
  then show ?thesis using a
  proof (induction a arbitrary: x rule: wf_induct_rule)
    case (less a)
    obtain i q nm where x: "t a = Some (i, q, nm)" using less.prems by (cases x) auto
    show ?case
    proof (cases "i = FUSE_ROOT_ID \<or> nm = None \<or> q = None")
      case True
      then show ?thesis using walk.stop [of t a i q nm] x by blast
    next
      case False
      then obtain p n where q: "q = Some p" "nm = Some n" by auto
      obtain y where "t p = Some y" using tree_okD(4) [OF ok] x q by blast
      moreover have "(p, a) \<in> (parent_rel t)\<inverse>" using x q by (auto simp: parent_rel_def)
      ultimately obtain as e where "walk t p as e" using less.IH by blast
      then show ?thesis using walk.up [of t a i p n] x q False by blast
    qed
  qed
qed

lemma walk_named:
  "walk t a as e \<Longrightarrow> b \<in> set as \<Longrightarrow> \<exists>i p nm. t b = Some (i, Some p, Some nm) \<and> i \<noteq> FUSE_ROOT_ID"
  by (induction rule: walk.induct) auto

lemma walk_end:
  "walk t a as e \<Longrightarrow> \<exists>i q nm. t e = Some (i, q, nm) \<and> (i = FUSE_ROOT_ID \<or> nm = None \<or> q = None)"
  by (induction rule: walk.induct) auto

lemma walk_reach: "walk t a as e \<Longrightarrow> b \<in> set as \<Longrightarrow> (a, b) \<in> (parent_rel t)\<^sup>*"
proof (induction rule: walk.induct)
  case (up a i p nm as e)
  then have "(a, p) \<in> parent_rel t" by (auto simp: parent_rel_def)
  then show ?case using up by (auto intro: converse_rtrancl_into_rtrancl)
qed simp

lemma walk_distinct: "walk t a as e \<Longrightarrow> acyclic (parent_rel t) \<Longrightarrow> distinct as"
proof (induction rule: walk.induct)
  case (up a i p nm as e)
  have "(a, p) \<in> parent_rel t" using up.hyps(1) by (auto simp: parent_rel_def)
  then have "a \<notin> set as" using walk_reach [OF up.hyps(3)] up.prems
    by (meson acyclic_def rtrancl_into_trancl2)
  then show ?case using up by simp
qed simp

lemma walk_end_notin: "walk t a as e \<Longrightarrow> e \<notin> set as"
  using walk_end [of t a as e] by (auto dest!: walk_named)

subsection \<open>What locking changes\<close>

definition locked :: "int \<Rightarrow> addr list \<Rightarrow> (addr \<Rightarrow> node option) \<Rightarrow> addr \<Rightarrow> node option" where
  "locked tk as h b =
     (if tk \<noteq> 0 \<and> b \<in> set as then map_option (\<lambda>n. n\<lparr>treelock := treelock n + 1, ticket := 0\<rparr>) (h b) else h b)"

definition unlocked :: "int \<Rightarrow> addr list \<Rightarrow> (addr \<Rightarrow> node option) \<Rightarrow> addr \<Rightarrow> node option" where
  "unlocked tk as h b =
     (if b \<in> set as
      then map_option (\<lambda>n. n\<lparr>treelock := treelock n - 1, ticket := (if ticket n = 0 then tk else ticket n)\<rparr>) (h b)
      else h b)"

text \<open>The lock stops a request with ticket \<open>tk\<close>.\<close>

definition blocked :: "int \<Rightarrow> node \<Rightarrow> bool" where
  "blocked tk n \<longleftrightarrow> treelock n = - 1 \<or> ticket n \<noteq> 0 \<and> ticket n \<noteq> tk"

lemma locked_Cons:
  "tk \<noteq> 0 \<Longrightarrow> a \<notin> set as \<Longrightarrow>
     locked tk as (h(a := map_option (\<lambda>n. n\<lparr>treelock := treelock n + 1, ticket := 0\<rparr>) (h a))) = locked tk (a # as) h"
  by (auto simp: locked_def fun_eq_iff)

lemma unlocked_Cons:
  "a \<notin> set as \<Longrightarrow> unlocked tk as (h(a := map_option
      (\<lambda>n. n\<lparr>treelock := treelock n - 1, ticket := (if ticket n = 0 then tk else ticket n)\<rparr>) (h a))) =
     unlocked tk (a # as) h"
  by (auto simp: unlocked_def fun_eq_iff)

lemma locked_Nil [simp]: "locked tk [] h = h" and locked_0 [simp]: "locked 0 as h = h"
  by (auto simp: locked_def fun_eq_iff)

lemma unlocked_Nil [simp]: "unlocked tk [] h = h"
  by (auto simp: unlocked_def fun_eq_iff)

lemma unlock_loop_walk:
  assumes "walk t a (xs @ ys) e" "place f = t" "acyclic (parent_rel t)"
    and "\<And>b n. b \<in> set xs \<Longrightarrow> heap f b = Some n \<Longrightarrow> 0 < treelock n"
    and "stop = Some (hd (ys @ [e])) \<or> stop = None \<and> ys = [] \<and> (\<exists>x. t e = Some (FUSE_ROOT_ID, x))"
  shows "unlock_loop f (Some a) stop tk = Some (f\<lparr>heap := unlocked tk xs (heap f)\<rparr>)"
  using assms
proof (induction xs arbitrary: a f)
  case Nil
  show ?case
  proof (cases "stop = Some (hd (ys @ [e]))")
    case True
    moreover have "hd (ys @ [e]) = a" using Nil.prems(1) by (cases rule: walk.cases) auto
    ultimately show ?thesis by (subst unlock_loop.simps) simp
  next
    case False
    then have s: "stop = None" "ys = []" "\<exists>x. t e = Some (FUSE_ROOT_ID, x)" using Nil.prems(5) by auto
    then have "a = e" using Nil.prems(1) by (auto elim: walk_NilE)
    then show ?thesis using s Nil.prems(2) by (subst unlock_loop.simps) (auto simp: place_def)
  qed
next
  case (Cons x xs)
  then have "walk t a (x # xs @ ys) e" by simp
  then obtain i p nm where w: "x = a" "t a = Some (i, Some p, Some nm)" "i \<noteq> FUSE_ROOT_ID" "walk t p (xs @ ys) e"
    by (cases rule: walk.cases) auto
  obtain n where n: "heap f a = Some n" "nodeid n = i" "parent n = Some p" "node_name n = Some nm"
    using w(2) Cons.prems(2) by (auto simp: place_def)
  have na: "a \<notin> set (xs @ ys)" using walk_distinct [OF Cons.prems(1,3)] w(1) by simp
  have "stop \<noteq> Some a"
    using Cons.prems(1,5) na w(1) walk_end_notin by (cases ys) fastforce+
  moreover have "0 < treelock n" using Cons.prems(4) [of a n] n w(1) by simp
  ultimately have "unlock_loop f (Some a) stop tk = unlock_loop (upd_node a (\<lambda>n. n\<lparr>treelock := treelock n - 1,
      ticket := (if ticket n = 0 then tk else ticket n)\<rparr>) f) (Some p) stop tk"
    using n w(3) by (subst unlock_loop.simps) simp
  also have "\<dots> = Some (f\<lparr>heap := unlocked tk (a # xs) (heap f)\<rparr>)"
  proof -
    let ?f = "upd_node a (\<lambda>n. n\<lparr>treelock := treelock n - 1, ticket := (if ticket n = 0 then tk else ticket n)\<rparr>) f"
    have "place ?f = t" using Cons.prems(2) by (subst place_upd_node) (simp_all add: keeps_place_def)
    moreover have "0 < treelock m" if "b \<in> set xs" "heap ?f b = Some m" for b m
      using Cons.prems(4) [of b m] that na by (auto split: if_splits)
    ultimately have "unlock_loop ?f (Some p) stop tk = Some (?f\<lparr>heap := unlocked tk xs (heap ?f)\<rparr>)"
      using Cons.IH [OF w(4) _ Cons.prems(3) _ Cons.prems(5)] by blast
    then show ?thesis using unlocked_Cons [of a xs tk "heap f"] na by (simp add: upd_node_def)
  qed
  finally show ?case using w(1) by simp
qed

subsection \<open>What the loop over the ancestors does\<close>

definition name_at :: "fuse \<Rightarrow> addr \<Rightarrow> cstring" where
  "name_at f a = (case heap f a of Some n \<Rightarrow> (case node_name n of Some nm \<Rightarrow> nm | None \<Rightarrow> []) | None \<Rightarrow> [])"

text \<open>The path up to \<open>as\<close> in front of \<open>p\<close>, as the abstract value of the buffer.\<close>

definition path_string :: "(addr \<Rightarrow> cstring) \<Rightarrow> addr list \<Rightarrow> cstring \<Rightarrow> cstring" where
  "path_string nm as p = foldl (\<lambda>p a. ''/'' @ nm a @ p) p as"

lemma path_string_simps [simp]:
  "path_string nm [] p = p" "path_string nm (a # as) p = path_string nm as (''/'' @ nm a @ p)"
  by (simp_all add: path_string_def)

lemma path_string_length: "length p \<le> length (path_string nm as p)"
proof (induction as arbitrary: p)
  case (Cons a as)
  show ?case using Cons [of "''/'' @ nm a @ p"] by simp
qed simp

lemma path_string_concat:
  "path_string nm as p = concat (map (\<lambda>a. ''/'' @ nm a) (rev as)) @ p"
  by (induction as arbitrary: p) simp_all

definition names_ok :: "fuse \<Rightarrow> bool" where
  "names_ok f \<longleftrightarrow> (\<forall>a n nm. heap f a = Some n \<and> node_name n = Some nm \<longrightarrow> NUL \<notin> set nm)"

lemma name_at_cong: "place f' = place f \<Longrightarrow> name_at f' = name_at f"
proof
  fix a assume "place f' = place f"
  then have "place f' a = place f a" by simp
  then show "name_at f' a = name_at f a"
    by (cases "heap f a"; cases "heap f' a") (auto simp: name_at_def place_def)
qed

lemma names_ok_place: "names_ok f \<longleftrightarrow> (\<forall>a i q nm. place f a = Some (i, q, Some nm) \<longrightarrow> NUL \<notin> set nm)"
  unfolding names_ok_def place_Some by blast

lemma names_ok_cong: "place f' = place f \<Longrightarrow> names_ok f' = names_ok f"
  unfolding names_ok_place by simp

text \<open>The result of the loop: it locks a part \<open>xs\<close> of the way and stops at the node after it.\<close>

definition loop_post ::
  "int \<Rightarrow> fuse \<Rightarrow> addr list \<Rightarrow> addr \<Rightarrow> cstring \<Rightarrow> int \<times> fuse \<times> char list \<times> nat \<times> addr \<Rightarrow> bool" where
  "loop_post tk f as e p r \<longleftrightarrow> (case r of (err, f', b', s', stop) \<Rightarrow>
     \<exists>xs ys m. as = xs @ ys \<and> stop = hd (ys @ [e]) \<and>
       f' = f\<lparr>heap := locked tk xs (heap f), fuse_mem := m\<rparr> \<and> (fuse_mem f = [] \<longrightarrow> m = []) \<and>
       (\<forall>x n. tk \<noteq> 0 \<longrightarrow> x \<in> set xs \<longrightarrow> heap f x = Some n \<longrightarrow> \<not> blocked tk n) \<and>
       (if err = 0 then ys = [] \<and> (\<exists>x. place f e = Some (FUSE_ROOT_ID, x)) \<and>
          buf_holds b' s' (path_string (name_at f) as p)
        else if err = - ENOENT then ys = [] \<and> (\<nexists>x. place f e = Some (FUSE_ROOT_ID, x))
        else if err = - EAGAIN then tk \<noteq> 0 \<and> ys \<noteq> [] \<and> (\<exists>n. heap f (hd ys) = Some n \<and> blocked tk n)
        else err = - ENOMEM \<and> fuse_mem f \<noteq> []))"

lemma loop_postI:
  assumes "as = xs @ ys" "stop = hd (ys @ [e])" "f' = f\<lparr>heap := locked tk xs (heap f), fuse_mem := m\<rparr>"
    "fuse_mem f = [] \<Longrightarrow> m = []"
    "\<And>x n. tk \<noteq> 0 \<Longrightarrow> x \<in> set xs \<Longrightarrow> heap f x = Some n \<Longrightarrow> \<not> blocked tk n"
    "if err = 0 then ys = [] \<and> (\<exists>x. place f e = Some (FUSE_ROOT_ID, x)) \<and>
          buf_holds b' s' (path_string (name_at f) as p)
     else if err = - ENOENT then ys = [] \<and> (\<nexists>x. place f e = Some (FUSE_ROOT_ID, x))
     else if err = - EAGAIN then tk \<noteq> 0 \<and> ys \<noteq> [] \<and> (\<exists>n. heap f (hd ys) = Some n \<and> blocked tk n)
     else err = - ENOMEM \<and> fuse_mem f \<noteq> []"
  shows "loop_post tk f as e p (err, f', b', s', stop)"
  unfolding loop_post_def using assms by blast

lemma path_loop_walk:
  assumes "walk t a as e" "place f = t" "acyclic (parent_rel t)" "names_ok f" "buf_holds b s p"
    "length (path_string (name_at f) as p) < 0xffffffff"
  shows "\<exists>r. path_loop tk f b s a = Some r \<and> loop_post tk f as e p r"
  using assms
proof (induction arbitrary: f b s p rule: walk.induct)
  case (stop a i q nm)
  then obtain n where n: "heap f a = Some n" "nodeid n = i" "parent n = q" "node_name n = nm"
    by (auto simp: place_def)
  show ?case
  proof (cases "i = FUSE_ROOT_ID")
    case True
    then have "path_loop tk f b s a = Some (0, f, b, s, a)" using n by (subst path_loop.simps) simp
    moreover have "loop_post tk f [] a p (0, f, b, s, a)"
      by (rule loop_postI [where xs = "[]" and ys = "[]" and m = "fuse_mem f"])
        (use stop.hyps stop.prems True in auto)
    ultimately show ?thesis by blast
  next
    case False
    then have "path_loop tk f b s a = Some (- ENOENT, f, b, s, a)"
      using n stop.hyps(2) by (subst path_loop.simps) auto
    moreover have "loop_post tk f [] a p (- ENOENT, f, b, s, a)"
      by (rule loop_postI [where xs = "[]" and ys = "[]" and m = "fuse_mem f"])
        (use stop.hyps stop.prems False in auto)
    ultimately show ?thesis by blast
  qed
next
  case (up a i p' nm as e)
  then obtain n where n: "heap f a = Some n" "nodeid n = i" "parent n = Some p'" "node_name n = Some nm"
    by (auto simp: place_def)
  have na: "a \<notin> set as" using walk_distinct [OF walk.up [OF up.hyps]] up.prems(2) by simp
  have nma: "name_at f a = nm" using n by (simp add: name_at_def)
  let ?q = "''/'' @ nm @ p"
  have len: "length p + length nm + 2 \<le> 0xffffffff"
    using path_string_length [of ?q "name_at f" as] up.prems(5) nma by simp
  have "NUL \<notin> set nm" using up.prems(3) n by (auto simp: names_ok_def)
  then obtain r where r: "add_name b s nm (fuse_mem f) = Some r" "add_name_post b s ?q (fuse_mem f) r"
    using add_name_ok [OF up.prems(4) _ len] by blast
  obtain r1 m where rm: "r = (r1, m)" by (cases r)
  show ?case
  proof (cases r1)
    case (Inl u)
    have "path_loop tk f b s a = Some (- ENOMEM, f\<lparr>fuse_mem := m\<rparr>, b, s, a)"
      using n r rm Inl up.hyps(2) by (subst path_loop.simps) simp
    moreover have "loop_post tk f (a # as) e p (- ENOMEM, f\<lparr>fuse_mem := m\<rparr>, b, s, a)"
      by (rule loop_postI [where xs = "[]" and ys = "a # as" and m = m])
        (use r rm Inl in \<open>auto simp: add_name_post_def\<close>)
    ultimately show ?thesis by blast
  next
    case (Inr bs)
    then obtain b' s' where bs: "r1 = Inr (b', s')" by (cases bs) auto
    have hb: "buf_holds b' s' ?q" using r rm bs by (simp add: add_name_post_def)
    show ?thesis
    proof (cases "tk \<noteq> 0 \<and> blocked tk n")
      case True
      then have "path_loop tk f b s a = Some (- EAGAIN, f\<lparr>fuse_mem := m\<rparr>, b', s', a)"
        using n r rm bs up.hyps(2) by (subst path_loop.simps) (auto simp: blocked_def)
      moreover have "loop_post tk f (a # as) e p (- EAGAIN, f\<lparr>fuse_mem := m\<rparr>, b', s', a)"
        by (rule loop_postI [where xs = "[]" and ys = "a # as" and m = m])
          (use r rm n True in \<open>auto simp: add_name_post_def\<close>)
      ultimately show ?thesis by blast
    next
      case False
      let ?f = "f\<lparr>heap := locked tk [a] (heap f), fuse_mem := m\<rparr>"
      have pl: "place ?f = place f"
        by (auto simp: place_def locked_def fun_eq_iff option.map_comp comp_def)
      have eq: "path_loop tk f b s a = path_loop tk ?f b' s' p'"
      proof (cases "tk = 0")
        case True
        then show ?thesis using n r rm bs up.hyps(2) by (subst path_loop.simps) simp
      next
        case tk: False
        have "?f = upd_node a (\<lambda>n. n\<lparr>treelock := treelock n + 1, ticket := 0\<rparr>) (f\<lparr>fuse_mem := m\<rparr>)"
          using tk by (simp add: upd_node_def locked_def fun_eq_iff)
        moreover have "\<not> (treelock n = - 1 \<or> ticket n \<noteq> 0 \<and> ticket n \<noteq> tk)"
          using False tk by (simp add: blocked_def)
        ultimately show ?thesis using tk n r rm bs up.hyps(2) by (subst path_loop.simps) auto
      qed
      have nm: "name_at ?f = name_at f" by (rule name_at_cong [OF pl])
      obtain r' where r': "path_loop tk ?f b' s' p' = Some r'" "loop_post tk ?f as e ?q r'"
        using up.IH [of ?f b' s' ?q] up.prems hb pl nm nma names_ok_cong [OF pl] by auto
      obtain err f' b2 s2 st where rr: "r' = (err, f', b2, s2, st)" by (cases r')
      obtain xs ys m' where post: "as = xs @ ys" "st = hd (ys @ [e])"
        "f' = ?f\<lparr>heap := locked tk xs (heap ?f), fuse_mem := m'\<rparr>" "fuse_mem ?f = [] \<longrightarrow> m' = []"
        "\<forall>x n. tk \<noteq> 0 \<longrightarrow> x \<in> set xs \<longrightarrow> heap ?f x = Some n \<longrightarrow> \<not> blocked tk n"
        "if err = 0 then ys = [] \<and> (\<exists>x. place ?f e = Some (FUSE_ROOT_ID, x)) \<and>
          buf_holds b2 s2 (path_string (name_at ?f) as ?q)
         else if err = - ENOENT then ys = [] \<and> (\<nexists>x. place ?f e = Some (FUSE_ROOT_ID, x))
         else if err = - EAGAIN then tk \<noteq> 0 \<and> ys \<noteq> [] \<and> (\<exists>n. heap ?f (hd ys) = Some n \<and> blocked tk n)
         else err = - ENOMEM \<and> fuse_mem ?f \<noteq> []"
        using r'(2) unfolding rr loop_post_def prod.case by blast
      have h: "heap ?f x = heap f x" if "x \<in> set as" for x using that na by (auto simp: locked_def)
      have lk: "locked tk xs (heap ?f) = locked tk (a # xs) (heap f)"
        using na post(1) by (auto simp: locked_def fun_eq_iff)
      have "loop_post tk f (a # as) e p r'"
        unfolding rr
      proof (rule loop_postI [where xs = "a # xs" and ys = ys and m = m'])
        show "f' = f\<lparr>heap := locked tk (a # xs) (heap f), fuse_mem := m'\<rparr>" using post(3) lk by simp
        show "fuse_mem f = [] \<Longrightarrow> m' = []" using post(4) r rm by (simp add: add_name_post_def)
        show "\<not> blocked tk n'" if "tk \<noteq> 0" "x \<in> set (a # xs)" "heap f x = Some n'" for x n'
          using that post(1,5) h False n by (cases "x = a") auto
        have m0: "fuse_mem ?f \<noteq> [] \<Longrightarrow> fuse_mem f \<noteq> []" using r rm by (auto simp: add_name_post_def)
        have hd: "ys \<noteq> [] \<Longrightarrow> heap ?f (hd ys) = heap f (hd ys)" using h post(1) by simp
        show "if err = 0 then ys = [] \<and> (\<exists>x. place f e = Some (FUSE_ROOT_ID, x)) \<and>
            buf_holds b2 s2 (path_string (name_at f) (a # as) p)
          else if err = - ENOENT then ys = [] \<and> (\<nexists>x. place f e = Some (FUSE_ROOT_ID, x))
          else if err = - EAGAIN then tk \<noteq> 0 \<and> ys \<noteq> [] \<and> (\<exists>n. heap f (hd ys) = Some n \<and> blocked tk n)
          else err = - ENOMEM \<and> fuse_mem f \<noteq> []"
          using post(6) hd m0 unfolding nm pl path_string_simps nma by (auto split: if_splits)
      qed (use post(1,2) in simp_all)
      then show ?thesis using r'(1) eq by auto
    qed
  qed
qed

subsection \<open>What \<open>try_get_path\<close> does\<close>

text \<open>Two heaps that differ in tickets only.\<close>

definition same_but_tickets :: "(addr \<Rightarrow> node option) \<Rightarrow> (addr \<Rightarrow> node option) \<Rightarrow> bool" where
  "same_but_tickets h h' \<longleftrightarrow> (\<forall>b. map_option (ticket_update (\<lambda>_. 0)) (h b) = map_option (ticket_update (\<lambda>_. 0)) (h' b))"

lemma same_but_tickets_refl [simp]: "same_but_tickets h h"
  by (simp add: same_but_tickets_def)

lemma same_but_tickets_trans: "same_but_tickets h h' \<Longrightarrow> same_but_tickets h' h'' \<Longrightarrow> same_but_tickets h h''"
  by (simp add: same_but_tickets_def)

text \<open>Locking part of the way and unlocking it again leaves at most tickets behind.\<close>

lemma unlocked_locked:
  "tk \<noteq> 0 \<Longrightarrow> same_but_tickets (unlocked tk' xs (locked tk xs h)) h"
  by (auto simp: same_but_tickets_def unlocked_def locked_def option.map_comp comp_def)

definition wlocked :: "addr option \<Rightarrow> (addr \<Rightarrow> node option) \<Rightarrow> addr \<Rightarrow> node option" where
  "wlocked w h = (case w of None \<Rightarrow> h | Some b \<Rightarrow> h(b := map_option (\<lambda>n. n\<lparr>treelock := - 1, ticket := 0\<rparr>) (h b)))"

lemma wlocked_None [simp]: "wlocked None h = h"
  by (simp add: wlocked_def)

text \<open>A well-formed state of the locks: no count is below \<open>-1\<close>, the value of a write lock.\<close>

definition locks_sane :: "fuse \<Rightarrow> bool" where
  "locks_sane f \<longleftrightarrow> (\<forall>a n. heap f a = Some n \<longrightarrow> - 1 \<le> treelock n)"

definition last_blocked :: "int \<Rightarrow> node \<Rightarrow> bool" where
  "last_blocked tk n \<longleftrightarrow> treelock n \<noteq> 0 \<or> ticket n \<noteq> 0 \<and> ticket n \<noteq> tk"

text \<open>The name to add and the node it names, when the last component is locked too.\<close>

definition wnode_of :: "fuse \<Rightarrow> fuse_ino_t \<Rightarrow> cstring option \<Rightarrow> bool \<Rightarrow> addr option" where
  "wnode_of f i name wr = (if wr then Option.bind name (lookup_node f i) else None)"

definition path_of :: "fuse \<Rightarrow> addr list \<Rightarrow> cstring option \<Rightarrow> cstring" where
  "path_of f as name =
     (let p = path_string (name_at f) as (case name of None \<Rightarrow> [] | Some nm \<Rightarrow> ''/'' @ nm)
      in if p = [] then ''/'' else p)"

text \<open>When \<open>try_get_path\<close> fails with which error.\<close>

definition try_fails ::
  "fuse \<Rightarrow> fuse_ino_t \<Rightarrow> cstring option \<Rightarrow> bool \<Rightarrow> int \<Rightarrow> addr list \<Rightarrow> addr \<Rightarrow> int \<Rightarrow> bool" where
  "try_fails f i name wr tk as e err \<longleftrightarrow>
     (if err = - ENOENT then \<nexists>x. place f e = Some (FUSE_ROOT_ID, x)
      else if err = - EAGAIN then tk \<noteq> 0 \<and>
        ((\<exists>x n. x \<in> set as \<and> heap f x = Some n \<and> blocked tk n) \<or>
         (\<exists>w n. wnode_of f i name wr = Some w \<and> heap f w = Some n \<and> last_blocked tk n))
      else err = - ENOMEM \<and> fuse_mem f \<noteq> [])"

definition try_post ::
  "fuse \<Rightarrow> fuse_ino_t \<Rightarrow> cstring option \<Rightarrow> bool \<Rightarrow> int \<Rightarrow> addr list \<Rightarrow> addr \<Rightarrow> path_result \<times> fuse \<Rightarrow> bool" where
  "try_post f i name wr tk as e rf \<longleftrightarrow> (case rf of (r, f') \<Rightarrow>
     (\<exists>h m. f' = f\<lparr>heap := h, fuse_mem := m\<rparr> \<and> (fuse_mem f = [] \<longrightarrow> m = []) \<and>
       (if pr_err r = 0
        then (\<exists>x. place f e = Some (FUSE_ROOT_ID, x)) \<and> pr_path r = Some (path_of f as name) \<and>
          pr_wnode r = wnode_of f i name wr \<and> h = locked tk as (wlocked (wnode_of f i name wr) (heap f)) \<and>
          (\<forall>x n. tk \<noteq> 0 \<longrightarrow> x \<in> set as \<longrightarrow> heap f x = Some n \<longrightarrow> \<not> blocked tk n) \<and>
          (\<forall>w n. wnode_of f i name wr = Some w \<longrightarrow> heap f w = Some n \<longrightarrow> \<not> last_blocked tk n)
        else pr_path r = None \<and> same_but_tickets h (heap f) \<and>
          try_fails f i name wr tk as e (pr_err r))))"

lemma lock_wnode_cases:
  assumes inv: "node_inv D f" and wr: "wr \<longrightarrow> tk \<noteq> 0 \<and> name \<noteq> None"
  obtains (free) "(if wr then Option.bind name (\<lambda>nm. lock_wnode f i nm tk) else Some (0, None, f)) =
      Some (0, wnode_of f i name wr, f\<lparr>heap := wlocked (wnode_of f i name wr) (heap f)\<rparr>)"
    "\<And>w n. wnode_of f i name wr = Some w \<Longrightarrow> heap f w = Some n \<Longrightarrow> \<not> last_blocked tk n"
  | (busy) h w n where "(if wr then Option.bind name (\<lambda>nm. lock_wnode f i nm tk) else Some (0, None, f)) =
      Some (- EAGAIN, None, f\<lparr>heap := h\<rparr>)" "same_but_tickets h (heap f)" "tk \<noteq> 0"
    "wnode_of f i name wr = Some w" "heap f w = Some n" "last_blocked tk n"
proof (cases "wnode_of f i name wr")
  case None
  show ?thesis
  proof (rule free)
    show "(if wr then Option.bind name (\<lambda>nm. lock_wnode f i nm tk) else Some (0, None, f)) =
      Some (0, wnode_of f i name wr, f\<lparr>heap := wlocked (wnode_of f i name wr) (heap f)\<rparr>)"
      using None wr by (auto simp: wnode_of_def lock_wnode_def split: if_splits)
  qed (use None in simp)
next
  case (Some w)
  then obtain nm where nm: "wr" "name = Some nm" "lookup_node f i nm = Some w" "tk \<noteq> 0"
    using wr by (cases name) (auto simp: wnode_of_def split: if_splits)
  obtain n where n: "heap f w = Some n" by (rule lookup_node_heap [OF inv nm(3)])
  show ?thesis
  proof (cases "last_blocked tk n")
    case True
    let ?h = "if ticket n = 0 then (heap f)(w := Some (n\<lparr>ticket := tk\<rparr>)) else heap f"
    have "lock_wnode f i nm tk = Some (- EAGAIN, None, f\<lparr>heap := ?h\<rparr>)"
      using nm n True by (auto simp: lock_wnode_def last_blocked_def upd_node_def)
    moreover have "same_but_tickets ?h (heap f)" using n by (simp add: same_but_tickets_def)
    ultimately show ?thesis using busy [of ?h w n] nm n Some True by simp
  next
    case False
    then have "lock_wnode f i nm tk = Some (0, Some w, f\<lparr>heap := wlocked (Some w) (heap f)\<rparr>)"
      using nm n by (auto simp: lock_wnode_def last_blocked_def upd_node_def wlocked_def)
    then show ?thesis using nm n Some False by (intro free) auto
  qed
qed

lemma get_node_cong:
  assumes "place f' = place f" "id_table f' = id_table f" "id_table_size f' = id_table_size f"
  shows "get_node f' i = get_node f i"
proof -
  have "(case heap f' a of Some n \<Rightarrow> nodeid n = i | None \<Rightarrow> False) =
      (case heap f a of Some n \<Rightarrow> nodeid n = i | None \<Rightarrow> False)" for a
    using fun_cong [OF assms(1), of a] by (auto simp: place_def split: option.splits)
  then show ?thesis using assms(2,3) by (simp add: get_node_def get_node_nocheck_def id_hash_def)
qed

lemma lookup_node_mem [simp]: "lookup_node (f\<lparr>fuse_mem := m\<rparr>) i nm = lookup_node f i nm"
  unfolding lookup_node_def lookup_node_test by simp

lemma path_mem [simp]:
  "wnode_of (f\<lparr>fuse_mem := m\<rparr>) i name wr = wnode_of f i name wr"
  "name_at (f\<lparr>fuse_mem := m\<rparr>) = name_at f" "names_ok (f\<lparr>fuse_mem := m\<rparr>) = names_ok f"
  by (auto simp: wnode_of_def name_at_def names_ok_def fun_eq_iff split: option.splits bind_splits)

lemma place_locked: "map_option (\<lambda>n. (nodeid n, parent n, node_name n)) (locked tk as h a) =
    map_option (\<lambda>n. (nodeid n, parent n, node_name n)) (h a)"
  by (simp add: locked_def option.map_comp comp_def)

lemma place_wlocked: "map_option (\<lambda>n. (nodeid n, parent n, node_name n)) (wlocked w h a) =
    map_option (\<lambda>n. (nodeid n, parent n, node_name n)) (h a)"
  by (auto simp: wlocked_def option.map_comp comp_def split: option.splits)

text \<open>Backing out of a partly locked path.\<close>

lemma unlock_path_back:
  assumes w: "walk (place f) a (xs @ ys) e" and ok: "acyclic (parent_rel (place f))"
    and g: "get_node f i = Some a" and tk: "tk \<noteq> 0"
    and xs: "\<And>b n. b \<in> set xs \<Longrightarrow> heap f b = Some n \<Longrightarrow> 0 \<le> treelock n"
    and wn: "\<And>b. wn = Some b \<Longrightarrow> b \<notin> set xs \<and> (\<exists>n. heap f b = Some n \<and> treelock n = 0)"
    and stop: "stop = Some (hd (ys @ [e])) \<or> stop = None \<and> ys = [] \<and> (\<exists>x. place f e = Some (FUSE_ROOT_ID, x))"
    and fl: "fl = f\<lparr>heap := locked tk xs (wlocked wn (heap f)), fuse_mem := m\<rparr>"
  shows "\<exists>h. unlock_path fl i wn stop tk' = Some (fl\<lparr>heap := h\<rparr>) \<and> same_but_tickets h (heap f)"
proof -
  let ?ul = "\<lambda>n. n\<lparr>treelock := 0, ticket := (if ticket n = 0 then tk' else ticket n)\<rparr>"
  let ?h = "case wn of None \<Rightarrow> heap fl | Some b \<Rightarrow> (heap fl)(b := map_option ?ul (heap fl b))"
  let ?f = "fl\<lparr>heap := ?h\<rparr>"
  have unl: "(case wn of None \<Rightarrow> Some fl
       | Some w \<Rightarrow> Option.bind (heap fl w) (\<lambda>n. if treelock n = - 1 then Some (upd_node w ?ul fl) else None)) = Some ?f"
  proof (cases wn)
    case (Some b)
    then obtain n where "b \<notin> set xs" "heap f b = Some n" using wn by blast
    then show ?thesis using Some by (simp add: fl locked_def wlocked_def upd_node_def)
  qed simp
  have pl: "place ?f = place f"
    by (cases wn) (auto simp: fl place_def fun_eq_iff place_locked place_wlocked option.map_comp comp_def)
  have pos: "0 < treelock n" if "b \<in> set xs" "heap ?f b = Some n" for b n
    using that wn xs tk by (cases wn) (auto simp: fl locked_def wlocked_def split: if_splits)
  have "unlock_loop ?f (Some a) stop tk' = Some (?f\<lparr>heap := unlocked tk' xs ?h\<rparr>)"
    using unlock_loop_walk [OF w pl ok pos stop, where tk = tk'] by simp
  moreover have "get_node ?f i = Some a" using g get_node_cong [OF pl] by (simp add: fl)
  ultimately have "unlock_path fl i wn stop tk' = Some (fl\<lparr>heap := unlocked tk' xs ?h\<rparr>)"
    using unl by (simp add: unlock_path_def)
  moreover have "same_but_tickets (unlocked tk' xs ?h) (heap f)"
  proof (cases wn)
    case None
    then show ?thesis using unlocked_locked [OF tk] by (simp add: fl)
  next
    case (Some b)
    then obtain n where "b \<notin> set xs" "heap f b = Some n" "treelock n = 0" using wn by blast
    then show ?thesis using Some tk
      by (auto simp: same_but_tickets_def fl unlocked_def locked_def wlocked_def option.map_comp comp_def)
  qed
  ultimately show ?thesis by blast
qed

abbreviation (input) name_part :: "cstring option \<Rightarrow> cstring" where
  "name_part name \<equiv> (case name of None \<Rightarrow> [] | Some nm \<Rightarrow> ''/'' @ nm)"

lemma wnode_notin:
  assumes inv: "node_inv D f" and g: "get_node f i = Some a" and w: "walk (place f) a as e"
    and wn: "wnode_of f i name wr = Some b"
  shows "b \<notin> set as"
proof
  assume b: "b \<in> set as"
  obtain nm where "lookup_node f i nm = Some b" using wn by (auto simp: wnode_of_def bind_eq_Some_conv split: if_splits)
  then obtain p x where p: "place f p = Some (i, x)" "edge (place f) b p nm"
    using lookup_node_iff [OF inv] unfolding is_child_def by blast
  obtain n where "heap f a = Some n" "nodeid n = i"
    using g get_node_nocheck_iff [OF inv] by (auto simp: get_node_def)
  then have "place f a = Some (i, parent n, node_name n)" by (simp add: place_def)
  then have "p = a" using tree_okD(3) [OF node_invD(1) [OF inv]] p(1) by blast
  then have "(b, a) \<in> parent_rel (place f)" using p(2) by (auto simp: parent_rel_def edge_def)
  moreover have "(a, b) \<in> (parent_rel (place f))\<^sup>*" by (rule walk_reach [OF w b])
  ultimately show False using tree_okD(8) [OF node_invD(1) [OF inv]] by (meson acyclic_def rtrancl_into_trancl2)
qed

lemma try_postI_fail:
  assumes "f' = f\<lparr>heap := h, fuse_mem := m\<rparr>" "fuse_mem f = [] \<Longrightarrow> m = []" "same_but_tickets h (heap f)"
    and err: "try_fails f i name wr tk as e err"
  shows "try_post f i name wr tk as e (\<lparr>pr_err = err, pr_path = None, pr_wnode = None\<rparr>, f')"
proof -
  have "err \<noteq> 0" using err by (rule contrapos_pn) (simp add: try_fails_def)
  then show ?thesis
    unfolding try_post_def prod.case using assms by (intro exI [of _ h] exI [of _ m]) simp
qed

lemma try_postI_ok:
  assumes "f' = f\<lparr>heap := locked tk as (wlocked (wnode_of f i name wr) (heap f)), fuse_mem := m\<rparr>"
    "fuse_mem f = [] \<Longrightarrow> m = []" "\<exists>x. place f e = Some (FUSE_ROOT_ID, x)"
    "\<And>x n. tk \<noteq> 0 \<Longrightarrow> x \<in> set as \<Longrightarrow> heap f x = Some n \<Longrightarrow> \<not> blocked tk n"
    "\<And>w n. wnode_of f i name wr = Some w \<Longrightarrow> heap f w = Some n \<Longrightarrow> \<not> last_blocked tk n"
  shows "try_post f i name wr tk as e
    (\<lparr>pr_err = 0, pr_path = Some (path_of f as name), pr_wnode = wnode_of f i name wr\<rparr>, f')"
  unfolding try_post_def prod.case path_result.simps simp_thms if_True using assms by blast

lemma first_name_ok:
  assumes nm: "\<And>n. name = Some n \<Longrightarrow> NUL \<notin> set n" and len: "length (name_part name) < 0xffffffff"
  shows "\<exists>r m. (case name of None \<Rightarrow> Some (Inr (replicate 256 NUL, 255), m1)
      | Some nm \<Rightarrow> add_name (replicate 256 NUL) 255 nm m1) = Some (r, m) \<and>
    (m1 = [] \<longrightarrow> m = []) \<and> (case r of Inl _ \<Rightarrow> m1 \<noteq> [] | Inr (b', s') \<Rightarrow> buf_holds b' s' (name_part name))"
proof -
  have b0: "buf_holds (replicate 256 NUL) 255 []" by (simp add: buf_holds_def)
  show ?thesis
  proof (cases name)
    case None
    then show ?thesis using b0 by simp
  next
    case (Some n)
    have "length ([]::char list) + length n + 2 \<le> 0xffffffff" using len Some by simp
    then obtain r where "add_name (replicate 256 NUL) 255 n m1 = Some r"
      "add_name_post (replicate 256 NUL) 255 (''/'' @ n @ []) m1 r"
      using add_name_ok [OF b0 nm [OF Some], of m1] by blast
    then show ?thesis using Some by (cases r) (auto simp: add_name_post_def split: sum.splits)
  qed
qed

lemma try_get_path_spec:
  assumes inv: "node_inv D f" and ok: "names_ok f" "locks_sane f" and nm: "\<And>n. name = Some n \<Longrightarrow> NUL \<notin> set n"
    and g: "get_node f i = Some a" and w: "walk (place f) a as e"
    and wr: "wr \<longrightarrow> tk \<noteq> 0 \<and> name \<noteq> None"
    and len: "length (path_string (name_at f) as (name_part name)) < 0xffffffff"
  shows "\<exists>rf. try_get_path f i name wr tk = Some rf \<and> try_post f i name wr tk as e rf"
proof (cases f rule: malloc_ok_cases)
  case (fail m)
  have "try_get_path f i name wr tk = Some (\<lparr>pr_err = - ENOMEM, pr_path = None, pr_wnode = None\<rparr>, f\<lparr>fuse_mem := m\<rparr>)"
    using fail(1) by (simp add: try_get_path_def Let_def)
  moreover have "try_post f i name wr tk as e (\<lparr>pr_err = - ENOMEM, pr_path = None, pr_wnode = None\<rparr>, f\<lparr>fuse_mem := m\<rparr>)"
    by (rule try_postI_fail [where h = "heap f" and m = m]) (use fail(2) in \<open>auto simp: try_fails_def\<close>)
  ultimately show ?thesis by blast
next
  case (ok m1)
  note ac = tree_okD(8) [OF node_invD(1) [OF inv]]
  have "length (name_part name) < 0xffffffff" using path_string_length len by (rule le_less_trans)
  from first_name_ok [OF nm this, of m1] obtain r m where r: "(case name of None \<Rightarrow> Some (Inr (replicate 256 NUL, 255), m1)
      | Some nm \<Rightarrow> add_name (replicate 256 NUL) 255 nm m1) = Some (r, m)"
    "(m1 = [] \<longrightarrow> m = []) \<and> (case r of Inl _ \<Rightarrow> m1 \<noteq> [] | Inr (b', s') \<Rightarrow> buf_holds b' s' (name_part name))"
    by blast
  let ?fm = "f\<lparr>fuse_mem := m\<rparr>"
  have m0: "fuse_mem f = [] \<Longrightarrow> m = []" "m \<noteq> [] \<Longrightarrow> fuse_mem f \<noteq> []" using r(2) ok(2) by auto
  let ?rest = "\<lambda>b s. Option.bind (if wr then Option.bind name (\<lambda>nm. lock_wnode ?fm i nm tk) else Some (0, None, ?fm))
     (\<lambda>(err, wnode, f). if err \<noteq> 0 then Some (\<lparr>pr_err = err, pr_path = None, pr_wnode = None\<rparr>, f)
      else do {
             a \<leftarrow> get_node f i;
             (err, f, buf, s, stop) \<leftarrow> path_loop tk f b s a;
             if err = 0
             then Some (\<lparr>pr_err = 0, pr_path = Some (if cstr_at buf s \<noteq> [] then cstr_at buf s else ''/''),
                        pr_wnode = wnode\<rparr>, f)
             else do {
               f \<leftarrow> (if tk \<noteq> 0 then unlock_path f i wnode (Some stop) tk else Some f);
               Some (\<lparr>pr_err = err, pr_path = None, pr_wnode = None\<rparr>, f)
             }})"
  have tg: "try_get_path f i name wr tk = (case r of
      Inl _ \<Rightarrow> Some (\<lparr>pr_err = - ENOMEM, pr_path = None, pr_wnode = None\<rparr>, ?fm)
    | Inr (b, s) \<Rightarrow> ?rest b s)"
    using ok(1) r(1)
    by (cases r) (auto simp: try_get_path_def Let_def cong: option.case_cong if_cong)
  show ?thesis
  proof (cases r)
    case (Inl u)
    then have "try_get_path f i name wr tk = Some (\<lparr>pr_err = - ENOMEM, pr_path = None, pr_wnode = None\<rparr>, ?fm)"
      using tg by simp
    moreover have "try_post f i name wr tk as e (\<lparr>pr_err = - ENOMEM, pr_path = None, pr_wnode = None\<rparr>, ?fm)"
      by (rule try_postI_fail [where h = "heap f" and m = m]) (use Inl r(2) ok(2) in \<open>auto simp: try_fails_def\<close>)
    ultimately show ?thesis by blast
  next
    case (Inr bs)
    obtain b s where bs: "bs = (b, s)" by (cases bs)
    have hb: "buf_holds b s (name_part name)" using r(2) Inr bs by simp
    have tg': "try_get_path f i name wr tk = ?rest b s" using tg Inr bs by simp
    have invm: "node_inv D ?fm" using inv by simp
    show ?thesis
    proof (rule lock_wnode_cases [OF invm wr])
      fix h w n assume L: "(if wr then Option.bind name (\<lambda>nm. lock_wnode ?fm i nm tk) else Some (0, None, ?fm)) =
          Some (- EAGAIN, None, ?fm\<lparr>heap := h\<rparr>)" "same_but_tickets h (heap ?fm)" "tk \<noteq> 0"
        "wnode_of ?fm i name wr = Some w" "heap ?fm w = Some n" "last_blocked tk n"
      have "try_get_path f i name wr tk = Some (\<lparr>pr_err = - EAGAIN, pr_path = None, pr_wnode = None\<rparr>, ?fm\<lparr>heap := h\<rparr>)"
        unfolding tg' L(1) by simp
      moreover have "try_post f i name wr tk as e (\<lparr>pr_err = - EAGAIN, pr_path = None, pr_wnode = None\<rparr>, ?fm\<lparr>heap := h\<rparr>)"
        by (rule try_postI_fail [where h = h and m = m]) (use L m0 in \<open>auto simp: try_fails_def\<close>)
      ultimately show ?thesis by blast
    next
      let ?w = "wnode_of f i name wr"
      let ?fw = "?fm\<lparr>heap := wlocked ?w (heap f)\<rparr>"
      assume "(if wr then Option.bind name (\<lambda>nm. lock_wnode ?fm i nm tk) else Some (0, None, ?fm)) =
          Some (0, wnode_of ?fm i name wr, ?fm\<lparr>heap := wlocked (wnode_of ?fm i name wr) (heap ?fm)\<rparr>)"
        and nb: "\<And>w n. wnode_of ?fm i name wr = Some w \<Longrightarrow> heap ?fm w = Some n \<Longrightarrow> \<not> last_blocked tk n"
      then have L: "(if wr then Option.bind name (\<lambda>nm. lock_wnode ?fm i nm tk) else Some (0, None, ?fm)) =
          Some (0, ?w, ?fw)" by simp
      have pl: "place ?fw = place f" by (simp add: place_def fun_eq_iff place_wlocked)
      have "get_node ?fw i = Some a" using g get_node_cong [OF pl] by simp
      note tg2 = tg' [unfolded L]
      have nf: "names_ok ?fw" "name_at ?fw = name_at f"
        using assms(2) names_ok_cong [OF pl] name_at_cong [OF pl] by auto
      have "length (path_string (name_at ?fw) as (name_part name)) < 0xffffffff" using len nf(2) by simp
      from path_loop_walk [OF w pl ac nf(1) hb this, where tk = tk] obtain lr where
        lr: "path_loop tk ?fw b s a = Some lr" "loop_post tk ?fw as e (name_part name) lr" by blast
      obtain err f' b' s' st where lre: "lr = (err, f', b', s', st)" by (cases lr)
      obtain xs ys m' where post: "as = xs @ ys" "st = hd (ys @ [e])"
        "f' = ?fw\<lparr>heap := locked tk xs (heap ?fw), fuse_mem := m'\<rparr>" "fuse_mem ?fw = [] \<longrightarrow> m' = []"
        "\<forall>x n. tk \<noteq> 0 \<longrightarrow> x \<in> set xs \<longrightarrow> heap ?fw x = Some n \<longrightarrow> \<not> blocked tk n"
        "if err = 0 then ys = [] \<and> (\<exists>x. place ?fw e = Some (FUSE_ROOT_ID, x)) \<and>
          buf_holds b' s' (path_string (name_at ?fw) as (name_part name))
         else if err = - ENOENT then ys = [] \<and> (\<nexists>x. place ?fw e = Some (FUSE_ROOT_ID, x))
         else if err = - EAGAIN then tk \<noteq> 0 \<and> ys \<noteq> [] \<and> (\<exists>n. heap ?fw (hd ys) = Some n \<and> blocked tk n)
         else err = - ENOMEM \<and> fuse_mem ?fw \<noteq> []"
        using lr(2) unfolding lre loop_post_def prod.case by blast
      have wn: "b \<notin> set as" if "?w = Some b" for b by (rule wnode_notin [OF inv g w that])
      have hw: "heap ?fw x = heap f x" if "x \<in> set as" for x
        using wn that by (cases ?w) (auto simp: wlocked_def)
      have unblocked: "\<not> blocked tk n" if "tk \<noteq> 0" "x \<in> set xs" "heap f x = Some n" for x n
        using post(1,5) that hw by auto
      have gw: "get_node ?fw i = Some a" by fact
      show ?thesis
      proof (cases "err = 0")
        case True
        have root: "\<exists>x. place f e = Some (FUSE_ROOT_ID, x)" and ysn: "ys = []"
          using post(6) True unfolding pl by simp_all
        have cs: "cstr_at b' s' = path_string (name_at f) as (name_part name)"
          using post(6) True nf(2) buf_holds_cstr by simp
        have "try_get_path f i name wr tk = Some (\<lparr>pr_err = 0, pr_path = Some (path_of f as name), pr_wnode = ?w\<rparr>, f')"
          unfolding tg2 using gw lr(1) lre True cs by (simp add: path_of_def)
        moreover have "f' = f\<lparr>heap := locked tk as (wlocked ?w (heap f)), fuse_mem := m'\<rparr>"
          using post(1,3,6) True by simp
        then have "try_post f i name wr tk as e (\<lparr>pr_err = 0, pr_path = Some (path_of f as name), pr_wnode = ?w\<rparr>, f')"
          by (rule try_postI_ok) (use root ysn post(1,4) m0 nb unblocked in auto)
        ultimately show ?thesis by blast
      next
        case False
        have "\<exists>h. (if tk \<noteq> 0 then unlock_path f' i ?w (Some st) tk else Some f') = Some (f'\<lparr>heap := h\<rparr>) \<and>
            same_but_tickets h (heap f)"
        proof (cases "tk = 0")
          case True
          then have "?w = None" using wr by (auto simp: wnode_of_def)
          then have "heap f' = heap f" using post(3) True by simp
          then show ?thesis using True by (intro exI [of _ "heap f"]) (metis fuse.surjective fuse.update_convs(1) same_but_tickets_refl)
        next
          case False
          have "- 1 \<le> treelock n" if "heap f x = Some n" for x n using assms(3) that by (auto simp: locks_sane_def)
          then have pos: "0 \<le> treelock n" if "x \<in> set xs" "heap f x = Some n" for x n
            using unblocked [OF False that] that by (fastforce simp: blocked_def)
          have wn': "b \<notin> set xs \<and> (\<exists>n. heap f b = Some n \<and> treelock n = 0)" if wb: "?w = Some b" for b
          proof -
            obtain nm where "lookup_node f i nm = Some b"
              using wb by (auto simp: wnode_of_def bind_eq_Some_conv split: if_splits)
            then obtain n where n: "heap f b = Some n" using lookup_node_heap [OF inv] by metis
            then have "treelock n = 0" using nb [of b n] wb by (simp add: last_blocked_def)
            then show ?thesis using n wn [OF wb] post(1) by simp
          qed
          have "f' = f\<lparr>heap := locked tk xs (wlocked ?w (heap f)), fuse_mem := m'\<rparr>" using post(3) by simp
          from unlock_path_back [OF w [unfolded post(1)] ac g False pos wn' _ this,
              where stop = "Some st" and tk' = tk]
          show ?thesis using False post(2) by simp
        qed
        then obtain h where h: "(if tk \<noteq> 0 then unlock_path f' i ?w (Some st) tk else Some f') = Some (f'\<lparr>heap := h\<rparr>)"
          "same_but_tickets h (heap f)" by blast
        have "try_get_path f i name wr tk = Some (\<lparr>pr_err = err, pr_path = None, pr_wnode = None\<rparr>, f'\<lparr>heap := h\<rparr>)"
          unfolding tg2 using gw lr(1) lre False h(1) by simp
        moreover have "try_post f i name wr tk as e (\<lparr>pr_err = err, pr_path = None, pr_wnode = None\<rparr>, f'\<lparr>heap := h\<rparr>)"
        proof (rule try_postI_fail [where h = h and m = m'])
          show "f'\<lparr>heap := h\<rparr> = f\<lparr>heap := h, fuse_mem := m'\<rparr>" using post(3) by simp
          show "fuse_mem f = [] \<Longrightarrow> m' = []" using post(4) m0 by simp
          have "ys \<noteq> [] \<Longrightarrow> heap ?fw (hd ys) = heap f (hd ys) \<and> hd ys \<in> set as" using hw post(1) by simp
          then show "try_fails f i name wr tk as e err"
            using post(6) False m0 unfolding try_fails_def pl by (auto split: if_splits)
        qed (rule h(2))
        ultimately show ?thesis by blast
      qed
    qed
  qed
qed

subsection \<open>Properties of path lookup\<close>

text \<open>
  C10: \<open>try_get_path\<close> returns for every live node, whatever is locked. It succeeds exactly with the
  path of the node; it fails with \<open>ENOENT\<close> only if the way up does not reach the root, with
  \<open>EAGAIN\<close> only if a lock or the ticket of another request is in the way, with \<open>ENOMEM\<close> only if
  memory ran out; and after a failure every lock is as before, only tickets may be left.
\<close>

theorem try_get_path_correct:
  assumes "node_inv D f" "names_ok f" "locks_sane f" "\<And>n. name = Some n \<Longrightarrow> NUL \<notin> set n"
    "get_node f i = Some a" "walk (place f) a as e" "wr \<longrightarrow> tk \<noteq> 0 \<and> name \<noteq> None"
    "length (path_string (name_at f) as (name_part name)) < 0xffffffff"
  shows "\<exists>r f'. try_get_path f i name wr tk = Some (r, f') \<and>
    (if pr_err r = 0 then pr_path r = Some (path_of f as name) \<and> pr_wnode r = wnode_of f i name wr
     else pr_path r = None \<and> same_but_tickets (heap f') (heap f) \<and> try_fails f i name wr tk as e (pr_err r))"
proof -
  obtain r f' where "try_get_path f i name wr tk = Some (r, f')" "try_post f i name wr tk as e (r, f')"
    using try_get_path_spec [OF assms] by auto
  then show ?thesis unfolding try_post_def by (intro exI [of _ r] exI [of _ f']) auto
qed

definition quiet :: "fuse \<Rightarrow> bool" where
  "quiet f \<longleftrightarrow> (\<forall>a n. heap f a = Some n \<longrightarrow> treelock n = 0 \<and> ticket n = 0)"

lemma quietD: "quiet f \<Longrightarrow> locks_sane f" "quiet f \<Longrightarrow> heap f a = Some n \<Longrightarrow> \<not> blocked tk n"
  "quiet f \<Longrightarrow> heap f a = Some n \<Longrightarrow> \<not> last_blocked tk n"
  by (auto simp: quiet_def locks_sane_def blocked_def last_blocked_def)

lemma get_ticket_nz: "fst (get_ticket f) \<noteq> 0" and get_ticket_state: "snd (get_ticket f) = f\<lparr>curr_ticket := fst (get_ticket f)\<rparr>"
  by (auto simp: get_ticket_def Let_def int_inc_def)

lemma ticket_upd [simp]:
  "place (f\<lparr>curr_ticket := k\<rparr>) = place f" "name_at (f\<lparr>curr_ticket := k\<rparr>) = name_at f"
  "names_ok (f\<lparr>curr_ticket := k\<rparr>) = names_ok f" "locks_sane (f\<lparr>curr_ticket := k\<rparr>) = locks_sane f"
  "quiet (f\<lparr>curr_ticket := k\<rparr>) = quiet f"
  by (auto simp: place_def name_at_def names_ok_def locks_sane_def quiet_def fun_eq_iff)

lemma ticket_inv [simp]: "node_inv D (f\<lparr>curr_ticket := k\<rparr>) = node_inv D f"
proof -
  have "name_hash (f\<lparr>curr_ticket := k\<rparr>) = name_hash f" "id_hash (f\<lparr>curr_ticket := k\<rparr>) = id_hash f"
    by (rule hash_cong; simp)+
  then show ?thesis by (simp add: node_inv_def ref_inv_def)
qed

text \<open>In a quiet state a path is locked at once, and giving it back undoes the locks.\<close>

lemma try_get_path_quiet:
  assumes inv: "node_inv D f" and ok: "names_ok f" "quiet f" and nm: "\<And>n. name = Some n \<Longrightarrow> NUL \<notin> set n"
    and g: "get_node f i = Some a" and w: "walk (place f) a as e" "place f e = Some (FUSE_ROOT_ID, x)"
    and wr: "wr \<longrightarrow> tk \<noteq> 0 \<and> name \<noteq> None" and mem: "fuse_mem f = []"
    and len: "length (path_string (name_at f) as (name_part name)) < 0xffffffff"
  shows "try_get_path f i name wr tk =
    Some (\<lparr>pr_err = 0, pr_path = Some (path_of f as name), pr_wnode = wnode_of f i name wr\<rparr>,
          f\<lparr>heap := locked tk as (wlocked (wnode_of f i name wr) (heap f))\<rparr>)"
proof -
  obtain r f' where r: "try_get_path f i name wr tk = Some (r, f')" "try_post f i name wr tk as e (r, f')"
    using try_get_path_spec [OF inv ok(1) quietD(1) [OF ok(2)] nm g w(1) wr len] by auto
  have "\<not> try_fails f i name wr tk as e err" if "err \<noteq> 0" for err
    using w(2) quietD(2,3) [OF ok(2)] mem unfolding try_fails_def by (auto split: if_splits)
  then have "pr_err r = 0" using r(2) unfolding try_post_def by (auto split: if_splits)
  then show ?thesis using r mem unfolding try_post_def
    by (cases r) (auto simp: fuse.surjective)
qed

lemma ticket_lookup [simp]:
  "lookup_node (f\<lparr>curr_ticket := k\<rparr>) i nm = lookup_node f i nm"
  "get_node (f\<lparr>curr_ticket := k\<rparr>) i = get_node f i"
proof -
  have "name_hash (f\<lparr>curr_ticket := k\<rparr>) = name_hash f" by (rule hash_cong) simp
  then show "lookup_node (f\<lparr>curr_ticket := k\<rparr>) i nm = lookup_node f i nm"
    unfolding lookup_node_def lookup_node_test by simp
  show "get_node (f\<lparr>curr_ticket := k\<rparr>) i = get_node f i" by (rule get_node_cong) simp_all
qed

text \<open>
  C24: when no path is locked, \<open>get_path\<close> does not wait: it returns the names from the root to the
  node, joined with slashes (\<open>/\<close> for the root itself), with every node on the way locked once; and
  \<open>free_path\<close> then returns and leaves every lock as it was.
\<close>

theorem get_path_round_trip:
  assumes inv: "node_inv D f" and ok: "names_ok f" "quiet f" and g: "get_node f i = Some a"
    and w: "walk (place f) a as e" "place f e = Some (FUSE_ROOT_ID, x)"
    and mem: "fuse_mem f = []" and len: "length (path_string (name_at f) as []) < 0xffffffff"
  shows "\<exists>tk f' h. tk \<noteq> 0 \<and>
    get_path wait qe f i = Some (\<lparr>pr_err = 0, pr_path = Some (path_of f as None), pr_wnode = None\<rparr>, f') \<and>
    heap f' = locked tk as (heap f) \<and>
    free_path f' i (Some (path_of f as None)) = Some (wake_up_first (f'\<lparr>heap := h\<rparr>)) \<and> same_but_tickets h (heap f)"
proof -
  define tk where "tk = fst (get_ticket f)"
  have tk: "tk \<noteq> 0" "get_ticket f = (tk, f\<lparr>curr_ticket := tk\<rparr>)"
    using get_ticket_nz [of f] get_ticket_state [of f] by (simp_all add: tk_def prod_eq_iff)
  let ?f = "f\<lparr>curr_ticket := tk\<rparr>"
  let ?r = "\<lparr>pr_err = 0, pr_path = Some (path_of f as None), pr_wnode = None\<rparr>"
  let ?fl = "?f\<lparr>heap := locked tk as (heap f)\<rparr>"
  have "try_get_path ?f i None False tk = Some (\<lparr>pr_err = 0, pr_path = Some (path_of ?f as None),
      pr_wnode = wnode_of ?f i None False\<rparr>, ?f\<lparr>heap := locked tk as (wlocked (wnode_of ?f i None False) (heap ?f))\<rparr>)"
    by (rule try_get_path_quiet [where a = a and e = e and x = x]) (use assms in auto)
  then have "try_get_path ?f i None False tk = Some (?r, ?fl)" by (simp add: wnode_of_def path_of_def)
  then have gp: "get_path wait qe f i = Some (?r, ?fl)"
    using tk by (simp add: get_path_def get_path_common_def)
  have "\<exists>h. unlock_path ?fl i None None 0 = Some (?fl\<lparr>heap := h\<rparr>) \<and> same_but_tickets h (heap ?f)"
  proof (rule unlock_path_back [where f = ?f and a = a and xs = as and ys = "[]" and e = e and tk = tk and m = "[]"])
    show "walk (place ?f) a (as @ []) e" "get_node ?f i = Some a" using w g by simp_all
    show "acyclic (parent_rel (place ?f))" using tree_okD(8) [OF node_invD(1) [OF inv]] by simp
    show "0 \<le> treelock n" if "heap ?f b = Some n" for b n using ok(2) that by (auto simp: quiet_def)
    show "None = Some (hd ([] @ [e])) \<or> None = None \<and> [] = [] \<and> (\<exists>x. place ?f e = Some (FUSE_ROOT_ID, x))"
      using w(2) by auto
    show "?fl = ?f\<lparr>heap := locked tk as (wlocked None (heap ?f)), fuse_mem := []\<rparr>" using mem by simp
  qed (use tk in simp_all)
  then obtain h where "unlock_path ?fl i None None 0 = Some (?fl\<lparr>heap := h\<rparr>)" "same_but_tickets h (heap f)" by auto
  then show ?thesis using tk(1) gp
    by (intro exI [of _ tk] exI [of _ ?fl] exI [of _ h]) (simp add: free_path_def free_path_wrlock_def)
qed

text \<open>Locking keeps the invariant of the node cache: only named nodes are locked.\<close>

lemma locked_inv:
  assumes inv: "node_inv0 f" and as: "walk (place f) a as e" and wn: "wn = wnode_of f i name wr"
  shows "node_inv0 (f\<lparr>heap := locked tk as (wlocked wn (heap f)), fuse_mem := m\<rparr>)" (is "node_inv0 ?f")
proof -
  have pl: "place ?f = place f" by (simp add: place_def fun_eq_iff place_locked place_wlocked)
  have nz: "nlookup n \<noteq> 0" if "heap f c = Some n" "node_name n \<noteq> None" for c n
    using ref_invD [OF inv that(1)] that(2) by (auto simp: ref_ok_def)
  have nm_as: "node_name n \<noteq> None" if "c \<in> set as" "heap f c = Some n" for c n
    using walk_named [OF as that(1)] that(2) by (auto simp: place_def)
  have nm_w: "node_name n \<noteq> None" if c: "wn = Some c" "heap f c = Some n" for c n
  proof -
    obtain nm where "lookup_node f i nm = Some c"
      using c(1) unfolding wn by (auto simp: wnode_of_def bind_eq_Some_conv split: if_splits)
    then show ?thesis using lookup_node_heap [OF inv] c(2) by (metis option.distinct(1) option.inject)
  qed
  have "ref_inv (\<lambda>_. 0) ?f"
    unfolding ref_inv_def pl
  proof (intro allI impI)
    fix c n assume c: "heap ?f c = Some n"
    then obtain n0 where n0: "heap f c = Some n0" "refctr n = refctr n0" "nlookup n = nlookup n0"
      "node_name n = node_name n0" "nodeid n = nodeid n0" "treelock n = treelock n0 \<or> c \<in> set as \<or> wn = Some c"
      by (auto simp: locked_def wlocked_def split: if_splits option.splits)
    then show "ref_ok (\<lambda>_. 0) c (card (children (place f) c)) n"
      using ref_invD [OF inv n0(1)] nz [OF n0(1)] nm_as [OF _ n0(1)] nm_w [OF _ n0(1)] by (auto simp: ref_ok_def)
  qed
  then show ?thesis using node_invD [OF inv] pl by (simp add: node_inv_def)
qed

lemma wnode_of_True [simp]: "wnode_of f i (Some nm) True = lookup_node f i nm"
  by (simp add: wnode_of_def)

text \<open>
  C25: while a request holds the write lock on a name, every other request for a path through that
  name, and every other request for the write lock on it, is told to wait (\<open>EAGAIN\<close>).
\<close>

theorem write_lock_excludes:
  assumes inv: "node_inv0 f" and ok: "names_ok f" "quiet f" and nm: "NUL \<notin> set nm"
    and g: "get_node f i = Some a" and w: "walk (place f) a as e" "place f e = Some (FUSE_ROOT_ID, x)"
    and tk: "tk \<noteq> 0" and mem: "fuse_mem f = []"
    and len: "length (path_string (name_at f) as (''/'' @ nm)) < 0xffffffff"
    and wn: "lookup_node f i nm = Some b"
    and g2: "get_node f i2 = Some a2" and w2: "walk (place f) a2 as2 e2" "place f e2 = Some (FUSE_ROOT_ID, x2)"
    and nm2: "\<And>n. name2 = Some n \<Longrightarrow> NUL \<notin> set n" and tk2: "tk2 \<noteq> 0"
    and len2: "length (path_string (name_at f) as2 (name_part name2)) < 0xffffffff"
    and through: "b \<in> set as2 \<or> wr2 \<and> name2 \<noteq> None \<and> lookup_node f i2 (the name2) = Some b"
    and wr2: "wr2 \<longrightarrow> name2 \<noteq> None"
  shows "\<exists>r f' r2 f2. try_get_path f i (Some nm) True tk = Some (r, f') \<and> pr_err r = 0 \<and> pr_wnode r = Some b \<and>
    try_get_path f' i2 name2 wr2 tk2 = Some (r2, f2) \<and> pr_err r2 = - EAGAIN"
proof -
  let ?f = "f\<lparr>heap := locked tk as (wlocked (Some b) (heap f))\<rparr>"
  have t1: "try_get_path f i (Some nm) True tk = Some (\<lparr>pr_err = 0, pr_path = Some (path_of f as (Some nm)),
      pr_wnode = Some b\<rparr>, ?f)"
    using try_get_path_quiet [OF inv ok _ g w _ mem, where name = "Some nm" and wr = True and tk = tk] nm tk len wn
    by simp
  have "node_inv0 (f\<lparr>heap := locked tk as (wlocked (Some b) (heap f)), fuse_mem := fuse_mem f\<rparr>)"
    by (rule locked_inv [OF inv w(1), where i = i and name = "Some nm" and wr = True]) (simp add: wn)
  then have inv': "node_inv0 ?f" by simp
  have pl: "place ?f = place f" by (simp add: place_def fun_eq_iff place_locked place_wlocked)
  obtain nb where nb: "heap f b = Some nb" by (rule lookup_node_heap [OF inv wn])
  have "b \<notin> set as" using wnode_notin [OF inv g w(1), of "Some nm" True b] wn by simp
  then have lb: "\<exists>n. heap ?f b = Some n \<and> treelock n = - 1" using nb by (simp add: locked_def wlocked_def)
  have look: "lookup_node ?f j k = lookup_node f j k" for j k
    by (rule lookup_node_cong [OF inv inv']) (simp add: pl del: place_upd)
  have nok: "names_ok ?f" "name_at ?f = name_at f" using ok(1) names_ok_cong [OF pl] name_at_cong [OF pl] by auto
  have sane: "locks_sane ?f"
    using ok(2) unfolding locks_sane_def quiet_def
    by (auto simp: locked_def wlocked_def split: if_splits)
  have g2': "get_node ?f i2 = Some a2" using g2 get_node_cong [OF pl] by simp
  have wr2': "wr2 \<longrightarrow> tk2 \<noteq> 0 \<and> name2 \<noteq> None" using tk2 wr2 by simp
  obtain r2 f2 where r2: "try_get_path ?f i2 name2 wr2 tk2 = Some (r2, f2)"
    "try_post ?f i2 name2 wr2 tk2 as2 e2 (r2, f2)"
    using try_get_path_spec [OF inv' nok(1) sane nm2 g2' w2(1) [folded pl] wr2'] len2 nok(2) by auto
  have "\<not> (\<forall>x n. tk2 \<noteq> 0 \<longrightarrow> x \<in> set as2 \<longrightarrow> heap ?f x = Some n \<longrightarrow> \<not> blocked tk2 n) \<or>
      \<not> (\<forall>w n. wnode_of ?f i2 name2 wr2 = Some w \<longrightarrow> heap ?f w = Some n \<longrightarrow> \<not> last_blocked tk2 n)"
    using through lb tk2 look by (auto simp: wnode_of_def blocked_def last_blocked_def)
  then have "pr_err r2 \<noteq> 0" using r2(2) unfolding try_post_def by auto
  then have tf: "try_fails ?f i2 name2 wr2 tk2 as2 e2 (pr_err r2)" using r2(2) unfolding try_post_def by auto
  have "\<exists>x. place ?f e2 = Some (FUSE_ROOT_ID, x)" using w2(2) unfolding pl by blast
  then have "pr_err r2 = - EAGAIN" using tf mem unfolding try_fails_def by (auto split: if_splits)
  then show ?thesis using t1 r2(1)
    by (intro exI [of _ "\<lparr>pr_err = 0, pr_path = Some (path_of f as (Some nm)), pr_wnode = Some b\<rparr>"]
        exI [of _ ?f] exI [of _ r2] exI [of _ f2]) simp
qed

subsection \<open>The properties on a cache with one file\<close>

lemma demo1_place: "place demo1 = [0 \<mapsto> (1, None, Some ''/''), 1 \<mapsto> (2, Some 0, Some ''a'')]"
  by (auto simp: place_def demo1_def demo_node_def demo_root_def new_node_def fun_eq_iff)

lemma demo1_walk: "walk (place demo1) 0 [] 0" "walk (place demo1) 1 [1] 0"
proof -
  show 0: "walk (place demo1) 0 [] 0" by (rule walk.stop [of _ _ 1 None "Some ''/''"]) (simp_all add: demo1_place)
  show "walk (place demo1) 1 [1] 0"
    by (rule walk.up [of _ _ 2 0 "''a''"]) (use 0 in \<open>simp_all add: demo1_place\<close>)
qed

lemma demo1_path_facts:
  "names_ok demo1" "quiet demo1" "fuse_mem demo1 = []" "get_node demo1 1 = Some 0" "get_node demo1 2 = Some 1"
  "place demo1 0 = Some (FUSE_ROOT_ID, None, Some ''/'')" "name_at demo1 1 = ''a''"
proof -
  show "names_ok demo1" unfolding names_ok_place demo1_place by (simp split: if_splits)
  show "quiet demo1" "fuse_mem demo1 = []" "name_at demo1 1 = ''a''"
    by (auto simp: quiet_def name_at_def demo1_def demo0_def demo_node_def demo_root_def new_node_def split: if_splits)
  show "get_node demo1 1 = Some 0" "get_node demo1 2 = Some 1"
    using get_node_nocheck_iff [OF demo1_inv] demo1_heap by (auto simp: get_node_def demo_root_def)
qed (simp add: demo1_place)

lemma demo1_name [simp]: "name_at demo1 (Suc 0) = ''a''"
  using demo1_path_facts(7) by simp

theorem try_get_path_correct_witness:
  "node_inv0 demo1 \<and> (\<exists>r f'. try_get_path demo1 2 None False 7 = Some (r, f') \<and>
     (pr_err r = 0 \<longrightarrow> pr_path r = Some ''/a''))"
proof -
  have "path_of demo1 [1] None = ''/a''" by (simp add: path_of_def demo1_path_facts)
  then show ?thesis
    using try_get_path_correct [OF demo1_inv demo1_path_facts(1) quietD(1) [OF demo1_path_facts(2)] _
        demo1_path_facts(5) demo1_walk(2), of None False 7] demo1_inv by auto
qed

theorem get_path_round_trip_witness:
  "node_inv0 demo1 \<and> (\<exists>f' f''. get_path no_wait 0 demo1 2 =
     Some (\<lparr>pr_err = 0, pr_path = Some ''/a'', pr_wnode = None\<rparr>, f') \<and> free_path f' 2 (Some ''/a'') = Some f'')"
proof -
  have "path_of demo1 [1] None = ''/a''" by (simp add: path_of_def demo1_path_facts)
  then show ?thesis
    using get_path_round_trip [OF demo1_inv demo1_path_facts(1,2,5) demo1_walk(2) demo1_path_facts(6,3),
        of no_wait 0] demo1_inv by (auto simp: demo1_path_facts)
qed

theorem write_lock_excludes_witness:
  "\<exists>r f' r2 f2. try_get_path demo1 1 (Some ''a'') True 1 = Some (r, f') \<and> pr_err r = 0 \<and> pr_wnode r = Some 1 \<and>
    try_get_path f' 2 None False 2 = Some (r2, f2) \<and> pr_err r2 = - EAGAIN"
  by (rule write_lock_excludes [OF demo1_inv demo1_path_facts(1,2) _ demo1_path_facts(4) demo1_walk(1)
        demo1_path_facts(6) _ demo1_path_facts(3) _ _ demo1_path_facts(5) demo1_walk(2) demo1_path_facts(6)])
    (simp_all add: demo1_path_facts demo1_lookup)

end
