(* ===== verification/Fuse_Fs.thy ===== *)
theory Fuse_Fs
  imports Complex_Main Fuse_Prelude Fuse_Locks Fuse_Node
begin

text \<open>
  The file system below the library (\<open>lib/fuse.c\<close>, \<open>fuse_fs_*\<close> and the compatibility layer): a
  table of operations the user or a stacked module provides, each of which may be missing, and
  the dispatch functions that call them.

  The operations are parameters of the model: functions of the private data that
  \<open>fuse_get_context()->private_data\<close> shows them (\<open>'d\<close>), of their arguments and of the state of the
  world outside the library (\<open>'w\<close>). A buffer or structure an operation fills is passed and
  returned. A pointer to a path may be null. Debug output is left out.
\<close>

subsection \<open>Data\<close>

type_synonym cbuf = "char list"

record stat =
  st_ino :: u64
  st_mode :: u32
  st_nlink :: u64
  st_uid :: u32
  st_gid :: u32
  st_rdev :: u64
  st_size :: off_t
  st_blksize :: int
  st_blocks :: int
  st_atim :: timespec
  st_mtim :: timespec
  st_ctim :: timespec

definition stat0 :: stat where
  "stat0 = \<lparr>st_ino = 0, st_mode = 0, st_nlink = 0, st_uid = 0, st_gid = 0, st_rdev = 0, st_size = 0,
     st_blksize = 0, st_blocks = 0, st_atim = \<lparr>tv_sec = 0, tv_nsec = 0\<rparr>,
     st_mtim = \<lparr>tv_sec = 0, tv_nsec = 0\<rparr>, st_ctim = \<lparr>tv_sec = 0, tv_nsec = 0\<rparr>\<rparr>"

record statvfs =
  f_bsize :: u64
  f_frsize :: u64
  f_blocks :: u64
  f_bfree :: u64
  f_bavail :: u64
  f_files :: u64
  f_ffree :: u64
  f_namemax :: u64

record fuse_file_info =
  fi_flags :: int
  fh_old :: u64
  writepage :: int
  direct_io :: bool
  keep_cache :: bool
  fi_flush :: bool
  nonseekable :: bool
  fh :: u64
  lock_owner :: u64

record fuse_conn_info =
  proto_major :: u32
  proto_minor :: u32
  async_read :: u32
  max_write :: u32
  max_readahead :: u32
  capable :: u32
  want :: u32

text \<open>Structures of older interfaces.\<close>

record fuse_file_info_compat =
  c_flags :: int
  c_fh :: u64
  c_writepage :: int
  c_direct_io :: bool
  c_keep_cache :: bool

record fuse_statfs_compat1 =
  c1_block_size :: int
  c1_blocks :: int
  c1_blocks_free :: int
  c1_files :: int
  c1_files_free :: int
  c1_namelen :: int

record statfs_old =
  old_bsize :: int
  old_blocks :: u64
  old_bfree :: u64
  old_bavail :: u64
  old_files :: u64
  old_ffree :: u64
  old_namelen :: int

text \<open>
  The library casts the table to an older type when \<open>compat\<close> says so: an entry of the table has
  the type of one interface version, and calling it as another version is undefined (\<open>None\<close>).
  A module stacked on such a file system hands that on, so that the entries of the current
  version return an option too.
\<close>

datatype ('d, 'w) open_op =
    Open25 "'d \<Rightarrow> cstring option \<Rightarrow> fuse_file_info \<Rightarrow> 'w \<Rightarrow> (int \<times> fuse_file_info \<times> 'w) option"
  | Open22 "'d \<Rightarrow> cstring option \<Rightarrow> fuse_file_info_compat \<Rightarrow> 'w \<Rightarrow> int \<times> fuse_file_info_compat \<times> 'w"
  | Open2 "'d \<Rightarrow> cstring option \<Rightarrow> int \<Rightarrow> 'w \<Rightarrow> int \<times> 'w"

datatype ('d, 'w) statfs_op =
    Statfs25 "'d \<Rightarrow> cstring option \<Rightarrow> statvfs \<Rightarrow> 'w \<Rightarrow> (int \<times> statvfs \<times> 'w) option"
  | Statfs22 "'d \<Rightarrow> cstring option \<Rightarrow> 'w \<Rightarrow> int \<times> statfs_old \<times> 'w"
  | Statfs1 "'d \<Rightarrow> fuse_statfs_compat1 \<Rightarrow> 'w \<Rightarrow> int \<times> fuse_statfs_compat1 \<times> 'w"

type_synonym 'b fill_dir_t = "'b \<Rightarrow> cstring \<Rightarrow> stat option \<Rightarrow> off_t \<Rightarrow> int \<times> 'b"
type_synonym 'b fuse_dirfil_t = "'b \<Rightarrow> cstring \<Rightarrow> u32 \<Rightarrow> u64 \<Rightarrow> int \<times> 'b"

record ('d, 'b, 'w) fuse_operations =
  op_getattr :: "('d \<Rightarrow> cstring option \<Rightarrow> stat \<Rightarrow> 'w \<Rightarrow> int \<times> stat \<times> 'w) option"
  op_fgetattr :: "('d \<Rightarrow> cstring option \<Rightarrow> stat \<Rightarrow> fuse_file_info \<Rightarrow> 'w \<Rightarrow> int \<times> stat \<times> fuse_file_info \<times> 'w) option"
  op_readlink :: "('d \<Rightarrow> cstring option \<Rightarrow> nat \<Rightarrow> cbuf \<Rightarrow> 'w \<Rightarrow> int \<times> cbuf \<times> 'w) option"
  op_mknod :: "('d \<Rightarrow> cstring option \<Rightarrow> u32 \<Rightarrow> u64 \<Rightarrow> 'w \<Rightarrow> int \<times> 'w) option"
  op_mkdir :: "('d \<Rightarrow> cstring option \<Rightarrow> u32 \<Rightarrow> 'w \<Rightarrow> int \<times> 'w) option"
  op_unlink :: "('d \<Rightarrow> cstring option \<Rightarrow> 'w \<Rightarrow> int \<times> 'w) option"
  op_rmdir :: "('d \<Rightarrow> cstring option \<Rightarrow> 'w \<Rightarrow> int \<times> 'w) option"
  op_chmod :: "('d \<Rightarrow> cstring option \<Rightarrow> u32 \<Rightarrow> 'w \<Rightarrow> int \<times> 'w) option"
  op_chown :: "('d \<Rightarrow> cstring option \<Rightarrow> u32 \<Rightarrow> u32 \<Rightarrow> 'w \<Rightarrow> int \<times> 'w) option"
  op_truncate :: "('d \<Rightarrow> cstring option \<Rightarrow> off_t \<Rightarrow> 'w \<Rightarrow> int \<times> 'w) option"
  op_ftruncate :: "('d \<Rightarrow> cstring option \<Rightarrow> off_t \<Rightarrow> fuse_file_info \<Rightarrow> 'w \<Rightarrow> int \<times> fuse_file_info \<times> 'w) option"
  op_utimens :: "('d \<Rightarrow> cstring option \<Rightarrow> timespec \<Rightarrow> timespec \<Rightarrow> 'w \<Rightarrow> int \<times> 'w) option"
  op_utime :: "('d \<Rightarrow> cstring option \<Rightarrow> int \<Rightarrow> int \<Rightarrow> 'w \<Rightarrow> int \<times> 'w) option"
  op_access :: "('d \<Rightarrow> cstring option \<Rightarrow> int \<Rightarrow> 'w \<Rightarrow> int \<times> 'w) option"
  op_read :: "('d \<Rightarrow> cstring option \<Rightarrow> nat \<Rightarrow> off_t \<Rightarrow> cbuf \<Rightarrow> fuse_file_info \<Rightarrow> 'w \<Rightarrow> int \<times> cbuf \<times> fuse_file_info \<times> 'w) option"
  op_write :: "('d \<Rightarrow> cstring option \<Rightarrow> cbuf \<Rightarrow> nat \<Rightarrow> off_t \<Rightarrow> fuse_file_info \<Rightarrow> 'w \<Rightarrow> int \<times> fuse_file_info \<times> 'w) option"
  op_fsync :: "('d \<Rightarrow> cstring option \<Rightarrow> int \<Rightarrow> fuse_file_info \<Rightarrow> 'w \<Rightarrow> int \<times> fuse_file_info \<times> 'w) option"
  op_fsyncdir :: "('d \<Rightarrow> cstring option \<Rightarrow> int \<Rightarrow> fuse_file_info \<Rightarrow> 'w \<Rightarrow> int \<times> fuse_file_info \<times> 'w) option"
  op_flush :: "('d \<Rightarrow> cstring option \<Rightarrow> fuse_file_info \<Rightarrow> 'w \<Rightarrow> int \<times> fuse_file_info \<times> 'w) option"
  op_releasedir :: "('d \<Rightarrow> cstring option \<Rightarrow> fuse_file_info \<Rightarrow> 'w \<Rightarrow> int \<times> fuse_file_info \<times> 'w) option"
  op_create :: "('d \<Rightarrow> cstring option \<Rightarrow> u32 \<Rightarrow> fuse_file_info \<Rightarrow> 'w \<Rightarrow> int \<times> fuse_file_info \<times> 'w) option"
  op_lock :: "('d \<Rightarrow> cstring option \<Rightarrow> int \<Rightarrow> fuse_file_info \<Rightarrow> flock \<Rightarrow> 'w \<Rightarrow> int \<times> fuse_file_info \<times> flock \<times> 'w) option"
  op_setxattr :: "('d \<Rightarrow> cstring option \<Rightarrow> cstring \<Rightarrow> cbuf \<Rightarrow> nat \<Rightarrow> int \<Rightarrow> 'w \<Rightarrow> int \<times> 'w) option"
  op_getxattr :: "('d \<Rightarrow> cstring option \<Rightarrow> cstring \<Rightarrow> nat \<Rightarrow> cbuf \<Rightarrow> 'w \<Rightarrow> int \<times> cbuf \<times> 'w) option"
  op_listxattr :: "('d \<Rightarrow> cstring option \<Rightarrow> nat \<Rightarrow> cbuf \<Rightarrow> 'w \<Rightarrow> int \<times> cbuf \<times> 'w) option"
  op_removexattr :: "('d \<Rightarrow> cstring option \<Rightarrow> cstring \<Rightarrow> 'w \<Rightarrow> int \<times> 'w) option"
  op_bmap :: "('d \<Rightarrow> cstring option \<Rightarrow> nat \<Rightarrow> u64 \<Rightarrow> 'w \<Rightarrow> int \<times> u64 \<times> 'w) option"
  op_ioctl :: "('d \<Rightarrow> cstring option \<Rightarrow> int \<Rightarrow> u64 \<Rightarrow> u32 \<Rightarrow> fuse_file_info \<Rightarrow> cbuf \<Rightarrow> 'w \<Rightarrow> int \<times> fuse_file_info \<times> cbuf \<times> 'w) option"
  op_poll :: "('d \<Rightarrow> cstring option \<Rightarrow> (u64 option) \<Rightarrow> fuse_file_info \<Rightarrow> u32 \<Rightarrow> 'w \<Rightarrow> int \<times> fuse_file_info \<times> u32 \<times> 'w) option"
  op_symlink :: "('d \<Rightarrow> cstring option \<Rightarrow> cstring option \<Rightarrow> 'w \<Rightarrow> int \<times> 'w) option"
  op_rename :: "('d \<Rightarrow> cstring option \<Rightarrow> cstring option \<Rightarrow> 'w \<Rightarrow> int \<times> 'w) option"
  op_link :: "('d \<Rightarrow> cstring option \<Rightarrow> cstring option \<Rightarrow> 'w \<Rightarrow> int \<times> 'w) option"
  op_open :: "('d, 'w) open_op option"
  op_opendir :: "('d, 'w) open_op option"
  op_release :: "('d, 'w) open_op option"
  op_statfs :: "('d, 'w) statfs_op option"
  op_readdir :: "('d \<Rightarrow> cstring option \<Rightarrow> 'b fill_dir_t \<Rightarrow> off_t \<Rightarrow> 'b \<Rightarrow> fuse_file_info \<Rightarrow> 'w \<Rightarrow>
    int \<times> 'b \<times> fuse_file_info \<times> 'w) option"
  op_getdir :: "('d \<Rightarrow> cstring option \<Rightarrow> 'b fuse_dirfil_t \<Rightarrow> 'b \<Rightarrow> 'w \<Rightarrow> int \<times> 'b \<times> 'w) option"
  op_init :: "('d \<Rightarrow> fuse_conn_info \<Rightarrow> 'w \<Rightarrow> 'd \<times> fuse_conn_info \<times> 'w) option"
  op_destroy :: "('d \<Rightarrow> 'w \<Rightarrow> 'w) option"
  flag_nullpath_ok :: bool

record ('d, 'b, 'w) fuse_fs =
  fs_op :: "('d, 'b, 'w) fuse_operations"
  user_data :: 'd
  compat :: int

subsection \<open>Older interfaces\<close>

text \<open>\<open>memcpy\<close> between the current and the older structure, which is a prefix of it.\<close>

definition to_compat :: "fuse_file_info \<Rightarrow> fuse_file_info_compat" where
  "to_compat fi = \<lparr>c_flags = fi_flags fi, c_fh = fh_old fi, c_writepage = writepage fi,
     c_direct_io = direct_io fi, c_keep_cache = keep_cache fi\<rparr>"

definition from_compat :: "fuse_file_info_compat \<Rightarrow> fuse_file_info \<Rightarrow> fuse_file_info" where
  "from_compat tmp fi = fi\<lparr>fi_flags := c_flags tmp, fh_old := c_fh tmp, writepage := c_writepage tmp,
     direct_io := c_direct_io tmp, keep_cache := c_keep_cache tmp, fh := c_fh tmp\<rparr>"

definition fuse_compat_open ::
  "('d, 'b, 'w) fuse_fs \<Rightarrow> ('d, 'w) open_op \<Rightarrow> cstring option \<Rightarrow> fuse_file_info \<Rightarrow> 'w \<Rightarrow>
     (int \<times> fuse_file_info \<times> 'w) option" where
  "fuse_compat_open fs opn path fi w =
     (if compat fs = 0 \<or> compat fs \<ge> 25
      then (case opn of Open25 g \<Rightarrow> g (user_data fs) path fi w | _ \<Rightarrow> None)
      else if compat fs = 22
      then (case opn of
              Open22 g \<Rightarrow>
                (let (err, tmp, w) = g (user_data fs) path (to_compat fi) w
                 in Some (err, from_compat tmp fi, w))
            | _ \<Rightarrow> None)
      else (case opn of
              Open2 g \<Rightarrow> (let (err, w) = g (user_data fs) path (fi_flags fi) w in Some (err, fi, w))
            | _ \<Rightarrow> None))"

text \<open>From version 2.2 on, \<open>release\<close> takes the structure; the older structure is a prefix of the
  current one, so a 2.2 file system reads and writes the first fields of what it is passed.\<close>

definition fuse_compat_release ::
  "('d, 'b, 'w) fuse_fs \<Rightarrow> ('d, 'w) open_op \<Rightarrow> cstring option \<Rightarrow> fuse_file_info \<Rightarrow> 'w \<Rightarrow>
     (int \<times> fuse_file_info \<times> 'w) option" where
  "fuse_compat_release fs rel path fi w =
     (if compat fs = 0 \<or> compat fs \<ge> 22
      then (case rel of Open25 g \<Rightarrow> g (user_data fs) path fi w | _ \<Rightarrow> None)
      else (case rel of
              Open2 g \<Rightarrow> (let (err, w) = g (user_data fs) path (fi_flags fi) w in Some (err, fi, w))
            | _ \<Rightarrow> None))"

definition fuse_compat_opendir ::
  "('d, 'b, 'w) fuse_fs \<Rightarrow> ('d, 'w) open_op \<Rightarrow> cstring option \<Rightarrow> fuse_file_info \<Rightarrow> 'w \<Rightarrow>
     (int \<times> fuse_file_info \<times> 'w) option" where
  "fuse_compat_opendir fs opn path fi w =
     (if compat fs = 0 \<or> compat fs \<ge> 25
      then (case opn of Open25 g \<Rightarrow> g (user_data fs) path fi w | _ \<Rightarrow> None)
      else (case opn of
              Open22 g \<Rightarrow>
                (let (err, tmp, w) = g (user_data fs) path (to_compat fi) w
                 in Some (err, from_compat tmp fi, w))
            | _ \<Rightarrow> None))"

text \<open>Conversion of a signed or unsigned \<open>long\<close> to a field of \<open>struct statvfs\<close> keeps its 64 bits.\<close>

definition convert_statfs_compat :: "fuse_statfs_compat1 \<Rightarrow> statvfs \<Rightarrow> statvfs" where
  "convert_statfs_compat c stbuf = stbuf\<lparr>
     f_bsize := word_of_int (c1_block_size c), f_blocks := word_of_int (c1_blocks c),
     f_bfree := word_of_int (c1_blocks_free c), f_bavail := word_of_int (c1_blocks_free c),
     f_files := word_of_int (c1_files c), f_ffree := word_of_int (c1_files_free c),
     f_namemax := word_of_int (c1_namelen c)\<rparr>"

definition convert_statfs_old :: "statfs_old \<Rightarrow> statvfs \<Rightarrow> statvfs" where
  "convert_statfs_old old stbuf = stbuf\<lparr>
     f_bsize := word_of_int (old_bsize old), f_blocks := old_blocks old, f_bfree := old_bfree old,
     f_bavail := old_bavail old, f_files := old_files old, f_ffree := old_ffree old,
     f_namemax := word_of_int (old_namelen old)\<rparr>"

definition fuse_compat_statfs ::
  "('d, 'b, 'w) fuse_fs \<Rightarrow> ('d, 'w) statfs_op \<Rightarrow> cstring option \<Rightarrow> statvfs \<Rightarrow> 'w \<Rightarrow>
     (int \<times> statvfs \<times> 'w) option" where
  "fuse_compat_statfs fs sfs path buf w =
     (if compat fs = 0 \<or> compat fs \<ge> 25
      then (case sfs of
              Statfs25 g \<Rightarrow> g (user_data fs) (if compat fs = 25 then Some ''/'' else path) buf w
            | _ \<Rightarrow> None)
      else if compat fs > 11
      then (case sfs of
              Statfs22 g \<Rightarrow>
                (let (err, old, w) = g (user_data fs) (Some ''/'') w
                 in Some (err, if err = 0 then convert_statfs_old old buf else buf, w))
            | _ \<Rightarrow> None)
      else (case sfs of
              Statfs1 g \<Rightarrow>
                (let (err, c, w) = g (user_data fs) \<lparr>c1_block_size = 0, c1_blocks = 0, c1_blocks_free = 0,
                       c1_files = 0, c1_files_free = 0, c1_namelen = 0\<rparr> w
                 in Some (err, if err = 0 then convert_statfs_compat c buf else buf, w))
            | _ \<Rightarrow> None))"

subsection \<open>Dispatch\<close>

definition fuse_fs_getattr :: "('d, 'b, 'w) fuse_fs \<Rightarrow> cstring option \<Rightarrow> stat \<Rightarrow> 'w \<Rightarrow> int \<times> stat \<times> 'w" where
  "fuse_fs_getattr fs path stbuf w =
     (case op_getattr (fs_op fs) of
        Some g \<Rightarrow> g (user_data fs) path stbuf w
      | None \<Rightarrow> (- ENOSYS, stbuf, w))"

definition fuse_fs_fgetattr :: "('d, 'b, 'w) fuse_fs \<Rightarrow> cstring option \<Rightarrow> stat \<Rightarrow> fuse_file_info \<Rightarrow> 'w \<Rightarrow> int \<times> stat \<times> fuse_file_info \<times> 'w" where
  "fuse_fs_fgetattr fs path stbuf fi w =
     (case op_fgetattr (fs_op fs) of
        Some g \<Rightarrow> g (user_data fs) path stbuf fi w
      | None \<Rightarrow>
          (case (path, op_getattr (fs_op fs)) of
             (Some _, Some g) \<Rightarrow>
               (let (err, stbuf, w) = g (user_data fs) path stbuf w in (err, stbuf, fi, w))
           | _ \<Rightarrow> (- ENOSYS, stbuf, fi, w)))"

definition fuse_fs_rename ::
  "('d, 'b, 'w) fuse_fs \<Rightarrow> cstring option \<Rightarrow> cstring option \<Rightarrow> 'w \<Rightarrow> int \<times> 'w" where
  "fuse_fs_rename fs oldpath newpath w =
     (case op_rename (fs_op fs) of Some g \<Rightarrow> g (user_data fs) oldpath newpath w | None \<Rightarrow> (- ENOSYS, w))"

definition fuse_fs_unlink :: "('d, 'b, 'w) fuse_fs \<Rightarrow> cstring option \<Rightarrow> 'w \<Rightarrow> int \<times> 'w" where
  "fuse_fs_unlink fs path w =
     (case op_unlink (fs_op fs) of
        Some g \<Rightarrow> g (user_data fs) path w
      | None \<Rightarrow> (- ENOSYS, w))"

definition fuse_fs_rmdir :: "('d, 'b, 'w) fuse_fs \<Rightarrow> cstring option \<Rightarrow> 'w \<Rightarrow> int \<times> 'w" where
  "fuse_fs_rmdir fs path w =
     (case op_rmdir (fs_op fs) of
        Some g \<Rightarrow> g (user_data fs) path w
      | None \<Rightarrow> (- ENOSYS, w))"

definition fuse_fs_symlink ::
  "('d, 'b, 'w) fuse_fs \<Rightarrow> cstring option \<Rightarrow> cstring option \<Rightarrow> 'w \<Rightarrow> int \<times> 'w" where
  "fuse_fs_symlink fs linkname path w =
     (case op_symlink (fs_op fs) of Some g \<Rightarrow> g (user_data fs) linkname path w | None \<Rightarrow> (- ENOSYS, w))"

definition fuse_fs_link ::
  "('d, 'b, 'w) fuse_fs \<Rightarrow> cstring option \<Rightarrow> cstring option \<Rightarrow> 'w \<Rightarrow> int \<times> 'w" where
  "fuse_fs_link fs oldpath newpath w =
     (case op_link (fs_op fs) of Some g \<Rightarrow> g (user_data fs) oldpath newpath w | None \<Rightarrow> (- ENOSYS, w))"

definition fuse_fs_release ::
  "('d, 'b, 'w) fuse_fs \<Rightarrow> cstring option \<Rightarrow> fuse_file_info \<Rightarrow> 'w \<Rightarrow> (int \<times> fuse_file_info \<times> 'w) option" where
  "fuse_fs_release fs path fi w =
     (case op_release (fs_op fs) of
        Some g \<Rightarrow> fuse_compat_release fs g path fi w
      | None \<Rightarrow> Some (0, fi, w))"

definition fuse_fs_opendir ::
  "('d, 'b, 'w) fuse_fs \<Rightarrow> cstring option \<Rightarrow> fuse_file_info \<Rightarrow> 'w \<Rightarrow> (int \<times> fuse_file_info \<times> 'w) option" where
  "fuse_fs_opendir fs path fi w =
     (case op_opendir (fs_op fs) of
        Some g \<Rightarrow> fuse_compat_opendir fs g path fi w
      | None \<Rightarrow> Some (0, fi, w))"

definition fuse_fs_open ::
  "('d, 'b, 'w) fuse_fs \<Rightarrow> cstring option \<Rightarrow> fuse_file_info \<Rightarrow> 'w \<Rightarrow> (int \<times> fuse_file_info \<times> 'w) option" where
  "fuse_fs_open fs path fi w =
     (case op_open (fs_op fs) of
        Some g \<Rightarrow> fuse_compat_open fs g path fi w
      | None \<Rightarrow> Some (0, fi, w))"

definition fuse_fs_read :: "('d, 'b, 'w) fuse_fs \<Rightarrow> cstring option \<Rightarrow> nat \<Rightarrow> off_t \<Rightarrow> cbuf \<Rightarrow> fuse_file_info \<Rightarrow> 'w \<Rightarrow> int \<times> cbuf \<times> fuse_file_info \<times> 'w" where
  "fuse_fs_read fs path sz off buf fi w =
     (case op_read (fs_op fs) of
        Some g \<Rightarrow> g (user_data fs) path sz off buf fi w
      | None \<Rightarrow> (- ENOSYS, buf, fi, w))"

definition fuse_fs_write :: "('d, 'b, 'w) fuse_fs \<Rightarrow> cstring option \<Rightarrow> cbuf \<Rightarrow> nat \<Rightarrow> off_t \<Rightarrow> fuse_file_info \<Rightarrow> 'w \<Rightarrow> int \<times> fuse_file_info \<times> 'w" where
  "fuse_fs_write fs path buf sz off fi w =
     (case op_write (fs_op fs) of
        Some g \<Rightarrow> g (user_data fs) path buf sz off fi w
      | None \<Rightarrow> (- ENOSYS, fi, w))"

definition fuse_fs_fsync :: "('d, 'b, 'w) fuse_fs \<Rightarrow> cstring option \<Rightarrow> int \<Rightarrow> fuse_file_info \<Rightarrow> 'w \<Rightarrow> int \<times> fuse_file_info \<times> 'w" where
  "fuse_fs_fsync fs path datasync fi w =
     (case op_fsync (fs_op fs) of
        Some g \<Rightarrow> g (user_data fs) path datasync fi w
      | None \<Rightarrow> (- ENOSYS, fi, w))"

definition fuse_fs_fsyncdir :: "('d, 'b, 'w) fuse_fs \<Rightarrow> cstring option \<Rightarrow> int \<Rightarrow> fuse_file_info \<Rightarrow> 'w \<Rightarrow> int \<times> fuse_file_info \<times> 'w" where
  "fuse_fs_fsyncdir fs path datasync fi w =
     (case op_fsyncdir (fs_op fs) of
        Some g \<Rightarrow> g (user_data fs) path datasync fi w
      | None \<Rightarrow> (- ENOSYS, fi, w))"

definition fuse_fs_flush :: "('d, 'b, 'w) fuse_fs \<Rightarrow> cstring option \<Rightarrow> fuse_file_info \<Rightarrow> 'w \<Rightarrow> int \<times> fuse_file_info \<times> 'w" where
  "fuse_fs_flush fs path fi w =
     (case op_flush (fs_op fs) of
        Some g \<Rightarrow> g (user_data fs) path fi w
      | None \<Rightarrow> (- ENOSYS, fi, w))"

definition fuse_fs_statfs ::
  "('d, 'b, 'w) fuse_fs \<Rightarrow> cstring option \<Rightarrow> statvfs \<Rightarrow> 'w \<Rightarrow> (int \<times> statvfs \<times> 'w) option" where
  "fuse_fs_statfs fs path buf w =
     (case op_statfs (fs_op fs) of
        Some g \<Rightarrow> fuse_compat_statfs fs g path buf w
      | None \<Rightarrow> Some (0, buf\<lparr>f_namemax := 255, f_bsize := 512\<rparr>, w))"

definition fuse_fs_releasedir :: "('d, 'b, 'w) fuse_fs \<Rightarrow> cstring option \<Rightarrow> fuse_file_info \<Rightarrow> 'w \<Rightarrow> int \<times> fuse_file_info \<times> 'w" where
  "fuse_fs_releasedir fs path fi w =
     (case op_releasedir (fs_op fs) of
        Some g \<Rightarrow> g (user_data fs) path fi w
      | None \<Rightarrow> (0, fi, w))"

text \<open>The filler of the older \<open>getdir\<close> interface.\<close>

definition fill_dir_old :: "'b fill_dir_t \<Rightarrow> 'b fuse_dirfil_t" where
  "fill_dir_old filler dh name ty ino =
     (let (res, dh) = filler dh name (Some (stat0\<lparr>st_mode := push_bit 12 ty, st_ino := ino\<rparr>)) 0
      in (if res \<noteq> 0 then - ENOMEM else 0, dh))"

definition fuse_fs_readdir ::
  "('d, 'b, 'w) fuse_fs \<Rightarrow> cstring option \<Rightarrow> 'b fill_dir_t \<Rightarrow> off_t \<Rightarrow> 'b \<Rightarrow> fuse_file_info \<Rightarrow> 'w \<Rightarrow>
     int \<times> 'b \<times> fuse_file_info \<times> 'w" where
  "fuse_fs_readdir fs path filler off buf fi w =
     (case op_readdir (fs_op fs) of
        Some g \<Rightarrow> g (user_data fs) path filler off buf fi w
      | None \<Rightarrow>
          (case op_getdir (fs_op fs) of
             Some g \<Rightarrow> (let (err, buf, w) = g (user_data fs) path (fill_dir_old filler) buf w in (err, buf, fi, w))
           | None \<Rightarrow> (- ENOSYS, buf, fi, w)))"

definition fuse_fs_create :: "('d, 'b, 'w) fuse_fs \<Rightarrow> cstring option \<Rightarrow> u32 \<Rightarrow> fuse_file_info \<Rightarrow> 'w \<Rightarrow> int \<times> fuse_file_info \<times> 'w" where
  "fuse_fs_create fs path mode fi w =
     (case op_create (fs_op fs) of
        Some g \<Rightarrow> g (user_data fs) path mode fi w
      | None \<Rightarrow> (- ENOSYS, fi, w))"

definition fuse_fs_lock :: "('d, 'b, 'w) fuse_fs \<Rightarrow> cstring option \<Rightarrow> int \<Rightarrow> fuse_file_info \<Rightarrow> flock \<Rightarrow> 'w \<Rightarrow> int \<times> fuse_file_info \<times> flock \<times> 'w" where
  "fuse_fs_lock fs path cmd fi lck w =
     (case op_lock (fs_op fs) of
        Some g \<Rightarrow> g (user_data fs) path cmd fi lck w
      | None \<Rightarrow> (- ENOSYS, fi, lck, w))"

definition fuse_fs_chown :: "('d, 'b, 'w) fuse_fs \<Rightarrow> cstring option \<Rightarrow> u32 \<Rightarrow> u32 \<Rightarrow> 'w \<Rightarrow> int \<times> 'w" where
  "fuse_fs_chown fs path uid gid w =
     (case op_chown (fs_op fs) of
        Some g \<Rightarrow> g (user_data fs) path uid gid w
      | None \<Rightarrow> (- ENOSYS, w))"

definition fuse_fs_truncate :: "('d, 'b, 'w) fuse_fs \<Rightarrow> cstring option \<Rightarrow> off_t \<Rightarrow> 'w \<Rightarrow> int \<times> 'w" where
  "fuse_fs_truncate fs path sz w =
     (case op_truncate (fs_op fs) of
        Some g \<Rightarrow> g (user_data fs) path sz w
      | None \<Rightarrow> (- ENOSYS, w))"

definition fuse_fs_ftruncate :: "('d, 'b, 'w) fuse_fs \<Rightarrow> cstring option \<Rightarrow> off_t \<Rightarrow> fuse_file_info \<Rightarrow> 'w \<Rightarrow> int \<times> fuse_file_info \<times> 'w" where
  "fuse_fs_ftruncate fs path sz fi w =
     (case op_ftruncate (fs_op fs) of
        Some g \<Rightarrow> g (user_data fs) path sz fi w
      | None \<Rightarrow>
          (case (path, op_truncate (fs_op fs)) of
             (Some _, Some g) \<Rightarrow> (let (err, w) = g (user_data fs) path sz w in (err, fi, w))
           | _ \<Rightarrow> (- ENOSYS, fi, w)))"

definition fuse_fs_utimens :: "('d, 'b, 'w) fuse_fs \<Rightarrow> cstring option \<Rightarrow> timespec \<Rightarrow> timespec \<Rightarrow> 'w \<Rightarrow> int \<times> 'w" where
  "fuse_fs_utimens fs path tv0 tv1 w =
     (case op_utimens (fs_op fs) of
        Some g \<Rightarrow> g (user_data fs) path tv0 tv1 w
      | None \<Rightarrow>
          (case op_utime (fs_op fs) of
             Some g \<Rightarrow> g (user_data fs) path (tv_sec tv0) (tv_sec tv1) w
           | None \<Rightarrow> (- ENOSYS, w)))"

definition fuse_fs_access :: "('d, 'b, 'w) fuse_fs \<Rightarrow> cstring option \<Rightarrow> int \<Rightarrow> 'w \<Rightarrow> int \<times> 'w" where
  "fuse_fs_access fs path msk w =
     (case op_access (fs_op fs) of
        Some g \<Rightarrow> g (user_data fs) path msk w
      | None \<Rightarrow> (- ENOSYS, w))"

definition fuse_fs_readlink :: "('d, 'b, 'w) fuse_fs \<Rightarrow> cstring option \<Rightarrow> nat \<Rightarrow> cbuf \<Rightarrow> 'w \<Rightarrow> int \<times> cbuf \<times> 'w" where
  "fuse_fs_readlink fs path len buf w =
     (case op_readlink (fs_op fs) of
        Some g \<Rightarrow> g (user_data fs) path len buf w
      | None \<Rightarrow> (- ENOSYS, buf, w))"

definition fuse_fs_mknod :: "('d, 'b, 'w) fuse_fs \<Rightarrow> cstring option \<Rightarrow> u32 \<Rightarrow> u64 \<Rightarrow> 'w \<Rightarrow> int \<times> 'w" where
  "fuse_fs_mknod fs path mode rdev w =
     (case op_mknod (fs_op fs) of
        Some g \<Rightarrow> g (user_data fs) path mode rdev w
      | None \<Rightarrow> (- ENOSYS, w))"

definition fuse_fs_mkdir :: "('d, 'b, 'w) fuse_fs \<Rightarrow> cstring option \<Rightarrow> u32 \<Rightarrow> 'w \<Rightarrow> int \<times> 'w" where
  "fuse_fs_mkdir fs path mode w =
     (case op_mkdir (fs_op fs) of
        Some g \<Rightarrow> g (user_data fs) path mode w
      | None \<Rightarrow> (- ENOSYS, w))"

definition fuse_fs_setxattr :: "('d, 'b, 'w) fuse_fs \<Rightarrow> cstring option \<Rightarrow> cstring \<Rightarrow> cbuf \<Rightarrow> nat \<Rightarrow> int \<Rightarrow> 'w \<Rightarrow> int \<times> 'w" where
  "fuse_fs_setxattr fs path name val sz flags w =
     (case op_setxattr (fs_op fs) of
        Some g \<Rightarrow> g (user_data fs) path name val sz flags w
      | None \<Rightarrow> (- ENOSYS, w))"

definition fuse_fs_getxattr :: "('d, 'b, 'w) fuse_fs \<Rightarrow> cstring option \<Rightarrow> cstring \<Rightarrow> nat \<Rightarrow> cbuf \<Rightarrow> 'w \<Rightarrow> int \<times> cbuf \<times> 'w" where
  "fuse_fs_getxattr fs path name sz val w =
     (case op_getxattr (fs_op fs) of
        Some g \<Rightarrow> g (user_data fs) path name sz val w
      | None \<Rightarrow> (- ENOSYS, val, w))"

definition fuse_fs_listxattr :: "('d, 'b, 'w) fuse_fs \<Rightarrow> cstring option \<Rightarrow> nat \<Rightarrow> cbuf \<Rightarrow> 'w \<Rightarrow> int \<times> cbuf \<times> 'w" where
  "fuse_fs_listxattr fs path sz lst w =
     (case op_listxattr (fs_op fs) of
        Some g \<Rightarrow> g (user_data fs) path sz lst w
      | None \<Rightarrow> (- ENOSYS, lst, w))"

definition fuse_fs_bmap :: "('d, 'b, 'w) fuse_fs \<Rightarrow> cstring option \<Rightarrow> nat \<Rightarrow> u64 \<Rightarrow> 'w \<Rightarrow> int \<times> u64 \<times> 'w" where
  "fuse_fs_bmap fs path blocksize idx w =
     (case op_bmap (fs_op fs) of
        Some g \<Rightarrow> g (user_data fs) path blocksize idx w
      | None \<Rightarrow> (- ENOSYS, idx, w))"

definition fuse_fs_removexattr :: "('d, 'b, 'w) fuse_fs \<Rightarrow> cstring option \<Rightarrow> cstring \<Rightarrow> 'w \<Rightarrow> int \<times> 'w" where
  "fuse_fs_removexattr fs path name w =
     (case op_removexattr (fs_op fs) of
        Some g \<Rightarrow> g (user_data fs) path name w
      | None \<Rightarrow> (- ENOSYS, w))"

definition fuse_fs_ioctl :: "('d, 'b, 'w) fuse_fs \<Rightarrow> cstring option \<Rightarrow> int \<Rightarrow> u64 \<Rightarrow> u32 \<Rightarrow> fuse_file_info \<Rightarrow> cbuf \<Rightarrow> 'w \<Rightarrow> int \<times> fuse_file_info \<times> cbuf \<times> 'w" where
  "fuse_fs_ioctl fs path cmd arg flags fi dat w =
     (case op_ioctl (fs_op fs) of
        Some g \<Rightarrow> g (user_data fs) path cmd arg flags fi dat w
      | None \<Rightarrow> (- ENOSYS, fi, dat, w))"

definition fuse_fs_poll :: "('d, 'b, 'w) fuse_fs \<Rightarrow> cstring option \<Rightarrow> (u64 option) \<Rightarrow> fuse_file_info \<Rightarrow> u32 \<Rightarrow> 'w \<Rightarrow> int \<times> fuse_file_info \<times> u32 \<times> 'w" where
  "fuse_fs_poll fs path ph fi revents w =
     (case op_poll (fs_op fs) of
        Some g \<Rightarrow> g (user_data fs) path ph fi revents w
      | None \<Rightarrow> (- ENOSYS, fi, revents, w))"

definition fuse_fs_chmod :: "('d, 'b, 'w) fuse_fs \<Rightarrow> cstring option \<Rightarrow> u32 \<Rightarrow> 'w \<Rightarrow> int \<times> 'w" where
  "fuse_fs_chmod fs path mode w =
     (case op_chmod (fs_op fs) of
        Some g \<Rightarrow> g (user_data fs) path mode w
      | None \<Rightarrow> (- ENOSYS, w))"

definition fuse_fs_init ::
  "('d, 'b, 'w) fuse_fs \<Rightarrow> fuse_conn_info \<Rightarrow> 'w \<Rightarrow> ('d, 'b, 'w) fuse_fs \<times> fuse_conn_info \<times> 'w" where
  "fuse_fs_init fs conn w =
     (case op_init (fs_op fs) of
        Some g \<Rightarrow> (let (d, conn, w) = g (user_data fs) conn w in (fs\<lparr>user_data := d\<rparr>, conn, w))
      | None \<Rightarrow> (fs, conn, w))"

definition fuse_fs_destroy :: "('d, 'b, 'w) fuse_fs \<Rightarrow> 'w \<Rightarrow> 'w" where
  "fuse_fs_destroy fs w = (case op_destroy (fs_op fs) of Some g \<Rightarrow> g (user_data fs) w | None \<Rightarrow> w)"

subsection \<open>A new file system\<close>

text \<open>
  \<open>fuse_fs_new\<close> copies as much of the caller's table as the caller knows of (\<open>op_size\<close> bytes, a
  multiple of the 8 bytes of a pointer) over a zeroed one of 41 slots; slot 38 holds the flags.
\<close>

definition no_operations :: "('d, 'b, 'w) fuse_operations" where
  "no_operations = \<lparr>
     op_getattr = None, op_fgetattr = None, op_readlink = None, op_mknod = None, op_mkdir = None,
     op_unlink = None, op_rmdir = None, op_chmod = None, op_chown = None, op_truncate = None,
     op_ftruncate = None, op_utimens = None, op_utime = None, op_access = None, op_read = None,
     op_write = None, op_fsync = None, op_fsyncdir = None, op_flush = None, op_releasedir = None,
     op_create = None, op_lock = None, op_setxattr = None, op_getxattr = None, op_listxattr = None,
     op_removexattr = None, op_bmap = None, op_ioctl = None, op_poll = None, op_symlink = None,
     op_rename = None, op_link = None, op_open = None, op_opendir = None, op_release = None,
     op_statfs = None, op_readdir = None, op_getdir = None, op_init = None, op_destroy = None,
     flag_nullpath_ok = False\<rparr>"

definition slot :: "nat \<Rightarrow> nat \<Rightarrow> 'a option \<Rightarrow> 'a option" where
  "slot k op_size v = (if 8 * (k + 1) \<le> op_size then v else None)"

definition copy_operations :: "nat \<Rightarrow> ('d, 'b, 'w) fuse_operations \<Rightarrow> ('d, 'b, 'w) fuse_operations" where
  "copy_operations op_size op = no_operations\<lparr>
     op_getattr := slot 0 op_size (op_getattr op),
     op_readlink := slot 1 op_size (op_readlink op),
     op_getdir := slot 2 op_size (op_getdir op),
     op_mknod := slot 3 op_size (op_mknod op),
     op_mkdir := slot 4 op_size (op_mkdir op),
     op_unlink := slot 5 op_size (op_unlink op),
     op_rmdir := slot 6 op_size (op_rmdir op),
     op_symlink := slot 7 op_size (op_symlink op),
     op_rename := slot 8 op_size (op_rename op),
     op_link := slot 9 op_size (op_link op),
     op_chmod := slot 10 op_size (op_chmod op),
     op_chown := slot 11 op_size (op_chown op),
     op_truncate := slot 12 op_size (op_truncate op),
     op_utime := slot 13 op_size (op_utime op),
     op_open := slot 14 op_size (op_open op),
     op_read := slot 15 op_size (op_read op),
     op_write := slot 16 op_size (op_write op),
     op_statfs := slot 17 op_size (op_statfs op),
     op_flush := slot 18 op_size (op_flush op),
     op_release := slot 19 op_size (op_release op),
     op_fsync := slot 20 op_size (op_fsync op),
     op_setxattr := slot 21 op_size (op_setxattr op),
     op_getxattr := slot 22 op_size (op_getxattr op),
     op_listxattr := slot 23 op_size (op_listxattr op),
     op_removexattr := slot 24 op_size (op_removexattr op),
     op_opendir := slot 25 op_size (op_opendir op),
     op_readdir := slot 26 op_size (op_readdir op),
     op_releasedir := slot 27 op_size (op_releasedir op),
     op_fsyncdir := slot 28 op_size (op_fsyncdir op),
     op_init := slot 29 op_size (op_init op),
     op_destroy := slot 30 op_size (op_destroy op),
     op_access := slot 31 op_size (op_access op),
     op_create := slot 32 op_size (op_create op),
     op_ftruncate := slot 33 op_size (op_ftruncate op),
     op_fgetattr := slot 34 op_size (op_fgetattr op),
     op_lock := slot 35 op_size (op_lock op),
     op_utimens := slot 36 op_size (op_utimens op),
     op_bmap := slot 37 op_size (op_bmap op),
     op_ioctl := slot 39 op_size (op_ioctl op),
     op_poll := slot 40 op_size (op_poll op),
     flag_nullpath_ok := (8 * 38 < op_size \<and> flag_nullpath_ok op)\<rparr>"

definition fuse_fs_new ::
  "allocs \<Rightarrow> ('d, 'b, 'w) fuse_operations option \<Rightarrow> nat \<Rightarrow> 'd \<Rightarrow> ('d, 'b, 'w) fuse_fs option \<times> allocs" where
  "fuse_fs_new m op op_size d =
     (let op_size = min op_size (41 * 8);
          (ok, m) = alloc m
      in if \<not> ok then (None, m)
         else (Some \<lparr>fs_op = (case op of Some op \<Rightarrow> copy_operations op_size op | None \<Rightarrow> no_operations),
                      user_data = d, compat = 0\<rparr>, m))"

text \<open>
  a file system compiled against version 2.5, whose table ends with \<open>fgetattr\<close>, runs on this
  library: the operations of its table are called as they are, the ones added later are missing
  with ENOSYS, and \<open>utimens\<close> falls back to the seconds of \<open>utime\<close>.
\<close>

lemma old_table_dispatch:
  assumes "fuse_fs_new m (Some op) (35 * 8) d = (Some fs, m')"
  shows
    "fuse_fs_lock fs path cmd fi lck w = (- ENOSYS, fi, lck, w) \<and>
     fuse_fs_bmap fs path blocksize idx w = (- ENOSYS, idx, w) \<and>
     fuse_fs_ioctl fs path c arg flags fi dat w = (- ENOSYS, fi, dat, w) \<and>
     fuse_fs_poll fs path ph fi revents w = (- ENOSYS, fi, revents, w) \<and>
     fuse_fs_utimens fs path tv0 tv1 w =
       (case op_utime op of Some g \<Rightarrow> g d path (tv_sec tv0) (tv_sec tv1) w | None \<Rightarrow> (- ENOSYS, w)) \<and>
     fuse_fs_fgetattr fs (Some p) stbuf fi w =
       (case op_fgetattr op of Some g \<Rightarrow> g d (Some p) stbuf fi w
        | None \<Rightarrow> (let (err, stbuf, w) = fuse_fs_getattr fs (Some p) stbuf w in (err, stbuf, fi, w))) \<and>
     fuse_fs_getattr fs path stbuf w =
       (case op_getattr op of Some g \<Rightarrow> g d path stbuf w | None \<Rightarrow> (- ENOSYS, stbuf, w)) \<and>
     flag_nullpath_ok (fs_op fs) = False"
proof -
  have fs: "fs = \<lparr>fs_op = copy_operations (35 * 8) op, user_data = d, compat = 0\<rparr>"
    using assms by (auto simp: fuse_fs_new_def Let_def split: prod.splits if_splits)
  show ?thesis
    unfolding fs
    by (intro conjI; simp add: copy_operations_def no_operations_def slot_def fuse_fs_lock_def fuse_fs_bmap_def
      fuse_fs_ioctl_def fuse_fs_poll_def fuse_fs_utimens_def fuse_fs_fgetattr_def fuse_fs_getattr_def split: option.splits)
qed

lemma old_table_dispatch_witness:
  "fuse_fs_new [] (Some no_operations) (35 * 8) () = (Some \<lparr>fs_op = copy_operations (35 * 8) (no_operations :: (unit, unit, nat) fuse_operations), user_data = (), compat = 0\<rparr>, []) \<and>
   fuse_fs_bmap \<lparr>fs_op = copy_operations (35 * 8) (no_operations :: (unit, unit, nat) fuse_operations), user_data = (), compat = 0\<rparr>
     None 512 7 5 = (- ENOSYS, 7, 5)"
proof -
  have new: "fuse_fs_new [] (Some no_operations) (35 * 8) () = (Some \<lparr>fs_op = copy_operations (35 * 8) (no_operations :: (unit, unit, nat) fuse_operations), user_data = (), compat = 0\<rparr>, [])"
    by (simp add: fuse_fs_new_def)
  show ?thesis using new old_table_dispatch [OF new] by blast
qed

end
