(* ===== verification/Subdir_Module.thy ===== *)
theory Subdir_Module
  imports Complex_Main Fuse_Prelude Fuse_Opt Fuse_Fs
begin

text \<open>
  The module \<open>subdir\<close> (\<open>lib/modules/subdir.c\<close>): a file system stacked on another one that puts a
  base directory in front of every path, and turns absolute symbolic links below the base into
  relative ones. Its private data holds the file system below it; the world of its operations is
  the world of the one below and the outcomes of the coming allocations.
\<close>

subsection \<open>Data and paths\<close>

record ('d, 'b, 'w) subdir =
  base :: cstring
  rellinks :: bool
  "next" :: "('d, 'b, 'w) fuse_fs"

abbreviation baselen :: "('d, 'b, 'w) subdir \<Rightarrow> nat" where
  "baselen d \<equiv> length (base d)"

text \<open>\<open>subdir_addpath\<close>: the error and \<open>*newpathp\<close> (meaningful when the error is 0).\<close>

definition subdir_addpath ::
  "('d, 'b, 'w) subdir \<Rightarrow> cstring option \<Rightarrow> allocs \<Rightarrow> int \<times> cstring option \<times> allocs" where
  "subdir_addpath d path m =
     (case path of
        None \<Rightarrow> (0, None, m)
      | Some p \<Rightarrow>
          (let (ok, m) = alloc m
           in if \<not> ok then (- ENOMEM, None, m)
              else let p = (case p of c # cs \<Rightarrow> if c = CHR ''/'' then cs else p | [] \<Rightarrow> p);
                       newpath = base d @ p
                   in (0, Some (if newpath = [] then ''.'' else newpath), m)))"

subsection \<open>Symbolic links\<close>

definition skip_slashes :: "cstring \<Rightarrow> cstring" where
  "skip_slashes s = dropWhile (\<lambda>c. c = CHR ''/'') s"

definition skip_component :: "cstring \<Rightarrow> cstring" where
  "skip_component s = dropWhile (\<lambda>c. c \<noteq> CHR ''/'') s"

lemma skip_length [simp]:
  "length (skip_slashes s) \<le> length s" "length (skip_component s) \<le> length s"
  by (simp_all add: skip_slashes_def skip_component_def length_dropWhile_le)

lemma skip_component_less: "s \<noteq> [] \<Longrightarrow> hd s \<noteq> CHR ''/'' \<Longrightarrow> length (skip_component s) < length s"
  by (cases s) (auto simp: skip_component_def le_imp_less_Suc length_dropWhile_le)

lemma skip_slashes_hd: "skip_slashes s = c # cs \<Longrightarrow> c \<noteq> CHR ''/''"
  by (induction s) (auto simp: skip_slashes_def split: if_splits)

lemma skip_slashes_head: "skip_slashes s = [] \<or> hd (skip_slashes s) \<noteq> CHR ''/''"
  by (cases "skip_slashes s") (simp_all add: skip_slashes_hd)

text \<open>The loop of \<open>count_components\<close>, after the leading slashes.\<close>

function count_loop :: "cstring \<Rightarrow> nat" where
  "count_loop p = (if p = [] \<or> hd p = CHR ''/'' then 0 else Suc (count_loop (skip_slashes (skip_component p))))"
  by auto
termination
proof (relation "measure length")
  fix p :: cstring assume "\<not> (p = [] \<or> hd p = CHR ''/'')"
  then show "(skip_slashes (skip_component p), p) \<in> measure length"
    using skip_component_less [of p] le_less_trans [OF skip_length(1)] by simp
qed simp

definition count_components :: "cstring \<Rightarrow> nat" where
  "count_components p = count_loop (skip_slashes p)"

text \<open>The inner loop of \<open>strip_common\<close>: past the characters that agree, up to a slash.\<close>

fun skip_equal :: "cstring \<Rightarrow> cstring \<Rightarrow> cstring \<times> cstring" where
  "skip_equal (a # s) (b # t) = (if a = b \<and> a \<noteq> CHR ''/'' then skip_equal s t else (a # s, b # t))"
| "skip_equal s t = (s, t)"

definition strip_again :: "cstring \<Rightarrow> cstring \<Rightarrow> bool" where
  "strip_again s t \<longleftrightarrow>
     (s \<noteq> [] \<and> t \<noteq> [] \<and> hd s = hd t) \<or> (s = [] \<and> t \<noteq> [] \<and> hd t = CHR ''/'') \<or>
     (s \<noteq> [] \<and> hd s = CHR ''/'' \<and> t = [])"

lemma skip_equal_length:
  "length (fst (skip_equal s t)) \<le> length s" "length (snd (skip_equal s t)) \<le> length t"
  by (induction s t rule: skip_equal.induct) auto

lemma skip_equal_end:
  "strip_again (fst (skip_equal s t)) (snd (skip_equal s t)) \<Longrightarrow>
     (fst (skip_equal s t) \<noteq> [] \<and> hd (fst (skip_equal s t)) = CHR ''/'') \<or>
     (snd (skip_equal s t) \<noteq> [] \<and> hd (snd (skip_equal s t)) = CHR ''/'')"
  by (induction s t rule: skip_equal.induct) (auto simp: strip_again_def split: if_splits)

function strip_common :: "cstring \<Rightarrow> cstring \<Rightarrow> cstring \<times> cstring" where
  "strip_common s t =
     (let s1 = skip_slashes s; t1 = skip_slashes t; (s2, t2) = skip_equal s1 t1
      in if strip_again s2 t2 then strip_common s2 t2 else (s1, t1))"
  by auto
termination
proof (relation "measure (\<lambda>(s, t). length (skip_slashes s) + length (skip_slashes t))")
  fix s t :: cstring and s1 t1 x s2 t2
  assume *: "s1 = skip_slashes s" "t1 = skip_slashes t" "x = skip_equal s1 t1" "(s2, t2) = x" "strip_again s2 t2"
  have sl: "length (skip_slashes u) < length u" if "u \<noteq> []" "hd u = CHR ''/''" for u
    using that by (cases u) (auto simp: skip_slashes_def le_imp_less_Suc length_dropWhile_le)
  have "length s2 \<le> length s1" "length t2 \<le> length t1"
    using * skip_equal_length [of s1 t1] by (metis fst_conv, metis snd_conv)
  moreover have "s2 \<noteq> [] \<and> hd s2 = CHR ''/'' \<or> t2 \<noteq> [] \<and> hd t2 = CHR ''/''"
    using * skip_equal_end [of s1 t1] by (metis fst_conv snd_conv)
  ultimately have "length (skip_slashes s2) + length (skip_slashes t2) < length s1 + length t1"
    using sl [of s2] sl [of t2] skip_length(1) [of s2] skip_length(1) [of t2]
    by (elim disjE conjE) linarith+
  then show "((s2, t2), s, t) \<in> measure (\<lambda>(s, t). length (skip_slashes s) + length (skip_slashes t))"
    using *(1,2) by simp
qed simp

text \<open>The buffer after the transformation: the C string in it.\<close>

definition transform_symlink :: "('d, 'b, 'w) subdir \<Rightarrow> cstring \<Rightarrow> cstring \<Rightarrow> nat \<Rightarrow> cstring" where
  "transform_symlink d path buf sz =
     (if buf = [] \<or> hd buf \<noteq> CHR ''/'' \<or> base d = [] \<or> hd (base d) \<noteq> CHR ''/'' then buf
      else let (l, path) = strip_common buf path
           in if length buf - length l < baselen d then buf
              else let dotdots = count_components path
                   in if dotdots = 0 then buf
                      else let dotdots = dotdots - 1; llen = length l
                           in if dotdots * 3 + llen + 2 > sz then buf
                              else concat (replicate dotdots ''../'') @
                                   (if llen \<noteq> 0 then l else if dotdots = 0 then ''.'' else []))"

subsection \<open>Operations\<close>

definition subdir_getattr :: "('d, 'b, 'w) subdir \<Rightarrow> cstring option \<Rightarrow> stat \<Rightarrow> allocs \<times> 'w \<Rightarrow> int \<times> stat \<times> allocs \<times> 'w" where
  "subdir_getattr d path stbuf w =
     (let (err, newpath, m) = subdir_addpath d path (fst w)
      in if err \<noteq> 0 then (err, stbuf, m, snd w)
         else let (err, stbuf, w') = fuse_fs_getattr (next d) newpath stbuf (snd w) in (err, stbuf, m, w'))"

definition subdir_fgetattr :: "('d, 'b, 'w) subdir \<Rightarrow> cstring option \<Rightarrow> stat \<Rightarrow> fuse_file_info \<Rightarrow> allocs \<times> 'w \<Rightarrow> int \<times> stat \<times> fuse_file_info \<times> allocs \<times> 'w" where
  "subdir_fgetattr d path stbuf fi w =
     (let (err, newpath, m) = subdir_addpath d path (fst w)
      in if err \<noteq> 0 then (err, stbuf, fi, m, snd w)
         else let (err, stbuf, fi, w') = fuse_fs_fgetattr (next d) newpath stbuf fi (snd w) in (err, stbuf, fi, m, w'))"

definition subdir_access :: "('d, 'b, 'w) subdir \<Rightarrow> cstring option \<Rightarrow> int \<Rightarrow> allocs \<times> 'w \<Rightarrow> int \<times> allocs \<times> 'w" where
  "subdir_access d path msk w =
     (let (err, newpath, m) = subdir_addpath d path (fst w)
      in if err \<noteq> 0 then (err, m, snd w)
         else let (err, w') = fuse_fs_access (next d) newpath msk (snd w) in (err, m, w'))"

text \<open>The buffer is a C string once the file system below has filled it.\<close>

definition subdir_readlink :: "('d, 'b, 'w) subdir \<Rightarrow> cstring option \<Rightarrow> nat \<Rightarrow> cbuf \<Rightarrow> allocs \<times> 'w \<Rightarrow> int \<times> cbuf \<times> allocs \<times> 'w" where
  "subdir_readlink d path len buf w =
     (let (err, newpath, m) = subdir_addpath d path (fst w)
      in if err \<noteq> 0 then (err, buf, m, snd w)
         else let (err, buf, w') = fuse_fs_readlink (next d) newpath len buf (snd w)
              in (err, if err = 0 \<and> rellinks d then transform_symlink d (the newpath) buf len else buf, m, w'))"

definition subdir_opendir :: "('d, 'b, 'w) subdir \<Rightarrow> cstring option \<Rightarrow> fuse_file_info \<Rightarrow> allocs \<times> 'w \<Rightarrow> (int \<times> fuse_file_info \<times> allocs \<times> 'w) option" where
  "subdir_opendir d path fi w =
     (let (err, newpath, m) = subdir_addpath d path (fst w)
      in if err \<noteq> 0 then Some (err, fi, m, snd w)
         else map_option (\<lambda>(err, fi, w'). (err, fi, m, w')) (fuse_fs_opendir (next d) newpath fi (snd w)))"

definition subdir_readdir ::
  "('d, 'b, 'w) subdir \<Rightarrow> cstring option \<Rightarrow> 'b fill_dir_t \<Rightarrow> off_t \<Rightarrow> 'b \<Rightarrow> fuse_file_info \<Rightarrow> allocs \<times> 'w \<Rightarrow>
     int \<times> 'b \<times> fuse_file_info \<times> allocs \<times> 'w" where
  "subdir_readdir d path filler off buf fi w =
     (let (err, newpath, m) = subdir_addpath d path (fst w)
      in if err \<noteq> 0 then (err, buf, fi, m, snd w)
         else let (err, buf, fi, w') = fuse_fs_readdir (next d) newpath filler off buf fi (snd w)
              in (err, buf, fi, m, w'))"

definition subdir_releasedir :: "('d, 'b, 'w) subdir \<Rightarrow> cstring option \<Rightarrow> fuse_file_info \<Rightarrow> allocs \<times> 'w \<Rightarrow> int \<times> fuse_file_info \<times> allocs \<times> 'w" where
  "subdir_releasedir d path fi w =
     (let (err, newpath, m) = subdir_addpath d path (fst w)
      in if err \<noteq> 0 then (err, fi, m, snd w)
         else let (err, fi, w') = fuse_fs_releasedir (next d) newpath fi (snd w) in (err, fi, m, w'))"

definition subdir_mknod :: "('d, 'b, 'w) subdir \<Rightarrow> cstring option \<Rightarrow> u32 \<Rightarrow> u64 \<Rightarrow> allocs \<times> 'w \<Rightarrow> int \<times> allocs \<times> 'w" where
  "subdir_mknod d path mode rdev w =
     (let (err, newpath, m) = subdir_addpath d path (fst w)
      in if err \<noteq> 0 then (err, m, snd w)
         else let (err, w') = fuse_fs_mknod (next d) newpath mode rdev (snd w) in (err, m, w'))"

definition subdir_mkdir :: "('d, 'b, 'w) subdir \<Rightarrow> cstring option \<Rightarrow> u32 \<Rightarrow> allocs \<times> 'w \<Rightarrow> int \<times> allocs \<times> 'w" where
  "subdir_mkdir d path mode w =
     (let (err, newpath, m) = subdir_addpath d path (fst w)
      in if err \<noteq> 0 then (err, m, snd w)
         else let (err, w') = fuse_fs_mkdir (next d) newpath mode (snd w) in (err, m, w'))"

definition subdir_unlink :: "('d, 'b, 'w) subdir \<Rightarrow> cstring option \<Rightarrow> allocs \<times> 'w \<Rightarrow> int \<times> allocs \<times> 'w" where
  "subdir_unlink d path w =
     (let (err, newpath, m) = subdir_addpath d path (fst w)
      in if err \<noteq> 0 then (err, m, snd w)
         else let (err, w') = fuse_fs_unlink (next d) newpath (snd w) in (err, m, w'))"

definition subdir_rmdir :: "('d, 'b, 'w) subdir \<Rightarrow> cstring option \<Rightarrow> allocs \<times> 'w \<Rightarrow> int \<times> allocs \<times> 'w" where
  "subdir_rmdir d path w =
     (let (err, newpath, m) = subdir_addpath d path (fst w)
      in if err \<noteq> 0 then (err, m, snd w)
         else let (err, w') = fuse_fs_rmdir (next d) newpath (snd w) in (err, m, w'))"

definition subdir_symlink ::
  "('d, 'b, 'w) subdir \<Rightarrow> cstring option \<Rightarrow> cstring option \<Rightarrow> allocs \<times> 'w \<Rightarrow> int \<times> allocs \<times> 'w" where
  "subdir_symlink d from path w =
     (let (err, newpath, m) = subdir_addpath d path (fst w)
      in if err \<noteq> 0 then (err, m, snd w)
         else let (err, w') = fuse_fs_symlink (next d) from newpath (snd w) in (err, m, w'))"

definition subdir_rename ::
  "('d, 'b, 'w) subdir \<Rightarrow> cstring option \<Rightarrow> cstring option \<Rightarrow> allocs \<times> 'w \<Rightarrow> int \<times> allocs \<times> 'w" where
  "subdir_rename d from to w =
     (let (err, newfrom, m) = subdir_addpath d from (fst w)
      in if err \<noteq> 0 then (err, m, snd w)
         else let (err, newto, m) = subdir_addpath d to m
              in if err \<noteq> 0 then (err, m, snd w)
                 else let (err, w') = fuse_fs_rename (next d) newfrom newto (snd w) in (err, m, w'))"

definition subdir_link ::
  "('d, 'b, 'w) subdir \<Rightarrow> cstring option \<Rightarrow> cstring option \<Rightarrow> allocs \<times> 'w \<Rightarrow> int \<times> allocs \<times> 'w" where
  "subdir_link d from to w =
     (let (err, newfrom, m) = subdir_addpath d from (fst w)
      in if err \<noteq> 0 then (err, m, snd w)
         else let (err, newto, m) = subdir_addpath d to m
              in if err \<noteq> 0 then (err, m, snd w)
                 else let (err, w') = fuse_fs_link (next d) newfrom newto (snd w) in (err, m, w'))"

definition subdir_chmod :: "('d, 'b, 'w) subdir \<Rightarrow> cstring option \<Rightarrow> u32 \<Rightarrow> allocs \<times> 'w \<Rightarrow> int \<times> allocs \<times> 'w" where
  "subdir_chmod d path mode w =
     (let (err, newpath, m) = subdir_addpath d path (fst w)
      in if err \<noteq> 0 then (err, m, snd w)
         else let (err, w') = fuse_fs_chmod (next d) newpath mode (snd w) in (err, m, w'))"

definition subdir_chown :: "('d, 'b, 'w) subdir \<Rightarrow> cstring option \<Rightarrow> u32 \<Rightarrow> u32 \<Rightarrow> allocs \<times> 'w \<Rightarrow> int \<times> allocs \<times> 'w" where
  "subdir_chown d path uid gid w =
     (let (err, newpath, m) = subdir_addpath d path (fst w)
      in if err \<noteq> 0 then (err, m, snd w)
         else let (err, w') = fuse_fs_chown (next d) newpath uid gid (snd w) in (err, m, w'))"

definition subdir_truncate :: "('d, 'b, 'w) subdir \<Rightarrow> cstring option \<Rightarrow> off_t \<Rightarrow> allocs \<times> 'w \<Rightarrow> int \<times> allocs \<times> 'w" where
  "subdir_truncate d path sz w =
     (let (err, newpath, m) = subdir_addpath d path (fst w)
      in if err \<noteq> 0 then (err, m, snd w)
         else let (err, w') = fuse_fs_truncate (next d) newpath sz (snd w) in (err, m, w'))"

definition subdir_ftruncate :: "('d, 'b, 'w) subdir \<Rightarrow> cstring option \<Rightarrow> off_t \<Rightarrow> fuse_file_info \<Rightarrow> allocs \<times> 'w \<Rightarrow> int \<times> fuse_file_info \<times> allocs \<times> 'w" where
  "subdir_ftruncate d path sz fi w =
     (let (err, newpath, m) = subdir_addpath d path (fst w)
      in if err \<noteq> 0 then (err, fi, m, snd w)
         else let (err, fi, w') = fuse_fs_ftruncate (next d) newpath sz fi (snd w) in (err, fi, m, w'))"

definition subdir_utimens :: "('d, 'b, 'w) subdir \<Rightarrow> cstring option \<Rightarrow> timespec \<Rightarrow> timespec \<Rightarrow> allocs \<times> 'w \<Rightarrow> int \<times> allocs \<times> 'w" where
  "subdir_utimens d path tv0 tv1 w =
     (let (err, newpath, m) = subdir_addpath d path (fst w)
      in if err \<noteq> 0 then (err, m, snd w)
         else let (err, w') = fuse_fs_utimens (next d) newpath tv0 tv1 (snd w) in (err, m, w'))"

definition subdir_create :: "('d, 'b, 'w) subdir \<Rightarrow> cstring option \<Rightarrow> u32 \<Rightarrow> fuse_file_info \<Rightarrow> allocs \<times> 'w \<Rightarrow> int \<times> fuse_file_info \<times> allocs \<times> 'w" where
  "subdir_create d path mode fi w =
     (let (err, newpath, m) = subdir_addpath d path (fst w)
      in if err \<noteq> 0 then (err, fi, m, snd w)
         else let (err, fi, w') = fuse_fs_create (next d) newpath mode fi (snd w) in (err, fi, m, w'))"

definition subdir_open :: "('d, 'b, 'w) subdir \<Rightarrow> cstring option \<Rightarrow> fuse_file_info \<Rightarrow> allocs \<times> 'w \<Rightarrow> (int \<times> fuse_file_info \<times> allocs \<times> 'w) option" where
  "subdir_open d path fi w =
     (let (err, newpath, m) = subdir_addpath d path (fst w)
      in if err \<noteq> 0 then Some (err, fi, m, snd w)
         else map_option (\<lambda>(err, fi, w'). (err, fi, m, w')) (fuse_fs_open (next d) newpath fi (snd w)))"

definition subdir_read :: "('d, 'b, 'w) subdir \<Rightarrow> cstring option \<Rightarrow> nat \<Rightarrow> off_t \<Rightarrow> cbuf \<Rightarrow> fuse_file_info \<Rightarrow> allocs \<times> 'w \<Rightarrow> int \<times> cbuf \<times> fuse_file_info \<times> allocs \<times> 'w" where
  "subdir_read d path sz off buf fi w =
     (let (err, newpath, m) = subdir_addpath d path (fst w)
      in if err \<noteq> 0 then (err, buf, fi, m, snd w)
         else let (err, buf, fi, w') = fuse_fs_read (next d) newpath sz off buf fi (snd w) in (err, buf, fi, m, w'))"

definition subdir_write :: "('d, 'b, 'w) subdir \<Rightarrow> cstring option \<Rightarrow> cbuf \<Rightarrow> nat \<Rightarrow> off_t \<Rightarrow> fuse_file_info \<Rightarrow> allocs \<times> 'w \<Rightarrow> int \<times> fuse_file_info \<times> allocs \<times> 'w" where
  "subdir_write d path buf sz off fi w =
     (let (err, newpath, m) = subdir_addpath d path (fst w)
      in if err \<noteq> 0 then (err, fi, m, snd w)
         else let (err, fi, w') = fuse_fs_write (next d) newpath buf sz off fi (snd w) in (err, fi, m, w'))"

definition subdir_statfs :: "('d, 'b, 'w) subdir \<Rightarrow> cstring option \<Rightarrow> statvfs \<Rightarrow> allocs \<times> 'w \<Rightarrow> (int \<times> statvfs \<times> allocs \<times> 'w) option" where
  "subdir_statfs d path stbuf w =
     (let (err, newpath, m) = subdir_addpath d path (fst w)
      in if err \<noteq> 0 then Some (err, stbuf, m, snd w)
         else map_option (\<lambda>(err, stbuf, w'). (err, stbuf, m, w')) (fuse_fs_statfs (next d) newpath stbuf (snd w)))"

definition subdir_flush :: "('d, 'b, 'w) subdir \<Rightarrow> cstring option \<Rightarrow> fuse_file_info \<Rightarrow> allocs \<times> 'w \<Rightarrow> int \<times> fuse_file_info \<times> allocs \<times> 'w" where
  "subdir_flush d path fi w =
     (let (err, newpath, m) = subdir_addpath d path (fst w)
      in if err \<noteq> 0 then (err, fi, m, snd w)
         else let (err, fi, w') = fuse_fs_flush (next d) newpath fi (snd w) in (err, fi, m, w'))"

definition subdir_release :: "('d, 'b, 'w) subdir \<Rightarrow> cstring option \<Rightarrow> fuse_file_info \<Rightarrow> allocs \<times> 'w \<Rightarrow> (int \<times> fuse_file_info \<times> allocs \<times> 'w) option" where
  "subdir_release d path fi w =
     (let (err, newpath, m) = subdir_addpath d path (fst w)
      in if err \<noteq> 0 then Some (err, fi, m, snd w)
         else map_option (\<lambda>(err, fi, w'). (err, fi, m, w')) (fuse_fs_release (next d) newpath fi (snd w)))"

definition subdir_fsync :: "('d, 'b, 'w) subdir \<Rightarrow> cstring option \<Rightarrow> int \<Rightarrow> fuse_file_info \<Rightarrow> allocs \<times> 'w \<Rightarrow> int \<times> fuse_file_info \<times> allocs \<times> 'w" where
  "subdir_fsync d path datasync fi w =
     (let (err, newpath, m) = subdir_addpath d path (fst w)
      in if err \<noteq> 0 then (err, fi, m, snd w)
         else let (err, fi, w') = fuse_fs_fsync (next d) newpath datasync fi (snd w) in (err, fi, m, w'))"

definition subdir_fsyncdir :: "('d, 'b, 'w) subdir \<Rightarrow> cstring option \<Rightarrow> int \<Rightarrow> fuse_file_info \<Rightarrow> allocs \<times> 'w \<Rightarrow> int \<times> fuse_file_info \<times> allocs \<times> 'w" where
  "subdir_fsyncdir d path datasync fi w =
     (let (err, newpath, m) = subdir_addpath d path (fst w)
      in if err \<noteq> 0 then (err, fi, m, snd w)
         else let (err, fi, w') = fuse_fs_fsyncdir (next d) newpath datasync fi (snd w) in (err, fi, m, w'))"

definition subdir_setxattr :: "('d, 'b, 'w) subdir \<Rightarrow> cstring option \<Rightarrow> cstring \<Rightarrow> cbuf \<Rightarrow> nat \<Rightarrow> int \<Rightarrow> allocs \<times> 'w \<Rightarrow> int \<times> allocs \<times> 'w" where
  "subdir_setxattr d path name val sz flags w =
     (let (err, newpath, m) = subdir_addpath d path (fst w)
      in if err \<noteq> 0 then (err, m, snd w)
         else let (err, w') = fuse_fs_setxattr (next d) newpath name val sz flags (snd w) in (err, m, w'))"

definition subdir_getxattr :: "('d, 'b, 'w) subdir \<Rightarrow> cstring option \<Rightarrow> cstring \<Rightarrow> nat \<Rightarrow> cbuf \<Rightarrow> allocs \<times> 'w \<Rightarrow> int \<times> cbuf \<times> allocs \<times> 'w" where
  "subdir_getxattr d path name sz val w =
     (let (err, newpath, m) = subdir_addpath d path (fst w)
      in if err \<noteq> 0 then (err, val, m, snd w)
         else let (err, val, w') = fuse_fs_getxattr (next d) newpath name sz val (snd w) in (err, val, m, w'))"

definition subdir_listxattr :: "('d, 'b, 'w) subdir \<Rightarrow> cstring option \<Rightarrow> nat \<Rightarrow> cbuf \<Rightarrow> allocs \<times> 'w \<Rightarrow> int \<times> cbuf \<times> allocs \<times> 'w" where
  "subdir_listxattr d path sz lst w =
     (let (err, newpath, m) = subdir_addpath d path (fst w)
      in if err \<noteq> 0 then (err, lst, m, snd w)
         else let (err, lst, w') = fuse_fs_listxattr (next d) newpath sz lst (snd w) in (err, lst, m, w'))"

definition subdir_removexattr :: "('d, 'b, 'w) subdir \<Rightarrow> cstring option \<Rightarrow> cstring \<Rightarrow> allocs \<times> 'w \<Rightarrow> int \<times> allocs \<times> 'w" where
  "subdir_removexattr d path name w =
     (let (err, newpath, m) = subdir_addpath d path (fst w)
      in if err \<noteq> 0 then (err, m, snd w)
         else let (err, w') = fuse_fs_removexattr (next d) newpath name (snd w) in (err, m, w'))"

definition subdir_lock :: "('d, 'b, 'w) subdir \<Rightarrow> cstring option \<Rightarrow> int \<Rightarrow> fuse_file_info \<Rightarrow> flock \<Rightarrow> allocs \<times> 'w \<Rightarrow> int \<times> fuse_file_info \<times> flock \<times> allocs \<times> 'w" where
  "subdir_lock d path cmd fi lck w =
     (let (err, newpath, m) = subdir_addpath d path (fst w)
      in if err \<noteq> 0 then (err, fi, lck, m, snd w)
         else let (err, fi, lck, w') = fuse_fs_lock (next d) newpath cmd fi lck (snd w) in (err, fi, lck, m, w'))"

definition subdir_bmap :: "('d, 'b, 'w) subdir \<Rightarrow> cstring option \<Rightarrow> nat \<Rightarrow> u64 \<Rightarrow> allocs \<times> 'w \<Rightarrow> int \<times> u64 \<times> allocs \<times> 'w" where
  "subdir_bmap d path blocksize idx w =
     (let (err, newpath, m) = subdir_addpath d path (fst w)
      in if err \<noteq> 0 then (err, idx, m, snd w)
         else let (err, idx, w') = fuse_fs_bmap (next d) newpath blocksize idx (snd w) in (err, idx, m, w'))"

definition subdir_init :: "('d, 'b, 'w) subdir \<Rightarrow> fuse_conn_info \<Rightarrow> allocs \<times> 'w \<Rightarrow> ('d, 'b, 'w) subdir \<times> fuse_conn_info \<times> allocs \<times> 'w" where
  "subdir_init d conn w =
     (let (fs, conn, w') = fuse_fs_init (next d) conn (snd w) in (d\<lparr>next := fs\<rparr>, conn, fst w, w'))"

definition subdir_destroy :: "('d, 'b, 'w) subdir \<Rightarrow> allocs \<times> 'w \<Rightarrow> allocs \<times> 'w" where
  "subdir_destroy d w = (fst w, fuse_fs_destroy (next d) (snd w))"

definition subdir_oper :: "(('d, 'b, 'w) subdir, 'b, allocs \<times> 'w) fuse_operations" where
  "subdir_oper = \<lparr>
     op_getattr = Some subdir_getattr,
     op_fgetattr = Some subdir_fgetattr,
     op_readlink = Some subdir_readlink,
     op_mknod = Some subdir_mknod,
     op_mkdir = Some subdir_mkdir,
     op_unlink = Some subdir_unlink,
     op_rmdir = Some subdir_rmdir,
     op_chmod = Some subdir_chmod,
     op_chown = Some subdir_chown,
     op_truncate = Some subdir_truncate,
     op_ftruncate = Some subdir_ftruncate,
     op_utimens = Some subdir_utimens,
     op_utime = None,
     op_access = Some subdir_access,
     op_read = Some subdir_read,
     op_write = Some subdir_write,
     op_fsync = Some subdir_fsync,
     op_fsyncdir = Some subdir_fsyncdir,
     op_flush = Some subdir_flush,
     op_releasedir = Some subdir_releasedir,
     op_create = Some subdir_create,
     op_lock = Some subdir_lock,
     op_setxattr = Some subdir_setxattr,
     op_getxattr = Some subdir_getxattr,
     op_listxattr = Some subdir_listxattr,
     op_removexattr = Some subdir_removexattr,
     op_bmap = Some subdir_bmap,
     op_ioctl = None,
     op_poll = None,
     op_symlink = Some subdir_symlink,
     op_rename = Some subdir_rename,
     op_link = Some subdir_link,
     op_open = Some (Open25 subdir_open),
     op_opendir = Some (Open25 subdir_opendir),
     op_release = Some (Open25 subdir_release),
     op_statfs = Some (Statfs25 subdir_statfs),
     op_readdir = Some subdir_readdir,
     op_getdir = None,
     op_init = Some subdir_init,
     op_destroy = Some subdir_destroy,
     flag_nullpath_ok = True\<rparr>"

subsection \<open>The module's options\<close>

datatype subdir_field = Base | Rellinks

definition subdir_opts :: "subdir_field fuse_opt list" where
  "subdir_opts =
     [\<lparr>templ = ''-h'', offset = None, opt_value = 0\<rparr>,
      \<lparr>templ = ''--help'', offset = None, opt_value = 0\<rparr>,
      \<lparr>templ = ''subdir=%s'', offset = Some Base, opt_value = 0\<rparr>,
      \<lparr>templ = ''rellinks'', offset = Some Rellinks, opt_value = 1\<rparr>,
      \<lparr>templ = ''norellinks'', offset = Some Rellinks, opt_value = 0\<rparr>]"

definition subdir_opt_proc :: "subdir_field opt_proc" where
  "subdir_opt_proc dat arg key out m = Some (if key = 0 then - 1 else 1, dat, out, m)"

text \<open>\<open>subdir_new\<close>: \<open>fss\<close> is the array of file systems to stack on; \<open>None\<close> in the first component of
  the result is the null pointer.\<close>

definition subdir_new ::
  "allocs \<Rightarrow> fuse_args option \<Rightarrow> ('d, 'b, 'w) fuse_fs list \<Rightarrow>
     ((('d, 'b, 'w) subdir, 'b, allocs \<times> 'w) fuse_fs option \<times> fuse_args option \<times> allocs) option" where
  "subdir_new m args fss = do {
     let (ok, m) = alloc m;
     if \<not> ok then Some (None, args, m)
     else do {
       (res, args, dat, m) \<leftarrow> fuse_opt_parse m args ((\<lambda>_. None)(Rellinks := Some (VInt 0))) subdir_opts (Some subdir_opt_proc);
       if res = - 1 then Some (None, args, m)
       else case fss of
         [fs] \<Rightarrow>
           (case dat Base of
              Some (VStr b) \<Rightarrow>
                (let (ok, b, m) = (if b \<noteq> [] \<and> last b \<noteq> CHR ''/''
                                   then (let (ok, m) = alloc m in (ok, b @ ''/'', m)) else (True, b, m))
                 in if \<not> ok then Some (None, args, m)
                    else let (ok, m) = alloc m;
                             d = \<lparr>base = b, rellinks = (dat Rellinks \<noteq> Some (VInt 0)), next = fs\<rparr>
                         in if \<not> ok then Some (None, args, m)
                            else Some (Some \<lparr>fs_op = subdir_oper, user_data = d, compat = 0\<rparr>, args, m))
            | _ \<Rightarrow> Some (None, args, m))
       | _ \<Rightarrow> Some (None, args, m)
     }
   }"

subsection \<open>Relative links name the same file\<close>

text \<open>The components of a path, and what a link means in a directory (\<open>..\<close> and \<open>.\<close> resolved).\<close>

function comps :: "cstring \<Rightarrow> cstring list" where
  "comps p = (let q = skip_slashes p
     in if q = [] then [] else takeWhile (\<lambda>c. c \<noteq> CHR ''/'') q # comps (skip_component q))"
  by auto
termination
proof (relation "measure length")
  fix p q :: cstring assume q: "q = skip_slashes p" "q \<noteq> []"
  then have "hd q \<noteq> CHR ''/''" using skip_slashes_hd [of p "hd q" "tl q"] by simp
  then have "length (skip_component q) < length q" by (rule skip_component_less [OF q(2)])
  also have "\<dots> \<le> length p" unfolding q(1) by (rule skip_length)
  finally show "(skip_component q, p) \<in> measure length" by simp
qed simp

declare comps.simps [simp del] count_loop.simps [simp del] strip_common.simps [simp del]

definition norm_step :: "cstring list \<Rightarrow> cstring \<Rightarrow> cstring list" where
  "norm_step dir c = (if c = ''..'' then butlast dir else if c = ''.'' then dir else dir @ [c])"

definition resolve_link :: "cstring list \<Rightarrow> cstring \<Rightarrow> cstring list" where
  "resolve_link dir l = foldl norm_step (if l \<noteq> [] \<and> hd l = CHR ''/'' then [] else dir) (comps l)"

lemma skip_slashes_idem [simp]: "skip_slashes (skip_slashes s) = skip_slashes s"
  by (simp add: skip_slashes_def)

lemma comps_skip [simp]: "comps (skip_slashes s) = comps s"
  by (simp add: comps.simps [of s] comps.simps [of "skip_slashes s"])

lemma comps_Nil [simp]: "comps [] = []"
  by (simp add: comps.simps skip_slashes_def)

lemma comps_app:
  assumes u: "u \<noteq> []" "CHR ''/'' \<notin> set u" and v: "v = [] \<or> hd v = CHR ''/''"
  shows "comps (u @ v) = u # comps v"
proof -
  have 1: "skip_slashes (u @ v) = u @ v" using u by (cases u) (auto simp: skip_slashes_def)
  have 2: "takeWhile (\<lambda>c. c \<noteq> CHR ''/'') (u @ v) = u"
    using u(2) v by (cases v) (auto simp: takeWhile_tail takeWhile_eq_all_conv)
  have 3: "skip_component (u @ v) = v"
    using u(2) v by (cases v) (auto simp: skip_component_def dropWhile_append3 dropWhile_eq_Nil_conv)
  show ?thesis using u(1) 1 2 3 by (subst comps.simps) simp
qed

lemma count_components_comps: "count_components p = length (comps p)"
proof -
  have "count_loop (skip_slashes q) = length (comps q)" for q
  proof (induction q rule: comps.induct)
    case (1 p)
    show ?case
    proof (cases "skip_slashes p")
      case Nil
      then show ?thesis by (simp add: count_loop.simps comps.simps [of p])
    next
      case (Cons c cs)
      have "count_loop (skip_slashes p) = Suc (count_loop (skip_slashes (skip_component (skip_slashes p))))"
        using Cons skip_slashes_hd [OF Cons] by (subst count_loop.simps) simp
      then show ?thesis using 1 [OF refl] Cons by (simp add: comps.simps [of p])
    qed
  qed
  then show ?thesis by (simp add: count_components_def)
qed

lemma skip_equal_split:
  "skip_equal s t = (s2, t2) \<Longrightarrow> \<exists>u. s = u @ s2 \<and> t = u @ t2 \<and> CHR ''/'' \<notin> set u \<and>
     (s2 \<noteq> [] \<longrightarrow> t2 \<noteq> [] \<longrightarrow> hd s2 = hd t2 \<longrightarrow> hd s2 = CHR ''/'')"
proof (induction s t rule: skip_equal.induct)
  case (1 a s b t)
  show ?case
  proof (cases "a = b \<and> a \<noteq> CHR ''/''")
    case True
    then obtain u where "s = u @ s2" "t = u @ t2" "CHR ''/'' \<notin> set u"
      "s2 \<noteq> [] \<longrightarrow> t2 \<noteq> [] \<longrightarrow> hd s2 = hd t2 \<longrightarrow> hd s2 = CHR ''/''"
      using 1 by auto
    then show ?thesis using True by (intro exI [of _ "a # u"]) auto
  next
    case False
    then show ?thesis using 1(2) by (intro exI [of _ "[]"]) auto
  qed
qed auto

text \<open>What is stripped are the same components of both.\<close>

lemma strip_common_comps:
  "strip_common s t = (s', t') \<Longrightarrow>
     (\<exists>C. comps s = C @ comps s' \<and> comps t = C @ comps t') \<and> (s' = [] \<or> hd s' \<noteq> CHR ''/'')"
proof (induction s t rule: strip_common.induct)
  case (1 s t)
  obtain s2 t2 where e: "skip_equal (skip_slashes s) (skip_slashes t) = (s2, t2)" by fastforce
  show ?case
  proof (cases "strip_again s2 t2")
    case False
    then have "s' = skip_slashes s" "t' = skip_slashes t"
      using 1(2) e by (simp_all add: strip_common.simps [of s t] Let_def)
    moreover from this have "comps s' = comps s" "comps t' = comps t" by simp_all
    moreover have "s' = [] \<or> hd s' \<noteq> CHR ''/''"
      using calculation(1) skip_slashes_head [of s] by simp
    ultimately show ?thesis by (intro conjI exI [of _ "[]"]) simp_all
  next
    case True
    obtain u where u: "skip_slashes s = u @ s2" "skip_slashes t = u @ t2" "CHR ''/'' \<notin> set u"
      "s2 \<noteq> [] \<longrightarrow> t2 \<noteq> [] \<longrightarrow> hd s2 = hd t2 \<longrightarrow> hd s2 = CHR ''/''"
      using skip_equal_split [OF e] by blast
    have fin: "s2 = [] \<or> hd s2 = CHR ''/''" "t2 = [] \<or> hd t2 = CHR ''/''"
      using True u(4) by (auto simp: strip_again_def)
    have "u \<noteq> []"
    proof
      assume "u = []"
      then show False using u(1,2) True u(4) skip_slashes_hd [of s] skip_slashes_hd [of t]
        by (cases s2; cases t2) (auto simp: strip_again_def)
    qed
    then have "comps s = u # comps s2" "comps t = u # comps t2"
      using comps_app [OF _ u(3) fin(1)] comps_app [OF _ u(3) fin(2)] u(1,2) comps_skip by metis+
    moreover have "strip_common s2 t2 = (s', t')"
      using 1(2) e True by (simp add: strip_common.simps [of s t] Let_def)
    then have "(\<exists>C. comps s2 = C @ comps s' \<and> comps t2 = C @ comps t') \<and> (s' = [] \<or> hd s' \<noteq> CHR ''/'')"
      using 1(1) [OF refl refl] e True by metis
    ultimately show ?thesis by (metis append_Cons)
  qed
qed

lemma comps_dotdots: "comps (concat (replicate k ''../'') @ l) = replicate k ''..'' @ comps l"
proof (induction k)
  case (Suc k)
  have "comps (''..'' @ ''/'' @ concat (replicate k ''../'') @ l) =
      ''..'' # comps (''/'' @ concat (replicate k ''../'') @ l)"
    by (rule comps_app) simp_all
  also have "comps (''/'' @ x) = comps x" for x
    using comps_skip [of "''/'' @ x"] comps_skip [of x] by (simp add: skip_slashes_def)
  finally show ?case using Suc by simp
qed simp

lemma norm_up: "length b = k \<Longrightarrow> foldl norm_step (C @ b) (replicate k ''..'') = C"
proof (induction k arbitrary: b)
  case (Suc k)
  then have "b \<noteq> []" "length (butlast b) = k" by auto
  then show ?case using Suc.IH [of "butlast b"] by (simp add: norm_step_def butlast_append)
qed simp

lemma norm_plain:
  "''.'' \<notin> set C \<Longrightarrow> ''..'' \<notin> set C \<Longrightarrow> foldl norm_step d C = d @ C"
  by (induction C arbitrary: d) (auto simp: norm_step_def)

text \<open>
  C26: turning an absolute link into a relative one does not change what it means: seen from the
  directory of the link, the link in the buffer resolves to the same components before and after
  \<open>transform_symlink\<close>, and it still fits the buffer.
\<close>

theorem transform_symlink_same_target:
  assumes "''.'' \<notin> set (comps path)" "''..'' \<notin> set (comps path)" "length buf < sz"
  shows "resolve_link (butlast (comps path)) (transform_symlink d path buf sz) =
           resolve_link (butlast (comps path)) buf \<and> length (transform_symlink d path buf sz) < sz"
proof (cases "transform_symlink d path buf sz = buf")
  case True
  then show ?thesis using assms(3) by simp
next
  case False
  obtain l t where lt: "strip_common buf path = (l, t)" by fastforce
  define k where "k = count_components t - 1"
  have nz: "count_components t \<noteq> 0" and abs: "buf \<noteq> []" "hd buf = CHR ''/''"
    and fits: "k * 3 + length l + 2 \<le> sz"
    and r: "transform_symlink d path buf sz = concat (replicate k ''../'') @ (if l \<noteq> [] then l else if k = 0 then ''.'' else [])"
    using False lt by (auto simp: transform_symlink_def Let_def k_def split: if_splits)
  obtain C where C: "comps buf = C @ comps l" "comps path = C @ comps t" and hl: "l = [] \<or> hd l \<noteq> CHR ''/''"
    using strip_common_comps [OF lt] by blast
  have tn: "comps t \<noteq> []" using nz by (simp add: count_components_comps)
  have dir: "butlast (comps path) = C @ butlast (comps t)" using C(2) tn by (simp add: butlast_append)
  have len: "length (butlast (comps t)) = k" using tn by (simp add: k_def count_components_comps)
  let ?r = "transform_symlink d path buf sz"
  let ?tail = "if l \<noteq> [] then l else if k = 0 then ''.'' else []"
  have tail: "foldl norm_step C (comps ?tail) = foldl norm_step C (comps l)"
  proof -
    have "comps ''.'' = [''.'']" using comps_app [of "''.''" "[]"] by simp
    then show ?thesis by (simp add: norm_step_def)
  qed
  have rel: "?r \<noteq> []" "hd ?r \<noteq> CHR ''/''"
    unfolding r using hl by (cases k; cases l; simp)+
  have "resolve_link (butlast (comps path)) ?r = foldl norm_step C (comps l)"
    using rel norm_up [OF len, of C] tail unfolding resolve_link_def r comps_dotdots dir by simp
  also have "\<dots> = foldl norm_step [] (comps buf)"
    using norm_plain [of C "[]"] assms(1,2) C by simp
  also have "\<dots> = resolve_link (butlast (comps path)) buf" using abs by (simp add: resolve_link_def)
  finally have "resolve_link (butlast (comps path)) ?r = resolve_link (butlast (comps path)) buf" .
  moreover have "length (concat (replicate k ''../'')) = k * 3" by (induction k) simp_all
  then have "length ?r < sz" unfolding r using fits by (auto split: if_splits)
  ultimately show ?thesis by blast
qed


text \<open>The witness: a link in \<open>/b/x\<close> that points to \<open>/b/y/f\<close> becomes \<open>../y/f\<close>.\<close>

definition demo_subdir :: "(unit, unit, unit) subdir" where
  "demo_subdir = \<lparr>base = ''/b/'', rellinks = True, next = \<lparr>fs_op = no_operations, user_data = (), compat = 0\<rparr>\<rparr>"

theorem transform_symlink_same_target_witness:
  "transform_symlink demo_subdir ''/b/x/l'' ''/b/y/f'' 100 = ''../y/f'' \<and>
   resolve_link (butlast (comps ''/b/x/l'')) (transform_symlink demo_subdir ''/b/x/l'' ''/b/y/f'' 100) = [''b'', ''y'', ''f''] \<and>
   length (transform_symlink demo_subdir ''/b/x/l'' ''/b/y/f'' 100) < 100"
proof -
  have "transform_symlink demo_subdir ''/b/x/l'' ''/b/y/f'' 100 = ''../y/f''" by code_simp
  moreover have "comps ''/b/x/l'' = [''b'', ''x'', ''l'']" "resolve_link [''b'', ''x''] ''/b/y/f'' = [''b'', ''y'', ''f'']"
    by code_simp+
  ultimately show ?thesis
    using transform_symlink_same_target [of "''/b/x/l''" "''/b/y/f''" 100 demo_subdir] by simp
qed

subsection \<open>No operation leaves the base directory\<close>

text \<open>The file system \<open>subdir_new\<close> builds.\<close>

definition stacked :: "('d, 'b, 'w) subdir \<Rightarrow> (('d, 'b, 'w) subdir, 'b, allocs \<times> 'w) fuse_fs" where
  "stacked d = \<lparr>fs_op = subdir_oper, user_data = d, compat = 0\<rparr>"

text \<open>Every operation of a file system, called with paths of a kind (or none), keeps a property of the world, whatever its other arguments are. What a symbolic
  link is to hold is not a path the operation works on.\<close>

definition preserves :: "(cstring \<Rightarrow> bool) \<Rightarrow> ('w \<Rightarrow> bool) \<Rightarrow> ('d, 'b, 'w) fuse_fs \<Rightarrow> bool" where
  "preserves P I fs \<longleftrightarrow> (\<forall>path w. pred_option P path \<and> I w \<longrightarrow>
     (\<forall>st. I (snd (snd (fuse_fs_getattr fs path st w)))) \<and>
     (\<forall>st fi. I (snd (snd (snd (fuse_fs_fgetattr fs path st fi w))))) \<and>
     (\<forall>msk. I (snd (fuse_fs_access fs path msk w))) \<and>
     (\<forall>n buf. I (snd (snd (fuse_fs_readlink fs path n buf w)))) \<and>
     (\<forall>filler off dh fi. I (snd (snd (snd (fuse_fs_readdir fs path filler off dh fi w))))) \<and>
     (\<forall>fi. I (snd (snd (fuse_fs_releasedir fs path fi w)))) \<and>
     (\<forall>mode rdev. I (snd (fuse_fs_mknod fs path mode rdev w))) \<and>
     (\<forall>mode. I (snd (fuse_fs_mkdir fs path mode w))) \<and>
     (I (snd (fuse_fs_unlink fs path w))) \<and>
     (I (snd (fuse_fs_rmdir fs path w))) \<and>
     (\<forall>mode. I (snd (fuse_fs_chmod fs path mode w))) \<and>
     (\<forall>uid gid. I (snd (fuse_fs_chown fs path uid gid w))) \<and>
     (\<forall>len. I (snd (fuse_fs_truncate fs path len w))) \<and>
     (\<forall>len fi. I (snd (snd (fuse_fs_ftruncate fs path len fi w)))) \<and>
     (\<forall>tv0 tv1. I (snd (fuse_fs_utimens fs path tv0 tv1 w))) \<and>
     (\<forall>mode fi. I (snd (snd (fuse_fs_create fs path mode fi w)))) \<and>
     (\<forall>sz off buf fi. I (snd (snd (snd (fuse_fs_read fs path sz off buf fi w))))) \<and>
     (\<forall>buf sz off fi. I (snd (snd (fuse_fs_write fs path buf sz off fi w)))) \<and>
     (\<forall>fi. I (snd (snd (fuse_fs_flush fs path fi w)))) \<and>
     (\<forall>datasync fi. I (snd (snd (fuse_fs_fsync fs path datasync fi w)))) \<and>
     (\<forall>datasync fi. I (snd (snd (fuse_fs_fsyncdir fs path datasync fi w)))) \<and>
     (\<forall>name val sz flags. I (snd (fuse_fs_setxattr fs path name val sz flags w))) \<and>
     (\<forall>name sz val. I (snd (snd (fuse_fs_getxattr fs path name sz val w)))) \<and>
     (\<forall>sz lst. I (snd (snd (fuse_fs_listxattr fs path sz lst w)))) \<and>
     (\<forall>name. I (snd (fuse_fs_removexattr fs path name w))) \<and>
     (\<forall>cmd fi lck. I (snd (snd (snd (fuse_fs_lock fs path cmd fi lck w))))) \<and>
     (\<forall>blocksize idx. I (snd (snd (fuse_fs_bmap fs path blocksize idx w)))) \<and>
     (\<forall>cmd arg ioflags fi dat. I (snd (snd (snd (fuse_fs_ioctl fs path cmd arg ioflags fi dat w))))) \<and>
     (\<forall>ph fi revents. I (snd (snd (snd (fuse_fs_poll fs path ph fi revents w))))) \<and>
     (\<forall>fi. pred_option (\<lambda>r. I (snd (snd r))) (fuse_fs_opendir fs path fi w)) \<and>
     (\<forall>fi. pred_option (\<lambda>r. I (snd (snd r))) (fuse_fs_open fs path fi w)) \<and>
     (\<forall>fi. pred_option (\<lambda>r. I (snd (snd r))) (fuse_fs_release fs path fi w)) \<and>
     (\<forall>stbuf. pred_option (\<lambda>r. I (snd (snd r))) (fuse_fs_statfs fs path stbuf w)) \<and>
     (\<forall>from. I (snd (fuse_fs_symlink fs from path w))) \<and>
     (\<forall>to. pred_option P to \<longrightarrow> I (snd (fuse_fs_rename fs path to w))) \<and>
     (\<forall>to. pred_option P to \<longrightarrow> I (snd (fuse_fs_link fs path to w))))"

lemma preservesD:
  assumes "preserves P I fs" "pred_option P path" "I w"
  shows "I (snd (snd (fuse_fs_getattr fs path st w)))"
    "I (snd (snd (snd (fuse_fs_fgetattr fs path st fi w))))"
    "I (snd (fuse_fs_access fs path msk w))"
    "I (snd (snd (fuse_fs_readlink fs path n buf w)))"
    "I (snd (snd (snd (fuse_fs_readdir fs path filler off dh fi w))))"
    "I (snd (snd (fuse_fs_releasedir fs path fi w)))"
    "I (snd (fuse_fs_mknod fs path mode rdev w))"
    "I (snd (fuse_fs_mkdir fs path mode w))"
    "I (snd (fuse_fs_unlink fs path w))"
    "I (snd (fuse_fs_rmdir fs path w))"
    "I (snd (fuse_fs_chmod fs path mode w))"
    "I (snd (fuse_fs_chown fs path uid gid w))"
    "I (snd (fuse_fs_truncate fs path len w))"
    "I (snd (snd (fuse_fs_ftruncate fs path len fi w)))"
    "I (snd (fuse_fs_utimens fs path tv0 tv1 w))"
    "I (snd (snd (fuse_fs_create fs path mode fi w)))"
    "I (snd (snd (snd (fuse_fs_read fs path sz off buf fi w))))"
    "I (snd (snd (fuse_fs_write fs path buf sz off fi w)))"
    "I (snd (snd (fuse_fs_flush fs path fi w)))"
    "I (snd (snd (fuse_fs_fsync fs path datasync fi w)))"
    "I (snd (snd (fuse_fs_fsyncdir fs path datasync fi w)))"
    "I (snd (fuse_fs_setxattr fs path name val sz flags w))"
    "I (snd (snd (fuse_fs_getxattr fs path name sz val w)))"
    "I (snd (snd (fuse_fs_listxattr fs path sz lst w)))"
    "I (snd (fuse_fs_removexattr fs path name w))"
    "I (snd (snd (snd (fuse_fs_lock fs path cmd fi lck w))))"
    "I (snd (snd (fuse_fs_bmap fs path blocksize idx w)))"
    "I (snd (snd (snd (fuse_fs_ioctl fs path cmd arg ioflags fi dat w))))"
    "I (snd (snd (snd (fuse_fs_poll fs path ph fi revents w))))"
    "pred_option (\<lambda>r. I (snd (snd r))) (fuse_fs_opendir fs path fi w)"
    "pred_option (\<lambda>r. I (snd (snd r))) (fuse_fs_open fs path fi w)"
    "pred_option (\<lambda>r. I (snd (snd r))) (fuse_fs_release fs path fi w)"
    "pred_option (\<lambda>r. I (snd (snd r))) (fuse_fs_statfs fs path stbuf w)"
    "I (snd (fuse_fs_symlink fs from path w))"
    "pred_option P to \<Longrightarrow> I (snd (fuse_fs_rename fs path to w))"
    "pred_option P to \<Longrightarrow> I (snd (fuse_fs_link fs path to w))"
  using assms(1) [unfolded preserves_def, THEN spec, THEN spec, THEN mp, OF conjI [OF assms(2,3)]] by simp_all

text \<open>A path below the base directory.\<close>

definition under :: "('d, 'b, 'w) subdir \<Rightarrow> cstring \<Rightarrow> bool" where
  "under d p \<longleftrightarrow> take (baselen d) p = base d \<and> p \<noteq> []"

lemma addpath_under: "subdir_addpath d path m = (err, newpath, m') \<Longrightarrow> pred_option (under d) newpath"
  by (auto simp: subdir_addpath_def under_def Let_def split: option.splits prod.splits if_splits)

lemmas subdir_defs =
  subdir_getattr_def subdir_fgetattr_def subdir_access_def subdir_readlink_def
  subdir_opendir_def subdir_readdir_def subdir_releasedir_def subdir_mknod_def
  subdir_mkdir_def subdir_unlink_def subdir_rmdir_def subdir_chmod_def subdir_chown_def
  subdir_truncate_def subdir_ftruncate_def subdir_utimens_def subdir_create_def
  subdir_open_def subdir_read_def subdir_write_def subdir_statfs_def subdir_flush_def
  subdir_release_def subdir_fsync_def subdir_fsyncdir_def subdir_setxattr_def
  subdir_getxattr_def subdir_listxattr_def subdir_removexattr_def subdir_lock_def
  subdir_bmap_def subdir_symlink_def subdir_rename_def subdir_link_def

lemma stacked_dispatch:
  shows
    "fuse_fs_getattr (stacked d) = subdir_getattr d" and
    "fuse_fs_fgetattr (stacked d) = subdir_fgetattr d" and
    "fuse_fs_access (stacked d) = subdir_access d" and
    "fuse_fs_readlink (stacked d) = subdir_readlink d" and
    "fuse_fs_opendir (stacked d) = subdir_opendir d" and
    "fuse_fs_readdir (stacked d) = subdir_readdir d" and
    "fuse_fs_releasedir (stacked d) = subdir_releasedir d" and
    "fuse_fs_mknod (stacked d) = subdir_mknod d" and
    "fuse_fs_mkdir (stacked d) = subdir_mkdir d" and
    "fuse_fs_unlink (stacked d) = subdir_unlink d" and
    "fuse_fs_rmdir (stacked d) = subdir_rmdir d" and
    "fuse_fs_chmod (stacked d) = subdir_chmod d" and
    "fuse_fs_chown (stacked d) = subdir_chown d" and
    "fuse_fs_truncate (stacked d) = subdir_truncate d" and
    "fuse_fs_ftruncate (stacked d) = subdir_ftruncate d" and
    "fuse_fs_utimens (stacked d) = subdir_utimens d" and
    "fuse_fs_create (stacked d) = subdir_create d" and
    "fuse_fs_open (stacked d) = subdir_open d" and
    "fuse_fs_read (stacked d) = subdir_read d" and
    "fuse_fs_write (stacked d) = subdir_write d" and
    "fuse_fs_statfs (stacked d) = subdir_statfs d" and
    "fuse_fs_flush (stacked d) = subdir_flush d" and
    "fuse_fs_release (stacked d) = subdir_release d" and
    "fuse_fs_fsync (stacked d) = subdir_fsync d" and
    "fuse_fs_fsyncdir (stacked d) = subdir_fsyncdir d" and
    "fuse_fs_setxattr (stacked d) = subdir_setxattr d" and
    "fuse_fs_getxattr (stacked d) = subdir_getxattr d" and
    "fuse_fs_listxattr (stacked d) = subdir_listxattr d" and
    "fuse_fs_removexattr (stacked d) = subdir_removexattr d" and
    "fuse_fs_lock (stacked d) = subdir_lock d" and
    "fuse_fs_bmap (stacked d) = subdir_bmap d" and
    "fuse_fs_symlink (stacked d) = subdir_symlink d" and
    "fuse_fs_rename (stacked d) = subdir_rename d" and
    "fuse_fs_link (stacked d) = subdir_link d"
  by (simp_all add: stacked_def subdir_oper_def fun_eq_iff
    fuse_fs_getattr_def fuse_fs_fgetattr_def fuse_fs_access_def fuse_fs_readlink_def fuse_fs_opendir_def fuse_fs_readdir_def fuse_fs_releasedir_def fuse_fs_mknod_def fuse_fs_mkdir_def fuse_fs_unlink_def fuse_fs_rmdir_def fuse_fs_chmod_def fuse_fs_chown_def fuse_fs_truncate_def fuse_fs_ftruncate_def fuse_fs_utimens_def fuse_fs_create_def fuse_fs_open_def fuse_fs_read_def fuse_fs_write_def fuse_fs_statfs_def fuse_fs_flush_def fuse_fs_release_def fuse_fs_fsync_def fuse_fs_fsyncdir_def fuse_fs_setxattr_def fuse_fs_getxattr_def fuse_fs_listxattr_def fuse_fs_removexattr_def fuse_fs_lock_def fuse_fs_bmap_def fuse_fs_symlink_def fuse_fs_rename_def fuse_fs_link_def
    fuse_compat_open_def fuse_compat_opendir_def fuse_compat_release_def fuse_compat_statfs_def)

lemma stacked_without: "fuse_fs_ioctl (stacked d) path cmd arg flags fi dat w = (- ENOSYS, fi, dat, w)" "fuse_fs_poll (stacked d) path ph fi revents w = (- ENOSYS, fi, revents, w)"
  by (simp_all add: stacked_def subdir_oper_def fuse_fs_ioctl_def fuse_fs_poll_def)

text \<open>
  C19: the module keeps to its base directory. Whatever is true of the world below, and is kept by every
  operation of the file system below as long as it is called with paths that begin with the base, is kept by every operation of the
  file system with the module on top, whatever paths it is called with, and whether there is memory or not. So what lies
  outside of the base stays as it is if the operations of the file system below change only what their paths name.
\<close>

theorem subdir_confines:
  assumes "preserves (under d) I (next d)"
  shows "preserves (\<lambda>_. True) (\<lambda>w. I (snd w)) (stacked d)"
  unfolding preserves_def
proof (intro allI impI, elim conjE)
  fix path and w :: "allocs \<times> _"
  assume w: "I (snd w)"
  obtain err np m where a: "subdir_addpath d path (fst w) = (err, np, m)" by (metis prod_cases3)
  note K = preservesD [OF assms addpath_under [OF a] w]
  have two: "I (snd (snd (fuse_fs_rename (stacked d) path to w)))" "I (snd (snd (fuse_fs_link (stacked d) path to w)))" for to
  proof -
    obtain err' np' m' where b: "subdir_addpath d to m = (err', np', m')" by (metis prod_cases3)
    show "I (snd (snd (fuse_fs_rename (stacked d) path to w)))" "I (snd (snd (fuse_fs_link (stacked d) path to w)))"
      using K(35,36) [OF addpath_under [OF b]] w by (simp_all add: stacked_dispatch subdir_rename_def subdir_link_def a b split_beta)
  qed
  show "(\<forall>st. I (snd (snd (snd (fuse_fs_getattr (stacked d) path st w))))) \<and>
     (\<forall>st fi. I (snd (snd (snd (snd (fuse_fs_fgetattr (stacked d) path st fi w)))))) \<and>
     (\<forall>msk. I (snd (snd (fuse_fs_access (stacked d) path msk w)))) \<and>
     (\<forall>n buf. I (snd (snd (snd (fuse_fs_readlink (stacked d) path n buf w))))) \<and>
     (\<forall>filler off dh fi. I (snd (snd (snd (snd (fuse_fs_readdir (stacked d) path filler off dh fi w)))))) \<and>
     (\<forall>fi. I (snd (snd (snd (fuse_fs_releasedir (stacked d) path fi w))))) \<and>
     (\<forall>mode rdev. I (snd (snd (fuse_fs_mknod (stacked d) path mode rdev w)))) \<and>
     (\<forall>mode. I (snd (snd (fuse_fs_mkdir (stacked d) path mode w)))) \<and>
     (I (snd (snd (fuse_fs_unlink (stacked d) path w)))) \<and>
     (I (snd (snd (fuse_fs_rmdir (stacked d) path w)))) \<and>
     (\<forall>mode. I (snd (snd (fuse_fs_chmod (stacked d) path mode w)))) \<and>
     (\<forall>uid gid. I (snd (snd (fuse_fs_chown (stacked d) path uid gid w)))) \<and>
     (\<forall>len. I (snd (snd (fuse_fs_truncate (stacked d) path len w)))) \<and>
     (\<forall>len fi. I (snd (snd (snd (fuse_fs_ftruncate (stacked d) path len fi w))))) \<and>
     (\<forall>tv0 tv1. I (snd (snd (fuse_fs_utimens (stacked d) path tv0 tv1 w)))) \<and>
     (\<forall>mode fi. I (snd (snd (snd (fuse_fs_create (stacked d) path mode fi w))))) \<and>
     (\<forall>sz off buf fi. I (snd (snd (snd (snd (fuse_fs_read (stacked d) path sz off buf fi w)))))) \<and>
     (\<forall>buf sz off fi. I (snd (snd (snd (fuse_fs_write (stacked d) path buf sz off fi w))))) \<and>
     (\<forall>fi. I (snd (snd (snd (fuse_fs_flush (stacked d) path fi w))))) \<and>
     (\<forall>datasync fi. I (snd (snd (snd (fuse_fs_fsync (stacked d) path datasync fi w))))) \<and>
     (\<forall>datasync fi. I (snd (snd (snd (fuse_fs_fsyncdir (stacked d) path datasync fi w))))) \<and>
     (\<forall>name val sz flags. I (snd (snd (fuse_fs_setxattr (stacked d) path name val sz flags w)))) \<and>
     (\<forall>name sz val. I (snd (snd (snd (fuse_fs_getxattr (stacked d) path name sz val w))))) \<and>
     (\<forall>sz lst. I (snd (snd (snd (fuse_fs_listxattr (stacked d) path sz lst w))))) \<and>
     (\<forall>name. I (snd (snd (fuse_fs_removexattr (stacked d) path name w)))) \<and>
     (\<forall>cmd fi lck. I (snd (snd (snd (snd (fuse_fs_lock (stacked d) path cmd fi lck w)))))) \<and>
     (\<forall>blocksize idx. I (snd (snd (snd (fuse_fs_bmap (stacked d) path blocksize idx w))))) \<and>
     (\<forall>cmd arg ioflags fi dat. I (snd (snd (snd (snd (fuse_fs_ioctl (stacked d) path cmd arg ioflags fi dat w)))))) \<and>
     (\<forall>ph fi revents. I (snd (snd (snd (snd (fuse_fs_poll (stacked d) path ph fi revents w)))))) \<and>
     (\<forall>fi. pred_option (\<lambda>r. I (snd (snd (snd r)))) (fuse_fs_opendir (stacked d) path fi w)) \<and>
     (\<forall>fi. pred_option (\<lambda>r. I (snd (snd (snd r)))) (fuse_fs_open (stacked d) path fi w)) \<and>
     (\<forall>fi. pred_option (\<lambda>r. I (snd (snd (snd r)))) (fuse_fs_release (stacked d) path fi w)) \<and>
     (\<forall>stbuf. pred_option (\<lambda>r. I (snd (snd (snd r)))) (fuse_fs_statfs (stacked d) path stbuf w)) \<and>
     (\<forall>from. I (snd (snd (fuse_fs_symlink (stacked d) from path w)))) \<and>
     (\<forall>to. pred_option (\<lambda>_. True) to \<longrightarrow> I (snd (snd (fuse_fs_rename (stacked d) path to w)))) \<and>
     (\<forall>to. pred_option (\<lambda>_. True) to \<longrightarrow> I (snd (snd (fuse_fs_link (stacked d) path to w))))"
    by (intro conjI allI impI; (rule two | simp add: w stacked_dispatch stacked_without subdir_defs a split_beta K option.pred_map comp_def))
qed

text \<open>The witness: a file system below that keeps a list of the directories it has made.\<close>

definition demo_mkdir :: "unit \<Rightarrow> cstring option \<Rightarrow> u32 \<Rightarrow> cstring list \<Rightarrow> int \<times> cstring list" where
  "demo_mkdir _ path mode w = (case path of Some p \<Rightarrow> (0, p # w) | None \<Rightarrow> (- ENOENT, w))"

definition demo_below :: "(unit, unit, cstring list) subdir" where
  "demo_below = \<lparr>base = ''/b/'', rellinks = True, next = \<lparr>fs_op = no_operations\<lparr>op_mkdir := Some demo_mkdir\<rparr>, user_data = (), compat = 0\<rparr>\<rparr>"

lemma demo_next: "next demo_below = \<lparr>fs_op = no_operations\<lparr>op_mkdir := Some demo_mkdir\<rparr>, user_data = (), compat = 0\<rparr>"
  by (simp add: demo_below_def)

lemma demo_below_keeps: "preserves (under demo_below) (list_all (under demo_below)) (next demo_below)"
  unfolding preserves_def
  by (intro allI impI conjI; auto simp: demo_next no_operations_def demo_mkdir_def fuse_fs_getattr_def fuse_fs_fgetattr_def fuse_fs_access_def fuse_fs_readlink_def fuse_fs_readdir_def fuse_fs_releasedir_def fuse_fs_mknod_def fuse_fs_mkdir_def fuse_fs_unlink_def fuse_fs_rmdir_def fuse_fs_chmod_def fuse_fs_chown_def fuse_fs_truncate_def fuse_fs_ftruncate_def fuse_fs_utimens_def fuse_fs_create_def fuse_fs_read_def fuse_fs_write_def fuse_fs_flush_def fuse_fs_fsync_def fuse_fs_fsyncdir_def fuse_fs_setxattr_def fuse_fs_getxattr_def fuse_fs_listxattr_def fuse_fs_removexattr_def fuse_fs_lock_def fuse_fs_bmap_def fuse_fs_ioctl_def fuse_fs_poll_def fuse_fs_opendir_def fuse_fs_open_def fuse_fs_release_def fuse_fs_statfs_def fuse_fs_symlink_def fuse_fs_rename_def fuse_fs_link_def fuse_compat_open_def fuse_compat_opendir_def fuse_compat_release_def fuse_compat_statfs_def split: option.splits)

theorem subdir_confines_witness:
  "fuse_fs_mkdir (stacked demo_below) (Some ''/x'') 0 ([True], []) = (0, [], [''/b/x'']) \<and>
   list_all (under demo_below) (snd (snd (fuse_fs_mkdir (stacked demo_below) (Some ''/etc'') 0 ([True], [''/b/x'']))))"
proof
  show "fuse_fs_mkdir (stacked demo_below) (Some ''/x'') 0 ([True], []) = (0, [], [''/b/x''])"
    by (simp add: stacked_dispatch subdir_mkdir_def subdir_addpath_def demo_below_def fuse_fs_mkdir_def demo_mkdir_def)
  have "list_all (under demo_below) (snd ([True], [''/b/x'']))" by (simp add: under_def demo_below_def)
  then show "list_all (under demo_below) (snd (snd (fuse_fs_mkdir (stacked demo_below) (Some ''/etc'') 0 ([True], [''/b/x'']))))"
    using preservesD(8) [OF subdir_confines [OF demo_below_keeps], of "Some ''/etc''" "([True], [''/b/x''])" 0] by simp
qed

end
