(* ===== verification/Iconv_Module.thy ===== *)
theory Iconv_Module
  imports Complex_Main Fuse_Prelude Fuse_Opt Fuse_Fs
begin

text \<open>
  The module \<open>iconv\<close> (\<open>lib/modules/iconv.c\<close>): a file system stacked on another one that converts the names of files between two
  character sets. The C library's conversion is a parameter: a function that takes the state of the conversions and the
  input that is left and gives the number of bytes of the next character, what it is converted to and the new state, or nothing for
  bytes that are no character. From it the call \<open>iconv\<close> is built: it converts one character after the
  other and stops where the next one does not fit into the output buffer.
\<close>

subsection \<open>The conversion\<close>

abbreviation (input) EILSEQ :: int where "EILSEQ \<equiv> 84"

type_synonym 'c conv = "'c \<Rightarrow> cstring \<Rightarrow> (nat \<times> cstring \<times> 'c) option"

datatype conv_end = Conv_ok | Conv_big | Conv_bad

text \<open>How it ended, the output, the input that is left, the room that is left and the state.\<close>

function iconv_run :: "'c conv \<Rightarrow> 'c \<Rightarrow> cstring \<Rightarrow> nat \<Rightarrow> conv_end \<times> cstring \<times> cstring \<times> nat \<times> 'c" where
  "iconv_run f c s room =
     (if s = [] then (Conv_ok, [], [], room, c)
      else case f c s of
          None \<Rightarrow> (Conv_bad, [], s, room, c)
        | Some (n, out, c') \<Rightarrow>
            if length out > room then (Conv_big, [], s, room, c)
            else let (e, o', rest, room', c'') = iconv_run f c' (drop (max 1 n) s) (room - length out)
                 in (e, out @ o', rest, room', c''))"
  by pat_completeness auto
termination
  by (relation "measure (\<lambda>(f, c, s, room). length s)") auto

declare iconv_run.simps [simp del]

text \<open>
  \<open>struct iconv\<close>: the two descriptors and the file system below. The names of the character sets are only needed by \<open>iconv_new\<close>, which has them
  in the data of its options; the lock is held for one call of \<open>iconv_convpath\<close>, which is one step here. \<open>conv_reset\<close> is what
  \<open>iconv\<close> does to the state of a conversion when it is called without input.
\<close>

record ('c, 'd, 'b, 'w) iconv =
  tofs :: "'c conv option"  \<comment> \<open>\<open>None\<close>: the descriptor -1\<close>
  fromfs :: "'c conv option"
  conv_reset :: "'c \<Rightarrow> 'c"
  ic_next :: "('d, 'b \<times> allocs \<times> 'c, 'w) fuse_fs"

text \<open>The room the character needs at which a conversion stopped.\<close>

definition need :: "'c conv \<Rightarrow> 'c \<Rightarrow> cstring \<Rightarrow> nat" where
  "need f c s = (case f c s of Some (n, out, c') \<Rightarrow> length out | None \<Rightarrow> 0)"

lemma iconv_run_big:
  assumes "iconv_run f c s room = (Conv_big, out, rest, room', c')"
  shows "rest \<noteq> [] \<and> (length rest < length s \<or> rest = s \<and> c' = c \<and> room' = room \<and> room < need f c s)"
  using assms
proof (induction f c s room arbitrary: out rest room' c' rule: iconv_run.induct)
  case (1 f c s room)
  show ?case
  proof (cases "s = []")
    case True
    then show ?thesis using 1(2) by (simp add: iconv_run.simps)
  next
    case s: False
    show ?thesis
    proof (cases "f c s")
      case None
      then show ?thesis using 1(2) s by (simp add: iconv_run.simps [of f c s])
    next
      case (Some x)
      obtain n o' d where x: "x = (n, o', d)" by (cases x)
      have l: "length (drop (max 1 n) s) < length s" using s by auto
      show ?thesis
      proof (cases "length o' > room")
        case True
        then show ?thesis using 1(2) s Some x by (simp add: iconv_run.simps [of f c s] need_def)
      next
        case False
        then obtain o'' where "iconv_run f d (drop (max 1 n) s) (room - length o') = (Conv_big, o'', rest, room', c')"
          using 1(2) s Some x by (subst (asm) (2) iconv_run.simps) (auto split: prod.splits)
        from 1(1) [OF s Some x [symmetric] refl False this] show ?thesis using l by auto
      qed
    qed
  qed
qed

text \<open>The loop of \<open>iconv_convpath\<close>: \<open>newpath\<close> is what is in the buffer, \<open>buflen\<close> its length without the byte for the end. The error, the string,
  the length of the buffer, the memory and the state.\<close>

function conv_loop :: "'c conv option \<Rightarrow> ('c \<Rightarrow> 'c) \<Rightarrow> cstring \<Rightarrow> nat \<Rightarrow> cstring \<Rightarrow> nat \<Rightarrow> allocs \<times> 'c \<Rightarrow> int \<times> cstring option \<times> nat \<times> allocs \<times> 'c" where
  "conv_loop None reset path plen newpath buflen (m, c) = (- EILSEQ, None, buflen, m, c)"
| "conv_loop (Some f) reset path plen newpath buflen (m, c) =
     (case iconv_run f c path plen of
        (Conv_ok, out, rest, room, c) \<Rightarrow> (0, Some (newpath @ out), buflen, m, c)
      | (Conv_bad, out, rest, room, c) \<Rightarrow> (- EILSEQ, None, buflen, m, reset c)
      | (Conv_big, out, rest, room, c) \<Rightarrow>
          (let inc = (length rest + 1) * 4; (ok, m) = alloc m
           in if \<not> ok then (- ENOMEM, None, buflen, m, reset c)
              else conv_loop (Some f) reset rest (room + inc) (newpath @ out) (buflen + inc) (m, c)))"
  by pat_completeness auto
termination
proof (relation "measures [\<lambda>(f, reset, path, plen, newpath, buflen, m, c). length path,
    \<lambda>(f, reset, path, plen, newpath, buflen, m, c). case f of Some f \<Rightarrow> need f c path - plen | None \<Rightarrow> 0]", goal_cases)
  case (2 f reset path plen newpath buflen m c x1 x2 out y rest z room c' inc al ok m')
  then have "iconv_run f c path plen = (Conv_big, out, rest, room, c')" by simp
  from iconv_run_big [OF this] show ?case using 2 by auto
qed simp

declare conv_loop.simps [simp del]

text \<open>The error, the new path (if the error is 0), the memory and the state.\<close>

definition iconv_convpath :: "('c, 'd, 'b, 'w) iconv \<Rightarrow> cstring option \<Rightarrow> bool \<Rightarrow> allocs \<times> 'c \<Rightarrow> int \<times> cstring option \<times> allocs \<times> 'c" where
  "iconv_convpath d path from_fs mc =
     (case path of
        None \<Rightarrow> (0, None, mc)
      | Some path \<Rightarrow>
          (let newpathlen = length path * 4; (ok, m) = alloc (fst mc)
           in if \<not> ok then (- ENOMEM, None, m, snd mc)
              else let (err, newpath, buflen, m, c) =
                         conv_loop (if from_fs then fromfs d else tofs d) (conv_reset d) path newpathlen [] newpathlen (m, snd mc)
                   in (err, newpath, m, c)))"

subsection \<open>Operations\<close>

definition iconv_getattr :: "('c, 'd, 'b, 'w) iconv \<Rightarrow> cstring option \<Rightarrow> stat \<Rightarrow> (allocs \<times> 'c) \<times> 'w \<Rightarrow> int \<times> stat \<times> (allocs \<times> 'c) \<times> 'w" where
  "iconv_getattr d path stbuf w =
     (let (err, newpath, m) = iconv_convpath d path False (fst w)
      in if err \<noteq> 0 then (err, stbuf, m, snd w)
         else let (err, stbuf, w') = fuse_fs_getattr (ic_next d) newpath stbuf (snd w) in (err, stbuf, m, w'))"

definition iconv_fgetattr :: "('c, 'd, 'b, 'w) iconv \<Rightarrow> cstring option \<Rightarrow> stat \<Rightarrow> fuse_file_info \<Rightarrow> (allocs \<times> 'c) \<times> 'w \<Rightarrow> int \<times> stat \<times> fuse_file_info \<times> (allocs \<times> 'c) \<times> 'w" where
  "iconv_fgetattr d path stbuf fi w =
     (let (err, newpath, m) = iconv_convpath d path False (fst w)
      in if err \<noteq> 0 then (err, stbuf, fi, m, snd w)
         else let (err, stbuf, fi, w') = fuse_fs_fgetattr (ic_next d) newpath stbuf fi (snd w) in (err, stbuf, fi, m, w'))"

definition iconv_access :: "('c, 'd, 'b, 'w) iconv \<Rightarrow> cstring option \<Rightarrow> int \<Rightarrow> (allocs \<times> 'c) \<times> 'w \<Rightarrow> int \<times> (allocs \<times> 'c) \<times> 'w" where
  "iconv_access d path msk w =
     (let (err, newpath, m) = iconv_convpath d path False (fst w)
      in if err \<noteq> 0 then (err, m, snd w)
         else let (err, w') = fuse_fs_access (ic_next d) newpath msk (snd w) in (err, m, w'))"

text \<open>The target of a link is converted back; it is cut off where the buffer ends.\<close>

definition iconv_readlink :: "('c, 'd, 'b, 'w) iconv \<Rightarrow> cstring option \<Rightarrow> nat \<Rightarrow> cbuf \<Rightarrow> (allocs \<times> 'c) \<times> 'w \<Rightarrow> int \<times> cbuf \<times> (allocs \<times> 'c) \<times> 'w" where
  "iconv_readlink d path len buf w =
     (let (err, newpath, m) = iconv_convpath d path False (fst w)
      in if err \<noteq> 0 then (err, buf, m, snd w)
         else let (err, buf, w') = fuse_fs_readlink (ic_next d) newpath len buf (snd w)
              in if err \<noteq> 0 then (err, buf, m, w')
                 else let (err, newlink, m) = iconv_convpath d (Some buf) True m
                      in (err, if err = 0 then take (len - 1) (the newlink) else buf, m, w'))"

definition iconv_opendir :: "('c, 'd, 'b, 'w) iconv \<Rightarrow> cstring option \<Rightarrow> fuse_file_info \<Rightarrow> (allocs \<times> 'c) \<times> 'w \<Rightarrow> (int \<times> fuse_file_info \<times> (allocs \<times> 'c) \<times> 'w) option" where
  "iconv_opendir d path fi w =
     (let (err, newpath, m) = iconv_convpath d path False (fst w)
      in if err \<noteq> 0 then Some (err, fi, m, snd w)
         else map_option (\<lambda>(err, fi, w'). (err, fi, m, w')) (fuse_fs_opendir (ic_next d) newpath fi (snd w)))"

text \<open>What the file system below calls with each name: the buffer is the one of the caller and the memory and state of the conversion.\<close>

definition iconv_dir_fill :: "('c, 'd, 'b, 'w) iconv \<Rightarrow> 'b fill_dir_t \<Rightarrow> ('b \<times> allocs \<times> 'c) fill_dir_t" where
  "iconv_dir_fill d prev_filler dh name stbuf off =
     (let (err, newname, m) = iconv_convpath d (Some name) True (snd dh)
      in if err = 0 then let (res, prev_buf) = prev_filler (fst dh) (the newname) stbuf off in (res, prev_buf, m)
         else (0, fst dh, m))"

definition iconv_readdir ::
  "('c, 'd, 'b, 'w) iconv \<Rightarrow> cstring option \<Rightarrow> 'b fill_dir_t \<Rightarrow> off_t \<Rightarrow> 'b \<Rightarrow> fuse_file_info \<Rightarrow> (allocs \<times> 'c) \<times> 'w \<Rightarrow>
     int \<times> 'b \<times> fuse_file_info \<times> (allocs \<times> 'c) \<times> 'w" where
  "iconv_readdir d path filler off buf fi w =
     (let (err, newpath, m) = iconv_convpath d path False (fst w)
      in if err \<noteq> 0 then (err, buf, fi, m, snd w)
         else let (err, dh, fi, w') = fuse_fs_readdir (ic_next d) newpath (iconv_dir_fill d filler) off (buf, m) fi (snd w)
              in (err, fst dh, fi, snd dh, w'))"

definition iconv_releasedir :: "('c, 'd, 'b, 'w) iconv \<Rightarrow> cstring option \<Rightarrow> fuse_file_info \<Rightarrow> (allocs \<times> 'c) \<times> 'w \<Rightarrow> int \<times> fuse_file_info \<times> (allocs \<times> 'c) \<times> 'w" where
  "iconv_releasedir d path fi w =
     (let (err, newpath, m) = iconv_convpath d path False (fst w)
      in if err \<noteq> 0 then (err, fi, m, snd w)
         else let (err, fi, w') = fuse_fs_releasedir (ic_next d) newpath fi (snd w) in (err, fi, m, w'))"

definition iconv_mknod :: "('c, 'd, 'b, 'w) iconv \<Rightarrow> cstring option \<Rightarrow> u32 \<Rightarrow> u64 \<Rightarrow> (allocs \<times> 'c) \<times> 'w \<Rightarrow> int \<times> (allocs \<times> 'c) \<times> 'w" where
  "iconv_mknod d path mode rdev w =
     (let (err, newpath, m) = iconv_convpath d path False (fst w)
      in if err \<noteq> 0 then (err, m, snd w)
         else let (err, w') = fuse_fs_mknod (ic_next d) newpath mode rdev (snd w) in (err, m, w'))"

definition iconv_mkdir :: "('c, 'd, 'b, 'w) iconv \<Rightarrow> cstring option \<Rightarrow> u32 \<Rightarrow> (allocs \<times> 'c) \<times> 'w \<Rightarrow> int \<times> (allocs \<times> 'c) \<times> 'w" where
  "iconv_mkdir d path mode w =
     (let (err, newpath, m) = iconv_convpath d path False (fst w)
      in if err \<noteq> 0 then (err, m, snd w)
         else let (err, w') = fuse_fs_mkdir (ic_next d) newpath mode (snd w) in (err, m, w'))"

definition iconv_unlink :: "('c, 'd, 'b, 'w) iconv \<Rightarrow> cstring option \<Rightarrow> (allocs \<times> 'c) \<times> 'w \<Rightarrow> int \<times> (allocs \<times> 'c) \<times> 'w" where
  "iconv_unlink d path w =
     (let (err, newpath, m) = iconv_convpath d path False (fst w)
      in if err \<noteq> 0 then (err, m, snd w)
         else let (err, w') = fuse_fs_unlink (ic_next d) newpath (snd w) in (err, m, w'))"

definition iconv_rmdir :: "('c, 'd, 'b, 'w) iconv \<Rightarrow> cstring option \<Rightarrow> (allocs \<times> 'c) \<times> 'w \<Rightarrow> int \<times> (allocs \<times> 'c) \<times> 'w" where
  "iconv_rmdir d path w =
     (let (err, newpath, m) = iconv_convpath d path False (fst w)
      in if err \<noteq> 0 then (err, m, snd w)
         else let (err, w') = fuse_fs_rmdir (ic_next d) newpath (snd w) in (err, m, w'))"

definition iconv_symlink ::
  "('c, 'd, 'b, 'w) iconv \<Rightarrow> cstring option \<Rightarrow> cstring option \<Rightarrow> (allocs \<times> 'c) \<times> 'w \<Rightarrow> int \<times> (allocs \<times> 'c) \<times> 'w" where
  "iconv_symlink d from to w =
     (let (err, newfrom, m) = iconv_convpath d from False (fst w)
      in if err \<noteq> 0 then (err, m, snd w)
         else let (err, newto, m) = iconv_convpath d to False m
              in if err \<noteq> 0 then (err, m, snd w)
                 else let (err, w') = fuse_fs_symlink (ic_next d) newfrom newto (snd w) in (err, m, w'))"

definition iconv_rename ::
  "('c, 'd, 'b, 'w) iconv \<Rightarrow> cstring option \<Rightarrow> cstring option \<Rightarrow> (allocs \<times> 'c) \<times> 'w \<Rightarrow> int \<times> (allocs \<times> 'c) \<times> 'w" where
  "iconv_rename d from to w =
     (let (err, newfrom, m) = iconv_convpath d from False (fst w)
      in if err \<noteq> 0 then (err, m, snd w)
         else let (err, newto, m) = iconv_convpath d to False m
              in if err \<noteq> 0 then (err, m, snd w)
                 else let (err, w') = fuse_fs_rename (ic_next d) newfrom newto (snd w) in (err, m, w'))"

definition iconv_link ::
  "('c, 'd, 'b, 'w) iconv \<Rightarrow> cstring option \<Rightarrow> cstring option \<Rightarrow> (allocs \<times> 'c) \<times> 'w \<Rightarrow> int \<times> (allocs \<times> 'c) \<times> 'w" where
  "iconv_link d from to w =
     (let (err, newfrom, m) = iconv_convpath d from False (fst w)
      in if err \<noteq> 0 then (err, m, snd w)
         else let (err, newto, m) = iconv_convpath d to False m
              in if err \<noteq> 0 then (err, m, snd w)
                 else let (err, w') = fuse_fs_link (ic_next d) newfrom newto (snd w) in (err, m, w'))"

definition iconv_chmod :: "('c, 'd, 'b, 'w) iconv \<Rightarrow> cstring option \<Rightarrow> u32 \<Rightarrow> (allocs \<times> 'c) \<times> 'w \<Rightarrow> int \<times> (allocs \<times> 'c) \<times> 'w" where
  "iconv_chmod d path mode w =
     (let (err, newpath, m) = iconv_convpath d path False (fst w)
      in if err \<noteq> 0 then (err, m, snd w)
         else let (err, w') = fuse_fs_chmod (ic_next d) newpath mode (snd w) in (err, m, w'))"

definition iconv_chown :: "('c, 'd, 'b, 'w) iconv \<Rightarrow> cstring option \<Rightarrow> u32 \<Rightarrow> u32 \<Rightarrow> (allocs \<times> 'c) \<times> 'w \<Rightarrow> int \<times> (allocs \<times> 'c) \<times> 'w" where
  "iconv_chown d path uid gid w =
     (let (err, newpath, m) = iconv_convpath d path False (fst w)
      in if err \<noteq> 0 then (err, m, snd w)
         else let (err, w') = fuse_fs_chown (ic_next d) newpath uid gid (snd w) in (err, m, w'))"

definition iconv_truncate :: "('c, 'd, 'b, 'w) iconv \<Rightarrow> cstring option \<Rightarrow> off_t \<Rightarrow> (allocs \<times> 'c) \<times> 'w \<Rightarrow> int \<times> (allocs \<times> 'c) \<times> 'w" where
  "iconv_truncate d path sz w =
     (let (err, newpath, m) = iconv_convpath d path False (fst w)
      in if err \<noteq> 0 then (err, m, snd w)
         else let (err, w') = fuse_fs_truncate (ic_next d) newpath sz (snd w) in (err, m, w'))"

definition iconv_ftruncate :: "('c, 'd, 'b, 'w) iconv \<Rightarrow> cstring option \<Rightarrow> off_t \<Rightarrow> fuse_file_info \<Rightarrow> (allocs \<times> 'c) \<times> 'w \<Rightarrow> int \<times> fuse_file_info \<times> (allocs \<times> 'c) \<times> 'w" where
  "iconv_ftruncate d path sz fi w =
     (let (err, newpath, m) = iconv_convpath d path False (fst w)
      in if err \<noteq> 0 then (err, fi, m, snd w)
         else let (err, fi, w') = fuse_fs_ftruncate (ic_next d) newpath sz fi (snd w) in (err, fi, m, w'))"

definition iconv_utimens :: "('c, 'd, 'b, 'w) iconv \<Rightarrow> cstring option \<Rightarrow> timespec \<Rightarrow> timespec \<Rightarrow> (allocs \<times> 'c) \<times> 'w \<Rightarrow> int \<times> (allocs \<times> 'c) \<times> 'w" where
  "iconv_utimens d path tv0 tv1 w =
     (let (err, newpath, m) = iconv_convpath d path False (fst w)
      in if err \<noteq> 0 then (err, m, snd w)
         else let (err, w') = fuse_fs_utimens (ic_next d) newpath tv0 tv1 (snd w) in (err, m, w'))"

definition iconv_create :: "('c, 'd, 'b, 'w) iconv \<Rightarrow> cstring option \<Rightarrow> u32 \<Rightarrow> fuse_file_info \<Rightarrow> (allocs \<times> 'c) \<times> 'w \<Rightarrow> int \<times> fuse_file_info \<times> (allocs \<times> 'c) \<times> 'w" where
  "iconv_create d path mode fi w =
     (let (err, newpath, m) = iconv_convpath d path False (fst w)
      in if err \<noteq> 0 then (err, fi, m, snd w)
         else let (err, fi, w') = fuse_fs_create (ic_next d) newpath mode fi (snd w) in (err, fi, m, w'))"

definition iconv_open_file :: "('c, 'd, 'b, 'w) iconv \<Rightarrow> cstring option \<Rightarrow> fuse_file_info \<Rightarrow> (allocs \<times> 'c) \<times> 'w \<Rightarrow> (int \<times> fuse_file_info \<times> (allocs \<times> 'c) \<times> 'w) option" where
  "iconv_open_file d path fi w =
     (let (err, newpath, m) = iconv_convpath d path False (fst w)
      in if err \<noteq> 0 then Some (err, fi, m, snd w)
         else map_option (\<lambda>(err, fi, w'). (err, fi, m, w')) (fuse_fs_open (ic_next d) newpath fi (snd w)))"

definition iconv_read :: "('c, 'd, 'b, 'w) iconv \<Rightarrow> cstring option \<Rightarrow> nat \<Rightarrow> off_t \<Rightarrow> cbuf \<Rightarrow> fuse_file_info \<Rightarrow> (allocs \<times> 'c) \<times> 'w \<Rightarrow> int \<times> cbuf \<times> fuse_file_info \<times> (allocs \<times> 'c) \<times> 'w" where
  "iconv_read d path sz off buf fi w =
     (let (err, newpath, m) = iconv_convpath d path False (fst w)
      in if err \<noteq> 0 then (err, buf, fi, m, snd w)
         else let (err, buf, fi, w') = fuse_fs_read (ic_next d) newpath sz off buf fi (snd w) in (err, buf, fi, m, w'))"

definition iconv_write :: "('c, 'd, 'b, 'w) iconv \<Rightarrow> cstring option \<Rightarrow> cbuf \<Rightarrow> nat \<Rightarrow> off_t \<Rightarrow> fuse_file_info \<Rightarrow> (allocs \<times> 'c) \<times> 'w \<Rightarrow> int \<times> fuse_file_info \<times> (allocs \<times> 'c) \<times> 'w" where
  "iconv_write d path buf sz off fi w =
     (let (err, newpath, m) = iconv_convpath d path False (fst w)
      in if err \<noteq> 0 then (err, fi, m, snd w)
         else let (err, fi, w') = fuse_fs_write (ic_next d) newpath buf sz off fi (snd w) in (err, fi, m, w'))"

definition iconv_statfs :: "('c, 'd, 'b, 'w) iconv \<Rightarrow> cstring option \<Rightarrow> statvfs \<Rightarrow> (allocs \<times> 'c) \<times> 'w \<Rightarrow> (int \<times> statvfs \<times> (allocs \<times> 'c) \<times> 'w) option" where
  "iconv_statfs d path stbuf w =
     (let (err, newpath, m) = iconv_convpath d path False (fst w)
      in if err \<noteq> 0 then Some (err, stbuf, m, snd w)
         else map_option (\<lambda>(err, stbuf, w'). (err, stbuf, m, w')) (fuse_fs_statfs (ic_next d) newpath stbuf (snd w)))"

definition iconv_flush :: "('c, 'd, 'b, 'w) iconv \<Rightarrow> cstring option \<Rightarrow> fuse_file_info \<Rightarrow> (allocs \<times> 'c) \<times> 'w \<Rightarrow> int \<times> fuse_file_info \<times> (allocs \<times> 'c) \<times> 'w" where
  "iconv_flush d path fi w =
     (let (err, newpath, m) = iconv_convpath d path False (fst w)
      in if err \<noteq> 0 then (err, fi, m, snd w)
         else let (err, fi, w') = fuse_fs_flush (ic_next d) newpath fi (snd w) in (err, fi, m, w'))"

definition iconv_release :: "('c, 'd, 'b, 'w) iconv \<Rightarrow> cstring option \<Rightarrow> fuse_file_info \<Rightarrow> (allocs \<times> 'c) \<times> 'w \<Rightarrow> (int \<times> fuse_file_info \<times> (allocs \<times> 'c) \<times> 'w) option" where
  "iconv_release d path fi w =
     (let (err, newpath, m) = iconv_convpath d path False (fst w)
      in if err \<noteq> 0 then Some (err, fi, m, snd w)
         else map_option (\<lambda>(err, fi, w'). (err, fi, m, w')) (fuse_fs_release (ic_next d) newpath fi (snd w)))"

definition iconv_fsync :: "('c, 'd, 'b, 'w) iconv \<Rightarrow> cstring option \<Rightarrow> int \<Rightarrow> fuse_file_info \<Rightarrow> (allocs \<times> 'c) \<times> 'w \<Rightarrow> int \<times> fuse_file_info \<times> (allocs \<times> 'c) \<times> 'w" where
  "iconv_fsync d path datasync fi w =
     (let (err, newpath, m) = iconv_convpath d path False (fst w)
      in if err \<noteq> 0 then (err, fi, m, snd w)
         else let (err, fi, w') = fuse_fs_fsync (ic_next d) newpath datasync fi (snd w) in (err, fi, m, w'))"

definition iconv_fsyncdir :: "('c, 'd, 'b, 'w) iconv \<Rightarrow> cstring option \<Rightarrow> int \<Rightarrow> fuse_file_info \<Rightarrow> (allocs \<times> 'c) \<times> 'w \<Rightarrow> int \<times> fuse_file_info \<times> (allocs \<times> 'c) \<times> 'w" where
  "iconv_fsyncdir d path datasync fi w =
     (let (err, newpath, m) = iconv_convpath d path False (fst w)
      in if err \<noteq> 0 then (err, fi, m, snd w)
         else let (err, fi, w') = fuse_fs_fsyncdir (ic_next d) newpath datasync fi (snd w) in (err, fi, m, w'))"

definition iconv_setxattr :: "('c, 'd, 'b, 'w) iconv \<Rightarrow> cstring option \<Rightarrow> cstring \<Rightarrow> cbuf \<Rightarrow> nat \<Rightarrow> int \<Rightarrow> (allocs \<times> 'c) \<times> 'w \<Rightarrow> int \<times> (allocs \<times> 'c) \<times> 'w" where
  "iconv_setxattr d path name val sz flags w =
     (let (err, newpath, m) = iconv_convpath d path False (fst w)
      in if err \<noteq> 0 then (err, m, snd w)
         else let (err, w') = fuse_fs_setxattr (ic_next d) newpath name val sz flags (snd w) in (err, m, w'))"

definition iconv_getxattr :: "('c, 'd, 'b, 'w) iconv \<Rightarrow> cstring option \<Rightarrow> cstring \<Rightarrow> nat \<Rightarrow> cbuf \<Rightarrow> (allocs \<times> 'c) \<times> 'w \<Rightarrow> int \<times> cbuf \<times> (allocs \<times> 'c) \<times> 'w" where
  "iconv_getxattr d path name sz val w =
     (let (err, newpath, m) = iconv_convpath d path False (fst w)
      in if err \<noteq> 0 then (err, val, m, snd w)
         else let (err, val, w') = fuse_fs_getxattr (ic_next d) newpath name sz val (snd w) in (err, val, m, w'))"

definition iconv_listxattr :: "('c, 'd, 'b, 'w) iconv \<Rightarrow> cstring option \<Rightarrow> nat \<Rightarrow> cbuf \<Rightarrow> (allocs \<times> 'c) \<times> 'w \<Rightarrow> int \<times> cbuf \<times> (allocs \<times> 'c) \<times> 'w" where
  "iconv_listxattr d path sz lst w =
     (let (err, newpath, m) = iconv_convpath d path False (fst w)
      in if err \<noteq> 0 then (err, lst, m, snd w)
         else let (err, lst, w') = fuse_fs_listxattr (ic_next d) newpath sz lst (snd w) in (err, lst, m, w'))"

definition iconv_removexattr :: "('c, 'd, 'b, 'w) iconv \<Rightarrow> cstring option \<Rightarrow> cstring \<Rightarrow> (allocs \<times> 'c) \<times> 'w \<Rightarrow> int \<times> (allocs \<times> 'c) \<times> 'w" where
  "iconv_removexattr d path name w =
     (let (err, newpath, m) = iconv_convpath d path False (fst w)
      in if err \<noteq> 0 then (err, m, snd w)
         else let (err, w') = fuse_fs_removexattr (ic_next d) newpath name (snd w) in (err, m, w'))"

definition iconv_lock :: "('c, 'd, 'b, 'w) iconv \<Rightarrow> cstring option \<Rightarrow> int \<Rightarrow> fuse_file_info \<Rightarrow> flock \<Rightarrow> (allocs \<times> 'c) \<times> 'w \<Rightarrow> int \<times> fuse_file_info \<times> flock \<times> (allocs \<times> 'c) \<times> 'w" where
  "iconv_lock d path cmd fi lck w =
     (let (err, newpath, m) = iconv_convpath d path False (fst w)
      in if err \<noteq> 0 then (err, fi, lck, m, snd w)
         else let (err, fi, lck, w') = fuse_fs_lock (ic_next d) newpath cmd fi lck (snd w) in (err, fi, lck, m, w'))"

definition iconv_bmap :: "('c, 'd, 'b, 'w) iconv \<Rightarrow> cstring option \<Rightarrow> nat \<Rightarrow> u64 \<Rightarrow> (allocs \<times> 'c) \<times> 'w \<Rightarrow> int \<times> u64 \<times> (allocs \<times> 'c) \<times> 'w" where
  "iconv_bmap d path blocksize idx w =
     (let (err, newpath, m) = iconv_convpath d path False (fst w)
      in if err \<noteq> 0 then (err, idx, m, snd w)
         else let (err, idx, w') = fuse_fs_bmap (ic_next d) newpath blocksize idx (snd w) in (err, idx, m, w'))"

definition iconv_init :: "('c, 'd, 'b, 'w) iconv \<Rightarrow> fuse_conn_info \<Rightarrow> (allocs \<times> 'c) \<times> 'w \<Rightarrow> ('c, 'd, 'b, 'w) iconv \<times> fuse_conn_info \<times> (allocs \<times> 'c) \<times> 'w" where
  "iconv_init d conn w =
     (let (fs, conn, w') = fuse_fs_init (ic_next d) conn (snd w) in (d\<lparr>ic_next := fs\<rparr>, conn, fst w, w'))"

definition iconv_destroy :: "('c, 'd, 'b, 'w) iconv \<Rightarrow> (allocs \<times> 'c) \<times> 'w \<Rightarrow> (allocs \<times> 'c) \<times> 'w" where
  "iconv_destroy d w = (fst w, fuse_fs_destroy (ic_next d) (snd w))"

definition iconv_oper :: "(('c, 'd, 'b, 'w) iconv, 'b, (allocs \<times> 'c) \<times> 'w) fuse_operations" where
  "iconv_oper = \<lparr>
     op_getattr = Some iconv_getattr,
     op_fgetattr = Some iconv_fgetattr,
     op_readlink = Some iconv_readlink,
     op_mknod = Some iconv_mknod,
     op_mkdir = Some iconv_mkdir,
     op_unlink = Some iconv_unlink,
     op_rmdir = Some iconv_rmdir,
     op_chmod = Some iconv_chmod,
     op_chown = Some iconv_chown,
     op_truncate = Some iconv_truncate,
     op_ftruncate = Some iconv_ftruncate,
     op_utimens = Some iconv_utimens,
     op_utime = None,
     op_access = Some iconv_access,
     op_read = Some iconv_read,
     op_write = Some iconv_write,
     op_fsync = Some iconv_fsync,
     op_fsyncdir = Some iconv_fsyncdir,
     op_flush = Some iconv_flush,
     op_releasedir = Some iconv_releasedir,
     op_create = Some iconv_create,
     op_lock = Some iconv_lock,
     op_setxattr = Some iconv_setxattr,
     op_getxattr = Some iconv_getxattr,
     op_listxattr = Some iconv_listxattr,
     op_removexattr = Some iconv_removexattr,
     op_bmap = Some iconv_bmap,
     op_ioctl = None,
     op_poll = None,
     op_symlink = Some iconv_symlink,
     op_rename = Some iconv_rename,
     op_link = Some iconv_link,
     op_open = Some (Open25 iconv_open_file),
     op_opendir = Some (Open25 iconv_opendir),
     op_release = Some (Open25 iconv_release),
     op_statfs = Some (Statfs25 iconv_statfs),
     op_readdir = Some iconv_readdir,
     op_getdir = None,
     op_init = Some iconv_init,
     op_destroy = Some iconv_destroy,
     flag_nullpath_ok = True\<rparr>"

subsection \<open>The module's options\<close>

datatype iconv_field = From_code | To_code

definition iconv_opts :: "iconv_field fuse_opt list" where
  "iconv_opts =
     [\<lparr>templ = ''-h'', offset = None, opt_value = 0\<rparr>,
      \<lparr>templ = ''--help'', offset = None, opt_value = 0\<rparr>,
      \<lparr>templ = ''from_code=%s'', offset = Some From_code, opt_value = 0\<rparr>,
      \<lparr>templ = ''to_code=%s'', offset = Some To_code, opt_value = 1\<rparr>]"

definition iconv_opt_proc :: "iconv_field opt_proc" where
  "iconv_opt_proc dat arg key out m = Some (if key = 0 then - 1 else 1, dat, out, m)"

definition code_of :: "iconv_field optdata \<Rightarrow> iconv_field \<Rightarrow> cstring \<Rightarrow> cstring" where
  "code_of dat field deflt = (case dat field of Some (VStr s) \<Rightarrow> s | _ \<Rightarrow> deflt)"

text \<open>\<open>iconv_new\<close>: \<open>opn to from\<close> is the C library's \<open>iconv_open\<close>; \<open>fss\<close> is the array of file systems to stack on; \<open>None\<close> in the first component of
  the result is the null pointer. The copy of the locale's name that is made when the user's character set is that of the locale may fail without effect. The second descriptor is not looked at: the code tests the first one again.\<close>

definition iconv_new ::
  "(cstring \<Rightarrow> cstring \<Rightarrow> 'c conv option) \<Rightarrow> ('c \<Rightarrow> 'c) \<Rightarrow> allocs \<Rightarrow> fuse_args option \<Rightarrow> ('d, 'b \<times> allocs \<times> 'c, 'w) fuse_fs list \<Rightarrow>
     ((('c, 'd, 'b, 'w) iconv, 'b, (allocs \<times> 'c) \<times> 'w) fuse_fs option \<times> fuse_args option \<times> allocs) option" where
  "iconv_new opn reset m args fss = do {
     let (ok, m) = alloc m;
     if \<not> ok then Some (None, args, m)
     else do {
       (res, args, dat, m) \<leftarrow> fuse_opt_parse m args (\<lambda>_. None) iconv_opts (Some iconv_opt_proc);
       if res = - 1 then Some (None, args, m)
       else case fss of
         [fs] \<Rightarrow>
           (let from = code_of dat From_code ''UTF-8''; to = code_of dat To_code [];
                m = (if to = [] then snd (alloc m) else m);
                t = opn from to; fr = opn to from
            in if t = None then Some (None, args, m)
               else let (fs', m) = fuse_fs_new m (Some iconv_oper) (41 * 8) \<lparr>tofs = t, fromfs = fr, conv_reset = reset, ic_next = fs\<rparr>
                    in Some (fs', args, m))
       | _ \<Rightarrow> Some (None, args, m)
     }
   }"

subsection \<open>The conversion of a whole path\<close>

text \<open>All characters of a string converted, without any buffer.\<close>

function conv_all :: "'c conv \<Rightarrow> 'c \<Rightarrow> cstring \<Rightarrow> (cstring \<times> 'c) option" where
  "conv_all f c s =
     (if s = [] then Some ([], c)
      else do { (n, out, c) \<leftarrow> f c s; (o', c) \<leftarrow> conv_all f c (drop (max 1 n) s); Some (out @ o', c) })"
  by pat_completeness auto
termination
  by (relation "measure (\<lambda>(f, c, s). length s)") auto

declare conv_all.simps [simp del]

lemma conv_all_simps:
  "conv_all f c [] = Some ([], c)"
  "s \<noteq> [] \<Longrightarrow> f c s = None \<Longrightarrow> conv_all f c s = None"
  "s \<noteq> [] \<Longrightarrow> f c s = Some (n, out, c') \<Longrightarrow>
     conv_all f c s = map_option (\<lambda>(o', d). (out @ o', d)) (conv_all f c' (drop (max 1 n) s))"
  by (subst conv_all.simps, auto simp: map_option_case split: option.splits bind_splits)+

text \<open>What one call of \<open>iconv\<close> leaves to do.\<close>

definition run_left :: "conv_end \<Rightarrow> 'c conv \<Rightarrow> cstring \<Rightarrow> cstring \<Rightarrow> 'c \<Rightarrow> (cstring \<times> 'c) option" where
  "run_left e f out rest c =
     (case e of Conv_ok \<Rightarrow> Some (out, c) | Conv_bad \<Rightarrow> None | Conv_big \<Rightarrow> map_option (\<lambda>(o', d). (out @ o', d)) (conv_all f c rest))"

lemma iconv_run_spec:
  "iconv_run f c s room = (e, out, rest, room', c') \<Longrightarrow> room = room' + length out \<and> conv_all f c s = run_left e f out rest c'"
proof (induction f c s room arbitrary: e out rest room' c' rule: iconv_run.induct)
  case (1 f c s room)
  show ?case
  proof (cases "s = [] \<or> f c s = None")
    case True
    then show ?thesis using 1(2) by (cases "s = []") (auto simp: iconv_run.simps [of f c s] iconv_run.simps [of f c "[]"] run_left_def conv_all_simps)
  next
    case False
    then obtain n o' d where x: "f c s = Some (n, o', d)" by (cases "f c s") auto
    show ?thesis
    proof (cases "length o' > room")
      case True
      then show ?thesis using 1(2) False x by (auto simp: iconv_run.simps [of f c s] run_left_def conv_all_simps option.map_ident option.map_id)
    next
      case fits: False
      then obtain o'' where r: "iconv_run f d (drop (max 1 n) s) (room - length o') = (e, o'', rest, room', c')" "out = o' @ o''"
        using 1(2) False x by (subst (asm) (2) iconv_run.simps) (auto split: prod.splits)
      from 1(1) [OF _ x refl refl fits r(1)] False
      have "room - length o' = room' + length o''" "conv_all f d (drop (max 1 n) s) = run_left e f o'' rest c'" by auto
      then show ?thesis using False x r(2) fits
        by (cases e; cases "conv_all f c' rest") (auto simp: conv_all_simps run_left_def)
    qed
  qed
qed

lemma conv_loop_spec:
  assumes "conv_loop g reset path plen newpath buflen mc = (err, new, bl, m', c')" "g = Some f" "buflen = length newpath + plen"
  shows "(\<exists>out. err = 0 \<and> conv_all f (snd mc) path = Some (out, c') \<and> new = Some (newpath @ out) \<and> length (newpath @ out) \<le> bl) \<or>
    err = - EILSEQ \<and> new = None \<and> conv_all f (snd mc) path = None \<or> err = - ENOMEM \<and> new = None \<and> False \<in> set (fst mc)"
  using assms
proof (induction g reset path plen newpath buflen mc rule: conv_loop.induct)
  case (2 h reset path plen newpath buflen m c)
  have f: "h = f" using 2(3) by simp
  obtain e out rest room d where r: "iconv_run f c path plen = (e, out, rest, room, d)" by (metis prod_cases5)
  note s = iconv_run_spec [OF r]
  show ?case
  proof (cases e)
    case Conv_ok
    then show ?thesis using 2(2,4) r s f by (auto simp: conv_loop.simps run_left_def)
  next
    case Conv_bad
    then show ?thesis using 2(2,4) r s f by (auto simp: conv_loop.simps run_left_def)
  next
    case Conv_big
    obtain ok m1 where al: "alloc m = (ok, m1)" by (cases "alloc m")
    show ?thesis
    proof (cases ok)
      case False
      have "False \<in> set m" using al False by (auto simp: alloc_def split: list.splits)
      then show ?thesis using 2(2) r f Conv_big al False by (simp add: conv_loop.simps Let_def)
    next
      case True
      have sub: "False \<in> set m1 \<Longrightarrow> False \<in> set m" using al by (auto simp: alloc_def split: list.splits)
      have "conv_loop (Some f) reset rest (room + (length rest + 1) * 4) (newpath @ out) (buflen + (length rest + 1) * 4) (m1, d) = (err, new, bl, m', c')"
        using 2(2) r f Conv_big al True by (simp add: conv_loop.simps Let_def)
      moreover have "buflen + (length rest + 1) * 4 = length (newpath @ out) + (room + (length rest + 1) * 4)" using 2(4) s by simp
      ultimately have "(\<exists>o'. err = 0 \<and> conv_all f d rest = Some (o', c') \<and> new = Some ((newpath @ out) @ o') \<and> length ((newpath @ out) @ o') \<le> bl) \<or>
          err = - EILSEQ \<and> new = None \<and> conv_all f d rest = None \<or> err = - ENOMEM \<and> new = None \<and> False \<in> set m1"
        using 2(1) [of e _ out _ rest _ room d] r f Conv_big al True by fastforce
      then show ?thesis using s Conv_big sub by (auto simp: run_left_def)
    qed
  qed
qed simp

text \<open>
  C20: a path is converted the way the conversion of its characters says, however long the result is: the growing buffer changes nothing, and the result with its end fits into it.
  A path with bytes that are no characters gives EILSEQ, and ENOMEM is given only when memory is short.
\<close>

theorem iconv_convpath_correct:
  assumes "(if from_fs then fromfs d else tofs d) = Some f" "iconv_convpath d (Some p) from_fs (m, c) = (err, new, m', c')"
  shows "case conv_all f c p of
      Some (out, c'') \<Rightarrow> err = 0 \<and> new = Some out \<and> c' = c'' \<or> err = - ENOMEM \<and> new = None \<and> False \<in> set m
    | None \<Rightarrow> (err = - EILSEQ \<or> err = - ENOMEM \<and> False \<in> set m) \<and> new = None"
proof -
  obtain ok m1 where al: "alloc m = (ok, m1)" by (cases "alloc m")
  show ?thesis
  proof (cases ok)
    case False
    have "False \<in> set m" using al False by (auto simp: alloc_def split: list.splits)
    then show ?thesis using assms(2) al False by (auto simp: iconv_convpath_def split: option.splits)
  next
    case True
    have sub: "False \<in> set m1 \<Longrightarrow> False \<in> set m" using al by (auto simp: alloc_def split: list.splits)
    obtain bl where "conv_loop (Some f) (conv_reset d) p (length p * 4) [] (length p * 4) (m1, c) = (err, new, bl, m', c')"
      using assms al True by (auto simp: iconv_convpath_def Let_def split: prod.splits)
    from conv_loop_spec [OF this refl] show ?thesis using sub by (auto split: option.splits)
  qed
qed

definition demo_conv :: "unit conv" where
  "demo_conv c s = (case s of [] \<Rightarrow> None | a # r \<Rightarrow> if a = CHR ''#'' then None else Some (1, if a = CHR ''!'' then ''(exclaim)'' else [a], c))"

definition demo_iconv :: "(unit, unit, unit, unit) iconv" where
  "demo_iconv = \<lparr>tofs = Some demo_conv, fromfs = None, conv_reset = (\<lambda>c. c), ic_next = \<lparr>fs_op = no_operations, user_data = (), compat = 0\<rparr>\<rparr>"

theorem iconv_convpath_correct_witness:
  "\<exists>m' c'. iconv_convpath demo_iconv (Some ''!'') False ([], ()) = (0, Some ''(exclaim)'', m', c')"
proof -
  obtain err new m' c' where r: "iconv_convpath demo_iconv (Some ''!'') False ([], ()) = (err, new, m', c')" by (metis prod_cases4)
  have "conv_all demo_conv () ''!'' = Some (''(exclaim)'', ())" by (simp add: conv_all.simps demo_conv_def)
  then show ?thesis using iconv_convpath_correct [OF _ r, of demo_conv] r by (auto simp: demo_iconv_def)
qed

text \<open>\<open>iconv_new\<close> makes a file system even if the conversion of names for the user cannot be opened; all names in directories are then left out.\<close>

lemma iconv_new_unchecked:
  assumes "opn ''UTF-8'' [] = Some f" "opn [] ''UTF-8'' = None"
  shows "\<exists>fs. iconv_new opn reset [] None [lower] = Some (Some fs, None, []) \<and>
    (\<forall>filler dh name st off. fst (snd (iconv_dir_fill (user_data fs) filler dh name st off)) = fst dh)"
  using assms by (auto simp: iconv_new_def fuse_opt_parse_def code_of_def fuse_fs_new_def iconv_dir_fill_def iconv_convpath_def conv_loop.simps Let_def split: prod.splits)

end
