(* ===== verification/Fuse_Kernel.thy ===== *)
theory Fuse_Kernel
  imports Complex_Main Fuse_Prelude
begin

text \<open>
  The messages between the kernel and the library (\<open>include/fuse_kernel.h\<close>): the structures of the
  protocol as records with the bytes they occupy in a message, and the reading of their fields
  from a message. Messages are lists of characters; integers are stored in the byte order of the
  machine, little endian. Padding is written as zero and never read. The signed fields are kept
  as words of the same width.

  A field of a request that lies outside the message is not read: the accessors then return
  \<open>None\<close>, which stands for a read past the end of the buffer.
\<close>

named_theorems wire \<open>encoders and accessors of the protocol structures\<close>

subsection \<open>Integers\<close>

fun le :: "nat \<Rightarrow> nat \<Rightarrow> char list" where
  "le 0 x = []"
| "le (Suc n) x = char_of (x mod 256) # le n (x div 256)"

fun unle :: "char list \<Rightarrow> nat" where
  "unle [] = 0"
| "unle (c # cs) = of_char c + 256 * unle cs"

definition put32 :: "u32 \<Rightarrow> char list" where "put32 w = le 4 (unat w)"
definition put64 :: "u64 \<Rightarrow> char list" where "put64 w = le 8 (unat w)"
definition zeros :: "nat \<Rightarrow> char list" where "zeros n = replicate n (CHR 0x00)"

definition get32 :: "nat \<Rightarrow> char list \<Rightarrow> u32 option" where
  "get32 off bs = (if length bs < off + 4 then None else Some (word_of_nat (unle (take 4 (drop off bs)))))"

definition get64 :: "nat \<Rightarrow> char list \<Rightarrow> u64 option" where
  "get64 off bs = (if length bs < off + 8 then None else Some (word_of_nat (unle (take 8 (drop off bs)))))"

text \<open>A C string in a message: up to the terminating zero, which has to be there.\<close>

definition get_str :: "char list \<Rightarrow> cstring option" where
  "get_str bs = (if CHR 0x00 \<in> set bs then Some (takeWhile (\<lambda>c. c \<noteq> CHR 0x00) bs) else None)"

definition put_str :: "cstring \<Rightarrow> char list" where "put_str s = s @ [CHR 0x00]"

lemma length_le [simp]: "length (le n x) = n"
  by (induction n arbitrary: x) simp_all

lemma unle_le: "unle (le n x) = x mod 256 ^ n"
proof (induction n arbitrary: x)
  case (Suc n)
  have "x mod (256 * 256 ^ n) = 256 * (x div 256 mod 256 ^ n) + x mod 256" by (rule mod_mult2_eq)
  then show ?case using Suc [of "x div 256"] by simp
qed simp

lemma length_put [simp]: "length (put32 w) = 4" "length (put64 v) = 8" "length (zeros n) = n"
  by (simp_all add: put32_def put64_def zeros_def)

lemma get_here [simp]:
  "get32 0 (put32 w @ bs) = Some w" "get64 0 (put64 v @ bs) = Some v"
proof -
  have "unat w < 2 ^ LENGTH(32)" "unat v < 2 ^ LENGTH(64)" by (rule unsigned_less)+
  then have w: "unat w mod 2 ^ 32 = unat w" and v: "unat v mod 2 ^ 64 = unat v" by simp_all
  show "get32 0 (put32 w @ bs) = Some w" "get64 0 (put64 v @ bs) = Some v"
    using w v by (simp_all add: get32_def get64_def put32_def put64_def unle_le)
qed

lemma get_skip:
  "length xs \<le> off \<Longrightarrow> get32 off (xs @ ys) = get32 (off - length xs) ys"
  "length xs \<le> off \<Longrightarrow> get64 off (xs @ ys) = get64 (off - length xs) ys"
  by (auto simp: get32_def get64_def)

lemma get_skip_put [simp]:
  "4 \<le> off \<Longrightarrow> get32 off (put32 w @ ys) = get32 (off - 4) ys"
  "8 \<le> off \<Longrightarrow> get32 off (put64 v @ ys) = get32 (off - 8) ys"
  "n \<le> off \<Longrightarrow> get32 off (zeros n @ ys) = get32 (off - n) ys"
  "4 \<le> off \<Longrightarrow> get64 off (put32 w @ ys) = get64 (off - 4) ys"
  "8 \<le> off \<Longrightarrow> get64 off (put64 v @ ys) = get64 (off - 8) ys"
  "n \<le> off \<Longrightarrow> get64 off (zeros n @ ys) = get64 (off - n) ys"
  by (simp_all add: get_skip)

lemma get_str_put [simp]: "CHR 0x00 \<notin> set s \<Longrightarrow> get_str (put_str s @ bs) = Some s"
  by (auto simp: get_str_def put_str_def takeWhile_append)

lemmas get_str_put0 [simp] = get_str_put [where bs = "[]", unfolded append_Nil2]

lemma drop_put_str [simp]: "drop (Suc (length s)) (put_str s @ bs) = bs"
  by (simp add: put_str_def)

text \<open>Outgoing integers may come from signed ones.\<close>

lemma sint_word_of_int:
  "- (2 ^ 31) \<le> i \<Longrightarrow> i < 2 ^ 31 \<Longrightarrow> sint (word_of_int i :: u32) = i"
  by (simp add: sint_sbintrunc' signed_take_bit_int_eq_self)

subsection \<open>Structures both directions use\<close>

record fuse_attr =
  attr_ino :: u64
  attr_size :: u64
  attr_blocks :: u64
  attr_atime :: u64
  attr_mtime :: u64
  attr_ctime :: u64
  attr_atimensec :: u32
  attr_mtimensec :: u32
  attr_ctimensec :: u32
  attr_mode :: u32
  attr_nlink :: u32
  attr_uid :: u32
  attr_gid :: u32
  attr_rdev :: u32
  attr_blksize :: u32

definition put_fuse_attr :: "fuse_attr \<Rightarrow> char list" where
  "put_fuse_attr x =
     put64 (attr_ino x) @ put64 (attr_size x) @ put64 (attr_blocks x) @ put64 (attr_atime x) @
     put64 (attr_mtime x) @ put64 (attr_ctime x) @ put32 (attr_atimensec x) @
     put32 (attr_mtimensec x) @ put32 (attr_ctimensec x) @ put32 (attr_mode x) @
     put32 (attr_nlink x) @ put32 (attr_uid x) @ put32 (attr_gid x) @ put32 (attr_rdev x) @
     put32 (attr_blksize x) @ zeros 4"

lemma length_put_fuse_attr [simp]: "length (put_fuse_attr x) = 88"
  by (simp add: put_fuse_attr_def)

record fuse_kstatfs =
  kst_blocks :: u64
  kst_bfree :: u64
  kst_bavail :: u64
  kst_files :: u64
  kst_ffree :: u64
  kst_bsize :: u32
  kst_namelen :: u32
  kst_frsize :: u32

definition put_fuse_kstatfs :: "fuse_kstatfs \<Rightarrow> char list" where
  "put_fuse_kstatfs x =
     put64 (kst_blocks x) @ put64 (kst_bfree x) @ put64 (kst_bavail x) @ put64 (kst_files x) @
     put64 (kst_ffree x) @ put32 (kst_bsize x) @ put32 (kst_namelen x) @
     put32 (kst_frsize x) @ zeros 4 @ zeros 24"

lemma length_put_fuse_kstatfs [simp]: "length (put_fuse_kstatfs x) = 80"
  by (simp add: put_fuse_kstatfs_def)

record fuse_file_lock =
  fl_start :: u64
  fl_end :: u64
  fl_type :: u32
  fl_pid :: u32

definition put_fuse_file_lock :: "fuse_file_lock \<Rightarrow> char list" where
  "put_fuse_file_lock x =
     put64 (fl_start x) @ put64 (fl_end x) @ put32 (fl_type x) @ put32 (fl_pid x)"

lemma length_put_fuse_file_lock [simp]: "length (put_fuse_file_lock x) = 24"
  by (simp add: put_fuse_file_lock_def)

subsection \<open>Requests\<close>

record fuse_forget_in =
  forget_in_nlookup :: u64

definition put_fuse_forget_in :: "fuse_forget_in \<Rightarrow> char list" where
  "put_fuse_forget_in x =
     put64 (forget_in_nlookup x)"

lemma length_put_fuse_forget_in [simp]: "length (put_fuse_forget_in x) = 8"
  by (simp add: put_fuse_forget_in_def)

definition forget_in_nlookup_at :: "char list \<Rightarrow> u64 option" where "forget_in_nlookup_at = get64 0"

lemma fuse_forget_in_fields [simp]:
  "forget_in_nlookup_at (put_fuse_forget_in x @ bs) = Some (forget_in_nlookup x)"
  by (simp_all add: put_fuse_forget_in_def forget_in_nlookup_at_def)

lemmas fuse_forget_in_fields0 [simp] = fuse_forget_in_fields [where bs = "[]", unfolded append_Nil2]

record fuse_getattr_in =
  getattr_in_getattr_flags :: u32
  getattr_in_fh :: u64

definition put_fuse_getattr_in :: "fuse_getattr_in \<Rightarrow> char list" where
  "put_fuse_getattr_in x =
     put32 (getattr_in_getattr_flags x) @ zeros 4 @ put64 (getattr_in_fh x)"

lemma length_put_fuse_getattr_in [simp]: "length (put_fuse_getattr_in x) = 16"
  by (simp add: put_fuse_getattr_in_def)

definition getattr_in_getattr_flags_at :: "char list \<Rightarrow> u32 option" where "getattr_in_getattr_flags_at = get32 0"
definition getattr_in_fh_at :: "char list \<Rightarrow> u64 option" where "getattr_in_fh_at = get64 8"

lemma fuse_getattr_in_fields [simp]:
  "getattr_in_getattr_flags_at (put_fuse_getattr_in x @ bs) = Some (getattr_in_getattr_flags x)"
  "getattr_in_fh_at (put_fuse_getattr_in x @ bs) = Some (getattr_in_fh x)"
  by (simp_all add: put_fuse_getattr_in_def getattr_in_getattr_flags_at_def getattr_in_fh_at_def)

lemmas fuse_getattr_in_fields0 [simp] = fuse_getattr_in_fields [where bs = "[]", unfolded append_Nil2]

record fuse_mknod_in =
  mknod_in_mode :: u32
  mknod_in_rdev :: u32
  mknod_in_umask :: u32

definition put_fuse_mknod_in :: "fuse_mknod_in \<Rightarrow> char list" where
  "put_fuse_mknod_in x =
     put32 (mknod_in_mode x) @ put32 (mknod_in_rdev x) @ put32 (mknod_in_umask x) @ zeros 4"

lemma length_put_fuse_mknod_in [simp]: "length (put_fuse_mknod_in x) = 16"
  by (simp add: put_fuse_mknod_in_def)

definition mknod_in_mode_at :: "char list \<Rightarrow> u32 option" where "mknod_in_mode_at = get32 0"
definition mknod_in_rdev_at :: "char list \<Rightarrow> u32 option" where "mknod_in_rdev_at = get32 4"
definition mknod_in_umask_at :: "char list \<Rightarrow> u32 option" where "mknod_in_umask_at = get32 8"

lemma fuse_mknod_in_fields [simp]:
  "mknod_in_mode_at (put_fuse_mknod_in x @ bs) = Some (mknod_in_mode x)"
  "mknod_in_rdev_at (put_fuse_mknod_in x @ bs) = Some (mknod_in_rdev x)"
  "mknod_in_umask_at (put_fuse_mknod_in x @ bs) = Some (mknod_in_umask x)"
  by (simp_all add: put_fuse_mknod_in_def mknod_in_mode_at_def mknod_in_rdev_at_def mknod_in_umask_at_def)

lemmas fuse_mknod_in_fields0 [simp] = fuse_mknod_in_fields [where bs = "[]", unfolded append_Nil2]

record fuse_mkdir_in =
  mkdir_in_mode :: u32
  mkdir_in_umask :: u32

definition put_fuse_mkdir_in :: "fuse_mkdir_in \<Rightarrow> char list" where
  "put_fuse_mkdir_in x =
     put32 (mkdir_in_mode x) @ put32 (mkdir_in_umask x)"

lemma length_put_fuse_mkdir_in [simp]: "length (put_fuse_mkdir_in x) = 8"
  by (simp add: put_fuse_mkdir_in_def)

definition mkdir_in_mode_at :: "char list \<Rightarrow> u32 option" where "mkdir_in_mode_at = get32 0"
definition mkdir_in_umask_at :: "char list \<Rightarrow> u32 option" where "mkdir_in_umask_at = get32 4"

lemma fuse_mkdir_in_fields [simp]:
  "mkdir_in_mode_at (put_fuse_mkdir_in x @ bs) = Some (mkdir_in_mode x)"
  "mkdir_in_umask_at (put_fuse_mkdir_in x @ bs) = Some (mkdir_in_umask x)"
  by (simp_all add: put_fuse_mkdir_in_def mkdir_in_mode_at_def mkdir_in_umask_at_def)

lemmas fuse_mkdir_in_fields0 [simp] = fuse_mkdir_in_fields [where bs = "[]", unfolded append_Nil2]

record fuse_rename_in =
  rename_in_newdir :: u64

definition put_fuse_rename_in :: "fuse_rename_in \<Rightarrow> char list" where
  "put_fuse_rename_in x =
     put64 (rename_in_newdir x)"

lemma length_put_fuse_rename_in [simp]: "length (put_fuse_rename_in x) = 8"
  by (simp add: put_fuse_rename_in_def)

definition rename_in_newdir_at :: "char list \<Rightarrow> u64 option" where "rename_in_newdir_at = get64 0"

lemma fuse_rename_in_fields [simp]:
  "rename_in_newdir_at (put_fuse_rename_in x @ bs) = Some (rename_in_newdir x)"
  by (simp_all add: put_fuse_rename_in_def rename_in_newdir_at_def)

lemmas fuse_rename_in_fields0 [simp] = fuse_rename_in_fields [where bs = "[]", unfolded append_Nil2]

record fuse_link_in =
  link_in_oldnodeid :: u64

definition put_fuse_link_in :: "fuse_link_in \<Rightarrow> char list" where
  "put_fuse_link_in x =
     put64 (link_in_oldnodeid x)"

lemma length_put_fuse_link_in [simp]: "length (put_fuse_link_in x) = 8"
  by (simp add: put_fuse_link_in_def)

definition link_in_oldnodeid_at :: "char list \<Rightarrow> u64 option" where "link_in_oldnodeid_at = get64 0"

lemma fuse_link_in_fields [simp]:
  "link_in_oldnodeid_at (put_fuse_link_in x @ bs) = Some (link_in_oldnodeid x)"
  by (simp_all add: put_fuse_link_in_def link_in_oldnodeid_at_def)

lemmas fuse_link_in_fields0 [simp] = fuse_link_in_fields [where bs = "[]", unfolded append_Nil2]

record fuse_setattr_in =
  setattr_in_valid :: u32
  setattr_in_fh :: u64
  setattr_in_size :: u64
  setattr_in_lock_owner :: u64
  setattr_in_atime :: u64
  setattr_in_mtime :: u64
  setattr_in_atimensec :: u32
  setattr_in_mtimensec :: u32
  setattr_in_mode :: u32
  setattr_in_uid :: u32
  setattr_in_gid :: u32

definition put_fuse_setattr_in :: "fuse_setattr_in \<Rightarrow> char list" where
  "put_fuse_setattr_in x =
     put32 (setattr_in_valid x) @ zeros 4 @ put64 (setattr_in_fh x) @
     put64 (setattr_in_size x) @ put64 (setattr_in_lock_owner x) @
     put64 (setattr_in_atime x) @ put64 (setattr_in_mtime x) @ zeros 8 @
     put32 (setattr_in_atimensec x) @ put32 (setattr_in_mtimensec x) @ zeros 4 @
     put32 (setattr_in_mode x) @ zeros 4 @ put32 (setattr_in_uid x) @
     put32 (setattr_in_gid x) @ zeros 4"

lemma length_put_fuse_setattr_in [simp]: "length (put_fuse_setattr_in x) = 88"
  by (simp add: put_fuse_setattr_in_def)

definition setattr_in_valid_at :: "char list \<Rightarrow> u32 option" where "setattr_in_valid_at = get32 0"
definition setattr_in_fh_at :: "char list \<Rightarrow> u64 option" where "setattr_in_fh_at = get64 8"
definition setattr_in_size_at :: "char list \<Rightarrow> u64 option" where "setattr_in_size_at = get64 16"
definition setattr_in_lock_owner_at :: "char list \<Rightarrow> u64 option" where "setattr_in_lock_owner_at = get64 24"
definition setattr_in_atime_at :: "char list \<Rightarrow> u64 option" where "setattr_in_atime_at = get64 32"
definition setattr_in_mtime_at :: "char list \<Rightarrow> u64 option" where "setattr_in_mtime_at = get64 40"
definition setattr_in_atimensec_at :: "char list \<Rightarrow> u32 option" where "setattr_in_atimensec_at = get32 56"
definition setattr_in_mtimensec_at :: "char list \<Rightarrow> u32 option" where "setattr_in_mtimensec_at = get32 60"
definition setattr_in_mode_at :: "char list \<Rightarrow> u32 option" where "setattr_in_mode_at = get32 68"
definition setattr_in_uid_at :: "char list \<Rightarrow> u32 option" where "setattr_in_uid_at = get32 76"
definition setattr_in_gid_at :: "char list \<Rightarrow> u32 option" where "setattr_in_gid_at = get32 80"

lemma fuse_setattr_in_fields [simp]:
  "setattr_in_valid_at (put_fuse_setattr_in x @ bs) = Some (setattr_in_valid x)"
  "setattr_in_fh_at (put_fuse_setattr_in x @ bs) = Some (setattr_in_fh x)"
  "setattr_in_size_at (put_fuse_setattr_in x @ bs) = Some (setattr_in_size x)"
  "setattr_in_lock_owner_at (put_fuse_setattr_in x @ bs) = Some (setattr_in_lock_owner x)"
  "setattr_in_atime_at (put_fuse_setattr_in x @ bs) = Some (setattr_in_atime x)"
  "setattr_in_mtime_at (put_fuse_setattr_in x @ bs) = Some (setattr_in_mtime x)"
  "setattr_in_atimensec_at (put_fuse_setattr_in x @ bs) = Some (setattr_in_atimensec x)"
  "setattr_in_mtimensec_at (put_fuse_setattr_in x @ bs) = Some (setattr_in_mtimensec x)"
  "setattr_in_mode_at (put_fuse_setattr_in x @ bs) = Some (setattr_in_mode x)"
  "setattr_in_uid_at (put_fuse_setattr_in x @ bs) = Some (setattr_in_uid x)"
  "setattr_in_gid_at (put_fuse_setattr_in x @ bs) = Some (setattr_in_gid x)"
  by (simp_all add: put_fuse_setattr_in_def setattr_in_valid_at_def setattr_in_fh_at_def setattr_in_size_at_def setattr_in_lock_owner_at_def setattr_in_atime_at_def setattr_in_mtime_at_def setattr_in_atimensec_at_def setattr_in_mtimensec_at_def setattr_in_mode_at_def setattr_in_uid_at_def setattr_in_gid_at_def)

lemmas fuse_setattr_in_fields0 [simp] = fuse_setattr_in_fields [where bs = "[]", unfolded append_Nil2]

record fuse_open_in =
  open_in_flags :: u32

definition put_fuse_open_in :: "fuse_open_in \<Rightarrow> char list" where
  "put_fuse_open_in x =
     put32 (open_in_flags x) @ zeros 4"

lemma length_put_fuse_open_in [simp]: "length (put_fuse_open_in x) = 8"
  by (simp add: put_fuse_open_in_def)

definition open_in_flags_at :: "char list \<Rightarrow> u32 option" where "open_in_flags_at = get32 0"

lemma fuse_open_in_fields [simp]:
  "open_in_flags_at (put_fuse_open_in x @ bs) = Some (open_in_flags x)"
  by (simp_all add: put_fuse_open_in_def open_in_flags_at_def)

lemmas fuse_open_in_fields0 [simp] = fuse_open_in_fields [where bs = "[]", unfolded append_Nil2]

record fuse_create_in =
  create_in_flags :: u32
  create_in_mode :: u32
  create_in_umask :: u32

definition put_fuse_create_in :: "fuse_create_in \<Rightarrow> char list" where
  "put_fuse_create_in x =
     put32 (create_in_flags x) @ put32 (create_in_mode x) @ put32 (create_in_umask x) @ zeros 4"

lemma length_put_fuse_create_in [simp]: "length (put_fuse_create_in x) = 16"
  by (simp add: put_fuse_create_in_def)

definition create_in_flags_at :: "char list \<Rightarrow> u32 option" where "create_in_flags_at = get32 0"
definition create_in_mode_at :: "char list \<Rightarrow> u32 option" where "create_in_mode_at = get32 4"
definition create_in_umask_at :: "char list \<Rightarrow> u32 option" where "create_in_umask_at = get32 8"

lemma fuse_create_in_fields [simp]:
  "create_in_flags_at (put_fuse_create_in x @ bs) = Some (create_in_flags x)"
  "create_in_mode_at (put_fuse_create_in x @ bs) = Some (create_in_mode x)"
  "create_in_umask_at (put_fuse_create_in x @ bs) = Some (create_in_umask x)"
  by (simp_all add: put_fuse_create_in_def create_in_flags_at_def create_in_mode_at_def create_in_umask_at_def)

lemmas fuse_create_in_fields0 [simp] = fuse_create_in_fields [where bs = "[]", unfolded append_Nil2]

record fuse_release_in =
  release_in_fh :: u64
  release_in_flags :: u32
  release_in_release_flags :: u32
  release_in_lock_owner :: u64

definition put_fuse_release_in :: "fuse_release_in \<Rightarrow> char list" where
  "put_fuse_release_in x =
     put64 (release_in_fh x) @ put32 (release_in_flags x) @
     put32 (release_in_release_flags x) @ put64 (release_in_lock_owner x)"

lemma length_put_fuse_release_in [simp]: "length (put_fuse_release_in x) = 24"
  by (simp add: put_fuse_release_in_def)

definition release_in_fh_at :: "char list \<Rightarrow> u64 option" where "release_in_fh_at = get64 0"
definition release_in_flags_at :: "char list \<Rightarrow> u32 option" where "release_in_flags_at = get32 8"
definition release_in_release_flags_at :: "char list \<Rightarrow> u32 option" where "release_in_release_flags_at = get32 12"
definition release_in_lock_owner_at :: "char list \<Rightarrow> u64 option" where "release_in_lock_owner_at = get64 16"

lemma fuse_release_in_fields [simp]:
  "release_in_fh_at (put_fuse_release_in x @ bs) = Some (release_in_fh x)"
  "release_in_flags_at (put_fuse_release_in x @ bs) = Some (release_in_flags x)"
  "release_in_release_flags_at (put_fuse_release_in x @ bs) = Some (release_in_release_flags x)"
  "release_in_lock_owner_at (put_fuse_release_in x @ bs) = Some (release_in_lock_owner x)"
  by (simp_all add: put_fuse_release_in_def release_in_fh_at_def release_in_flags_at_def release_in_release_flags_at_def release_in_lock_owner_at_def)

lemmas fuse_release_in_fields0 [simp] = fuse_release_in_fields [where bs = "[]", unfolded append_Nil2]

record fuse_flush_in =
  flush_in_fh :: u64
  flush_in_lock_owner :: u64

definition put_fuse_flush_in :: "fuse_flush_in \<Rightarrow> char list" where
  "put_fuse_flush_in x =
     put64 (flush_in_fh x) @ zeros 4 @ zeros 4 @ put64 (flush_in_lock_owner x)"

lemma length_put_fuse_flush_in [simp]: "length (put_fuse_flush_in x) = 24"
  by (simp add: put_fuse_flush_in_def)

definition flush_in_fh_at :: "char list \<Rightarrow> u64 option" where "flush_in_fh_at = get64 0"
definition flush_in_lock_owner_at :: "char list \<Rightarrow> u64 option" where "flush_in_lock_owner_at = get64 16"

lemma fuse_flush_in_fields [simp]:
  "flush_in_fh_at (put_fuse_flush_in x @ bs) = Some (flush_in_fh x)"
  "flush_in_lock_owner_at (put_fuse_flush_in x @ bs) = Some (flush_in_lock_owner x)"
  by (simp_all add: put_fuse_flush_in_def flush_in_fh_at_def flush_in_lock_owner_at_def)

lemmas fuse_flush_in_fields0 [simp] = fuse_flush_in_fields [where bs = "[]", unfolded append_Nil2]

record fuse_read_in =
  read_in_fh :: u64
  read_in_offset :: u64
  read_in_size :: u32
  read_in_read_flags :: u32
  read_in_lock_owner :: u64
  read_in_flags :: u32

definition put_fuse_read_in :: "fuse_read_in \<Rightarrow> char list" where
  "put_fuse_read_in x =
     put64 (read_in_fh x) @ put64 (read_in_offset x) @ put32 (read_in_size x) @
     put32 (read_in_read_flags x) @ put64 (read_in_lock_owner x) @ put32 (read_in_flags x) @
     zeros 4"

lemma length_put_fuse_read_in [simp]: "length (put_fuse_read_in x) = 40"
  by (simp add: put_fuse_read_in_def)

definition read_in_fh_at :: "char list \<Rightarrow> u64 option" where "read_in_fh_at = get64 0"
definition read_in_offset_at :: "char list \<Rightarrow> u64 option" where "read_in_offset_at = get64 8"
definition read_in_size_at :: "char list \<Rightarrow> u32 option" where "read_in_size_at = get32 16"
definition read_in_read_flags_at :: "char list \<Rightarrow> u32 option" where "read_in_read_flags_at = get32 20"
definition read_in_lock_owner_at :: "char list \<Rightarrow> u64 option" where "read_in_lock_owner_at = get64 24"
definition read_in_flags_at :: "char list \<Rightarrow> u32 option" where "read_in_flags_at = get32 32"

lemma fuse_read_in_fields [simp]:
  "read_in_fh_at (put_fuse_read_in x @ bs) = Some (read_in_fh x)"
  "read_in_offset_at (put_fuse_read_in x @ bs) = Some (read_in_offset x)"
  "read_in_size_at (put_fuse_read_in x @ bs) = Some (read_in_size x)"
  "read_in_read_flags_at (put_fuse_read_in x @ bs) = Some (read_in_read_flags x)"
  "read_in_lock_owner_at (put_fuse_read_in x @ bs) = Some (read_in_lock_owner x)"
  "read_in_flags_at (put_fuse_read_in x @ bs) = Some (read_in_flags x)"
  by (simp_all add: put_fuse_read_in_def read_in_fh_at_def read_in_offset_at_def read_in_size_at_def read_in_read_flags_at_def read_in_lock_owner_at_def read_in_flags_at_def)

lemmas fuse_read_in_fields0 [simp] = fuse_read_in_fields [where bs = "[]", unfolded append_Nil2]

record fuse_write_in =
  write_in_fh :: u64
  write_in_offset :: u64
  write_in_size :: u32
  write_in_write_flags :: u32
  write_in_lock_owner :: u64
  write_in_flags :: u32

definition put_fuse_write_in :: "fuse_write_in \<Rightarrow> char list" where
  "put_fuse_write_in x =
     put64 (write_in_fh x) @ put64 (write_in_offset x) @ put32 (write_in_size x) @
     put32 (write_in_write_flags x) @ put64 (write_in_lock_owner x) @
     put32 (write_in_flags x) @ zeros 4"

lemma length_put_fuse_write_in [simp]: "length (put_fuse_write_in x) = 40"
  by (simp add: put_fuse_write_in_def)

definition write_in_fh_at :: "char list \<Rightarrow> u64 option" where "write_in_fh_at = get64 0"
definition write_in_offset_at :: "char list \<Rightarrow> u64 option" where "write_in_offset_at = get64 8"
definition write_in_size_at :: "char list \<Rightarrow> u32 option" where "write_in_size_at = get32 16"
definition write_in_write_flags_at :: "char list \<Rightarrow> u32 option" where "write_in_write_flags_at = get32 20"
definition write_in_lock_owner_at :: "char list \<Rightarrow> u64 option" where "write_in_lock_owner_at = get64 24"
definition write_in_flags_at :: "char list \<Rightarrow> u32 option" where "write_in_flags_at = get32 32"

lemma fuse_write_in_fields [simp]:
  "write_in_fh_at (put_fuse_write_in x @ bs) = Some (write_in_fh x)"
  "write_in_offset_at (put_fuse_write_in x @ bs) = Some (write_in_offset x)"
  "write_in_size_at (put_fuse_write_in x @ bs) = Some (write_in_size x)"
  "write_in_write_flags_at (put_fuse_write_in x @ bs) = Some (write_in_write_flags x)"
  "write_in_lock_owner_at (put_fuse_write_in x @ bs) = Some (write_in_lock_owner x)"
  "write_in_flags_at (put_fuse_write_in x @ bs) = Some (write_in_flags x)"
  by (simp_all add: put_fuse_write_in_def write_in_fh_at_def write_in_offset_at_def write_in_size_at_def write_in_write_flags_at_def write_in_lock_owner_at_def write_in_flags_at_def)

lemmas fuse_write_in_fields0 [simp] = fuse_write_in_fields [where bs = "[]", unfolded append_Nil2]

record fuse_fsync_in =
  fsync_in_fh :: u64
  fsync_in_fsync_flags :: u32

definition put_fuse_fsync_in :: "fuse_fsync_in \<Rightarrow> char list" where
  "put_fuse_fsync_in x =
     put64 (fsync_in_fh x) @ put32 (fsync_in_fsync_flags x) @ zeros 4"

lemma length_put_fuse_fsync_in [simp]: "length (put_fuse_fsync_in x) = 16"
  by (simp add: put_fuse_fsync_in_def)

definition fsync_in_fh_at :: "char list \<Rightarrow> u64 option" where "fsync_in_fh_at = get64 0"
definition fsync_in_fsync_flags_at :: "char list \<Rightarrow> u32 option" where "fsync_in_fsync_flags_at = get32 8"

lemma fuse_fsync_in_fields [simp]:
  "fsync_in_fh_at (put_fuse_fsync_in x @ bs) = Some (fsync_in_fh x)"
  "fsync_in_fsync_flags_at (put_fuse_fsync_in x @ bs) = Some (fsync_in_fsync_flags x)"
  by (simp_all add: put_fuse_fsync_in_def fsync_in_fh_at_def fsync_in_fsync_flags_at_def)

lemmas fuse_fsync_in_fields0 [simp] = fuse_fsync_in_fields [where bs = "[]", unfolded append_Nil2]

record fuse_setxattr_in =
  setxattr_in_size :: u32
  setxattr_in_flags :: u32

definition put_fuse_setxattr_in :: "fuse_setxattr_in \<Rightarrow> char list" where
  "put_fuse_setxattr_in x =
     put32 (setxattr_in_size x) @ put32 (setxattr_in_flags x)"

lemma length_put_fuse_setxattr_in [simp]: "length (put_fuse_setxattr_in x) = 8"
  by (simp add: put_fuse_setxattr_in_def)

definition setxattr_in_size_at :: "char list \<Rightarrow> u32 option" where "setxattr_in_size_at = get32 0"
definition setxattr_in_flags_at :: "char list \<Rightarrow> u32 option" where "setxattr_in_flags_at = get32 4"

lemma fuse_setxattr_in_fields [simp]:
  "setxattr_in_size_at (put_fuse_setxattr_in x @ bs) = Some (setxattr_in_size x)"
  "setxattr_in_flags_at (put_fuse_setxattr_in x @ bs) = Some (setxattr_in_flags x)"
  by (simp_all add: put_fuse_setxattr_in_def setxattr_in_size_at_def setxattr_in_flags_at_def)

lemmas fuse_setxattr_in_fields0 [simp] = fuse_setxattr_in_fields [where bs = "[]", unfolded append_Nil2]

record fuse_getxattr_in =
  getxattr_in_size :: u32

definition put_fuse_getxattr_in :: "fuse_getxattr_in \<Rightarrow> char list" where
  "put_fuse_getxattr_in x =
     put32 (getxattr_in_size x) @ zeros 4"

lemma length_put_fuse_getxattr_in [simp]: "length (put_fuse_getxattr_in x) = 8"
  by (simp add: put_fuse_getxattr_in_def)

definition getxattr_in_size_at :: "char list \<Rightarrow> u32 option" where "getxattr_in_size_at = get32 0"

lemma fuse_getxattr_in_fields [simp]:
  "getxattr_in_size_at (put_fuse_getxattr_in x @ bs) = Some (getxattr_in_size x)"
  by (simp_all add: put_fuse_getxattr_in_def getxattr_in_size_at_def)

lemmas fuse_getxattr_in_fields0 [simp] = fuse_getxattr_in_fields [where bs = "[]", unfolded append_Nil2]

record fuse_lk_in =
  lk_in_fh :: u64
  lk_in_owner :: u64
  lk_in_lk :: fuse_file_lock
  lk_in_lk_flags :: u32

definition put_fuse_lk_in :: "fuse_lk_in \<Rightarrow> char list" where
  "put_fuse_lk_in x =
     put64 (lk_in_fh x) @ put64 (lk_in_owner x) @ put_fuse_file_lock (lk_in_lk x) @
     put32 (lk_in_lk_flags x) @ zeros 4"

lemma length_put_fuse_lk_in [simp]: "length (put_fuse_lk_in x) = 48"
  by (simp add: put_fuse_lk_in_def)

definition lk_in_fh_at :: "char list \<Rightarrow> u64 option" where "lk_in_fh_at = get64 0"
definition lk_in_owner_at :: "char list \<Rightarrow> u64 option" where "lk_in_owner_at = get64 8"
definition lk_in_lk_start_at :: "char list \<Rightarrow> u64 option" where "lk_in_lk_start_at = get64 16"
definition lk_in_lk_end_at :: "char list \<Rightarrow> u64 option" where "lk_in_lk_end_at = get64 24"
definition lk_in_lk_type_at :: "char list \<Rightarrow> u32 option" where "lk_in_lk_type_at = get32 32"
definition lk_in_lk_pid_at :: "char list \<Rightarrow> u32 option" where "lk_in_lk_pid_at = get32 36"
definition lk_in_lk_flags_at :: "char list \<Rightarrow> u32 option" where "lk_in_lk_flags_at = get32 40"

lemma fuse_lk_in_fields [simp]:
  "lk_in_fh_at (put_fuse_lk_in x @ bs) = Some (lk_in_fh x)"
  "lk_in_owner_at (put_fuse_lk_in x @ bs) = Some (lk_in_owner x)"
  "lk_in_lk_start_at (put_fuse_lk_in x @ bs) = Some (fl_start (lk_in_lk x))"
  "lk_in_lk_end_at (put_fuse_lk_in x @ bs) = Some (fl_end (lk_in_lk x))"
  "lk_in_lk_type_at (put_fuse_lk_in x @ bs) = Some (fl_type (lk_in_lk x))"
  "lk_in_lk_pid_at (put_fuse_lk_in x @ bs) = Some (fl_pid (lk_in_lk x))"
  "lk_in_lk_flags_at (put_fuse_lk_in x @ bs) = Some (lk_in_lk_flags x)"
  by (simp_all add: put_fuse_lk_in_def lk_in_fh_at_def lk_in_owner_at_def lk_in_lk_start_at_def lk_in_lk_end_at_def lk_in_lk_type_at_def lk_in_lk_pid_at_def lk_in_lk_flags_at_def put_fuse_file_lock_def)

lemmas fuse_lk_in_fields0 [simp] = fuse_lk_in_fields [where bs = "[]", unfolded append_Nil2]

record fuse_access_in =
  access_in_mask :: u32

definition put_fuse_access_in :: "fuse_access_in \<Rightarrow> char list" where
  "put_fuse_access_in x =
     put32 (access_in_mask x) @ zeros 4"

lemma length_put_fuse_access_in [simp]: "length (put_fuse_access_in x) = 8"
  by (simp add: put_fuse_access_in_def)

definition access_in_mask_at :: "char list \<Rightarrow> u32 option" where "access_in_mask_at = get32 0"

lemma fuse_access_in_fields [simp]:
  "access_in_mask_at (put_fuse_access_in x @ bs) = Some (access_in_mask x)"
  by (simp_all add: put_fuse_access_in_def access_in_mask_at_def)

lemmas fuse_access_in_fields0 [simp] = fuse_access_in_fields [where bs = "[]", unfolded append_Nil2]

record fuse_init_in =
  init_in_major :: u32
  init_in_minor :: u32
  init_in_max_readahead :: u32
  init_in_flags :: u32

definition put_fuse_init_in :: "fuse_init_in \<Rightarrow> char list" where
  "put_fuse_init_in x =
     put32 (init_in_major x) @ put32 (init_in_minor x) @ put32 (init_in_max_readahead x) @
     put32 (init_in_flags x)"

lemma length_put_fuse_init_in [simp]: "length (put_fuse_init_in x) = 16"
  by (simp add: put_fuse_init_in_def)

definition init_in_major_at :: "char list \<Rightarrow> u32 option" where "init_in_major_at = get32 0"
definition init_in_minor_at :: "char list \<Rightarrow> u32 option" where "init_in_minor_at = get32 4"
definition init_in_max_readahead_at :: "char list \<Rightarrow> u32 option" where "init_in_max_readahead_at = get32 8"
definition init_in_flags_at :: "char list \<Rightarrow> u32 option" where "init_in_flags_at = get32 12"

lemma fuse_init_in_fields [simp]:
  "init_in_major_at (put_fuse_init_in x @ bs) = Some (init_in_major x)"
  "init_in_minor_at (put_fuse_init_in x @ bs) = Some (init_in_minor x)"
  "init_in_max_readahead_at (put_fuse_init_in x @ bs) = Some (init_in_max_readahead x)"
  "init_in_flags_at (put_fuse_init_in x @ bs) = Some (init_in_flags x)"
  by (simp_all add: put_fuse_init_in_def init_in_major_at_def init_in_minor_at_def init_in_max_readahead_at_def init_in_flags_at_def)

lemmas fuse_init_in_fields0 [simp] = fuse_init_in_fields [where bs = "[]", unfolded append_Nil2]

record fuse_interrupt_in =
  interrupt_in_unique :: u64

definition put_fuse_interrupt_in :: "fuse_interrupt_in \<Rightarrow> char list" where
  "put_fuse_interrupt_in x =
     put64 (interrupt_in_unique x)"

lemma length_put_fuse_interrupt_in [simp]: "length (put_fuse_interrupt_in x) = 8"
  by (simp add: put_fuse_interrupt_in_def)

definition interrupt_in_unique_at :: "char list \<Rightarrow> u64 option" where "interrupt_in_unique_at = get64 0"

lemma fuse_interrupt_in_fields [simp]:
  "interrupt_in_unique_at (put_fuse_interrupt_in x @ bs) = Some (interrupt_in_unique x)"
  by (simp_all add: put_fuse_interrupt_in_def interrupt_in_unique_at_def)

lemmas fuse_interrupt_in_fields0 [simp] = fuse_interrupt_in_fields [where bs = "[]", unfolded append_Nil2]

record fuse_bmap_in =
  bmap_in_block :: u64
  bmap_in_blocksize :: u32

definition put_fuse_bmap_in :: "fuse_bmap_in \<Rightarrow> char list" where
  "put_fuse_bmap_in x =
     put64 (bmap_in_block x) @ put32 (bmap_in_blocksize x) @ zeros 4"

lemma length_put_fuse_bmap_in [simp]: "length (put_fuse_bmap_in x) = 16"
  by (simp add: put_fuse_bmap_in_def)

definition bmap_in_block_at :: "char list \<Rightarrow> u64 option" where "bmap_in_block_at = get64 0"
definition bmap_in_blocksize_at :: "char list \<Rightarrow> u32 option" where "bmap_in_blocksize_at = get32 8"

lemma fuse_bmap_in_fields [simp]:
  "bmap_in_block_at (put_fuse_bmap_in x @ bs) = Some (bmap_in_block x)"
  "bmap_in_blocksize_at (put_fuse_bmap_in x @ bs) = Some (bmap_in_blocksize x)"
  by (simp_all add: put_fuse_bmap_in_def bmap_in_block_at_def bmap_in_blocksize_at_def)

lemmas fuse_bmap_in_fields0 [simp] = fuse_bmap_in_fields [where bs = "[]", unfolded append_Nil2]

record fuse_ioctl_in =
  ioctl_in_fh :: u64
  ioctl_in_flags :: u32
  ioctl_in_cmd :: u32
  ioctl_in_arg :: u64
  ioctl_in_in_size :: u32
  ioctl_in_out_size :: u32

definition put_fuse_ioctl_in :: "fuse_ioctl_in \<Rightarrow> char list" where
  "put_fuse_ioctl_in x =
     put64 (ioctl_in_fh x) @ put32 (ioctl_in_flags x) @ put32 (ioctl_in_cmd x) @
     put64 (ioctl_in_arg x) @ put32 (ioctl_in_in_size x) @ put32 (ioctl_in_out_size x)"

lemma length_put_fuse_ioctl_in [simp]: "length (put_fuse_ioctl_in x) = 32"
  by (simp add: put_fuse_ioctl_in_def)

definition ioctl_in_fh_at :: "char list \<Rightarrow> u64 option" where "ioctl_in_fh_at = get64 0"
definition ioctl_in_flags_at :: "char list \<Rightarrow> u32 option" where "ioctl_in_flags_at = get32 8"
definition ioctl_in_cmd_at :: "char list \<Rightarrow> u32 option" where "ioctl_in_cmd_at = get32 12"
definition ioctl_in_arg_at :: "char list \<Rightarrow> u64 option" where "ioctl_in_arg_at = get64 16"
definition ioctl_in_in_size_at :: "char list \<Rightarrow> u32 option" where "ioctl_in_in_size_at = get32 24"
definition ioctl_in_out_size_at :: "char list \<Rightarrow> u32 option" where "ioctl_in_out_size_at = get32 28"

lemma fuse_ioctl_in_fields [simp]:
  "ioctl_in_fh_at (put_fuse_ioctl_in x @ bs) = Some (ioctl_in_fh x)"
  "ioctl_in_flags_at (put_fuse_ioctl_in x @ bs) = Some (ioctl_in_flags x)"
  "ioctl_in_cmd_at (put_fuse_ioctl_in x @ bs) = Some (ioctl_in_cmd x)"
  "ioctl_in_arg_at (put_fuse_ioctl_in x @ bs) = Some (ioctl_in_arg x)"
  "ioctl_in_in_size_at (put_fuse_ioctl_in x @ bs) = Some (ioctl_in_in_size x)"
  "ioctl_in_out_size_at (put_fuse_ioctl_in x @ bs) = Some (ioctl_in_out_size x)"
  by (simp_all add: put_fuse_ioctl_in_def ioctl_in_fh_at_def ioctl_in_flags_at_def ioctl_in_cmd_at_def ioctl_in_arg_at_def ioctl_in_in_size_at_def ioctl_in_out_size_at_def)

lemmas fuse_ioctl_in_fields0 [simp] = fuse_ioctl_in_fields [where bs = "[]", unfolded append_Nil2]

record fuse_poll_in =
  poll_in_fh :: u64
  poll_in_kh :: u64
  poll_in_flags :: u32

definition put_fuse_poll_in :: "fuse_poll_in \<Rightarrow> char list" where
  "put_fuse_poll_in x =
     put64 (poll_in_fh x) @ put64 (poll_in_kh x) @ put32 (poll_in_flags x) @ zeros 4"

lemma length_put_fuse_poll_in [simp]: "length (put_fuse_poll_in x) = 24"
  by (simp add: put_fuse_poll_in_def)

definition poll_in_fh_at :: "char list \<Rightarrow> u64 option" where "poll_in_fh_at = get64 0"
definition poll_in_kh_at :: "char list \<Rightarrow> u64 option" where "poll_in_kh_at = get64 8"
definition poll_in_flags_at :: "char list \<Rightarrow> u32 option" where "poll_in_flags_at = get32 16"

lemma fuse_poll_in_fields [simp]:
  "poll_in_fh_at (put_fuse_poll_in x @ bs) = Some (poll_in_fh x)"
  "poll_in_kh_at (put_fuse_poll_in x @ bs) = Some (poll_in_kh x)"
  "poll_in_flags_at (put_fuse_poll_in x @ bs) = Some (poll_in_flags x)"
  by (simp_all add: put_fuse_poll_in_def poll_in_fh_at_def poll_in_kh_at_def poll_in_flags_at_def)

lemmas fuse_poll_in_fields0 [simp] = fuse_poll_in_fields [where bs = "[]", unfolded append_Nil2]

record fuse_in_header =
  inh_len :: u32
  inh_opcode :: u32
  inh_unique :: u64
  inh_nodeid :: u64
  inh_uid :: u32
  inh_gid :: u32
  inh_pid :: u32

definition put_fuse_in_header :: "fuse_in_header \<Rightarrow> char list" where
  "put_fuse_in_header x =
     put32 (inh_len x) @ put32 (inh_opcode x) @ put64 (inh_unique x) @ put64 (inh_nodeid x) @
     put32 (inh_uid x) @ put32 (inh_gid x) @ put32 (inh_pid x) @ zeros 4"

lemma length_put_fuse_in_header [simp]: "length (put_fuse_in_header x) = 40"
  by (simp add: put_fuse_in_header_def)

definition inh_len_at :: "char list \<Rightarrow> u32 option" where "inh_len_at = get32 0"
definition inh_opcode_at :: "char list \<Rightarrow> u32 option" where "inh_opcode_at = get32 4"
definition inh_unique_at :: "char list \<Rightarrow> u64 option" where "inh_unique_at = get64 8"
definition inh_nodeid_at :: "char list \<Rightarrow> u64 option" where "inh_nodeid_at = get64 16"
definition inh_uid_at :: "char list \<Rightarrow> u32 option" where "inh_uid_at = get32 24"
definition inh_gid_at :: "char list \<Rightarrow> u32 option" where "inh_gid_at = get32 28"
definition inh_pid_at :: "char list \<Rightarrow> u32 option" where "inh_pid_at = get32 32"

lemma fuse_in_header_fields [simp]:
  "inh_len_at (put_fuse_in_header x @ bs) = Some (inh_len x)"
  "inh_opcode_at (put_fuse_in_header x @ bs) = Some (inh_opcode x)"
  "inh_unique_at (put_fuse_in_header x @ bs) = Some (inh_unique x)"
  "inh_nodeid_at (put_fuse_in_header x @ bs) = Some (inh_nodeid x)"
  "inh_uid_at (put_fuse_in_header x @ bs) = Some (inh_uid x)"
  "inh_gid_at (put_fuse_in_header x @ bs) = Some (inh_gid x)"
  "inh_pid_at (put_fuse_in_header x @ bs) = Some (inh_pid x)"
  by (simp_all add: put_fuse_in_header_def inh_len_at_def inh_opcode_at_def inh_unique_at_def inh_nodeid_at_def inh_uid_at_def inh_gid_at_def inh_pid_at_def)

lemmas fuse_in_header_fields0 [simp] = fuse_in_header_fields [where bs = "[]", unfolded append_Nil2]

subsection \<open>Replies and notifications\<close>

record fuse_entry_out =
  entry_out_nodeid :: u64
  entry_out_generation :: u64
  entry_out_entry_valid :: u64
  entry_out_attr_valid :: u64
  entry_out_entry_valid_nsec :: u32
  entry_out_attr_valid_nsec :: u32
  entry_out_attr :: fuse_attr

definition put_fuse_entry_out :: "fuse_entry_out \<Rightarrow> char list" where
  "put_fuse_entry_out x =
     put64 (entry_out_nodeid x) @ put64 (entry_out_generation x) @
     put64 (entry_out_entry_valid x) @ put64 (entry_out_attr_valid x) @
     put32 (entry_out_entry_valid_nsec x) @ put32 (entry_out_attr_valid_nsec x) @
     put_fuse_attr (entry_out_attr x)"

lemma length_put_fuse_entry_out [simp]: "length (put_fuse_entry_out x) = 128"
  by (simp add: put_fuse_entry_out_def)

record fuse_attr_out =
  attr_out_attr_valid :: u64
  attr_out_attr_valid_nsec :: u32
  attr_out_attr :: fuse_attr

definition put_fuse_attr_out :: "fuse_attr_out \<Rightarrow> char list" where
  "put_fuse_attr_out x =
     put64 (attr_out_attr_valid x) @ put32 (attr_out_attr_valid_nsec x) @ zeros 4 @
     put_fuse_attr (attr_out_attr x)"

lemma length_put_fuse_attr_out [simp]: "length (put_fuse_attr_out x) = 104"
  by (simp add: put_fuse_attr_out_def)

record fuse_open_out =
  open_out_fh :: u64
  open_out_open_flags :: u32

definition put_fuse_open_out :: "fuse_open_out \<Rightarrow> char list" where
  "put_fuse_open_out x =
     put64 (open_out_fh x) @ put32 (open_out_open_flags x) @ zeros 4"

lemma length_put_fuse_open_out [simp]: "length (put_fuse_open_out x) = 16"
  by (simp add: put_fuse_open_out_def)

record fuse_write_out =
  write_out_size :: u32

definition put_fuse_write_out :: "fuse_write_out \<Rightarrow> char list" where
  "put_fuse_write_out x =
     put32 (write_out_size x) @ zeros 4"

lemma length_put_fuse_write_out [simp]: "length (put_fuse_write_out x) = 8"
  by (simp add: put_fuse_write_out_def)

record fuse_statfs_out =
  statfs_out_st :: fuse_kstatfs

definition put_fuse_statfs_out :: "fuse_statfs_out \<Rightarrow> char list" where
  "put_fuse_statfs_out x =
     put_fuse_kstatfs (statfs_out_st x)"

lemma length_put_fuse_statfs_out [simp]: "length (put_fuse_statfs_out x) = 80"
  by (simp add: put_fuse_statfs_out_def)

record fuse_getxattr_out =
  getxattr_out_size :: u32

definition put_fuse_getxattr_out :: "fuse_getxattr_out \<Rightarrow> char list" where
  "put_fuse_getxattr_out x =
     put32 (getxattr_out_size x) @ zeros 4"

lemma length_put_fuse_getxattr_out [simp]: "length (put_fuse_getxattr_out x) = 8"
  by (simp add: put_fuse_getxattr_out_def)

record fuse_lk_out =
  lk_out_lk :: fuse_file_lock

definition put_fuse_lk_out :: "fuse_lk_out \<Rightarrow> char list" where
  "put_fuse_lk_out x =
     put_fuse_file_lock (lk_out_lk x)"

lemma length_put_fuse_lk_out [simp]: "length (put_fuse_lk_out x) = 24"
  by (simp add: put_fuse_lk_out_def)

record fuse_init_out =
  init_out_major :: u32
  init_out_minor :: u32
  init_out_max_readahead :: u32
  init_out_flags :: u32
  init_out_max_write :: u32

definition put_fuse_init_out :: "fuse_init_out \<Rightarrow> char list" where
  "put_fuse_init_out x =
     put32 (init_out_major x) @ put32 (init_out_minor x) @ put32 (init_out_max_readahead x) @
     put32 (init_out_flags x) @ zeros 4 @ put32 (init_out_max_write x)"

lemma length_put_fuse_init_out [simp]: "length (put_fuse_init_out x) = 24"
  by (simp add: put_fuse_init_out_def)

record fuse_bmap_out =
  bmap_out_block :: u64

definition put_fuse_bmap_out :: "fuse_bmap_out \<Rightarrow> char list" where
  "put_fuse_bmap_out x =
     put64 (bmap_out_block x)"

lemma length_put_fuse_bmap_out [simp]: "length (put_fuse_bmap_out x) = 8"
  by (simp add: put_fuse_bmap_out_def)

record fuse_ioctl_out =
  ioctl_out_result :: u32
  ioctl_out_flags :: u32
  ioctl_out_in_iovs :: u32
  ioctl_out_out_iovs :: u32

definition put_fuse_ioctl_out :: "fuse_ioctl_out \<Rightarrow> char list" where
  "put_fuse_ioctl_out x =
     put32 (ioctl_out_result x) @ put32 (ioctl_out_flags x) @ put32 (ioctl_out_in_iovs x) @
     put32 (ioctl_out_out_iovs x)"

lemma length_put_fuse_ioctl_out [simp]: "length (put_fuse_ioctl_out x) = 16"
  by (simp add: put_fuse_ioctl_out_def)

record fuse_poll_out =
  poll_out_revents :: u32

definition put_fuse_poll_out :: "fuse_poll_out \<Rightarrow> char list" where
  "put_fuse_poll_out x =
     put32 (poll_out_revents x) @ zeros 4"

lemma length_put_fuse_poll_out [simp]: "length (put_fuse_poll_out x) = 8"
  by (simp add: put_fuse_poll_out_def)

record fuse_notify_poll_wakeup_out =
  wakeup_kh :: u64

definition put_fuse_notify_poll_wakeup_out :: "fuse_notify_poll_wakeup_out \<Rightarrow> char list" where
  "put_fuse_notify_poll_wakeup_out x =
     put64 (wakeup_kh x)"

lemma length_put_fuse_notify_poll_wakeup_out [simp]: "length (put_fuse_notify_poll_wakeup_out x) = 8"
  by (simp add: put_fuse_notify_poll_wakeup_out_def)

record fuse_out_header =
  outh_len :: u32
  outh_error :: u32
  outh_unique :: u64

definition put_fuse_out_header :: "fuse_out_header \<Rightarrow> char list" where
  "put_fuse_out_header x =
     put32 (outh_len x) @ put32 (outh_error x) @ put64 (outh_unique x)"

lemma length_put_fuse_out_header [simp]: "length (put_fuse_out_header x) = 16"
  by (simp add: put_fuse_out_header_def)

record fuse_dirent =
  dirent_ino :: u64
  dirent_off :: u64
  dirent_namelen :: u32
  dirent_type :: u32

definition put_fuse_dirent :: "fuse_dirent \<Rightarrow> char list" where
  "put_fuse_dirent x =
     put64 (dirent_ino x) @ put64 (dirent_off x) @ put32 (dirent_namelen x) @
     put32 (dirent_type x)"

lemma length_put_fuse_dirent [simp]: "length (put_fuse_dirent x) = 24"
  by (simp add: put_fuse_dirent_def)

record fuse_notify_inval_inode_out =
  inval_inode_ino :: u64
  inval_inode_off :: u64
  inval_inode_len :: u64

definition put_fuse_notify_inval_inode_out :: "fuse_notify_inval_inode_out \<Rightarrow> char list" where
  "put_fuse_notify_inval_inode_out x =
     put64 (inval_inode_ino x) @ put64 (inval_inode_off x) @ put64 (inval_inode_len x)"

lemma length_put_fuse_notify_inval_inode_out [simp]: "length (put_fuse_notify_inval_inode_out x) = 24"
  by (simp add: put_fuse_notify_inval_inode_out_def)

record fuse_notify_inval_entry_out =
  inval_entry_parent :: u64
  inval_entry_namelen :: u32

definition put_fuse_notify_inval_entry_out :: "fuse_notify_inval_entry_out \<Rightarrow> char list" where
  "put_fuse_notify_inval_entry_out x =
     put64 (inval_entry_parent x) @ put32 (inval_entry_namelen x) @ zeros 4"

lemma length_put_fuse_notify_inval_entry_out [simp]: "length (put_fuse_notify_inval_entry_out x) = 16"
  by (simp add: put_fuse_notify_inval_entry_out_def)

end
