(* ===== verification/Fuse_Lowlevel.thy ===== *)
theory Fuse_Lowlevel
  imports Complex_Main Fuse_Prelude Fuse_Locks Fuse_Fs Fuse_Kernel Fuse_Opt
begin

text \<open>
  The low-level library (\<open>lib/fuse_lowlevel.c\<close>): requests read from the kernel are decoded and
  handed to the low-level operations of a file system, which answer them with the \<open>fuse_reply_*\<close>
  functions.

  The state holds the requests that are allocated, the list of requests being processed and the
  list of interrupts whose request has not been seen, the negotiated connection, and what has
  been sent to the kernel. A request is named by its address. The low-level operations and the
  interrupt functions are parameters: they act on the whole state, since they may reply. A
  handler returns \<open>None\<close> where the C code would use a request after it was freed, read past the
  end of the message, or call an operation that does not return.

  The \<open>double\<close> timeouts are real numbers. Debug output and the mutexes are left out: a handler
  runs alone, except that interrupt functions run where the code calls them.
\<close>

unbundle bit_operations_syntax

subsection \<open>State\<close>

record fuse_ctx =
  ctx_uid :: u32
  ctx_gid :: u32
  ctx_pid :: u32
  ctx_umask :: u32

text \<open>The union \<open>u\<close>: \<open>u_unique\<close> is used by INTERRUPT requests only, \<open>u_func\<close> (an interrupt function
  together with its data) by the others only.\<close>

record fuse_req =
  unique :: u64
  req_ctr :: int
  req_ctx :: fuse_ctx
  req_ch :: nat
  interrupted :: bool
  u_unique :: u64
  u_func :: "nat option"

record 'u fuse_ll =
  allow_root :: bool
  atomic_o_trunc :: bool
  no_remote_lock :: bool
  big_writes :: bool
  got_init :: bool
  got_destroy :: bool
  cuse_data :: bool
  userdata :: 'u
  owner :: u32
  conn :: fuse_conn_info
  reqs :: "nat \<Rightarrow> fuse_req option"
  fresh_req :: nat
  req_list :: "nat list"
  interrupts :: "nat list"
  ll_mem :: allocs
  chan_bufsize :: nat
  send_results :: "int list"
  sent :: "(nat \<times> cbuf) list"

record fuse_pollhandle =
  ph_kh :: u64
  ph_ch :: nat

record fuse_entry_param =
  e_ino :: fuse_ino_t
  e_generation :: u64
  e_attr :: stat
  e_attr_timeout :: real
  e_entry_timeout :: real

type_synonym 'u ll_fun = "'u fuse_ll \<Rightarrow> 'u fuse_ll option"

record 'u fuse_lowlevel_ops =
  ll_init :: "'u ll_fun option"
  ll_destroy :: "'u ll_fun option"
  ll_lookup :: "(nat \<Rightarrow> fuse_ino_t \<Rightarrow> cstring \<Rightarrow> 'u ll_fun) option"
  ll_forget :: "(nat \<Rightarrow> fuse_ino_t \<Rightarrow> u64 \<Rightarrow> 'u ll_fun) option"
  ll_getattr :: "(nat \<Rightarrow> fuse_ino_t \<Rightarrow> fuse_file_info option \<Rightarrow> 'u ll_fun) option"
  ll_setattr :: "(nat \<Rightarrow> fuse_ino_t \<Rightarrow> stat \<Rightarrow> u32 \<Rightarrow> fuse_file_info option \<Rightarrow> 'u ll_fun) option"
  ll_readlink :: "(nat \<Rightarrow> fuse_ino_t \<Rightarrow> 'u ll_fun) option"
  ll_mknod :: "(nat \<Rightarrow> fuse_ino_t \<Rightarrow> cstring \<Rightarrow> u32 \<Rightarrow> u32 \<Rightarrow> 'u ll_fun) option"
  ll_mkdir :: "(nat \<Rightarrow> fuse_ino_t \<Rightarrow> cstring \<Rightarrow> u32 \<Rightarrow> 'u ll_fun) option"
  ll_unlink :: "(nat \<Rightarrow> fuse_ino_t \<Rightarrow> cstring \<Rightarrow> 'u ll_fun) option"
  ll_rmdir :: "(nat \<Rightarrow> fuse_ino_t \<Rightarrow> cstring \<Rightarrow> 'u ll_fun) option"
  ll_symlink :: "(nat \<Rightarrow> cstring \<Rightarrow> fuse_ino_t \<Rightarrow> cstring \<Rightarrow> 'u ll_fun) option"
  ll_rename :: "(nat \<Rightarrow> fuse_ino_t \<Rightarrow> cstring \<Rightarrow> fuse_ino_t \<Rightarrow> cstring \<Rightarrow> 'u ll_fun) option"
  ll_link :: "(nat \<Rightarrow> fuse_ino_t \<Rightarrow> fuse_ino_t \<Rightarrow> cstring \<Rightarrow> 'u ll_fun) option"
  ll_open :: "(nat \<Rightarrow> fuse_ino_t \<Rightarrow> fuse_file_info \<Rightarrow> 'u ll_fun) option"
  ll_read :: "(nat \<Rightarrow> fuse_ino_t \<Rightarrow> nat \<Rightarrow> off_t \<Rightarrow> fuse_file_info \<Rightarrow> 'u ll_fun) option"
  ll_write :: "(nat \<Rightarrow> fuse_ino_t \<Rightarrow> cbuf \<Rightarrow> nat \<Rightarrow> off_t \<Rightarrow> fuse_file_info \<Rightarrow> 'u ll_fun) option"
  ll_flush :: "(nat \<Rightarrow> fuse_ino_t \<Rightarrow> fuse_file_info \<Rightarrow> 'u ll_fun) option"
  ll_release :: "(nat \<Rightarrow> fuse_ino_t \<Rightarrow> fuse_file_info \<Rightarrow> 'u ll_fun) option"
  ll_fsync :: "(nat \<Rightarrow> fuse_ino_t \<Rightarrow> int \<Rightarrow> fuse_file_info \<Rightarrow> 'u ll_fun) option"
  ll_opendir :: "(nat \<Rightarrow> fuse_ino_t \<Rightarrow> fuse_file_info \<Rightarrow> 'u ll_fun) option"
  ll_readdir :: "(nat \<Rightarrow> fuse_ino_t \<Rightarrow> nat \<Rightarrow> off_t \<Rightarrow> fuse_file_info \<Rightarrow> 'u ll_fun) option"
  ll_releasedir :: "(nat \<Rightarrow> fuse_ino_t \<Rightarrow> fuse_file_info \<Rightarrow> 'u ll_fun) option"
  ll_fsyncdir :: "(nat \<Rightarrow> fuse_ino_t \<Rightarrow> int \<Rightarrow> fuse_file_info \<Rightarrow> 'u ll_fun) option"
  ll_statfs :: "(nat \<Rightarrow> fuse_ino_t \<Rightarrow> 'u ll_fun) option"
  ll_setxattr :: "(nat \<Rightarrow> fuse_ino_t \<Rightarrow> cstring \<Rightarrow> cbuf \<Rightarrow> nat \<Rightarrow> int \<Rightarrow> 'u ll_fun) option"
  ll_getxattr :: "(nat \<Rightarrow> fuse_ino_t \<Rightarrow> cstring \<Rightarrow> nat \<Rightarrow> 'u ll_fun) option"
  ll_listxattr :: "(nat \<Rightarrow> fuse_ino_t \<Rightarrow> nat \<Rightarrow> 'u ll_fun) option"
  ll_removexattr :: "(nat \<Rightarrow> fuse_ino_t \<Rightarrow> cstring \<Rightarrow> 'u ll_fun) option"
  ll_access :: "(nat \<Rightarrow> fuse_ino_t \<Rightarrow> int \<Rightarrow> 'u ll_fun) option"
  ll_create :: "(nat \<Rightarrow> fuse_ino_t \<Rightarrow> cstring \<Rightarrow> u32 \<Rightarrow> fuse_file_info \<Rightarrow> 'u ll_fun) option"
  ll_getlk :: "(nat \<Rightarrow> fuse_ino_t \<Rightarrow> fuse_file_info \<Rightarrow> flock \<Rightarrow> 'u ll_fun) option"
  ll_setlk :: "(nat \<Rightarrow> fuse_ino_t \<Rightarrow> fuse_file_info \<Rightarrow> flock \<Rightarrow> bool \<Rightarrow> 'u ll_fun) option"
  ll_bmap :: "(nat \<Rightarrow> fuse_ino_t \<Rightarrow> nat \<Rightarrow> u64 \<Rightarrow> 'u ll_fun) option"
  ll_ioctl :: "(nat \<Rightarrow> fuse_ino_t \<Rightarrow> int \<Rightarrow> u64 \<Rightarrow> fuse_file_info \<Rightarrow> u32 \<Rightarrow> cbuf option \<Rightarrow> nat \<Rightarrow> nat \<Rightarrow> 'u ll_fun) option"
  ll_poll :: "(nat \<Rightarrow> fuse_ino_t \<Rightarrow> fuse_file_info \<Rightarrow> fuse_pollhandle option \<Rightarrow> 'u ll_fun) option"
  cuse_lowlevel_init :: "nat \<Rightarrow> fuse_ino_t \<Rightarrow> cbuf \<Rightarrow> 'u ll_fun"
  interrupt_func :: "nat \<Rightarrow> nat \<Rightarrow> 'u ll_fun"

definition fi_zero :: fuse_file_info where
  "fi_zero = \<lparr>fi_flags = 0, fh_old = 0, writepage = 0, direct_io = False, keep_cache = False,
     fi_flush = False, nonseekable = False, fh = 0, lock_owner = 0\<rparr>"

subsection \<open>Conversions\<close>

definition convert_stat :: "stat \<Rightarrow> fuse_attr" where
  "convert_stat st = \<lparr>attr_ino = st_ino st, attr_size = word_of_int (st_size st),
     attr_blocks = word_of_int (st_blocks st), attr_atime = word_of_int (tv_sec (st_atim st)),
     attr_mtime = word_of_int (tv_sec (st_mtim st)), attr_ctime = word_of_int (tv_sec (st_ctim st)),
     attr_atimensec = word_of_int (tv_nsec (st_atim st)), attr_mtimensec = word_of_int (tv_nsec (st_mtim st)),
     attr_ctimensec = word_of_int (tv_nsec (st_ctim st)), attr_mode = st_mode st,
     attr_nlink = ucast (st_nlink st), attr_uid = st_uid st, attr_gid = st_gid st,
     attr_rdev = ucast (st_rdev st), attr_blksize = word_of_int (st_blksize st)\<rparr>"

definition convert_attr :: "cbuf \<Rightarrow> stat \<Rightarrow> stat option" where
  "convert_attr arg st = do {
     mode \<leftarrow> setattr_in_mode_at arg; uid \<leftarrow> setattr_in_uid_at arg; gid \<leftarrow> setattr_in_gid_at arg;
     sz \<leftarrow> setattr_in_size_at arg; atime \<leftarrow> setattr_in_atime_at arg; mtime \<leftarrow> setattr_in_mtime_at arg;
     atimensec \<leftarrow> setattr_in_atimensec_at arg; mtimensec \<leftarrow> setattr_in_mtimensec_at arg;
     Some (st\<lparr>st_mode := mode, st_uid := uid, st_gid := gid, st_size := sint sz,
       st_atim := \<lparr>tv_sec = sint atime, tv_nsec = uint atimensec\<rparr>,
       st_mtim := \<lparr>tv_sec = sint mtime, tv_nsec = uint mtimensec\<rparr>\<rparr>)
   }"

definition convert_statfs :: "statvfs \<Rightarrow> fuse_kstatfs" where
  "convert_statfs st = \<lparr>kst_blocks = f_blocks st, kst_bfree = f_bfree st, kst_bavail = f_bavail st,
     kst_files = f_files st, kst_ffree = f_ffree st, kst_bsize = ucast (f_bsize st),
     kst_namelen = ucast (f_namemax st), kst_frsize = ucast (f_frsize st)\<rparr>"

definition iov_length :: "cbuf list \<Rightarrow> nat" where
  "iov_length iov = sum_list (map length iov)"

subsection \<open>Requests and their lists\<close>

text \<open>The circular lists of \<open>fuse_ll\<close> are the sequences of their elements; a request is in at most
  one of them, and \<open>list_init_req\<close> makes a request that is in none.\<close>

definition list_del_req :: "nat \<Rightarrow> 'u fuse_ll \<Rightarrow> 'u fuse_ll" where
  "list_del_req r f = f\<lparr>req_list := removeAll r (req_list f), interrupts := removeAll r (interrupts f)\<rparr>"

definition destroy_req :: "nat \<Rightarrow> 'u fuse_ll \<Rightarrow> 'u fuse_ll" where
  "destroy_req r f = f\<lparr>reqs := (reqs f)(r := None)\<rparr>"

definition set_req :: "nat \<Rightarrow> fuse_req \<Rightarrow> 'u fuse_ll \<Rightarrow> 'u fuse_ll" where
  "set_req r q f = f\<lparr>reqs := (reqs f)(r := Some q)\<rparr>"

definition fuse_free_req :: "nat \<Rightarrow> 'u ll_fun" where
  "fuse_free_req r f = do {
     q \<leftarrow> reqs f r;
     let q = q\<lparr>u_func := None, req_ctr := req_ctr q - 1\<rparr>;
     let f = list_del_req r (set_req r q f);
     Some (if req_ctr q = 0 then destroy_req r f else f)
   }"

subsection \<open>Replies\<close>

text \<open>\<open>fuse_chan_send\<close>: the result of the write is decided outside; success when nothing is said.\<close>

definition fuse_chan_send :: "nat \<Rightarrow> cbuf list \<Rightarrow> 'u fuse_ll \<Rightarrow> int \<times> 'u fuse_ll" where
  "fuse_chan_send ch iov f =
     (let (res, rest) = (case send_results f of [] \<Rightarrow> (0, []) | x # xs \<Rightarrow> (x, xs))
      in (res, f\<lparr>send_results := rest, sent := sent f @ [(ch, concat iov)]\<rparr>))"

text \<open>The iovec of the source has room for the header in front; here it is the rest.\<close>

definition fuse_send_reply_iov_nofree :: "nat \<Rightarrow> int \<Rightarrow> cbuf list \<Rightarrow> 'u fuse_ll \<Rightarrow> (int \<times> 'u fuse_ll) option" where
  "fuse_send_reply_iov_nofree r err iov f = do {
     q \<leftarrow> reqs f r;
     let err = (if err \<le> - 1000 \<or> err > 0 then - ERANGE else err);
     let len = iov_length (zeros 16 # iov);
     let out = \<lparr>outh_len = word_of_nat len, outh_error = word_of_int err, outh_unique = unique q\<rparr>;
     Some (fuse_chan_send (req_ch q) (put_fuse_out_header out # iov) f)
   }"

definition send_reply_iov :: "nat \<Rightarrow> int \<Rightarrow> cbuf list \<Rightarrow> 'u fuse_ll \<Rightarrow> (int \<times> 'u fuse_ll) option" where
  "send_reply_iov r err iov f = do {
     (res, f) \<leftarrow> fuse_send_reply_iov_nofree r err iov f;
     f \<leftarrow> fuse_free_req r f;
     Some (res, f)
   }"

definition send_reply :: "nat \<Rightarrow> int \<Rightarrow> cbuf \<Rightarrow> 'u fuse_ll \<Rightarrow> (int \<times> 'u fuse_ll) option" where
  "send_reply r err arg f = send_reply_iov r err (if arg \<noteq> [] then [arg] else []) f"

definition send_reply_ok :: "nat \<Rightarrow> cbuf \<Rightarrow> 'u fuse_ll \<Rightarrow> (int \<times> 'u fuse_ll) option" where
  "send_reply_ok r arg f = send_reply r 0 arg f"

definition fuse_reply_err :: "nat \<Rightarrow> int \<Rightarrow> 'u fuse_ll \<Rightarrow> (int \<times> 'u fuse_ll) option" where
  "fuse_reply_err r err f = send_reply r (- err) [] f"

definition fuse_reply_none :: "nat \<Rightarrow> 'u ll_fun" where
  "fuse_reply_none r f = do {
     q \<leftarrow> reqs f r;
     fuse_free_req r (snd (fuse_chan_send (req_ch q) [] f))
   }"

definition fuse_reply_iov :: "nat \<Rightarrow> cbuf list \<Rightarrow> 'u fuse_ll \<Rightarrow> (int \<times> 'u fuse_ll) option" where
  "fuse_reply_iov r iov f =
     (let (ok, m) = alloc (ll_mem f); f = f\<lparr>ll_mem := m\<rparr>
      in if \<not> ok then fuse_reply_err r (- ENOMEM) f else send_reply_iov r 0 iov f)"

text \<open>Directory entries: what \<open>fuse_add_dirent\<close> writes at the start of the buffer.\<close>

definition fuse_dirent_size :: "nat \<Rightarrow> nat" where
  "fuse_dirent_size namelen = (24 + namelen + 7) div 8 * 8"

definition fuse_add_dirent :: "cbuf \<Rightarrow> cstring \<Rightarrow> stat \<Rightarrow> off_t \<Rightarrow> cbuf" where
  "fuse_add_dirent buf name st off =
     (let namelen = length name;
          entlen = 24 + namelen;
          entsize = fuse_dirent_size namelen;
          padlen = entsize - entlen;
          d = \<lparr>dirent_ino = st_ino st, dirent_off = word_of_int off, dirent_namelen = word_of_nat namelen,
               dirent_type = drop_bit 12 (st_mode st AND 0xF000)\<rparr>
      in put_fuse_dirent d @ name @ zeros padlen @ drop entsize buf)"

text \<open>\<open>fuse_add_direntry\<close> returns the size of the entry and the buffer (\<open>None\<close> is the null pointer),
  which is written only when the entry fits into \<open>bufsize\<close> bytes.\<close>

definition fuse_add_direntry :: "cbuf option \<Rightarrow> nat \<Rightarrow> cstring \<Rightarrow> stat \<Rightarrow> off_t \<Rightarrow> nat \<times> cbuf option" where
  "fuse_add_direntry buf bufsize name st off =
     (let entsize = fuse_dirent_size (length name)
      in (entsize, if entsize \<le> bufsize then map_option (\<lambda>b. fuse_add_dirent b name st off) buf else buf))"

definition calc_timeout_sec :: "real \<Rightarrow> u64" where
  "calc_timeout_sec t =
     (if t > 2 ^ 64 then - 1 else if t < 0 then 0 else word_of_int \<lfloor>t\<rfloor>)"

definition calc_timeout_nsec :: "real \<Rightarrow> u32" where
  "calc_timeout_nsec t =
     (let g = t - real (unat (calc_timeout_sec t))
      in if g < 0 then 0 else if g \<ge> 999999999 / 10 ^ 9 then 999999999 else word_of_int \<lfloor>g * 10 ^ 9\<rfloor>)"

definition fill_entry :: "fuse_entry_param \<Rightarrow> fuse_entry_out" where
  "fill_entry e = \<lparr>entry_out_nodeid = e_ino e, entry_out_generation = e_generation e,
     entry_out_entry_valid = calc_timeout_sec (e_entry_timeout e),
     entry_out_attr_valid = calc_timeout_sec (e_attr_timeout e),
     entry_out_entry_valid_nsec = calc_timeout_nsec (e_entry_timeout e),
     entry_out_attr_valid_nsec = calc_timeout_nsec (e_attr_timeout e),
     entry_out_attr = convert_stat (e_attr e)\<rparr>"

definition fill_open :: "fuse_file_info \<Rightarrow> fuse_open_out" where
  "fill_open fi = \<lparr>open_out_fh = fh fi,
     open_out_open_flags = (if direct_io fi then 1 else 0) OR (if keep_cache fi then 2 else 0) OR
       (if nonseekable fi then 4 else 0)\<rparr>"

definition proto_minor_of :: "'u fuse_ll \<Rightarrow> nat" where
  "proto_minor_of f = unat (proto_minor (conn f))"

definition fuse_reply_entry :: "nat \<Rightarrow> fuse_entry_param \<Rightarrow> 'u fuse_ll \<Rightarrow> (int \<times> 'u fuse_ll) option" where
  "fuse_reply_entry r e f =
     (let sz = (if proto_minor_of f < 9 then 120 else 128)
      in if e_ino e = 0 \<and> proto_minor_of f < 4 then fuse_reply_err r ENOENT f
         else send_reply_ok r (take sz (put_fuse_entry_out (fill_entry e))) f)"

definition fuse_reply_create ::
  "nat \<Rightarrow> fuse_entry_param \<Rightarrow> fuse_file_info \<Rightarrow> 'u fuse_ll \<Rightarrow> (int \<times> 'u fuse_ll) option" where
  "fuse_reply_create r e fi f =
     (let entrysize = (if proto_minor_of f < 9 then 120 else 128)
      in send_reply_ok r (take entrysize (put_fuse_entry_out (fill_entry e)) @ put_fuse_open_out (fill_open fi)) f)"

definition fuse_reply_attr :: "nat \<Rightarrow> stat \<Rightarrow> real \<Rightarrow> 'u fuse_ll \<Rightarrow> (int \<times> 'u fuse_ll) option" where
  "fuse_reply_attr r st timeout f =
     (let sz = (if proto_minor_of f < 9 then 96 else 104)
      in send_reply_ok r (take sz (put_fuse_attr_out \<lparr>attr_out_attr_valid = calc_timeout_sec timeout,
           attr_out_attr_valid_nsec = calc_timeout_nsec timeout, attr_out_attr = convert_stat st\<rparr>)) f)"

definition fuse_reply_readlink :: "nat \<Rightarrow> cstring \<Rightarrow> 'u fuse_ll \<Rightarrow> (int \<times> 'u fuse_ll) option" where
  "fuse_reply_readlink r linkname f = send_reply_ok r linkname f"

definition fuse_reply_open :: "nat \<Rightarrow> fuse_file_info \<Rightarrow> 'u fuse_ll \<Rightarrow> (int \<times> 'u fuse_ll) option" where
  "fuse_reply_open r fi f = send_reply_ok r (put_fuse_open_out (fill_open fi)) f"

definition fuse_reply_write :: "nat \<Rightarrow> nat \<Rightarrow> 'u fuse_ll \<Rightarrow> (int \<times> 'u fuse_ll) option" where
  "fuse_reply_write r count f = send_reply_ok r (put_fuse_write_out \<lparr>write_out_size = word_of_nat count\<rparr>) f"

definition fuse_reply_buf :: "nat \<Rightarrow> cbuf \<Rightarrow> 'u fuse_ll \<Rightarrow> (int \<times> 'u fuse_ll) option" where
  "fuse_reply_buf r buf f = send_reply_ok r buf f"

definition fuse_reply_statfs :: "nat \<Rightarrow> statvfs \<Rightarrow> 'u fuse_ll \<Rightarrow> (int \<times> 'u fuse_ll) option" where
  "fuse_reply_statfs r st f =
     (let sz = (if proto_minor_of f < 4 then 48 else 80)
      in send_reply_ok r (take sz (put_fuse_statfs_out \<lparr>statfs_out_st = convert_statfs st\<rparr>)) f)"

definition fuse_reply_xattr :: "nat \<Rightarrow> nat \<Rightarrow> 'u fuse_ll \<Rightarrow> (int \<times> 'u fuse_ll) option" where
  "fuse_reply_xattr r count f =
     send_reply_ok r (put_fuse_getxattr_out \<lparr>getxattr_out_size = word_of_nat count\<rparr>) f"

definition fuse_reply_lock :: "nat \<Rightarrow> flock \<Rightarrow> 'u fuse_ll \<Rightarrow> (int \<times> 'u fuse_ll) option" where
  "fuse_reply_lock r lck f =
     (let locked = (l_type lck \<noteq> F_UNLCK);
          lk = \<lparr>fl_start = (if locked then word_of_int (l_start lck) else 0),
                fl_end = (if locked
                          then if l_len lck = 0 then word_of_int OFFSET_MAX
                               else word_of_int (l_start lck + l_len lck - 1)
                          else 0),
                fl_type = word_of_int (l_type lck), fl_pid = word_of_int (l_pid lck)\<rparr>
      in send_reply_ok r (put_fuse_lk_out \<lparr>lk_out_lk = lk\<rparr>) f)"

definition fuse_reply_bmap :: "nat \<Rightarrow> u64 \<Rightarrow> 'u fuse_ll \<Rightarrow> (int \<times> 'u fuse_ll) option" where
  "fuse_reply_bmap r idx f = send_reply_ok r (put_fuse_bmap_out \<lparr>bmap_out_block = idx\<rparr>) f"

text \<open>The iovecs of \<open>fuse_reply_ioctl_retry\<close> are arrays of pairs of an address and a length.\<close>

definition put_iovecs :: "(u64 \<times> u64) list \<Rightarrow> cbuf" where
  "put_iovecs iov = concat (map (\<lambda>(a, n). put64 a @ put64 n) iov)"

definition fuse_reply_ioctl_retry ::
  "nat \<Rightarrow> (u64 \<times> u64) list \<Rightarrow> (u64 \<times> u64) list \<Rightarrow> 'u fuse_ll \<Rightarrow> (int \<times> 'u fuse_ll) option" where
  "fuse_reply_ioctl_retry r in_iov out_iov f =
     (let arg = \<lparr>ioctl_out_result = 0, ioctl_out_flags = 4, ioctl_out_in_iovs = word_of_nat (length in_iov),
                 ioctl_out_out_iovs = word_of_nat (length out_iov)\<rparr>
      in send_reply_iov r 0 ([put_fuse_ioctl_out arg] @ (if in_iov \<noteq> [] then [put_iovecs in_iov] else []) @
           (if out_iov \<noteq> [] then [put_iovecs out_iov] else [])) f)"

definition ioctl_result :: "int \<Rightarrow> fuse_ioctl_out" where
  "ioctl_result result = \<lparr>ioctl_out_result = word_of_int result, ioctl_out_flags = 0,
     ioctl_out_in_iovs = 0, ioctl_out_out_iovs = 0\<rparr>"

definition fuse_reply_ioctl :: "nat \<Rightarrow> int \<Rightarrow> cbuf \<Rightarrow> 'u fuse_ll \<Rightarrow> (int \<times> 'u fuse_ll) option" where
  "fuse_reply_ioctl r result buf f =
     send_reply_iov r 0 ([put_fuse_ioctl_out (ioctl_result result)] @ (if buf \<noteq> [] then [buf] else [])) f"

definition fuse_reply_ioctl_iov :: "nat \<Rightarrow> int \<Rightarrow> cbuf list \<Rightarrow> 'u fuse_ll \<Rightarrow> (int \<times> 'u fuse_ll) option" where
  "fuse_reply_ioctl_iov r result iov f =
     (let (ok, m) = alloc (ll_mem f); f = f\<lparr>ll_mem := m\<rparr>
      in if \<not> ok then fuse_reply_err r (- ENOMEM) f
         else send_reply_iov r 0 (put_fuse_ioctl_out (ioctl_result result) # iov) f)"

definition fuse_reply_poll :: "nat \<Rightarrow> u32 \<Rightarrow> 'u fuse_ll \<Rightarrow> (int \<times> 'u fuse_ll) option" where
  "fuse_reply_poll r revents f = send_reply_ok r (put_fuse_poll_out \<lparr>poll_out_revents = revents\<rparr>) f"

text \<open>The older versions of two replies.\<close>

definition fill_open_compat :: "fuse_file_info_compat \<Rightarrow> fuse_open_out" where
  "fill_open_compat fi = \<lparr>open_out_fh = c_fh fi,
     open_out_open_flags = (if c_direct_io fi then 1 else 0) OR (if c_keep_cache fi then 2 else 0)\<rparr>"

definition fuse_reply_open_compat :: "nat \<Rightarrow> fuse_file_info_compat \<Rightarrow> 'u fuse_ll \<Rightarrow> (int \<times> 'u fuse_ll) option" where
  "fuse_reply_open_compat r fi f = send_reply_ok r (put_fuse_open_out (fill_open_compat fi)) f"

definition fuse_reply_statfs_compat :: "nat \<Rightarrow> statfs_old \<Rightarrow> 'u fuse_ll \<Rightarrow> (int \<times> 'u fuse_ll) option" where
  "fuse_reply_statfs_compat r st f =
     fuse_reply_statfs r (convert_statfs_old st \<lparr>f_bsize = 0, f_frsize = 0, f_blocks = 0, f_bfree = 0,
       f_bavail = 0, f_files = 0, f_ffree = 0, f_namemax = 0\<rparr>) f"

subsection \<open>Decoding requests\<close>

text \<open>\<open>fuse_reply_*\<close> where its result is ignored.\<close>

abbreviation reply_err :: "nat \<Rightarrow> int \<Rightarrow> 'u ll_fun" where
  "reply_err r err f \<equiv> map_option snd (fuse_reply_err r err f)"

definition fi_handle :: "u64 \<Rightarrow> fuse_file_info" where
  "fi_handle h = fi_zero\<lparr>fh := h, fh_old := h\<rparr>"

definition set_umask :: "nat \<Rightarrow> u32 \<Rightarrow> 'u ll_fun" where
  "set_umask r msk f = do { q \<leftarrow> reqs f r; Some (set_req r (q\<lparr>req_ctx := (req_ctx q)\<lparr>ctx_umask := msk\<rparr>\<rparr>) f) }"

type_synonym 'u handler = "'u fuse_lowlevel_ops \<Rightarrow> nat \<Rightarrow> fuse_ino_t \<Rightarrow> cbuf \<Rightarrow> 'u ll_fun"

definition do_lookup :: "'u handler" where
  "do_lookup ops r ino inarg f = do {
     name \<leftarrow> get_str inarg;
     case ll_lookup ops of Some g \<Rightarrow> g r ino name f | None \<Rightarrow> reply_err r ENOSYS f
   }"

definition do_forget :: "'u handler" where
  "do_forget ops r ino inarg f =
     (case ll_forget ops of
        Some g \<Rightarrow> do { nlookup \<leftarrow> forget_in_nlookup_at inarg; g r ino nlookup f }
      | None \<Rightarrow> fuse_reply_none r f)"

definition do_getattr :: "'u handler" where
  "do_getattr ops r ino inarg f = do {
     fip \<leftarrow> (if proto_minor_of f \<ge> 9
             then do {
               flags \<leftarrow> getattr_in_getattr_flags_at inarg;
               if flags AND 1 \<noteq> 0 then do { h \<leftarrow> getattr_in_fh_at inarg; Some (Some (fi_handle h)) }
               else Some None
             } else Some None);
     case ll_getattr ops of Some g \<Rightarrow> g r ino fip f | None \<Rightarrow> reply_err r ENOSYS f
   }"

text \<open>\<open>0x1bf\<close>: the \<open>FUSE_SET_ATTR_*\<close> bits, \<open>0x40\<close>: \<open>FATTR_FH\<close>.\<close>

definition do_setattr :: "'u handler" where
  "do_setattr ops r ino inarg f =
     (case ll_setattr ops of
        Some g \<Rightarrow> do {
          st \<leftarrow> convert_attr inarg stat0;
          valid \<leftarrow> setattr_in_valid_at inarg;
          h \<leftarrow> setattr_in_fh_at inarg;
          let fi = (if valid AND 0x40 \<noteq> 0 then Some (fi_handle h) else None);
          g r ino st (valid AND NOT 0x40 AND 0x1bf) fi f
        }
      | None \<Rightarrow> reply_err r ENOSYS f)"

definition do_access :: "'u handler" where
  "do_access ops r ino inarg f =
     (case ll_access ops of
        Some g \<Rightarrow> do { msk \<leftarrow> access_in_mask_at inarg; g r ino (sint msk) f }
      | None \<Rightarrow> reply_err r ENOSYS f)"

definition do_readlink :: "'u handler" where
  "do_readlink ops r ino inarg f =
     (case ll_readlink ops of Some g \<Rightarrow> g r ino f | None \<Rightarrow> reply_err r ENOSYS f)"

definition do_mknod :: "'u handler" where
  "do_mknod ops r ino inarg f = do {
     (name, f) \<leftarrow> (if proto_minor_of f \<ge> 12
                   then do { msk \<leftarrow> mknod_in_umask_at inarg; f \<leftarrow> set_umask r msk f; Some (drop 16 inarg, f) }
                   else Some (drop 8 inarg, f));
     case ll_mknod ops of
       Some g \<Rightarrow> do {
         name \<leftarrow> get_str name; mode \<leftarrow> mknod_in_mode_at inarg; rdev \<leftarrow> mknod_in_rdev_at inarg;
         g r ino name mode rdev f
       }
     | None \<Rightarrow> reply_err r ENOSYS f
   }"

definition do_mkdir :: "'u handler" where
  "do_mkdir ops r ino inarg f = do {
     f \<leftarrow> (if proto_minor_of f \<ge> 12 then do { msk \<leftarrow> mkdir_in_umask_at inarg; set_umask r msk f } else Some f);
     case ll_mkdir ops of
       Some g \<Rightarrow> do { name \<leftarrow> get_str (drop 8 inarg); mode \<leftarrow> mkdir_in_mode_at inarg; g r ino name mode f }
     | None \<Rightarrow> reply_err r ENOSYS f
   }"

definition do_unlink :: "'u handler" where
  "do_unlink ops r ino inarg f = do {
     name \<leftarrow> get_str inarg;
     case ll_unlink ops of Some g \<Rightarrow> g r ino name f | None \<Rightarrow> reply_err r ENOSYS f
   }"

definition do_rmdir :: "'u handler" where
  "do_rmdir ops r ino inarg f = do {
     name \<leftarrow> get_str inarg;
     case ll_rmdir ops of Some g \<Rightarrow> g r ino name f | None \<Rightarrow> reply_err r ENOSYS f
   }"

definition do_symlink :: "'u handler" where
  "do_symlink ops r ino inarg f = do {
     name \<leftarrow> get_str inarg;
     linkname \<leftarrow> get_str (drop (Suc (length name)) inarg);
     case ll_symlink ops of Some g \<Rightarrow> g r linkname ino name f | None \<Rightarrow> reply_err r ENOSYS f
   }"

definition do_rename :: "'u handler" where
  "do_rename ops r ino inarg f = do {
     oldname \<leftarrow> get_str (drop 8 inarg);
     newname \<leftarrow> get_str (drop (Suc (length oldname)) (drop 8 inarg));
     case ll_rename ops of
       Some g \<Rightarrow> do { newdir \<leftarrow> rename_in_newdir_at inarg; g r ino oldname newdir newname f }
     | None \<Rightarrow> reply_err r ENOSYS f
   }"

definition do_link :: "'u handler" where
  "do_link ops r ino inarg f =
     (case ll_link ops of
        Some g \<Rightarrow> do {
          oldnodeid \<leftarrow> link_in_oldnodeid_at inarg; name \<leftarrow> get_str (drop 8 inarg);
          g r oldnodeid ino name f
        }
      | None \<Rightarrow> reply_err r ENOSYS f)"

definition do_create :: "'u handler" where
  "do_create ops r ino inarg f =
     (case ll_create ops of
        Some g \<Rightarrow> do {
          flags \<leftarrow> create_in_flags_at inarg;
          mode \<leftarrow> create_in_mode_at inarg;
          (name, f) \<leftarrow> (if proto_minor_of f \<ge> 12
                        then do { msk \<leftarrow> create_in_umask_at inarg; f \<leftarrow> set_umask r msk f; Some (drop 16 inarg, f) }
                        else Some (drop 8 inarg, f));
          name \<leftarrow> get_str name;
          g r ino name mode (fi_zero\<lparr>fi_flags := sint flags\<rparr>) f
        }
      | None \<Rightarrow> reply_err r ENOSYS f)"

definition do_open :: "'u handler" where
  "do_open ops r ino inarg f = do {
     flags \<leftarrow> open_in_flags_at inarg;
     let fi = fi_zero\<lparr>fi_flags := sint flags\<rparr>;
     case ll_open ops of Some g \<Rightarrow> g r ino fi f | None \<Rightarrow> map_option snd (fuse_reply_open r fi f)
   }"

definition do_read :: "'u handler" where
  "do_read ops r ino inarg f =
     (case ll_read ops of
        Some g \<Rightarrow> do {
          h \<leftarrow> read_in_fh_at inarg;
          fi \<leftarrow> (if proto_minor_of f \<ge> 9
                 then do {
                   own \<leftarrow> read_in_lock_owner_at inarg; flags \<leftarrow> read_in_flags_at inarg;
                   Some ((fi_handle h)\<lparr>lock_owner := own, fi_flags := sint flags\<rparr>)
                 } else Some (fi_handle h));
          sz \<leftarrow> read_in_size_at inarg; off \<leftarrow> read_in_offset_at inarg;
          g r ino (unat sz) (sint off) fi f
        }
      | None \<Rightarrow> reply_err r ENOSYS f)"

definition do_write :: "'u handler" where
  "do_write ops r ino inarg f = do {
     h \<leftarrow> write_in_fh_at inarg;
     wflags \<leftarrow> write_in_write_flags_at inarg;
     let fi = (fi_handle h)\<lparr>writepage := uint (wflags AND 1)\<rparr>;
     (fi, param) \<leftarrow> (if proto_minor_of f < 9 then Some (fi, drop 24 inarg)
        else do {
          own \<leftarrow> write_in_lock_owner_at inarg; flags \<leftarrow> write_in_flags_at inarg;
          Some (fi\<lparr>lock_owner := own, fi_flags := sint flags\<rparr>, drop 40 inarg)
        });
     case ll_write ops of
       Some g \<Rightarrow> do {
         sz \<leftarrow> write_in_size_at inarg; off \<leftarrow> write_in_offset_at inarg;
         g r ino param (unat sz) (sint off) fi f
       }
     | None \<Rightarrow> reply_err r ENOSYS f
   }"

definition do_flush :: "'u handler" where
  "do_flush ops r ino inarg f = do {
     h \<leftarrow> flush_in_fh_at inarg;
     let fi = (fi_handle h)\<lparr>fi_flush := True\<rparr>;
     fi \<leftarrow> (if proto_minor_of f \<ge> 7 then do { own \<leftarrow> flush_in_lock_owner_at inarg; Some (fi\<lparr>lock_owner := own\<rparr>) } else Some fi);
     case ll_flush ops of Some g \<Rightarrow> g r ino fi f | None \<Rightarrow> reply_err r ENOSYS f
   }"

definition do_release :: "'u handler" where
  "do_release ops r ino inarg f = do {
     flags \<leftarrow> release_in_flags_at inarg;
     h \<leftarrow> release_in_fh_at inarg;
     let fi = (fi_handle h)\<lparr>fi_flags := sint flags\<rparr>;
     fi \<leftarrow> (if proto_minor_of f \<ge> 8
            then do {
              rflags \<leftarrow> release_in_release_flags_at inarg; own \<leftarrow> release_in_lock_owner_at inarg;
              Some (fi\<lparr>fi_flush := (rflags AND 1 \<noteq> 0), lock_owner := own\<rparr>)
            } else Some fi);
     case ll_release ops of Some g \<Rightarrow> g r ino fi f | None \<Rightarrow> reply_err r 0 f
   }"

definition do_fsync :: "'u handler" where
  "do_fsync ops r ino inarg f = do {
     h \<leftarrow> fsync_in_fh_at inarg;
     case ll_fsync ops of
       Some g \<Rightarrow> do { flags \<leftarrow> fsync_in_fsync_flags_at inarg; g r ino (uint (flags AND 1)) (fi_handle h) f }
     | None \<Rightarrow> reply_err r ENOSYS f
   }"

definition do_opendir :: "'u handler" where
  "do_opendir ops r ino inarg f = do {
     flags \<leftarrow> open_in_flags_at inarg;
     let fi = fi_zero\<lparr>fi_flags := sint flags\<rparr>;
     case ll_opendir ops of Some g \<Rightarrow> g r ino fi f | None \<Rightarrow> map_option snd (fuse_reply_open r fi f)
   }"

definition do_readdir :: "'u handler" where
  "do_readdir ops r ino inarg f = do {
     h \<leftarrow> read_in_fh_at inarg;
     case ll_readdir ops of
       Some g \<Rightarrow> do { sz \<leftarrow> read_in_size_at inarg; off \<leftarrow> read_in_offset_at inarg; g r ino (unat sz) (sint off) (fi_handle h) f }
     | None \<Rightarrow> reply_err r ENOSYS f
   }"

definition do_releasedir :: "'u handler" where
  "do_releasedir ops r ino inarg f = do {
     flags \<leftarrow> release_in_flags_at inarg;
     h \<leftarrow> release_in_fh_at inarg;
     let fi = (fi_handle h)\<lparr>fi_flags := sint flags\<rparr>;
     case ll_releasedir ops of Some g \<Rightarrow> g r ino fi f | None \<Rightarrow> reply_err r 0 f
   }"

definition do_fsyncdir :: "'u handler" where
  "do_fsyncdir ops r ino inarg f = do {
     h \<leftarrow> fsync_in_fh_at inarg;
     case ll_fsyncdir ops of
       Some g \<Rightarrow> do { flags \<leftarrow> fsync_in_fsync_flags_at inarg; g r ino (uint (flags AND 1)) (fi_handle h) f }
     | None \<Rightarrow> reply_err r ENOSYS f
   }"

definition do_statfs :: "'u handler" where
  "do_statfs ops r ino inarg f =
     (case ll_statfs ops of
        Some g \<Rightarrow> g r ino f
      | None \<Rightarrow> map_option snd (fuse_reply_statfs r \<lparr>f_bsize = 512, f_frsize = 0, f_blocks = 0, f_bfree = 0,
          f_bavail = 0, f_files = 0, f_ffree = 0, f_namemax = 255\<rparr> f))"

definition do_setxattr :: "'u handler" where
  "do_setxattr ops r ino inarg f = do {
     name \<leftarrow> get_str (drop 8 inarg);
     let val = drop (Suc (length name)) (drop 8 inarg);
     case ll_setxattr ops of
       Some g \<Rightarrow> do { sz \<leftarrow> setxattr_in_size_at inarg; flags \<leftarrow> setxattr_in_flags_at inarg; g r ino name val (unat sz) (sint flags) f }
     | None \<Rightarrow> reply_err r ENOSYS f
   }"

definition do_getxattr :: "'u handler" where
  "do_getxattr ops r ino inarg f =
     (case ll_getxattr ops of
        Some g \<Rightarrow> do { name \<leftarrow> get_str (drop 8 inarg); sz \<leftarrow> getxattr_in_size_at inarg; g r ino name (unat sz) f }
      | None \<Rightarrow> reply_err r ENOSYS f)"

definition do_listxattr :: "'u handler" where
  "do_listxattr ops r ino inarg f =
     (case ll_listxattr ops of
        Some g \<Rightarrow> do { sz \<leftarrow> getxattr_in_size_at inarg; g r ino (unat sz) f }
      | None \<Rightarrow> reply_err r ENOSYS f)"

definition do_removexattr :: "'u handler" where
  "do_removexattr ops r ino inarg f = do {
     name \<leftarrow> get_str inarg;
     case ll_removexattr ops of Some g \<Rightarrow> g r ino name f | None \<Rightarrow> reply_err r ENOSYS f
   }"

definition convert_fuse_file_lock :: "u64 \<Rightarrow> u64 \<Rightarrow> u32 \<Rightarrow> u32 \<Rightarrow> flock" where
  "convert_fuse_file_lock start fin typ pid =
     \<lparr>l_type = sint (ucast typ :: 16 word), l_whence = 0, l_start = sint start,
      l_len = (if fin = word_of_int OFFSET_MAX then 0 else sint (fin - start + 1)), l_pid = sint pid\<rparr>"

definition lk_arg :: "cbuf \<Rightarrow> (fuse_file_info \<times> flock) option" where
  "lk_arg inarg = do {
     h \<leftarrow> lk_in_fh_at inarg; own \<leftarrow> lk_in_owner_at inarg;
     start \<leftarrow> lk_in_lk_start_at inarg; fin \<leftarrow> lk_in_lk_end_at inarg;
     typ \<leftarrow> lk_in_lk_type_at inarg; pid \<leftarrow> lk_in_lk_pid_at inarg;
     Some (fi_zero\<lparr>fh := h, lock_owner := own\<rparr>, convert_fuse_file_lock start fin typ pid)
   }"

definition do_getlk :: "'u handler" where
  "do_getlk ops r ino inarg f = do {
     (fi, flk) \<leftarrow> lk_arg inarg;
     case ll_getlk ops of Some g \<Rightarrow> g r ino fi flk f | None \<Rightarrow> reply_err r ENOSYS f
   }"

definition do_setlk_common :: "bool \<Rightarrow> 'u handler" where
  "do_setlk_common slp ops r ino inarg f = do {
     (fi, flk) \<leftarrow> lk_arg inarg;
     case ll_setlk ops of Some g \<Rightarrow> g r ino fi flk slp f | None \<Rightarrow> reply_err r ENOSYS f
   }"

definition do_setlk :: "'u handler" where "do_setlk = do_setlk_common False"
definition do_setlkw :: "'u handler" where "do_setlkw = do_setlk_common True"

subsection \<open>Interrupts\<close>

text \<open>
  The interrupt function runs with the list unlocked, so that the request may be answered
  meanwhile; its count keeps it allocated until the function has returned.
\<close>

definition find_interrupted :: "'u fuse_lowlevel_ops \<Rightarrow> u64 \<Rightarrow> 'u fuse_ll \<Rightarrow> (bool \<times> 'u fuse_ll) option" where
  "find_interrupted ops u f =
     (case find (\<lambda>c. case reqs f c of Some q \<Rightarrow> unique q = u | None \<Rightarrow> False) (req_list f) of
        Some cur \<Rightarrow> do {
          q \<leftarrow> reqs f cur;
          let q = q\<lparr>req_ctr := req_ctr q + 1, interrupted := True\<rparr>;
          let f = set_req cur q f;
          f \<leftarrow> (case u_func q of Some g \<Rightarrow> interrupt_func ops g cur f | None \<Rightarrow> Some f);
          q \<leftarrow> reqs f cur;
          let q = q\<lparr>req_ctr := req_ctr q - 1\<rparr>;
          let f = set_req cur q f;
          Some (True, if req_ctr q = 0 then destroy_req cur f else f)
        }
      | None \<Rightarrow>
          Some (find (\<lambda>c. case reqs f c of Some q \<Rightarrow> u_unique q = u | None \<Rightarrow> False) (interrupts f) \<noteq> None, f))"

definition do_interrupt :: "'u handler" where
  "do_interrupt ops r ino inarg f = do {
     u \<leftarrow> interrupt_in_unique_at inarg;
     q \<leftarrow> reqs f r;
     let f = set_req r (q\<lparr>u_unique := u\<rparr>) f;
     (found, f) \<leftarrow> find_interrupted ops u f;
     Some (if found then destroy_req r f else f\<lparr>interrupts := interrupts f @ [r]\<rparr>)
   }"

text \<open>\<open>check_interrupt\<close>: the stored INTERRUPT request to be answered with EAGAIN, if any.\<close>

definition check_interrupt :: "nat \<Rightarrow> 'u fuse_ll \<Rightarrow> (nat option \<times> 'u fuse_ll) option" where
  "check_interrupt r f = do {
     q \<leftarrow> reqs f r;
     case find (\<lambda>c. case reqs f c of Some qc \<Rightarrow> u_unique qc = unique q | None \<Rightarrow> False) (interrupts f) of
       Some cur \<Rightarrow> Some (None, destroy_req cur (list_del_req cur (set_req r (q\<lparr>interrupted := True\<rparr>) f)))
     | None \<Rightarrow>
         (case interrupts f of
            cur # _ \<Rightarrow> Some (Some cur, list_del_req cur f)
          | [] \<Rightarrow> Some (None, f))
   }"

text \<open>Interrupt functions are numbered; \<open>call\<close> is what calling one of them does.\<close>

definition fuse_req_interrupt_func :: "(nat \<Rightarrow> nat \<Rightarrow> 'u ll_fun) \<Rightarrow> nat \<Rightarrow> nat option \<Rightarrow> 'u ll_fun" where
  "fuse_req_interrupt_func call r func f = do {
     q \<leftarrow> reqs f r;
     let f = set_req r (q\<lparr>u_func := func\<rparr>) f;
     case func of Some g \<Rightarrow> if interrupted q then call g r f else Some f | None \<Rightarrow> Some f
   }"

definition fuse_req_interrupted :: "nat \<Rightarrow> 'u fuse_ll \<Rightarrow> bool option" where
  "fuse_req_interrupted r f = map_option interrupted (reqs f r)"

definition fuse_req_userdata :: "nat \<Rightarrow> 'u fuse_ll \<Rightarrow> 'u option" where
  "fuse_req_userdata r f = map_option (\<lambda>_. userdata f) (reqs f r)"

definition fuse_req_ctx :: "nat \<Rightarrow> 'u fuse_ll \<Rightarrow> fuse_ctx option" where
  "fuse_req_ctx r f = map_option req_ctx (reqs f r)"

subsection \<open>The other requests\<close>

definition do_bmap :: "'u handler" where
  "do_bmap ops r ino inarg f =
     (case ll_bmap ops of
        Some g \<Rightarrow> do { bs \<leftarrow> bmap_in_blocksize_at inarg; blk \<leftarrow> bmap_in_block_at inarg; g r ino (unat bs) blk f }
      | None \<Rightarrow> reply_err r ENOSYS f)"

definition do_ioctl :: "'u handler" where
  "do_ioctl ops r ino inarg f = do {
     flags \<leftarrow> ioctl_in_flags_at inarg;
     in_size \<leftarrow> ioctl_in_in_size_at inarg;
     h \<leftarrow> ioctl_in_fh_at inarg;
     let in_buf = (if in_size \<noteq> 0 then Some (drop 32 inarg) else None);
     case ll_ioctl ops of
       Some g \<Rightarrow> do {
         cmd \<leftarrow> ioctl_in_cmd_at inarg; arg \<leftarrow> ioctl_in_arg_at inarg; out_size \<leftarrow> ioctl_in_out_size_at inarg;
         g r ino (sint cmd) arg (fi_handle h) flags in_buf (unat in_size) (unat out_size) f
       }
     | None \<Rightarrow> reply_err r ENOSYS f
   }"

definition do_poll :: "'u handler" where
  "do_poll ops r ino inarg f = do {
     h \<leftarrow> poll_in_fh_at inarg;
     case ll_poll ops of
       Some g \<Rightarrow> do {
         flags \<leftarrow> poll_in_flags_at inarg;
         if flags AND 1 \<noteq> 0
         then (let (ok, m) = alloc (ll_mem f); f = f\<lparr>ll_mem := m\<rparr>
               in if \<not> ok then reply_err r ENOMEM f
                  else do {
                    k \<leftarrow> poll_in_kh_at inarg; q \<leftarrow> reqs f r;
                    g r ino (fi_handle h) (Some \<lparr>ph_kh = k, ph_ch = req_ch q\<rparr>) f
                  })
         else g r ino (fi_handle h) None f
       }
     | None \<Rightarrow> reply_err r ENOSYS f
   }"

text \<open>The negotiation. The capability bits of the library and the flags of the protocol have the
  same values: 1 async read, 2 posix locks, 8 atomic open with truncation, 16 export, 32 big
  writes, 64 no umask.\<close>

definition capable_bits :: "u32 \<Rightarrow> u32" where
  "capable_bits flags = (if flags AND 1 \<noteq> 0 then 1 else 0) OR (if flags AND 2 \<noteq> 0 then 2 else 0) OR
     (if flags AND 8 \<noteq> 0 then 8 else 0) OR (if flags AND 16 \<noteq> 0 then 16 else 0) OR
     (if flags AND 32 \<noteq> 0 then 32 else 0) OR (if flags AND 64 \<noteq> 0 then 64 else 0)"

definition init_conn :: "u32 \<Rightarrow> cbuf \<Rightarrow> fuse_conn_info \<Rightarrow> fuse_conn_info option" where
  "init_conn minor inarg c =
     (if minor \<ge> 6
      then do {
        flags \<leftarrow> init_in_flags_at inarg;
        ra \<leftarrow> init_in_max_readahead_at inarg;
        let c = (if async_read c \<noteq> 0 then c\<lparr>async_read := flags AND 1\<rparr> else c);
        let c = (if ra < max_readahead c then c\<lparr>max_readahead := ra\<rparr> else c);
        Some (c\<lparr>capable := capable c OR capable_bits flags\<rparr>)
      }
      else Some (c\<lparr>async_read := 0, max_readahead := 0\<rparr>))"

definition init_want :: "'u fuse_lowlevel_ops \<Rightarrow> 'u fuse_ll \<Rightarrow> fuse_conn_info \<Rightarrow> fuse_conn_info" where
  "init_want ops f c = c\<lparr>want := want c OR (if atomic_o_trunc f then 8 else 0) OR
     (if ll_getlk ops \<noteq> None \<and> ll_setlk ops \<noteq> None \<and> \<not> no_remote_lock f then 2 else 0) OR
     (if big_writes f then 32 else 0)\<rparr>"

definition negotiated_flags :: "fuse_conn_info \<Rightarrow> u32" where
  "negotiated_flags c = (if async_read c \<noteq> 0 \<or> want c AND 1 \<noteq> 0 then 1 else 0) OR
     (if want c AND 2 \<noteq> 0 then 2 else 0) OR (if want c AND 8 \<noteq> 0 then 8 else 0) OR
     (if want c AND 16 \<noteq> 0 then 16 else 0) OR (if want c AND 32 \<noteq> 0 then 32 else 0) OR
     (if want c AND 64 \<noteq> 0 then 64 else 0)"

definition do_init :: "'u handler" where
  "do_init ops r ino inarg f = do {
     q \<leftarrow> reqs f r;
     let bufsize = chan_bufsize f;
     major \<leftarrow> init_in_major_at inarg;
     minor \<leftarrow> init_in_minor_at inarg;
     let f = f\<lparr>conn := (conn f)\<lparr>proto_major := major, proto_minor := minor, capable := 0, want := 0\<rparr>\<rparr>;
     let out = \<lparr>init_out_major = 7, init_out_minor = 12, init_out_max_readahead = 0, init_out_flags = 0,
                init_out_max_write = 0\<rparr>;
     if major < 7 then reply_err r EPROTO f
     else if major > 7 then map_option snd (send_reply_ok r (put_fuse_init_out out) f)
     else do {
       c \<leftarrow> init_conn minor inarg (conn f);
       let c = init_want ops f c;
       let bufsize = (if bufsize < 8192 then 8192 else bufsize) - 4096;
       let c = (if bufsize < unat (max_write c) then c\<lparr>max_write := word_of_nat bufsize\<rparr> else c);
       let f = f\<lparr>conn := c, got_init := True\<rparr>;
       f \<leftarrow> (case ll_init ops of Some g \<Rightarrow> g f | None \<Rightarrow> Some f);
       let out = out\<lparr>init_out_flags := negotiated_flags (conn f), init_out_max_readahead := max_readahead (conn f),
                     init_out_max_write := max_write (conn f)\<rparr>;
       map_option snd (send_reply_ok r (take (if minor < 5 then 8 else 24) (put_fuse_init_out out)) f)
     }
   }"

definition do_destroy :: "'u handler" where
  "do_destroy ops r ino inarg f = do {
     let f = f\<lparr>got_destroy := True\<rparr>;
     f \<leftarrow> (case ll_destroy ops of Some g \<Rightarrow> g f | None \<Rightarrow> Some f);
     map_option snd (send_reply_ok r [] f)
   }"

subsection \<open>Notifications\<close>

definition send_notify_iov :: "nat \<Rightarrow> int \<Rightarrow> cbuf list \<Rightarrow> 'u fuse_ll \<Rightarrow> int \<times> 'u fuse_ll" where
  "send_notify_iov ch code iov f =
     fuse_chan_send ch (put_fuse_out_header \<lparr>outh_len = word_of_nat (iov_length (zeros 16 # iov)),
       outh_error = word_of_int code, outh_unique = 0\<rparr> # iov) f"

definition fuse_lowlevel_notify_poll :: "fuse_pollhandle option \<Rightarrow> 'u fuse_ll \<Rightarrow> int \<times> 'u fuse_ll" where
  "fuse_lowlevel_notify_poll ph f =
     (case ph of
        Some ph \<Rightarrow> send_notify_iov (ph_ch ph) 1 [put_fuse_notify_poll_wakeup_out \<lparr>wakeup_kh = ph_kh ph\<rparr>] f
      | None \<Rightarrow> (0, f))"

text \<open>The channel may be null, and so may the session's data.\<close>

definition fuse_lowlevel_notify_inval_inode ::
  "nat option \<Rightarrow> fuse_ino_t \<Rightarrow> off_t \<Rightarrow> off_t \<Rightarrow> 'u fuse_ll option \<Rightarrow> int \<times> 'u fuse_ll option" where
  "fuse_lowlevel_notify_inval_inode ch ino off len f =
     (case ch of
        None \<Rightarrow> (- EINVAL, f)
      | Some c \<Rightarrow>
          (case f of
             None \<Rightarrow> (- ENODEV, f)
           | Some g \<Rightarrow>
               (let (res, g) = send_notify_iov c 2 [put_fuse_notify_inval_inode_out \<lparr>inval_inode_ino = ino,
                      inval_inode_off = word_of_int off, inval_inode_len = word_of_int len\<rparr>] g
                in (res, Some g))))"

text \<open>The name is in a buffer of at least \<open>namelen\<close> + 1 bytes.\<close>

definition fuse_lowlevel_notify_inval_entry ::
  "nat option \<Rightarrow> fuse_ino_t \<Rightarrow> cbuf \<Rightarrow> nat \<Rightarrow> 'u fuse_ll option \<Rightarrow> int \<times> 'u fuse_ll option" where
  "fuse_lowlevel_notify_inval_entry ch par name namelen f =
     (case ch of
        None \<Rightarrow> (- EINVAL, f)
      | Some c \<Rightarrow>
          (case f of
             None \<Rightarrow> (- ENODEV, f)
           | Some g \<Rightarrow>
               (let (res, g) = send_notify_iov c 3 [put_fuse_notify_inval_entry_out \<lparr>inval_entry_parent = par,
                      inval_entry_namelen = word_of_nat namelen\<rparr>, take (namelen + 1) name] g
                in (res, Some g))))"

subsection \<open>Processing a message\<close>

definition fuse_ll_ops :: "nat \<Rightarrow> 'u handler option" where
  "fuse_ll_ops opcode =
     map_of [(1, do_lookup), (2, do_forget), (3, do_getattr), (4, do_setattr), (5, do_readlink),
       (6, do_symlink), (8, do_mknod), (9, do_mkdir), (10, do_unlink), (11, do_rmdir), (12, do_rename),
       (13, do_link), (14, do_open), (15, do_read), (16, do_write), (17, do_statfs), (18, do_release),
       (20, do_fsync), (21, do_setxattr), (22, do_getxattr), (23, do_listxattr), (24, do_removexattr),
       (25, do_flush), (26, do_init), (27, do_opendir), (28, do_readdir), (29, do_releasedir),
       (30, do_fsyncdir), (31, do_getlk), (32, do_setlk), (33, do_setlkw), (34, do_access),
       (35, do_create), (36, do_interrupt), (37, do_bmap), (38, do_destroy), (39, do_ioctl),
       (40, do_poll), (4096, cuse_lowlevel_init)] opcode"

abbreviation (input) "FUSE_INIT \<equiv> (26 :: nat)"
abbreviation (input) "FUSE_INTERRUPT \<equiv> (36 :: nat)"
abbreviation (input) "CUSE_INIT \<equiv> (4096 :: nat)"

text \<open>The operations another user than the owner may use with \<open>allow_root\<close>: READ, WRITE, RELEASE,
  FSYNC, INIT, READDIR, RELEASEDIR and FSYNCDIR.\<close>

definition ungated :: "nat \<Rightarrow> bool" where
  "ungated opcode \<longleftrightarrow> opcode \<in> {26, 15, 16, 20, 18, 28, 30, 29}"

text \<open>The error a message is answered with before its handler is called.\<close>

definition ll_reject :: "'u fuse_ll \<Rightarrow> nat \<Rightarrow> u32 \<Rightarrow> int option" where
  "ll_reject f opcode uid =
     (if \<not> got_init f \<and> opcode \<noteq> (if cuse_data f then CUSE_INIT else FUSE_INIT) then Some EIO
      else if got_init f \<and> (opcode = FUSE_INIT \<or> opcode = CUSE_INIT) then Some EIO
      else if allow_root f \<and> uid \<noteq> owner f \<and> uid \<noteq> 0 \<and> \<not> ungated opcode then Some EACCES
      else if Option.is_none (fuse_ll_ops opcode :: 'u handler option) then Some ENOSYS
      else None)"

definition fuse_ll_process :: "'u fuse_lowlevel_ops \<Rightarrow> cbuf \<Rightarrow> nat \<Rightarrow> 'u ll_fun" where
  "fuse_ll_process ops buf ch f = do {
     op \<leftarrow> inh_opcode_at buf; u \<leftarrow> inh_unique_at buf; ino \<leftarrow> inh_nodeid_at buf;
     uid \<leftarrow> inh_uid_at buf; gid \<leftarrow> inh_gid_at buf; pid \<leftarrow> inh_pid_at buf;
     let inarg = drop 40 buf;
     let opcode = unat op;
     let (ok, m) = alloc (ll_mem f);
     let f = f\<lparr>ll_mem := m\<rparr>;
     if \<not> ok then Some f
     else do {
       let r = fresh_req f;
       let f = set_req r \<lparr>unique = u, req_ctr = 1, req_ctx = \<lparr>ctx_uid = uid, ctx_gid = gid, ctx_pid = pid, ctx_umask = 0\<rparr>,
                 req_ch = ch, interrupted = False, u_unique = 0, u_func = None\<rparr> (f\<lparr>fresh_req := Suc r\<rparr>);
       case ll_reject f opcode uid of
         Some err \<Rightarrow> reply_err r err f
       | None \<Rightarrow> do {
           f \<leftarrow> (if opcode \<noteq> FUSE_INTERRUPT
                 then do {
                   (intr, f) \<leftarrow> check_interrupt r f;
                   let f = f\<lparr>req_list := req_list f @ [r]\<rparr>;
                   case intr of Some i \<Rightarrow> reply_err i EAGAIN f | None \<Rightarrow> Some f
                 } else Some f);
           h \<leftarrow> fuse_ll_ops opcode;
           h ops r ino inarg f
         }
     }
   }"

definition fuse_ll_destroy :: "'u fuse_lowlevel_ops \<Rightarrow> 'u ll_fun" where
  "fuse_ll_destroy ops f =
     (if got_init f \<and> \<not> got_destroy f then case ll_destroy ops of Some g \<Rightarrow> g f | None \<Rightarrow> Some f else Some f)"

subsection \<open>A new session\<close>

datatype ll_field = Debug | Allow_root | Max_write | Max_readahead | Async_read | Atomic_o_trunc | No_remote_lock | Big_writes

definition fuse_ll_opts :: "ll_field fuse_opt list" where
  "fuse_ll_opts =
     [\<lparr>templ = ''debug'', offset = Some Debug, opt_value = 1\<rparr>,
      \<lparr>templ = ''-d'', offset = Some Debug, opt_value = 1\<rparr>,
      \<lparr>templ = ''allow_root'', offset = Some Allow_root, opt_value = 1\<rparr>,
      \<lparr>templ = ''max_write=%u'', offset = Some Max_write, opt_value = 0\<rparr>,
      \<lparr>templ = ''max_readahead=%u'', offset = Some Max_readahead, opt_value = 0\<rparr>,
      \<lparr>templ = ''async_read'', offset = Some Async_read, opt_value = 1\<rparr>,
      \<lparr>templ = ''sync_read'', offset = Some Async_read, opt_value = 0\<rparr>,
      \<lparr>templ = ''atomic_o_trunc'', offset = Some Atomic_o_trunc, opt_value = 1\<rparr>,
      \<lparr>templ = ''no_remote_lock'', offset = Some No_remote_lock, opt_value = 1\<rparr>,
      \<lparr>templ = ''big_writes'', offset = Some Big_writes, opt_value = 1\<rparr>,
      \<lparr>templ = ''max_read='', offset = None, opt_value = FUSE_OPT_KEY_DISCARD\<rparr>,
      \<lparr>templ = ''-h'', offset = None, opt_value = 0\<rparr>,
      \<lparr>templ = ''--help'', offset = None, opt_value = 0\<rparr>,
      \<lparr>templ = ''-V'', offset = None, opt_value = 1\<rparr>,
      \<lparr>templ = ''--version'', offset = None, opt_value = 1\<rparr>]"

text \<open>Every option that is not in the table, and the ones for help and version, end the parse.\<close>

definition fuse_ll_opt_proc :: "ll_field opt_proc" where
  "fuse_ll_opt_proc dat arg key out m = Some (- 1, dat, out, m)"

definition fuse_lowlevel_is_lib_option :: "cstring \<Rightarrow> int" where
  "fuse_lowlevel_is_lib_option opt = fuse_opt_match fuse_ll_opts opt"

definition opt_int :: "ll_field optdata \<Rightarrow> ll_field \<Rightarrow> int" where
  "opt_int dat k = (case dat k of Some (VInt i) \<Rightarrow> i | _ \<Rightarrow> 0)"

text \<open>The fields the parser starts from: \<open>UINT_MAX\<close> for the limits, reads asynchronous.\<close>

definition ll_defaults :: "ll_field optdata" where
  "ll_defaults = (\<lambda>_. None)(Async_read \<mapsto> VInt 1, Max_write \<mapsto> VInt (2 ^ 32 - 1), Max_readahead \<mapsto> VInt (2 ^ 32 - 1))"

definition copy_ll_ops :: "nat \<Rightarrow> 'u fuse_lowlevel_ops \<Rightarrow> 'u fuse_lowlevel_ops" where
  "copy_ll_ops op_size op = op\<lparr>
     ll_init := slot 0 op_size (ll_init op),
     ll_destroy := slot 1 op_size (ll_destroy op),
     ll_lookup := slot 2 op_size (ll_lookup op),
     ll_forget := slot 3 op_size (ll_forget op),
     ll_getattr := slot 4 op_size (ll_getattr op),
     ll_setattr := slot 5 op_size (ll_setattr op),
     ll_readlink := slot 6 op_size (ll_readlink op),
     ll_mknod := slot 7 op_size (ll_mknod op),
     ll_mkdir := slot 8 op_size (ll_mkdir op),
     ll_unlink := slot 9 op_size (ll_unlink op),
     ll_rmdir := slot 10 op_size (ll_rmdir op),
     ll_symlink := slot 11 op_size (ll_symlink op),
     ll_rename := slot 12 op_size (ll_rename op),
     ll_link := slot 13 op_size (ll_link op),
     ll_open := slot 14 op_size (ll_open op),
     ll_read := slot 15 op_size (ll_read op),
     ll_write := slot 16 op_size (ll_write op),
     ll_flush := slot 17 op_size (ll_flush op),
     ll_release := slot 18 op_size (ll_release op),
     ll_fsync := slot 19 op_size (ll_fsync op),
     ll_opendir := slot 20 op_size (ll_opendir op),
     ll_readdir := slot 21 op_size (ll_readdir op),
     ll_releasedir := slot 22 op_size (ll_releasedir op),
     ll_fsyncdir := slot 23 op_size (ll_fsyncdir op),
     ll_statfs := slot 24 op_size (ll_statfs op),
     ll_setxattr := slot 25 op_size (ll_setxattr op),
     ll_getxattr := slot 26 op_size (ll_getxattr op),
     ll_listxattr := slot 27 op_size (ll_listxattr op),
     ll_removexattr := slot 28 op_size (ll_removexattr op),
     ll_access := slot 29 op_size (ll_access op),
     ll_create := slot 30 op_size (ll_create op),
     ll_getlk := slot 31 op_size (ll_getlk op),
     ll_setlk := slot 32 op_size (ll_setlk op),
     ll_bmap := slot 33 op_size (ll_bmap op),
     ll_ioctl := slot 34 op_size (ll_ioctl op),
     ll_poll := slot 35 op_size (ll_poll op)\<rparr>"

text \<open>\<open>uid\<close> is the result of \<open>getuid\<close>, \<open>bufsize\<close> the buffer size of the channel the session will get.
  The session is the state and its operations; \<open>None\<close> in the first component is the null pointer.\<close>

definition fuse_lowlevel_new_common ::
  "allocs \<Rightarrow> fuse_args option \<Rightarrow> 'u fuse_lowlevel_ops \<Rightarrow> nat \<Rightarrow> 'u \<Rightarrow> u32 \<Rightarrow> nat \<Rightarrow>
     (('u fuse_ll \<times> 'u fuse_lowlevel_ops) option \<times> fuse_args option) option" where
  "fuse_lowlevel_new_common m args op op_size ud uid bufsize = do {
     let op_size = min op_size (36 * 8);
     let (ok, m) = alloc m;
     if \<not> ok then Some (None, args)
     else do {
       (res, args, dat, m) \<leftarrow> fuse_opt_parse m args ll_defaults fuse_ll_opts (Some fuse_ll_opt_proc);
       if res = - 1 then Some (None, args)
       else
         (let (ok, m) = alloc m
          in if \<not> ok then Some (None, args)
             else Some (Some (\<lparr>allow_root = (opt_int dat Allow_root \<noteq> 0),
                    atomic_o_trunc = (opt_int dat Atomic_o_trunc \<noteq> 0),
                    no_remote_lock = (opt_int dat No_remote_lock \<noteq> 0), big_writes = (opt_int dat Big_writes \<noteq> 0),
                    got_init = False, got_destroy = False, cuse_data = False, userdata = ud, owner = uid,
                    conn = \<lparr>proto_major = 0, proto_minor = 0, async_read = word_of_int (opt_int dat Async_read),
                      max_write = word_of_int (opt_int dat Max_write),
                      max_readahead = word_of_int (opt_int dat Max_readahead), capable = 0, want = 0\<rparr>,
                    reqs = (\<lambda>_. None), fresh_req = 0, req_list = [], interrupts = [], ll_mem = m,
                    chan_bufsize = bufsize, send_results = [], sent = []\<rparr>, copy_ll_ops op_size op), args))
     }
   }"

text \<open>The older constructors.\<close>

datatype ll_compat_field = Max_read | Set_max_read

definition fuse_ll_opts_compat :: "ll_compat_field fuse_opt list" where
  "fuse_ll_opts_compat =
     [\<lparr>templ = ''max_read='', offset = Some Set_max_read, opt_value = 1\<rparr>,
      \<lparr>templ = ''max_read=%u'', offset = Some Max_read, opt_value = 0\<rparr>,
      \<lparr>templ = ''max_read='', offset = None, opt_value = FUSE_OPT_KEY_KEEP\<rparr>]"

text \<open>\<open>%u\<close> of \<open>sprintf\<close>.\<close>

fun print_nat :: "nat \<Rightarrow> cstring" where
  "print_nat n = (if n < 10 then [char_of (48 + n)] else print_nat (n div 10) @ [char_of (48 + n mod 10)])"

declare print_nat.simps [simp del]

definition fuse_sync_compat_args :: "allocs \<Rightarrow> fuse_args \<Rightarrow> (int \<times> fuse_args \<times> allocs) option" where
  "fuse_sync_compat_args m args = do {
     (res, a, dat, m) \<leftarrow> fuse_opt_parse m (Some args) (\<lambda>_. None) fuse_ll_opts_compat None;
     let args = (case a of Some x \<Rightarrow> x | None \<Rightarrow> args);
     if res = - 1 then Some (- 1, args, m)
     else do {
       (res, args, m) \<leftarrow> fuse_opt_insert_arg m args 1 ''-osync_read'';
       if res \<noteq> 0 then Some (- 1, args, m)
       else case dat Set_max_read of
         Some (VInt k) \<Rightarrow>
           if k \<noteq> 0
           then do {
             let mr = (case dat Max_read of Some (VInt i) \<Rightarrow> nat i | _ \<Rightarrow> 0);
             (res, args, m) \<leftarrow> fuse_opt_insert_arg m args 1 (''-omax_readahead='' @ print_nat mr);
             Some (if res = - 1 then - 1 else 0, args, m)
           } else Some (0, args, m)
       | _ \<Rightarrow> Some (0, args, m)
     }
   }"

definition fuse_lowlevel_new_compat25 ::
  "allocs \<Rightarrow> fuse_args \<Rightarrow> 'u fuse_lowlevel_ops \<Rightarrow> nat \<Rightarrow> 'u \<Rightarrow> u32 \<Rightarrow> nat \<Rightarrow>
     (('u fuse_ll \<times> 'u fuse_lowlevel_ops) option \<times> fuse_args option) option" where
  "fuse_lowlevel_new_compat25 m args op op_size ud uid bufsize = do {
     (res, args, m) \<leftarrow> fuse_sync_compat_args m args;
     if res = - 1 then Some (None, Some args)
     else fuse_lowlevel_new_common m (Some args) op op_size ud uid bufsize
   }"

definition fuse_lowlevel_new_compat ::
  "allocs \<Rightarrow> cstring option \<Rightarrow> 'u fuse_lowlevel_ops \<Rightarrow> nat \<Rightarrow> 'u \<Rightarrow> u32 \<Rightarrow> nat \<Rightarrow>
     ('u fuse_ll \<times> 'u fuse_lowlevel_ops) option option" where
  "fuse_lowlevel_new_compat m options op op_size ud uid bufsize = do {
     let args = FUSE_ARGS_INIT None;
     (res, args, m) \<leftarrow> (case options of
        None \<Rightarrow> Some (0, args, m)
      | Some os \<Rightarrow> do {
          (r, args, m) \<leftarrow> fuse_opt_add_arg m args [];
          if r = - 1 then Some (- 1, args, m)
          else do {
            (r, args, m) \<leftarrow> fuse_opt_add_arg m args ''-o'';
            if r = - 1 then Some (- 1, args, m) else fuse_opt_add_arg m args os
          }
        });
     if res = - 1 then Some None
     else map_option fst (fuse_lowlevel_new_common m (Some args) op op_size ud uid bufsize)
   }"

end
