(* ===== verification/Fuse_Lowlevel_Proofs.thy ===== *)
theory Fuse_Lowlevel_Proofs
  imports Fuse_Lowlevel
begin

text \<open>
  The low-level library is correct: every reply is one well-formed message and ends its request,
  a message that the state of the connection does not allow is refused before any operation of
  the file system sees it, the requests the library holds are exactly the ones it will still
  answer, an interrupt reaches a request in progress, or waits for the next message and is sent back
  where that is another request, and the connection is negotiated within the limits of both sides.
\<close>

unbundle bit_operations_syntax

subsection \<open>Replies\<close>

lemma length_concat_iov: "length (concat iov) = iov_length iov"
  by (simp add: iov_length_def length_concat)

lemma iov_length_simps [simp]: "iov_length [] = 0" "iov_length (b # iov) = length b + iov_length iov"
  by (simp_all add: iov_length_def)

lemma unat_word_of_nat32: "n < 2 ^ 32 \<Longrightarrow> unat (word_of_nat n :: u32) = n"
  by (simp add: unsigned_of_nat take_bit_nat_eq_self)

definition reply_error :: "int \<Rightarrow> int" where
  "reply_error err = (if err \<le> - 1000 \<or> err > 0 then - ERANGE else err)"

definition reply_message :: "fuse_req \<Rightarrow> int \<Rightarrow> cbuf list \<Rightarrow> cbuf" where
  "reply_message q err iov =
     put_fuse_out_header \<lparr>outh_len = word_of_nat (16 + iov_length iov), outh_error = word_of_int (reply_error err),
       outh_unique = unique q\<rparr> @ concat iov"

text \<open>The state after a reply to a request: the message is out, the request off its list and, when
  nobody else holds it, freed.\<close>

definition replied :: "nat \<Rightarrow> fuse_req \<Rightarrow> cbuf \<Rightarrow> 'u fuse_ll \<Rightarrow> 'u fuse_ll" where
  "replied r q msg f = f\<lparr>send_results := tl (send_results f), sent := sent f @ [(req_ch q, msg)],
     req_list := removeAll r (req_list f), interrupts := removeAll r (interrupts f),
     reqs := (reqs f)(r := if req_ctr q = 1 then None else Some (q\<lparr>u_func := None, req_ctr := req_ctr q - 1\<rparr>))\<rparr>"

lemma send_reply_iov_replied:
  assumes "reqs f r = Some q"
  shows "\<exists>res. send_reply_iov r err iov f = Some (res, replied r q (reply_message q err iov) f)"
  using assms
  by (cases "send_results f")
    (auto simp: send_reply_iov_def fuse_send_reply_iov_nofree_def fuse_free_req_def fuse_chan_send_def Let_def
      reply_message_def reply_error_def replied_def destroy_req_def set_req_def list_del_req_def)

lemma send_reply_ok_replied:
  "reqs f r = Some q \<Longrightarrow> \<exists>res. send_reply_ok r arg f =
     Some (res, replied r q (reply_message q 0 (if arg = [] then [] else [arg])) f)"
  using send_reply_iov_replied [of f r q 0 "if arg = [] then [] else [arg]"]
  by (auto simp: send_reply_ok_def send_reply_def split: if_splits)

lemma reply_err_replied:
  "reqs f r = Some q \<Longrightarrow> reply_err r err f = Some (replied r q (reply_message q (- err) []) f)"
  using send_reply_iov_replied [of f r q "- err" "[]"] by (auto simp: fuse_reply_err_def send_reply_def)

lemma send_reply_dead: "reqs f r = None \<Longrightarrow> send_reply_iov r err iov f = None"
  by (simp add: send_reply_iov_def fuse_send_reply_iov_nofree_def)

text \<open>
  C17: a reply to a request that is allocated always goes out, as one message on the channel the
  request came from: its first field is its length, its error is the one that was given when that lies between -999 and 0, and
  \<open>ERANGE\<close> otherwise, it carries the identifier of the request, and the data follow. The
  request is off every list, freed unless an interrupt function still holds it, and no other
  request changes; a second reply to a freed request is a use after free.
\<close>

theorem reply_correct:
  assumes "reqs f r = Some q" "16 + iov_length iov < 2 ^ 32"
  shows "\<exists>res f' msg e.
     send_reply_iov r err iov f = Some (res, f') \<and> sent f' = sent f @ [(req_ch q, msg)] \<and>
     map_option unat (get32 0 msg) = Some (length msg) \<and>
     map_option sint (get32 4 msg) = Some e \<and> e = (if - 1000 < err \<and> err \<le> 0 then err else - ERANGE) \<and>
     get64 8 msg = Some (unique q) \<and> drop 16 msg = concat iov \<and>
     r \<notin> set (req_list f') \<and> r \<notin> set (interrupts f') \<and>
     (reqs f' r = None \<longleftrightarrow> req_ctr q = 1) \<and> (\<forall>r'. r' \<noteq> r \<longrightarrow> reqs f' r' = reqs f r') \<and>
     (req_ctr q = 1 \<longrightarrow> send_reply_iov r err iov f' = None)"
proof -
  obtain res where s: "send_reply_iov r err iov f = Some (res, replied r q (reply_message q err iov) f)"
    using send_reply_iov_replied [OF assms(1)] by blast
  let ?m = "reply_message q err iov" and ?f = "replied r q (reply_message q err iov) f"
  have len: "length ?m = 16 + iov_length iov" by (simp add: reply_message_def length_concat_iov)
  have e: "- 1000 < reply_error err" "reply_error err \<le> 0" by (auto simp: reply_error_def)
  have "get32 0 ?m = Some (word_of_nat (length ?m))" "get32 4 ?m = Some (word_of_int (reply_error err))"
    "get64 8 ?m = Some (unique q)" "drop 16 ?m = concat iov"
    by (simp_all add: len) (simp_all add: reply_message_def put_fuse_out_header_def)
  moreover have "unat (word_of_nat (length ?m) :: u32) = length ?m"
    using assms(2) unfolding len by (rule unat_word_of_nat32)
  moreover have "sint (word_of_int (reply_error err) :: u32) = reply_error err"
    using e by (intro sint_word_of_int) simp_all
  moreover have "req_ctr q = 1 \<longrightarrow> send_reply_iov r err iov ?f = None"
    by (simp add: replied_def send_reply_dead)
  ultimately show ?thesis
    using s e by (intro exI [of _ res] exI [of _ ?f] exI [of _ ?m] exI [of _ "reply_error err"])
      (simp add: replied_def reply_error_def)
qed


subsection \<open>What may be processed\<close>

text \<open>The request made of a message, before its opcode is looked at.\<close>

definition msg_req :: "fuse_in_header \<Rightarrow> nat \<Rightarrow> fuse_req" where
  "msg_req h ch = \<lparr>unique = inh_unique h, req_ctr = 1, req_ctx = \<lparr>ctx_uid = inh_uid h, ctx_gid = inh_gid h,
     ctx_pid = inh_pid h, ctx_umask = 0\<rparr>, req_ch = ch, interrupted = False, u_unique = 0, u_func = None\<rparr>"

definition with_req :: "fuse_in_header \<Rightarrow> nat \<Rightarrow> 'u fuse_ll \<Rightarrow> 'u fuse_ll" where
  "with_req h ch f = set_req (fresh_req f) (msg_req h ch) (f\<lparr>fresh_req := Suc (fresh_req f), ll_mem := snd (alloc (ll_mem f))\<rparr>)"

lemma with_req_simps [simp]:
  "reqs (with_req h ch f) = (reqs f)(fresh_req f \<mapsto> msg_req h ch)"
  "req_list (with_req h ch f) = req_list f" "interrupts (with_req h ch f) = interrupts f"
  "fresh_req (with_req h ch f) = Suc (fresh_req f)" "sent (with_req h ch f) = sent f"
  "got_init (with_req h ch f) = got_init f" "got_destroy (with_req h ch f) = got_destroy f"
  "allow_root (with_req h ch f) = allow_root f" "owner (with_req h ch f) = owner f"
  "cuse_data (with_req h ch f) = cuse_data f" "conn (with_req h ch f) = conn f"
  "userdata (with_req h ch f) = userdata f" "chan_bufsize (with_req h ch f) = chan_bufsize f"
  by (simp_all add: with_req_def set_req_def)

lemma msg_req_simps [simp]: "unique (msg_req h ch) = inh_unique h" "req_ctr (msg_req h ch) = 1" "req_ch (msg_req h ch) = ch"
  by (simp_all add: msg_req_def)

text \<open>The handler's state: the interrupts looked at, the request on the list.\<close>

definition enlist :: "nat \<Rightarrow> 'u ll_fun" where
  "enlist r f = do {
     (intr, f) \<leftarrow> check_interrupt r f;
     let f = f\<lparr>req_list := req_list f @ [r]\<rparr>;
     case intr of Some i \<Rightarrow> reply_err i EAGAIN f | None \<Rightarrow> Some f
   }"

lemma reject_with_req [simp]: "ll_reject (with_req h ch f) opc uid = ll_reject f opc uid"
  by (simp add: ll_reject_def)

text \<open>The header of a message.\<close>

definition header_of :: "cbuf \<Rightarrow> fuse_in_header option" where
  "header_of buf = do {
     len \<leftarrow> inh_len_at buf; op \<leftarrow> inh_opcode_at buf; u \<leftarrow> inh_unique_at buf; ino \<leftarrow> inh_nodeid_at buf;
     uid \<leftarrow> inh_uid_at buf; gid \<leftarrow> inh_gid_at buf; pid \<leftarrow> inh_pid_at buf;
     Some \<lparr>inh_len = len, inh_opcode = op, inh_unique = u, inh_nodeid = ino, inh_uid = uid, inh_gid = gid, inh_pid = pid\<rparr>
   }"

lemma header_of_put [simp]: "header_of (put_fuse_in_header h @ arg) = Some h"
  by (simp add: header_of_def)

lemma process_header:
  assumes "fuse_ll_process ops buf ch f = Some f'"
  shows "\<exists>h. header_of buf = Some h"
proof -
  obtain op where op: "inh_opcode_at buf = Some op"
    using assms by (cases "inh_opcode_at buf") (simp_all add: fuse_ll_process_def)
  then obtain len where "inh_len_at buf = Some len"
    by (auto simp: inh_opcode_at_def inh_len_at_def get32_def split: if_splits)
  then show ?thesis
    using assms by (auto simp: header_of_def fuse_ll_process_def bind_eq_Some_conv)
qed

text \<open>A message whose request cannot be allocated is dropped.\<close>

lemma process_cases:
  assumes "header_of buf = Some h"
  shows "fuse_ll_process ops buf ch f =
     (if \<not> fst (alloc (ll_mem f)) then Some (f\<lparr>ll_mem := snd (alloc (ll_mem f))\<rparr>) else
      case ll_reject f (unat (inh_opcode h)) (inh_uid h) of
        Some err \<Rightarrow> reply_err (fresh_req f) err (with_req h ch f)
      | None \<Rightarrow> do {
          f1 \<leftarrow> (if unat (inh_opcode h) \<noteq> FUSE_INTERRUPT then enlist (fresh_req f) (with_req h ch f)
                 else Some (with_req h ch f));
          g \<leftarrow> fuse_ll_ops (unat (inh_opcode h));
          g ops (fresh_req f) (inh_nodeid h) (drop 40 buf) f1
        })"
proof -
  have h: "inh_opcode_at buf = Some (inh_opcode h)" "inh_unique_at buf = Some (inh_unique h)"
    "inh_nodeid_at buf = Some (inh_nodeid h)" "inh_uid_at buf = Some (inh_uid h)"
    "inh_gid_at buf = Some (inh_gid h)" "inh_pid_at buf = Some (inh_pid h)"
    using assms by (auto simp: header_of_def bind_eq_Some_conv)
  obtain ok m where m: "alloc (ll_mem f) = (ok, m)" by fastforce
  have w: "set_req (fresh_req f) (msg_req h ch) (f\<lparr>ll_mem := m, fresh_req := Suc (fresh_req f)\<rparr>) = with_req h ch f"
    by (simp add: with_req_def set_req_def m)
  show ?thesis
    by (cases "ll_reject f (unat (inh_opcode h)) (inh_uid h)"; cases "unat (inh_opcode h) = FUSE_INTERRUPT")
      (simp_all add: fuse_ll_process_def h m msg_req_def [symmetric] w enlist_def Let_def)
qed

text \<open>A message is refused with an error: whatever the operations of the file system are, it is
  answered with that error alone, under its own identifier, and the lists of requests, the
  connection and the file system's data stay as they were.\<close>

definition refused :: "fuse_in_header \<Rightarrow> cbuf \<Rightarrow> nat \<Rightarrow> 'u fuse_ll \<Rightarrow> int \<Rightarrow> bool" where
  "refused h arg ch f err \<longleftrightarrow>
     (\<exists>f'. (\<forall>ops. fuse_ll_process ops (put_fuse_in_header h @ arg) ch f = Some f') \<and>
        sent f' = sent f @ [(ch, put_fuse_out_header \<lparr>outh_len = 16, outh_error = word_of_int (- err),
          outh_unique = inh_unique h\<rparr>)] \<and>
        conn f' = conn f \<and> userdata f' = userdata f \<and> got_init f' = got_init f \<and>
        (fresh_req f \<notin> set (req_list f) \<union> set (interrupts f) \<longrightarrow>
           req_list f' = req_list f \<and> interrupts f' = interrupts f) \<and>
        reqs f' = (reqs f)(fresh_req f := None))"

lemma refusedI:
  assumes "fst (alloc (ll_mem f))" "ll_reject f (unat (inh_opcode h)) (inh_uid h) = Some err" "0 \<le> err" "err < 1000"
  shows "refused h arg ch f err"
proof -
  let ?f' = "replied (fresh_req f) (msg_req h ch) (reply_message (msg_req h ch) (- err) []) (with_req h ch f)"
  have "fuse_ll_process ops (put_fuse_in_header h @ arg) ch f = Some ?f'" for ops :: "'a fuse_lowlevel_ops"
    using reply_err_replied [of "with_req h ch f" "fresh_req f" "msg_req h ch" err] assms(1,2)
    by (simp add: process_cases [of _ h])
  moreover have "reply_error (- err) = - err" using assms(3,4) by (simp add: reply_error_def)
  ultimately show ?thesis
    unfolding refused_def by (intro exI [of _ ?f']) (simp add: replied_def reply_message_def with_req_def set_req_def)
qed

text \<open>With \<open>allow_root\<close>: a message from somebody else, for something but an open file.\<close>

definition foreign :: "'u fuse_ll \<Rightarrow> fuse_in_header \<Rightarrow> bool" where
  "foreign f h \<longleftrightarrow> allow_root f \<and> inh_uid h \<noteq> owner f \<and> inh_uid h \<noteq> 0 \<and> \<not> ungated (unat (inh_opcode h))"

text \<open>
  C18: before the connection is initialised every message but INIT is answered with EIO, and
  afterwards every INIT; with \<open>allow_root\<close> a user who is neither the owner nor root gets EACCES for
  everything but the operations on files that are already open; an opcode without a handler gets
  ENOSYS. A refused message never reaches an operation of the file system.
\<close>

theorem process_gate:
  fixes f :: "'u fuse_ll"
  assumes "fst (alloc (ll_mem f))" "\<not> cuse_data f"
  shows "(\<not> got_init f \<and> unat (inh_opcode h) \<noteq> FUSE_INIT \<longrightarrow> refused h arg ch f EIO) \<and>
     (got_init f \<and> (unat (inh_opcode h) = FUSE_INIT \<or> unat (inh_opcode h) = CUSE_INIT) \<longrightarrow> refused h arg ch f EIO) \<and>
     (got_init f \<and> unat (inh_opcode h) \<noteq> FUSE_INIT \<and> unat (inh_opcode h) \<noteq> CUSE_INIT \<and> foreign f h \<longrightarrow>
        refused h arg ch f EACCES) \<and>
     (got_init f \<and> \<not> foreign f h \<and> fuse_ll_ops (unat (inh_opcode h)) = (None :: 'u handler option) \<longrightarrow>
        refused h arg ch f ENOSYS)"
proof -
  have known: "fuse_ll_ops FUSE_INIT \<noteq> (None :: 'u handler option)" "fuse_ll_ops CUSE_INIT \<noteq> (None :: 'u handler option)"
    by (simp_all add: fuse_ll_ops_def)
  note I = refusedI [OF assms(1)]
  show ?thesis
    unfolding foreign_def
    by (intro conjI impI; rule I; use assms(2) known in \<open>auto simp: ll_reject_def\<close>)
qed


subsection \<open>The requests the library holds\<close>

definition listed :: "'u fuse_ll \<Rightarrow> nat \<Rightarrow> bool" where
  "listed f r \<longleftrightarrow> r \<in> set (req_list f) \<union> set (interrupts f)"

text \<open>
  A request is allocated exactly as long as it is on a list or held by running code; its count
  says by how many. \<open>pins\<close> says how often running code holds a request.
\<close>

definition holders :: "(nat \<Rightarrow> nat) \<Rightarrow> 'u fuse_ll \<Rightarrow> nat \<Rightarrow> nat" where
  "holders pins f r = (if listed f r then 1 else 0) + pins r"

definition req_ok :: "(nat \<Rightarrow> nat) \<Rightarrow> 'u fuse_ll \<Rightarrow> nat \<Rightarrow> bool" where
  "req_ok pins f r \<longleftrightarrow>
     map_option req_ctr (reqs f r) = (if holders pins f r = 0 then None else Some (int (holders pins f r))) \<and>
     (reqs f r \<noteq> None \<longrightarrow> r < fresh_req f)"

definition ll_inv :: "(nat \<Rightarrow> nat) \<Rightarrow> 'u fuse_ll \<Rightarrow> bool" where
  "ll_inv pins f \<longleftrightarrow> distinct (req_list f @ interrupts f) \<and> (\<forall>r\<in>set (interrupts f). pins r = 0) \<and>
     (\<forall>r. req_ok pins f r)"

lemma ll_inv_distinct: "ll_inv pins f \<Longrightarrow> distinct (req_list f @ interrupts f)"
  by (simp add: ll_inv_def)

lemma ll_inv_interrupts: "ll_inv pins f \<Longrightarrow> r \<in> set (interrupts f) \<Longrightarrow> pins r = 0"
  by (simp add: ll_inv_def)

lemma ll_inv_req: "ll_inv pins f \<Longrightarrow> req_ok pins f r"
  by (simp add: ll_inv_def)

lemma ll_inv_live: "ll_inv pins f \<Longrightarrow> listed f r \<or> 0 < pins r \<Longrightarrow> \<exists>q. reqs f r = Some q"
  using ll_inv_req [of pins f r] by (auto simp: req_ok_def holders_def split: if_splits)

lemma ll_inv_count: "ll_inv pins f \<Longrightarrow> reqs f r = Some q \<Longrightarrow> req_ctr q = int (holders pins f r) \<and> 0 < holders pins f r"
  using ll_inv_req [of pins f r] by (auto simp: req_ok_def split: if_splits)

lemma ll_inv_fresh: "ll_inv pins f \<Longrightarrow> reqs f (fresh_req f) = None \<and> \<not> listed f (fresh_req f) \<and> pins (fresh_req f) = 0"
  using ll_inv_req [of pins f "fresh_req f"] by (auto simp: req_ok_def holders_def split: if_splits)

text \<open>The invariant after a change of one request and of the lists, if only that one's holders change.\<close>

lemma ll_inv_change:
  assumes "ll_inv pins f" "distinct (req_list f' @ interrupts f')" "req_ok pins' f' r" "fresh_req f \<le> fresh_req f'"
    and "r \<in> set (interrupts f') \<longrightarrow> pins' r = 0" "set (interrupts f') \<subseteq> insert r (set (interrupts f))"
    and "\<And>r'. r' \<noteq> r \<Longrightarrow> reqs f' r' = reqs f r' \<and> listed f' r' = listed f r' \<and> pins' r' = pins r'"
  shows "ll_inv pins' f'"
proof -
  have "req_ok pins' f' r'" for r'
    using ll_inv_req [OF assms(1), of r'] assms(3,4) assms(7) [of r']
    by (cases "r' = r") (auto simp: req_ok_def holders_def)
  moreover have "pins' r' = 0" if "r' \<in> set (interrupts f')" for r'
    using that assms(5,6) assms(7) [of r'] ll_inv_interrupts [OF assms(1), of r'] by (cases "r' = r") auto
  ultimately show ?thesis using assms(2) by (simp add: ll_inv_def)
qed

text \<open>Changes of a request that leave its count alone.\<close>

lemma set_req_inv:
  assumes "ll_inv pins f" "reqs f r = Some q" "req_ctr q' = req_ctr q"
  shows "ll_inv pins (set_req r q' f)"
  using assms(2,3) ll_inv_req [OF assms(1), of r] ll_inv_distinct [OF assms(1)] ll_inv_interrupts [OF assms(1), of r]
  by (intro ll_inv_change [OF assms(1), where r = r]) (auto simp: set_req_def listed_def req_ok_def holders_def)

lemma replied_inv:
  assumes inv: "ll_inv pins f" and q: "reqs f r = Some q"
  shows "ll_inv (if listed f r then pins else pins(r := pins r - 1)) (replied r q msg f)"
proof (rule ll_inv_change [OF inv, where r = r])
  show "distinct (req_list (replied r q msg f) @ interrupts (replied r q msg f))"
    using ll_inv_distinct [OF inv] by (auto simp: replied_def distinct_removeAll)
  show "req_ok (if listed f r then pins else pins(r := pins r - 1)) (replied r q msg f) r"
    using ll_inv_count [OF inv q] ll_inv_req [OF inv, of r] q
    by (auto simp: req_ok_def holders_def replied_def listed_def split: if_splits)
qed (auto simp: replied_def listed_def)

lemma with_req_inv:
  assumes "ll_inv pins f"
  shows "ll_inv (pins(fresh_req f := 1)) (with_req h ch f)"
  using ll_inv_fresh [OF assms] ll_inv_distinct [OF assms]
  by (intro ll_inv_change [OF assms, where r = "fresh_req f"]) (auto simp: listed_def req_ok_def holders_def)

lemma reply_inv:
  assumes "ll_inv pins f" "listed f r" "send_reply_iov r err iov f = Some (res, f')"
  shows "ll_inv pins f'"
proof -
  obtain q where q: "reqs f r = Some q" using ll_inv_live assms(1,2) by blast
  then show ?thesis
    using replied_inv [OF assms(1) q] send_reply_iov_replied [OF q, of err iov] assms(2,3) by auto
qed

lemma reply_err_pinned:
  assumes "ll_inv (pins(r := 1)) f" "\<not> listed f r"
  shows "\<exists>f'. reply_err r err f = Some f' \<and> ll_inv (pins(r := 0)) f'"
proof -
  obtain q where q: "reqs f r = Some q" using ll_inv_live [OF assms(1), of r] by auto
  show ?thesis
    using replied_inv [OF assms(1) q, of "reply_message q (- err) []"] assms(2) reply_err_replied [OF q, of err]
    by (intro exI [of _ "replied r q (reply_message q (- err) []) f"]) simp
qed

lemma list_add_inv:
  assumes "ll_inv (pins(r := 1)) f" "\<not> listed f r" "pins r = 0"
  shows "ll_inv pins (f\<lparr>req_list := req_list f @ [r]\<rparr>)"
    and "ll_inv pins (f\<lparr>interrupts := interrupts f @ [r]\<rparr>)"
  using ll_inv_req [OF assms(1), of r] ll_inv_distinct [OF assms(1)] assms(2,3)
  by (intro ll_inv_change [OF assms(1), where r = r]; auto simp: listed_def req_ok_def holders_def)+

lemma list_del_inv:
  assumes "ll_inv pins f" "r \<in> set (interrupts f)"
  shows "ll_inv (pins(r := 1)) (list_del_req r f)" "ll_inv pins (destroy_req r (list_del_req r f))"
  using ll_inv_req [OF assms(1), of r] ll_inv_distinct [OF assms(1)] ll_inv_interrupts [OF assms] assms(2)
  by (intro ll_inv_change [OF assms(1), where r = r];
      auto simp: listed_def req_ok_def holders_def list_del_req_def destroy_req_def distinct_removeAll)+

text \<open>Putting a new request on the list looks at the stored interrupts first.\<close>

lemma enlist_inv:
  assumes inv: "ll_inv (pins(r := 1)) f" and new: "\<not> listed f r" and z: "pins r = 0"
  shows "\<exists>f'. enlist r f = Some f' \<and> ll_inv pins f' \<and> r \<in> set (req_list f')"
proof -
  obtain q where q: "reqs f r = Some q" using ll_inv_live [OF inv, of r] by auto
  let ?found = "find (\<lambda>c. case reqs f c of Some qc \<Rightarrow> u_unique qc = unique q | None \<Rightarrow> False) (interrupts f)"
  let ?add = "\<lambda>f. f\<lparr>req_list := req_list f @ [r]\<rparr>"
  show ?thesis
  proof (cases ?found)
    case (Some cur)
    then have cur: "cur \<in> set (interrupts f)" "cur \<noteq> r"
      using find_SomeD new by (fastforce simp: listed_def)+
    let ?g = "destroy_req cur (list_del_req cur (set_req r (q\<lparr>interrupted := True\<rparr>) f))"
    have "ll_inv (pins(r := 1)) ?g"
      using set_req_inv [OF inv q] cur by (intro list_del_inv) (simp_all add: set_req_def)
    moreover have "\<not> listed ?g r" using new by (simp add: listed_def list_del_req_def destroy_req_def set_req_def)
    ultimately have "ll_inv pins (?add ?g)" using z by (rule list_add_inv)
    then show ?thesis using Some q by (simp add: enlist_def check_interrupt_def)
  next
    case None
    show ?thesis
    proof (cases "interrupts f")
      case Nil
      have "ll_inv pins (?add f)" using inv new z by (rule list_add_inv)
      then show ?thesis using Nil None q by (simp add: enlist_def check_interrupt_def)
    next
      case (Cons cur rest)
      then have cur: "cur \<in> set (interrupts f)" "cur \<noteq> r" using new by (auto simp: listed_def)
      have zc: "pins cur = 0" using ll_inv_interrupts [OF inv cur(1)] cur(2) by simp
      have "ll_inv ((pins(cur := 1))(r := 1)) (list_del_req cur f)"
        using list_del_inv(1) [OF inv cur(1)] cur(2) by (simp add: fun_upd_twist)
      then have "ll_inv (pins(cur := 1)) (?add (list_del_req cur f))"
        using new z cur(2) by (intro list_add_inv) (simp_all add: listed_def list_del_req_def)
      moreover have "\<not> listed (?add (list_del_req cur f)) cur" using cur(2) by (simp add: listed_def list_del_req_def)
      ultimately obtain f' where f': "reply_err cur EAGAIN (?add (list_del_req cur f)) = Some f'" "ll_inv (pins(cur := 0)) f'"
        using reply_err_pinned by blast
      have "pins(cur := 0) = pins" using zc by auto
      moreover have "r \<in> set (req_list f')"
      proof -
        obtain qc where qc: "reqs (?add (list_del_req cur f)) cur = Some qc"
          using ll_inv_live [OF inv, of cur] cur(1) by (auto simp: listed_def list_del_req_def)
        show ?thesis using f'(1) reply_err_replied [OF qc, of EAGAIN] cur(2) by (auto simp: replied_def)
      qed
      ultimately show ?thesis using f' None Cons q by (auto simp: enlist_def check_interrupt_def)
    qed
  qed
qed

subsection \<open>File systems that answer their requests\<close>

text \<open>
  What the library relies on in an operation of the file system: called with a request on the
  list it may answer requests and change anything else, but it leaves the bookkeeping of the
  requests in order. \<open>init\<close> and \<open>destroy\<close> do not answer the request that calls them.
\<close>

definition good_step :: "(nat \<Rightarrow> nat) \<Rightarrow> 'u fuse_ll \<Rightarrow> 'u fuse_ll \<Rightarrow> bool" where
  "good_step pins f f' \<longleftrightarrow> ll_inv pins f' \<and> (\<forall>r. listed f' r \<longrightarrow> listed f r)"

definition answers :: "nat \<Rightarrow> 'u ll_fun \<Rightarrow> bool" where
  "answers r g \<longleftrightarrow> (\<forall>pins f f'. ll_inv pins f \<longrightarrow> r \<in> set (req_list f) \<longrightarrow> g f = Some f' \<longrightarrow> good_step pins f f')"

definition leaves :: "'u ll_fun \<Rightarrow> bool" where
  "leaves g \<longleftrightarrow> (\<forall>pins f f'. ll_inv pins f \<longrightarrow> g f = Some f' \<longrightarrow>
     good_step pins f f' \<and> set (req_list f) \<subseteq> set (req_list f'))"

lemma answersD: "answers r g \<Longrightarrow> g f = Some f' \<Longrightarrow> ll_inv pins f \<Longrightarrow> r \<in> set (req_list f) \<Longrightarrow> good_step pins f f'"
  unfolding answers_def by blast

lemma leavesD:
  "leaves g \<Longrightarrow> g f = Some f' \<Longrightarrow> ll_inv pins f \<Longrightarrow> good_step pins f f'"
  "leaves g \<Longrightarrow> g f = Some f' \<Longrightarrow> ll_inv pins f \<Longrightarrow> r \<in> set (req_list f) \<Longrightarrow> r \<in> set (req_list f')"
  unfolding leaves_def by blast+

text \<open>Rules to see that a handler answers, along its structure.\<close>

named_theorems answer_intro

lemma answersI:
  "(\<And>pins f f'. g f = Some f' \<Longrightarrow> ll_inv pins f \<Longrightarrow> r \<in> set (req_list f) \<Longrightarrow> good_step pins f f') \<Longrightarrow> answers r g"
  unfolding answers_def by blast

lemma good_step_inv: "good_step pins f f' \<Longrightarrow> ll_inv pins f'"
  by (simp add: good_step_def)

lemma good_step_trans: "good_step pins f f1 \<Longrightarrow> good_step pins f1 f' \<Longrightarrow> good_step pins f f'"
  by (simp add: good_step_def)

text \<open>A step that changes neither the requests nor the lists.\<close>

lemma good_step_same:
  assumes "ll_inv pins f" "reqs f' = reqs f" "req_list f' = req_list f" "interrupts f' = interrupts f" "fresh_req f' = fresh_req f"
  shows "good_step pins f f'"
  using assms by (simp add: good_step_def ll_inv_def req_ok_def holders_def listed_def)

lemma good_step_replied:
  assumes "ll_inv pins f" "reqs f r = Some q" "listed f r"
  shows "good_step pins f (replied r q msg f)"
  using replied_inv [OF assms(1,2), of msg] assms(3) by (auto simp: good_step_def listed_def replied_def)

lemma answers_reply [answer_intro]: "answers r (\<lambda>f. map_option snd (send_reply_iov r err iov f))"
proof (rule answersI)
  fix pins f f' assume a: "map_option snd (send_reply_iov r err iov f) = Some f'" "ll_inv pins f" "r \<in> set (req_list f)"
  obtain q where q: "reqs f r = Some q" using ll_inv_live [OF a(2), of r] a(3) by (auto simp: listed_def)
  show "good_step pins f f'"
    using good_step_replied [OF a(2) q] send_reply_iov_replied [OF q, of err iov] a(1,3) by (auto simp: listed_def)
qed

lemma answers_ok [answer_intro]: "answers r (\<lambda>f. map_option snd (send_reply_ok r arg f))"
  by (auto simp: send_reply_ok_def send_reply_def intro: answers_reply)

lemma answers_err [answer_intro]: "answers r (reply_err r err)"
  by (auto simp: fuse_reply_err_def send_reply_def intro: answers_reply)

lemma answers_open [answer_intro]: "answers r (\<lambda>f. map_option snd (fuse_reply_open r fi f))"
  by (simp add: fuse_reply_open_def answers_ok)

lemma answers_none [answer_intro]: "answers r (fuse_reply_none r)"
proof (rule answersI)
  fix pins f f' assume a: "fuse_reply_none r f = Some f'" "ll_inv pins f" "r \<in> set (req_list f)"
  obtain q where q: "reqs f r = Some q" using ll_inv_live [OF a(2), of r] a(3) by (auto simp: listed_def)
  have "fuse_reply_none r f = Some (replied r q [] f)"
    using q by (cases "send_results f") (auto simp: fuse_reply_none_def fuse_free_req_def fuse_chan_send_def Let_def
      replied_def destroy_req_def set_req_def list_del_req_def)
  then show "good_step pins f f'" using good_step_replied [OF a(2) q] a(1,3) by (simp add: listed_def)
qed

lemma answers_read [answer_intro]: "(\<And>y. x = Some y \<Longrightarrow> answers r (g y)) \<Longrightarrow> answers r (\<lambda>f. x \<bind> (\<lambda>y. g y f))"
  by (cases x) (simp_all add: answers_def)

lemma answers_case [answer_intro]:
  "(\<And>g. v = Some g \<Longrightarrow> answers r (a g)) \<Longrightarrow> answers r b \<Longrightarrow>
     answers r (\<lambda>f. case v of None \<Rightarrow> b f | Some g \<Rightarrow> a g f)"
  by (cases v) simp_all

lemma answers_if [answer_intro]: "answers r a \<Longrightarrow> answers r b \<Longrightarrow> answers r (\<lambda>f. if c f then a f else b f)"
  unfolding answers_def by (metis (full_types))

lemma answers_if_bind [answer_intro]:
  "answers r (\<lambda>f. a f \<bind> (\<lambda>y. k y f)) \<Longrightarrow> answers r (\<lambda>f. b f \<bind> (\<lambda>y. k y f)) \<Longrightarrow>
     answers r (\<lambda>f. (if c f then a f else b f) \<bind> (\<lambda>y. k y f))"
  unfolding answers_def by (metis (full_types))

lemma answers_let [answer_intro]: "answers r (g x) \<Longrightarrow> answers r (\<lambda>f. let y = x in g y f)"
  by simp

lemma answers_umask [answer_intro]:
  assumes "answers r k"
  shows "answers r (\<lambda>f. set_umask r msk f \<bind> k)"
proof (rule answersI)
  fix pins f f' assume a: "set_umask r msk f \<bind> k = Some f'" "ll_inv pins f" "r \<in> set (req_list f)"
  then obtain q where q: "reqs f r = Some q" by (cases "reqs f r") (simp_all add: set_umask_def)
  let ?f = "set_req r (q\<lparr>req_ctx := (req_ctx q)\<lparr>ctx_umask := msk\<rparr>\<rparr>) f"
  have "k ?f = Some f'" using a(1) q by (simp add: set_umask_def)
  then have "good_step pins ?f f'"
    using assms [THEN answersD] set_req_inv [OF a(2) q] a(3) by (simp add: set_req_def)
  then show "good_step pins f f'" by (simp add: good_step_def listed_def set_req_def)
qed

lemma answers_mem [answer_intro]:
  assumes "\<And>m. answers r (a m)" "\<And>m. answers r (b m)"
  shows "answers r (\<lambda>f. let (ok, m) = alloc (ll_mem f); f = f\<lparr>ll_mem := m\<rparr> in if \<not> ok then a m f else b m f)"
proof (rule answersI)
  fix pins f f'
  assume f': "(let (ok, m) = alloc (ll_mem f); f = f\<lparr>ll_mem := m\<rparr> in if \<not> ok then a m f else b m f) = Some f'"
    and inv: "ll_inv pins f" "r \<in> set (req_list f)"
  obtain ok m where "alloc (ll_mem f) = (ok, m)" by fastforce
  moreover have *: "good_step pins f (f\<lparr>ll_mem := m\<rparr>)" by (rule good_step_same [OF inv(1)]) simp_all
  ultimately have "good_step pins (f\<lparr>ll_mem := m\<rparr>) f'"
    using f' inv(2) assms [of m, THEN answersD] by (auto simp: Let_def good_step_def split: if_splits)
  then show "good_step pins f f'" using * good_step_trans by blast
qed

lemma answers_statfs [answer_intro]: "answers r (\<lambda>f. map_option snd (fuse_reply_statfs r st f))"
proof -
  let ?a = "put_fuse_statfs_out \<lparr>statfs_out_st = convert_statfs st\<rparr>"
  have *: "map_option snd (fuse_reply_statfs r st f) =
      (if proto_minor_of f < 4 then map_option snd (send_reply_ok r (take 48 ?a) f)
       else map_option snd (send_reply_ok r (take 80 ?a) f))" for f :: "'a fuse_ll"
    by (simp add: fuse_reply_statfs_def Let_def)
  show ?thesis unfolding * by (rule answers_if [OF answers_ok answers_ok])
qed

lemma answers_split [answer_intro]:
  "(\<And>a b. y = (a, b) \<Longrightarrow> answers r (g a b)) \<Longrightarrow> answers r (\<lambda>f. case y of (a, b) \<Rightarrow> g a b f)"
  by (cases y) simp

lemma answers_assoc [answer_intro]:
  "answers r (\<lambda>f. a f \<bind> (\<lambda>x. b x f \<bind> (\<lambda>y. k y f))) \<Longrightarrow> answers r (\<lambda>f. (a f \<bind> (\<lambda>x. b x f)) \<bind> (\<lambda>y. k y f))"
  by simp

lemma answers_unit [answer_intro]:
  "answers r k \<Longrightarrow> answers r (\<lambda>f. Some f \<bind> k)"
  "answers r (k' a) \<Longrightarrow> answers r (\<lambda>f. Some (a, f) \<bind> (\<lambda>(a, f). k' a f))"
  by simp_all

lemma answers_live [answer_intro]: "(\<And>q. answers r (g q)) \<Longrightarrow> answers r (\<lambda>f. reqs f r \<bind> (\<lambda>q. g q f))"
  unfolding answers_def by (auto simp: bind_eq_Some_conv)

text \<open>Holding a request while its interrupt function runs.\<close>

lemma pin_inv:
  assumes "ll_inv pins f" "reqs f c = Some q" "c \<in> set (req_list f)"
  shows "ll_inv (pins(c := Suc (pins c))) (set_req c (q\<lparr>req_ctr := req_ctr q + 1, interrupted := True\<rparr>) f)"
  using ll_inv_req [OF assms(1), of c] ll_inv_distinct [OF assms(1)] assms(2,3)
  by (intro ll_inv_change [OF assms(1), where r = c])
    (auto simp: set_req_def listed_def req_ok_def holders_def)

lemma unpin_inv:
  fixes q :: fuse_req
  assumes "ll_inv (pins(c := Suc k)) f" "reqs f c = Some q"
  defines "q' \<equiv> q\<lparr>req_ctr := req_ctr q - 1\<rparr>"
  shows "ll_inv (pins(c := k)) (if req_ctr q' = 0 then destroy_req c (set_req c q' f) else set_req c q' f)"
proof (rule ll_inv_change [OF assms(1), where r = c])
  have "c \<notin> set (interrupts f)" using ll_inv_interrupts [OF assms(1), of c] by auto
  moreover have "req_ctr q = int (holders (pins(c := Suc k)) f c)" using ll_inv_count [OF assms(1,2)] by blast
  ultimately show "req_ok (pins(c := k)) (if req_ctr q' = 0 then destroy_req c (set_req c q' f) else set_req c q' f) c"
    using ll_inv_req [OF assms(1), of c] assms(2)
    by (auto simp: q'_def req_ok_def holders_def set_req_def destroy_req_def listed_def split: if_splits)
qed (use ll_inv_distinct [OF assms(1)] ll_inv_interrupts [OF assms(1), of c] in \<open>auto simp: set_req_def destroy_req_def listed_def\<close>)

locale ll_file_system =
  fixes ops :: "'u fuse_lowlevel_ops"
  assumes init_leaves: "ll_init ops = Some g0 \<Longrightarrow> leaves g0"
    and destroy_leaves: "ll_destroy ops = Some g0 \<Longrightarrow> leaves g0"
    and cuse_answers: "answers r (cuse_lowlevel_init ops r i arg)"
    and interrupt_answers: "answers r (interrupt_func ops k r)"
    and lookup_answers: "ll_lookup ops = Some glookup \<Longrightarrow> answers r (glookup r i n)"
    and forget_answers: "ll_forget ops = Some gforget \<Longrightarrow> answers r (gforget r i nl)"
    and getattr_answers: "ll_getattr ops = Some ggetattr \<Longrightarrow> answers r (ggetattr r i fip)"
    and setattr_answers: "ll_setattr ops = Some gsetattr \<Longrightarrow> answers r (gsetattr r i st v fip)"
    and readlink_answers: "ll_readlink ops = Some greadlink \<Longrightarrow> answers r (greadlink r i)"
    and mknod_answers: "ll_mknod ops = Some gmknod \<Longrightarrow> answers r (gmknod r i n md rd)"
    and mkdir_answers: "ll_mkdir ops = Some gmkdir \<Longrightarrow> answers r (gmkdir r i n md)"
    and unlink_answers: "ll_unlink ops = Some gunlink \<Longrightarrow> answers r (gunlink r i n)"
    and rmdir_answers: "ll_rmdir ops = Some grmdir \<Longrightarrow> answers r (grmdir r i n)"
    and symlink_answers: "ll_symlink ops = Some gsymlink \<Longrightarrow> answers r (gsymlink r l i n)"
    and rename_answers: "ll_rename ops = Some grename \<Longrightarrow> answers r (grename r i n j n')"
    and link_answers: "ll_link ops = Some glink \<Longrightarrow> answers r (glink r i j n)"
    and open_answers: "ll_open ops = Some gopen \<Longrightarrow> answers r (gopen r i fi)"
    and read_answers: "ll_read ops = Some gread \<Longrightarrow> answers r (gread r i sz off fi)"
    and write_answers: "ll_write ops = Some gwrite \<Longrightarrow> answers r (gwrite r i b sz off fi)"
    and flush_answers: "ll_flush ops = Some gflush \<Longrightarrow> answers r (gflush r i fi)"
    and release_answers: "ll_release ops = Some grelease \<Longrightarrow> answers r (grelease r i fi)"
    and fsync_answers: "ll_fsync ops = Some gfsync \<Longrightarrow> answers r (gfsync r i ds fi)"
    and opendir_answers: "ll_opendir ops = Some gopendir \<Longrightarrow> answers r (gopendir r i fi)"
    and readdir_answers: "ll_readdir ops = Some greaddir \<Longrightarrow> answers r (greaddir r i sz off fi)"
    and releasedir_answers: "ll_releasedir ops = Some greleasedir \<Longrightarrow> answers r (greleasedir r i fi)"
    and fsyncdir_answers: "ll_fsyncdir ops = Some gfsyncdir \<Longrightarrow> answers r (gfsyncdir r i ds fi)"
    and statfs_answers: "ll_statfs ops = Some gstatfs \<Longrightarrow> answers r (gstatfs r i)"
    and setxattr_answers: "ll_setxattr ops = Some gsetxattr \<Longrightarrow> answers r (gsetxattr r i n val sz fl)"
    and getxattr_answers: "ll_getxattr ops = Some ggetxattr \<Longrightarrow> answers r (ggetxattr r i n sz)"
    and listxattr_answers: "ll_listxattr ops = Some glistxattr \<Longrightarrow> answers r (glistxattr r i sz)"
    and removexattr_answers: "ll_removexattr ops = Some gremovexattr \<Longrightarrow> answers r (gremovexattr r i n)"
    and access_answers: "ll_access ops = Some gaccess \<Longrightarrow> answers r (gaccess r i msk)"
    and create_answers: "ll_create ops = Some gcreate \<Longrightarrow> answers r (gcreate r i n md fi)"
    and getlk_answers: "ll_getlk ops = Some ggetlk \<Longrightarrow> answers r (ggetlk r i fi lk)"
    and setlk_answers: "ll_setlk ops = Some gsetlk \<Longrightarrow> answers r (gsetlk r i fi lk slp)"
    and bmap_answers: "ll_bmap ops = Some gbmap \<Longrightarrow> answers r (gbmap r i bs blk)"
    and ioctl_answers: "ll_ioctl ops = Some gioctl \<Longrightarrow> answers r (gioctl r i cmd ioarg fi iofl ib isz osz)"
    and poll_answers: "ll_poll ops = Some gpoll \<Longrightarrow> answers r (gpoll r i fi ph)"
begin

lemmas op_answers =
  lookup_answers forget_answers getattr_answers
  setattr_answers readlink_answers mknod_answers
  mkdir_answers unlink_answers rmdir_answers
  symlink_answers rename_answers link_answers
  open_answers read_answers write_answers
  flush_answers release_answers fsync_answers
  opendir_answers readdir_answers releasedir_answers
  fsyncdir_answers statfs_answers setxattr_answers
  getxattr_answers listxattr_answers removexattr_answers
  access_answers create_answers getlk_answers
  setlk_answers bmap_answers ioctl_answers
  poll_answers

lemmas handler_defs =
  do_lookup_def do_forget_def do_getattr_def do_setattr_def do_access_def
  do_readlink_def do_unlink_def do_rmdir_def do_symlink_def do_rename_def
  do_link_def do_open_def do_read_def do_write_def do_flush_def
  do_release_def do_fsync_def do_opendir_def do_readdir_def do_releasedir_def
  do_fsyncdir_def do_statfs_def do_setxattr_def do_getxattr_def do_listxattr_def
  do_removexattr_def do_getlk_def do_bmap_def do_ioctl_def
  do_setlk_def do_setlkw_def do_setlk_common_def do_mknod_def do_mkdir_def do_create_def do_poll_def

lemma handlers_answer:
  shows
"answers r (do_lookup ops r ino arg)"
    and "answers r (do_forget ops r ino arg)"
    and "answers r (do_getattr ops r ino arg)"
    and "answers r (do_setattr ops r ino arg)"
    and "answers r (do_access ops r ino arg)"
    and "answers r (do_readlink ops r ino arg)"
    and "answers r (do_unlink ops r ino arg)"
    and "answers r (do_rmdir ops r ino arg)"
    and "answers r (do_symlink ops r ino arg)"
    and "answers r (do_rename ops r ino arg)"
    and "answers r (do_link ops r ino arg)"
    and "answers r (do_open ops r ino arg)"
    and "answers r (do_read ops r ino arg)"
    and "answers r (do_write ops r ino arg)"
    and "answers r (do_flush ops r ino arg)"
    and "answers r (do_release ops r ino arg)"
    and "answers r (do_fsync ops r ino arg)"
    and "answers r (do_opendir ops r ino arg)"
    and "answers r (do_readdir ops r ino arg)"
    and "answers r (do_releasedir ops r ino arg)"
    and "answers r (do_fsyncdir ops r ino arg)"
    and "answers r (do_statfs ops r ino arg)"
    and "answers r (do_setxattr ops r ino arg)"
    and "answers r (do_getxattr ops r ino arg)"
    and "answers r (do_listxattr ops r ino arg)"
    and "answers r (do_removexattr ops r ino arg)"
    and "answers r (do_getlk ops r ino arg)"
    and "answers r (do_bmap ops r ino arg)"
    and "answers r (do_ioctl ops r ino arg)"
    and "answers r (do_setlk ops r ino arg)"
    and "answers r (do_setlkw ops r ino arg)"
    and "answers r (do_mknod ops r ino arg)"
    and "answers r (do_mkdir ops r ino arg)"
    and "answers r (do_create ops r ino arg)"
    and "answers r (do_poll ops r ino arg)"
  unfolding handler_defs [abs_def] by (rule answer_intro | erule op_answers)+

text \<open>Code that runs and then answers the request it was called for.\<close>

lemma run_then_answer:
  assumes "ll_inv pins f" "r \<in> set (req_list f)" "good_step pins f f1" "req_list f1 = req_list f"
    and "(case v of None \<Rightarrow> Some f1 | Some g \<Rightarrow> g f1) = Some f2" "\<And>g. v = Some g \<Longrightarrow> leaves g"
    and "map_option snd (send_reply_ok r out f2) = Some f'"
  shows "good_step pins f f'"
proof -
  have "good_step pins f1 f2 \<and> r \<in> set (req_list f2)"
  proof (cases v)
    case None
    then show ?thesis using assms(2-5) by (simp add: good_step_def)
  next
    case (Some g)
    then have g: "leaves g" "g f1 = Some f2" using assms(5,6) by simp_all
    have "ll_inv pins f1" "r \<in> set (req_list f1)" using assms(2-4) by (simp_all add: good_step_def)
    then show ?thesis using leavesD [OF g] by blast
  qed
  then show ?thesis
    using answers_ok [THEN answersD, OF assms(7)] assms(3) good_step_trans good_step_inv by metis
qed

lemma destroy_answers: "answers r (do_destroy ops r ino arg)"
proof (rule answersI)
  fix pins f f' assume a: "do_destroy ops r ino arg f = Some f'" "ll_inv pins f" "r \<in> set (req_list f)"
  let ?f = "f\<lparr>got_destroy := True\<rparr>"
  have step: "good_step pins f ?f" by (rule good_step_same [OF a(2)]) simp_all
  obtain f1 where 1: "(case ll_destroy ops of None \<Rightarrow> Some ?f | Some g \<Rightarrow> g ?f) = Some f1"
    "map_option snd (send_reply_ok r [] f1) = Some f'"
    using a(1) by (auto simp: do_destroy_def Let_def bind_eq_Some_conv simp del: map_option_eq_Some)
  show "good_step pins f f'" by (rule run_then_answer [OF a(2,3) step _ 1(1) destroy_leaves 1(2)]) simp_all
qed

lemma init_answers: "answers r (do_init ops r ino arg)"
proof (rule answersI)
  fix pins f f' assume a: "do_init ops r ino arg f = Some f'" "ll_inv pins f" "r \<in> set (req_list f)"
  let ?run = "\<lambda>c. case ll_init ops of None \<Rightarrow> Some (f\<lparr>conn := c, got_init := True\<rparr>)
    | Some g \<Rightarrow> g (f\<lparr>conn := c, got_init := True\<rparr>)"
  have step: "good_step pins f (f\<lparr>conn := c\<rparr>)" "good_step pins f (f\<lparr>conn := c, got_init := True\<rparr>)" for c
    by (rule good_step_same [OF a(2)]; simp)+
  obtain major minor where mm: "init_in_major_at arg = Some major" "init_in_minor_at arg = Some minor" "reqs f r \<noteq> None"
    using a(1) unfolding do_init_def Let_def bind_eq_Some_conv by auto
  show "good_step pins f f'"
  proof (cases "major < 7 \<or> major > 7")
    case True
    then obtain c where c: "reply_err r EPROTO (f\<lparr>conn := c\<rparr>) = Some f' \<or>
        (\<exists>out. map_option snd (send_reply_ok r out (f\<lparr>conn := c\<rparr>)) = Some f')"
      using a(1) mm by (auto simp: do_init_def Let_def simp del: map_option_eq_Some split: if_splits)
    have "r \<in> set (req_list (f\<lparr>conn := c\<rparr>))" using a(3) by simp
    then have "good_step pins (f\<lparr>conn := c\<rparr>) f'"
      using c answers_ok [THEN answersD] answers_err [THEN answersD] good_step_inv [OF step(1)] by blast
    then show ?thesis using good_step_trans [OF step(1)] by blast
  next
    case False
    have "\<exists>c f1 out. ?run c = Some f1 \<and> map_option snd (send_reply_ok r out f1) = Some f'"
      using a(1) mm False unfolding do_init_def Let_def bind_eq_Some_conv
      by (auto simp: bind_eq_Some_conv simp del: map_option_eq_Some split del: if_split cong: option.case_cong)
    then obtain c f1 out where 1: "?run c = Some f1" "map_option snd (send_reply_ok r out f1) = Some f'" by blast
    show ?thesis by (rule run_then_answer [OF a(2,3) step(2) _ 1(1) init_leaves 1(2)]) simp_all
  qed
qed

lemma find_interrupted_inv:
  assumes "find_interrupted ops u f = Some (found, f')" "ll_inv pins f"
  shows "good_step pins f f'"
proof (cases "find (\<lambda>c. case reqs f c of Some q \<Rightarrow> unique q = u | None \<Rightarrow> False) (req_list f)")
  case None
  then show ?thesis using assms by (auto simp: find_interrupted_def good_step_def)
next
  case (Some c)
  then have c: "c \<in> set (req_list f)" using find_SomeD by fast
  then obtain q where q: "reqs f c = Some q" using ll_inv_live [OF assms(2), of c] by (auto simp: listed_def)
  let ?f1 = "set_req c (q\<lparr>req_ctr := req_ctr q + 1, interrupted := True\<rparr>) f"
  let ?pins = "pins(c := Suc (pins c))"
  have inv1: "ll_inv ?pins ?f1" by (rule pin_inv [OF assms(2) q c])
  have c1: "c \<in> set (req_list ?f1)" using c by (simp add: set_req_def)
  obtain f2 where f2: "(case u_func q of Some g \<Rightarrow> interrupt_func ops g c ?f1 | None \<Rightarrow> Some ?f1) = Some f2"
    using assms(1) Some q by (cases "u_func q") (auto simp: find_interrupted_def Let_def bind_eq_Some_conv)
  have step: "good_step ?pins ?f1 f2"
  proof (cases "u_func q")
    case None
    then show ?thesis using f2 inv1 by (simp add: good_step_def)
  next
    case (Some g)
    then show ?thesis using f2 answersD [OF interrupt_answers _ inv1 c1] by simp
  qed
  obtain q2 where q2: "reqs f2 c = Some q2" using ll_inv_live [OF good_step_inv [OF step], of c] by auto
  have "ll_inv pins f'"
    using unpin_inv [OF good_step_inv [OF step] q2] assms(1) Some q f2 q2
    by (cases "u_func q") (auto simp: find_interrupted_def Let_def bind_eq_Some_conv split: if_splits)
  moreover have "req_list f' = req_list f2" "interrupts f' = interrupts f2"
    using assms(1) Some q f2 q2
    by (cases "u_func q"; auto simp: find_interrupted_def Let_def bind_eq_Some_conv set_req_def destroy_req_def)+
  ultimately show ?thesis using step by (auto simp: good_step_def listed_def set_req_def)
qed

lemma do_interrupt_inv:
  assumes "do_interrupt ops r ino arg f = Some f'" "ll_inv (pins(r := 1)) f" "\<not> listed f r" "pins r = 0"
  shows "ll_inv pins f'"
proof -
  obtain u q where u: "interrupt_in_unique_at arg = Some u" and q: "reqs f r = Some q"
    using assms(1) by (auto simp: do_interrupt_def bind_eq_Some_conv)
  let ?f = "set_req r (q\<lparr>u_unique := u\<rparr>) f"
  obtain found f1 where fi: "find_interrupted ops u ?f = Some (found, f1)"
    and f': "f' = (if found then destroy_req r f1 else f1\<lparr>interrupts := interrupts f1 @ [r]\<rparr>)"
    using assms(1) u q by (auto simp: do_interrupt_def bind_eq_Some_conv)
  have inv: "ll_inv (pins(r := 1)) ?f" by (rule set_req_inv [OF assms(2) q]) simp
  have step: "good_step (pins(r := 1)) ?f f1" by (rule find_interrupted_inv [OF fi inv])
  then have new: "\<not> listed f1 r" using assms(3) by (auto simp: good_step_def listed_def set_req_def)
  show ?thesis
  proof (cases found)
    case True
    have "ll_inv pins (destroy_req r f1)"
      using new assms(4) ll_inv_distinct [OF good_step_inv [OF step]]
      by (intro ll_inv_change [OF good_step_inv [OF step], where r = r])
        (auto simp: destroy_req_def listed_def req_ok_def holders_def)
    then show ?thesis using f' True by simp
  next
    case False
    then show ?thesis using f' list_add_inv(2) [OF good_step_inv [OF step] new assms(4)] by simp
  qed
qed

lemma cuse_init_answers: "answers r (cuse_lowlevel_init ops r ino arg)"
  by (rule cuse_answers)

lemma table_answers:
  "fuse_ll_ops opc = Some h \<Longrightarrow> opc \<noteq> FUSE_INTERRUPT \<Longrightarrow> answers r (h ops r ino arg)"
  unfolding fuse_ll_ops_def
  by (auto simp: handlers_answer destroy_answers init_answers cuse_answers split: if_splits)

lemma process_inv:
  assumes "fuse_ll_process ops buf ch f = Some f'" "ll_inv pins f"
  shows "ll_inv pins f'"
proof -
  obtain h where h: "header_of buf = Some h" using process_header [OF assms(1)] by blast
  let ?r = "fresh_req f" and ?f = "with_req h ch f"
  have inv: "ll_inv (pins(?r := 1)) ?f" by (rule with_req_inv [OF assms(2)])
  have new: "\<not> listed ?f ?r" "pins ?r = 0" using ll_inv_fresh [OF assms(2)] by (simp_all add: listed_def)
  note p = assms(1) [unfolded process_cases [OF h]]
  show ?thesis
  proof (cases "fst (alloc (ll_mem f))")
    case False
    then show ?thesis using p good_step_inv [OF good_step_same [OF assms(2)]] by auto
  next
    case ok: True
    show ?thesis
    proof (cases "ll_reject f (unat (inh_opcode h)) (inh_uid h)")
      case (Some err)
      obtain f1 where "reply_err ?r err ?f = Some f1" "ll_inv (pins(?r := 0)) f1"
        using reply_err_pinned [OF inv new(1)] by blast
      then show ?thesis using p ok Some new(2) by (auto simp: fun_upd_idem)
    next
      case None
      then obtain g :: "'u handler" where g: "fuse_ll_ops (unat (inh_opcode h)) = Some g"
        using p ok by (auto simp: bind_eq_Some_conv)
      show ?thesis
      proof (cases "unat (inh_opcode h) = FUSE_INTERRUPT")
        case True
        then have "do_interrupt ops ?r (inh_nodeid h) (drop 40 buf) ?f = Some f'"
          using p ok None g by (simp add: fuse_ll_ops_def)
        then show ?thesis by (rule do_interrupt_inv [OF _ inv new])
      next
        case False
        obtain f1 where f1: "enlist ?r ?f = Some f1" "ll_inv pins f1" "?r \<in> set (req_list f1)"
          using enlist_inv [OF inv new] by blast
        then have "g ops ?r (inh_nodeid h) (drop 40 buf) f1 = Some f'" using p ok None False g by simp
        then show ?thesis using answersD [OF table_answers [OF g False]] f1 good_step_inv by blast
      qed
    qed
  qed
qed

end

subsection \<open>Requests are answered later, in any order\<close>

text \<open>
  A file system may keep a request and answer it whenever it likes. \<open>later_ops\<close> are operations that
  only keep it; the answers are steps of their own, so that \<open>ll_reach\<close> has every order in which the
  messages of the kernel and the answers of a file system can come. An interrupt function either does nothing or answers the
  request: \<open>act\<close> says which, and with what.
\<close>

definition on_interrupt :: "(int \<times> cbuf list) option \<Rightarrow> nat \<Rightarrow> 'u ll_fun" where
  "on_interrupt act r f = (case act of None \<Rightarrow> Some f | Some (err, iov) \<Rightarrow> map_option snd (send_reply_iov r err iov f))"

definition later_ops :: "(nat \<Rightarrow> (int \<times> cbuf list) option) \<Rightarrow> 'u fuse_lowlevel_ops" where
  "later_ops act = \<lparr>ll_init = Some Some, ll_destroy = Some Some,
     ll_lookup = Some (\<lambda>r i n. Some),
     ll_forget = Some (\<lambda>r i nl. Some),
     ll_getattr = Some (\<lambda>r i fip. Some),
     ll_setattr = Some (\<lambda>r i st v fip. Some),
     ll_readlink = Some (\<lambda>r i. Some),
     ll_mknod = Some (\<lambda>r i n md rd. Some),
     ll_mkdir = Some (\<lambda>r i n md. Some),
     ll_unlink = Some (\<lambda>r i n. Some),
     ll_rmdir = Some (\<lambda>r i n. Some),
     ll_symlink = Some (\<lambda>r l i n. Some),
     ll_rename = Some (\<lambda>r i n j n'. Some),
     ll_link = Some (\<lambda>r i j n. Some),
     ll_open = Some (\<lambda>r i fi. Some),
     ll_read = Some (\<lambda>r i sz off fi. Some),
     ll_write = Some (\<lambda>r i b sz off fi. Some),
     ll_flush = Some (\<lambda>r i fi. Some),
     ll_release = Some (\<lambda>r i fi. Some),
     ll_fsync = Some (\<lambda>r i ds fi. Some),
     ll_opendir = Some (\<lambda>r i fi. Some),
     ll_readdir = Some (\<lambda>r i sz off fi. Some),
     ll_releasedir = Some (\<lambda>r i fi. Some),
     ll_fsyncdir = Some (\<lambda>r i ds fi. Some),
     ll_statfs = Some (\<lambda>r i. Some),
     ll_setxattr = Some (\<lambda>r i n val sz fl. Some),
     ll_getxattr = Some (\<lambda>r i n sz. Some),
     ll_listxattr = Some (\<lambda>r i sz. Some),
     ll_removexattr = Some (\<lambda>r i n. Some),
     ll_access = Some (\<lambda>r i msk. Some),
     ll_create = Some (\<lambda>r i n md fi. Some),
     ll_getlk = Some (\<lambda>r i fi lk. Some),
     ll_setlk = Some (\<lambda>r i fi lk slp. Some),
     ll_bmap = Some (\<lambda>r i bs blk. Some),
     ll_ioctl = Some (\<lambda>r i cmd ioarg fi iofl ib isz osz. Some),
     ll_poll = Some (\<lambda>r i fi ph. Some),
     cuse_lowlevel_init = (\<lambda>r ino arg. Some), interrupt_func = (\<lambda>k. on_interrupt (act k))\<rparr>"

abbreviation keep_ops :: "'u fuse_lowlevel_ops" where
  "keep_ops \<equiv> later_ops (\<lambda>_. None)"

lemma answers_keep: "answers r Some" "leaves Some"
  by (simp_all add: answers_def leaves_def good_step_def)

lemma on_interrupt_answers: "answers r (on_interrupt act r)"
proof (cases act)
  case None
  then have "on_interrupt act r = (Some :: 'a ll_fun)" by (simp add: on_interrupt_def fun_eq_iff)
  then show ?thesis using answers_keep(1) by metis
next
  case (Some a)
  then have "on_interrupt act r = (\<lambda>f :: 'a fuse_ll. map_option snd (send_reply_iov r (fst a) (snd a) f))"
    by (simp add: on_interrupt_def fun_eq_iff split_beta)
  then show ?thesis using answers_reply by metis
qed

interpretation later: ll_file_system "later_ops act" for act
  by unfold_locales (auto simp: later_ops_def answers_keep on_interrupt_answers)

inductive ll_reach :: "'u fuse_ll \<Rightarrow> bool" where
  start: "fuse_lowlevel_new_common m args op op_size ud uid bufsize = Some (Some (f, ops), args') \<Longrightarrow> ll_reach f"
| message: "ll_reach f \<Longrightarrow> fuse_ll_process (later_ops act) buf ch f = Some f' \<Longrightarrow> ll_reach f'"
| reply: "ll_reach f \<Longrightarrow> r \<in> set (req_list f) \<Longrightarrow> send_reply_iov r err iov f = Some (res, f') \<Longrightarrow> ll_reach f'"
| no_reply: "ll_reach f \<Longrightarrow> r \<in> set (req_list f) \<Longrightarrow> fuse_reply_none r f = Some f' \<Longrightarrow> ll_reach f'"
| interruptible: "ll_reach f \<Longrightarrow> r \<in> set (req_list f) \<Longrightarrow> fuse_req_interrupt_func (interrupt_func (later_ops act)) r func f = Some f' \<Longrightarrow> ll_reach f'"

lemma ll_inv_new:
  assumes "fuse_lowlevel_new_common m args op op_size ud uid bufsize = Some (Some (f, ops), args')"
  shows "ll_inv (\<lambda>_. 0) f"
proof -
  have "reqs f = (\<lambda>_. None) \<and> req_list f = [] \<and> interrupts f = []"
    using assms by (auto simp: fuse_lowlevel_new_common_def bind_eq_Some_conv Let_def split: prod.splits if_splits)
  then show ?thesis by (simp add: ll_inv_def req_ok_def holders_def listed_def)
qed

lemma interrupt_func_inv:
  assumes "fuse_req_interrupt_func (interrupt_func (later_ops act)) r func f = Some f'" "ll_inv pins f" "r \<in> set (req_list f)"
  shows "ll_inv pins f'"
proof -
  obtain q where q: "reqs f r = Some q" using assms(1) by (cases "reqs f r") (simp_all add: fuse_req_interrupt_func_def)
  let ?f = "set_req r (q\<lparr>u_func := func\<rparr>) f"
  have inv: "ll_inv pins ?f" using set_req_inv [OF assms(2) q] by simp
  have r: "r \<in> set (req_list ?f)" using assms(3) by (simp add: set_req_def)
  have "f' = ?f \<or> (\<exists>k. interrupt_func (later_ops act) k r ?f = Some f')"
    using assms(1) q by (auto simp: fuse_req_interrupt_func_def Let_def split: option.splits if_splits)
  then show ?thesis using inv answersD [OF later.interrupt_answers _ inv r] good_step_inv by blast
qed

lemma ll_reach_inv: "ll_reach f \<Longrightarrow> ll_inv (\<lambda>_. 0) f"
proof (induction rule: ll_reach.induct)
  case (reply f r err iov res f')
  then show ?case using reply_inv [of "\<lambda>_. 0" f r] by (simp add: listed_def)
next
  case (no_reply f r f')
  then show ?case using answersD [OF answers_none] good_step_inv by blast
qed (auto intro: ll_inv_new later.process_inv interrupt_func_inv)

text \<open>
  C5: in every state the library can reach, whatever messages arrive and in whatever order the file
  system answers, the requests that are allocated are exactly the ones on its two lists, each of
  them once and held once: none is lost, none is freed while the library can still use it, and
  every request on the list of a file system can be answered, which frees it.
\<close>

theorem requests_accounted:
  assumes "ll_reach f"
  shows "distinct (req_list f @ interrupts f) \<and>
     (\<forall>r. (reqs f r \<noteq> None) = (r \<in> set (req_list f @ interrupts f))) \<and>
     (\<forall>r q. reqs f r = Some q \<longrightarrow> req_ctr q = 1) \<and>
     (\<forall>r \<in> set (req_list f). \<forall>err iov. \<exists>res f'. send_reply_iov r err iov f = Some (res, f') \<and>
        ll_reach f' \<and> reqs f' = (reqs f)(r := None) \<and> req_list f' = removeAll r (req_list f))"
proof -
  note inv = ll_reach_inv [OF assms]
  have one: "reqs f r = Some q \<Longrightarrow> req_ctr q = 1" for r q
    using ll_inv_count [OF inv, of r q] by (auto simp: holders_def split: if_splits)
  have live: "(reqs f r \<noteq> None) = (r \<in> set (req_list f @ interrupts f))" for r
    using ll_inv_req [OF inv, of r] by (auto simp: req_ok_def holders_def listed_def split: if_splits)
  have "\<exists>res f'. send_reply_iov r err iov f = Some (res, f') \<and> ll_reach f' \<and> reqs f' = (reqs f)(r := None) \<and>
      req_list f' = removeAll r (req_list f)" if r: "r \<in> set (req_list f)" for r err iov
  proof -
    obtain q where q: "reqs f r = Some q" using live [of r] r by auto
    obtain res where s: "send_reply_iov r err iov f = Some (res, replied r q (reply_message q err iov) f)"
      using send_reply_iov_replied [OF q] by blast
    show ?thesis using s ll_reach.reply [OF assms r s] one [OF q] by (auto simp: replied_def)
  qed
  then show ?thesis using ll_inv_distinct [OF inv] one live by blast
qed


subsection \<open>The negotiation\<close>

lemma and_bit_if: "(if w AND 2 ^ k \<noteq> 0 then 2 ^ k else 0) = w AND 2 ^ k" for w :: u32
  by (rule bit_eqI) (auto simp: bit_simps and_exp_eq_0_iff_not_bit)

lemma and_bits_if:
  "(if w AND 1 \<noteq> 0 then 1 else 0) = w AND 1" "(if w AND 2 \<noteq> 0 then 2 else 0) = w AND 2"
  "(if w AND 8 \<noteq> 0 then 8 else 0) = w AND 8" "(if w AND 16 \<noteq> 0 then 16 else 0) = w AND 16"
  "(if w AND 32 \<noteq> 0 then 32 else 0) = w AND 32" "(if w AND 64 \<noteq> 0 then 64 else 0) = w AND 64" for w :: u32
  using and_bit_if [of w 0] and_bit_if [of w 1] and_bit_if [of w 3] and_bit_if [of w 4]
    and_bit_if [of w 5] and_bit_if [of w 6]
  by (simp_all split: if_splits)

lemma capable_bits: "capable_bits flags = flags AND 0x7b"
proof -
  have "capable_bits flags = flags AND (1 OR 2 OR 8 OR 16 OR 32 OR 64)"
    unfolding capable_bits_def and_bits_if by (simp only: bit.conj_disj_distrib)
  then show ?thesis by simp
qed

lemma put_init_out_nonempty: "put_fuse_init_out out \<noteq> []"
  using length_put_fuse_init_out [of out] by (metis list.size(3) zero_neq_numeral)

lemma init_conn_spec:
  assumes "6 \<le> init_in_minor a"
  shows "init_conn (init_in_minor a) (put_fuse_init_in a) c = Some (c\<lparr>
     async_read := (if async_read c \<noteq> 0 then init_in_flags a AND 1 else 0),
     max_readahead := min (max_readahead c) (init_in_max_readahead a),
     capable := capable c OR init_in_flags a AND 0x7b\<rparr>)"
  using assms by (auto simp: init_conn_def capable_bits min_def Let_def)

text \<open>The flags of the reply, from what the file system wants.\<close>

lemma negotiated_bits:
  "(negotiated_flags c AND 1 \<noteq> 0) = (async_read c \<noteq> 0 \<or> want c AND 1 \<noteq> 0)" "(negotiated_flags c AND 2 \<noteq> 0) = (want c AND 2 \<noteq> 0)"
  "(negotiated_flags c AND 8 \<noteq> 0) = (want c AND 8 \<noteq> 0)" "(negotiated_flags c AND 16 \<noteq> 0) = (want c AND 16 \<noteq> 0)"
  "(negotiated_flags c AND 32 \<noteq> 0) = (want c AND 32 \<noteq> 0)" "(negotiated_flags c AND 64 \<noteq> 0) = (want c AND 64 \<noteq> 0)"
  "negotiated_flags c AND NOT 0x7b = 0"
  by (cases "async_read c \<noteq> 0 \<or> want c AND 1 \<noteq> 0"; cases "want c AND 2 = 0"; cases "want c AND 8 = 0"; cases "want c AND 16 = 0";
      cases "want c AND 32 = 0"; cases "want c AND 64 = 0"; simp add: negotiated_flags_def)+

text \<open>What is negotiated before the file system is asked: the limits of both sides, what the kernel offers of what the library knows (nothing before version 7.6), and what is configured.\<close>

definition offered :: "'u fuse_lowlevel_ops \<Rightarrow> fuse_init_in \<Rightarrow> 'u fuse_ll \<Rightarrow> fuse_conn_info \<Rightarrow> bool" where
  "offered ops a f c \<longleftrightarrow> proto_major c = 7 \<and> proto_minor c = init_in_minor a \<and>
     max_readahead c = (if 6 \<le> init_in_minor a then min (max_readahead (conn f)) (init_in_max_readahead a) else 0) \<and>
     unat (max_write c) = min (unat (max_write (conn f))) (max 8192 (chan_bufsize f) - 4096) \<and>
     capable c = (if 6 \<le> init_in_minor a then init_in_flags a AND 0x7b else 0) \<and>
     (async_read c \<noteq> 0 \<longleftrightarrow> async_read (conn f) \<noteq> 0 \<and> 6 \<le> init_in_minor a \<and> init_in_flags a AND 1 \<noteq> 0) \<and>
     want c = (if atomic_o_trunc f then 8 else 0) OR
       (if ll_getlk ops \<noteq> None \<and> ll_setlk ops \<noteq> None \<and> \<not> no_remote_lock f then 2 else 0) OR (if big_writes f then 32 else 0)"

definition init_op :: "'u fuse_lowlevel_ops \<Rightarrow> 'u ll_fun" where
  "init_op ops f = (case ll_init ops of Some g \<Rightarrow> g f | None \<Rightarrow> Some f)"

text \<open>The state in which the file system is asked.\<close>

lemma init_offers:
  assumes "reqs f r = Some q" "init_in_major a = 7"
  shows "\<exists>c. offered ops a f c \<and> do_init ops r ino (put_fuse_init_in a) f = do {
      f \<leftarrow> init_op ops (f\<lparr>conn := c, got_init := True\<rparr>);
      map_option snd (send_reply_ok r (take (if init_in_minor a < 5 then 8 else 24) (put_fuse_init_out \<lparr>init_out_major = 7, init_out_minor = 12,
        init_out_max_readahead = max_readahead (conn f), init_out_flags = negotiated_flags (conn f), init_out_max_write = max_write (conn f)\<rparr>)) f)
    }"
proof -
  define lim where "lim = max 8192 (chan_bufsize f) - 4096"
  let ?C = "(conn f)\<lparr>proto_major := 7, proto_minor := init_in_minor a, capable := 0, want := 0\<rparr>"
  define c1 where "c1 = (if 6 \<le> init_in_minor a then ?C\<lparr>async_read := (if async_read (conn f) \<noteq> 0 then init_in_flags a AND 1 else 0),
      max_readahead := min (max_readahead (conn f)) (init_in_max_readahead a), capable := init_in_flags a AND 0x7b\<rparr>
    else ?C\<lparr>async_read := 0, max_readahead := 0\<rparr>)"
  define c0 where "c0 = init_want ops (f\<lparr>conn := ?C\<rparr>) c1"
  define c where "c = (if lim < unat (max_write c0) then c0\<lparr>max_write := word_of_nat lim\<rparr> else c0)"
  have lim: "(if chan_bufsize f < 8192 then 8192 else chan_bufsize f) - 4096 = lim" by (simp add: lim_def max_def)
  have ic: "init_conn (init_in_minor a) (put_fuse_init_in a) ?C = Some c1"
    by (cases "6 \<le> init_in_minor a") (simp_all add: init_conn_spec c1_def, simp add: init_conn_def)
  have iw: "init_want ops (f\<lparr>conn := ?C\<rparr>) c1 = c0" by (simp add: c0_def)
  have mw0: "max_write c0 = max_write (conn f)" by (simp add: c0_def c1_def init_want_def)
  have mw: "unat (max_write c) = min (unat (max_write (conn f))) lim"
  proof (cases "lim < unat (max_write c0)")
    case True
    then have "lim < 2 ^ 32" using unsigned_less [of "max_write c0"] order_less_trans by fastforce
    then show ?thesis using True unat_word_of_nat32 [of lim] mw0 by (simp add: c_def min_def)
  qed (simp add: c_def mw0 min_def)
  have "offered ops a f c"
    using mw unfolding offered_def lim_def [symmetric] by (auto simp: c_def c0_def c1_def init_want_def)
  moreover have "do_init ops r ino (put_fuse_init_in a) f = do {
      f \<leftarrow> init_op ops (f\<lparr>conn := c, got_init := True\<rparr>);
      map_option snd (send_reply_ok r (take (if init_in_minor a < 5 then 8 else 24) (put_fuse_init_out \<lparr>init_out_major = 7, init_out_minor = 12,
        init_out_max_readahead = max_readahead (conn f), init_out_flags = negotiated_flags (conn f), init_out_max_write = max_write (conn f)\<rparr>)) f)
    }"
    using assms ic iw unfolding do_init_def Let_def lim init_op_def
    by (simp add: c_def [symmetric] split del: if_split cong: if_cong option.case_cong)
  ultimately show ?thesis by blast
qed

lemma init_other_version:
  assumes "reqs f r = Some q" "init_in_major a \<noteq> 7"
  shows "\<exists>f'. do_init ops r ino (put_fuse_init_in a) f = Some f' \<and> got_init f' = got_init f \<and>
       sent f' = sent f @ [(req_ch q, if init_in_major a < 7 then reply_message q (- EPROTO) []
         else reply_message q 0 [put_fuse_init_out \<lparr>init_out_major = 7, init_out_minor = 12,
           init_out_max_readahead = 0, init_out_flags = 0, init_out_max_write = 0\<rparr>])]"
proof -
  let ?c = "(conn f)\<lparr>proto_major := init_in_major a, proto_minor := init_in_minor a, capable := 0, want := 0\<rparr>"
  let ?out = "\<lparr>init_out_major = 7, init_out_minor = 12, init_out_max_readahead = 0, init_out_flags = 0, init_out_max_write = 0\<rparr>"
  have q': "reqs (f\<lparr>conn := ?c\<rparr>) r = Some q" using assms(1) by simp
  show ?thesis
  proof (cases "init_in_major a < 7")
    case True
    then show ?thesis using reply_err_replied [OF q', of EPROTO] assms(1)
      by (auto simp: do_init_def replied_def)
  next
    case False
    then have "7 < init_in_major a" using assms(2) by simp
    moreover obtain res where "send_reply_ok r (put_fuse_init_out ?out) (f\<lparr>conn := ?c\<rparr>) =
        Some (res, replied r q (reply_message q 0 [put_fuse_init_out ?out]) (f\<lparr>conn := ?c\<rparr>))"
      using send_reply_ok_replied [OF q', of "put_fuse_init_out ?out"] by (auto simp: put_init_out_nonempty)
    ultimately show ?thesis using False assms(1) by (auto simp: do_init_def replied_def)
  qed
qed

text \<open>
  C28: on an INIT request of the same major version the file system's \<open>init\<close>, if it has one, is called on a connection within the limits of
  both sides: the readahead is the smaller one, a write with its header of at most 4096 bytes fits the
  channel's buffer, the capabilities are the ones the kernel offers that the library knows (none, and no readahead, before version 7.6), and wanted is what is configured
  and supported. Whatever \<open>init\<close> then makes of the connection, as long as it leaves the request alone, the reply (version 7.12, cut to 8 bytes for kernels before 7.5)
  carries the limits it left and asks for exactly the features it wants, and for no other bit. A kernel with an older major
  version gets EPROTO (\<open>fuse_kernel.h\<close> has the library fall back to it instead), one with a newer version gets 7.12 back and may try again; neither
  initialises the connection.
\<close>

theorem init_negotiation:
  assumes "reqs f r = Some q"
  shows "(init_in_major a = 7 \<longrightarrow> (\<exists>c. offered ops a f c \<and>
       (\<forall>f2 q2. init_op ops (f\<lparr>conn := c, got_init := True\<rparr>) = Some f2 \<and> reqs f2 r = Some q2 \<longrightarrow> (\<exists>f' out.
         do_init ops r ino (put_fuse_init_in a) f = Some f' \<and> got_init f' = got_init f2 \<and> conn f' = conn f2 \<and>
         sent f' = sent f2 @ [(req_ch q2, reply_message q2 0 [take (if init_in_minor a < 5 then 8 else 24) (put_fuse_init_out out)])] \<and>
         init_out_major out = 7 \<and> init_out_minor out = 12 \<and>
         init_out_max_readahead out = max_readahead (conn f2) \<and> init_out_max_write out = max_write (conn f2) \<and>
         (init_out_flags out AND 1 \<noteq> 0) = (async_read (conn f2) \<noteq> 0 \<or> want (conn f2) AND 1 \<noteq> 0) \<and>
         (init_out_flags out AND 2 \<noteq> 0) = (want (conn f2) AND 2 \<noteq> 0) \<and> (init_out_flags out AND 8 \<noteq> 0) = (want (conn f2) AND 8 \<noteq> 0) \<and>
         (init_out_flags out AND 16 \<noteq> 0) = (want (conn f2) AND 16 \<noteq> 0) \<and> (init_out_flags out AND 32 \<noteq> 0) = (want (conn f2) AND 32 \<noteq> 0) \<and>
         (init_out_flags out AND 64 \<noteq> 0) = (want (conn f2) AND 64 \<noteq> 0) \<and> init_out_flags out AND NOT 0x7b = 0)))) \<and>
     (init_in_major a \<noteq> 7 \<longrightarrow> (\<exists>f'. do_init ops r ino (put_fuse_init_in a) f = Some f' \<and> got_init f' = got_init f \<and>
       sent f' = sent f @ [(req_ch q, if init_in_major a < 7 then reply_message q (- EPROTO) []
         else reply_message q 0 [put_fuse_init_out \<lparr>init_out_major = 7, init_out_minor = 12,
           init_out_max_readahead = 0, init_out_flags = 0, init_out_max_write = 0\<rparr>])]))"
proof (intro conjI impI)
  assume "init_in_major a = 7"
  then obtain c where c: "offered ops a f c" "do_init ops r ino (put_fuse_init_in a) f = do {
      f \<leftarrow> init_op ops (f\<lparr>conn := c, got_init := True\<rparr>);
      map_option snd (send_reply_ok r (take (if init_in_minor a < 5 then 8 else 24) (put_fuse_init_out \<lparr>init_out_major = 7, init_out_minor = 12,
        init_out_max_readahead = max_readahead (conn f), init_out_flags = negotiated_flags (conn f), init_out_max_write = max_write (conn f)\<rparr>)) f)
    }"
    using init_offers [OF assms] by blast
  show "\<exists>c. offered ops a f c \<and>
       (\<forall>f2 q2. init_op ops (f\<lparr>conn := c, got_init := True\<rparr>) = Some f2 \<and> reqs f2 r = Some q2 \<longrightarrow> (\<exists>f' out.
         do_init ops r ino (put_fuse_init_in a) f = Some f' \<and> got_init f' = got_init f2 \<and> conn f' = conn f2 \<and>
         sent f' = sent f2 @ [(req_ch q2, reply_message q2 0 [take (if init_in_minor a < 5 then 8 else 24) (put_fuse_init_out out)])] \<and>
         init_out_major out = 7 \<and> init_out_minor out = 12 \<and>
         init_out_max_readahead out = max_readahead (conn f2) \<and> init_out_max_write out = max_write (conn f2) \<and>
         (init_out_flags out AND 1 \<noteq> 0) = (async_read (conn f2) \<noteq> 0 \<or> want (conn f2) AND 1 \<noteq> 0) \<and>
         (init_out_flags out AND 2 \<noteq> 0) = (want (conn f2) AND 2 \<noteq> 0) \<and> (init_out_flags out AND 8 \<noteq> 0) = (want (conn f2) AND 8 \<noteq> 0) \<and>
         (init_out_flags out AND 16 \<noteq> 0) = (want (conn f2) AND 16 \<noteq> 0) \<and> (init_out_flags out AND 32 \<noteq> 0) = (want (conn f2) AND 32 \<noteq> 0) \<and>
         (init_out_flags out AND 64 \<noteq> 0) = (want (conn f2) AND 64 \<noteq> 0) \<and> init_out_flags out AND NOT 0x7b = 0))"
  proof (intro exI [of _ c] conjI allI impI c(1), elim conjE)
    fix f2 q2 assume f2: "init_op ops (f\<lparr>conn := c, got_init := True\<rparr>) = Some f2" and q2: "reqs f2 r = Some q2"
    define out where "out = \<lparr>init_out_major = 7, init_out_minor = 12, init_out_max_readahead = max_readahead (conn f2),
      init_out_flags = negotiated_flags (conn f2), init_out_max_write = max_write (conn f2)\<rparr>"
    let ?b = "take (if init_in_minor a < 5 then 8 else 24) (put_fuse_init_out out)"
    have "?b \<noteq> []" using put_init_out_nonempty [of out] by simp
    then obtain res where "send_reply_ok r ?b f2 = Some (res, replied r q2 (reply_message q2 0 [?b]) f2)"
      using send_reply_ok_replied [OF q2, of ?b] by auto
    then have "do_init ops r ino (put_fuse_init_in a) f = Some (replied r q2 (reply_message q2 0 [?b]) f2)"
      unfolding c(2) f2 by (simp add: out_def)
    then show "\<exists>f' out.
         do_init ops r ino (put_fuse_init_in a) f = Some f' \<and> got_init f' = got_init f2 \<and> conn f' = conn f2 \<and>
         sent f' = sent f2 @ [(req_ch q2, reply_message q2 0 [take (if init_in_minor a < 5 then 8 else 24) (put_fuse_init_out out)])] \<and>
         init_out_major out = 7 \<and> init_out_minor out = 12 \<and>
         init_out_max_readahead out = max_readahead (conn f2) \<and> init_out_max_write out = max_write (conn f2) \<and>
         (init_out_flags out AND 1 \<noteq> 0) = (async_read (conn f2) \<noteq> 0 \<or> want (conn f2) AND 1 \<noteq> 0) \<and>
         (init_out_flags out AND 2 \<noteq> 0) = (want (conn f2) AND 2 \<noteq> 0) \<and> (init_out_flags out AND 8 \<noteq> 0) = (want (conn f2) AND 8 \<noteq> 0) \<and>
         (init_out_flags out AND 16 \<noteq> 0) = (want (conn f2) AND 16 \<noteq> 0) \<and> (init_out_flags out AND 32 \<noteq> 0) = (want (conn f2) AND 32 \<noteq> 0) \<and>
         (init_out_flags out AND 64 \<noteq> 0) = (want (conn f2) AND 64 \<noteq> 0) \<and> init_out_flags out AND NOT 0x7b = 0"
      using negotiated_bits [of "conn f2"]
      by (intro exI [of _ "replied r q2 (reply_message q2 0 [?b]) f2"] exI [of _ out]) (auto simp: replied_def out_def)
  qed
qed (rule init_other_version [OF assms])

subsection \<open>Interrupts\<close>

text \<open>A connection in normal use, and a message for one of the handlers other than INTERRUPT.\<close>

definition in_use :: "'u fuse_ll \<Rightarrow> bool" where
  "in_use f \<longleftrightarrow> got_init f \<and> \<not> allow_root f \<and> ll_mem f = []"

definition plain_opcode :: "nat \<Rightarrow> bool" where
  "plain_opcode opc \<longleftrightarrow> opc \<in> {1, 2, 3, 4, 5, 6, 8, 9, 10, 11, 12, 13, 14, 15, 16, 17, 18, 20, 21, 22, 23, 24, 25, 27, 28, 29, 30,
     31, 32, 33, 34, 35, 37, 38, 39, 40}"

definition interrupt_msg :: "fuse_in_header \<Rightarrow> u64 \<Rightarrow> cbuf" where
  "interrupt_msg h u = put_fuse_in_header h @ put_fuse_interrupt_in \<lparr>interrupt_in_unique = u\<rparr>"

lemma plain_known: "plain_opcode opc \<Longrightarrow> \<exists>g. fuse_ll_ops opc = Some g" "plain_opcode opc \<Longrightarrow> opc \<noteq> FUSE_INTERRUPT"
  by (auto simp: plain_opcode_def fuse_ll_ops_def)

lemma in_use_reject:
  assumes "in_use f" "plain_opcode opc \<or> opc = FUSE_INTERRUPT"
  shows "ll_reject f opc uid = None"
  using assms by (auto simp: plain_opcode_def ll_reject_def in_use_def fuse_ll_ops_def)

text \<open>A message that none of the gates refuses, of a kind the library knows.\<close>

definition accepted :: "'u fuse_ll \<Rightarrow> fuse_in_header \<Rightarrow> bool" where
  "accepted f h \<longleftrightarrow> ll_reject f (unat (inh_opcode h)) (inh_uid h) = None"

lemma accepted_cong:
  fixes f f' :: "'u fuse_ll"
  shows "got_init f' = got_init f \<Longrightarrow> allow_root f' = allow_root f \<Longrightarrow> owner f' = owner f \<Longrightarrow> cuse_data f' = cuse_data f \<Longrightarrow> accepted f' h = accepted f h"
  by (simp add: accepted_def ll_reject_def)

lemma accepted_known: "accepted (f :: 'u fuse_ll) h \<Longrightarrow> \<exists>g :: 'u handler. fuse_ll_ops (unat (inh_opcode h)) = Some g"
  by (auto simp: accepted_def ll_reject_def Option.is_none_def split: if_splits)

text \<open>What an interrupt makes of a request: marked as interrupted, or answered by its interrupt function.\<close>

definition reaction :: "(nat \<Rightarrow> (int \<times> cbuf list) option) \<Rightarrow> fuse_req \<Rightarrow> (int \<times> cbuf list) option" where
  "reaction act q = Option.bind (u_func q) act"

definition interrupted_req :: "(nat \<Rightarrow> (int \<times> cbuf list) option) \<Rightarrow> nat \<Rightarrow> fuse_req \<Rightarrow> 'u fuse_ll \<Rightarrow> 'u fuse_ll" where
  "interrupted_req act c q f =
     (case reaction act q of
        None \<Rightarrow> set_req c (q\<lparr>interrupted := True\<rparr>) f
      | Some (err, iov) \<Rightarrow> f\<lparr>send_results := tl (send_results f), sent := sent f @ [(req_ch q, reply_message q err iov)],
          req_list := removeAll c (req_list f), interrupts := removeAll c (interrupts f), reqs := (reqs f)(c := None)\<rparr>)"

lemma find_interrupted_hit:
  assumes inv: "ll_inv pins f" "pins c = 0" and c: "c \<in> set (req_list f)" "reqs f c = Some q" "unique q = u"
    and only: "\<And>c' q'. c' \<in> set (req_list f) \<Longrightarrow> reqs f c' = Some q' \<Longrightarrow> unique q' = u \<Longrightarrow> c' = c"
  shows "find_interrupted (later_ops act) u f = Some (True, interrupted_req act c q f)"
proof -
  have find: "find (\<lambda>c. case reqs f c of Some q \<Rightarrow> unique q = u | None \<Rightarrow> False) (req_list f) = Some c"
  proof (rule find_unique)
    show "case reqs f c of Some q \<Rightarrow> unique q = u | None \<Rightarrow> False" using c(2,3) by simp
    show "y = c" if "y \<in> set (req_list f)" "case reqs f y of Some q \<Rightarrow> unique q = u | None \<Rightarrow> False" for y
      using that only [of y] by (cases "reqs f y") simp_all
  qed (rule c(1))
  have one: "req_ctr q = 1" using ll_inv_count [OF inv(1) c(2)] inv(2) c(1) ll_inv_distinct [OF inv(1)] by (auto simp: holders_def listed_def)
  let ?q = "q\<lparr>req_ctr := 2, interrupted := True\<rparr>"
  have at: "reqs (set_req c ?q f) c = Some ?q" by (simp add: set_req_def)
  show ?thesis
  proof (cases "reaction act q")
    case None
    then show ?thesis using find c(2) one
      by (cases q, cases "u_func q") (simp_all add: find_interrupted_def interrupted_req_def reaction_def later_ops_def on_interrupt_def set_req_def Let_def)
  next
    case (Some a)
    obtain err iov where a: "a = (err, iov)" by (cases a)
    obtain k where k: "u_func q = Some k" "act k = Some (err, iov)" using Some a by (auto simp: reaction_def Option.bind_eq_Some_conv)
    have m: "reply_message ?q err iov = reply_message q err iov" by (simp add: reply_message_def)
    obtain res where "send_reply_iov c err iov (set_req c ?q f) = Some (res, replied c ?q (reply_message q err iov) (set_req c ?q f))"
      using send_reply_iov_replied [OF at, of err iov] m by auto
    then have "interrupt_func (later_ops act) k c (set_req c ?q f) = Some (replied c ?q (reply_message q err iov) (set_req c ?q f))"
      using k by (simp add: later_ops_def on_interrupt_def)
    then show ?thesis using find c(2) one k Some a
      by (simp add: find_interrupted_def interrupted_req_def replied_def set_req_def destroy_req_def Let_def)
  qed
qed

lemma find_interrupted_miss:
  assumes "\<And>c q. reqs f c = Some q \<Longrightarrow> c \<in> set (req_list f) \<Longrightarrow> unique q \<noteq> u"
    "\<And>c q. reqs f c = Some q \<Longrightarrow> c \<in> set (interrupts f) \<Longrightarrow> u_unique q \<noteq> u"
  shows "find_interrupted ops u f = Some (False, f)"
proof -
  have "find (\<lambda>c. case reqs f c of Some q \<Rightarrow> unique q = u | None \<Rightarrow> False) (req_list f) = None"
    "find (\<lambda>c. case reqs f c of Some q \<Rightarrow> u_unique q = u | None \<Rightarrow> False) (interrupts f) = None"
    using assms by (auto simp: find_None_iff_set split: option.splits)
  then show ?thesis by (simp add: find_interrupted_def)
qed

lemma check_interrupt_hit:
  assumes "reqs f r = Some q"
    and "find (\<lambda>c. case reqs f c of Some qc \<Rightarrow> u_unique qc = unique q | None \<Rightarrow> False) (interrupts f) = Some c"
  shows "check_interrupt r f = Some (None, destroy_req c (list_del_req c (set_req r (q\<lparr>interrupted := True\<rparr>) f)))"
  using assms by (simp add: check_interrupt_def)

lemma check_interrupt_miss:
  assumes "reqs f r = Some q"
    and "find (\<lambda>c. case reqs f c of Some qc \<Rightarrow> u_unique qc = unique q | None \<Rightarrow> False) (interrupts f) = None" "interrupts f = i # ri"
  shows "check_interrupt r f = Some (Some i, list_del_req i f)"
  by (simp only: check_interrupt_def assms(1,2) Option.bind.simps option.case) (simp add: assms(3))

text \<open>What reading an INTERRUPT message does before it looks for its request.\<close>

definition intr_read :: "fuse_in_header \<Rightarrow> nat \<Rightarrow> u64 \<Rightarrow> 'u fuse_ll \<Rightarrow> 'u fuse_ll" where
  "intr_read hi ch u f = set_req (fresh_req f) ((msg_req hi ch)\<lparr>u_unique := u\<rparr>) (with_req hi ch f)"

lemma intr_read_inv: "ll_inv (\<lambda>_. 0) f \<Longrightarrow> ll_inv ((\<lambda>_. 0)(fresh_req f := 1)) (intr_read hi ch u f)"
  unfolding intr_read_def by (rule set_req_inv [OF with_req_inv, where q = "msg_req hi ch"]) simp_all

lemma intr_process:
  assumes "ll_mem f = []" "accepted f hi" "unat (inh_opcode hi) = FUSE_INTERRUPT"
  shows "fuse_ll_process ops (interrupt_msg hi u) ch f = do_interrupt ops (fresh_req f) (inh_nodeid hi)
      (put_fuse_interrupt_in \<lparr>interrupt_in_unique = u\<rparr>) (with_req hi ch f)"
  using assms by (simp add: interrupt_msg_def process_cases [where h = hi] accepted_def fuse_ll_ops_def)

lemma inv_fresh_unused:
  assumes "ll_inv (\<lambda>_. 0) f"
  shows "reqs f (fresh_req f) = None" "fresh_req f \<notin> set (req_list f)" "fresh_req f \<notin> set (interrupts f)"
  using ll_inv_fresh [OF assms] by (auto simp: listed_def)

lemma interrupt_running:
  assumes "ll_inv (\<lambda>_. 0) f" "ll_mem f = []" "accepted f hi" "unat (inh_opcode hi) = FUSE_INTERRUPT"
    and r: "r \<in> set (req_list f)" "reqs f r = Some q"
      "\<forall>r' q'. r' \<in> set (req_list f) \<and> reqs f r' = Some q' \<and> unique q' = unique q \<longrightarrow> r' = r"
  shows "\<exists>f'. fuse_ll_process (later_ops act) (interrupt_msg hi (unique q)) ch f = Some f' \<and> interrupts f' = interrupts f \<and>
     (case reaction act q of
        None \<Rightarrow> reqs f' = (reqs f)(r \<mapsto> q\<lparr>interrupted := True\<rparr>) \<and> req_list f' = req_list f \<and> sent f' = sent f
      | Some (err, iov) \<Rightarrow> reqs f' = (reqs f)(r := None) \<and> req_list f' = removeAll r (req_list f) \<and>
          sent f' = sent f @ [(req_ch q, reply_message q err iov)])"
proof -
  note fresh = inv_fresh_unused [OF assms(1)]
  let ?g = "intr_read hi ch (unique q) f"
  have rf: "r \<noteq> fresh_req f" using r(1) fresh(2) by blast
  have ri: "r \<notin> set (interrupts f)" using r(1) ll_inv_distinct [OF assms(1)] by auto
  have "find_interrupted (later_ops act) (unique q) ?g = Some (True, interrupted_req act r q ?g)"
    using r fresh rf by (intro find_interrupted_hit [OF intr_read_inv [OF assms(1)]]) (auto simp: intr_read_def set_req_def split: if_splits)
  then have "fuse_ll_process (later_ops act) (interrupt_msg hi (unique q)) ch f = Some (destroy_req (fresh_req f) (interrupted_req act r q ?g))"
    unfolding intr_process [OF assms(2-4)] by (simp add: do_interrupt_def intr_read_def set_req_def)
  then show ?thesis using r(1,2) rf ri fresh
    by (cases "reaction act q") (auto simp: interrupted_req_def intr_read_def set_req_def destroy_req_def fun_eq_iff split: prod.splits)
qed

lemma interrupt_early:
  assumes inv: "ll_inv (\<lambda>_. 0) (f :: 'u fuse_ll)" and mem: "ll_mem f = []"
    and hi: "accepted f hi" "unat (inh_opcode hi) = FUSE_INTERRUPT"
    and h: "accepted f h" "unat (inh_opcode h) \<noteq> FUSE_INTERRUPT"
      "\<forall>r q. reqs f r = Some q \<longrightarrow> (r \<in> set (req_list f) \<longrightarrow> unique q \<noteq> inh_unique h) \<and> (r \<in> set (interrupts f) \<longrightarrow> u_unique q \<noteq> inh_unique h)"
    and g: "fuse_ll_ops (unat (inh_opcode h)) = Some (g :: 'u handler)"
  obtains f1 f2 where "\<And>ops. fuse_ll_process ops (interrupt_msg hi (inh_unique h)) ch f = Some f1" "sent f1 = sent f"
    "\<And>ops. fuse_ll_process ops (put_fuse_in_header h @ arg) ch f1 = g ops (fresh_req f1) (inh_nodeid h) arg f2"
    "reqs f2 (fresh_req f1) = Some ((msg_req h ch)\<lparr>interrupted := True\<rparr>)"
    "req_list f2 = req_list f @ [fresh_req f1]" "interrupts f2 = interrupts f" "sent f2 = sent f"
proof -
  note fresh = inv_fresh_unused [OF inv]
  let ?i = "fresh_req f"
  let ?u = "inh_unique h"
  let ?f1 = "(intr_read hi ch ?u f)\<lparr>interrupts := interrupts f @ [?i]\<rparr>"
  have "find_interrupted ops ?u (intr_read hi ch ?u f) = Some (False, intr_read hi ch ?u f)" for ops
    using h(3) fresh by (intro find_interrupted_miss) (auto simp: intr_read_def set_req_def split: if_splits)
  then have f1: "fuse_ll_process ops (interrupt_msg hi ?u) ch f = Some ?f1" for ops
    unfolding intr_process [OF mem hi] by (simp add: do_interrupt_def intr_read_def set_req_def)
  have use1: "accepted ?f1 h" "ll_mem ?f1 = []"
    using h(1) mem accepted_cong [of ?f1 f h] by (simp_all add: intr_read_def with_req_def set_req_def)
  let ?f2 = "destroy_req ?i (list_del_req ?i (set_req (Suc ?i) ((msg_req h ch)\<lparr>interrupted := True\<rparr>) (with_req h ch ?f1)))"
  have f1_simps: "reqs ?f1 = (reqs f)(?i \<mapsto> (msg_req hi ch)\<lparr>u_unique := ?u\<rparr>)" "fresh_req ?f1 = Suc ?i"
    "interrupts ?f1 = interrupts f @ [?i]" "req_list ?f1 = req_list f" "sent ?f1 = sent f"
    by (simp_all add: intr_read_def set_req_def fun_upd_def fun_eq_iff)
  have "find (\<lambda>c. case reqs (with_req h ch ?f1) c of Some qc \<Rightarrow> u_unique qc = ?u | None \<Rightarrow> False) (interrupts ?f1) = Some ?i"
    unfolding f1_simps(3)
  proof (rule find_unique)
    show "y = ?i" if "y \<in> set (interrupts f @ [?i])"
      "case reqs (with_req h ch ?f1) y of Some qc \<Rightarrow> u_unique qc = ?u | None \<Rightarrow> False" for y
    proof (rule ccontr)
      assume ne: "y \<noteq> ?i"
      then have y: "y \<in> set (interrupts f)" using that(1) by simp
      then obtain q where q: "reqs f y = Some q" using ll_inv_live [OF inv, of y] by (auto simp: listed_def)
      then have "y < ?i" using ll_inv_req [OF inv, of y] by (simp add: req_ok_def)
      then show False using that(2) q h(3) y ne by (simp add: f1_simps)
    qed
  qed (simp_all add: f1_simps)
  moreover have "reqs (with_req h ch ?f1) (Suc ?i) = Some (msg_req h ch)" by (simp add: f1_simps)
  ultimately have "check_interrupt (Suc ?i) (with_req h ch ?f1) = Some (None, ?f2)"
    by (intro check_interrupt_hit) (simp_all only: msg_req_simps with_req_simps)
  then have en: "enlist (Suc ?i) (with_req h ch ?f1) = Some (?f2\<lparr>req_list := req_list f @ [Suc ?i]\<rparr>)"
    using fresh by (simp add: enlist_def f1_simps list_del_req_def destroy_req_def set_req_def)
  have f2: "fuse_ll_process ops (put_fuse_in_header h @ arg) ch ?f1 =
      g ops (Suc ?i) (inh_nodeid h) arg (?f2\<lparr>req_list := req_list f @ [Suc ?i]\<rparr>)" for ops
    using use1 h(2) g en by (simp add: process_cases [where h = h] f1_simps(2) accepted_def)
  show ?thesis
    by (rule that [OF f1, of "?f2\<lparr>req_list := req_list f @ [Suc ?i]\<rparr>"])
      (use f2 fresh in \<open>simp_all add: f1_simps list_del_req_def destroy_req_def set_req_def\<close>)
qed

text \<open>A request for which no INTERRUPT is kept: the oldest one that is kept goes back to the kernel.\<close>

lemma interrupt_returned:
  assumes inv: "ll_inv (\<lambda>_. 0) (f :: 'u fuse_ll)" and mem: "ll_mem f = []" and h: "accepted f h" "unat (inh_opcode h) \<noteq> FUSE_INTERRUPT"
    and kept: "interrupts f = i # ri" "\<forall>r q. r \<in> set (interrupts f) \<and> reqs f r = Some q \<longrightarrow> u_unique q \<noteq> inh_unique h"
    and g: "fuse_ll_ops (unat (inh_opcode h)) = Some (g :: 'u handler)"
  obtains qi f2 where "reqs f i = Some qi" "\<And>ops. fuse_ll_process ops (put_fuse_in_header h @ arg) ch f = g ops (fresh_req f) (inh_nodeid h) arg f2"
    "reqs f2 (fresh_req f) = Some (msg_req h ch)" "reqs f2 i = None" "req_list f2 = req_list f @ [fresh_req f]" "interrupts f2 = ri"
    "sent f2 = sent f @ [(req_ch qi, reply_message qi (- EAGAIN) [])]"
proof -
  note fresh = inv_fresh_unused [OF inv]
  let ?n = "fresh_req f"
  let ?w = "with_req h ch f"
  have i: "i \<noteq> ?n" "i \<notin> set (req_list f)" "i \<notin> set ri" using kept(1) fresh(3) ll_inv_distinct [OF inv] by auto
  obtain qi where qi: "reqs f i = Some qi" using ll_inv_live [OF inv, of i] kept(1) by (auto simp: listed_def)
  have one: "req_ctr qi = 1" using ll_inv_count [OF inv qi] kept(1) i(2) by (auto simp: holders_def listed_def)
  have miss: "find (\<lambda>c. case reqs ?w c of Some qc \<Rightarrow> u_unique qc = unique (msg_req h ch) | None \<Rightarrow> False) (interrupts ?w) = None"
    using kept(2) fresh(3) by (auto simp: find_None_iff_set split: option.splits if_splits)
  have check: "check_interrupt ?n ?w = Some (Some i, list_del_req i ?w)"
    by (rule check_interrupt_miss [OF _ miss, where ri = ri]) (simp_all add: kept(1))
  let ?a = "(list_del_req i ?w)\<lparr>req_list := req_list (list_del_req i ?w) @ [?n]\<rparr>"
  have "reqs ?a i = Some qi" using qi i(1) by (simp add: list_del_req_def)
  note rep = reply_err_replied [OF this, of EAGAIN]
  let ?f2 = "replied i qi (reply_message qi (- EAGAIN) []) ?a"
  have "enlist ?n ?w = Some ?f2" using check rep by (simp add: enlist_def)
  then have "fuse_ll_process ops (put_fuse_in_header h @ arg) ch f = g ops ?n (inh_nodeid h) arg ?f2" for ops
    using mem h g by (simp add: process_cases [where h = h] accepted_def)
  then show ?thesis
    by (rule that [OF qi]) (use i one kept(1) fresh in \<open>simp_all add: replied_def list_del_req_def\<close>)
qed

text \<open>
  C27: what becomes of an INTERRUPT, while there is memory and its message passes the gates. When its request is being
  processed, the request is marked as interrupted, and if it has an interrupt function that answers, it is answered and gone; the INTERRUPT is done,
  without a reply of its own. When there is no such request, nor an INTERRUPT for it, yet, it is kept, without a reply. If the next message is the request, it is marked at once: the
  operation of the file system is called with a request that is already interrupted, and the kept
  INTERRUPT is gone. If a request arrives for which no INTERRUPT is kept, the oldest one that is kept is answered with EAGAIN, so that the kernel sends it again, and the
  operation is called with a request that is not interrupted.
\<close>

theorem interrupt_delivered:
  assumes "ll_reach (f :: 'u fuse_ll)" "ll_mem f = []" "accepted f hi" "unat (inh_opcode hi) = FUSE_INTERRUPT"
  shows "(\<forall>r q. r \<in> set (req_list f) \<and> reqs f r = Some q \<and>
        (\<forall>r' q'. r' \<in> set (req_list f) \<and> reqs f r' = Some q' \<and> unique q' = unique q \<longrightarrow> r' = r) \<longrightarrow>
        (\<exists>f'. fuse_ll_process (later_ops act) (interrupt_msg hi (unique q)) ch f = Some f' \<and> interrupts f' = interrupts f \<and>
          (case reaction act q of
             None \<Rightarrow> reqs f' = (reqs f)(r \<mapsto> q\<lparr>interrupted := True\<rparr>) \<and> req_list f' = req_list f \<and> sent f' = sent f
           | Some (err, iov) \<Rightarrow> reqs f' = (reqs f)(r := None) \<and> req_list f' = removeAll r (req_list f) \<and>
               sent f' = sent f @ [(req_ch q, reply_message q err iov)]))) \<and>
     (\<forall>(h :: fuse_in_header) arg. accepted f h \<and> unat (inh_opcode h) \<noteq> FUSE_INTERRUPT \<and>
        (\<forall>r q. reqs f r = Some q \<longrightarrow> (r \<in> set (req_list f) \<longrightarrow> unique q \<noteq> inh_unique h) \<and> (r \<in> set (interrupts f) \<longrightarrow> u_unique q \<noteq> inh_unique h)) \<longrightarrow>
        (\<exists>f1 g. fuse_ll_process (later_ops act) (interrupt_msg hi (inh_unique h)) ch f = Some f1 \<and> sent f1 = sent f \<and>
          fuse_ll_ops (unat (inh_opcode h)) = Some g \<and>
          (\<forall>ops. \<exists>f2 q. fuse_ll_process ops (put_fuse_in_header h @ arg) ch f1 = g ops (fresh_req f1) (inh_nodeid h) arg f2 \<and>
             reqs f2 (fresh_req f1) = Some q \<and> unique q = inh_unique h \<and> interrupted q \<and>
             req_list f2 = req_list f @ [fresh_req f1] \<and> interrupts f2 = interrupts f \<and> sent f2 = sent f))) \<and>
     (\<forall>(h :: fuse_in_header) arg i ri. accepted f h \<and> unat (inh_opcode h) \<noteq> FUSE_INTERRUPT \<and> interrupts f = i # ri \<and>
        (\<forall>r q. r \<in> set (interrupts f) \<and> reqs f r = Some q \<longrightarrow> u_unique q \<noteq> inh_unique h) \<longrightarrow>
        (\<exists>g qi. fuse_ll_ops (unat (inh_opcode h)) = Some g \<and> reqs f i = Some qi \<and>
          (\<forall>ops. \<exists>f2 q. fuse_ll_process ops (put_fuse_in_header h @ arg) ch f = g ops (fresh_req f) (inh_nodeid h) arg f2 \<and>
             reqs f2 (fresh_req f) = Some q \<and> unique q = inh_unique h \<and> \<not> interrupted q \<and> reqs f2 i = None \<and>
             req_list f2 = req_list f @ [fresh_req f] \<and> interrupts f2 = ri \<and>
             sent f2 = sent f @ [(req_ch qi, reply_message qi (- EAGAIN) [])])))"
proof (intro conjI allI impI, goal_cases)
  case (1 r q)
  then show ?case by (intro interrupt_running [OF ll_reach_inv [OF assms(1)] assms(2-4)]) auto
next
  case (2 h arg)
  obtain g :: "'u handler" where g: "fuse_ll_ops (unat (inh_opcode h)) = Some g" using accepted_known 2 by blast
  show ?case
    by (rule interrupt_early [OF ll_reach_inv [OF assms(1)] assms(2-4) _ _ _ g, where ch = ch and arg = arg])
      (use 2 g in \<open>auto intro!: exI simp: msg_req_def\<close>)
next
  case (3 h arg i ri)
  obtain g :: "'u handler" where g: "fuse_ll_ops (unat (inh_opcode h)) = Some g" using accepted_known 3 by blast
  show ?case
    by (rule interrupt_returned [OF ll_reach_inv [OF assms(1)] assms(2) _ _ _ _ g, where ch = ch and arg = arg and i = i and ri = ri])
      (use 3 g in \<open>auto intro!: exI simp: msg_req_def\<close>)
qed

subsection \<open>An example connection\<close>

definition demo_header :: "u32 \<Rightarrow> u64 \<Rightarrow> fuse_in_header" where
  "demo_header op u = \<lparr>inh_len = 0, inh_opcode = op, inh_unique = u, inh_nodeid = 1, inh_uid = 0, inh_gid = 0, inh_pid = 7\<rparr>"

definition demo_init :: cbuf where
  "demo_init = put_fuse_in_header (demo_header 26 1) @
     put_fuse_init_in \<lparr>init_in_major = 7, init_in_minor = 12, init_in_max_readahead = 0x20000, init_in_flags = 3\<rparr>"

definition demo_lookup :: cbuf where
  "demo_lookup = put_fuse_in_header (demo_header 1 2) @ put_str ''file''"

definition demo_new :: "unit fuse_ll" where
  "demo_new = \<lparr>allow_root = False, atomic_o_trunc = False, no_remote_lock = False, big_writes = False, got_init = False,
     got_destroy = False, cuse_data = False, userdata = (), owner = 0,
     conn = \<lparr>proto_major = 0, proto_minor = 0, async_read = 1, max_write = 0xFFFFFFFF, max_readahead = 0xFFFFFFFF, capable = 0, want = 0\<rparr>,
     reqs = (\<lambda>_. None), fresh_req = 0, req_list = [], interrupts = [], ll_mem = [], chan_bufsize = 0x21000,
     send_results = [], sent = []\<rparr>"

lemma demo_new_reach: "ll_reach demo_new"
proof (rule ll_reach.start [where m = "[]" and args = None and op = keep_ops and op_size = 0])
  show "fuse_lowlevel_new_common [] None keep_ops 0 () 0 0x21000 = Some (Some (demo_new, copy_ll_ops 0 keep_ops), None)"
    by (simp add: fuse_lowlevel_new_common_def fuse_opt_parse_def demo_new_def opt_int_def ll_defaults_def)
qed

lemma demo_ready:
  "\<exists>f. fuse_ll_process keep_ops demo_init 0 demo_new = Some f \<and> got_init f \<and> req_list f = [] \<and> interrupts f = [] \<and>
     ll_mem f = [] \<and> fresh_req f = 1 \<and> \<not> allow_root f \<and> \<not> cuse_data f \<and> reqs f = (\<lambda>_. None) \<and> proto_minor_of f = 12"
  by (simp add: demo_init_def demo_header_def process_cases demo_new_def ll_reject_def enlist_def check_interrupt_def
     fuse_ll_ops_def do_init_def with_req_def set_req_def msg_req_def init_conn_def init_want_def later_ops_def on_interrupt_def
     send_reply_ok_def send_reply_def send_reply_iov_def fuse_send_reply_iov_nofree_def fuse_chan_send_def
     fuse_free_req_def list_del_req_def destroy_req_def Let_def proto_minor_of_def)

lemma demo_pending_reach: "\<exists>f :: unit fuse_ll. ll_reach f \<and> req_list f = [1]"
proof -
  obtain f where f: "fuse_ll_process keep_ops demo_init 0 demo_new = Some f" "got_init f" "req_list f = []" "interrupts f = []"
    "ll_mem f = []" "fresh_req f = 1" "\<not> allow_root f" using demo_ready by blast
  have "ll_reach f" by (rule ll_reach.message [OF demo_new_reach f(1)])
  moreover obtain f' where "fuse_ll_process keep_ops demo_lookup 0 f = Some f'" "req_list f' = [1]"
    using f(2-) by (simp add: demo_lookup_def demo_header_def process_cases ll_reject_def enlist_def check_interrupt_def
      fuse_ll_ops_def do_lookup_def later_ops_def on_interrupt_def Let_def)
  ultimately show ?thesis using ll_reach.message by blast
qed

definition demo_req :: fuse_req where
  "demo_req = msg_req (demo_header 26 2) 0"

definition demo_pending :: "unit fuse_ll" where
  "demo_pending = demo_new\<lparr>reqs := [0 \<mapsto> demo_req], req_list := [0], fresh_req := 1\<rparr>"

theorem reply_correct_witness:
  "\<exists>res f' msg. send_reply_iov 0 (- ENOENT) [] demo_pending = Some (res, f') \<and> sent f' = [(0, msg)] \<and>
     get64 8 msg = Some 2 \<and> map_option sint (get32 4 msg) = Some (- ENOENT) \<and> reqs f' 0 = None"
proof -
  have "reqs demo_pending 0 = Some demo_req" "16 + iov_length [] < 2 ^ 32" "sent demo_pending = []"
    by (simp_all add: demo_pending_def demo_new_def)
  then show ?thesis
    using reply_correct [of demo_pending 0 demo_req "[]" "- ENOENT"]
    by (auto simp: demo_req_def demo_header_def)
qed

theorem process_gate_witness:
  "fst (alloc (ll_mem demo_new)) \<and> \<not> got_init demo_new \<and> refused (demo_header 1 2) (put_str ''file'') 0 demo_new EIO"
  using process_gate [of demo_new "demo_header 1 2" "put_str ''file''" 0] by (simp add: demo_new_def demo_header_def)

theorem requests_accounted_witness:
  "\<exists>f :: unit fuse_ll. ll_reach f \<and> req_list f = [1] \<and> reqs f 1 \<noteq> None \<and>
     (\<exists>res f'. send_reply_iov 1 0 [] f = Some (res, f') \<and> reqs f' 1 = None)"
proof -
  obtain f :: "unit fuse_ll" where f: "ll_reach f" "req_list f = [1]" using demo_pending_reach by blast
  have one: "1 \<in> set (req_list f)" using f(2) by simp
  have "reqs f 1 \<noteq> None" "\<exists>res f'. send_reply_iov 1 0 [] f = Some (res, f') \<and> reqs f' 1 = None"
    using requests_accounted [OF f(1)] one by (simp, metis fun_upd_same)
  then show ?thesis using f by blast
qed

definition export_ops :: "unit fuse_lowlevel_ops" where
  "export_ops = keep_ops\<lparr>ll_init := Some (\<lambda>f. Some (f\<lparr>conn := (conn f)\<lparr>want := want (conn f) OR 16\<rparr>\<rparr>))\<rparr>"

theorem init_negotiation_witness:
  "\<exists>f' out. do_init export_ops 0 1 (put_fuse_init_in \<lparr>init_in_major = 7, init_in_minor = 12,
       init_in_max_readahead = 0x20000, init_in_flags = 3\<rparr>) demo_pending = Some f' \<and> got_init f' \<and>
     sent f' = [(0, reply_message demo_req 0 [put_fuse_init_out out])] \<and>
     init_out_max_readahead out = 0x20000 \<and> unat (init_out_max_write out) = 0x20000 \<and> init_out_flags out AND 16 \<noteq> 0"
proof -
  let ?a = "\<lparr>init_in_major = 7, init_in_minor = 12, init_in_max_readahead = 0x20000, init_in_flags = 3\<rparr>"
  have q: "reqs demo_pending 0 = Some demo_req" by (simp add: demo_pending_def)
  have "init_in_major ?a = 7" by simp
  from init_negotiation [OF q, of ?a export_ops 1, THEN conjunct1, THEN mp, OF this]
  show ?thesis
  proof (elim exE conjE, goal_cases)
    case (1 c)
    let ?f2 = "demo_pending\<lparr>conn := c\<lparr>want := want c OR 16\<rparr>, got_init := True\<rparr>"
    have "init_op export_ops (demo_pending\<lparr>conn := c, got_init := True\<rparr>) = Some ?f2 \<and> reqs ?f2 0 = Some demo_req"
      using q by (simp add: init_op_def export_ops_def)
    from 1(2) [THEN spec, THEN spec, THEN mp, OF this]
    obtain f' out where r: "do_init export_ops 0 1 (put_fuse_init_in ?a) demo_pending = Some f'" "got_init f' = got_init ?f2"
      "sent f' = sent ?f2 @ [(req_ch demo_req, reply_message demo_req 0 [take (if init_in_minor ?a < 5 then 8 else 24) (put_fuse_init_out out)])]"
      "init_out_max_readahead out = max_readahead (conn ?f2)" "init_out_max_write out = max_write (conn ?f2)"
      "(init_out_flags out AND 16 \<noteq> 0) = (want (conn ?f2) AND 16 \<noteq> 0)"
      by (elim exE conjE) (rule that; assumption)
    have "(want c OR 16) AND 16 = 16" by (simp add: bit.conj_disj_distrib2)
    moreover have "take 24 (put_fuse_init_out out) = put_fuse_init_out out" by simp
    moreover have "max_readahead c = 0x20000" "unat (max_write c) = 0x20000"
      using 1(1) by (simp_all add: offered_def demo_pending_def demo_new_def min_def)
    ultimately show ?thesis using r by (intro exI [of _ f'] exI [of _ out]) (simp add: demo_pending_def demo_new_def demo_req_def)
  qed
qed

theorem interrupt_delivered_witness:
  "\<exists>f f1 f2 q. fuse_ll_process keep_ops demo_init 0 demo_new = Some f \<and>
     fuse_ll_process keep_ops (interrupt_msg (demo_header 36 3) 2) 0 f = Some f1 \<and>
     fuse_ll_process keep_ops demo_lookup 0 f1 = do_lookup keep_ops (fresh_req f1) 1 (put_str ''file'') f2 \<and>
     reqs f2 (fresh_req f1) = Some q \<and> unique q = 2 \<and> interrupted q"
proof -
  obtain f where f: "fuse_ll_process keep_ops demo_init 0 demo_new = Some f" "got_init f" "ll_mem f = []" "\<not> allow_root f"
    "reqs f = (\<lambda>_. None)" using demo_ready by blast
  have "ll_reach f" by (rule ll_reach.message [OF demo_new_reach f(1)])
  moreover have "accepted f (demo_header 36 3)" "accepted f (demo_header 1 2)"
    using f(2,4) by (simp_all add: accepted_def ll_reject_def demo_header_def fuse_ll_ops_def)
  moreover have "unat (inh_opcode (demo_header 36 3)) = FUSE_INTERRUPT" "unat (inh_opcode (demo_header 1 2)) \<noteq> FUSE_INTERRUPT" by (simp_all add: demo_header_def)
  ultimately have "\<exists>f1 g. fuse_ll_process keep_ops (interrupt_msg (demo_header 36 3) (inh_unique (demo_header 1 2))) 0 f = Some f1 \<and> sent f1 = sent f \<and>
      fuse_ll_ops (unat (inh_opcode (demo_header 1 2))) = Some (g :: unit handler) \<and>
      (\<forall>ops. \<exists>f2 q. fuse_ll_process ops (put_fuse_in_header (demo_header 1 2) @ put_str ''file'') 0 f1 =
         g ops (fresh_req f1) (inh_nodeid (demo_header 1 2)) (put_str ''file'') f2 \<and>
         reqs f2 (fresh_req f1) = Some q \<and> unique q = inh_unique (demo_header 1 2) \<and> interrupted q \<and>
         req_list f2 = req_list f @ [fresh_req f1] \<and> interrupts f2 = interrupts f \<and> sent f2 = sent f)"
    using f(3,5) by (intro interrupt_delivered [of f "demo_header 36 3" "\<lambda>_. None" 0, THEN conjunct2, THEN conjunct1, THEN spec, THEN spec, THEN mp]) simp_all
  then obtain f1 g where f1: "fuse_ll_process keep_ops (interrupt_msg (demo_header 36 3) (inh_unique (demo_header 1 2))) 0 f = Some f1"
    "fuse_ll_ops (unat (inh_opcode (demo_header 1 2))) = Some (g :: unit handler)"
    "\<exists>f2 q. fuse_ll_process keep_ops (put_fuse_in_header (demo_header 1 2) @ put_str ''file'') 0 f1 =
       g keep_ops (fresh_req f1) (inh_nodeid (demo_header 1 2)) (put_str ''file'') f2 \<and>
       reqs f2 (fresh_req f1) = Some q \<and> unique q = inh_unique (demo_header 1 2) \<and> interrupted q"
    by blast
  have "g = do_lookup" using f1(2) by (simp add: demo_header_def fuse_ll_ops_def)
  then show ?thesis using f(1) f1(1,3) by (auto simp: demo_header_def demo_lookup_def)
qed

end
