(* ===== verification/Fuse_Requests.thy ===== *)
theory Fuse_Requests
  imports Fuse_Lowlevel_Proofs
begin

text \<open>
  The requests of the kernel as data: which message the protocol prescribes for a request, and which
  operation of the file system a request is for. The handlers of the low-level library, found
  through the opcode of the message, refine this: the operation is called with the arguments the
  kernel encoded (protocol minor version 12 and later).
\<close>

datatype kernel_request =
    Lookup cstring
  | Forget u64
  | Getattr "u64 option"
  | Setattr fuse_setattr_in
  | Readlink
  | Symlink cstring cstring
  | Mknod cstring fuse_mknod_in
  | Mkdir cstring fuse_mkdir_in
  | Unlink cstring
  | Rmdir cstring
  | Rename cstring fuse_ino_t cstring
  | Link fuse_ino_t cstring
  | Open u32
  | Read fuse_read_in
  | Write fuse_write_in cbuf
  | Statfs
  | Release fuse_release_in
  | Fsync u64 bool
  | Setxattr cstring cbuf u32
  | Getxattr cstring u32
  | Listxattr u32
  | Removexattr cstring
  | Flush fuse_flush_in
  | Opendir u32
  | Readdir u64 u64 u32
  | Releasedir fuse_release_in
  | Fsyncdir u64 bool
  | Getlk fuse_lk_in
  | Setlk fuse_lk_in bool
  | Access u32
  | Create cstring fuse_create_in
  | Bmap u64 u32

primrec opcode_of :: "kernel_request \<Rightarrow> nat" where
  "opcode_of (Lookup _) = 1"
| "opcode_of (Forget _) = 2"
| "opcode_of (Getattr _) = 3"
| "opcode_of (Setattr _) = 4"
| "opcode_of Readlink = 5"
| "opcode_of (Symlink _ _) = 6"
| "opcode_of (Mknod _ _) = 8"
| "opcode_of (Mkdir _ _) = 9"
| "opcode_of (Unlink _) = 10"
| "opcode_of (Rmdir _) = 11"
| "opcode_of (Rename _ _ _) = 12"
| "opcode_of (Link _ _) = 13"
| "opcode_of (Open _) = 14"
| "opcode_of (Read _) = 15"
| "opcode_of (Write _ _) = 16"
| "opcode_of Statfs = 17"
| "opcode_of (Release _) = 18"
| "opcode_of (Fsync _ _) = 20"
| "opcode_of (Setxattr _ _ _) = 21"
| "opcode_of (Getxattr _ _) = 22"
| "opcode_of (Listxattr _) = 23"
| "opcode_of (Removexattr _) = 24"
| "opcode_of (Flush _) = 25"
| "opcode_of (Opendir _) = 27"
| "opcode_of (Readdir _ _ _) = 28"
| "opcode_of (Releasedir _) = 29"
| "opcode_of (Fsyncdir _ _) = 30"
| "opcode_of (Getlk _) = 31"
| "opcode_of (Setlk _ slp) = (if slp then 33 else 32)"
| "opcode_of (Access _) = 34"
| "opcode_of (Create _ _) = 35"
| "opcode_of (Bmap _ _) = 37"

text \<open>The message after its header.\<close>

definition put_read :: "u64 \<Rightarrow> u64 \<Rightarrow> u32 \<Rightarrow> cbuf" where
  "put_read h off sz = put_fuse_read_in \<lparr>read_in_fh = h, read_in_offset = off, read_in_size = sz, read_in_read_flags = 0,
     read_in_lock_owner = 0, read_in_flags = 0\<rparr>"

definition put_fsync :: "u64 \<Rightarrow> bool \<Rightarrow> cbuf" where
  "put_fsync h datasync = put_fuse_fsync_in \<lparr>fsync_in_fh = h, fsync_in_fsync_flags = of_bool datasync\<rparr>"

primrec put_request :: "kernel_request \<Rightarrow> cbuf" where
  "put_request (Lookup name) = put_str name"
| "put_request (Forget n) = put_fuse_forget_in \<lparr>forget_in_nlookup = n\<rparr>"
| "put_request (Getattr h) = put_fuse_getattr_in
     \<lparr>getattr_in_getattr_flags = of_bool (h \<noteq> None), getattr_in_fh = (case h of Some x \<Rightarrow> x | None \<Rightarrow> 0)\<rparr>"
| "put_request (Setattr a) = put_fuse_setattr_in a"
| "put_request Readlink = []"
| "put_request (Symlink name target) = put_str name @ put_str target"
| "put_request (Mknod name a) = put_fuse_mknod_in a @ put_str name"
| "put_request (Mkdir name a) = put_fuse_mkdir_in a @ put_str name"
| "put_request (Unlink name) = put_str name"
| "put_request (Rmdir name) = put_str name"
| "put_request (Rename old dir new) = put_fuse_rename_in \<lparr>rename_in_newdir = dir\<rparr> @ put_str old @ put_str new"
| "put_request (Link ino new) = put_fuse_link_in \<lparr>link_in_oldnodeid = ino\<rparr> @ put_str new"
| "put_request (Open flags) = put_fuse_open_in \<lparr>open_in_flags = flags\<rparr>"
| "put_request (Read a) = put_fuse_read_in a"
| "put_request (Write a bytes) = put_fuse_write_in a @ bytes"
| "put_request Statfs = []"
| "put_request (Release a) = put_fuse_release_in a"
| "put_request (Fsync h datasync) = put_fsync h datasync"
| "put_request (Setxattr name val flags) =
     put_fuse_setxattr_in \<lparr>setxattr_in_size = word_of_nat (length val), setxattr_in_flags = flags\<rparr> @ put_str name @ val"
| "put_request (Getxattr name sz) = put_fuse_getxattr_in \<lparr>getxattr_in_size = sz\<rparr> @ put_str name"
| "put_request (Listxattr sz) = put_fuse_getxattr_in \<lparr>getxattr_in_size = sz\<rparr>"
| "put_request (Removexattr name) = put_str name"
| "put_request (Flush a) = put_fuse_flush_in a"
| "put_request (Opendir flags) = put_fuse_open_in \<lparr>open_in_flags = flags\<rparr>"
| "put_request (Readdir h off sz) = put_read h off sz"
| "put_request (Releasedir a) = put_fuse_release_in a"
| "put_request (Fsyncdir h datasync) = put_fsync h datasync"
| "put_request (Getlk a) = put_fuse_lk_in a"
| "put_request (Setlk a slp) = put_fuse_lk_in a"
| "put_request (Access msk) = put_fuse_access_in \<lparr>access_in_mask = msk\<rparr>"
| "put_request (Create name a) = put_fuse_create_in a @ put_str name"
| "put_request (Bmap blk bs) = put_fuse_bmap_in \<lparr>bmap_in_block = blk, bmap_in_blocksize = bs\<rparr>"

text \<open>A name that fits into a message: one with no zero byte, and an attribute value of at most 4 GiB.\<close>

abbreviation nul_free :: "cstring \<Rightarrow> bool" where
  "nul_free s \<equiv> CHR 0x00 \<notin> set s"

primrec encodable :: "kernel_request \<Rightarrow> bool" where
  "encodable (Lookup name) = nul_free name"
| "encodable (Forget _) = True"
| "encodable (Getattr _) = True"
| "encodable (Setattr _) = True"
| "encodable Readlink = True"
| "encodable (Symlink name target) = (nul_free name \<and> nul_free target)"
| "encodable (Mknod name _) = nul_free name"
| "encodable (Mkdir name _) = nul_free name"
| "encodable (Unlink name) = nul_free name"
| "encodable (Rmdir name) = nul_free name"
| "encodable (Rename old _ new) = (nul_free old \<and> nul_free new)"
| "encodable (Link _ new) = nul_free new"
| "encodable (Open _) = True"
| "encodable (Read _) = True"
| "encodable (Write _ _) = True"
| "encodable Statfs = True"
| "encodable (Release _) = True"
| "encodable (Fsync _ _) = True"
| "encodable (Setxattr name val _) = (nul_free name \<and> length val < 2 ^ 32)"
| "encodable (Getxattr name _) = nul_free name"
| "encodable (Listxattr _) = True"
| "encodable (Removexattr name) = nul_free name"
| "encodable (Flush _) = True"
| "encodable (Opendir _) = True"
| "encodable (Readdir _ _ _) = True"
| "encodable (Releasedir _) = True"
| "encodable (Fsyncdir _ _) = True"
| "encodable (Getlk _) = True"
| "encodable (Setlk _ _) = True"
| "encodable (Access _) = True"
| "encodable (Create name _) = nul_free name"
| "encodable (Bmap _ _) = True"

text \<open>
  The operation a request is for. An operation that is not there is answered with \<open>ENOSYS\<close>, with
  success (RELEASE, OPEN and OPENDIR, which keep no state then) or not at all (FORGET).
\<close>

definition op_call :: "'g option \<Rightarrow> ('g \<Rightarrow> 'u ll_fun) \<Rightarrow> nat \<Rightarrow> 'u ll_fun" where
  "op_call op call r f = (case op of Some g \<Rightarrow> call g f | None \<Rightarrow> reply_err r ENOSYS f)"

definition fi_open :: "u32 \<Rightarrow> fuse_file_info" where
  "fi_open flags = fi_zero\<lparr>fi_flags := sint flags\<rparr>"

definition fi_release :: "fuse_release_in \<Rightarrow> fuse_file_info" where
  "fi_release a = (fi_handle (release_in_fh a))\<lparr>fi_flags := sint (release_in_flags a)\<rparr>"

definition fi_lock :: "fuse_lk_in \<Rightarrow> fuse_file_info" where
  "fi_lock a = fi_zero\<lparr>fh := lk_in_fh a, lock_owner := lk_in_owner a\<rparr>"

definition flock_of :: "fuse_lk_in \<Rightarrow> flock" where
  "flock_of a = convert_fuse_file_lock (fl_start (lk_in_lk a)) (fl_end (lk_in_lk a)) (fl_type (lk_in_lk a)) (fl_pid (lk_in_lk a))"

definition stat_of :: "fuse_setattr_in \<Rightarrow> stat" where
  "stat_of a = stat0\<lparr>st_mode := setattr_in_mode a, st_uid := setattr_in_uid a, st_gid := setattr_in_gid a,
     st_size := sint (setattr_in_size a), st_atim := \<lparr>tv_sec = sint (setattr_in_atime a), tv_nsec = uint (setattr_in_atimensec a)\<rparr>,
     st_mtim := \<lparr>tv_sec = sint (setattr_in_mtime a), tv_nsec = uint (setattr_in_mtimensec a)\<rparr>\<rparr>"

fun call_request :: "'u fuse_lowlevel_ops \<Rightarrow> nat \<Rightarrow> fuse_ino_t \<Rightarrow> kernel_request \<Rightarrow> 'u ll_fun" where
  "call_request ops r ino (Lookup name) f = op_call (ll_lookup ops) (\<lambda>g. g r ino name) r f"
| "call_request ops r ino (Forget n) f = (case ll_forget ops of Some g \<Rightarrow> g r ino n f | None \<Rightarrow> fuse_reply_none r f)"
| "call_request ops r ino (Getattr h) f = op_call (ll_getattr ops) (\<lambda>g. g r ino (map_option fi_handle h)) r f"
| "call_request ops r ino (Setattr a) f = op_call (ll_setattr ops) (\<lambda>g. g r ino (stat_of a) (setattr_in_valid a AND 0x1bf)
     (if bit (setattr_in_valid a) 6 then Some (fi_handle (setattr_in_fh a)) else None)) r f"
| "call_request ops r ino Readlink f = op_call (ll_readlink ops) (\<lambda>g. g r ino) r f"
| "call_request ops r ino (Symlink name target) f = op_call (ll_symlink ops) (\<lambda>g. g r target ino name) r f"
| "call_request ops r ino (Mknod name a) f =
     do { f \<leftarrow> set_umask r (mknod_in_umask a) f; op_call (ll_mknod ops) (\<lambda>g. g r ino name (mknod_in_mode a) (mknod_in_rdev a)) r f }"
| "call_request ops r ino (Mkdir name a) f =
     do { f \<leftarrow> set_umask r (mkdir_in_umask a) f; op_call (ll_mkdir ops) (\<lambda>g. g r ino name (mkdir_in_mode a)) r f }"
| "call_request ops r ino (Unlink name) f = op_call (ll_unlink ops) (\<lambda>g. g r ino name) r f"
| "call_request ops r ino (Rmdir name) f = op_call (ll_rmdir ops) (\<lambda>g. g r ino name) r f"
| "call_request ops r ino (Rename old dir new) f = op_call (ll_rename ops) (\<lambda>g. g r ino old dir new) r f"
| "call_request ops r ino (Link old new) f = op_call (ll_link ops) (\<lambda>g. g r old ino new) r f"
| "call_request ops r ino (Open flags) f =
     (case ll_open ops of Some g \<Rightarrow> g r ino (fi_open flags) f | None \<Rightarrow> map_option snd (fuse_reply_open r (fi_open flags) f))"
| "call_request ops r ino (Read a) f = op_call (ll_read ops)
     (\<lambda>g. g r ino (unat (read_in_size a)) (sint (read_in_offset a))
        ((fi_handle (read_in_fh a))\<lparr>lock_owner := read_in_lock_owner a, fi_flags := sint (read_in_flags a)\<rparr>)) r f"
| "call_request ops r ino (Write a bytes) f = op_call (ll_write ops)
     (\<lambda>g. g r ino bytes (unat (write_in_size a)) (sint (write_in_offset a))
        ((fi_handle (write_in_fh a))\<lparr>writepage := uint (write_in_write_flags a AND 1), lock_owner := write_in_lock_owner a,
          fi_flags := sint (write_in_flags a)\<rparr>)) r f"
| "call_request ops r ino Statfs f =
     (case ll_statfs ops of Some g \<Rightarrow> g r ino f
      | None \<Rightarrow> map_option snd (fuse_reply_statfs r \<lparr>f_bsize = 512, f_frsize = 0, f_blocks = 0, f_bfree = 0, f_bavail = 0, f_files = 0, f_ffree = 0, f_namemax = 255\<rparr> f))"
| "call_request ops r ino (Release a) f =
     (case ll_release ops of
        Some g \<Rightarrow> g r ino ((fi_release a)\<lparr>fi_flush := (release_in_release_flags a AND 1 \<noteq> 0), lock_owner := release_in_lock_owner a\<rparr>) f
      | None \<Rightarrow> reply_err r 0 f)"
| "call_request ops r ino (Fsync h datasync) f = op_call (ll_fsync ops) (\<lambda>g. g r ino (of_bool datasync) (fi_handle h)) r f"
| "call_request ops r ino (Setxattr name val flags) f = op_call (ll_setxattr ops) (\<lambda>g. g r ino name val (length val) (sint flags)) r f"
| "call_request ops r ino (Getxattr name sz) f = op_call (ll_getxattr ops) (\<lambda>g. g r ino name (unat sz)) r f"
| "call_request ops r ino (Listxattr sz) f = op_call (ll_listxattr ops) (\<lambda>g. g r ino (unat sz)) r f"
| "call_request ops r ino (Removexattr name) f = op_call (ll_removexattr ops) (\<lambda>g. g r ino name) r f"
| "call_request ops r ino (Flush a) f = op_call (ll_flush ops)
     (\<lambda>g. g r ino ((fi_handle (flush_in_fh a))\<lparr>fi_flush := True, lock_owner := flush_in_lock_owner a\<rparr>)) r f"
| "call_request ops r ino (Opendir flags) f =
     (case ll_opendir ops of Some g \<Rightarrow> g r ino (fi_open flags) f | None \<Rightarrow> map_option snd (fuse_reply_open r (fi_open flags) f))"
| "call_request ops r ino (Readdir h off sz) f = op_call (ll_readdir ops) (\<lambda>g. g r ino (unat sz) (sint off) (fi_handle h)) r f"
| "call_request ops r ino (Releasedir a) f =
     (case ll_releasedir ops of Some g \<Rightarrow> g r ino (fi_release a) f | None \<Rightarrow> reply_err r 0 f)"
| "call_request ops r ino (Fsyncdir h datasync) f = op_call (ll_fsyncdir ops) (\<lambda>g. g r ino (of_bool datasync) (fi_handle h)) r f"
| "call_request ops r ino (Getlk a) f = op_call (ll_getlk ops) (\<lambda>g. g r ino (fi_lock a) (flock_of a)) r f"
| "call_request ops r ino (Setlk a slp) f = op_call (ll_setlk ops) (\<lambda>g. g r ino (fi_lock a) (flock_of a) slp) r f"
| "call_request ops r ino (Access msk) f = op_call (ll_access ops) (\<lambda>g. g r ino (sint msk)) r f"
| "call_request ops r ino (Create name a) f =
     (case ll_create ops of
        Some g \<Rightarrow> do { f \<leftarrow> set_umask r (create_in_umask a) f; g r ino name (create_in_mode a) (fi_open (create_in_flags a)) f }
      | None \<Rightarrow> reply_err r ENOSYS f)"
| "call_request ops r ino (Bmap blk bs) f = op_call (ll_bmap ops) (\<lambda>g. g r ino (unat bs) blk) r f"

lemmas call_defs = op_call_def fi_open_def fi_release_def fi_lock_def flock_of_def stat_of_def put_read_def put_fsync_def

lemmas handler_defs =
  do_lookup_def do_forget_def do_getattr_def do_readlink_def do_symlink_def do_mknod_def do_mkdir_def do_unlink_def
  do_rmdir_def do_rename_def do_link_def do_open_def do_read_def do_write_def do_statfs_def do_release_def do_fsync_def
  do_setxattr_def do_getxattr_def do_listxattr_def do_removexattr_def do_flush_def do_opendir_def do_readdir_def
  do_releasedir_def do_fsyncdir_def do_getlk_def do_setlk_def do_setlkw_def do_setlk_common_def do_access_def
  do_create_def do_bmap_def lk_arg_def do_setattr_def convert_attr_def

lemma length_put_str [simp]: "length (put_str s) = Suc (length s)" "drop (Suc (length s)) (put_str s) = []"
  by (simp_all add: put_str_def)

lemma fattr_fh: "(w :: u32) AND 0x40 \<noteq> 0 \<longleftrightarrow> bit w 6" "w AND NOT 0x40 AND 0x1bf = w AND 0x1bf"
  using and_exp_eq_0_iff_not_bit [of w 6] by (simp_all add: and.assoc)

text \<open>The handler an opcode selects calls the operation the request is for.\<close>

lemma handler_calls:
  assumes "12 \<le> proto_minor_of f" "encodable rq" "fuse_ll_ops (opcode_of rq) = Some (g :: 'u handler)"
  shows "g ops r ino (put_request rq) f = call_request ops r ino rq f"
proof -
  have v: "9 \<le> proto_minor_of f" "8 \<le> proto_minor_of f" "7 \<le> proto_minor_of f" "\<not> proto_minor_of f < 9"
    using assms(1) by simp_all
  show ?thesis
    using assms v
    by (cases rq) (auto simp: fuse_ll_ops_def handler_defs call_defs unat_word_of_nat32 fattr_fh
      split: option.splits bind_splits if_splits)
qed

lemma opcode_known: "\<exists>g :: 'u handler. fuse_ll_ops (opcode_of rq) = Some g" "plain_opcode (opcode_of rq)"
proof -
  show "plain_opcode (opcode_of rq)" by (cases rq) (simp_all add: plain_opcode_def)
  then show "\<exists>g :: 'u handler. fuse_ll_ops (opcode_of rq) = Some g" by (rule plain_known)
qed

text \<open>The state a handler starts with has the request of the message.\<close>

lemma enlist_request:
  assumes "ll_inv (\<lambda>_. 0) f"
  shows "\<exists>f' pre i. enlist (fresh_req f) (with_req h ch f) = Some f' \<and> conn f' = conn f \<and>
     req_list f' = req_list f @ [fresh_req f] \<and> sent f' = sent f @ pre \<and> length pre \<le> 1 \<and> (interrupts f = [] \<longrightarrow> pre = []) \<and>
     reqs f' (fresh_req f) = Some ((msg_req h ch)\<lparr>interrupted := i\<rparr>)"
proof -
  let ?r = "fresh_req f" and ?g = "with_req h ch f"
  note fresh = inv_fresh_unused [OF assms]
  have same: "\<exists>i. msg_req h ch = (msg_req h ch)\<lparr>interrupted := i\<rparr>" by (rule exI [of _ False]) (simp add: msg_req_def)
  have keep: "removeAll c (req_list f) = req_list f" if "c \<in> set (interrupts f)" for c
    using that ll_inv_distinct [OF assms] by (intro removeAll_id) auto
  consider (hit) c where "check_interrupt ?r ?g = Some (None, destroy_req c (list_del_req c (set_req ?r ((msg_req h ch)\<lparr>interrupted := True\<rparr>) ?g)))"
      "c \<in> set (interrupts f)"
    | (old) c where "check_interrupt ?r ?g = Some (Some c, list_del_req c ?g)" "c \<in> set (interrupts f)"
    | (no) "check_interrupt ?r ?g = Some (None, ?g)"
    using find_SomeD by (fastforce simp: check_interrupt_def split: option.splits list.splits)
  then show ?thesis
  proof cases
    case hit
    then have "c \<noteq> ?r" using fresh by blast
    then show ?thesis using hit keep by (auto simp: enlist_def destroy_req_def list_del_req_def set_req_def)
  next
    case old
    then have c: "c \<noteq> ?r" "c \<in> set (interrupts f)" using fresh by blast+
    then obtain qc where "reqs (list_del_req c ?g\<lparr>req_list := req_list (list_del_req c ?g) @ [?r]\<rparr>) c = Some qc"
      using ll_inv_live [OF assms, of c] by (auto simp: listed_def list_del_req_def)
    from reply_err_replied [OF this, of EAGAIN] show ?thesis
      using old c same keep by (auto simp: enlist_def replied_def list_del_req_def)
  next
    case no
    then show ?thesis using same by (auto simp: enlist_def)
  qed
qed

text \<open>
  C2: what the kernel encodes is what the file system is asked. Of a connection in use, with protocol
  version 7.12 or later, a message that carries a request runs the operation the request is for
  with exactly its arguments, for the node of the header, in a state in which the request is on the
  list of requests and knows the identity, user, group and process of the header. The covered
  requests are the 32 whose operation takes its arguments from the message alone.
\<close>

theorem requests_decoded:
  assumes "ll_reach f" "in_use f" "12 \<le> proto_minor_of f" "encodable rq" "unat (inh_opcode h) = opcode_of rq"
  shows "\<exists>f' q. fuse_ll_process ops (put_fuse_in_header h @ put_request rq) ch f =
       call_request ops (fresh_req f) (inh_nodeid h) rq f' \<and>
     fresh_req f \<in> set (req_list f') \<and> reqs f' (fresh_req f) = Some q \<and> unique q = inh_unique h \<and> req_ch q = ch \<and>
     req_ctx q = \<lparr>ctx_uid = inh_uid h, ctx_gid = inh_gid h, ctx_pid = inh_pid h, ctx_umask = 0\<rparr>"
proof -
  obtain f' i where f': "enlist (fresh_req f) (with_req h ch f) = Some f'" "conn f' = conn f" "req_list f' = req_list f @ [fresh_req f]"
    "reqs f' (fresh_req f) = Some ((msg_req h ch)\<lparr>interrupted := i\<rparr>)"
    using enlist_request [OF ll_reach_inv [OF assms(1)]] by blast
  obtain g :: "'a handler" where g: "fuse_ll_ops (opcode_of rq) = Some g" using opcode_known(1) by blast
  have "12 \<le> proto_minor_of f'" using assms(3) f'(2) by (simp add: proto_minor_of_def)
  note run = handler_calls [OF this assms(4) g]
  have "opcode_of rq \<noteq> FUSE_INTERRUPT" using plain_known(2) [OF opcode_known(2)] .
  then have "fuse_ll_process ops (put_fuse_in_header h @ put_request rq) ch f = call_request ops (fresh_req f) (inh_nodeid h) rq f'"
    using f'(1) g run in_use_reject [OF assms(2)] opcode_known(2) assms(2,5)
    by (simp add: process_cases [where h = h] in_use_def)
  then show ?thesis using f' by (auto simp: msg_req_def)
qed

theorem requests_decoded_witness:
  "\<exists>f f' :: unit fuse_ll. fuse_ll_process keep_ops demo_init 0 demo_new = Some f \<and>
     fuse_ll_process keep_ops (put_fuse_in_header (demo_header 12 2) @ put_request (Rename ''a'' 5 ''b'')) 0 f =
       call_request keep_ops (fresh_req f) 1 (Rename ''a'' 5 ''b'') f'"
proof -
  obtain f where f: "fuse_ll_process keep_ops demo_init 0 demo_new = Some f" "got_init f" "ll_mem f = []" "\<not> allow_root f"
    "proto_minor_of f = 12" using demo_ready by blast
  have "ll_reach f" by (rule ll_reach.message [OF demo_new_reach f(1)])
  moreover have "in_use f" using f by (simp add: in_use_def)
  moreover have "encodable (Rename ''a'' 5 ''b'')" by simp
  moreover have "unat (inh_opcode (demo_header 12 2)) = opcode_of (Rename ''a'' 5 ''b'')" by (simp add: demo_header_def)
  ultimately show ?thesis
    using requests_decoded [of f "Rename ''a'' 5 ''b''" "demo_header 12 2" keep_ops 0] f(1,5) by (auto simp: demo_header_def)
qed

end
