(* ===== verification/Fuse_Lib.thy ===== *)
theory Fuse_Lib
  imports Complex_Main Fuse_Prelude Fuse_Locks Fuse_Node Fuse_Path Fuse_Fs Fuse_Kernel Fuse_Lowlevel Fuse_Dir
begin

text \<open>
  The handlers of the high-level library (\<open>lib/fuse.c\<close>, \<open>fuse_lib_*\<close> and \<open>fuse_path_ops\<close>): what
  happens between a request of the low-level library and the operations of the file system.

  The library is the user data of the low-level library. Its state is the node cache, the file
  system below it, the world outside, and the directory handles, which live at the addresses
  the kernel keeps for them as file handles. What the other threads make of the node cache while a
  request waits for a path, and the readings of the clock, are parameters in the state. Debug
  output is left out.
\<close>

subsection \<open>State\<close>

text \<open>The context of a request (\<open>fuse_get_context\<close>) is visible to the operations of the file
  system, so it is part of the world they act on.\<close>

record fuse_context =
  cx_req :: nat
  cx_uid :: u32
  cx_gid :: u32
  cx_pid :: u32
  cx_umask :: u32

record 'x world =
  w_ctx :: fuse_context
  outside :: 'x

record ('d, 'x) fuse_lib =
  nodes :: fuse
  lib_fs :: "('d, dirbuf, 'x world) fuse_fs option"
  lib_world :: "'x world"
  dirhandles :: "u64 \<Rightarrow> fuse_dh option"
  dh_brk :: nat
  lib_clock :: "nat \<Rightarrow> timespec"
  lib_ticks :: nat
  lib_wait :: "fuse \<Rightarrow> fuse option"

type_synonym ('d, 'x) lib_ll = "('d, 'x) fuse_lib fuse_ll"

definition set_lib :: "(('d, 'x) fuse_lib \<Rightarrow> ('d, 'x) fuse_lib) \<Rightarrow> ('d, 'x) lib_ll \<Rightarrow> ('d, 'x) lib_ll" where
  "set_lib g f = f\<lparr>userdata := g (userdata f)\<rparr>"

abbreviation lib_nodes :: "('d, 'x) lib_ll \<Rightarrow> fuse" where
  "lib_nodes f \<equiv> nodes (userdata f)"

abbreviation lib_conf :: "('d, 'x) lib_ll \<Rightarrow> fuse_config" where
  "lib_conf f \<equiv> conf (lib_nodes f)"

text \<open>A critical section on the node cache, with and without a result.\<close>

definition on_nodes :: "(fuse \<Rightarrow> ('a \<times> fuse) option) \<Rightarrow> ('d, 'x) lib_ll \<Rightarrow> ('a \<times> ('d, 'x) lib_ll) option" where
  "on_nodes g f = do { (a, c) \<leftarrow> g (lib_nodes f); Some (a, set_lib (nodes_update (\<lambda>_. c)) f) }"

definition nodes_do :: "(fuse \<Rightarrow> fuse option) \<Rightarrow> ('d, 'x) lib_ll \<Rightarrow> ('d, 'x) lib_ll option" where
  "nodes_do g f = do { c \<leftarrow> g (lib_nodes f); Some (set_lib (nodes_update (\<lambda>_. c)) f) }"

text \<open>A call of the file system; \<open>None\<close> is the null pointer \<open>f->fs\<close> has after \<open>fuse_lib_destroy\<close>.\<close>

definition fs_run ::
  "(('d, dirbuf, 'x world) fuse_fs \<Rightarrow> 'x world \<Rightarrow> ('a \<times> 'x world) option) \<Rightarrow> ('d, 'x) lib_ll \<Rightarrow> ('a \<times> ('d, 'x) lib_ll) option" where
  "fs_run g f = do {
     fs \<leftarrow> lib_fs (userdata f);
     (a, w) \<leftarrow> g fs (lib_world (userdata f));
     Some (a, set_lib (lib_world_update (\<lambda>_. w)) f)
   }"

text \<open>The results of the operations, with the world last.\<close>

definition res2 :: "'a \<times> 'b \<times> 'w \<Rightarrow> (('a \<times> 'b) \<times> 'w) option" where
  "res2 x = (case x of (a, b, w) \<Rightarrow> Some ((a, b), w))"

definition res3 :: "'a \<times> 'b \<times> 'c \<times> 'w \<Rightarrow> (('a \<times> 'b \<times> 'c) \<times> 'w) option" where
  "res3 x = (case x of (a, b, c, w) \<Rightarrow> Some ((a, b, c), w))"

definition lib_malloc :: "('d, 'x) lib_ll \<Rightarrow> bool \<times> ('d, 'x) lib_ll" where
  "lib_malloc f = (let (ok, c) = malloc_ok (lib_nodes f) in (ok, set_lib (nodes_update (\<lambda>_. c)) f))"

subsection \<open>Interrupts\<close>

text \<open>
  \<open>fuse_interrupt\<close> with the thread that processes the request: nothing in that thread itself; any
  other thread signals it until it has finished, which it never does for as long as nothing else
  runs. Handlers run in thread 0.
\<close>

definition fuse_interrupt :: "nat \<Rightarrow> nat \<Rightarrow> ('d, 'x) fuse_lib ll_fun" where
  "fuse_interrupt thread r f = (if thread = 0 then Some f else None)"

definition fuse_prepare_interrupt :: "nat \<Rightarrow> ('d, 'x) fuse_lib ll_fun" where
  "fuse_prepare_interrupt r f =
     (if conf_intr (lib_conf f) then fuse_req_interrupt_func fuse_interrupt r (Some 0) f else Some f)"

definition fuse_finish_interrupt :: "nat \<Rightarrow> ('d, 'x) fuse_lib ll_fun" where
  "fuse_finish_interrupt r f =
     (if conf_intr (lib_conf f) then fuse_req_interrupt_func fuse_interrupt r None f else Some f)"

definition with_intr ::
  "nat \<Rightarrow> (('d, 'x) lib_ll \<Rightarrow> ('a \<times> ('d, 'x) lib_ll) option) \<Rightarrow> ('d, 'x) lib_ll \<Rightarrow> ('a \<times> ('d, 'x) lib_ll) option" where
  "with_intr r body f = do {
     f \<leftarrow> fuse_prepare_interrupt r f;
     (a, f) \<leftarrow> body f;
     f \<leftarrow> fuse_finish_interrupt r f;
     Some (a, f)
   }"

subsection \<open>Paths of a request\<close>

definition lib_path :: "nat \<Rightarrow> fuse_ino_t \<Rightarrow> ('d, 'x) lib_ll \<Rightarrow> (path_result \<times> ('d, 'x) lib_ll) option" where
  "lib_path r i f = on_nodes (\<lambda>c. get_path (lib_wait (userdata f)) r c i) f"

definition lib_path_nullok :: "nat \<Rightarrow> fuse_ino_t \<Rightarrow> ('d, 'x) lib_ll \<Rightarrow> (path_result \<times> ('d, 'x) lib_ll) option" where
  "lib_path_nullok r i f = on_nodes (\<lambda>c. get_path_nullok (lib_wait (userdata f)) r c i) f"

definition lib_path_name ::
  "nat \<Rightarrow> fuse_ino_t \<Rightarrow> cstring option \<Rightarrow> ('d, 'x) lib_ll \<Rightarrow> (path_result \<times> ('d, 'x) lib_ll) option" where
  "lib_path_name r i name f = on_nodes (\<lambda>c. get_path_name (lib_wait (userdata f)) r c i name) f"

definition lib_path_wrlock ::
  "nat \<Rightarrow> fuse_ino_t \<Rightarrow> cstring \<Rightarrow> ('d, 'x) lib_ll \<Rightarrow> (path_result \<times> ('d, 'x) lib_ll) option" where
  "lib_path_wrlock r i name f = on_nodes (\<lambda>c. get_path_wrlock (lib_wait (userdata f)) r c i name) f"

definition lib_free_path :: "fuse_ino_t \<Rightarrow> cstring option \<Rightarrow> ('d, 'x) fuse_lib ll_fun" where
  "lib_free_path i path = nodes_do (\<lambda>c. free_path c i path)"

text \<open>
  The frame most handlers have: get the path, do something with it between \<open>fuse_prepare_interrupt\<close>
  and \<open>fuse_finish_interrupt\<close>, and give the path back; \<open>Inl\<close> is the error of getting it.
\<close>

definition with_path ::
  "(('d, 'x) lib_ll \<Rightarrow> (path_result \<times> ('d, 'x) lib_ll) option) \<Rightarrow> fuse_ino_t \<Rightarrow> nat \<Rightarrow>
     (cstring option \<Rightarrow> ('d, 'x) lib_ll \<Rightarrow> ('a \<times> ('d, 'x) lib_ll) option) \<Rightarrow> ('d, 'x) lib_ll \<Rightarrow>
     ((int + 'a) \<times> ('d, 'x) lib_ll) option" where
  "with_path getp i r body f = do {
     (pr, f) \<leftarrow> getp f;
     if pr_err pr = 0 then do {
       (a, f) \<leftarrow> with_intr r (body (pr_path pr)) f;
       f \<leftarrow> lib_free_path i (pr_path pr) f;
       Some (Inr a, f)
     } else Some (Inl (pr_err pr), f)
   }"

definition path_err :: "int + int \<Rightarrow> int" where
  "path_err res = (case res of Inl err \<Rightarrow> err | Inr err \<Rightarrow> err)"

subsection \<open>Requests and replies\<close>

definition req_fuse_prepare :: "nat \<Rightarrow> ('d, 'x) fuse_lib ll_fun" where
  "req_fuse_prepare r f = do {
     q \<leftarrow> reqs f r;
     let ctx = req_ctx q;
     Some (set_lib (lib_world_update (w_ctx_update (\<lambda>_. \<lparr>cx_req = r, cx_uid = ctx_uid ctx, cx_gid = ctx_gid ctx,
       cx_pid = ctx_pid ctx, cx_umask = ctx_umask ctx\<rparr>))) f)
   }"

text \<open>\<open>reply_err\<close> of \<open>fuse.c\<close>, which takes \<open>-errno\<close>.\<close>

definition lib_reply_err :: "nat \<Rightarrow> int \<Rightarrow> ('d, 'x) fuse_lib ll_fun" where
  "lib_reply_err r err f = map_option snd (fuse_reply_err r (- err) f)"

definition reply_entry :: "nat \<Rightarrow> fuse_entry_param \<Rightarrow> int \<Rightarrow> ('d, 'x) fuse_lib ll_fun" where
  "reply_entry r e err f =
     (if err = 0 then do {
        (res, f) \<leftarrow> fuse_reply_entry r e f;
        if res = - ENOENT \<and> e_ino e \<noteq> 0 then nodes_do (\<lambda>c. forget_node c (e_ino e) 1) f else Some f
      } else lib_reply_err r err f)"

definition entry0 :: fuse_entry_param where
  "entry0 = \<lparr>e_ino = 0, e_generation = 0, e_attr = stat0, e_attr_timeout = 0, e_entry_timeout = 0\<rparr>"

subsection \<open>Attributes\<close>

definition S_ISREG :: "u32 \<Rightarrow> bool" where
  "S_ISREG mode \<longleftrightarrow> mode AND 0xF000 = 0x8000"

definition set_stat :: "fuse_config \<Rightarrow> fuse_ino_t \<Rightarrow> stat \<Rightarrow> stat" where
  "set_stat cfg i st =
     (let st = (if \<not> use_ino cfg then st\<lparr>st_ino := i\<rparr> else st);
          st = (if set_mode cfg then st\<lparr>st_mode := (st_mode st AND 0xF000) OR (0x1ff AND NOT (conf_umask cfg))\<rparr> else st);
          st = (if set_uid cfg then st\<lparr>st_uid := conf_uid cfg\<rparr> else st)
      in if set_gid cfg then st\<lparr>st_gid := conf_gid cfg\<rparr> else st)"

definition mtime_eq :: "stat \<Rightarrow> timespec \<Rightarrow> bool" where
  "mtime_eq st ts \<longleftrightarrow> tv_sec (st_mtim st) = tv_sec ts \<and> tv_nsec (st_mtim st) = tv_nsec ts"

text \<open>A reading of the clock.\<close>

definition curr_time :: "('d, 'x) lib_ll \<Rightarrow> timespec \<times> ('d, 'x) lib_ll" where
  "curr_time f = (lib_clock (userdata f) (lib_ticks (userdata f)), set_lib (lib_ticks_update Suc) f)"

definition update_stat :: "addr \<Rightarrow> stat \<Rightarrow> ('d, 'x) fuse_lib ll_fun" where
  "update_stat a st f = do {
     n \<leftarrow> heap (lib_nodes f) a;
     let valid = (cache_valid n \<and> \<not> (\<not> mtime_eq st (node_mtime n) \<or> st_size st \<noteq> node_size n));
     let (now, f) = curr_time f;
     nodes_do (\<lambda>c. Some (upd_node a (\<lambda>n. n\<lparr>cache_valid := valid,
       node_mtime := \<lparr>tv_sec = tv_sec (st_mtim st), tv_nsec = tv_nsec (st_mtim st)\<rparr>,
       node_size := st_size st, stat_updated := now\<rparr>) c)) f
   }"

definition update_stat_ino :: "fuse_ino_t \<Rightarrow> stat \<Rightarrow> ('d, 'x) fuse_lib ll_fun" where
  "update_stat_ino i st f = do { a \<leftarrow> get_node (lib_nodes f) i; update_stat a st f }"

text \<open>\<open>lookup_path\<close>: the result, the entry and, with a file, what the operation made of it.\<close>

definition lookup_path ::
  "fuse_ino_t \<Rightarrow> cstring option \<Rightarrow> cstring option \<Rightarrow> fuse_file_info option \<Rightarrow> ('d, 'x) lib_ll \<Rightarrow>
     ((int \<times> fuse_entry_param \<times> fuse_file_info option) \<times> ('d, 'x) lib_ll) option" where
  "lookup_path i name path fi f = do {
     ((res, st, fi), f) \<leftarrow>
       (case fi of
          Some x \<Rightarrow> do { ((res, st, x), f) \<leftarrow> fs_run (\<lambda>fs w. res3 (fuse_fs_fgetattr fs path stat0 x w)) f; Some ((res, st, Some x), f) }
        | None \<Rightarrow> do { ((res, st), f) \<leftarrow> fs_run (\<lambda>fs w. res2 (fuse_fs_getattr fs path stat0 w)) f; Some ((res, st, None), f) });
     let e = entry0\<lparr>e_attr := st\<rparr>;
     if res = 0 then do {
       (a, f) \<leftarrow> on_nodes (\<lambda>c. find_node c i name) f;
       case a of
         None \<Rightarrow> Some ((- ENOMEM, e, fi), f)
       | Some a \<Rightarrow> do {
           n \<leftarrow> heap (lib_nodes f) a;
           let e = e\<lparr>e_ino := nodeid n, e_generation := ucast (node_generation n),
             e_entry_timeout := entry_timeout (lib_conf f), e_attr_timeout := attr_timeout (lib_conf f)\<rparr>;
           f \<leftarrow> (if auto_cache (lib_conf f) then update_stat a st f else Some f);
           Some ((0, e\<lparr>e_attr := set_stat (lib_conf f) (e_ino e) st\<rparr>, fi), f)
         }
     } else Some ((res, e, fi), f)
   }"

subsection \<open>Files that are removed while open\<close>

definition is_open :: "fuse \<Rightarrow> fuse_ino_t \<Rightarrow> cstring \<Rightarrow> bool" where
  "is_open c dir name =
     (case lookup_node c dir name of
        Some a \<Rightarrow> (case heap c a of Some n \<Rightarrow> open_count n > 0 | None \<Rightarrow> False)
      | None \<Rightarrow> False)"

definition hex_digit :: "nat \<Rightarrow> char" where
  "hex_digit d = ''0123456789abcdef'' ! (d mod 16)"

text \<open>The conversion \<open>%08x\<close>.\<close>

definition hex8 :: "u32 \<Rightarrow> cstring" where
  "hex8 w = map (\<lambda>i. hex_digit (unat (drop_bit (4 * i) w))) (rev [0..<8])"

definition hidden_string :: "fuse_ino_t \<Rightarrow> u32 \<Rightarrow> cstring" where
  "hidden_string i k = ''.fuse_hidden'' @ hex8 (ucast i) @ hex8 k"

text \<open>The inner loop of \<open>hidden_name\<close>: a name the node cache does not know. Without end when every
  such name is known.\<close>

partial_function (option) next_hidden :: "fuse \<Rightarrow> fuse_ino_t \<Rightarrow> fuse_ino_t \<Rightarrow> (cstring \<times> fuse) option" where
  [code]: "next_hidden c dir i =
     (let c = c\<lparr>hidectr := hidectr c + 1\<rparr>; name = hidden_string i (hidectr c)
      in if lookup_node c dir name \<noteq> None then next_hidden c dir i else Some (name, c))"

text \<open>The outer loop, with the number of tries left; the new name and the new path.\<close>

primrec hidden_tries ::
  "nat \<Rightarrow> fuse_ino_t \<Rightarrow> cstring \<Rightarrow> ('d, 'x) lib_ll \<Rightarrow> ((cstring \<times> cstring option) \<times> ('d, 'x) lib_ll) option" where
  "hidden_tries 0 dir oldname f = Some (([], None), f)"
| "hidden_tries (Suc failctr) dir oldname f =
     (case lookup_node (lib_nodes f) dir oldname of
        None \<Rightarrow> Some (([], None), f)
      | Some a \<Rightarrow> do {
          n \<leftarrow> heap (lib_nodes f) a;
          ((newname, pr), f) \<leftarrow> on_nodes (\<lambda>c. do {
             (newname, c) \<leftarrow> next_hidden c dir (nodeid n);
             (pr, c) \<leftarrow> try_get_path c dir (Some newname) False 0;
             Some ((newname, pr), c)
           }) f;
          case pr_path pr of
            None \<Rightarrow> Some ((newname, None), f)
          | Some newpath \<Rightarrow> do {
              ((res, _), f) \<leftarrow> fs_run (\<lambda>fs w. res2 (fuse_fs_getattr fs (Some newpath) stat0 w)) f;
              if res = - ENOENT then Some ((newname, Some newpath), f)
              else if res = 0 then hidden_tries failctr dir oldname f
              else Some ((newname, None), f)
            }
        })"

definition hidden_name ::
  "fuse_ino_t \<Rightarrow> cstring \<Rightarrow> ('d, 'x) lib_ll \<Rightarrow> ((cstring \<times> cstring option) \<times> ('d, 'x) lib_ll) option" where
  "hidden_name dir oldname f = hidden_tries 10 dir oldname f"

definition hide_node ::
  "cstring option \<Rightarrow> fuse_ino_t \<Rightarrow> cstring \<Rightarrow> ('d, 'x) lib_ll \<Rightarrow> (int \<times> ('d, 'x) lib_ll) option" where
  "hide_node oldpath dir oldname f = do {
     ((newname, newpath), f) \<leftarrow> hidden_name dir oldname f;
     case newpath of
       None \<Rightarrow> Some (- EBUSY, f)
     | Some p \<Rightarrow> do {
         (err, f) \<leftarrow> fs_run (\<lambda>fs w. Some (fuse_fs_rename fs oldpath (Some p) w)) f;
         if err = 0 then on_nodes (\<lambda>c. rename_node c dir oldname dir newname True) f else Some (err, f)
       }
   }"

subsection \<open>Start and end\<close>

definition fuse_lib_init :: "('d, 'x) fuse_lib ll_fun" where
  "fuse_lib_init f = do {
     let f = set_lib (lib_world_update (w_ctx_update (\<lambda>_. \<lparr>cx_req = 0, cx_uid = 0, cx_gid = 0, cx_pid = 0, cx_umask = 0\<rparr>))) f;
     let c = (conn f)\<lparr>want := want (conn f) OR 16\<rparr>;
     fs \<leftarrow> lib_fs (userdata f);
     let (fs, c, w) = fuse_fs_init fs c (lib_world (userdata f));
     Some (set_lib (\<lambda>l. l\<lparr>lib_fs := Some fs, lib_world := w\<rparr>) (f\<lparr>conn := c\<rparr>))
   }"

definition fuse_lib_destroy :: "('d, 'x) fuse_lib ll_fun" where
  "fuse_lib_destroy f = do {
     let f = set_lib (lib_world_update (w_ctx_update (\<lambda>_. \<lparr>cx_req = 0, cx_uid = 0, cx_gid = 0, cx_pid = 0, cx_umask = 0\<rparr>))) f;
     fs \<leftarrow> lib_fs (userdata f);
     let w = fuse_fs_destroy fs (lib_world (userdata f));
     Some (set_lib (\<lambda>l. l\<lparr>lib_fs := None, lib_world := w\<rparr>) f)
   }"

subsection \<open>Lookup and attributes\<close>

text \<open>\<open>fuse_lib_lookup\<close> after the names \<open>.\<close> and \<open>..\<close> are resolved; \<open>dot\<close> is the node that is kept
  meanwhile.\<close>

definition lookup_entry :: "nat \<Rightarrow> fuse_ino_t \<Rightarrow> cstring option \<Rightarrow> addr option \<Rightarrow> ('d, 'x) fuse_lib ll_fun" where
  "lookup_entry r dir name dot f = do {
     (res, f) \<leftarrow> with_path (lib_path_name r dir name) dir r (\<lambda>path f. do {
         ((err, e, _), f) \<leftarrow> lookup_path dir name path None f;
         Some (if err = - ENOENT \<and> negative_timeout (lib_conf f) \<noteq> 0
               then (0, e\<lparr>e_ino := 0, e_entry_timeout := negative_timeout (lib_conf f)\<rparr>) else (err, e), f)
       }) f;
     f \<leftarrow> (case dot of Some a \<Rightarrow> nodes_do (\<lambda>c. unref_node c a) f | None \<Rightarrow> Some f);
     case res of Inl err \<Rightarrow> reply_entry r entry0 err f | Inr (err, e) \<Rightarrow> reply_entry r e err f
   }"

definition fuse_lib_lookup :: "nat \<Rightarrow> fuse_ino_t \<Rightarrow> cstring \<Rightarrow> ('d, 'x) fuse_lib ll_fun" where
  "fuse_lib_lookup r dir name f = do {
     f \<leftarrow> req_fuse_prepare r f;
     if name = ''.'' then
       (case get_node_nocheck (lib_nodes f) dir of
          None \<Rightarrow> reply_entry r entry0 (- ESTALE) f
        | Some a \<Rightarrow> do {
            f \<leftarrow> nodes_do (\<lambda>c. Some (upd_node a (refctr_update (\<lambda>k. k + 1)) c)) f;
            lookup_entry r dir None (Some a) f
          })
     else if name = ''..'' then do {
       a \<leftarrow> get_node (lib_nodes f) dir;
       n \<leftarrow> heap (lib_nodes f) a;
       p \<leftarrow> parent n;
       pn \<leftarrow> heap (lib_nodes f) p;
       lookup_entry r (nodeid pn) None None f
     }
     else lookup_entry r dir (Some name) None f
   }"

definition fuse_lib_forget :: "nat \<Rightarrow> fuse_ino_t \<Rightarrow> u64 \<Rightarrow> ('d, 'x) fuse_lib ll_fun" where
  "fuse_lib_forget r i k f = do {
     f \<leftarrow> nodes_do (\<lambda>c. forget_node c i k) f;
     fuse_reply_none r f
   }"

definition reply_attr :: "nat \<Rightarrow> fuse_ino_t \<Rightarrow> int \<Rightarrow> stat \<Rightarrow> ('d, 'x) fuse_lib ll_fun" where
  "reply_attr r i err st f =
     (if err = 0 then do {
        f \<leftarrow> (if auto_cache (lib_conf f) then update_stat_ino i st f else Some f);
        map_option snd (fuse_reply_attr r (set_stat (lib_conf f) i st) (attr_timeout (lib_conf f)) f)
      } else lib_reply_err r err f)"

definition fuse_lib_getattr :: "nat \<Rightarrow> fuse_ino_t \<Rightarrow> fuse_file_info option \<Rightarrow> ('d, 'x) fuse_lib ll_fun" where
  "fuse_lib_getattr r i fi f = do {
     f \<leftarrow> req_fuse_prepare r f;
     (res, f) \<leftarrow> with_path (if fi \<noteq> None then lib_path_nullok r i else lib_path r i) i r (\<lambda>path f.
         case fi of
           Some x \<Rightarrow> do { ((err, st, _), f) \<leftarrow> fs_run (\<lambda>fs w. res3 (fuse_fs_fgetattr fs path stat0 x w)) f; Some ((err, st), f) }
         | None \<Rightarrow> fs_run (\<lambda>fs w. res2 (fuse_fs_getattr fs path stat0 w)) f) f;
     case res of Inl err \<Rightarrow> reply_attr r i err stat0 f | Inr (err, st) \<Rightarrow> reply_attr r i err st f
   }"

text \<open>A step of \<open>fuse_lib_setattr\<close>, done when there is no error yet and the attribute is asked for.\<close>

definition and_then ::
  "bool \<Rightarrow> (('d, 'x) lib_ll \<Rightarrow> (int \<times> ('d, 'x) lib_ll) option) \<Rightarrow> int \<times> ('d, 'x) lib_ll \<Rightarrow> (int \<times> ('d, 'x) lib_ll) option" where
  "and_then c g x = (case x of (err, f) \<Rightarrow> if err = 0 \<and> c then g f else Some (err, f))"

definition set_attrs ::
  "stat \<Rightarrow> u32 \<Rightarrow> fuse_file_info option \<Rightarrow> cstring option \<Rightarrow> ('d, 'x) lib_ll \<Rightarrow> ((int \<times> stat) \<times> ('d, 'x) lib_ll) option" where
  "set_attrs attr valid fi path f = do {
     x \<leftarrow> and_then (valid AND 1 \<noteq> 0) (fs_run (\<lambda>fs w. Some (fuse_fs_chmod fs path (st_mode attr) w))) (0, f);
     x \<leftarrow> and_then (valid AND 6 \<noteq> 0) (fs_run (\<lambda>fs w. Some (fuse_fs_chown fs path
            (if valid AND 2 \<noteq> 0 then st_uid attr else - 1) (if valid AND 4 \<noteq> 0 then st_gid attr else - 1) w))) x;
     x \<leftarrow> and_then (valid AND 8 \<noteq> 0)
            (case fi of
               Some fx \<Rightarrow> (\<lambda>f. do { ((err, _), f) \<leftarrow> fs_run (\<lambda>fs w. res2 (fuse_fs_ftruncate fs path (st_size attr) fx w)) f; Some (err, f) })
             | None \<Rightarrow> fs_run (\<lambda>fs w. Some (fuse_fs_truncate fs path (st_size attr) w))) x;
     x \<leftarrow> and_then (valid AND 0x30 = 0x30) (fs_run (\<lambda>fs w. Some (fuse_fs_utimens fs path (st_atim attr) (st_mtim attr) w))) x;
     case x of (err, f) \<Rightarrow>
       if err = 0 then fs_run (\<lambda>fs w. res2 (fuse_fs_getattr fs path stat0 w)) f else Some ((err, stat0), f)
   }"

definition fuse_lib_setattr ::
  "nat \<Rightarrow> fuse_ino_t \<Rightarrow> stat \<Rightarrow> u32 \<Rightarrow> fuse_file_info option \<Rightarrow> ('d, 'x) fuse_lib ll_fun" where
  "fuse_lib_setattr r i attr valid fi f = do {
     f \<leftarrow> req_fuse_prepare r f;
     (res, f) \<leftarrow> with_path (lib_path r i) i r (set_attrs attr valid fi) f;
     case res of Inl err \<Rightarrow> reply_attr r i err stat0 f | Inr (err, st) \<Rightarrow> reply_attr r i err st f
   }"

definition fuse_lib_access :: "nat \<Rightarrow> fuse_ino_t \<Rightarrow> int \<Rightarrow> ('d, 'x) fuse_lib ll_fun" where
  "fuse_lib_access r i msk f = do {
     f \<leftarrow> req_fuse_prepare r f;
     (res, f) \<leftarrow> with_path (lib_path r i) i r (\<lambda>path. fs_run (\<lambda>fs w. Some (fuse_fs_access fs path msk w))) f;
     lib_reply_err r (path_err res) f
   }"

text \<open>The buffer has \<open>PATH_MAX + 1\<close> bytes; what the operation left in it is cut at its end.\<close>

definition fuse_lib_readlink :: "nat \<Rightarrow> fuse_ino_t \<Rightarrow> ('d, 'x) fuse_lib ll_fun" where
  "fuse_lib_readlink r i f = do {
     f \<leftarrow> req_fuse_prepare r f;
     (res, f) \<leftarrow> with_path (lib_path r i) i r
       (\<lambda>path. fs_run (\<lambda>fs w. res2 (fuse_fs_readlink fs path 4097 (replicate 4097 NUL) w))) f;
     case res of
       Inl err \<Rightarrow> lib_reply_err r err f
     | Inr (err, linkname) \<Rightarrow>
         if err = 0 then map_option snd (fuse_reply_readlink r (takeWhile (\<lambda>c. c \<noteq> NUL) (take 4096 linkname)) f)
         else lib_reply_err r err f
   }"

subsection \<open>Names\<close>

text \<open>\<open>O_CREAT | O_EXCL | O_WRONLY\<close>\<close>

abbreviation (input) CREAT_FLAGS :: int where "CREAT_FLAGS \<equiv> 0xC1"

definition release_ignored :: "cstring option \<Rightarrow> fuse_file_info \<Rightarrow> ('d, 'x) fuse_lib ll_fun" where
  "release_ignored path fi f =
     map_option snd (fs_run (\<lambda>fs w. map_option (\<lambda>(res, fi, w). (res, w)) (fuse_fs_release fs path fi w)) f)"

definition fuse_lib_mknod :: "nat \<Rightarrow> fuse_ino_t \<Rightarrow> cstring \<Rightarrow> u32 \<Rightarrow> u32 \<Rightarrow> ('d, 'x) fuse_lib ll_fun" where
  "fuse_lib_mknod r dir name mode rdev f = do {
     f \<leftarrow> req_fuse_prepare r f;
     (res, f) \<leftarrow> with_path (lib_path_name r dir (Some name)) dir r (\<lambda>path f. do {
         ((err, e), f) \<leftarrow>
           (if S_ISREG mode then do {
              ((err, fi), f) \<leftarrow> fs_run (\<lambda>fs w. res2 (fuse_fs_create fs path mode (fi_zero\<lparr>fi_flags := CREAT_FLAGS\<rparr>) w)) f;
              if err = 0 then do {
                ((err, e, fi'), f) \<leftarrow> lookup_path dir (Some name) path (Some fi) f;
                f \<leftarrow> release_ignored path (case fi' of Some x \<Rightarrow> x | None \<Rightarrow> fi) f;
                Some ((err, e), f)
              } else Some ((err, entry0), f)
            } else Some ((- ENOSYS, entry0), f));
         if err = - ENOSYS then do {
           (err, f) \<leftarrow> fs_run (\<lambda>fs w. Some (fuse_fs_mknod fs path mode (ucast rdev) w)) f;
           if err = 0 then do { ((err, e, _), f) \<leftarrow> lookup_path dir (Some name) path None f; Some ((err, e), f) }
           else Some ((err, e), f)
         } else Some ((err, e), f)
       }) f;
     case res of Inl err \<Rightarrow> reply_entry r entry0 err f | Inr (err, e) \<Rightarrow> reply_entry r e err f
   }"

text \<open>A new name made by one operation, then looked up.\<close>

definition make_entry ::
  "fuse_ino_t \<Rightarrow> cstring \<Rightarrow> (('d, 'x) lib_ll \<Rightarrow> (int \<times> ('d, 'x) lib_ll) option) \<Rightarrow> cstring option \<Rightarrow> ('d, 'x) lib_ll \<Rightarrow>
     ((int \<times> fuse_entry_param) \<times> ('d, 'x) lib_ll) option" where
  "make_entry dir name op path f = do {
     (err, f) \<leftarrow> op f;
     if err = 0 then do { ((err, e, _), f) \<leftarrow> lookup_path dir (Some name) path None f; Some ((err, e), f) }
     else Some ((err, entry0), f)
   }"

definition fuse_lib_mkdir :: "nat \<Rightarrow> fuse_ino_t \<Rightarrow> cstring \<Rightarrow> u32 \<Rightarrow> ('d, 'x) fuse_lib ll_fun" where
  "fuse_lib_mkdir r dir name mode f = do {
     f \<leftarrow> req_fuse_prepare r f;
     (res, f) \<leftarrow> with_path (lib_path_name r dir (Some name)) dir r
       (\<lambda>path. make_entry dir name (fs_run (\<lambda>fs w. Some (fuse_fs_mkdir fs path mode w))) path) f;
     case res of Inl err \<Rightarrow> reply_entry r entry0 err f | Inr (err, e) \<Rightarrow> reply_entry r e err f
   }"

definition fuse_lib_symlink :: "nat \<Rightarrow> cstring \<Rightarrow> fuse_ino_t \<Rightarrow> cstring \<Rightarrow> ('d, 'x) fuse_lib ll_fun" where
  "fuse_lib_symlink r linkname dir name f = do {
     f \<leftarrow> req_fuse_prepare r f;
     (res, f) \<leftarrow> with_path (lib_path_name r dir (Some name)) dir r
       (\<lambda>path. make_entry dir name (fs_run (\<lambda>fs w. Some (fuse_fs_symlink fs (Some linkname) path w))) path) f;
     case res of Inl err \<Rightarrow> reply_entry r entry0 err f | Inr (err, e) \<Rightarrow> reply_entry r e err f
   }"

definition fuse_lib_unlink :: "nat \<Rightarrow> fuse_ino_t \<Rightarrow> cstring \<Rightarrow> ('d, 'x) fuse_lib ll_fun" where
  "fuse_lib_unlink r dir name f = do {
     f \<leftarrow> req_fuse_prepare r f;
     (pr, f) \<leftarrow> lib_path_wrlock r dir name f;
     if pr_err pr = 0 then do {
       (err, f) \<leftarrow> with_intr r (\<lambda>f.
         if \<not> hard_remove (lib_conf f) \<and> is_open (lib_nodes f) dir name then hide_node (pr_path pr) dir name f
         else do {
           (err, f) \<leftarrow> fs_run (\<lambda>fs w. Some (fuse_fs_unlink fs (pr_path pr) w)) f;
           f \<leftarrow> (if err = 0 then nodes_do (\<lambda>c. remove_node c dir name) f else Some f);
           Some (err, f)
         }) f;
       f \<leftarrow> nodes_do (\<lambda>c. free_path_wrlock c dir (pr_wnode pr)) f;
       lib_reply_err r err f
     } else lib_reply_err r (pr_err pr) f
   }"

definition fuse_lib_rmdir :: "nat \<Rightarrow> fuse_ino_t \<Rightarrow> cstring \<Rightarrow> ('d, 'x) fuse_lib ll_fun" where
  "fuse_lib_rmdir r dir name f = do {
     f \<leftarrow> req_fuse_prepare r f;
     (pr, f) \<leftarrow> lib_path_wrlock r dir name f;
     if pr_err pr = 0 then do {
       (err, f) \<leftarrow> with_intr r (fs_run (\<lambda>fs w. Some (fuse_fs_rmdir fs (pr_path pr) w))) f;
       f \<leftarrow> (if err = 0 then nodes_do (\<lambda>c. remove_node c dir name) f else Some f);
       f \<leftarrow> nodes_do (\<lambda>c. free_path_wrlock c dir (pr_wnode pr)) f;
       lib_reply_err r err f
     } else lib_reply_err r (pr_err pr) f
   }"

definition fuse_lib_rename :: "nat \<Rightarrow> fuse_ino_t \<Rightarrow> cstring \<Rightarrow> fuse_ino_t \<Rightarrow> cstring \<Rightarrow> ('d, 'x) fuse_lib ll_fun" where
  "fuse_lib_rename r olddir oldname newdir newname f = do {
     f \<leftarrow> req_fuse_prepare r f;
     (pr, f) \<leftarrow> on_nodes (\<lambda>c. get_path2 (lib_wait (userdata f)) r c olddir (Some oldname) newdir (Some newname) True True) f;
     if pr2_err pr = 0 then do {
       (err, f) \<leftarrow> with_intr r (\<lambda>f. do {
         (err, f) \<leftarrow> (if \<not> hard_remove (lib_conf f) \<and> is_open (lib_nodes f) newdir newname
                     then hide_node (pr2_path2 pr) newdir newname f else Some (0, f));
         if err = 0 then do {
           (err, f) \<leftarrow> fs_run (\<lambda>fs w. Some (fuse_fs_rename fs (pr2_path1 pr) (pr2_path2 pr) w)) f;
           if err = 0 then on_nodes (\<lambda>c. rename_node c olddir oldname newdir newname False) f else Some (err, f)
         } else Some (err, f)
       }) f;
       f \<leftarrow> nodes_do (\<lambda>c. free_path2 c olddir newdir (pr2_wnode1 pr) (pr2_wnode2 pr)) f;
       lib_reply_err r err f
     } else lib_reply_err r (pr2_err pr) f
   }"

definition fuse_lib_link :: "nat \<Rightarrow> fuse_ino_t \<Rightarrow> fuse_ino_t \<Rightarrow> cstring \<Rightarrow> ('d, 'x) fuse_lib ll_fun" where
  "fuse_lib_link r i newparent newname f = do {
     f \<leftarrow> req_fuse_prepare r f;
     (pr, f) \<leftarrow> on_nodes (\<lambda>c. get_path2 (lib_wait (userdata f)) r c i None newparent (Some newname) False False) f;
     if pr2_err pr = 0 then do {
       ((err, e), f) \<leftarrow> with_intr r (make_entry newparent newname
           (fs_run (\<lambda>fs w. Some (fuse_fs_link fs (pr2_path1 pr) (pr2_path2 pr) w))) (pr2_path2 pr)) f;
       f \<leftarrow> nodes_do (\<lambda>c. free_path2 c i newparent None None) f;
       reply_entry r e err f
     } else reply_entry r entry0 (pr2_err pr) f
   }"

subsection \<open>Files\<close>

text \<open>The path an operation on an open file is given when the file has none.\<close>

definition path_or_dash :: "('d, 'x) lib_ll \<Rightarrow> cstring option \<Rightarrow> cstring option" where
  "path_or_dash f path = (if path \<noteq> None \<or> nullpath_ok (lib_nodes f) then path else Some ''-'')"

definition fuse_do_release :: "fuse_ino_t \<Rightarrow> cstring option \<Rightarrow> fuse_file_info \<Rightarrow> ('d, 'x) fuse_lib ll_fun" where
  "fuse_do_release i path fi f = do {
     f \<leftarrow> release_ignored (path_or_dash f path) fi f;
     a \<leftarrow> get_node (lib_nodes f) i;
     n \<leftarrow> heap (lib_nodes f) a;
     if open_count n > 0 then do {
       let unlink_hidden = (is_hidden n \<and> open_count n = 1);
       f \<leftarrow> nodes_do (\<lambda>c. Some (upd_node a (\<lambda>n. n\<lparr>open_count := open_count n - 1,
              is_hidden := (if unlink_hidden then False else is_hidden n)\<rparr>) c)) f;
       if unlink_hidden \<and> path \<noteq> None
       then map_option snd (fs_run (\<lambda>fs w. Some (fuse_fs_unlink fs path w)) f) else Some f
     } else None
   }"

definition count_open :: "fuse_ino_t \<Rightarrow> ('d, 'x) fuse_lib ll_fun" where
  "count_open i = nodes_do (\<lambda>c. do { a \<leftarrow> get_node c i; Some (upd_node a (open_count_update (\<lambda>k. k + 1)) c) })"

definition open_flags :: "fuse_config \<Rightarrow> fuse_file_info \<Rightarrow> fuse_file_info" where
  "open_flags cfg fi = fi\<lparr>direct_io := (conf_direct_io cfg \<or> direct_io fi), keep_cache := (kernel_cache cfg \<or> keep_cache fi)\<rparr>"

definition create_entry ::
  "fuse_ino_t \<Rightarrow> cstring \<Rightarrow> u32 \<Rightarrow> fuse_file_info \<Rightarrow> cstring option \<Rightarrow> ('d, 'x) lib_ll \<Rightarrow>
     ((int \<times> fuse_entry_param \<times> fuse_file_info) \<times> ('d, 'x) lib_ll) option" where
  "create_entry dir name mode fi path f = do {
     ((err, fi), f) \<leftarrow> fs_run (\<lambda>fs w. res2 (fuse_fs_create fs path mode fi w)) f;
     if err = 0 then do {
       ((err, e, fi'), f) \<leftarrow> lookup_path dir (Some name) path (Some fi) f;
       let fi = (case fi' of Some x \<Rightarrow> x | None \<Rightarrow> fi);
       if err \<noteq> 0 then do { f \<leftarrow> release_ignored path fi f; Some ((err, e, fi), f) }
       else if \<not> S_ISREG (st_mode (e_attr e)) then do {
         f \<leftarrow> release_ignored path fi f;
         f \<leftarrow> nodes_do (\<lambda>c. forget_node c (e_ino e) 1) f;
         Some ((- EIO, e, fi), f)
       }
       else Some ((0, e, open_flags (lib_conf f) fi), f)
     } else Some ((err, entry0, fi), f)
   }"

definition fuse_lib_create ::
  "nat \<Rightarrow> fuse_ino_t \<Rightarrow> cstring \<Rightarrow> u32 \<Rightarrow> fuse_file_info \<Rightarrow> ('d, 'x) fuse_lib ll_fun" where
  "fuse_lib_create r dir name mode fi f = do {
     f \<leftarrow> req_fuse_prepare r f;
     (pr, f) \<leftarrow> lib_path_name r dir (Some name) f;
     let path = pr_path pr;
     ((err, e, fi), f) \<leftarrow>
       (if pr_err pr = 0 then with_intr r (create_entry dir name mode fi path) f else Some ((pr_err pr, entry0, fi), f));
     f \<leftarrow> (if err = 0 then do {
             f \<leftarrow> count_open (e_ino e) f;
             (res, f) \<leftarrow> fuse_reply_create r e fi f;
             if res = - ENOENT then do {
               f \<leftarrow> fuse_prepare_interrupt r f;
               f \<leftarrow> fuse_do_release (e_ino e) path fi f;
               f \<leftarrow> fuse_finish_interrupt r f;
               nodes_do (\<lambda>c. forget_node c (e_ino e) 1) f
             } else Some f
           } else lib_reply_err r err f);
     lib_free_path dir path f
   }"

text \<open>Seconds as a real number.\<close>

definition diff_timespec :: "timespec \<Rightarrow> timespec \<Rightarrow> real" where
  "diff_timespec t1 t2 = real_of_int (tv_sec t1 - tv_sec t2) + (real_of_int (tv_nsec t1) - real_of_int (tv_nsec t2)) / 1000000000"

definition open_auto_cache ::
  "fuse_ino_t \<Rightarrow> cstring option \<Rightarrow> fuse_file_info \<Rightarrow> ('d, 'x) lib_ll \<Rightarrow> (fuse_file_info \<times> ('d, 'x) lib_ll) option" where
  "open_auto_cache i path fi f = do {
     a \<leftarrow> get_node (lib_nodes f) i;
     n \<leftarrow> heap (lib_nodes f) a;
     (fi, f) \<leftarrow>
       (if cache_valid n then do {
          let (now, f) = curr_time f;
          if diff_timespec now (stat_updated n) > ac_attr_timeout (lib_conf f) then do {
            ((err, st, fi), f) \<leftarrow> fs_run (\<lambda>fs w. res3 (fuse_fs_fgetattr fs path stat0 fi w)) f;
            f \<leftarrow> (if err = 0 then update_stat a st f
                  else nodes_do (\<lambda>c. Some (upd_node a (cache_valid_update (\<lambda>_. False)) c)) f);
            Some (fi, f)
          } else Some (fi, f)
        } else Some (fi, f));
     n \<leftarrow> heap (lib_nodes f) a;
     f \<leftarrow> nodes_do (\<lambda>c. Some (upd_node a (cache_valid_update (\<lambda>_. True)) c)) f;
     Some (if cache_valid n then fi\<lparr>keep_cache := True\<rparr> else fi, f)
   }"

definition open_path ::
  "fuse_ino_t \<Rightarrow> fuse_file_info \<Rightarrow> cstring option \<Rightarrow> ('d, 'x) lib_ll \<Rightarrow> ((int \<times> fuse_file_info) \<times> ('d, 'x) lib_ll) option" where
  "open_path i fi path f = do {
     ((err, fi), f) \<leftarrow> fs_run (\<lambda>fs w. map_option (\<lambda>(err, fi, w). ((err, fi), w)) (fuse_fs_open fs path fi w)) f;
     if err = 0 then do {
       let fi = open_flags (lib_conf f) fi;
       (fi, f) \<leftarrow> (if auto_cache (lib_conf f) then open_auto_cache i path fi f else Some (fi, f));
       Some ((0, fi), f)
     } else Some ((err, fi), f)
   }"

definition fuse_lib_open :: "nat \<Rightarrow> fuse_ino_t \<Rightarrow> fuse_file_info \<Rightarrow> ('d, 'x) fuse_lib ll_fun" where
  "fuse_lib_open r i fi f = do {
     f \<leftarrow> req_fuse_prepare r f;
     (pr, f) \<leftarrow> lib_path r i f;
     let path = pr_path pr;
     ((err, fi), f) \<leftarrow> (if pr_err pr = 0 then with_intr r (open_path i fi path) f else Some ((pr_err pr, fi), f));
     f \<leftarrow> (if err = 0 then do {
             f \<leftarrow> count_open i f;
             (res, f) \<leftarrow> fuse_reply_open r fi f;
             if res = - ENOENT then do {
               f \<leftarrow> fuse_prepare_interrupt r f;
               f \<leftarrow> fuse_do_release i path fi f;
               fuse_finish_interrupt r f
             } else Some f
           } else lib_reply_err r err f);
     lib_free_path i path f
   }"

text \<open>The first bytes of a buffer; \<open>None\<close> is a read behind its end.\<close>

definition buf_bytes :: "nat \<Rightarrow> cbuf \<Rightarrow> cbuf option" where
  "buf_bytes n buf = (if n \<le> length buf then Some (take n buf) else None)"

definition fuse_lib_read :: "nat \<Rightarrow> fuse_ino_t \<Rightarrow> nat \<Rightarrow> off_t \<Rightarrow> fuse_file_info \<Rightarrow> ('d, 'x) fuse_lib ll_fun" where
  "fuse_lib_read r i sz off fi f = do {
     f \<leftarrow> req_fuse_prepare r f;
     let (ok, f) = lib_malloc f;
     if \<not> ok then lib_reply_err r (- ENOMEM) f
     else do {
       (res, f) \<leftarrow> with_path (lib_path_nullok r i) i r
         (\<lambda>path. fs_run (\<lambda>fs w. res3 (fuse_fs_read fs path sz off (replicate sz NUL) fi w))) f;
       case res of
         Inl err \<Rightarrow> lib_reply_err r err f
       | Inr (n, buf, _) \<Rightarrow>
           if n \<ge> 0 then do { b \<leftarrow> buf_bytes (nat n) buf; map_option snd (fuse_reply_buf r b f) } else lib_reply_err r n f
     }
   }"

definition fuse_lib_write :: "nat \<Rightarrow> fuse_ino_t \<Rightarrow> cbuf \<Rightarrow> nat \<Rightarrow> off_t \<Rightarrow> fuse_file_info \<Rightarrow> ('d, 'x) fuse_lib ll_fun" where
  "fuse_lib_write r i buf sz off fi f = do {
     f \<leftarrow> req_fuse_prepare r f;
     (res, f) \<leftarrow> with_path (lib_path_nullok r i) i r (\<lambda>path. fs_run (\<lambda>fs w. res2 (fuse_fs_write fs path buf sz off fi w))) f;
     case res of
       Inl err \<Rightarrow> lib_reply_err r err f
     | Inr (n, _) \<Rightarrow> if n \<ge> 0 then map_option snd (fuse_reply_write r (nat n) f) else lib_reply_err r n f
   }"

definition fuse_lib_fsync :: "nat \<Rightarrow> fuse_ino_t \<Rightarrow> int \<Rightarrow> fuse_file_info \<Rightarrow> ('d, 'x) fuse_lib ll_fun" where
  "fuse_lib_fsync r i datasync fi f = do {
     f \<leftarrow> req_fuse_prepare r f;
     (res, f) \<leftarrow> with_path (lib_path_nullok r i) i r (\<lambda>path f. do {
         ((err, _), f) \<leftarrow> fs_run (\<lambda>fs w. res2 (fuse_fs_fsync fs path datasync fi w)) f; Some (err, f) }) f;
     lib_reply_err r (path_err res) f
   }"

subsection \<open>Directories\<close>

text \<open>The directory handle a file handle of the kernel points to, and the file handle the file
  system has for it.\<close>

definition get_dirhandle :: "fuse_file_info \<Rightarrow> ('d, 'x) lib_ll \<Rightarrow> (fuse_dh \<times> fuse_file_info) option" where
  "get_dirhandle llfi f = do {
     dh \<leftarrow> dirhandles (userdata f) (fh llfi);
     Some (dh, fi_zero\<lparr>fh := dh_fh dh, fh_old := dh_fh dh\<rparr>)
   }"

definition set_dirhandle :: "u64 \<Rightarrow> fuse_dh option \<Rightarrow> ('d, 'x) lib_ll \<Rightarrow> ('d, 'x) lib_ll" where
  "set_dirhandle h dh = set_lib (dirhandles_update (\<lambda>d. d(h := dh)))"

definition new_dh :: "fuse_ino_t \<Rightarrow> fuse_dh" where
  "new_dh i = \<lparr>dh_req = None, contents = [], dh_len = 0, dh_size = 0, needlen = 0, filled = False, dh_fh = 0,
     dh_error = 0, dh_nodeid = i\<rparr>"

definition fuse_lib_opendir :: "nat \<Rightarrow> fuse_ino_t \<Rightarrow> fuse_file_info \<Rightarrow> ('d, 'x) fuse_lib ll_fun" where
  "fuse_lib_opendir r i llfi f = do {
     f \<leftarrow> req_fuse_prepare r f;
     let (ok, f) = lib_malloc f;
     if \<not> ok then lib_reply_err r (- ENOMEM) f
     else do {
       let h = word_of_nat (dh_brk (userdata f));
       let f = set_lib (dh_brk_update Suc) f;
       let llfi = llfi\<lparr>fh := h\<rparr>;
       (pr, f) \<leftarrow> lib_path r i f;
       let path = pr_path pr;
       ((err, fi), f) \<leftarrow>
         (if pr_err pr = 0
          then with_intr r (fs_run (\<lambda>fs w. map_option (\<lambda>(err, fi, w). ((err, fi), w))
                 (fuse_fs_opendir fs path (fi_zero\<lparr>fi_flags := fi_flags llfi\<rparr>) w))) f
          else Some ((pr_err pr, fi_zero), f));
       f \<leftarrow> (if err = 0 then do {
               let f = set_dirhandle h (Some ((new_dh i)\<lparr>dh_fh := fh fi\<rparr>)) f;
               (res, f) \<leftarrow> fuse_reply_open r llfi f;
               if res = - ENOENT then do {
                 f \<leftarrow> fuse_prepare_interrupt r f;
                 (_, f) \<leftarrow> fs_run (\<lambda>fs w. res2 (fuse_fs_releasedir fs path fi w)) f;
                 f \<leftarrow> fuse_finish_interrupt r f;
                 Some (set_dirhandle h None f)
               } else Some f
             } else lib_reply_err r err f);
       lib_free_path i path f
     }
   }"

text \<open>\<open>readdir_fill\<close>: the error, the handle and the state. The handle is locked meanwhile, so nobody
  else changes it.\<close>

definition readdir_fill ::
  "nat \<Rightarrow> fuse_ino_t \<Rightarrow> nat \<Rightarrow> off_t \<Rightarrow> fuse_dh \<Rightarrow> fuse_file_info \<Rightarrow> ('d, 'x) lib_ll \<Rightarrow> ((int \<times> fuse_dh) \<times> ('d, 'x) lib_ll) option" where
  "readdir_fill r i sz off dh fi f = do {
     (pr, f) \<leftarrow> lib_path r i f;
     if pr_err pr = 0 then do {
       let dh = dh\<lparr>dh_len := 0, dh_error := 0, needlen := unsigned32 (int sz), filled := True, dh_req := Some r\<rparr>;
       ((err, dh), f) \<leftarrow> with_intr r (\<lambda>f. do {
           ((err, d), f) \<leftarrow> fs_run (\<lambda>fs w.
               case fuse_fs_readdir fs (pr_path pr) fill_dir off (Some (dh, lib_nodes f)) fi w of
                 (err, d, _, w) \<Rightarrow> Some ((err, d), w)) f;
           (dh, c) \<leftarrow> d;
           Some ((err, dh), set_lib (nodes_update (\<lambda>_. c)) f)
         }) f;
       let dh = dh\<lparr>dh_req := None\<rparr>;
       let err = (if err = 0 then dh_error dh else err);
       let dh = (if err \<noteq> 0 then dh\<lparr>filled := False\<rparr> else dh);
       f \<leftarrow> lib_free_path i (pr_path pr) f;
       Some ((err, dh), f)
     } else Some ((pr_err pr, dh), f)
   }"

text \<open>The part of the buffer a request for \<open>sz\<close> bytes at \<open>off\<close> is answered with.\<close>

definition readdir_slice :: "fuse_dh \<Rightarrow> nat \<Rightarrow> off_t \<Rightarrow> off_t \<times> nat" where
  "readdir_slice dh sz off =
     (if filled dh
      then (off, if off < int (dh_len dh)
                 then if uint (word_of_int (off + int sz) :: u64) > int (dh_len dh) then nat (int (dh_len dh) - off) else sz
                 else 0)
      else (0, dh_len dh))"

definition fuse_lib_readdir :: "nat \<Rightarrow> fuse_ino_t \<Rightarrow> nat \<Rightarrow> off_t \<Rightarrow> fuse_file_info \<Rightarrow> ('d, 'x) fuse_lib ll_fun" where
  "fuse_lib_readdir r i sz off llfi f = do {
     f \<leftarrow> req_fuse_prepare r f;
     (dh, fi) \<leftarrow> get_dirhandle llfi f;
     let dh = (if off = 0 then dh\<lparr>filled := False\<rparr> else dh);
     ((err, dh), f) \<leftarrow> (if \<not> filled dh then readdir_fill r i sz off dh fi f else Some ((0, dh), f));
     let f = set_dirhandle (fh llfi) (Some dh) f;
     if err \<noteq> 0 then lib_reply_err r err f
     else (case readdir_slice dh sz off of (off, n) \<Rightarrow>
       if n = 0 then map_option snd (fuse_reply_buf r [] f)
       else if off < 0 then None
       else do { b \<leftarrow> buf_bytes n (drop (nat off) (contents dh)); map_option snd (fuse_reply_buf r b f) })
   }"

definition fuse_lib_releasedir :: "nat \<Rightarrow> fuse_ino_t \<Rightarrow> fuse_file_info \<Rightarrow> ('d, 'x) fuse_lib ll_fun" where
  "fuse_lib_releasedir r i llfi f = do {
     f \<leftarrow> req_fuse_prepare r f;
     (dh, fi) \<leftarrow> get_dirhandle llfi f;
     (pr, f) \<leftarrow> lib_path r i f;
     f \<leftarrow> fuse_prepare_interrupt r f;
     (_, f) \<leftarrow> fs_run (\<lambda>fs w. res2 (fuse_fs_releasedir fs (path_or_dash f (pr_path pr)) fi w)) f;
     f \<leftarrow> fuse_finish_interrupt r f;
     f \<leftarrow> lib_free_path i (pr_path pr) f;
     lib_reply_err r 0 (set_dirhandle (fh llfi) None f)
   }"

definition fuse_lib_fsyncdir :: "nat \<Rightarrow> fuse_ino_t \<Rightarrow> int \<Rightarrow> fuse_file_info \<Rightarrow> ('d, 'x) fuse_lib ll_fun" where
  "fuse_lib_fsyncdir r i datasync llfi f = do {
     f \<leftarrow> req_fuse_prepare r f;
     (dh, fi) \<leftarrow> get_dirhandle llfi f;
     (res, f) \<leftarrow> with_path (lib_path r i) i r (\<lambda>path f. do {
         ((err, _), f) \<leftarrow> fs_run (\<lambda>fs w. res2 (fuse_fs_fsyncdir fs path datasync fi w)) f; Some (err, f) }) f;
     lib_reply_err r (path_err res) f
   }"

subsection \<open>Other operations\<close>

definition statvfs0 :: statvfs where
  "statvfs0 = \<lparr>f_bsize = 0, f_frsize = 0, f_blocks = 0, f_bfree = 0, f_bavail = 0, f_files = 0, f_ffree = 0, f_namemax = 0\<rparr>"

definition fuse_lib_statfs :: "nat \<Rightarrow> fuse_ino_t \<Rightarrow> ('d, 'x) fuse_lib ll_fun" where
  "fuse_lib_statfs r i f = do {
     f \<leftarrow> req_fuse_prepare r f;
     (res, f) \<leftarrow> with_path
       (\<lambda>f. if i \<noteq> 0 then lib_path r i f else Some (\<lparr>pr_err = 0, pr_path = None, pr_wnode = None\<rparr>, f)) i r
       (\<lambda>path. fs_run (\<lambda>fs w. map_option (\<lambda>(err, buf, w). ((err, buf), w))
          (fuse_fs_statfs fs (if path \<noteq> None then path else Some ''/'') statvfs0 w))) f;
     case res of
       Inl err \<Rightarrow> lib_reply_err r err f
     | Inr (err, buf) \<Rightarrow> if err = 0 then map_option snd (fuse_reply_statfs r buf f) else lib_reply_err r err f
   }"

definition fuse_lib_setxattr :: "nat \<Rightarrow> fuse_ino_t \<Rightarrow> cstring \<Rightarrow> cbuf \<Rightarrow> nat \<Rightarrow> int \<Rightarrow> ('d, 'x) fuse_lib ll_fun" where
  "fuse_lib_setxattr r i name val sz flags f = do {
     f \<leftarrow> req_fuse_prepare r f;
     (res, f) \<leftarrow> with_path (lib_path r i) i r (\<lambda>path. fs_run (\<lambda>fs w. Some (fuse_fs_setxattr fs path name val sz flags w))) f;
     lib_reply_err r (path_err res) f
   }"

text \<open>The common part of the next two; the result and the buffer.\<close>

definition common_xattr ::
  "nat \<Rightarrow> fuse_ino_t \<Rightarrow> (cstring option \<Rightarrow> ('d, dirbuf, 'x world) fuse_fs \<Rightarrow> 'x world \<Rightarrow> int \<times> cbuf \<times> 'x world) \<Rightarrow>
     ('d, 'x) lib_ll \<Rightarrow> ((int \<times> cbuf) \<times> ('d, 'x) lib_ll) option" where
  "common_xattr r i op f = do {
     (res, f) \<leftarrow> with_path (lib_path r i) i r (\<lambda>path. fs_run (\<lambda>fs w. res2 (op path fs w))) f;
     Some (case res of Inl err \<Rightarrow> (err, []) | Inr x \<Rightarrow> x, f)
   }"

definition common_getxattr ::
  "nat \<Rightarrow> fuse_ino_t \<Rightarrow> cstring \<Rightarrow> cbuf \<Rightarrow> nat \<Rightarrow> ('d, 'x) lib_ll \<Rightarrow> ((int \<times> cbuf) \<times> ('d, 'x) lib_ll) option" where
  "common_getxattr r i name val sz = common_xattr r i (\<lambda>path fs w. fuse_fs_getxattr fs path name sz val w)"

definition common_listxattr ::
  "nat \<Rightarrow> fuse_ino_t \<Rightarrow> cbuf \<Rightarrow> nat \<Rightarrow> ('d, 'x) lib_ll \<Rightarrow> ((int \<times> cbuf) \<times> ('d, 'x) lib_ll) option" where
  "common_listxattr r i lst sz = common_xattr r i (\<lambda>path fs w. fuse_fs_listxattr fs path sz lst w)"

definition reply_xattr ::
  "nat \<Rightarrow> nat \<Rightarrow> (cbuf \<Rightarrow> ('d, 'x) lib_ll \<Rightarrow> ((int \<times> cbuf) \<times> ('d, 'x) lib_ll) option) \<Rightarrow> ('d, 'x) fuse_lib ll_fun" where
  "reply_xattr r sz op f = do {
     f \<leftarrow> req_fuse_prepare r f;
     if sz \<noteq> 0 then do {
       let (ok, f) = lib_malloc f;
       if \<not> ok then lib_reply_err r (- ENOMEM) f
       else do {
         ((res, val), f) \<leftarrow> op (replicate sz NUL) f;
         if res > 0 then do { b \<leftarrow> buf_bytes (nat res) val; map_option snd (fuse_reply_buf r b f) } else lib_reply_err r res f
       }
     } else do {
       ((res, _), f) \<leftarrow> op [] f;
       if res \<ge> 0 then map_option snd (fuse_reply_xattr r (nat res) f) else lib_reply_err r res f
     }
   }"

definition fuse_lib_getxattr :: "nat \<Rightarrow> fuse_ino_t \<Rightarrow> cstring \<Rightarrow> nat \<Rightarrow> ('d, 'x) fuse_lib ll_fun" where
  "fuse_lib_getxattr r i name sz = reply_xattr r sz (\<lambda>val. common_getxattr r i name val sz)"

definition fuse_lib_listxattr :: "nat \<Rightarrow> fuse_ino_t \<Rightarrow> nat \<Rightarrow> ('d, 'x) fuse_lib ll_fun" where
  "fuse_lib_listxattr r i sz = reply_xattr r sz (\<lambda>lst. common_listxattr r i lst sz)"

definition fuse_lib_removexattr :: "nat \<Rightarrow> fuse_ino_t \<Rightarrow> cstring \<Rightarrow> ('d, 'x) fuse_lib ll_fun" where
  "fuse_lib_removexattr r i name f = do {
     f \<leftarrow> req_fuse_prepare r f;
     (res, f) \<leftarrow> with_path (lib_path r i) i r (\<lambda>path. fs_run (\<lambda>fs w. Some (fuse_fs_removexattr fs path name w))) f;
     lib_reply_err r (path_err res) f
   }"

subsection \<open>Locks of files\<close>

abbreviation (input) F_GETLK :: int where "F_GETLK \<equiv> 5"
abbreviation (input) F_SETLK :: int where "F_SETLK \<equiv> 6"
abbreviation (input) F_SETLKW :: int where "F_SETLKW \<equiv> 7"

text \<open>\<open>locks_insert\<close> on a node, with its two allocations where it makes them.\<close>

definition node_locks_insert :: "fuse_ino_t \<Rightarrow> lock \<Rightarrow> fuse \<Rightarrow> fuse option" where
  "node_locks_insert i l c = do {
     a \<leftarrow> get_node c i;
     n \<leftarrow> heap c a;
     let need = (lk_type l \<noteq> F_UNLCK \<or> lk_start l \<noteq> 0 \<or> lk_end l \<noteq> OFFSET_MAX);
     let (ok1, c) = (if need then malloc_ok c else (False, c));
     let (ok2, c) = (if need then malloc_ok c else (False, c));
     (_, ls) \<leftarrow> locks_insert (ok1, ok2) (node_locks n) l;
     Some (upd_node a (node_locks_update (\<lambda>_. ls)) c)
   }"

definition fuse_flush_common ::
  "nat \<Rightarrow> fuse_ino_t \<Rightarrow> cstring option \<Rightarrow> fuse_file_info \<Rightarrow> ('d, 'x) lib_ll \<Rightarrow> ((int \<times> fuse_file_info) \<times> ('d, 'x) lib_ll) option" where
  "fuse_flush_common r i path fi f = do {
     ((err, errlock, fi, lk), f) \<leftarrow> with_intr r (\<lambda>f. do {
         ((err, fi), f) \<leftarrow> fs_run (\<lambda>fs w. res2 (fuse_fs_flush fs path fi w)) f;
         ((errlock, fi, lk), f) \<leftarrow> fs_run (\<lambda>fs w. res3 (fuse_fs_lock fs path F_SETLK fi
            \<lparr>l_type = F_UNLCK, l_whence = 0, l_start = 0, l_len = 0, l_pid = 0\<rparr> w)) f;
         Some ((err, errlock, fi, lk), f)
       }) f;
     if errlock \<noteq> - ENOSYS then do {
       f \<leftarrow> nodes_do (node_locks_insert i ((flock_to_lock lk)\<lparr>lk_owner := lock_owner fi\<rparr>)) f;
       Some ((if err = - ENOSYS then 0 else err, fi), f)
     } else Some ((err, fi), f)
   }"

definition fuse_lib_release :: "nat \<Rightarrow> fuse_ino_t \<Rightarrow> fuse_file_info \<Rightarrow> ('d, 'x) fuse_lib ll_fun" where
  "fuse_lib_release r i fi f = do {
     f \<leftarrow> req_fuse_prepare r f;
     (pr, f) \<leftarrow> lib_path r i f;
     ((err, fi), f) \<leftarrow>
       (if fi_flush fi then do {
          ((err, fi), f) \<leftarrow> fuse_flush_common r i (pr_path pr) fi f;
          Some ((if err = - ENOSYS then 0 else err, fi), f)
        } else Some ((0, fi), f));
     f \<leftarrow> fuse_prepare_interrupt r f;
     f \<leftarrow> fuse_do_release i (pr_path pr) fi f;
     f \<leftarrow> fuse_finish_interrupt r f;
     f \<leftarrow> lib_free_path i (pr_path pr) f;
     lib_reply_err r err f
   }"

definition fuse_lib_flush :: "nat \<Rightarrow> fuse_ino_t \<Rightarrow> fuse_file_info \<Rightarrow> ('d, 'x) fuse_lib ll_fun" where
  "fuse_lib_flush r i fi f = do {
     f \<leftarrow> req_fuse_prepare r f;
     (pr, f) \<leftarrow> lib_path r i f;
     ((err, _), f) \<leftarrow> fuse_flush_common r i (pr_path pr) fi f;
     f \<leftarrow> lib_free_path i (pr_path pr) f;
     lib_reply_err r err f
   }"

definition fuse_lock_common ::
  "nat \<Rightarrow> fuse_ino_t \<Rightarrow> fuse_file_info \<Rightarrow> flock \<Rightarrow> int \<Rightarrow> ('d, 'x) lib_ll \<Rightarrow>
     ((int \<times> fuse_file_info \<times> flock) \<times> ('d, 'x) lib_ll) option" where
  "fuse_lock_common r i fi lk cmd f = do {
     f \<leftarrow> req_fuse_prepare r f;
     (res, f) \<leftarrow> with_path (lib_path_nullok r i) i r (\<lambda>path. fs_run (\<lambda>fs w. res3 (fuse_fs_lock fs path cmd fi lk w))) f;
     Some (case res of Inl err \<Rightarrow> (err, fi, lk) | Inr x \<Rightarrow> x, f)
   }"

definition fuse_lib_getlk :: "nat \<Rightarrow> fuse_ino_t \<Rightarrow> fuse_file_info \<Rightarrow> flock \<Rightarrow> ('d, 'x) fuse_lib ll_fun" where
  "fuse_lib_getlk r i fi lk f = do {
     a \<leftarrow> get_node (lib_nodes f) i;
     n \<leftarrow> heap (lib_nodes f) a;
     ((err, lk), f) \<leftarrow>
       (case locks_conflict (node_locks n) ((flock_to_lock lk)\<lparr>lk_owner := lock_owner fi\<rparr>) of
          Some l \<Rightarrow> Some ((0, lock_to_flock l lk), f)
        | None \<Rightarrow> do { ((err, _, lk), f) \<leftarrow> fuse_lock_common r i fi lk F_GETLK f; Some ((err, lk), f) });
     if err = 0 then map_option snd (fuse_reply_lock r lk f) else lib_reply_err r err f
   }"

definition fuse_lib_setlk :: "nat \<Rightarrow> fuse_ino_t \<Rightarrow> fuse_file_info \<Rightarrow> flock \<Rightarrow> bool \<Rightarrow> ('d, 'x) fuse_lib ll_fun" where
  "fuse_lib_setlk r i fi lk slp f = do {
     ((err, fi, lk), f) \<leftarrow> fuse_lock_common r i fi lk (if slp then F_SETLKW else F_SETLK) f;
     f \<leftarrow> (if err = 0 then nodes_do (node_locks_insert i ((flock_to_lock lk)\<lparr>lk_owner := lock_owner fi\<rparr>)) f else Some f);
     lib_reply_err r err f
   }"

definition fuse_lib_bmap :: "nat \<Rightarrow> fuse_ino_t \<Rightarrow> nat \<Rightarrow> u64 \<Rightarrow> ('d, 'x) fuse_lib ll_fun" where
  "fuse_lib_bmap r i blocksize idx f = do {
     f \<leftarrow> req_fuse_prepare r f;
     (res, f) \<leftarrow> with_path (lib_path r i) i r (\<lambda>path. fs_run (\<lambda>fs w. res2 (fuse_fs_bmap fs path blocksize idx w))) f;
     case res of
       Inl err \<Rightarrow> lib_reply_err r err f
     | Inr (err, idx) \<Rightarrow> if err = 0 then map_option snd (fuse_reply_bmap r idx f) else lib_reply_err r err f
   }"

text \<open>\<open>fuse_lib_ioctl\<close>: the data are in the output buffer when there is one, else in the input buffer;
  2 is \<open>FUSE_IOCTL_UNRESTRICTED\<close>.\<close>

definition fuse_lib_ioctl ::
  "nat \<Rightarrow> fuse_ino_t \<Rightarrow> int \<Rightarrow> u64 \<Rightarrow> fuse_file_info \<Rightarrow> u32 \<Rightarrow> cbuf option \<Rightarrow> nat \<Rightarrow> nat \<Rightarrow> ('d, 'x) fuse_lib ll_fun" where
  "fuse_lib_ioctl r i cmd arg fi flags in_buf in_bufsz out_bufsz f = do {
     f \<leftarrow> req_fuse_prepare r f;
     if flags AND 2 \<noteq> 0 then lib_reply_err r (- EPERM) f
     else do {
       let (ok, f) = (if out_bufsz \<noteq> 0 then lib_malloc f else (True, f));
       if \<not> ok then lib_reply_err r (- ENOMEM) f
       else if \<not> (in_bufsz = 0 \<or> out_bufsz = 0 \<or> in_bufsz = out_bufsz) then None
       else do {
         input \<leftarrow> (if out_bufsz \<noteq> 0 \<and> in_bufsz \<noteq> 0 then do { b \<leftarrow> in_buf; buf_bytes in_bufsz b } else Some []);
         let out_buf = input @ replicate (out_bufsz - length input) NUL;
         (res, f) \<leftarrow> with_path (lib_path r i) i r (\<lambda>path. fs_run (\<lambda>fs w. res3 (fuse_fs_ioctl fs path cmd arg flags fi
            (if out_bufsz \<noteq> 0 then out_buf else case in_buf of Some b \<Rightarrow> b | None \<Rightarrow> []) w))) f;
         case res of
           Inl err \<Rightarrow> lib_reply_err r err f
         | Inr (err, _, dat) \<Rightarrow> do {
             out \<leftarrow> (if out_bufsz \<noteq> 0 then buf_bytes out_bufsz dat else Some []);
             map_option snd (fuse_reply_ioctl r err out f)
           }
       }
     }
   }"

definition fuse_lib_poll :: "nat \<Rightarrow> fuse_ino_t \<Rightarrow> fuse_file_info \<Rightarrow> fuse_pollhandle option \<Rightarrow> ('d, 'x) fuse_lib ll_fun" where
  "fuse_lib_poll r i fi ph f = do {
     f \<leftarrow> req_fuse_prepare r f;
     (res, f) \<leftarrow> with_path (lib_path r i) i r
       (\<lambda>path. fs_run (\<lambda>fs w. res3 (fuse_fs_poll fs path (map_option ph_kh ph) fi 0 w))) f;
     case res of
       Inl err \<Rightarrow> lib_reply_err r err f
     | Inr (err, _, revents) \<Rightarrow> if err = 0 then map_option snd (fuse_reply_poll r revents f) else lib_reply_err r err f
   }"

text \<open>The table of the library. The connection is not a character device's, so that \<open>CUSE_INIT\<close>
  is refused before its handler is called.\<close>

definition fuse_path_ops :: "('d, 'x) fuse_lib fuse_lowlevel_ops" where
  "fuse_path_ops = \<lparr>
     ll_init = Some fuse_lib_init, ll_destroy = Some fuse_lib_destroy, ll_lookup = Some fuse_lib_lookup,
     ll_forget = Some fuse_lib_forget, ll_getattr = Some fuse_lib_getattr, ll_setattr = Some fuse_lib_setattr,
     ll_readlink = Some fuse_lib_readlink, ll_mknod = Some fuse_lib_mknod, ll_mkdir = Some fuse_lib_mkdir,
     ll_unlink = Some fuse_lib_unlink, ll_rmdir = Some fuse_lib_rmdir, ll_symlink = Some fuse_lib_symlink,
     ll_rename = Some fuse_lib_rename, ll_link = Some fuse_lib_link, ll_open = Some fuse_lib_open,
     ll_read = Some fuse_lib_read, ll_write = Some fuse_lib_write, ll_flush = Some fuse_lib_flush,
     ll_release = Some fuse_lib_release, ll_fsync = Some fuse_lib_fsync, ll_opendir = Some fuse_lib_opendir,
     ll_readdir = Some fuse_lib_readdir, ll_releasedir = Some fuse_lib_releasedir, ll_fsyncdir = Some fuse_lib_fsyncdir,
     ll_statfs = Some fuse_lib_statfs, ll_setxattr = Some fuse_lib_setxattr, ll_getxattr = Some fuse_lib_getxattr,
     ll_listxattr = Some fuse_lib_listxattr, ll_removexattr = Some fuse_lib_removexattr, ll_access = Some fuse_lib_access,
     ll_create = Some fuse_lib_create, ll_getlk = Some fuse_lib_getlk, ll_setlk = Some fuse_lib_setlk,
     ll_bmap = Some fuse_lib_bmap, ll_ioctl = Some fuse_lib_ioctl, ll_poll = Some fuse_lib_poll,
     cuse_lowlevel_init = (\<lambda>_ _ _ _. None), interrupt_func = fuse_interrupt\<rparr>"

end
