(* ===== verification/Fuse_Lib_Proofs.thy ===== *)
theory Fuse_Lib_Proofs
  imports Fuse_Lib Fuse_Lowlevel_Proofs Fuse_Requests
begin

text \<open>
  What the handlers of the high-level library do to the requests of the low-level library: each of
  them, on every path through it, answers its request exactly once and touches no other.
\<close>

subsection \<open>Steps that leave the requests alone\<close>

text \<open>What is seen of a request: all but its interrupt function, its context and its marks.\<close>

definition req_view :: "fuse_req \<Rightarrow> u64 \<times> int \<times> nat" where
  "req_view q = (unique q, req_ctr q, req_ch q)"

definition still :: "'u fuse_ll \<Rightarrow> 'u fuse_ll \<Rightarrow> bool" where
  "still f f' \<longleftrightarrow> req_list f' = req_list f \<and> interrupts f' = interrupts f \<and> fresh_req f' = fresh_req f \<and>
     sent f' = sent f \<and> (\<forall>r. map_option req_view (reqs f' r) = map_option req_view (reqs f r))"

lemma still_refl [simp]: "still f f"
  by (simp add: still_def)

lemma still_trans: "still f f1 \<Longrightarrow> still f1 f' \<Longrightarrow> still f f'"
  by (simp add: still_def)

lemma still_set_lib [simp]: "still f (set_lib g f)"
  by (simp add: still_def set_lib_def)

text \<open>A request is served: one message about it goes out, and it is off the lists.\<close>

definition served :: "nat \<Rightarrow> 'u fuse_ll \<Rightarrow> 'u fuse_ll \<Rightarrow> bool" where
  "served r f f' \<longleftrightarrow> (\<exists>q msg. reqs f r = Some q \<and> still (replied r q msg f) f' \<and> get64 8 msg = Some (unique q))"

lemma still_replied:
  assumes "still f f1" "reqs f1 r = Some q1"
  obtains q where "reqs f r = Some q" "unique q = unique q1" "still (replied r q msg f) (replied r q1 msg f1)"
proof -
  obtain q where q: "reqs f r = Some q" "req_view q = req_view q1"
    using assms unfolding still_def by (cases "reqs f r") (auto dest: spec [of _ r])
  moreover have "still (replied r q msg f) (replied r q1 msg f1)"
    using assms q unfolding still_def by (auto simp: replied_def req_view_def)
  ultimately show ?thesis using that by (simp add: req_view_def)
qed

lemma served_after:
  assumes "still f f1" "served r f1 f'"
  shows "served r f f'"
proof -
  obtain q1 msg where q1: "reqs f1 r = Some q1" "still (replied r q1 msg f1) f'" "get64 8 msg = Some (unique q1)"
    using assms(2) by (auto simp: served_def)
  obtain q where q: "reqs f r = Some q" "unique q = unique q1" "still (replied r q msg f) (replied r q1 msg f1)"
    by (rule still_replied [OF assms(1) q1(1)])
  show ?thesis using q q1(3) still_trans [OF q(3) q1(2)] unfolding served_def by auto
qed

lemma served_before:
  assumes "served r f f1" "still f1 f'"
  shows "served r f f'"
  using assms(1) still_trans [OF _ assms(2)] unfolding served_def by blast

text \<open>The four kinds of code: with and without a result, before and up to the reply.\<close>

definition keeps :: "'u fuse_ll \<Rightarrow> ('a \<times> 'u fuse_ll) option \<Rightarrow> bool" where
  "keeps f x \<longleftrightarrow> (\<forall>a f'. x = Some (a, f') \<longrightarrow> still f f')"

definition moves :: "'u fuse_ll \<Rightarrow> 'u fuse_ll option \<Rightarrow> bool" where
  "moves f x \<longleftrightarrow> (\<forall>f'. x = Some f' \<longrightarrow> still f f')"

definition serves :: "nat \<Rightarrow> 'u fuse_ll \<Rightarrow> 'u fuse_ll option \<Rightarrow> bool" where
  "serves r f x \<longleftrightarrow> (\<forall>f'. x = Some f' \<longrightarrow> served r f f')"

definition replies :: "nat \<Rightarrow> 'u fuse_ll \<Rightarrow> ('a \<times> 'u fuse_ll) option \<Rightarrow> bool" where
  "replies r f x \<longleftrightarrow> (\<forall>a f'. x = Some (a, f') \<longrightarrow> served r f f')"

lemmas kind_defs = keeps_def moves_def serves_def replies_def

lemma keeps_bind:
  "keeps f x \<Longrightarrow> (\<And>a f'. keeps f' (h a f')) \<Longrightarrow> keeps f (x \<bind> (\<lambda>(a, f). h a f))"
  "moves f y \<Longrightarrow> (\<And>f'. keeps f' (k f')) \<Longrightarrow> keeps f (y \<bind> k)"
  unfolding kind_defs by (auto simp: bind_eq_Some_conv) (meson still_trans)+

lemma moves_bind:
  "keeps f x \<Longrightarrow> (\<And>a f'. moves f' (h a f')) \<Longrightarrow> moves f (x \<bind> (\<lambda>(a, f). h a f))"
  "moves f y \<Longrightarrow> (\<And>f'. moves f' (k f')) \<Longrightarrow> moves f (y \<bind> k)"
  unfolding kind_defs by (auto simp: bind_eq_Some_conv) (meson still_trans)+

lemma serves_bind:
  "keeps f x \<Longrightarrow> (\<And>a f'. serves r f' (h a f')) \<Longrightarrow> serves r f (x \<bind> (\<lambda>(a, f). h a f))"
  "moves f y \<Longrightarrow> (\<And>f'. serves r f' (k f')) \<Longrightarrow> serves r f (y \<bind> k)"
  unfolding kind_defs by (auto simp: bind_eq_Some_conv) (meson served_after)+

lemma serves_then:
  "replies r f x \<Longrightarrow> (\<And>a f'. moves f' (h a f')) \<Longrightarrow> serves r f (x \<bind> (\<lambda>(a, f). h a f))"
  "serves r f y \<Longrightarrow> (\<And>f'. moves f' (k f')) \<Longrightarrow> serves r f (y \<bind> k)"
  unfolding kind_defs by (auto simp: bind_eq_Some_conv) (meson served_before)+

text \<open>Reading the state, or something that is not the state.\<close>

lemma kind_read:
  "(\<And>v. keeps f (k v)) \<Longrightarrow> keeps f (x \<bind> k)"
  "(\<And>v. moves f (k' v)) \<Longrightarrow> moves f (x \<bind> k')"
  "(\<And>v. serves r f (k' v)) \<Longrightarrow> serves r f (x \<bind> k')"
  unfolding kind_defs by (cases x; simp)+

lemma kind_if:
  "keeps f a \<Longrightarrow> keeps f b \<Longrightarrow> keeps f (if c then a else b)"
  "moves f a' \<Longrightarrow> moves f b' \<Longrightarrow> moves f (if c then a' else b')"
  "serves r f a' \<Longrightarrow> serves r f b' \<Longrightarrow> serves r f (if c then a' else b')"
  by simp_all

lemma kind_case:
  "keeps f a \<Longrightarrow> (\<And>y. keeps f (b y)) \<Longrightarrow> keeps f (case v of None \<Rightarrow> a | Some y \<Rightarrow> b y)"
  "moves f a' \<Longrightarrow> (\<And>y. moves f (b' y)) \<Longrightarrow> moves f (case v of None \<Rightarrow> a' | Some y \<Rightarrow> b' y)"
  "serves r f a' \<Longrightarrow> (\<And>y. serves r f (b' y)) \<Longrightarrow> serves r f (case v of None \<Rightarrow> a' | Some y \<Rightarrow> b' y)"
  by (cases v; simp)+

lemma kind_sum:
  "(\<And>x. serves r f (a x)) \<Longrightarrow> (\<And>y. serves r f (b y)) \<Longrightarrow> serves r f (case v of Inl x \<Rightarrow> a x | Inr y \<Rightarrow> b y)"
  by (cases v) simp_all

lemma kind_pair:
  "(\<And>x y. keeps f (g x y s)) \<Longrightarrow> keeps f (case_prod g p s)"
  "(\<And>x y. moves f (g' x y s)) \<Longrightarrow> moves f (case_prod g' p s)"
  "(\<And>x y. serves r f (g' x y s)) \<Longrightarrow> serves r f (case_prod g' p s)"
  "(\<And>x y. keeps f (h x y)) \<Longrightarrow> keeps f (case_prod h p)"
  "(\<And>x y. moves f (h' x y)) \<Longrightarrow> moves f (case_prod h' p)"
  "(\<And>x y. serves r f (h' x y)) \<Longrightarrow> serves r f (case_prod h' p)"
  by (cases p; simp)+

lemma kind_state_pair:
  "still f (snd p) \<Longrightarrow> (\<And>x f'. serves r f' (h x f')) \<Longrightarrow> serves r f (case_prod h p)"
  by (cases p) (auto simp: serves_def intro: served_after)

lemma kind_unit:
  "keeps f (Some (a, f))" "moves f (Some f)" "keeps f None" "moves f None" "serves r f None"
  by (simp_all add: kind_defs)

lemma kind_map: "keeps f x \<Longrightarrow> moves f (map_option snd x)" "replies r f x \<Longrightarrow> serves r f (map_option snd x)"
  unfolding kind_defs by auto

lemma keeps_nodes [simp]: "keeps f (on_nodes g f)" "moves f (nodes_do g' f)" "keeps f (fs_run g'' f)"
  unfolding kind_defs by (auto simp: on_nodes_def nodes_do_def fs_run_def bind_eq_Some_conv)

lemmas kind_rules = keeps_nodes kind_unit keeps_bind moves_bind serves_bind kind_if kind_case kind_sum kind_pair kind_read kind_map


subsection \<open>The parts of the handlers\<close>

lemma still_set_req:
  "reqs f r = Some q \<Longrightarrow> req_view q' = req_view q \<Longrightarrow> still f (set_req r q' f)"
  by (simp add: still_def set_req_def)

lemma moves_interrupt [simp]: "moves f (fuse_prepare_interrupt r f)" "moves f (fuse_finish_interrupt r f)"
  by (auto simp: moves_def fuse_prepare_interrupt_def fuse_finish_interrupt_def fuse_req_interrupt_func_def fuse_interrupt_def
      bind_eq_Some_conv Let_def req_view_def intro!: still_set_req split: if_splits)

lemma moves_prepare [simp]: "moves f (req_fuse_prepare r f)"
  by (auto simp: moves_def req_fuse_prepare_def bind_eq_Some_conv Let_def)

lemma keeps_with_intr: "(\<And>f'. keeps f' (body f')) \<Longrightarrow> keeps f (with_intr r body f)"
  unfolding with_intr_def by (intro keeps_bind moves_interrupt) (auto intro!: keeps_bind simp: kind_unit)

lemma keeps_paths [simp]:
  "keeps f (lib_path r i f)" "keeps f (lib_path_nullok r i f)" "keeps f (lib_path_name r i name f)"
  "keeps f (lib_path_wrlock r i name' f)" "moves f (lib_free_path i path f)"
  by (simp_all add: lib_path_def lib_path_nullok_def lib_path_name_def lib_path_wrlock_def lib_free_path_def)

lemma keeps_with_path:
  assumes "\<And>f'. keeps f' (getp f')" "\<And>path f'. keeps f' (body path f')"
  shows "keeps f (with_path getp i r body f)"
  unfolding with_path_def
  by (intro keeps_bind kind_if assms keeps_with_intr keeps_paths kind_unit)

lemma still_clock [simp]: "still f (snd (curr_time f))" "still f (snd (lib_malloc f))"
  by (simp_all add: curr_time_def lib_malloc_def Let_def split_def)

lemma moves_update_stat [simp]: "moves f (update_stat a st f)" "moves f (update_stat_ino i st f)"
proof -
  show *: "moves f (update_stat a st f)" for a and f :: "('a, 'b) lib_ll"
    by (auto simp: moves_def update_stat_def Let_def curr_time_def nodes_do_def bind_eq_Some_conv still_def set_lib_def)
  show "moves f (update_stat_ino i st f)" unfolding update_stat_ino_def by (intro kind_read *)
qed

lemma keeps_lookup_path [simp]: "keeps f (lookup_path i name path fi f)"
  unfolding lookup_path_def Let_def
  by (intro keeps_bind kind_if kind_case kind_pair keeps_nodes kind_unit kind_read moves_update_stat) 


text \<open>Replies.\<close>

lemma reply_unique [simp]: "get64 8 (reply_message q err iov) = Some (unique q)"
  by (simp add: reply_message_def put_fuse_out_header_def)

lemma replies_iov: "replies r f (send_reply_iov r err iov f)"
proof (cases "reqs f r")
  case None
  then show ?thesis by (simp add: replies_def send_reply_dead)
next
  case (Some q)
  obtain res where "send_reply_iov r err iov f = Some (res, replied r q (reply_message q err iov) f)"
    using send_reply_iov_replied [OF Some] by blast
  then show ?thesis using Some unfolding replies_def served_def
    by (auto intro!: exI [of _ "reply_message q err iov"])
qed

lemma replies_sent [simp]:
  "replies r f (send_reply_ok r arg f)" "replies r f (fuse_reply_err r err f)" "replies r f (fuse_reply_entry r e f)"
  "replies r f (fuse_reply_create r e fi f)" "replies r f (fuse_reply_attr r st timeout f)" "replies r f (fuse_reply_readlink r lnk f)"
  "replies r f (fuse_reply_open r fi f)" "replies r f (fuse_reply_write r n f)" "replies r f (fuse_reply_buf r buf f)"
  "replies r f (fuse_reply_statfs r sv f)" "replies r f (fuse_reply_xattr r n f)" "replies r f (fuse_reply_lock r lck f)"
  "replies r f (fuse_reply_bmap r idx f)" "replies r f (fuse_reply_ioctl r res buf f)" "replies r f (fuse_reply_poll r ev f)"
  by (simp_all add: send_reply_ok_def send_reply_def fuse_reply_err_def fuse_reply_entry_def fuse_reply_create_def
      fuse_reply_attr_def fuse_reply_readlink_def fuse_reply_open_def fuse_reply_write_def fuse_reply_buf_def
      fuse_reply_statfs_def fuse_reply_xattr_def fuse_reply_lock_def fuse_reply_bmap_def fuse_reply_ioctl_def
      fuse_reply_poll_def replies_iov Let_def del: One_nat_def)

lemma serves_err [simp]: "serves r f (lib_reply_err r err f)"
  unfolding lib_reply_err_def by (rule kind_map replies_sent)+

lemma serves_entry [simp]: "serves r f (reply_entry r e err f)"
  unfolding reply_entry_def by (intro kind_if serves_then replies_sent serves_err keeps_nodes kind_unit)

lemma serves_attr [simp]: "serves r f (reply_attr r i err st f)"
  unfolding reply_attr_def
  by (intro kind_if serves_bind serves_err moves_update_stat kind_unit kind_map replies_sent)

text \<open>Hiding a file.\<close>

lemma keeps_hidden_tries [simp]: "keeps f (hidden_tries k dir name f)"
proof (induction k arbitrary: f)
  case (Suc k)
  show ?case unfolding hidden_tries.simps
    by (intro kind_case kind_unit kind_read keeps_bind keeps_nodes kind_pair kind_if Suc)
qed (simp add: kind_unit)

lemma keeps_hide_node [simp]: "keeps f (hide_node path dir name f)"
  unfolding hide_node_def hidden_name_def
  by (intro keeps_bind kind_pair keeps_hidden_tries kind_case kind_unit keeps_nodes kind_if)

lemmas part_rules = keeps_nodes kind_unit moves_interrupt moves_prepare keeps_paths moves_update_stat
  keeps_lookup_path replies_sent serves_err serves_entry serves_attr keeps_hide_node

lemmas handler_rules = part_rules keeps_with_intr keeps_with_path
  keeps_bind moves_bind serves_bind kind_if kind_case kind_sum kind_pair kind_map

subsection \<open>The handlers\<close>

lemma serves_lookup_entry: "serves r f (lookup_entry r dir name dot f)"
  unfolding lookup_entry_def by (intro handler_rules)

lemma serves_lookup: "serves r f (fuse_lib_lookup r dir name f)"
  unfolding fuse_lib_lookup_def by (intro handler_rules serves_lookup_entry kind_read)


lemma serves_simple:
  "serves r f (fuse_lib_getattr r i fi f)" "serves r f (fuse_lib_setattr r i st v fi f)"
  "serves r f (fuse_lib_access r i msk f)" "serves r f (fuse_lib_readlink r i f)" "serves r f (fuse_lib_write r i b sz off fi' f)"
  "serves r f (fuse_lib_fsync r i ds fi' f)" "serves r f (fuse_lib_statfs r i f)" "serves r f (fuse_lib_setxattr r i n b sz fl f)"
  "serves r f (fuse_lib_removexattr r i n f)" "serves r f (fuse_lib_bmap r i sz idx f)" "serves r f (fuse_lib_poll r i fi' ph f)"
  "serves r f (fuse_lib_fsyncdir r i ds fi' f)"
proof -
  have attrs: "keeps f (set_attrs attr valid fi path f)" for attr valid fi path and f :: "('a, 'b) lib_ll"
  proof -
    have and_then: "keeps f (and_then c g x)" if "still f (snd x)" "\<And>f. keeps f (g f)" for c g and x :: "int \<times> ('a, 'b) lib_ll"
      using that still_trans by (cases x) (fastforce simp: and_then_def keeps_def)
    have bind: "keeps f (y \<bind> k)" if "keeps f y" "\<And>x. still f (snd x) \<Longrightarrow> keeps f (k x)"
      for k :: "int \<times> ('a, 'b) lib_ll \<Rightarrow> ((int \<times> stat) \<times> ('a, 'b) lib_ll) option" and y
      using that unfolding keeps_def by (auto simp: bind_eq_Some_conv)
    have last: "keeps f (case x of (err, f) \<Rightarrow> if err = 0 then fs_run g f else Some ((err, stat0), f))"
      if "still f (snd x)" for g :: "_ \<Rightarrow> _ \<Rightarrow> ((int \<times> stat) \<times> _) option" and x
      using that keeps_nodes(3) [of "snd x" g] still_trans by (cases x) (fastforce simp: keeps_def)
    show ?thesis unfolding set_attrs_def
      by (intro bind last and_then kind_case keeps_nodes) (auto intro!: keeps_bind kind_pair kind_unit split: option.splits)
  qed
  show "serves r f (fuse_lib_getattr r i fi f)" unfolding fuse_lib_getattr_def by (intro handler_rules) simp
  show "serves r f (fuse_lib_setattr r i st v fi f)" unfolding fuse_lib_setattr_def by (intro handler_rules attrs)
  show "serves r f (fuse_lib_access r i msk f)" unfolding fuse_lib_access_def by (intro handler_rules)
  show "serves r f (fuse_lib_readlink r i f)" unfolding fuse_lib_readlink_def by (intro handler_rules)
  show "serves r f (fuse_lib_write r i b sz off fi' f)" unfolding fuse_lib_write_def by (intro handler_rules)
  show "serves r f (fuse_lib_fsync r i ds fi' f)" unfolding fuse_lib_fsync_def by (intro handler_rules)
  show "serves r f (fuse_lib_statfs r i f)" unfolding fuse_lib_statfs_def by (intro handler_rules)
  show "serves r f (fuse_lib_setxattr r i n b sz fl f)" unfolding fuse_lib_setxattr_def by (intro handler_rules)
  show "serves r f (fuse_lib_removexattr r i n f)" unfolding fuse_lib_removexattr_def by (intro handler_rules)
  show "serves r f (fuse_lib_bmap r i sz idx f)" unfolding fuse_lib_bmap_def by (intro handler_rules)
  show "serves r f (fuse_lib_poll r i fi' ph f)" unfolding fuse_lib_poll_def by (intro handler_rules)
  show "serves r f (fuse_lib_fsyncdir r i ds fi' f)" unfolding fuse_lib_fsyncdir_def by (intro handler_rules kind_read)
qed

lemma keeps_make_entry: "(\<And>f'. keeps f' (op f')) \<Longrightarrow> keeps f (make_entry dir name op path f)"
  unfolding make_entry_def by (intro handler_rules)

lemma moves_release [simp]: "moves f (release_ignored path fi f)"
  unfolding release_ignored_def by (intro kind_map keeps_nodes)

lemma moves_do_release [simp]: "moves f (fuse_do_release i path fi f)"
  unfolding fuse_do_release_def Let_def by (intro handler_rules moves_release kind_read)

lemma moves_count_open [simp]: "moves f (count_open i f)"
  by (simp add: count_open_def)

lemma serves_names:
  "serves r f (fuse_lib_mknod r i n md rd f)" "serves r f (fuse_lib_mkdir r i n md f)" "serves r f (fuse_lib_symlink r l i n f)"
  "serves r f (fuse_lib_unlink r i n f)" "serves r f (fuse_lib_rmdir r i n f)" "serves r f (fuse_lib_rename r i n j n' f)"
  "serves r f (fuse_lib_link r i j n f)"
proof -
  show "serves r f (fuse_lib_mknod r i n md rd f)" unfolding fuse_lib_mknod_def by (intro handler_rules moves_release)
  show "serves r f (fuse_lib_mkdir r i n md f)" unfolding fuse_lib_mkdir_def by (intro handler_rules keeps_make_entry)
  show "serves r f (fuse_lib_symlink r l i n f)" unfolding fuse_lib_symlink_def by (intro handler_rules keeps_make_entry)
  show "serves r f (fuse_lib_unlink r i n f)" unfolding fuse_lib_unlink_def by (intro handler_rules)
  show "serves r f (fuse_lib_rmdir r i n f)" unfolding fuse_lib_rmdir_def by (intro handler_rules)
  show "serves r f (fuse_lib_rename r i n j n' f)" unfolding fuse_lib_rename_def by (intro handler_rules)
  show "serves r f (fuse_lib_link r i j n f)" unfolding fuse_lib_link_def by (intro handler_rules keeps_make_entry)
qed

lemma keeps_open_parts:
  "keeps f (create_entry dir name mode fi path f)" "keeps f (open_auto_cache i path fi f)" "keeps f (open_path i fi path f)"
proof -
  show "keeps f (create_entry dir name mode fi path f)"
    unfolding create_entry_def Let_def by (intro handler_rules moves_release)
  show *: "keeps f (open_auto_cache i path fi f)" for f :: "('a, 'b) lib_ll" and fi
  proof -
    have clock: "keeps f (case_prod h (curr_time f))" if "\<And>x f'. keeps f' (h x f')"
      for h :: "timespec \<Rightarrow> ('a, 'b) lib_ll \<Rightarrow> (fuse_file_info \<times> ('a, 'b) lib_ll) option" and f
      using that [of "snd (curr_time f)" "fst (curr_time f)"] still_clock(1) [of f] still_trans
      by (cases "curr_time f") (fastforce simp: keeps_def)
    show ?thesis unfolding open_auto_cache_def Let_def
      by (rule kind_read, rule kind_read, rule keeps_bind, rule kind_if, rule clock) (intro handler_rules kind_read)+
  qed
  show "keeps f (open_path i fi path f)"
    unfolding open_path_def Let_def by (intro handler_rules *)
qed

lemma serves_malloc:
  "(\<And>ok f'. serves r f' (h ok f')) \<Longrightarrow> serves r f (case_prod h (lib_malloc f))"
  by (rule kind_state_pair) simp_all

lemma serves_step: "still f f' \<Longrightarrow> serves r f' x \<Longrightarrow> serves r f x"
  unfolding serves_def using served_after by blast

text \<open>A reply that is undone when the kernel has given the request up.\<close>

lemma serves_or_undo:
  "replies r f x \<Longrightarrow> (\<And>f'. moves f' (undo f')) \<Longrightarrow> serves r f (x \<bind> (\<lambda>(res, f). if res = - ENOENT then undo f else Some f))"
  by (rule serves_then(1)) (auto intro: kind_unit)

lemma serves_opens:
  "serves r f (fuse_lib_create r i n md fi f)" "serves r f (fuse_lib_open r i fi f)" "serves r f (fuse_lib_opendir r i fi f)"
proof -
  have frame: "serves r f (p f \<bind> (\<lambda>(pr, f). (if c pr then with_intr r (body pr) f else Some (d pr, f)) \<bind>
      (\<lambda>(x, f). g pr x f \<bind> (\<lambda>f. lib_free_path i' (pr_path pr) f))))"
    if "\<And>f. keeps f (p f)" "\<And>pr f. keeps f (body pr f)" "\<And>pr x f. serves r f (g pr x f)"
    for p c d body i' and f :: "('a, 'b) lib_ll" and g :: "path_result \<Rightarrow> 'c \<Rightarrow> ('a, 'b) lib_ll \<Rightarrow> ('a, 'b) lib_ll option"
    using that by (intro serves_bind(1) kind_if keeps_with_intr kind_unit serves_then(2) keeps_paths) simp_all
  show "serves r f (fuse_lib_create r i n md fi f)" unfolding fuse_lib_create_def Let_def split_def
    by (intro serves_bind(2) moves_prepare frame [unfolded split_def])
      (auto intro!: handler_rules keeps_open_parts serves_bind(2) serves_or_undo [unfolded split_def] moves_do_release)
  show "serves r f (fuse_lib_open r i fi f)" unfolding fuse_lib_open_def Let_def split_def
    by (intro serves_bind(2) moves_prepare frame [unfolded split_def])
      (auto intro!: handler_rules keeps_open_parts serves_bind(2) serves_or_undo [unfolded split_def] moves_do_release)
  have dir: "serves r f' (if err = 0
      then fuse_reply_open r ll (set_dirhandle h dh f') \<bind> (\<lambda>(res, f). if res = - ENOENT then undo f else Some f)
      else lib_reply_err r err f')" if "\<And>f. moves f (undo f)" for f' :: "('a, 'b) lib_ll" and ll h dh err undo
    using that by (intro kind_if serves_err serves_step [of f' "set_dirhandle h dh f'"] serves_or_undo replies_sent)
      (simp_all add: set_dirhandle_def)
  have undo: "moves f (fuse_prepare_interrupt r f \<bind> (\<lambda>f. fs_run g f \<bind> (\<lambda>(_, f). fuse_finish_interrupt r f \<bind> (\<lambda>f. Some (set_dirhandle h None f)))))"
    for f :: "('a, 'b) lib_ll" and h and g :: "_ \<Rightarrow> _ \<Rightarrow> ((int \<times> fuse_file_info) \<times> _) option"
  proof -
    have "moves f (Some (set_dirhandle h None f))" for f :: "('a, 'b) lib_ll" by (simp add: moves_def set_dirhandle_def)
    then show ?thesis by (intro moves_bind moves_interrupt keeps_nodes)
  qed
  show "serves r f (fuse_lib_opendir r i fi f)" unfolding fuse_lib_opendir_def Let_def
  proof (intro serves_bind(2) moves_prepare serves_malloc kind_if serves_err, goal_cases)
    case (1 f1 ok f2)
    show ?case
      by (rule serves_step [of _ "set_lib (dh_brk_update Suc) f2"], simp)
        (rule serves_bind keeps_paths kind_if keeps_with_intr keeps_nodes kind_unit kind_pair serves_then(2) [OF dir, OF undo])+
  qed
qed

lemma keeps_flush [simp]: "keeps f (fuse_flush_common r i path fi f)"
  unfolding fuse_flush_common_def by (intro handler_rules)

lemma keeps_lock_common [simp]: "keeps f (fuse_lock_common r i fi lk cmd f)"
  unfolding fuse_lock_common_def by (intro handler_rules)

lemma serves_dirhandle: "serves r (set_dirhandle h dh f) x \<Longrightarrow> serves r f x"
  by (rule serves_step [of _ "set_dirhandle h dh f"]) (simp_all add: set_dirhandle_def)

lemma keeps_readdir_fill [simp]: "keeps f (readdir_fill r i sz off dh fi f)"
proof -
  have "keeps f (d \<bind> (\<lambda>(dh, c). Some ((err :: int, dh), set_lib (nodes_update (\<lambda>_. c)) f)))" for err d and f :: "('a, 'b) lib_ll"
    by (auto simp: keeps_def bind_eq_Some_conv)
  then show ?thesis unfolding readdir_fill_def Let_def
    by (intro keeps_bind keeps_nodes keeps_paths kind_if kind_pair keeps_with_intr kind_unit)
qed

lemma serves_rest:
  "serves r f (fuse_lib_read r i sz off fi f)" "serves r f (fuse_lib_readdir r i sz off fi f)" "serves r f (fuse_lib_releasedir r i fi f)"
  "serves r f (fuse_lib_getxattr r i n sz f)" "serves r f (fuse_lib_listxattr r i sz f)" "serves r f (fuse_lib_release r i fi f)"
  "serves r f (fuse_lib_flush r i fi f)" "serves r f (fuse_lib_getlk r i fi lk f)" "serves r f (fuse_lib_setlk r i fi lk slp f)"
  "serves r f (fuse_lib_ioctl r i cmd arg fi fl ib isz osz f)"
proof -
  show "serves r f (fuse_lib_read r i sz off fi f)" unfolding fuse_lib_read_def Let_def
    by (rule serves_bind(2), rule moves_prepare, rule serves_malloc) (intro handler_rules kind_read)
  show "serves r f (fuse_lib_readdir r i sz off fi f)" unfolding fuse_lib_readdir_def Let_def
  proof (intro serves_bind(2) moves_prepare, rule kind_read, rule kind_pair, rule serves_bind(1), goal_cases)
    case (2 f1 v dh fi' a f2)
    show ?case
    proof (cases a)
      case (Pair err dh')
      show ?thesis unfolding Pair split
        by (rule serves_dirhandle [where h = "fh fi" and dh = "Some dh'"]) (intro handler_rules kind_read)
    qed
  qed (intro kind_if keeps_readdir_fill kind_unit)
  show "serves r f (fuse_lib_releasedir r i fi f)" unfolding fuse_lib_releasedir_def
    by (rule serves_bind(2), rule moves_prepare, rule kind_read, rule kind_pair)
      (intro serves_bind part_rules serves_dirhandle [OF serves_err])
  have common: "keeps f (common_getxattr r i n b k f)" "keeps f (common_listxattr r i b k f)" for n b k and f :: "('a, 'b) lib_ll"
    unfolding common_getxattr_def common_listxattr_def common_xattr_def by (intro handler_rules)+
  have xattr: "serves r f (reply_xattr r sz op f)" if "\<And>b f. keeps f (op b f)" for op and f :: "('a, 'b) lib_ll"
    unfolding reply_xattr_def Let_def
    by (rule serves_bind(2), rule moves_prepare, rule kind_if, rule serves_malloc) (intro handler_rules that kind_read)+
  show "serves r f (fuse_lib_getxattr r i n sz f)" "serves r f (fuse_lib_listxattr r i sz f)"
    unfolding fuse_lib_getxattr_def fuse_lib_listxattr_def by (intro xattr common)+
  show "serves r f (fuse_lib_release r i fi f)" unfolding fuse_lib_release_def
    by (intro handler_rules keeps_flush moves_do_release)
  show "serves r f (fuse_lib_flush r i fi f)" unfolding fuse_lib_flush_def by (intro handler_rules keeps_flush)
  show "serves r f (fuse_lib_getlk r i fi lk f)" unfolding fuse_lib_getlk_def
    by (rule kind_read, rule kind_read) (intro handler_rules keeps_lock_common)
  show "serves r f (fuse_lib_setlk r i fi lk slp f)" unfolding fuse_lib_setlk_def by (intro handler_rules keeps_lock_common)
  show "serves r f (fuse_lib_ioctl r i cmd arg fi fl ib isz osz f)" unfolding fuse_lib_ioctl_def Let_def
    by (rule serves_bind(2), rule moves_prepare, rule kind_if, rule serves_err, rule kind_state_pair, simp)
      (intro kind_if serves_err kind_unit; rule kind_read; intro handler_rules kind_read)
qed

text \<open>An answered request is gone: nothing may prepare it for interrupts any more.\<close>

lemma prepare_after_reply:
  assumes "reqs f r = Some q" "req_ctr q = 1" "fuse_reply_open r fi f = Some (res, f')" "conf_intr (lib_conf f)"
  shows "fuse_prepare_interrupt r f' = None"
proof -
  obtain res' msg where "fuse_reply_open r fi f = Some (res', replied r q msg f)"
    using send_reply_ok_replied [OF assms(1)] unfolding fuse_reply_open_def by blast
  then have "f' = replied r q msg f" using assms(3) by simp
  then show ?thesis using assms(2,4) by (simp add: fuse_prepare_interrupt_def fuse_req_interrupt_func_def replied_def)
qed

text \<open>FORGET is not answered; its request is freed all the same.\<close>

lemma forget_quits:
  assumes "fuse_lib_forget r i k f = Some f'"
  shows "\<exists>q. reqs f r = Some q \<and> still (replied r q [] f) f'"
proof -
  obtain f1 where f1: "nodes_do (\<lambda>c. forget_node c i k) f = Some f1" "fuse_reply_none r f1 = Some f'"
    using assms by (auto simp: fuse_lib_forget_def bind_eq_Some_conv)
  then obtain q1 where q1: "reqs f1 r = Some q1" by (cases "reqs f1 r") (auto simp: fuse_reply_none_def fuse_free_req_def)
  have "fuse_reply_none r f1 = Some (replied r q1 [] f1)"
    using q1 by (cases "send_results f1") (auto simp: fuse_reply_none_def fuse_free_req_def fuse_chan_send_def Let_def
      replied_def destroy_req_def set_req_def list_del_req_def)
  moreover have "still f f1" using keeps_nodes(2) f1(1) by (auto simp: moves_def)
  ultimately show ?thesis using f1(2) still_replied [OF _ q1, of f "[]"] by (metis option.inject)
qed

subsection \<open>The library is a file system of the low-level library\<close>

lemma ll_inv_still: "still f f' \<Longrightarrow> ll_inv pins f' = ll_inv pins f"
proof -
  assume s: "still f f'"
  then have v: "map_option req_view (reqs f' r) = map_option req_view (reqs f r)" for r by (simp add: still_def)
  have "map_option req_ctr (reqs f' r) = map_option req_ctr (reqs f r)" "reqs f' r = None \<longleftrightarrow> reqs f r = None" for r
    using v [of r] by (cases "reqs f r"; cases "reqs f' r"; simp add: req_view_def)+
  then show ?thesis using s by (simp add: ll_inv_def req_ok_def holders_def listed_def still_def)
qed

lemma still_good: "still f f' \<Longrightarrow> ll_inv pins f \<Longrightarrow> good_step pins f f'"
  using ll_inv_still [of f f'] by (simp add: good_step_def listed_def still_def)

lemma replied_good:
  assumes "reqs f r = Some q" "still (replied r q msg f) f'" "ll_inv pins f" "r \<in> set (req_list f)"
  shows "good_step pins f f'"
proof -
  have "good_step pins f (replied r q msg f)"
    using good_step_replied [OF assms(3,1)] assms(4) by (simp add: listed_def)
  then show ?thesis using still_good [OF assms(2)] good_step_inv good_step_trans by blast
qed

lemma serves_answers: "(\<And>f. serves r f (g f)) \<Longrightarrow> answers r g"
  unfolding serves_def served_def answers_def using replied_good by blast

lemma moves_leaves: "(\<And>f. moves f (g f)) \<Longrightarrow> leaves g"
proof -
  assume *: "\<And>f. moves f (g f)"
  have "req_list f' = req_list f" if "still f f'" for f f' :: "'a fuse_ll" using that by (simp add: still_def)
  then show ?thesis using * still_good unfolding leaves_def moves_def by (metis subset_refl)
qed

lemma moves_lib: "moves f (fuse_lib_init f)" "moves f (fuse_lib_destroy f)"
  by (auto simp: moves_def fuse_lib_init_def fuse_lib_destroy_def Let_def bind_eq_Some_conv set_lib_def still_def split_def)

lemmas lib_serves = serves_lookup serves_simple serves_names serves_opens serves_rest

interpretation lib: ll_file_system fuse_path_ops
proof unfold_locales
  show "answers r (interrupt_func fuse_path_ops k r)" for r k
    by (auto simp: fuse_path_ops_def fuse_interrupt_def answers_def good_step_def split: if_splits)
  show "ll_forget fuse_path_ops = Some g \<Longrightarrow> answers r (g r i nl)" for g :: "nat \<Rightarrow> u64 \<Rightarrow> u64 \<Rightarrow> ('a, 'b) fuse_lib ll_fun" and r i nl
    using forget_quits replied_good unfolding answers_def by (fastforce simp: fuse_path_ops_def)
  show "answers r (cuse_lowlevel_init fuse_path_ops r i arg)" for r i arg
    by (simp add: fuse_path_ops_def answers_def)
qed (auto simp: fuse_path_ops_def intro!: serves_answers lib_serves moves_leaves moves_lib)

subsection \<open>One reply for every request\<close>

lemma moves_umask: "moves f (set_umask r msk f)"
  by (auto simp: moves_def set_umask_def bind_eq_Some_conv req_view_def intro!: still_set_req)

lemma path_ops_simps [simp]:
  "ll_init fuse_path_ops = Some fuse_lib_init" "ll_destroy fuse_path_ops = Some fuse_lib_destroy"
  "ll_lookup fuse_path_ops = Some fuse_lib_lookup" "ll_forget fuse_path_ops = Some fuse_lib_forget"
  "ll_getattr fuse_path_ops = Some fuse_lib_getattr" "ll_setattr fuse_path_ops = Some fuse_lib_setattr"
  "ll_readlink fuse_path_ops = Some fuse_lib_readlink" "ll_mknod fuse_path_ops = Some fuse_lib_mknod"
  "ll_mkdir fuse_path_ops = Some fuse_lib_mkdir" "ll_unlink fuse_path_ops = Some fuse_lib_unlink"
  "ll_rmdir fuse_path_ops = Some fuse_lib_rmdir" "ll_symlink fuse_path_ops = Some fuse_lib_symlink"
  "ll_rename fuse_path_ops = Some fuse_lib_rename" "ll_link fuse_path_ops = Some fuse_lib_link"
  "ll_open fuse_path_ops = Some fuse_lib_open" "ll_read fuse_path_ops = Some fuse_lib_read"
  "ll_write fuse_path_ops = Some fuse_lib_write" "ll_flush fuse_path_ops = Some fuse_lib_flush"
  "ll_release fuse_path_ops = Some fuse_lib_release" "ll_fsync fuse_path_ops = Some fuse_lib_fsync"
  "ll_opendir fuse_path_ops = Some fuse_lib_opendir" "ll_readdir fuse_path_ops = Some fuse_lib_readdir"
  "ll_releasedir fuse_path_ops = Some fuse_lib_releasedir" "ll_fsyncdir fuse_path_ops = Some fuse_lib_fsyncdir"
  "ll_statfs fuse_path_ops = Some fuse_lib_statfs" "ll_setxattr fuse_path_ops = Some fuse_lib_setxattr"
  "ll_getxattr fuse_path_ops = Some fuse_lib_getxattr" "ll_listxattr fuse_path_ops = Some fuse_lib_listxattr"
  "ll_removexattr fuse_path_ops = Some fuse_lib_removexattr" "ll_access fuse_path_ops = Some fuse_lib_access"
  "ll_create fuse_path_ops = Some fuse_lib_create" "ll_getlk fuse_path_ops = Some fuse_lib_getlk"
  "ll_setlk fuse_path_ops = Some fuse_lib_setlk" "ll_bmap fuse_path_ops = Some fuse_lib_bmap"
  "ll_ioctl fuse_path_ops = Some fuse_lib_ioctl" "ll_poll fuse_path_ops = Some fuse_lib_poll"
  "cuse_lowlevel_init fuse_path_ops r i arg f = None" "interrupt_func fuse_path_ops = fuse_interrupt"
  by (simp_all add: fuse_path_ops_def)

lemma kind_read_pair:
  "(\<And>a b. serves r f (k a b)) \<Longrightarrow> serves r f (x \<bind> (\<lambda>(a, b). k a b))"
  by (cases x) (auto simp: serves_def)

lemma serves_decode:
  "serves r f (do_lookup fuse_path_ops r i arg f)" "serves r f (do_getattr fuse_path_ops r i arg f)"
  "serves r f (do_setattr fuse_path_ops r i arg f)" "serves r f (do_access fuse_path_ops r i arg f)"
  "serves r f (do_readlink fuse_path_ops r i arg f)" "serves r f (do_unlink fuse_path_ops r i arg f)"
  "serves r f (do_rmdir fuse_path_ops r i arg f)" "serves r f (do_symlink fuse_path_ops r i arg f)"
  "serves r f (do_rename fuse_path_ops r i arg f)" "serves r f (do_link fuse_path_ops r i arg f)"
  "serves r f (do_open fuse_path_ops r i arg f)" "serves r f (do_read fuse_path_ops r i arg f)"
  "serves r f (do_write fuse_path_ops r i arg f)" "serves r f (do_flush fuse_path_ops r i arg f)"
  "serves r f (do_release fuse_path_ops r i arg f)" "serves r f (do_fsync fuse_path_ops r i arg f)"
  "serves r f (do_opendir fuse_path_ops r i arg f)" "serves r f (do_readdir fuse_path_ops r i arg f)"
  "serves r f (do_releasedir fuse_path_ops r i arg f)" "serves r f (do_fsyncdir fuse_path_ops r i arg f)"
  "serves r f (do_statfs fuse_path_ops r i arg f)" "serves r f (do_setxattr fuse_path_ops r i arg f)"
  "serves r f (do_getxattr fuse_path_ops r i arg f)" "serves r f (do_listxattr fuse_path_ops r i arg f)"
  "serves r f (do_removexattr fuse_path_ops r i arg f)" "serves r f (do_getlk fuse_path_ops r i arg f)"
  "serves r f (do_setlk_common slp fuse_path_ops r i arg f)" "serves r f (do_bmap fuse_path_ops r i arg f)"
  "serves r f (do_ioctl fuse_path_ops r i arg f)"
  unfolding do_lookup_def do_getattr_def do_setattr_def do_access_def do_readlink_def do_unlink_def do_rmdir_def
      do_symlink_def do_rename_def do_link_def do_open_def do_read_def do_write_def do_flush_def do_release_def do_fsync_def
      do_opendir_def do_readdir_def do_releasedir_def do_fsyncdir_def do_statfs_def do_setxattr_def do_getxattr_def
      do_listxattr_def do_removexattr_def do_getlk_def do_setlk_common_def do_bmap_def do_ioctl_def Let_def path_ops_simps option.case
  by (intro lib_serves kind_read_pair kind_read kind_if)+

lemma serves_conn: "serves r (f\<lparr>conn := c\<rparr>) x \<Longrightarrow> serves r f x" "serves r (f\<lparr>conn := c, got_init := b\<rparr>) x \<Longrightarrow> serves r f x"
  "serves r (f\<lparr>got_destroy := b\<rparr>) x \<Longrightarrow> serves r f x" "serves r (f\<lparr>ll_mem := m\<rparr>) x \<Longrightarrow> serves r f x"
  by (rule serves_step; simp add: still_def)+

lemma serves_decode2:
  "serves r f (do_mknod fuse_path_ops r i arg f)" "serves r f (do_mkdir fuse_path_ops r i arg f)"
  "serves r f (do_create fuse_path_ops r i arg f)" "serves r f (do_poll fuse_path_ops r i arg f)"
  "serves r f (do_init fuse_path_ops r i arg f)" "serves r f (do_destroy fuse_path_ops r i arg f)"
proof -
  have um: "keeps f (if c then x \<bind> (\<lambda>msk. set_umask r msk f \<bind> (\<lambda>f. Some (n, f))) else Some (n', f))"
    for c x n n' and f :: "('a, 'b) lib_ll"
    by (intro kind_if kind_read keeps_bind(2) moves_umask kind_unit)
  show "serves r f (do_mknod fuse_path_ops r i arg f)" unfolding do_mknod_def path_ops_simps option.case
    by (rule serves_bind(1), rule um) (intro kind_read lib_serves)
  have "moves f (if c then x \<bind> (\<lambda>msk. set_umask r msk f) else Some f)" for c x and f :: "('a, 'b) lib_ll"
    by (intro kind_if kind_read moves_umask kind_unit)
  then show "serves r f (do_mkdir fuse_path_ops r i arg f)" unfolding do_mkdir_def path_ops_simps option.case
    by (rule serves_bind(2)) (intro kind_read lib_serves)
  show "serves r f (do_create fuse_path_ops r i arg f)" unfolding do_create_def path_ops_simps option.case
    by (rule kind_read, rule kind_read, rule serves_bind(1), rule um) (intro kind_read lib_serves)
  have "serves r f (let (ok, m) = alloc (ll_mem f); f = f\<lparr>ll_mem := m\<rparr> in if \<not> ok then reply_err r ENOMEM f
      else x \<bind> (\<lambda>k. reqs f r \<bind> (\<lambda>q. fuse_lib_poll r i (fi_handle v) (h k q) f)))" for v x h
    unfolding Let_def split_def
    by (rule serves_conn(4) [where m = "snd (alloc (ll_mem f))"]) (intro kind_if kind_map replies_sent kind_read lib_serves)
  then show "serves r f (do_poll fuse_path_ops r i arg f)" unfolding do_poll_def path_ops_simps option.case
    by (intro kind_read kind_if lib_serves)
  show "serves r f (do_init fuse_path_ops r i arg f)" unfolding do_init_def Let_def path_ops_simps option.case
    by (rule kind_read, rule kind_read, rule kind_read, rule kind_if, rule serves_conn(1), rule kind_map, rule replies_sent,
        rule kind_if, rule serves_conn(1), rule kind_map, rule replies_sent, rule kind_read,
        rule serves_conn(1), rule serves_conn(2), rule serves_bind(2), rule moves_lib) (intro kind_map replies_sent)
  show "serves r f (do_destroy fuse_path_ops r i arg f)" unfolding do_destroy_def Let_def path_ops_simps option.case
    by (rule serves_conn(3)) (rule serves_bind(2), rule moves_lib, intro kind_map replies_sent)
qed

lemma table_serves:
  assumes "fuse_ll_ops opc = Some g" "opc \<noteq> FUSE_INTERRUPT" "opc \<noteq> 2"
  shows "serves r f (g fuse_path_ops r i arg f)"
  using assms
  by (auto simp: fuse_ll_ops_def do_setlk_def do_setlkw_def kind_unit serves_decode serves_decode2 split: if_splits)

lemma forget_decode:
  assumes "do_forget fuse_path_ops r i arg f = Some f'"
  shows "\<exists>q. reqs f r = Some q \<and> still (replied r q [] f) f'"
  using assms forget_quits by (auto simp: do_forget_def bind_eq_Some_conv)

text \<open>
  A connection of the library: it starts with a new low-level library that has \<open>fuse_path_ops\<close>, and
  every message is worked off before the next is read.
\<close>

inductive lib_reach :: "('d, 'x) lib_ll \<Rightarrow> bool" where
  start: "fuse_lowlevel_new_common m args fuse_path_ops op_size ud uid bufsize = Some (Some (f, ops), args') \<Longrightarrow> lib_reach f"
| message: "lib_reach f \<Longrightarrow> fuse_ll_process fuse_path_ops buf ch f = Some f' \<Longrightarrow> lib_reach f'"

lemma lib_reach_inv: "lib_reach f \<Longrightarrow> ll_inv (\<lambda>_. 0) f"
  by (induction rule: lib_reach.induct) (auto intro: ll_inv_new lib.process_inv)

text \<open>What a message does to the list of requests and to what has been sent.\<close>

lemma process_sends:
  assumes inv: "ll_inv (\<lambda>_. 0) f" and none: "req_list f = []"
    and run: "fuse_ll_process fuse_path_ops buf ch f = Some f'" "header_of buf = Some h"
    and mem: "fst (alloc (ll_mem f))" and op: "unat (inh_opcode h) \<noteq> FUSE_INTERRUPT"
  shows "\<exists>pre msg. sent f' = sent f @ pre @ [(ch, msg)] \<and> length pre \<le> 1 \<and> (interrupts f = [] \<longrightarrow> pre = []) \<and> req_list f' = [] \<and>
     (if unat (inh_opcode h) = 2 \<and> ll_reject f 2 (inh_uid h) = None then msg = [] else get64 8 msg = Some (inh_unique h))"
proof -
  let ?r = "fresh_req f" and ?f = "with_req h ch f" and ?op = "unat (inh_opcode h)"
  note p = run(1) [unfolded process_cases [OF run(2)]]
  show ?thesis
  proof (cases "ll_reject f ?op (inh_uid h)")
    case (Some err)
    have "reply_err ?r err ?f = Some f'" using p mem Some by simp
    then have "f' = replied ?r (msg_req h ch) (reply_message (msg_req h ch) (- err) []) ?f"
      using reply_err_replied [of ?f ?r "msg_req h ch" err] by simp
    then show ?thesis using Some none by (auto simp: replied_def)
  next
    case None
    obtain f1 pre i where f1: "enlist ?r ?f = Some f1" "req_list f1 = [?r]" "sent f1 = sent f @ pre" "length pre \<le> 1"
      "interrupts f = [] \<longrightarrow> pre = []" "reqs f1 ?r = Some ((msg_req h ch)\<lparr>interrupted := i\<rparr>)"
      using enlist_request [OF inv, of h ch] none by auto
    obtain g :: "('a, 'b) fuse_lib handler" where g: "fuse_ll_ops ?op = Some g"
      using p mem None f1(1) op by (auto simp: bind_eq_Some_conv)
    then have run: "g fuse_path_ops ?r (inh_nodeid h) (drop 40 buf) f1 = Some f'" using p mem None f1(1) op by simp
    have "\<exists>msg. still (replied ?r ((msg_req h ch)\<lparr>interrupted := i\<rparr>) msg f1) f' \<and>
        (if ?op = 2 then msg = [] else get64 8 msg = Some (inh_unique h))"
    proof (cases "?op = 2")
      case True
      then have "g = do_forget" using g by (simp add: fuse_ll_ops_def)
      then show ?thesis using forget_decode run f1(6) True by fastforce
    next
      case False
      show ?thesis using table_serves [OF g op False, of ?r f1] run f1(6) False by (auto simp: serves_def served_def)
    qed
    then obtain msg where msg: "still (replied ?r ((msg_req h ch)\<lparr>interrupted := i\<rparr>) msg f1) f'"
      "if ?op = 2 then msg = [] else get64 8 msg = Some (inh_unique h)" by blast
    then have "sent f' = sent f @ pre @ [(ch, msg)]" "req_list f' = []" using f1(2,3) by (auto simp: still_def replied_def)
    then show ?thesis using f1(4,5) msg(2) None by (intro exI [of _ pre] exI [of _ msg]) (auto split: if_splits)
  qed
qed

text \<open>An INTERRUPT finds no request being worked on; it is kept or answered.\<close>

lemma lib_reach_idle: "lib_reach f \<Longrightarrow> req_list f = []"
proof (induction rule: lib_reach.induct)
  case (start m args op_size ud uid bufsize f ops args')
  then show ?case by (auto simp: fuse_lowlevel_new_common_def bind_eq_Some_conv Let_def split: prod.splits if_splits)
next
  case (message f buf ch f')
  obtain h where h: "header_of buf = Some h" using process_header [OF message(2)] by blast
  note p = message(2) [unfolded process_cases [OF h]]
  show ?case
  proof (cases "fst (alloc (ll_mem f)) \<and> unat (inh_opcode h) = FUSE_INTERRUPT")
    case True
    let ?f = "with_req h ch f" and ?r = "fresh_req f"
    have "reply_err ?r err ?f = Some (replied ?r (msg_req h ch) (reply_message (msg_req h ch) (- err) []) ?f)" for err
      by (rule reply_err_replied) simp
    then have "reply_err ?r err ?f = Some f' \<Longrightarrow> req_list f' = []" for err using message(3) by (auto simp: replied_def)
    then show ?thesis using p True message(3)
      by (auto simp: fuse_ll_ops_def do_interrupt_def find_interrupted_def bind_eq_Some_conv Let_def set_req_def
          destroy_req_def split: option.splits)
  next
    case False
    then show ?thesis
      using process_sends [OF lib_reach_inv [OF message(1)] message(3,2) h] p message(3) by (auto split: if_splits)
  qed
qed


text \<open>
  C1: every request is answered exactly once. Whatever file system is below the library, when it has worked off
  a message that is not an INTERRUPT, one message has been sent for it on the channel it came from,
  with the identifier of the message (an empty one, which goes nowhere, for a FORGET that is accepted),
  after at most one answer to an old INTERRUPT, and no request is left waiting.
\<close>

theorem one_reply:
  assumes "lib_reach f" "fuse_ll_process fuse_path_ops buf ch f = Some f'" "header_of buf = Some h"
    and "fst (alloc (ll_mem f))" "unat (inh_opcode h) \<noteq> FUSE_INTERRUPT"
  shows "\<exists>pre msg. sent f' = sent f @ pre @ [(ch, msg)] \<and> length pre \<le> 1 \<and> (interrupts f = [] \<longrightarrow> pre = []) \<and> req_list f' = [] \<and>
     (if unat (inh_opcode h) = 2 \<and> ll_reject f 2 (inh_uid h) = None then msg = [] else get64 8 msg = Some (inh_unique h))"
  using process_sends [OF lib_reach_inv lib_reach_idle] assms by blast

definition demo_lib :: "(unit, unit) fuse_lib" where
  "demo_lib = \<lparr>nodes = demo0, lib_fs = Some \<lparr>fs_op = no_operations, user_data = (), compat = 0\<rparr>,
     lib_world = \<lparr>w_ctx = \<lparr>cx_req = 0, cx_uid = 0, cx_gid = 0, cx_pid = 0, cx_umask = 0\<rparr>, outside = ()\<rparr>,
     dirhandles = (\<lambda>_. None), dh_brk = 1, lib_clock = (\<lambda>_. \<lparr>tv_sec = 0, tv_nsec = 0\<rparr>), lib_ticks = 0, lib_wait = (\<lambda>_. None)\<rparr>"

definition demo_lib_new :: "(unit, unit) lib_ll" where
  "demo_lib_new = \<lparr>allow_root = False, atomic_o_trunc = False, no_remote_lock = False, big_writes = False, got_init = False,
     got_destroy = False, cuse_data = False, userdata = demo_lib, owner = 0,
     conn = \<lparr>proto_major = 0, proto_minor = 0, async_read = 1, max_write = 0xFFFFFFFF, max_readahead = 0xFFFFFFFF, capable = 0, want = 0\<rparr>,
     reqs = (\<lambda>_. None), fresh_req = 0, req_list = [], interrupts = [], ll_mem = [], chan_bufsize = 0x21000,
     send_results = [], sent = []\<rparr>"

lemma demo_lib_reach: "lib_reach demo_lib_new"
proof (rule lib_reach.start [where m = "[]" and args = None and op_size = 0])
  show "fuse_lowlevel_new_common [] None fuse_path_ops 0 demo_lib 0 0x21000 = Some (Some (demo_lib_new, copy_ll_ops 0 fuse_path_ops), None)"
    by (simp add: fuse_lowlevel_new_common_def fuse_opt_parse_def demo_lib_new_def opt_int_def ll_defaults_def)
qed

lemma demo_lib_ready:
  "\<exists>f. fuse_ll_process fuse_path_ops demo_init 0 demo_lib_new = Some f \<and> got_init f \<and> req_list f = [] \<and> interrupts f = [] \<and>
     ll_mem f = [] \<and> fresh_req f = 1 \<and> \<not> allow_root f \<and> \<not> cuse_data f \<and> reqs f = (\<lambda>_. None) \<and> proto_minor_of f = 12 \<and> userdata f = demo_lib"
  by (simp add: demo_init_def demo_header_def process_cases demo_lib_new_def ll_reject_def enlist_def check_interrupt_def
     fuse_ll_ops_def do_init_def with_req_def set_req_def msg_req_def init_conn_def init_want_def fuse_lib_init_def
     fuse_fs_init_def no_operations_def demo_lib_def set_lib_def
     send_reply_ok_def send_reply_def send_reply_iov_def fuse_send_reply_iov_nofree_def fuse_chan_send_def
     fuse_free_req_def list_del_req_def destroy_req_def Let_def proto_minor_of_def)

theorem one_reply_witness:
  "\<exists>f msg. fuse_ll_process fuse_path_ops demo_init 0 demo_lib_new = Some f \<and> sent f = [(0, msg)] \<and> get64 8 msg = Some 1"
proof -
  obtain f where f: "fuse_ll_process fuse_path_ops demo_init 0 demo_lib_new = Some f" using demo_lib_ready by blast
  have "header_of demo_init = Some (demo_header 26 1)" by (simp add: demo_init_def)
  from one_reply [OF demo_lib_reach f this] show ?thesis
    using f by (auto simp: demo_header_def demo_lib_new_def)
qed

end
