(* ===== verification/NT_Hashmap.thy ===== *)
theory NT_Hashmap
  imports Complex_Main Fuse_Prelude
begin

text \<open>
  The hash map of the Windows driver (\<open>ifs/fuse/wxp/hashmap.cc\<close>), which maps the names of mounted
  modules to their structures: open addressing with linear probing in a table of fixed capacity.

  The operations are modelled slot by slot. What they do is then said with \<open>bound\<close>, the values a key
  has in the order in which a search meets them: adding appends, removing takes the first away,
  and a search finds the first. A removed entry keeps its slot; the last part shows what this and
  the fixed capacity mean for termination, and what the hash function really computes.
\<close>

subsection \<open>Wide strings\<close>

type_synonym wchar = "16 word"
type_synonym wstring = "wchar list"

text \<open>\<open>wcscmp\<close> of the C library, on the strings in front of their terminators.\<close>

fun wcscmp :: "wstring \<Rightarrow> wstring \<Rightarrow> int" where
  "wcscmp [] [] = 0"
| "wcscmp [] (b # bs) = - 1"
| "wcscmp (a # as) [] = 1"
| "wcscmp (a # as) (b # bs) = (if a = b then wcscmp as bs else if a < b then - 1 else 1)"

subsection \<open>The map\<close>

text \<open>A slot of the table, \<open>key_val_pair\<close>; \<open>None\<close> is the null pointer.\<close>

record ('k, 'v) key_val_pair =
  kv_k :: "'k option"
  kv_v :: "'v option"

record ('k, 'v) hashmap =
  hm_map :: "('k, 'v) key_val_pair list"
  hm_size :: u32
  capacity :: nat
  hash_fn :: "'k \<Rightarrow> u32"
  eq_fn :: "'k option \<Rightarrow> 'k option \<Rightarrow> bool"

abbreviation (input) HMAP_PAGE_SIZE :: nat where "HMAP_PAGE_SIZE \<equiv> 1024"

text \<open>With pointers of eight bytes.\<close>

definition HMAP_PRESET_SIZE :: nat where
  "HMAP_PRESET_SIZE = HMAP_PAGE_SIZE div (2 * 8)"

text \<open>A failed allocation is not checked for; the null pointer is written to.\<close>

definition mk_hmap ::
  "allocs \<Rightarrow> ('k \<Rightarrow> u32) \<Rightarrow> ('k option \<Rightarrow> 'k option \<Rightarrow> bool) \<Rightarrow> (('k, 'v) hashmap \<times> allocs) option" where
  "mk_hmap m hash_fun eq_fun =
     (let (ok, m) = alloc m
      in if ok then Some (\<lparr>hm_map = replicate HMAP_PRESET_SIZE \<lparr>kv_k = None, kv_v = None\<rparr>, hm_size = 0,
           capacity = HMAP_PRESET_SIZE, hash_fn = hash_fun, eq_fn = eq_fun\<rparr>, m)
         else None)"

text \<open>\<open>__oa_get_location\<close>: \<open>Some None\<close> is the result -1; \<open>None\<close> is a search without end or outside the
  table.\<close>

partial_function (option) oa_probe :: "('k, 'v) hashmap \<Rightarrow> 'k \<Rightarrow> nat \<Rightarrow> nat option option" where
  [code]: "oa_probe h k i =
     (if i < length (hm_map h) then
        if kv_v (hm_map h ! i) \<noteq> None then
          if eq_fn h (Some k) (kv_k (hm_map h ! i)) then Some (Some i) else oa_probe h k (Suc i mod capacity h)
        else Some None
      else None)"

definition oa_get_location :: "('k, 'v) hashmap \<Rightarrow> 'k \<Rightarrow> nat option option" where
  "oa_get_location h k = oa_probe h k (unat (hash_fn h k) mod capacity h)"

text \<open>The search for a free slot in \<open>__oa_hmap_add\<close>.\<close>

partial_function (option) oa_free :: "('k, 'v) key_val_pair list \<Rightarrow> nat \<Rightarrow> nat \<Rightarrow> nat option" where
  [code]: "oa_free m cap i =
     (if i < length m then if kv_v (m ! i) \<noteq> None then oa_free m cap (Suc i mod cap) else Some i else None)"

definition oa_hmap_add ::
  "('k, 'v) key_val_pair list \<Rightarrow> nat \<Rightarrow> ('k \<Rightarrow> u32) \<Rightarrow> 'k \<Rightarrow> 'v \<Rightarrow> ('k, 'v) key_val_pair list option" where
  "oa_hmap_add m cap hash_fun k v = do {
     i \<leftarrow> oa_free m cap (unat (hash_fun k) mod cap);
     Some (m[i := \<lparr>kv_k = Some k, kv_v = Some v\<rparr>])
   }"

definition hmap_add :: "('k, 'v) hashmap \<Rightarrow> 'k \<Rightarrow> 'v \<Rightarrow> (bool \<times> ('k, 'v) hashmap) option" where
  "hmap_add h k v = do {
     m \<leftarrow> oa_hmap_add (hm_map h) (capacity h) (hash_fn h) k v;
     Some (True, h\<lparr>hm_map := m, hm_size := hm_size h + 1\<rparr>)
   }"

definition hmap_get :: "('k, 'v) hashmap \<Rightarrow> 'k \<Rightarrow> 'v option option" where
  "hmap_get h k = do {
     loc \<leftarrow> oa_get_location h k;
     Some (case loc of Some i \<Rightarrow> kv_v (hm_map h ! i) | None \<Rightarrow> None)
   }"

text \<open>\<open>__hmap_remove\<close>: the value handed to the destructor, if any, and the map. The value stays in its
  slot; only the key is cleared.\<close>

definition hmap_remove :: "('k, 'v) hashmap \<Rightarrow> 'k \<Rightarrow> ('v option \<times> ('k, 'v) hashmap) option" where
  "hmap_remove h k = do {
     loc \<leftarrow> oa_get_location h k;
     Some (case loc of
         Some i \<Rightarrow> (kv_v (hm_map h ! i), h\<lparr>hm_map := (hm_map h)[i := (hm_map h ! i)\<lparr>kv_k := None\<rparr>]\<rparr>)
       | None \<Rightarrow> (None, h))
   }"

text \<open>\<open>free_hmap\<close>: the values handed to the destructor, in order. The loop runs over the first \<open>size\<close>
  slots; \<open>None\<close> is a read outside the table.\<close>

definition free_hmap :: "('k, 'v) hashmap \<Rightarrow> 'v list option" where
  "free_hmap h =
     (if unat (hm_size h) \<le> length (hm_map h)
      then Some (List.map_filter kv_v (take (unat (hm_size h)) (hm_map h))) else None)"

subsection \<open>The functions for names\<close>

text \<open>
  \<open>str_hash_fn\<close> keeps the character it read last in a static variable, \<open>c\<close>, which is zero when the
  driver is loaded. The string is given with its terminator; \<open>None\<close> is a read behind it.
\<close>

fun str_hash_loop :: "u32 \<Rightarrow> wchar \<Rightarrow> wstring \<Rightarrow> (u32 \<times> wchar) option" where
  "str_hash_loop hash c s =
     (if c \<noteq> 0 then case s of
        c # s \<Rightarrow> str_hash_loop ((push_bit 5 hash + hash) + ucast c) c s
      | [] \<Rightarrow> None
      else Some (hash, c))"

declare str_hash_loop.simps [simp del]

definition str_hash_fn :: "wchar \<Rightarrow> wstring \<Rightarrow> (u32 \<times> wchar) option" where
  "str_hash_fn c s = str_hash_loop 5381 c (s @ [0])"

definition str_eq_fn :: "wstring option \<Rightarrow> wstring option \<Rightarrow> bool" where
  "str_eq_fn a b = (case (a, b) of (Some a, Some b) \<Rightarrow> wcscmp a b = 0 | _ \<Rightarrow> False)"

text \<open>The static variable is zero before and after every call, so that the hash of a name is\<close>

definition name_hash_fn :: "wstring \<Rightarrow> u32" where
  "name_hash_fn s = (case str_hash_fn 0 s of Some (hash, _) \<Rightarrow> hash | None \<Rightarrow> 0)"


subsection \<open>What a search meets\<close>

text \<open>The slots in the order of a search that starts at slot \<open>s\<close>, and the values a key has in it.\<close>

definition probes :: "nat \<Rightarrow> nat \<Rightarrow> nat list" where
  "probes cap s = rotate s [0..<cap]"

definition used :: "('k, 'v) key_val_pair list \<Rightarrow> nat \<Rightarrow> bool" where
  "used m i \<longleftrightarrow> kv_v (m ! i) \<noteq> None"

definition start :: "('k, 'v) hashmap \<Rightarrow> 'k \<Rightarrow> nat" where
  "start h k = unat (hash_fn h k) mod capacity h"

definition chain :: "('k, 'v) hashmap \<Rightarrow> 'k \<Rightarrow> nat list" where
  "chain h k = takeWhile (used (hm_map h)) (probes (capacity h) (start h k))"

definition bound :: "('k, 'v) hashmap \<Rightarrow> 'k \<Rightarrow> 'v list" where
  "bound h k = map (\<lambda>i. the (kv_v (hm_map h ! i))) (filter (\<lambda>i. kv_k (hm_map h ! i) = Some k) (chain h k))"

definition slots_used :: "('k, 'v) hashmap \<Rightarrow> nat" where
  "slots_used h = card {i. i < capacity h \<and> used (hm_map h) i}"

text \<open>A well-formed map: every key is reached by its search.\<close>

definition hmap_inv :: "('k, 'v) hashmap \<Rightarrow> bool" where
  "hmap_inv h \<longleftrightarrow> 0 < capacity h \<and> length (hm_map h) = capacity h \<and>
     (\<forall>i<capacity h. \<forall>k. used (hm_map h) i \<longrightarrow> kv_k (hm_map h ! i) = Some k \<longrightarrow> i \<in> set (chain h k))"

lemma probes_simps [simp]: "set (probes cap s) = {..<cap}" "distinct (probes cap s)" "length (probes cap s) = cap"
  by (auto simp: probes_def)

lemma nth_probes: "j < cap \<Longrightarrow> probes cap s ! j = (s + j) mod cap"
  by (simp add: probes_def nth_rotate)

lemma drop_probes: "j < cap \<Longrightarrow> drop j (probes cap s) = (s + j) mod cap # drop (Suc j) (probes cap s)"
  by (simp add: Cons_nth_drop_Suc [symmetric] nth_probes)

lemma hmap_invD:
  assumes "hmap_inv h"
  shows "0 < capacity h" "length (hm_map h) = capacity h" "start h k < capacity h"
    "i < capacity h \<Longrightarrow> used (hm_map h) i \<Longrightarrow> kv_k (hm_map h ! i) = Some k \<Longrightarrow> i \<in> set (chain h k)"
  using assms by (auto simp: hmap_inv_def start_def)

lemma chain_filter:
  assumes "filter P (chain h k) = i # js"
  shows "used (hm_map h) i \<and> i < capacity h \<and> P i"
proof -
  have "i \<in> set (filter P (chain h k))" using assms by simp
  then show ?thesis by (auto simp: chain_def dest: set_takeWhileD)
qed

text \<open>The two loops look at the slots in this order.\<close>

lemma oa_free_probes:
  assumes "length m = cap" "\<exists>i\<in>set (drop j (probes cap s)). \<not> used m i" "j < cap"
  shows "oa_free m cap ((s + j) mod cap) = find (\<lambda>i. \<not> used m i) (drop j (probes cap s))"
  using assms(2,3)
proof (induction "cap - j" arbitrary: j)
  case (Suc n)
  have succ: "Suc ((s + j) mod cap) mod cap = (s + Suc j) mod cap" by (simp add: mod_Suc_eq)
  have lt: "(s + j) mod cap < length m" using Suc.prems assms(1) by simp
  show ?case
  proof (cases "used m ((s + j) mod cap)")
    case True
    then have ex: "\<exists>i\<in>set (drop (Suc j) (probes cap s)). \<not> used m i" using Suc.prems by (auto simp: drop_probes)
    then have "Suc j < cap" by (metis drop_eq_Nil empty_iff empty_set linorder_not_less probes_simps(3))
    then show ?thesis using Suc.hyps(1) [of "Suc j"] Suc.hyps(2) ex True lt succ Suc.prems
      by (subst oa_free.simps) (auto simp: drop_probes used_def)
  next
    case False
    then show ?thesis using lt Suc.prems by (subst oa_free.simps) (simp add: drop_probes used_def)
  qed
qed simp

lemma oa_free_unused: "oa_free m cap i = Some j \<Longrightarrow> j < length m \<and> \<not> used m j"
  by (rule oa_free.raw_induct [of "\<lambda>m cap i j. j < length m \<and> \<not> used m j", rotated])
    (auto simp: used_def split: if_splits)

lemma oa_probe_ends:
  "oa_probe h k i = Some r \<Longrightarrow> \<exists>j<length (hm_map h). \<not> used (hm_map h) j \<or> eq_fn h (Some k) (kv_k (hm_map h ! j))"
  by (rule oa_probe.raw_induct
      [of "\<lambda>h k i r. \<exists>j<length (hm_map h). \<not> used (hm_map h) j \<or> eq_fn h (Some k) (kv_k (hm_map h ! j))", rotated])
    (auto simp: used_def split: if_splits)

text \<open>Searching a list for a free slot or a key.\<close>

lemma find_chain:
  "filter K (takeWhile U ps) = x # xs \<Longrightarrow> find (\<lambda>i. \<not> U i \<or> K i) ps = Some x"
  "filter K (takeWhile U ps) = [] \<Longrightarrow> \<exists>i\<in>set ps. \<not> U i \<Longrightarrow> \<exists>i. find (\<lambda>i. \<not> U i \<or> K i) ps = Some i \<and> \<not> U i"
  by (induction ps) (auto split: if_splits)

lemma find_free:
  "find (\<lambda>i. \<not> U i) ps = Some i \<Longrightarrow> \<exists>ys. ps = takeWhile U ps @ i # ys \<and> \<not> U i"
  by (induction ps) (auto split: if_splits)

text \<open>One more slot in use: a search goes on behind it.\<close>

lemma takeWhile_more:
  assumes "\<And>j. U j \<Longrightarrow> U' j" "distinct ps"
  shows "\<exists>ys. takeWhile U' ps = takeWhile U ps @ ys \<and> set ys \<inter> set (takeWhile U ps) = {} \<and> (\<forall>y\<in>set ys. U' y) \<and>
     distinct ys \<and> set ys \<subseteq> set ps"
  using assms(2)
proof (induction ps)
  case (Cons p ps)
  then obtain ys where ys: "takeWhile U' ps = takeWhile U ps @ ys" "set ys \<inter> set (takeWhile U ps) = {}" "\<forall>y\<in>set ys. U' y"
    "distinct ys" "set ys \<subseteq> set ps" by auto
  show ?case
  proof (cases "U p")
    case True
    then show ?thesis using ys assms(1) Cons.prems by (intro exI [of _ ys]) auto
  next
    case False
    have "distinct (takeWhile U' (p # ps))" using Cons.prems distinct_takeWhile by blast
    then show ?thesis using False by (intro exI [of _ "takeWhile U' (p # ps)"]) (auto dest: set_takeWhileD split: if_splits)
  qed
qed simp

lemma distinct_filter_single: "distinct zs \<Longrightarrow> i \<in> set zs \<Longrightarrow> P i \<Longrightarrow> (\<And>j. j \<in> set zs \<Longrightarrow> j \<noteq> i \<Longrightarrow> \<not> P j) \<Longrightarrow> filter P zs = [i]"
  by (induction zs) (auto simp: filter_empty_conv)

subsection \<open>What the operations do\<close>

text \<open>What the map relies on in its functions: the comparison tells keys apart, and nothing equals the
  null pointer a removed entry has.\<close>

definition hmap_over :: "('k \<Rightarrow> u32) \<Rightarrow> ('k option \<Rightarrow> 'k option \<Rightarrow> bool) \<Rightarrow> ('k, 'v) hashmap \<Rightarrow> bool" where
  "hmap_over hash eq h \<longleftrightarrow> hash_fn h = hash \<and> eq_fn h = eq \<and> hmap_inv h"

locale hash_keys =
  fixes hash :: "'k \<Rightarrow> u32" and eq :: "'k option \<Rightarrow> 'k option \<Rightarrow> bool"
  assumes eq_iff: "eq a b \<longleftrightarrow> (\<exists>k. a = Some k \<and> b = Some k)"
begin

lemma overD: "hmap_over hash eq h \<Longrightarrow> hmap_inv h \<and> hash_fn h = hash \<and> eq_fn h = eq"
  by (simp add: hmap_over_def)

lemma oa_probe_probes:
  assumes h: "length (hm_map h) = capacity h" "eq_fn h = eq"
    and "find (\<lambda>i. \<not> used (hm_map h) i \<or> kv_k (hm_map h ! i) = Some k) (drop j (probes (capacity h) s)) = Some i" "j < capacity h"
  shows "oa_probe h k ((s + j) mod capacity h) = Some (if used (hm_map h) i then Some i else None)"
  using assms(3,4)
proof (induction "capacity h - j" arbitrary: j)
  case (Suc n)
  let ?p = "(s + j) mod capacity h"
  have succ: "Suc ?p mod capacity h = (s + Suc j) mod capacity h" by (simp add: mod_Suc_eq)
  have lt: "?p < length (hm_map h)" using Suc.prems h(1) by simp
  show ?case
  proof (cases "used (hm_map h) ?p \<and> kv_k (hm_map h ! ?p) \<noteq> Some k")
    case True
    then have f: "find (\<lambda>i. \<not> used (hm_map h) i \<or> kv_k (hm_map h ! i) = Some k) (drop (Suc j) (probes (capacity h) s)) = Some i"
      using Suc.prems by (simp add: drop_probes)
    then have "Suc j < capacity h" by (metis drop_eq_Nil find.simps(1) linorder_not_less option.distinct(1) probes_simps(3))
    then show ?thesis using Suc.hyps(1) [of "Suc j"] Suc.hyps(2) f True lt succ h(2)
      by (subst oa_probe.simps) (auto simp: used_def eq_iff)
  next
    case False
    then show ?thesis using lt Suc.prems h(2) by (subst oa_probe.simps) (auto simp: drop_probes used_def eq_iff split: if_splits)
  qed
qed simp

text \<open>A search ends with the first value of the key, or at a free slot.\<close>

lemma get_location:
  assumes "hmap_over hash eq h" "bound h k \<noteq> [] \<or> (\<exists>i<capacity h. \<not> used (hm_map h) i)"
  shows "oa_get_location h k = Some (case filter (\<lambda>i. kv_k (hm_map h ! i) = Some k) (chain h k) of [] \<Rightarrow> None | i # _ \<Rightarrow> Some i)"
proof -
  let ?K = "\<lambda>i. kv_k (hm_map h ! i) = Some k" and ?U = "used (hm_map h)" and ?ps = "probes (capacity h) (start h k)"
  note h = overD [OF assms(1)]
  note inv = hmap_invD [of h, OF h [THEN conjunct1]]
  have loc: "oa_get_location h k = Some (if ?U i then Some i else None)" if "find (\<lambda>i. \<not> ?U i \<or> ?K i) ?ps = Some i" for i
    using oa_probe_probes [of h k 0 "start h k" i] that h inv
    by (simp add: oa_get_location_def start_def)
  show ?thesis
  proof (cases "filter ?K (chain h k)")
    case Nil
    then obtain i where "find (\<lambda>i. \<not> ?U i \<or> ?K i) ?ps = Some i" "\<not> ?U i"
      using find_chain(2) [of ?K ?U ?ps] assms(2) by (auto simp: chain_def bound_def)
    then show ?thesis using loc Nil by simp
  next
    case (Cons i js)
    have "?U i" using chain_filter [OF Cons] by blast
    moreover have "oa_get_location h k = Some (if ?U i then Some i else None)"
      by (rule loc, rule find_chain(1) [where xs = js]) (use Cons in \<open>simp add: chain_def\<close>)
    ultimately show ?thesis unfolding Cons by simp
  qed
qed

lemma hmap_get_bound:
  assumes "hmap_over hash eq h" "bound h k \<noteq> [] \<or> (\<exists>i<capacity h. \<not> used (hm_map h) i)"
  shows "hmap_get h k = Some (case bound h k of [] \<Rightarrow> None | v # _ \<Rightarrow> Some v)"
  unfolding hmap_get_def get_location [OF assms]
  by (auto simp: bound_def used_def split: list.splits dest: chain_filter)

lemma hmap_remove_bound:
  assumes h: "hmap_over hash eq h" "bound h k \<noteq> [] \<or> (\<exists>i<capacity h. \<not> used (hm_map h) i)"
  shows "\<exists>h'. hmap_remove h k = Some (case bound h k of [] \<Rightarrow> None | v # _ \<Rightarrow> Some v, h') \<and> hmap_over hash eq h' \<and>
     capacity h' = capacity h \<and> (\<forall>i. used (hm_map h') i = used (hm_map h) i) \<and> bound h' = (bound h)(k := tl (bound h k))"
proof (cases "filter (\<lambda>i. kv_k (hm_map h ! i) = Some k) (chain h k)")
  case Nil
  then show ?thesis using h(1) by (intro exI [of _ h]) (simp add: hmap_remove_def get_location [OF h] bound_def fun_eq_iff)
next
  case (Cons i js)
  let ?m = "(hm_map h)[i := (hm_map h ! i)\<lparr>kv_k := None\<rparr>]"
  let ?h = "h\<lparr>hm_map := ?m\<rparr>"
  note inv = hmap_invD [of h, OF overD [OF h(1), THEN conjunct1]]
  have i: "used (hm_map h) i" "i < capacity h" "kv_k (hm_map h ! i) = Some k" using chain_filter [OF Cons] by blast+
  have used: "used ?m j = used (hm_map h) j" for j using i inv(2) by (simp add: used_def nth_list_update)
  then have "used ?m = used (hm_map h)" by (simp add: fun_eq_iff)
  then have chain: "chain ?h k' = chain h k'" for k' by (simp add: chain_def start_def)
  have distinct: "distinct (filter P (chain h k'))" for P k' by (simp add: chain_def distinct_takeWhile)
  have keys: "filter (\<lambda>j. kv_k (?m ! j) = Some k') (chain h k') = removeAll i (filter (\<lambda>j. kv_k (hm_map h ! j) = Some k') (chain h k'))" for k'
    using i inv(2) by (auto simp: removeAll_filter_not_eq nth_list_update intro!: filter_cong)
  have "the (kv_v (?m ! j)) = the (kv_v (hm_map h ! j))" for j using i inv(2) by (simp add: nth_list_update)
  then have bound: "bound ?h k' = map (\<lambda>j. the (kv_v (hm_map h ! j))) (removeAll i (filter (\<lambda>j. kv_k (hm_map h ! j) = Some k') (chain h k')))" for k'
    by (simp add: bound_def chain keys)
  have "removeAll i (filter (\<lambda>j. kv_k (hm_map h ! j) = Some k') (chain h k')) =
      (if k' = k then js else filter (\<lambda>j. kv_k (hm_map h ! j) = Some k') (chain h k'))" for k'
  proof (cases "k' = k")
    case True
    then show ?thesis using distinct [of "\<lambda>j. kv_k (hm_map h ! j) = Some k" k] Cons by simp
  qed (use i(3) in \<open>simp add: removeAll_id\<close>)
  then have "bound ?h k' = (if k' = k then tl (bound h k) else bound h k')" for k'
    unfolding bound [of k'] using Cons by (simp add: bound_def)
  then have "bound ?h = (bound h)(k := tl (bound h k))" by (simp add: fun_eq_iff)
  moreover have "hmap_inv ?h" using inv i by (auto simp: hmap_inv_def chain used nth_list_update split: if_splits)
  moreover have "hmap_remove h k = Some (case bound h k of [] \<Rightarrow> None | v # _ \<Rightarrow> Some v, ?h)"
    using Cons i(1) by (simp add: hmap_remove_def get_location [OF h] bound_def used_def)
  ultimately show ?thesis using overD [OF h(1)] used by (intro exI [of _ ?h]) (simp add: hmap_over_def)
qed

lemma hmap_add_bound:
  assumes h: "hmap_over hash eq h" and free: "\<exists>i<capacity h. \<not> used (hm_map h) i"
  shows "\<exists>h' i. hmap_add h k v = Some (True, h') \<and> hmap_over hash eq h' \<and> capacity h' = capacity h \<and> i < capacity h \<and>
     \<not> used (hm_map h) i \<and> (\<forall>j. used (hm_map h') j = (used (hm_map h) j \<or> j = i)) \<and> bound h' = (bound h)(k := bound h k @ [v])"
proof -
  note inv = hmap_invD [of h, OF overD [OF h, THEN conjunct1]]
  let ?U = "used (hm_map h)" and ?ps = "\<lambda>k. probes (capacity h) (start h k)"
  obtain i where i: "find (\<lambda>i. \<not> ?U i) (?ps k) = Some i"
    using free by (cases "find (\<lambda>i. \<not> ?U i) (?ps k)") (auto simp: find_None_iff)
  then obtain ys where ys: "?ps k = chain h k @ i # ys" "\<not> ?U i" using find_free [OF i] by (auto simp: chain_def)
  have "i \<in> set (?ps k)" using ys(1) by simp
  then have lt: "i < capacity h" by simp
  let ?m = "(hm_map h)[i := \<lparr>kv_k = Some k, kv_v = Some v\<rparr>]"
  let ?h = "h\<lparr>hm_map := ?m, hm_size := hm_size h + 1\<rparr>"
  have used: "used ?m j = (?U j \<or> j = i)" for j using lt inv(2) by (auto simp: used_def nth_list_update)
  have slot: "?m ! j = (if j = i then \<lparr>kv_k = Some k, kv_v = Some v\<rparr> else hm_map h ! j)" for j
    using lt inv(2) by (simp add: nth_list_update)
  have st: "start ?h k' = start h k'" for k' by (simp add: start_def)
  have "oa_free (hm_map h) (capacity h) (start h k) = Some i"
    using oa_free_probes [OF inv(2), of 0 "start h k"] free i inv(1) inv(3) [of k] by (simp add: Bex_def)
  then have add: "hmap_add h k v = Some (True, ?h)" by (simp add: hmap_add_def oa_hmap_add_def start_def)
  have more: "\<exists>zs. chain ?h k' = chain h k' @ zs \<and> filter (\<lambda>j. kv_k (?m ! j) = Some k') zs = (if k' = k then [i] else [])" for k'
  proof -
    obtain zs where zs: "takeWhile (used ?m) (?ps k') = takeWhile ?U (?ps k') @ zs" "set zs \<inter> set (takeWhile ?U (?ps k')) = {}"
      "\<forall>y\<in>set zs. used ?m y" "distinct zs" "set zs \<subseteq> set (?ps k')"
      using takeWhile_more [of ?U "used ?m" "?ps k'"] used by auto
    have old: "kv_k (?m ! j) \<noteq> Some k'" if "j \<in> set zs" "j \<noteq> i" for j
      using that zs(2,3,5) inv(4) [of j k'] used slot by (auto simp: chain_def)
    have first: "i \<in> set zs" if "k' = k"
    proof -
      have "takeWhile (used ?m) (?ps k) = chain h k @ i # takeWhile (used ?m) ys"
      proof -
        have "takeWhile (used ?m) (chain h k @ i # ys) = chain h k @ takeWhile (used ?m) (i # ys)"
          using used by (intro takeWhile_append2) (auto simp: chain_def dest: set_takeWhileD)
        then show ?thesis using ys(1) used by simp
      qed
      then show ?thesis using zs(1) that by (auto simp: chain_def)
    qed
    have "filter (\<lambda>j. kv_k (?m ! j) = Some k') zs = (if k' = k then [i] else [])"
    proof (cases "k' = k")
      case True
      then show ?thesis using first old zs(4) slot [of i] by (simp add: distinct_filter_single)
    next
      case False
      then have "kv_k (?m ! j) \<noteq> Some k'" if "j \<in> set zs" for j using that old [of j] slot [of i] by (cases "j = i") simp_all
      then show ?thesis using False by (simp add: filter_empty_conv)
    qed
    then show ?thesis using zs(1) by (auto simp: chain_def st)
  qed
  have same: "filter (\<lambda>j. kv_k (?m ! j) = Some k') (chain h k') = filter (\<lambda>j. kv_k (hm_map h ! j) = Some k') (chain h k')"
    "map (\<lambda>j. the (kv_v (?m ! j))) (filter P (chain h k')) = map (\<lambda>j. the (kv_v (hm_map h ! j))) (filter P (chain h k'))" for k' P
    using ys(2) by (auto simp: slot chain_def dest: set_takeWhileD intro!: filter_cong)
  have "bound ?h k' = (if k' = k then bound h k @ [v] else bound h k')" for k'
  proof -
    obtain zs where zs: "chain ?h k' = chain h k' @ zs" "filter (\<lambda>j. kv_k (?m ! j) = Some k') zs = (if k' = k then [i] else [])"
      using more [of k'] by blast
    have "bound ?h k' = bound h k' @ map (\<lambda>j. the (kv_v (?m ! j))) (if k' = k then [i] else [])"
      unfolding bound_def by (simp add: zs same)
    then show ?thesis using slot [of i] by simp
  qed
  then have "bound ?h = (bound h)(k := bound h k @ [v])" by (auto simp: fun_eq_iff)
  moreover have "hmap_inv ?h"
  proof -
    have "j \<in> set (chain ?h k')" if "j < capacity h" "used ?m j" "kv_k (?m ! j) = Some k'" for j k'
    proof (cases "j = i")
      case True
      then have "k' = k" using that(3) slot by simp
      then obtain zs where zs: "chain ?h k = chain h k @ zs" "filter (\<lambda>j. kv_k (?m ! j) = Some k) zs = [i]" using more [of k] by auto
      then have "i \<in> set (filter (\<lambda>j. kv_k (?m ! j) = Some k) zs)" by simp
      then show ?thesis using True \<open>k' = k\<close> zs(1) by auto
    next
      case False
      then show ?thesis using that inv(4) [of j k'] used slot more [of k'] by auto
    qed
    then show ?thesis using inv(1,2) by (simp add: hmap_inv_def)
  qed
  ultimately show ?thesis using add overD [OF h] used lt ys(2) by (intro exI [of _ ?h] exI [of _ i]) (simp add: hmap_over_def)
qed

end

subsection \<open>The map of modules\<close>

lemma wcscmp_eq [simp]: "wcscmp a b = 0 \<longleftrightarrow> a = b"
  by (induction a b rule: wcscmp.induct) auto

interpretation names: hash_keys name_hash_fn str_eq_fn
  by unfold_locales (auto simp: str_eq_fn_def split: option.splits)

abbreviation name_map :: "(wstring, 'v) hashmap \<Rightarrow> bool" where
  "name_map \<equiv> hmap_over name_hash_fn str_eq_fn"

lemma free_slot: "slots_used h < capacity h \<longleftrightarrow> (\<exists>i<capacity h. \<not> used (hm_map h) i)"
proof (cases "\<exists>i<capacity h. \<not> used (hm_map h) i")
  case True
  then have "{i. i < capacity h \<and> used (hm_map h) i} \<subset> {..<capacity h}" by auto
  then have "slots_used h < card {..<capacity h}" unfolding slots_used_def by (intro psubset_card_mono) simp_all
  then show ?thesis using True by simp
next
  case False
  then have "{i. i < capacity h \<and> used (hm_map h) i} = {..<capacity h}" by auto
  then have "slots_used h = capacity h" by (simp add: slots_used_def)
  then show ?thesis using False by simp
qed

lemma mk_hmap_new:
  assumes "mk_hmap m name_hash_fn str_eq_fn = Some (h, m')"
  shows "name_map h \<and> slots_used h = 0 \<and> capacity h = 64 \<and> bound h = (\<lambda>_. [])"
proof -
  have h: "h = \<lparr>hm_map = replicate 64 \<lparr>kv_k = None, kv_v = None\<rparr>, hm_size = 0, capacity = 64,
      hash_fn = name_hash_fn, eq_fn = str_eq_fn\<rparr>"
    using assms by (auto simp: mk_hmap_def HMAP_PRESET_SIZE_def split: prod.splits if_splits)
  have unused: "\<not> used (hm_map h) i" if "i < 64" for i using that by (simp add: h used_def)
  moreover have "chain h k = []" for k
  proof (cases "probes (capacity h) (start h k)")
    case (Cons i ps)
    then have "i \<in> set (probes (capacity h) (start h k))" by simp
    then show ?thesis using unused Cons by (simp add: chain_def h)
  qed (simp add: chain_def)
  ultimately show ?thesis by (auto simp: hmap_over_def hmap_inv_def slots_used_def bound_def h fun_eq_iff)
qed

text \<open>
  C32: the map of modules implements a map from names to queues of values as long as a slot of it is
  free. A lookup returns the first value of the name, an addition appends one and takes up a slot, a removal
  takes the first one away and hands it to the destructor; other names are not affected.
\<close>

theorem module_map_correct:
  assumes "name_map h" "slots_used h < capacity h"
  shows "hmap_get h k = Some (case bound h k of [] \<Rightarrow> None | v # _ \<Rightarrow> Some v) \<and>
     (\<exists>h'. hmap_add h k v = Some (True, h') \<and> name_map h' \<and> capacity h' = capacity h \<and> slots_used h' = Suc (slots_used h) \<and>
        bound h' = (bound h)(k := bound h k @ [v])) \<and>
     (\<exists>h'. hmap_remove h k = Some (case bound h k of [] \<Rightarrow> None | v # _ \<Rightarrow> Some v, h') \<and> name_map h' \<and>
        capacity h' = capacity h \<and> slots_used h' = slots_used h \<and> bound h' = (bound h)(k := tl (bound h k)))"
proof -
  have free: "\<exists>i<capacity h. \<not> used (hm_map h) i" using assms(2) free_slot by blast
  obtain h1 i where h1: "hmap_add h k v = Some (True, h1)" "name_map h1" "capacity h1 = capacity h" "i < capacity h"
    "\<not> used (hm_map h) i" "\<And>j. used (hm_map h1) j = (used (hm_map h) j \<or> j = i)" "bound h1 = (bound h)(k := bound h k @ [v])"
    using names.hmap_add_bound [OF assms(1) free] by metis
  have "{j. j < capacity h \<and> (used (hm_map h) j \<or> j = i)} = insert i {j. j < capacity h \<and> used (hm_map h) j}"
    using h1(4) by auto
  then have "slots_used h1 = Suc (slots_used h)" using h1(3-6) by (simp add: slots_used_def)
  moreover obtain h2 where h2: "hmap_remove h k = Some (case bound h k of [] \<Rightarrow> None | v # _ \<Rightarrow> Some v, h2)" "name_map h2"
    "capacity h2 = capacity h" "\<And>j. used (hm_map h2) j = used (hm_map h) j" "bound h2 = (bound h)(k := tl (bound h k))"
    using names.hmap_remove_bound [OF assms(1) disjI2 [OF free]] by metis
  moreover have "slots_used h2 = slots_used h" by (simp add: slots_used_def h2(3,4))
  ultimately show ?thesis using names.hmap_get_bound [OF assms(1) disjI2 [OF free]] h1 by blast
qed

text \<open>
  C33: slots are never given back, so a map with as many additions as slots is full for good: another
  addition never ends, and neither does the search for a name that is not there, while the names that
  are there are still found.
\<close>

theorem module_map_full:
  assumes "name_map h" "slots_used h = capacity h"
  shows "hmap_add h k v = None \<and>
     hmap_get h k = (case bound h k of [] \<Rightarrow> None | v # _ \<Rightarrow> Some (Some v)) \<and>
     (bound h k = [] \<longrightarrow> hmap_remove h k = None)"
proof -
  note inv = hmap_invD [of h, OF names.overD [OF assms(1), THEN conjunct1]]
  have full: "used (hm_map h) i" if "i < capacity h" for i using assms(2) free_slot [of h] that by auto
  have "hmap_add h k v = None"
    using oa_free_unused [of "hm_map h"] full inv(2)
    by (cases "oa_free (hm_map h) (capacity h) (unat (hash_fn h k) mod capacity h)") (auto simp: hmap_add_def oa_hmap_add_def)
  moreover have "oa_get_location h k = None" if none: "bound h k = []"
  proof -
    have "chain h k = probes (capacity h) (start h k)" unfolding chain_def using full by (intro takeWhile_eq_all_conv [THEN iffD2]) auto
    then have no: "kv_k (hm_map h ! i) \<noteq> Some k" if "i < capacity h" for i
      using none that by (auto simp: bound_def filter_empty_conv)
    have "eq_fn h = str_eq_fn" using names.overD [OF assms(1)] by blast
    then show ?thesis using oa_probe_ends [of h k] no full inv(2)
      by (cases "oa_get_location h k") (fastforce simp: oa_get_location_def names.eq_iff)+
  qed
  ultimately show ?thesis
    using names.hmap_get_bound [OF assms(1), of k] by (auto simp: hmap_get_def hmap_remove_def split: list.splits)
qed

text \<open>
  what the hash function computes. Its loop tests a static variable that is zero when the driver is
  loaded and after every call, so it never looks at the name: every name has the hash 5381, and
  every search starts at the same slot. From any other value of the variable it would compute
  Bernstein's hash of the name and its terminator.
\<close>

lemma str_hash_constant:
  "str_hash_fn 0 s = Some (5381, 0) \<and>
   (c \<noteq> 0 \<longrightarrow> 0 \<notin> set s \<longrightarrow> str_hash_fn c s = Some (foldl (\<lambda>hash c. hash * 33 + ucast c) 5381 (s @ [0]), 0))"
proof -
  have loop: "c \<noteq> 0 \<Longrightarrow> 0 \<notin> set s \<Longrightarrow> str_hash_loop hash c (s @ [0]) = Some (foldl (\<lambda>hash c. hash * 33 + ucast c) hash (s @ [0]), 0)" for hash c
  proof (induction s arbitrary: hash c)
    case Nil
    then show ?case by (simp add: str_hash_loop.simps push_bit_eq_mult)
  next
    case (Cons a s)
    then show ?case by (subst str_hash_loop.simps) (simp add: push_bit_eq_mult algebra_simps)
  qed
  show ?thesis using loop [of c 5381] by (simp add: str_hash_fn_def str_hash_loop.simps [of 5381 0])
qed


subsection \<open>Witnesses\<close>

theorem module_map_correct_witness:
  "\<exists>h h' :: (wstring, nat) hashmap. mk_hmap [] name_hash_fn str_eq_fn = Some (h, []) \<and> hmap_get h [97] = Some None \<and>
     hmap_add h [97] 7 = Some (True, h') \<and> bound h' [97] = [7] \<and> slots_used h' = 1"
proof -
  obtain h :: "(wstring, nat) hashmap" where h: "mk_hmap [] name_hash_fn str_eq_fn = Some (h, [])" by (simp add: mk_hmap_def)
  then have "name_map h" "slots_used h < capacity h" "bound h = (\<lambda>_. [])" "slots_used h = 0" using mk_hmap_new [OF h] by simp_all
  then show ?thesis using h module_map_correct [of h "[97]" 7] by auto
qed

definition demo_full :: "(wstring, nat) hashmap" where
  "demo_full = \<lparr>hm_map = [\<lparr>kv_k = Some [97], kv_v = Some 7\<rparr>], hm_size = 1, capacity = 1, hash_fn = name_hash_fn, eq_fn = str_eq_fn\<rparr>"

theorem module_map_full_witness:
  "slots_used demo_full = capacity demo_full \<and> hmap_add demo_full [98] 8 = None \<and> hmap_get demo_full [97] = Some (Some 7) \<and>
   hmap_remove demo_full [98] = None"
proof -
  have used: "used (hm_map demo_full) 0" and cap: "capacity demo_full = 1" "probes 1 s = [0]" for s
    by (simp_all add: demo_full_def used_def probes_def)
  then have chain: "chain demo_full k = [0]" for k by (simp add: chain_def)
  then have bound: "bound demo_full [97] = [7]" "bound demo_full [98] = []" by (simp_all add: bound_def demo_full_def)
  have "name_map demo_full" by (auto simp: hmap_over_def hmap_inv_def chain) (simp_all add: demo_full_def)
  moreover have full: "slots_used demo_full = capacity demo_full" using used cap free_slot [of demo_full]
    by (simp add: slots_used_def Collect_conv_if)
  ultimately show ?thesis using module_map_full [of demo_full "[98]" 8] module_map_full [of demo_full "[97]" 8] bound by simp
qed

lemma str_hash_constant_witness:
  "str_hash_fn 0 [97] = Some (5381, 0) \<and> str_hash_fn 1 [97] = Some (5381 * 33 * 33 + 97 * 33, 0)"
  using str_hash_constant [of "[97]" 1] by simp

end
