(* ===== verification/NT_Io.thy ===== *)
theory NT_Io
  imports Complex_Main Fuse_Prelude Fuse_Kernel NT_Hashmap
begin

text \<open>
  What the Windows driver works on (\<open>ifs/fuse/wxp\<close>): I/O request packets, file objects, the
  structures of the mounted modules, and the services of the I/O manager the driver calls, together with
  the functions of \<open>fuseutil.cc\<close>.

  Pointers are addresses, memory is a map from addresses to structures. A packet is gone after
  \<open>IoCompleteRequest\<close>: using or completing it again is an error of the driver, as is the use of freed
  memory; both give \<open>None\<close>. A write behind the end of a buffer is counted, and otherwise changes nothing.
  The sizes and layouts of Windows' own structures are parameters.
\<close>

subsection \<open>Status codes and function codes\<close>

type_synonym ntstatus = u32

abbreviation (input) STATUS_SUCCESS :: ntstatus where "STATUS_SUCCESS \<equiv> 0"
abbreviation (input) STATUS_PENDING :: ntstatus where "STATUS_PENDING \<equiv> 0x103"
abbreviation (input) STATUS_BUFFER_OVERFLOW :: ntstatus where "STATUS_BUFFER_OVERFLOW \<equiv> 0x80000005"
abbreviation (input) STATUS_INVALID_INFO_CLASS :: ntstatus where "STATUS_INVALID_INFO_CLASS \<equiv> 0xC0000003"
abbreviation (input) STATUS_INVALID_PARAMETER :: ntstatus where "STATUS_INVALID_PARAMETER \<equiv> 0xC000000D"
abbreviation (input) STATUS_INVALID_DEVICE_REQUEST :: ntstatus where "STATUS_INVALID_DEVICE_REQUEST \<equiv> 0xC0000010"
abbreviation (input) STATUS_INVALID_USER_BUFFER :: ntstatus where "STATUS_INVALID_USER_BUFFER \<equiv> 0xC00000E8"
abbreviation (input) STATUS_CANCELLED :: ntstatus where "STATUS_CANCELLED \<equiv> 0xC0000120"
abbreviation (input) STATUS_INVALID_BUFFER_SIZE :: ntstatus where "STATUS_INVALID_BUFFER_SIZE \<equiv> 0xC0000206"

definition NT_SUCCESS :: "ntstatus \<Rightarrow> bool" where
  "NT_SUCCESS s \<longleftrightarrow> 0 \<le> sint s"

abbreviation (input) IRP_MJ_CREATE :: nat where "IRP_MJ_CREATE \<equiv> 0"
abbreviation (input) IRP_MJ_READ :: nat where "IRP_MJ_READ \<equiv> 3"
abbreviation (input) IRP_MJ_WRITE :: nat where "IRP_MJ_WRITE \<equiv> 4"
abbreviation (input) IRP_MJ_QUERY_INFORMATION :: nat where "IRP_MJ_QUERY_INFORMATION \<equiv> 5"
abbreviation (input) IRP_MJ_QUERY_EA :: nat where "IRP_MJ_QUERY_EA \<equiv> 7"
abbreviation (input) IRP_MJ_SET_EA :: nat where "IRP_MJ_SET_EA \<equiv> 8"
abbreviation (input) IRP_MJ_DIRECTORY_CONTROL :: nat where "IRP_MJ_DIRECTORY_CONTROL \<equiv> 12"
abbreviation (input) IRP_MJ_FILE_SYSTEM_CONTROL :: nat where "IRP_MJ_FILE_SYSTEM_CONTROL \<equiv> 13"

abbreviation (input) IRP_FUSE_MOUNT :: u32 where "IRP_FUSE_MOUNT \<equiv> 0x930EF"
abbreviation (input) IRP_FUSE_MODULE_RESPONSE :: u32 where "IRP_FUSE_MODULE_RESPONSE \<equiv> 0x930F0"
abbreviation (input) IRP_FUSE_MODULE_REQUEST :: u32 where "IRP_FUSE_MODULE_REQUEST \<equiv> 0x930F4"

subsection \<open>Structures\<close>

type_synonym bytes = "char list"

datatype information_class =
    FileDirectoryInformation | FileFullDirectoryInformation | FileIdFullDirectoryInformation
  | FileBothDirectoryInformation | FileIdBothDirectoryInformation | FileNamesInformation
  | FileAllInformation | FileBasicInformation | FileStandardInformation | FileNameInformation
  | FileFsVolumeInformation | FileFsAttributeInformation | FileFsSizeInformation | FileFsDeviceInformation
  | FileFsFullSizeInformation | OtherInformation

text \<open>
  A stack location. \<open>sl_Length\<close> is the first parameter: the length of a read, a write or a query, and
  the length of the output buffer of a control request.
\<close>

record io_stack_location =
  sl_MajorFunction :: nat
  sl_MinorFunction :: nat
  sl_FileObject :: u64
  sl_Length :: nat
  sl_InputBufferLength :: nat
  sl_FsControlCode :: u32
  sl_InformationClass :: information_class

text \<open>
  A packet, with the memory it and its stack locations occupy (\<open>ir_image\<close>, \<open>ir_stack\<close>), the system
  buffer, the buffer of the user, and whether the latter is locked.
\<close>

record irp =
  ir_Cancel :: bool
  ir_Flags :: u32
  ir_StackCount :: nat
  ir_sp :: "io_stack_location option"
  ir_image :: bytes
  ir_stack :: bytes
  ir_SystemBuffer :: bytes
  ir_UserBuffer :: bytes
  ir_Mdl :: bool
  ir_Status :: ntstatus
  ir_Information :: nat
  ir_Pending :: bool

text \<open>A file object: the length of its name, and the memory the name is in.\<close>

record file_object =
  fo_Length :: nat
  fo_Buffer :: wstring

record irp_list =
  el_Irp :: u64
  el_Next :: "nat option"

record module_struct =
  ModuleIrpList :: "nat option"
  UserspaceIrpList :: "nat option"
  OutstandingIrpList :: "nat option"
  ModuleIrpListEnd :: "nat option"
  UserspaceIrpListEnd :: "nat option"
  OutstandingIrpListEnd :: "nat option"
  ModuleName :: wstring
  ModuleFileObject :: u64

text \<open>What the driver tells of a volume.\<close>

datatype fs_info =
    Fs_Volume u64 u32 u32 bool  \<comment> \<open>creation time, serial number, length of the label, supports objects\<close>
  | Fs_Attribute u32 u32 u32  \<comment> \<open>attributes, longest component, length of the name\<close>
  | Fs_Size u32 u32 u32 u32  \<comment> \<open>total and available units, sectors per unit, bytes per sector\<close>
  | Fs_Device u32 u32  \<comment> \<open>type, characteristics\<close>
  | Fs_Full_Size u32 u32 u32 u32 u32

text \<open>The structures of Windows the driver copies or fills in: sizes, offsets of fields and encoders.\<close>

record nt_abi =
  sizeof_IRP :: nat
  sizeof_IO_STACK_LOCATION :: nat
  sizeof_dir :: "information_class \<Rightarrow> nat"
  dir_FileNameLength :: nat
  dir_FileName :: "information_class \<Rightarrow> nat"
  dir_ShortName :: "information_class \<Rightarrow> nat option"
  dir_ShortNameLength :: "information_class \<Rightarrow> nat"
  sizeof_names :: nat
  names_FileIndex :: nat
  names_FileNameLength :: nat
  names_FileName :: nat
  sizeof_basic :: nat
  put_basic :: "u64 \<Rightarrow> u64 \<Rightarrow> u64 \<Rightarrow> u64 \<Rightarrow> u32 \<Rightarrow> bytes"
  sizeof_standard :: nat
  put_standard :: "u64 \<Rightarrow> u64 \<Rightarrow> u32 \<Rightarrow> char \<Rightarrow> char \<Rightarrow> bytes"
  sizeof_name :: nat
  name_FileName :: nat
  all_StandardInformation :: nat
  all_NameInformation :: nat
  sizeof_fs :: "information_class \<Rightarrow> nat"
  put_fs :: "fs_info \<Rightarrow> bytes"
  vol_VolumeLabel :: nat
  attr_FileSystemName :: nat

record nt =
  abi :: nt_abi
  irps :: "u64 \<Rightarrow> irp option"
  fobjs :: "u64 \<Rightarrow> file_object option"
  entries :: "nat \<Rightarrow> irp_list option"
  mods :: "nat \<Rightarrow> module_struct option"
  pool :: nat
  ModuleMap :: "(wstring, nat) hashmap"
  completed :: "(u64 \<times> irp) list"
  nt_mem :: allocs
  probe_ok :: "bool list"
  stray :: nat
  system_time :: u64

text \<open>The part of a request in front of the packet's image: \<open>pirp\<close> and \<open>fop\<close>.\<close>

definition sizeof_FUSENT_REQ :: "nt_abi \<Rightarrow> nat" where
  "sizeof_FUSENT_REQ a = 16 + sizeof_IRP a"

text \<open>
  \<open>FUSENT_RESP\<close>: \<open>pirp\<close> at 0, \<open>fop\<close> at 8, \<open>error\<close> at 16, \<open>status\<close> at 20 and the parameter at 24, in 32 bytes.
  \<open>FUSENT_FILE_INFORMATION\<close> has 64.
\<close>

abbreviation (input) sizeof_FUSENT_RESP :: nat where "sizeof_FUSENT_RESP \<equiv> 32"
abbreviation (input) sizeof_FUSENT_FILE_INFORMATION :: nat where "sizeof_FUSENT_FILE_INFORMATION \<equiv> 64"

definition resp_pirp :: "bytes \<Rightarrow> u64 option" where "resp_pirp b = get64 0 b"
definition resp_status :: "bytes \<Rightarrow> ntstatus option" where "resp_status b = get32 20 b"
definition resp_param :: "bytes \<Rightarrow> u32 option" where "resp_param b = get32 24 b"

subsection \<open>Memory\<close>

definition poke :: "nat \<Rightarrow> bytes \<Rightarrow> bytes \<Rightarrow> bytes" where
  "poke off bs mem = take (length mem) (take off mem @ bs @ drop (off + length bs) mem)"

definition peek :: "nat \<Rightarrow> nat \<Rightarrow> bytes \<Rightarrow> bytes option" where
  "peek off n mem = (if off + n \<le> length mem then Some (take n (drop off mem)) else None)"

definition strays :: "nat \<Rightarrow> nat \<Rightarrow> bytes \<Rightarrow> nat" where
  "strays off n mem = (if n = 0 \<or> off + n \<le> length mem then 0 else 1)"

definition put_wchars :: "wstring \<Rightarrow> bytes" where
  "put_wchars s = concat (map (\<lambda>c. le 2 (unat c)) s)"

text \<open>A string in memory: up to its terminator, which has to be there.\<close>

definition wcs :: "wstring \<Rightarrow> wstring option" where
  "wcs mem = (if 0 \<in> set mem then Some (takeWhile (\<lambda>c. c \<noteq> 0) mem) else None)"

definition nt_alloc :: "nt \<Rightarrow> (nat \<times> nt) option" where
  "nt_alloc s = (let (ok, m) = alloc (nt_mem s) in if ok then Some (pool s, s\<lparr>nt_mem := m, pool := Suc (pool s)\<rparr>) else None)"

definition set_irp :: "u64 \<Rightarrow> irp \<Rightarrow> nt \<Rightarrow> nt" where
  "set_irp p r s = s\<lparr>irps := (irps s)(p \<mapsto> r)\<rparr>"

definition set_mod :: "nat \<Rightarrow> module_struct \<Rightarrow> nt \<Rightarrow> nt" where
  "set_mod a m s = s\<lparr>mods := (mods s)(a \<mapsto> m)\<rparr>"

definition write_system :: "u64 \<Rightarrow> nat \<Rightarrow> bytes \<Rightarrow> nt \<Rightarrow> nt option" where
  "write_system p off bs s = do {
     r \<leftarrow> irps s p;
     Some (set_irp p (r\<lparr>ir_SystemBuffer := poke off bs (ir_SystemBuffer r)\<rparr>)
       (s\<lparr>stray := stray s + strays off (length bs) (ir_SystemBuffer r)\<rparr>))
   }"

definition write_user :: "u64 \<Rightarrow> nat \<Rightarrow> bytes \<Rightarrow> nt \<Rightarrow> nt option" where
  "write_user p off bs s = do {
     r \<leftarrow> irps s p;
     Some (set_irp p (r\<lparr>ir_UserBuffer := poke off bs (ir_UserBuffer r)\<rparr>)
       (s\<lparr>stray := stray s + strays off (length bs) (ir_UserBuffer r)\<rparr>))
   }"

subsection \<open>The I/O manager\<close>

definition IoCompleteRequest :: "u64 \<Rightarrow> nt \<Rightarrow> nt option" where
  "IoCompleteRequest p s = do {
     r \<leftarrow> irps s p;
     Some (s\<lparr>completed := completed s @ [(p, r)], irps := (irps s)(p := None)\<rparr>)
   }"

definition IoMarkIrpPending :: "u64 \<Rightarrow> nt \<Rightarrow> nt option" where
  "IoMarkIrpPending p s = do { r \<leftarrow> irps s p; Some (set_irp p (r\<lparr>ir_Pending := True\<rparr>) s) }"

subsection \<open>Utilities\<close>

text \<open>The name of the module a file is on: where it starts in the name of the file, and its length.\<close>

abbreviation (input) BACKSLASH :: wchar where "BACKSLASH \<equiv> 92"

definition FuseExtractModuleName :: "file_object \<Rightarrow> (wstring \<times> nat) option" where
  "FuseExtractModuleName fo =
     (if fo_Length fo > 0 then do {
        c \<leftarrow> (case fo_Buffer fo of c # _ \<Rightarrow> Some c | [] \<Rightarrow> None);
        let name = (if c = BACKSLASH then tl (fo_Buffer fo) else fo_Buffer fo);
        let len = (if c = BACKSLASH then fo_Length fo - 1 else fo_Length fo);
        str \<leftarrow> wcs name;
        let pos = takeWhile (\<lambda>c. c \<noteq> BACKSLASH) str;
        Some (name, if length pos < length str then length pos else len)
      } else Some (fo_Buffer fo, fo_Length fo))"

text \<open>\<open>FuseAllocateModuleName\<close> and \<open>FuseCopyModuleName\<close>: the characters that are copied, in front of the
  terminator that is written after them.\<close>

definition copy_name :: "wstring \<times> nat \<Rightarrow> wstring option" where
  "copy_name x = (case x of (name, len) \<Rightarrow> if len \<le> length name then Some (take len name) else None)"

definition FuseAllocateModuleName :: "file_object \<Rightarrow> nt \<Rightarrow> (wstring \<times> nt) option" where
  "FuseAllocateModuleName fo s = do {
     x \<leftarrow> FuseExtractModuleName fo;
     (_, s) \<leftarrow> nt_alloc s;
     name \<leftarrow> copy_name x;
     Some (takeWhile (\<lambda>c. c \<noteq> 0) name, s)
   }"

definition FuseCopyModuleName :: "file_object \<Rightarrow> wstring option" where
  "FuseCopyModuleName fo = do { x \<leftarrow> FuseExtractModuleName fo; copy_name x }"

text \<open>The buffer of the user; without a mapping of a locked buffer an exception is raised.\<close>

definition FuseMapUserBuffer :: "u64 \<Rightarrow> nt \<Rightarrow> nt option" where
  "FuseMapUserBuffer p s = do {
     r \<leftarrow> irps s p;
     if \<not> ir_Mdl r then Some s
     else (let (ok, m) = alloc (nt_mem s) in if ok then Some (s\<lparr>nt_mem := m\<rparr>) else None)
   }"

text \<open>Locking the buffer may raise an exception, which is caught; \<open>probe_ok\<close> says when.\<close>

definition FuseLockUserBuffer :: "u64 \<Rightarrow> nt \<Rightarrow> nt option" where
  "FuseLockUserBuffer p s = do {
     r \<leftarrow> irps s p;
     if \<not> ir_Mdl r then do {
       let (ok, m) = alloc (nt_mem s);
       if \<not> ok then None
       else do {
         let (locked, pr) = alloc (probe_ok s);
         Some (set_irp p (r\<lparr>ir_Mdl := locked\<rparr>) (s\<lparr>nt_mem := m, probe_ok := pr\<rparr>))
       }
     } else Some s
   }"

text \<open>The packets whose buffer is locked: reads and writes without \<open>IRP_MN_MDL\<close> (2), directory queries (minor
  function 1), extended attributes, and two control codes of Windows.\<close>

definition locks_buffer :: "io_stack_location \<Rightarrow> bool" where
  "locks_buffer sp =
     (if sl_MajorFunction sp = IRP_MJ_READ \<or> sl_MajorFunction sp = IRP_MJ_WRITE then \<not> odd (sl_MinorFunction sp div 2)
      else if sl_MajorFunction sp = IRP_MJ_DIRECTORY_CONTROL \<and> sl_MinorFunction sp = 1 then True
      else if sl_MajorFunction sp = IRP_MJ_QUERY_EA \<or> sl_MajorFunction sp = IRP_MJ_SET_EA then True
      else sl_MajorFunction sp = IRP_MJ_FILE_SYSTEM_CONTROL \<and> sl_MinorFunction sp = 0 \<and>
        sl_FsControlCode sp \<in> {0x9006F, 0x90073})"

definition FusePrePostIrp :: "u64 \<Rightarrow> nt \<Rightarrow> nt option" where
  "FusePrePostIrp p s = do {
     r \<leftarrow> irps s p;
     sp \<leftarrow> ir_sp r;
     if locks_buffer sp then FuseLockUserBuffer p s else Some s
   }"

end
