(* ===== verification/NT_Query.thy ===== *)
theory NT_Query
  imports Complex_Main Fuse_Prelude Fuse_Kernel NT_Hashmap NT_Io
begin

text \<open>
  How the driver answers queries (\<open>ifs/fuse/wxp/fusequery.cc\<close>): what a module tells of a file or of a
  directory is copied into the buffer of the application in the form it has asked for; what is
  told of a volume is made up by the driver.
\<close>

subsection \<open>Queries of a file\<close>

definition long :: "nat \<Rightarrow> int" where
  "long n = sint (word_of_nat n :: u32)"

text \<open>The fields of \<open>FUSENT_FILE_INFORMATION\<close>.\<close>

definition get_char :: "nat \<Rightarrow> bytes \<Rightarrow> char option" where
  "get_char off b = (if off < length b then Some (b ! off) else None)"

text \<open>The functions write at an offset of the packet's system buffer and return the length that is left.\<close>

definition FuseQueryBasicInfo :: "u64 \<Rightarrow> nat \<Rightarrow> bytes \<Rightarrow> int \<Rightarrow> nt \<Rightarrow> (ntstatus \<times> int \<times> nt) option" where
  "FuseQueryBasicInfo p off info len s =
     (if len < int (sizeof_basic (abi s)) then Some (STATUS_BUFFER_OVERFLOW, len, s)
      else do {
        attrs \<leftarrow> get32 32 info; change \<leftarrow> get64 24 info; creation \<leftarrow> get64 0 info; access \<leftarrow> get64 8 info; write \<leftarrow> get64 16 info;
        s \<leftarrow> write_system p off (put_basic (abi s) creation access write change attrs) s;
        Some (STATUS_SUCCESS, len - int (sizeof_basic (abi s)), s)
      })"

definition FuseQueryStandardInfo :: "u64 \<Rightarrow> nat \<Rightarrow> bytes \<Rightarrow> int \<Rightarrow> nt \<Rightarrow> (ntstatus \<times> int \<times> nt) option" where
  "FuseQueryStandardInfo p off info len s =
     (if len < int (sizeof_standard (abi s)) then Some (STATUS_BUFFER_OVERFLOW, len, s)
      else do {
        alloc_size \<leftarrow> get64 40 info; eof \<leftarrow> get64 48 info; del \<leftarrow> get_char 60 info; dir \<leftarrow> get_char 61 info; links \<leftarrow> get32 56 info;
        s \<leftarrow> write_system p off (put_standard (abi s) alloc_size eof links del dir) s;
        Some (STATUS_SUCCESS, len - int (sizeof_standard (abi s)), s)
      })"

text \<open>The code takes the length of a name, which counts bytes, for a number of characters.\<close>

definition FuseQueryNameInfo :: "file_object \<Rightarrow> u64 \<Rightarrow> nat \<Rightarrow> int \<Rightarrow> nt \<Rightarrow> (ntstatus \<times> int \<times> nt) option" where
  "FuseQueryNameInfo fo p off len s = do {
     let name_len = 2 * fo_Length fo mod 2 ^ 32;
     let info_len = long (sizeof_name (abi s) + name_len);
     if len < info_len then Some (STATUS_BUFFER_OVERFLOW, len, s)
     else do {
       s \<leftarrow> write_system p off (zeros (nat info_len)) s;
       name \<leftarrow> peek 0 name_len (put_wchars (fo_Buffer fo));
       s \<leftarrow> write_system p (off + name_FileName (abi s)) name s;
       s \<leftarrow> write_system p off (put32 (word_of_nat name_len)) s;
       Some (STATUS_SUCCESS, len - info_len, s)
     }
   }"

definition FuseCopyInformation :: "u64 \<Rightarrow> bytes \<Rightarrow> nt \<Rightarrow> (ntstatus \<times> nt) option" where
  "FuseCopyInformation p info s = do {
     r \<leftarrow> irps s p; sp \<leftarrow> ir_sp r; fo \<leftarrow> fobjs s (sl_FileObject sp);
     let len = long (sl_Length sp);
     let std = all_StandardInformation (abi s);
     let nam = all_NameInformation (abi s);
     (status, len, s) \<leftarrow>
       (case sl_InformationClass sp of
          FileAllInformation \<Rightarrow> do {
            (_, len, s) \<leftarrow> FuseQueryBasicInfo p 0 info len s;
            (_, len, s) \<leftarrow> FuseQueryStandardInfo p std info len s;
            (_, len, s) \<leftarrow> FuseQueryNameInfo fo p nam len s;
            Some (STATUS_SUCCESS, len, s)
          }
        | FileBasicInformation \<Rightarrow> do { (_, len, s) \<leftarrow> FuseQueryBasicInfo p 0 info len s; Some (STATUS_SUCCESS, len, s) }
        | FileStandardInformation \<Rightarrow> do { (_, len, s) \<leftarrow> FuseQueryStandardInfo p std info len s; Some (STATUS_SUCCESS, len, s) }
        | FileNameInformation \<Rightarrow> do { (_, len, s) \<leftarrow> FuseQueryNameInfo fo p nam len s; Some (STATUS_SUCCESS, len, s) }
        | _ \<Rightarrow> Some (STATUS_INVALID_PARAMETER, len, s));
     let (status, len) = (if len < 0 then (STATUS_BUFFER_OVERFLOW, 0) else (status, len));
     r \<leftarrow> irps s p;
     Some (status, set_irp p (r\<lparr>ir_Information := nat ((int (sl_Length sp) - len) mod 2 ^ 32)\<rparr>) s)
   }"

subsection \<open>Queries of a volume\<close>

definition fill_fs :: "u64 \<Rightarrow> information_class \<Rightarrow> fs_info \<Rightarrow> int \<Rightarrow> nt \<Rightarrow> (ntstatus \<times> int \<times> nt) option" where
  "fill_fs p cls info len s =
     (if len < int (sizeof_fs (abi s) cls) then Some (STATUS_BUFFER_OVERFLOW, len, s)
      else do {
        s \<leftarrow> write_system p 0 (put_fs (abi s) info) s;
        Some (STATUS_SUCCESS, len - int (sizeof_fs (abi s) cls), s)
      })"

definition FuseQueryFsVolumeInfo :: "file_object \<Rightarrow> u64 \<Rightarrow> int \<Rightarrow> nt \<Rightarrow> (ntstatus \<times> int \<times> nt) option" where
  "FuseQueryFsVolumeInfo fo p len s = do {
     (_, label_len) \<leftarrow> FuseExtractModuleName fo;
     let info_len = long (sizeof_fs (abi s) FileFsVolumeInformation + 2 * label_len);
     if len < info_len then Some (STATUS_BUFFER_OVERFLOW, len, s)
     else do {
       s \<leftarrow> write_system p 0 (zeros (nat info_len)) s;
       s \<leftarrow> write_system p 0 (put_fs (abi s) (Fs_Volume (system_time s) 0x1337 (word_of_nat (2 * label_len)) False)) s;
       label \<leftarrow> FuseCopyModuleName fo;
       s \<leftarrow> write_system p (vol_VolumeLabel (abi s)) (put_wchars (label @ [0])) s;
       Some (STATUS_SUCCESS, len - info_len, s)
     }
   }"

text \<open>\<open>FILE_CASE_PRESERVED_NAMES | FILE_UNICODE_ON_DISK\<close> is 6. The name is written without room for it having
  been asked for.\<close>

definition FuseQueryFsAttributeInfo :: "file_object \<Rightarrow> u64 \<Rightarrow> int \<Rightarrow> nt \<Rightarrow> (ntstatus \<times> int \<times> nt) option" where
  "FuseQueryFsAttributeInfo fo p len s =
     (if len < int (sizeof_fs (abi s) FileFsAttributeInformation) then Some (STATUS_BUFFER_OVERFLOW, len, s)
      else do {
        name \<leftarrow> FuseCopyModuleName fo;
        (status, len, s) \<leftarrow> fill_fs p FileFsAttributeInformation (Fs_Attribute 6 512 (word_of_nat (length name))) len s;
        s \<leftarrow> write_system p (attr_FileSystemName (abi s)) (put_wchars (name @ [0])) s;
        Some (status, len, s)
      })"

definition FuseQueryFsSizeInfo :: "u64 \<Rightarrow> int \<Rightarrow> nt \<Rightarrow> (ntstatus \<times> int \<times> nt) option" where
  "FuseQueryFsSizeInfo p = fill_fs p FileFsSizeInformation (Fs_Size 4096 4096 4096 4096)"

text \<open>\<open>FILE_DEVICE_FILE_SYSTEM\<close> is 9.\<close>

definition FuseQueryFsDeviceInfo :: "u64 \<Rightarrow> int \<Rightarrow> nt \<Rightarrow> (ntstatus \<times> int \<times> nt) option" where
  "FuseQueryFsDeviceInfo p = fill_fs p FileFsDeviceInformation (Fs_Device 9 0)"

definition FuseQueryFsFullSizeInfo :: "u64 \<Rightarrow> int \<Rightarrow> nt \<Rightarrow> (ntstatus \<times> int \<times> nt) option" where
  "FuseQueryFsFullSizeInfo p = fill_fs p FileFsFullSizeInformation (Fs_Full_Size 4098 4098 4098 4098 4098)"

definition FuseCopyVolumeInformation :: "u64 \<Rightarrow> nt \<Rightarrow> (ntstatus \<times> nt) option" where
  "FuseCopyVolumeInformation p s = do {
     r \<leftarrow> irps s p; sp \<leftarrow> ir_sp r; fo \<leftarrow> fobjs s (sl_FileObject sp);
     let len = long (sl_Length sp);
     (status, len, s) \<leftarrow>
       (case sl_InformationClass sp of
          FileFsVolumeInformation \<Rightarrow> FuseQueryFsVolumeInfo fo p len s
        | FileFsAttributeInformation \<Rightarrow> FuseQueryFsAttributeInfo fo p len s
        | FileFsSizeInformation \<Rightarrow> FuseQueryFsSizeInfo p len s
        | FileFsDeviceInformation \<Rightarrow> FuseQueryFsDeviceInfo p len s
        | FileFsFullSizeInformation \<Rightarrow> FuseQueryFsFullSizeInfo p len s
        | _ \<Rightarrow> Some (STATUS_INVALID_PARAMETER, len, s));
     r \<leftarrow> irps s p;
     s \<leftarrow> IoCompleteRequest p (set_irp p (r\<lparr>ir_Information := nat ((int (sl_Length sp) - len) mod 2 ^ 32)\<rparr>) s);
     Some (status, s)
   }"

subsection \<open>Queries of a directory\<close>

text \<open>
  A module answers with \<open>FILE_DIRECTORY_INFORMATION\<close> structures. \<open>mp\<close> and \<open>mlen\<close> say where the next of them
  is and how much is left, \<open>dp\<close> and \<open>len\<close> the same of the buffer of the application; \<open>lst\<close> is the last entry
  that was written. Reading outside what the module has sent gives \<open>None\<close>.
\<close>

definition sizeof_DIR :: "nt \<Rightarrow> nat" where
  "sizeof_DIR s = sizeof_dir (abi s) FileDirectoryInformation"

text \<open>The condition of both loops, with the space one entry needs: the offset of the next entry and the
  length of the name.\<close>

definition dir_entry_fits ::
  "(nat \<Rightarrow> nat) \<Rightarrow> bytes \<Rightarrow> nat \<Rightarrow> nat \<Rightarrow> int \<Rightarrow> nt \<Rightarrow> (nat \<times> nat) option option" where
  "dir_entry_fits need info mp mlen len s =
     (if mlen \<ge> sizeof_DIR s then do {
        next_off \<leftarrow> get32 mp info;
        name_len \<leftarrow> get32 (mp + dir_FileNameLength (abi s)) info;
        Some (if mlen \<ge> unat next_off \<and> mlen \<ge> sizeof_DIR s + unat name_len - 2 \<and> len \<ge> long (need (unat name_len))
              then Some (unat next_off, unat name_len) else None)
      } else Some None)"

text \<open>Rounding up to a multiple of 8; a multiple of 8 is increased as well.\<close>

definition align8 :: "nat \<Rightarrow> nat" where
  "align8 n = (n + (8 - n mod 8)) mod 2 ^ 32"

text \<open>Writing one entry of one of the long forms.\<close>

definition put_dir_entry :: "u64 \<Rightarrow> information_class \<Rightarrow> bytes \<Rightarrow> nat \<Rightarrow> nat \<Rightarrow> nat \<Rightarrow> nat \<Rightarrow> nt \<Rightarrow> nt option" where
  "put_dir_entry p cls info mp name_len dp n s = do {
     s \<leftarrow> write_user p dp (zeros n) s;
     header \<leftarrow> peek mp (sizeof_DIR s - 8 - 2) info;
     s \<leftarrow> write_user p dp header s;
     name \<leftarrow> peek (mp + dir_FileName (abi s) FileDirectoryInformation) name_len info;
     s \<leftarrow> write_user p (dp + dir_FileName (abi s) cls) name s;
     case dir_ShortName (abi s) cls of
       Some off \<Rightarrow> do {
         let k = min name_len 24;
         short \<leftarrow> peek (mp + dir_FileName (abi s) FileDirectoryInformation) k info;
         s \<leftarrow> write_user p (dp + off) short s;
         write_user p (dp + dir_ShortNameLength (abi s) cls) (le 1 k) s
       }
     | None \<Rightarrow> Some s
   }"

partial_function (option) dir_loop ::
  "u64 \<Rightarrow> information_class \<Rightarrow> bytes \<Rightarrow> nat \<Rightarrow> nat \<Rightarrow> nat \<Rightarrow> int \<Rightarrow> nat option \<Rightarrow> nt \<Rightarrow> (nat option \<times> nt) option" where
  [code]: "dir_loop p cls info mp mlen dp len lst s = do {
     e \<leftarrow> dir_entry_fits (\<lambda>n. sizeof_DIR s + n - 2 + 8) info mp mlen len s;
     case e of
       None \<Rightarrow> Some (lst, s)
     | Some (next_off, name_len) \<Rightarrow> do {
         let n = align8 (nat ((int (sizeof_dir (abi s) cls + name_len) - 2 - 2) mod 2 ^ 32));
         if len \<ge> long n then do {
           s \<leftarrow> put_dir_entry p cls info mp name_len dp n s;
           dir_loop p cls info (mp + next_off) (mlen - (sizeof_DIR s + name_len - 2)) (dp + n) (len - int n) (Some dp) s
         } else do {
           s \<leftarrow> write_user p dp (put32 0) s;
           s \<leftarrow> write_user p (dp + dir_FileNameLength (abi s)) (put32 0) s;
           Some (lst, s)
         }
       }
   }"

text \<open>The short form. Its index is the hash of the name, which is the same for every name (\<open>str_hash_constant\<close>).\<close>

partial_function (option) names_loop ::
  "u64 \<Rightarrow> bytes \<Rightarrow> nat \<Rightarrow> nat \<Rightarrow> nat \<Rightarrow> int \<Rightarrow> nat option \<Rightarrow> nt \<Rightarrow> (nat option \<times> nt) option" where
  [code]: "names_loop p info mp mlen dp len lst s = do {
     e \<leftarrow> dir_entry_fits (\<lambda>n. sizeof_names (abi s) + n - 2) info mp mlen len s;
     case e of
       None \<Rightarrow> Some (lst, s)
     | Some (next_off, name_len) \<Rightarrow> do {
         let n = align8 ((sizeof_names (abi s) + name_len - 2) mod 2 ^ 32);
         name \<leftarrow> peek (mp + dir_FileName (abi s) FileDirectoryInformation) name_len info;
         s \<leftarrow> write_user p (dp + names_FileName (abi s)) name s;
         s \<leftarrow> write_user p (dp + names_FileNameLength (abi s)) (put32 (word_of_nat name_len)) s;
         s \<leftarrow> write_user p (dp + names_FileIndex (abi s)) (put32 (name_hash_fn [])) s;
         s \<leftarrow> write_user p dp (put32 (word_of_nat n)) s;
         names_loop p info (mp + next_off) (mlen - next_off) (dp + n) (len - int n) (Some dp) s
       }
   }"

definition end_entries :: "u64 \<Rightarrow> nat option \<times> nt \<Rightarrow> nt option" where
  "end_entries p x = (case x of (Some lst, s) \<Rightarrow> write_user p lst (put32 0) s | (None, s) \<Rightarrow> Some s)"

definition FuseCopyDirectoryControl :: "u64 \<Rightarrow> bytes \<Rightarrow> nat \<Rightarrow> nt \<Rightarrow> (ntstatus \<times> nt) option" where
  "FuseCopyDirectoryControl p info mlen s = do {
     r \<leftarrow> irps s p; sp \<leftarrow> ir_sp r;
     let len = long (sl_Length sp);
     s \<leftarrow> FuseMapUserBuffer p s;
     s \<leftarrow> write_user p 0 (zeros (sl_Length sp)) s;
     case sl_InformationClass sp of
       FileNamesInformation \<Rightarrow> do { x \<leftarrow> names_loop p info 0 mlen 0 len None s; s \<leftarrow> end_entries p x; Some (STATUS_SUCCESS, s) }
     | cls \<Rightarrow>
         if cls \<in> {FileDirectoryInformation, FileFullDirectoryInformation, FileIdFullDirectoryInformation,
                     FileBothDirectoryInformation, FileIdBothDirectoryInformation}
         then do { x \<leftarrow> dir_loop p cls info 0 mlen 0 len None s; s \<leftarrow> end_entries p x; Some (STATUS_SUCCESS, s) }
         else Some (STATUS_INVALID_INFO_CLASS, s)
   }"

end
