(* ===== verification/NT_Driver.thy ===== *)
theory NT_Driver
  imports Complex_Main Fuse_Prelude Fuse_Kernel NT_Hashmap NT_Io NT_Query
begin

text \<open>
  The Windows driver (\<open>ifs/fuse/wxp/fuseio.cc\<close>, \<open>fuseinit.cc\<close> and the destructor of \<open>hashmap.cc\<close>): requests of
  applications are queued at the module they are for, handed to the module when it asks for work, and
  completed when the module responds.

  A module has three lists of packets: the ones it waits for work with, the ones of applications that wait for
  the module, and the ones it is working on. They are singly linked, with a pointer to the last
  entry, and modelled link by link. The lock of a module (\<open>ScopedExLock\<close>) is a temporary object that is destroyed
  at the end of the statement that makes it, so that it excludes nobody; the functions are modelled
  one call at a time. Debug output is left out.
\<close>

unbundle bit_operations_syntax

subsection \<open>Lists of packets\<close>

definition set_next :: "nat \<Rightarrow> nat option \<Rightarrow> nt \<Rightarrow> nt option" where
  "set_next e n s = do { x \<leftarrow> entries s e; Some (s\<lparr>entries := (entries s)(e \<mapsto> x\<lparr>el_Next := n\<rparr>)\<rparr>) }"

definition free_entry :: "nat \<Rightarrow> nt \<Rightarrow> nt option" where
  "free_entry e s = do { _ \<leftarrow> entries s e; Some (s\<lparr>entries := (entries s)(e := None)\<rparr>) }"

definition new_entry :: "u64 \<Rightarrow> nt \<Rightarrow> (nat \<times> nt) option" where
  "new_entry p s = do {
     (e, s) \<leftarrow> nt_alloc s;
     Some (e, s\<lparr>entries := (entries s)(e \<mapsto> \<lparr>el_Irp = p, el_Next = None\<rparr>)\<rparr>)
   }"

definition FuseAddIrpToModuleList :: "u64 \<Rightarrow> nat \<Rightarrow> bool \<Rightarrow> nt \<Rightarrow> (bool \<times> nt) option" where
  "FuseAddIrpToModuleList p a to_module s = do {
     r \<leftarrow> irps s p;
     small \<leftarrow> (if to_module then do {
                 sp \<leftarrow> ir_sp r;
                 Some (sl_Length sp < sizeof_FUSENT_REQ (abi s) + ir_StackCount r * sizeof_IO_STACK_LOCATION (abi s))
               } else Some False);
     if small then Some (False, s)
     else do {
       m \<leftarrow> mods s a;
       (e, s) \<leftarrow> new_entry p s;
       (m, s) \<leftarrow>
         (case if to_module then ModuleIrpListEnd m else UserspaceIrpListEnd m of
            None \<Rightarrow> Some (if to_module then m\<lparr>ModuleIrpList := Some e\<rparr> else m\<lparr>UserspaceIrpList := Some e\<rparr>, s)
          | Some lst \<Rightarrow> do { s \<leftarrow> set_next lst (Some e) s; Some (m, s) });
       Some (True, set_mod a (if to_module then m\<lparr>ModuleIrpListEnd := Some e\<rparr> else m\<lparr>UserspaceIrpListEnd := Some e\<rparr>) s)
     }
   }"

subsection \<open>Handing out work\<close>

text \<open>The name an application opens, without the name of the module.\<close>

definition strip_module :: "file_object \<Rightarrow> wstring option" where
  "strip_module fo =
     (case dropWhile (\<lambda>c. c \<noteq> BACKSLASH \<and> c \<noteq> 0) (tl (fo_Buffer fo)) of [] \<Rightarrow> None | mem \<Rightarrow> wcs mem)"

abbreviation (input) IRP_CREATE_OPERATION :: u32 where "IRP_CREATE_OPERATION \<equiv> 0x80"
abbreviation (input) IRP_WRITE_OPERATION :: u32 where "IRP_WRITE_OPERATION \<equiv> 0x200"

definition stack_length :: "nt_abi \<Rightarrow> irp \<Rightarrow> nat" where
  "stack_length a r = ir_StackCount r * sizeof_IO_STACK_LOCATION a"

text \<open>The size of a request for a module, and the name that goes with it.\<close>

definition request_size :: "irp \<Rightarrow> io_stack_location \<Rightarrow> nt \<Rightarrow> (nat \<times> wstring option) option" where
  "request_size u usp s = do {
     let fixed = sizeof_FUSENT_REQ (abi s) + stack_length (abi s) u;
     if ir_Flags u AND IRP_CREATE_OPERATION \<noteq> 0 then do {
       fo \<leftarrow> fobjs s (sl_FileObject usp);
       name \<leftarrow> strip_module fo;
       Some ((fixed + 4 + 2 * (length name + 1)) mod 2 ^ 32, Some name)
     }
     else if ir_Flags u AND IRP_WRITE_OPERATION \<noteq> 0 then Some ((fixed + 4 + 8 + sl_Length usp) mod 2 ^ 32, None)
     else Some (fixed mod 2 ^ 32, None)
   }"

text \<open>Filling in the system buffer of a module's packet \<open>q\<close> with a request for \<open>p\<close>.\<close>

definition fill_request :: "u64 \<Rightarrow> irp \<Rightarrow> io_stack_location \<Rightarrow> u64 \<Rightarrow> nat \<Rightarrow> wstring option \<Rightarrow> nt \<Rightarrow> nt option" where
  "fill_request p u usp q sz name s = do {
     let iostack = sizeof_FUSENT_REQ (abi s);
     s \<leftarrow> write_system q 0 (put64 p @ put64 (sl_FileObject usp) @ ir_image u) s;
     s \<leftarrow> write_system q iostack (ir_stack u) s;
     s \<leftarrow> (if sl_MajorFunction usp = IRP_MJ_CREATE then do {
             name \<leftarrow> name;
             let n = 2 * (length name + 1);
             write_system q (iostack + stack_length (abi s) u) (put32 (word_of_nat n) @ put_wchars (name @ [0])) s
           }
           else if sl_MajorFunction usp = IRP_MJ_WRITE then do {
             dat \<leftarrow> peek 0 (sl_Length usp) (ir_SystemBuffer u);
             write_system q sz (put32 (word_of_nat (sl_Length usp)) @ dat) s
           }
           else Some s);
     r \<leftarrow> irps s q;
     Some (set_irp q (r\<lparr>ir_Information := sz\<rparr>) s)
   }"

text \<open>The entry of a request that is handed out goes to the end of the outstanding ones; its own link is left as
  it is.\<close>

definition drop_userspace :: "module_struct \<Rightarrow> nat option \<Rightarrow> module_struct" where
  "drop_userspace m n = m\<lparr>UserspaceIrpList := n, UserspaceIrpListEnd := (if n = None then None else UserspaceIrpListEnd m)\<rparr>"

definition drop_module :: "module_struct \<Rightarrow> nat option \<Rightarrow> module_struct" where
  "drop_module m n = m\<lparr>ModuleIrpList := n, ModuleIrpListEnd := (if n = None then None else ModuleIrpListEnd m)\<rparr>"

definition add_outstanding :: "nat \<Rightarrow> nat \<Rightarrow> nt \<Rightarrow> nt option" where
  "add_outstanding a e s = do {
     m \<leftarrow> mods s a;
     case OutstandingIrpListEnd m of
       Some lst \<Rightarrow> do { s \<leftarrow> set_next lst (Some e) s; Some (set_mod a (m\<lparr>OutstandingIrpListEnd := Some e\<rparr>) s) }
     | None \<Rightarrow> Some (set_mod a (m\<lparr>OutstandingIrpList := Some e, OutstandingIrpListEnd := Some e\<rparr>) s)
   }"

text \<open>The loop of \<open>FuseCheckForWork\<close>: one round of it, with the two first entries.\<close>

definition work_round :: "nat \<Rightarrow> nat \<Rightarrow> nat \<Rightarrow> nt \<Rightarrow> nt option" where
  "work_round a me ue s = do {
     m \<leftarrow> mods s a; mx \<leftarrow> entries s me; ux \<leftarrow> entries s ue;
     u \<leftarrow> irps s (el_Irp ux);
     if ir_Cancel u then Some (set_mod a (drop_userspace m (el_Next ux)) s)
     else do {
       q \<leftarrow> irps s (el_Irp mx);
       if ir_Cancel q then Some (set_mod a (drop_module m (el_Next mx)) s)
       else case ir_sp u of
         None \<Rightarrow> Some (set_mod a (drop_userspace m (el_Next ux)) s)
       | Some usp \<Rightarrow> do {
           qsp \<leftarrow> ir_sp q;
           (sz, name) \<leftarrow> request_size u usp s;
           s \<leftarrow> (if sz \<le> sl_Length qsp then do {
                   s \<leftarrow> fill_request (el_Irp ux) u usp (el_Irp mx) sz name s;
                   let s = set_mod a (drop_userspace m (el_Next ux)) s;
                   add_outstanding a ue s
                 } else Some s);
           m \<leftarrow> mods s a;
           let s = set_mod a (drop_module m (el_Next mx)) s;
           s \<leftarrow> free_entry me s;
           IoCompleteRequest (el_Irp mx) s
         }
     }
   }"

text \<open>Whether the packet of the first entry is the one that was asked for.\<close>

definition in_flight :: "nat \<Rightarrow> u64 option \<Rightarrow> nt \<Rightarrow> bool" where
  "in_flight me infl s = (case entries s me of Some x \<Rightarrow> infl = Some (el_Irp x) | None \<Rightarrow> False)"

partial_function (option) work_loop :: "nat \<Rightarrow> u64 option \<Rightarrow> bool \<Rightarrow> nt \<Rightarrow> (bool \<times> nt) option" where
  [code]: "work_loop a infl found s = do {
     m \<leftarrow> mods s a;
     case (ModuleIrpList m, UserspaceIrpList m) of
       (Some me, Some ue) \<Rightarrow> do {
         s' \<leftarrow> work_round a me ue s;
         work_loop a infl (found \<or> in_flight me infl s) s'
       }
     | _ \<Rightarrow> Some (found, s)
   }"

definition FuseCheckForWork :: "nat \<Rightarrow> u64 option \<Rightarrow> nt \<Rightarrow> (bool \<times> nt) option" where
  "FuseCheckForWork a infl s = work_loop a infl False s"

text \<open>A request of an application. A module that is not there, and a file on none, are no errors.\<close>

definition FuseAddUserspaceIrp :: "u64 \<Rightarrow> nt \<Rightarrow> (ntstatus \<times> nt) option" where
  "FuseAddUserspaceIrp p s = do {
     r \<leftarrow> irps s p; sp \<leftarrow> ir_sp r; fo \<leftarrow> fobjs s (sl_FileObject sp);
     if fo_Length fo > 0 then do {
       (name, s) \<leftarrow> FuseAllocateModuleName fo s;
       v \<leftarrow> hmap_get (ModuleMap s) name;
       case v of
         None \<Rightarrow> do { s \<leftarrow> IoCompleteRequest p s; Some (STATUS_SUCCESS, s) }
       | Some a \<Rightarrow> do {
           (_, s) \<leftarrow> FuseAddIrpToModuleList p a False s;
           s \<leftarrow> FusePrePostIrp p s;
           s \<leftarrow> IoMarkIrpPending p s;
           (_, s) \<leftarrow> FuseCheckForWork a None s;
           Some (STATUS_PENDING, s)
         }
     } else do { s \<leftarrow> IoCompleteRequest p s; Some (STATUS_SUCCESS, s) }
   }"

subsection \<open>Responses\<close>

text \<open>The search for the entry of a packet: the entry before it and its own.\<close>

partial_function (option) find_outstanding :: "u64 \<Rightarrow> nat option \<Rightarrow> nat option \<Rightarrow> nt \<Rightarrow> (nat option \<times> nat) option option" where
  [code]: "find_outstanding p cur prev s =
     (case cur of
        None \<Rightarrow> Some None
      | Some e \<Rightarrow> do {
          x \<leftarrow> entries s e;
          if el_Irp x = p then Some (Some (prev, e)) else find_outstanding p (el_Next x) (Some e) s
        })"

text \<open>What the response says is copied to the packet of the application. The data of a read follow the
  parameter immediately, the others the padded structure.\<close>

definition copy_response :: "u64 \<Rightarrow> bytes \<Rightarrow> nt \<Rightarrow> (ntstatus \<times> nt) option" where
  "copy_response p resp s = do {
     u \<leftarrow> irps s p; usp \<leftarrow> ir_sp u; status \<leftarrow> resp_status resp; param \<leftarrow> resp_param resp;
     let s = set_irp p (u\<lparr>ir_Status := status\<rparr>) s;
     (res, s) \<leftarrow>
       (if NT_SUCCESS status \<and> sl_MajorFunction usp = IRP_MJ_READ then do {
          s \<leftarrow> FuseMapUserBuffer p s;
          if sl_Length usp \<ge> unat param then do {
            dat \<leftarrow> peek 28 (unat param) resp;
            s \<leftarrow> write_user p 0 dat s;
            u \<leftarrow> irps s p;
            Some (STATUS_SUCCESS, set_irp p (u\<lparr>ir_Information := unat param\<rparr>) s)
          } else do {
            u \<leftarrow> irps s p;
            Some (STATUS_INVALID_BUFFER_SIZE, set_irp p (u\<lparr>ir_Status := STATUS_INVALID_BUFFER_SIZE\<rparr>) s)
          }
        }
        else if NT_SUCCESS status \<and> sl_MajorFunction usp = IRP_MJ_WRITE then do {
          u \<leftarrow> irps s p;
          Some (STATUS_SUCCESS, set_irp p (u\<lparr>ir_Information := unat param\<rparr>) s)
        }
        else Some (STATUS_SUCCESS, s));
     if sl_MajorFunction usp = IRP_MJ_QUERY_INFORMATION then
       if unat param \<ge> sizeof_FUSENT_FILE_INFORMATION then FuseCopyInformation p (drop sizeof_FUSENT_RESP resp) s
       else do {
         u \<leftarrow> irps s p;
         Some (STATUS_INVALID_BUFFER_SIZE, set_irp p (u\<lparr>ir_Status := STATUS_INVALID_BUFFER_SIZE\<rparr>) s)
       }
     else if sl_MajorFunction usp = IRP_MJ_DIRECTORY_CONTROL then FuseCopyDirectoryControl p (drop sizeof_FUSENT_RESP resp) (unat param) s
     else Some (res, s)
   }"

definition remove_outstanding :: "nat \<Rightarrow> nat option \<Rightarrow> nat \<Rightarrow> nt \<Rightarrow> nt option" where
  "remove_outstanding a prev e s = do {
     m \<leftarrow> mods s a; x \<leftarrow> entries s e;
     (m, s) \<leftarrow> (case prev of
         Some pe \<Rightarrow> do { s \<leftarrow> set_next pe (el_Next x) s; Some (m, s) }
       | None \<Rightarrow> Some (m\<lparr>OutstandingIrpList := el_Next x\<rparr>, s));
     let m = (if el_Next x = None then m\<lparr>OutstandingIrpListEnd := prev\<rparr> else m);
     free_entry e (set_mod a m s)
   }"

definition FuseCopyResponse :: "nat \<Rightarrow> u64 \<Rightarrow> io_stack_location \<Rightarrow> nt \<Rightarrow> (ntstatus \<times> nt) option" where
  "FuseCopyResponse a p sp s =
     (if sl_InputBufferLength sp \<ge> sizeof_FUSENT_RESP then do {
        r \<leftarrow> irps s p;
        let resp = ir_SystemBuffer r;
        target \<leftarrow> resp_pirp resp;
        m \<leftarrow> mods s a;
        found \<leftarrow> find_outstanding target (OutstandingIrpList m) None s;
        case found of
          None \<Rightarrow> Some (STATUS_INVALID_DEVICE_REQUEST, s)
        | Some (prev, e) \<Rightarrow> do {
            u \<leftarrow> irps s target;
            if ir_Cancel u then do {
              x \<leftarrow> entries s e;
              Some (STATUS_CANCELLED, set_mod a (m\<lparr>OutstandingIrpList := el_Next x,
                OutstandingIrpListEnd := (if el_Next x = None then None else OutstandingIrpListEnd m)\<rparr>) s)
            } else do {
              (status, s) \<leftarrow> copy_response target resp s;
              s \<leftarrow> IoCompleteRequest target s;
              s \<leftarrow> remove_outstanding a prev e s;
              Some (status, s)
            }
          }
      } else Some (STATUS_INVALID_BUFFER_SIZE, s))"

subsection \<open>Mounting and unmounting\<close>

text \<open>\<open>module_struct_delete\<close>: every packet of a list is cancelled, completed and its entry freed.\<close>

partial_function (option) cancel_list :: "nat option \<Rightarrow> nt \<Rightarrow> nt option" where
  [code]: "cancel_list cur s =
     (case cur of
        None \<Rightarrow> Some s
      | Some e \<Rightarrow> do {
          x \<leftarrow> entries s e;
          r \<leftarrow> irps s (el_Irp x);
          s \<leftarrow> IoCompleteRequest (el_Irp x) (set_irp (el_Irp x) (r\<lparr>ir_Status := STATUS_CANCELLED\<rparr>) s);
          s \<leftarrow> free_entry e s;
          cancel_list (el_Next x) s
        })"

definition module_struct_delete :: "nat \<Rightarrow> nt \<Rightarrow> nt option" where
  "module_struct_delete a s = do {
     m \<leftarrow> mods s a;
     s \<leftarrow> cancel_list (ModuleIrpList m) s;
     s \<leftarrow> cancel_list (UserspaceIrpList m) s;
     s \<leftarrow> cancel_list (OutstandingIrpList m) s;
     Some (s\<lparr>mods := (mods s)(a := None)\<rparr>)
   }"

text \<open>The name a module is known by: the one of its file, without the first character.\<close>

definition name_of_module :: "file_object \<Rightarrow> wstring option" where
  "name_of_module fo = wcs (tl (fo_Buffer fo))"

definition FuseCheckUnmountModule :: "io_stack_location \<Rightarrow> nt \<Rightarrow> (bool \<times> nt) option" where
  "FuseCheckUnmountModule sp s = do {
     fo \<leftarrow> fobjs s (sl_FileObject sp);
     if fo_Length fo > 0 then do {
       name \<leftarrow> name_of_module fo;
       v \<leftarrow> hmap_get (ModuleMap s) name;
       case v of
         None \<Rightarrow> Some (False, s)
       | Some a \<Rightarrow> do {
           m \<leftarrow> mods s a;
           if ModuleFileObject m = sl_FileObject sp then do {
             (gone, h) \<leftarrow> hmap_remove (ModuleMap s) name;
             s \<leftarrow> (case gone of Some a \<Rightarrow> module_struct_delete a s | None \<Rightarrow> Some s);
             Some (True, s\<lparr>ModuleMap := h\<rparr>)
           } else Some (False, s)
         }
     } else Some (False, s)
   }"

text \<open>
  \<open>IRP_FUSE_MOUNT\<close>. The length of the name counts bytes, the code takes it for characters: that many
  characters, less one, are copied, into memory for one more, and a terminator is written at twice that
  distance from the start of the copy, behind its end.
\<close>

definition FuseMount :: "u64 \<Rightarrow> io_stack_location \<Rightarrow> file_object \<Rightarrow> nt \<Rightarrow> (ntstatus \<times> nt) option" where
  "FuseMount p sp fo s = do {
     let n = 2 * (fo_Length fo - 1);
     (a, s) \<leftarrow> nt_alloc s;
     (_, s) \<leftarrow> nt_alloc s;
     let mem = tl (fo_Buffer fo);
     copied \<leftarrow> (if fo_Length fo - 1 \<le> length mem then Some (take (fo_Length fo - 1) mem) else None);
     name \<leftarrow> wcs copied;
     let s = s\<lparr>stray := stray s + (if 2 * n + 2 \<le> n + 2 then 0 else 1)\<rparr>;
     let s = set_mod a \<lparr>ModuleIrpList = None, UserspaceIrpList = None, OutstandingIrpList = None, ModuleIrpListEnd = None,
           UserspaceIrpListEnd = None, OutstandingIrpListEnd = None, ModuleName = name, ModuleFileObject = sl_FileObject sp\<rparr> s;
     (_, h) \<leftarrow> hmap_add (ModuleMap s) name a;
     s \<leftarrow> IoCompleteRequest p (s\<lparr>ModuleMap := h\<rparr>);
     Some (STATUS_SUCCESS, s)
   }"

text \<open>A module asks for work.\<close>

definition FuseModuleRequest :: "u64 \<Rightarrow> nat \<Rightarrow> nt \<Rightarrow> (ntstatus \<times> nt) option" where
  "FuseModuleRequest p a s = do {
     (ok, s) \<leftarrow> FuseAddIrpToModuleList p a True s;
     if \<not> ok then do { s \<leftarrow> IoCompleteRequest p s; Some (STATUS_INVALID_USER_BUFFER, s) }
     else do {
       (found, s) \<leftarrow> FuseCheckForWork a (Some p) s;
       if \<not> found then do {
         s \<leftarrow> FusePrePostIrp p s;
         s \<leftarrow> IoMarkIrpPending p s;
         Some (STATUS_PENDING, s)
       } else Some (STATUS_SUCCESS, s)
     }
   }"

definition FuseFsdFileSystemControl :: "u64 \<Rightarrow> nt \<Rightarrow> (ntstatus \<times> nt) option" where
  "FuseFsdFileSystemControl p s = do {
     r \<leftarrow> irps s p; sp \<leftarrow> ir_sp r; fo \<leftarrow> fobjs s (sl_FileObject sp);
     if fo_Length fo \<le> 1 then Some (STATUS_INVALID_PARAMETER, s)
     else if sl_FsControlCode sp = IRP_FUSE_MOUNT then FuseMount p sp fo s
     else if sl_FsControlCode sp = IRP_FUSE_MODULE_REQUEST \<or> sl_FsControlCode sp = IRP_FUSE_MODULE_RESPONSE then do {
       name \<leftarrow> name_of_module fo;
       v \<leftarrow> hmap_get (ModuleMap s) name;
       case v of
         None \<Rightarrow> Some (STATUS_INVALID_PARAMETER, s)
       | Some a \<Rightarrow> do {
           m \<leftarrow> mods s a;
           if ModuleFileObject m = sl_FileObject sp then
             if sl_FsControlCode sp = IRP_FUSE_MODULE_REQUEST then FuseModuleRequest p a s
             else do {
               (status, s) \<leftarrow> FuseCopyResponse a p sp s;
               s \<leftarrow> IoCompleteRequest p s;
               Some (status, s)
             }
           else do { s \<leftarrow> IoCompleteRequest p s; Some (STATUS_INVALID_PARAMETER, s) }
         }
     }
     else do { s \<leftarrow> IoCompleteRequest p s; Some (STATUS_INVALID_PARAMETER, s) }
   }"

subsection \<open>The entry points\<close>

definition FuseFsdClose :: "u64 \<Rightarrow> nt \<Rightarrow> (ntstatus \<times> nt) option" where
  "FuseFsdClose p s = do {
     r \<leftarrow> irps s p; sp \<leftarrow> ir_sp r;
     (_, s) \<leftarrow> FuseCheckUnmountModule sp s;
     Some (STATUS_SUCCESS, s)
   }"

definition FuseFsdCreate :: "u64 \<Rightarrow> nt \<Rightarrow> (ntstatus \<times> nt) option" where
  "FuseFsdCreate p s = FuseAddUserspaceIrp p s"

text \<open>Reads and writes of nothing are done at once.\<close>

definition unless_empty :: "u64 \<Rightarrow> nt \<Rightarrow> (ntstatus \<times> nt) option" where
  "unless_empty p s = do {
     r \<leftarrow> irps s p; sp \<leftarrow> ir_sp r;
     if sl_Length sp = 0 then do { s \<leftarrow> IoCompleteRequest p s; Some (STATUS_SUCCESS, s) }
     else FuseAddUserspaceIrp p s
   }"

definition FuseFsdRead :: "u64 \<Rightarrow> nt \<Rightarrow> (ntstatus \<times> nt) option" where "FuseFsdRead p s = unless_empty p s"
definition FuseFsdWrite :: "u64 \<Rightarrow> nt \<Rightarrow> (ntstatus \<times> nt) option" where "FuseFsdWrite p s = unless_empty p s"
definition FuseFsdDirectoryControl :: "u64 \<Rightarrow> nt \<Rightarrow> (ntstatus \<times> nt) option" where "FuseFsdDirectoryControl p s = FuseAddUserspaceIrp p s"
definition FuseFsdQueryInformation :: "u64 \<Rightarrow> nt \<Rightarrow> (ntstatus \<times> nt) option" where "FuseFsdQueryInformation p s = FuseAddUserspaceIrp p s"
definition FuseFsdQueryVolumeInformation :: "u64 \<Rightarrow> nt \<Rightarrow> (ntstatus \<times> nt) option" where
  "FuseFsdQueryVolumeInformation p s = FuseCopyVolumeInformation p s"

text \<open>The entry points that do nothing; they leave the packet as it is.\<close>

definition FuseFsdCleanup :: "u64 \<Rightarrow> nt \<Rightarrow> (ntstatus \<times> nt) option" where "FuseFsdCleanup p s = Some (STATUS_SUCCESS, s)"
definition FuseFsdFlushBuffers :: "u64 \<Rightarrow> nt \<Rightarrow> (ntstatus \<times> nt) option" where "FuseFsdFlushBuffers p s = Some (STATUS_SUCCESS, s)"
definition FuseFsdLockControl :: "u64 \<Rightarrow> nt \<Rightarrow> (ntstatus \<times> nt) option" where "FuseFsdLockControl p s = Some (STATUS_SUCCESS, s)"
definition FuseFsdPnp :: "u64 \<Rightarrow> nt \<Rightarrow> (ntstatus \<times> nt) option" where "FuseFsdPnp p s = Some (STATUS_SUCCESS, s)"
definition FuseFsdShutdown :: "u64 \<Rightarrow> nt \<Rightarrow> (ntstatus \<times> nt) option" where "FuseFsdShutdown p s = Some (STATUS_SUCCESS, s)"
definition FuseFsdDeviceControl :: "u64 \<Rightarrow> nt \<Rightarrow> (ntstatus \<times> nt) option" where "FuseFsdDeviceControl p s = Some (STATUS_SUCCESS, s)"
definition FuseFsdSetInformation :: "u64 \<Rightarrow> nt \<Rightarrow> (ntstatus \<times> nt) option" where "FuseFsdSetInformation p s = Some (STATUS_SUCCESS, s)"
definition FuseFsdSetEa :: "u64 \<Rightarrow> nt \<Rightarrow> (ntstatus \<times> nt) option" where "FuseFsdSetEa p s = Some (STATUS_SUCCESS, s)"
definition FuseFsdSetVolumeInformation :: "u64 \<Rightarrow> nt \<Rightarrow> (ntstatus \<times> nt) option" where "FuseFsdSetVolumeInformation p s = Some (STATUS_SUCCESS, s)"

text \<open>The fast paths decline, whatever they are asked, so that a packet is sent; the cache may always be flushed.\<close>

definition FuseFastIoCheckIfPossible :: "nt \<Rightarrow> bool \<times> nt" where "FuseFastIoCheckIfPossible s = (False, s)"
definition FuseFastQueryBasicInfo :: "nt \<Rightarrow> bool \<times> nt" where "FuseFastQueryBasicInfo s = (False, s)"
definition FuseFastQueryStdInfo :: "nt \<Rightarrow> bool \<times> nt" where "FuseFastQueryStdInfo s = (False, s)"
definition FuseFastQueryNetworkOpenInfo :: "nt \<Rightarrow> bool \<times> nt" where "FuseFastQueryNetworkOpenInfo s = (False, s)"
definition FuseFastLock :: "nt \<Rightarrow> bool \<times> nt" where "FuseFastLock s = (False, s)"
definition FuseFastUnlockSingle :: "nt \<Rightarrow> bool \<times> nt" where "FuseFastUnlockSingle s = (False, s)"
definition FuseFastUnlockAll :: "nt \<Rightarrow> bool \<times> nt" where "FuseFastUnlockAll s = (False, s)"
definition FuseFastUnlockAllByKey :: "nt \<Rightarrow> bool \<times> nt" where "FuseFastUnlockAllByKey s = (False, s)"
definition FuseAcquireForCcFlush :: "nt \<Rightarrow> ntstatus \<times> nt" where "FuseAcquireForCcFlush s = (STATUS_SUCCESS, s)"
definition FuseReleaseForCcFlush :: "nt \<Rightarrow> ntstatus \<times> nt" where "FuseReleaseForCcFlush s = (STATUS_SUCCESS, s)"

text \<open>The dispatch table \<open>DriverEntry\<close> fills in.\<close>

definition MajorFunction :: "nat \<Rightarrow> (u64 \<Rightarrow> nt \<Rightarrow> (ntstatus \<times> nt) option) option" where
  "MajorFunction major = map_of
     [(0, FuseFsdCreate), (2, FuseFsdClose), (3, FuseFsdRead), (4, FuseFsdWrite), (5, FuseFsdQueryInformation),
      (6, FuseFsdSetInformation), (7, FuseFsdQueryInformation), (8, FuseFsdSetEa), (9, FuseFsdFlushBuffers),
      (10, FuseFsdQueryVolumeInformation), (11, FuseFsdSetVolumeInformation), (18, FuseFsdCleanup), (12, FuseFsdDirectoryControl),
      (13, FuseFsdFileSystemControl), (17, FuseFsdLockControl), (14, FuseFsdDeviceControl), (16, FuseFsdShutdown),
      (27, FuseFsdPnp)] major"

text \<open>Loading the driver; \<open>created\<close> is the status of the creation of its device.\<close>

definition DriverEntry :: "ntstatus \<Rightarrow> nt \<Rightarrow> (ntstatus \<times> nt) option" where
  "DriverEntry created s =
     (if \<not> NT_SUCCESS created then Some (created, s)
      else do {
        (h, m) \<leftarrow> mk_hmap (nt_mem s) name_hash_fn str_eq_fn;
        Some (STATUS_SUCCESS, s\<lparr>ModuleMap := h, nt_mem := m\<rparr>)
      })"

text \<open>The destructor runs for every value of the table, also for the ones that were removed before.\<close>

primrec delete_all :: "nat list \<Rightarrow> nt \<Rightarrow> nt option" where
  "delete_all [] s = Some s"
| "delete_all (a # as) s = do { s \<leftarrow> module_struct_delete a s; delete_all as s }"

definition FuseUnload :: "nt \<Rightarrow> nt option" where
  "FuseUnload s = do { vs \<leftarrow> free_hmap (ModuleMap s); delete_all vs s }"

end
