(* ===== verification/NT_Driver_Proofs.thy ===== *)
theory NT_Driver_Proofs
  imports NT_Driver
begin

text \<open>
  What the driver does with the packets it is given: with one request of an application at a time
  a packet goes from the application to the module and back and is completed exactly once, unless it was
  cancelled; a response to a cancelled packet completes nothing and loses the entries before it. When requests pile up, they do not: the last part shows that the driver then uses an entry it
  has freed.
\<close>

subsection \<open>Linked lists\<close>

text \<open>The entries of a list, with their addresses, from its first one to its end.\<close>

primrec links :: "(nat \<Rightarrow> irp_list option) \<Rightarrow> nat option \<Rightarrow> (nat \<times> u64) list \<Rightarrow> bool" where
  "links h p [] \<longleftrightarrow> p = None"
| "links h p (x # xs) \<longleftrightarrow> p = Some (fst x) \<and> (\<exists>n. h (fst x) = Some \<lparr>el_Irp = snd x, el_Next = n\<rparr> \<and> links h n xs)"

definition end_of :: "(nat \<times> u64) list \<Rightarrow> nat option" where
  "end_of xs = (if xs = [] then None else Some (fst (last xs)))"

definition queue :: "(nat \<Rightarrow> irp_list option) \<Rightarrow> nat option \<Rightarrow> nat option \<Rightarrow> (nat \<times> u64) list \<Rightarrow> bool" where
  "queue h first lst xs \<longleftrightarrow> links h first xs \<and> lst = end_of xs \<and> distinct (map fst xs)"

lemma end_of_simps [simp]:
  "end_of [] = None" "end_of (xs @ [x]) = Some (fst x)" "end_of (x # y # xs) = end_of (y # xs)" "end_of [x] = Some (fst x)"
  by (simp_all add: end_of_def)

lemma links_other: "e \<notin> fst ` set xs \<Longrightarrow> links (h(e := x)) p xs = links h p xs"
  by (induction xs arbitrary: p) auto

lemma links_None [simp]: "links h None xs \<longleftrightarrow> xs = []"
  by (cases xs) auto

lemma links_entry: "links h p xs \<Longrightarrow> (e, i) \<in> set xs \<Longrightarrow> \<exists>n. h e = Some \<lparr>el_Irp = i, el_Next = n\<rparr>"
  by (induction xs arbitrary: p) auto

lemma links_last: "links h p xs \<Longrightarrow> xs \<noteq> [] \<Longrightarrow> h (fst (last xs)) = Some \<lparr>el_Irp = snd (last xs), el_Next = None\<rparr>"
  by (induction xs arbitrary: p) auto

lemma last_fst: "xs \<noteq> [] \<Longrightarrow> fst (last xs) \<in> fst ` set xs"
  by simp

lemma links_snoc:
  assumes "links h p xs" "xs \<noteq> []" "distinct (map fst xs)" "e \<notin> fst ` set xs"
  shows "links (h(e := Some \<lparr>el_Irp = i, el_Next = None\<rparr>, fst (last xs) := Some \<lparr>el_Irp = snd (last xs), el_Next = Some e\<rparr>)) p (xs @ [(e, i)])"
  using assms
proof (induction xs arbitrary: p)
  case (Cons x xs)
  show ?case
  proof (cases "xs = []")
    case True
    then show ?thesis using Cons.prems by auto
  next
    case False
    have "fst x \<notin> fst ` set xs" using Cons.prems(3) by simp
    then have "fst (last xs) \<noteq> fst x" using last_fst [OF False] by metis
    then show ?thesis using Cons False by auto
  qed
qed simp

text \<open>Taking an entry out.\<close>


lemma links_remove_first: "links h p (x # xs) \<Longrightarrow> \<exists>n. h (fst x) = Some \<lparr>el_Irp = snd x, el_Next = n\<rparr> \<and> links h n xs"
  by auto

lemma links_mid: "links h f (ys @ (e, p) # zs) \<Longrightarrow> \<exists>n. h e = Some \<lparr>el_Irp = p, el_Next = n\<rparr> \<and> links h n zs"
  by (induction ys arbitrary: f) auto

lemma links_remove:
  assumes "links h p (ys @ x # zs)" "ys \<noteq> []" "distinct (map fst (ys @ x # zs))" "h (fst x) = Some \<lparr>el_Irp = snd x, el_Next = n\<rparr>"
  shows "links (h(fst (last ys) := Some \<lparr>el_Irp = snd (last ys), el_Next = n\<rparr>)) p (ys @ zs)"
  using assms
proof (induction ys arbitrary: p)
  case (Cons y ys)
  show ?case
  proof (cases "ys = []")
    case True
    have "fst y \<notin> fst ` set zs" "links h n zs" using Cons.prems True by auto
    then show ?thesis using Cons.prems(1) True links_other [of "fst y" zs h] by (simp del: fun_upd_apply) (simp add: fun_upd_same)
  next
    case False
    have "fst y \<notin> fst ` set ys" using Cons.prems(3) by simp
    then have "fst (last ys) \<noteq> fst y" using last_fst [OF False] by metis
    then show ?thesis using Cons False by auto
  qed
qed simp

lemma queue_push:
  assumes "queue h first lst xs" "e \<notin> fst ` set xs" "h e = None"
  shows "case lst of
       None \<Rightarrow> queue (h(e := Some \<lparr>el_Irp = i, el_Next = None\<rparr>)) (Some e) (Some e) (xs @ [(e, i)])
     | Some l \<Rightarrow> \<exists>x. h l = Some x \<and> l \<noteq> e \<and> queue (h(e := Some \<lparr>el_Irp = i, el_Next = None\<rparr>, l := Some (x\<lparr>el_Next := Some e\<rparr>))) first (Some e) (xs @ [(e, i)])"
proof (cases "xs = []")
  case True
  then show ?thesis using assms by (simp add: queue_def)
next
  case False
  then have lst: "lst = Some (fst (last xs))" using assms(1) by (simp add: queue_def end_of_def)
  have "fst (last xs) \<noteq> e" using assms(2) last_fst [OF False] by auto
  then show ?thesis unfolding lst using assms(1,2) False links_snoc [of h first xs e i] links_last [of h first xs]
    by (simp add: queue_def)
qed

lemma queue_other: "e \<notin> fst ` set xs \<Longrightarrow> queue (h(e := x)) first lst xs = queue h first lst xs"
  by (simp add: queue_def links_other)

text \<open>What pushing does, with the other lists left alone.\<close>

definition pushed :: "(nat \<Rightarrow> irp_list option) \<Rightarrow> nat option \<Rightarrow> nat \<Rightarrow> u64 \<Rightarrow> nat \<Rightarrow> irp_list option" where
  "pushed h lst e i = (case lst of
       None \<Rightarrow> h(e := Some \<lparr>el_Irp = i, el_Next = None\<rparr>)
     | Some l \<Rightarrow> h(e := Some \<lparr>el_Irp = i, el_Next = None\<rparr>, l := map_option (\<lambda>x. x\<lparr>el_Next := Some e\<rparr>) (h l)))"

lemma end_in: "queue h first (Some l) xs \<Longrightarrow> l \<in> fst ` set xs \<and> (\<exists>x. h l = Some x)"
  using last_fst [of xs] links_last [of h first xs] by (cases "xs = []") (auto simp: queue_def end_of_def)

lemma queue_pushed:
  assumes "queue h first lst xs" "e \<notin> fst ` set xs" "h e = None"
  shows "queue (pushed h lst e i) (if lst = None then Some e else first) (Some e) (xs @ [(e, i)])"
    "queue h f l ys \<Longrightarrow> fst ` set ys \<inter> fst ` set xs = {} \<Longrightarrow> e \<notin> fst ` set ys \<Longrightarrow> queue (pushed h lst e i) f l ys"
    "e' \<noteq> e \<Longrightarrow> pushed h lst e i e' = None \<longleftrightarrow> h e' = None"
proof -
  show "queue (pushed h lst e i) (if lst = None then Some e else first) (Some e) (xs @ [(e, i)])"
    using queue_push [OF assms, of i] by (cases lst) (auto simp: pushed_def)
  show "queue (pushed h lst e i) f l ys" if "queue h f l ys" "fst ` set ys \<inter> fst ` set xs = {}" "e \<notin> fst ` set ys"
  proof (cases lst)
    case (Some a)
    then have "a \<in> fst ` set xs" using end_in [of h first a xs] assms(1) by simp
    then have "a \<notin> fst ` set ys" using that(2) by blast
    then show ?thesis using that Some by (simp add: pushed_def queue_other)
  qed (use that in \<open>simp add: pushed_def queue_other\<close>)
  show "pushed h lst e i e' = None \<longleftrightarrow> h e' = None" if "e' \<noteq> e"
    using that by (cases lst) (auto simp: pushed_def)
qed

subsection \<open>The lists of a module\<close>

text \<open>The module at \<open>a\<close>, mounted through the file object \<open>fo\<close>, with its packets: the ones it waits with, the waiting
  requests, and the ones it works on.\<close>

definition mod_lists :: "nt \<Rightarrow> nat \<Rightarrow> u64 \<Rightarrow> (nat \<times> u64) list \<Rightarrow> (nat \<times> u64) list \<Rightarrow> (nat \<times> u64) list \<Rightarrow> bool" where
  "mod_lists s a fo ms us os \<longleftrightarrow>
     (\<exists>m. mods s a = Some m \<and> ModuleFileObject m = fo \<and> queue (entries s) (ModuleIrpList m) (ModuleIrpListEnd m) ms \<and>
        queue (entries s) (UserspaceIrpList m) (UserspaceIrpListEnd m) us \<and>
        queue (entries s) (OutstandingIrpList m) (OutstandingIrpListEnd m) os) \<and>
     distinct (map fst (ms @ us @ os)) \<and> (\<forall>x\<in>set (ms @ us @ os). fst x < pool s) \<and> (\<forall>e\<ge>pool s. entries s e = None)"

lemma mod_lists_mono:
  "mod_lists s a fo ms us os \<Longrightarrow> mods s' = mods s \<Longrightarrow> entries s' = entries s \<Longrightarrow> pool s \<le> pool s' \<Longrightarrow> mod_lists s' a fo ms us os"
  by (auto simp: mod_lists_def intro: less_le_trans)

text \<open>With memory to spare.\<close>

lemma nt_alloc_ok: "nt_mem s = [] \<Longrightarrow> nt_alloc s = Some (pool s, s\<lparr>pool := Suc (pool s)\<rparr>)"
  by (cases s) (simp add: nt_alloc_def)

text \<open>A new entry at the end of the list of the waiting packets, or of the waiting requests.\<close>

lemma add_entry:
  assumes l: "mod_lists s a fo ms us os" and p: "irps s p = Some r" "nt_mem s = []"
    and fits: "to_module \<longrightarrow> (\<exists>sp. ir_sp r = Some sp \<and> sizeof_FUSENT_REQ (abi s) + stack_length (abi s) r \<le> sl_Length sp)"
  shows "\<exists>es m. FuseAddIrpToModuleList p a to_module s = Some (True, s\<lparr>pool := Suc (pool s), entries := es, mods := (mods s)(a \<mapsto> m)\<rparr>) \<and>
     (if to_module then mod_lists (s\<lparr>pool := Suc (pool s), entries := es, mods := (mods s)(a \<mapsto> m)\<rparr>) a fo (ms @ [(pool s, p)]) us os
      else mod_lists (s\<lparr>pool := Suc (pool s), entries := es, mods := (mods s)(a \<mapsto> m)\<rparr>) a fo ms (us @ [(pool s, p)]) os)"
proof -
  let ?e = "pool s"
  obtain m where m: "mods s a = Some m" "ModuleFileObject m = fo"
    "queue (entries s) (ModuleIrpList m) (ModuleIrpListEnd m) ms" "queue (entries s) (UserspaceIrpList m) (UserspaceIrpListEnd m) us"
    "queue (entries s) (OutstandingIrpList m) (OutstandingIrpListEnd m) os"
    using l by (auto simp: mod_lists_def)
  have d: "distinct (map fst (ms @ us @ os))" "\<forall>x\<in>set (ms @ us @ os). fst x < pool s" "entries s ?e = None" "\<forall>e\<ge>pool s. entries s e = None"
    using l by (auto simp: mod_lists_def)
  have new: "?e \<notin> fst ` set xs" if "set xs \<subseteq> set (ms @ us @ os)" for xs using d(2) that by (fastforce simp: subset_iff)
  have nms: "?e \<notin> fst ` set ms" "?e \<notin> fst ` set us" "?e \<notin> fst ` set os" by (rule new, force)+
  have ends: "lst = Some l \<Longrightarrow> l \<noteq> ?e \<and> (\<exists>x. entries s l = Some x)" if "queue (entries s) first lst xs" for first lst l xs
    using that end_in [of "entries s" first l xs] d(3) by auto
  have apart: "fst ` set ms \<inter> fst ` set us = {}" "fst ` set ms \<inter> fst ` set os = {}" "fst ` set us \<inter> fst ` set os = {}"
    "fst ` set us \<inter> fst ` set ms = {}" "fst ` set os \<inter> fst ` set ms = {}" "fst ` set os \<inter> fst ` set us = {}"
    using d(1) by auto
  show ?thesis
  proof (cases to_module)
    case True
    let ?es = "pushed (entries s) (ModuleIrpListEnd m) ?e p"
    let ?m = "m\<lparr>ModuleIrpList := (if ModuleIrpListEnd m = None then Some ?e else ModuleIrpList m), ModuleIrpListEnd := Some ?e\<rparr>"
    note q = queue_pushed [OF m(3) nms(1) d(3), where i = p]
    obtain sp where "ir_sp r = Some sp" "\<not> sl_Length sp < sizeof_FUSENT_REQ (abi s) + ir_StackCount r * sizeof_IO_STACK_LOCATION (abi s)"
      using fits True by (auto simp: stack_length_def)
    then have "FuseAddIrpToModuleList p a to_module s = Some (True, s\<lparr>pool := Suc ?e, entries := ?es, mods := (mods s)(a \<mapsto> ?m)\<rparr>)"
      using True ends [OF m(3)]
      by (cases "ModuleIrpListEnd m")
        (auto simp: FuseAddIrpToModuleList_def new_entry_def nt_alloc_ok p m(1) set_mod_def Let_def set_next_def pushed_def)
    moreover have "mod_lists (s\<lparr>pool := Suc ?e, entries := ?es, mods := (mods s)(a \<mapsto> ?m)\<rparr>) a fo (ms @ [(?e, p)]) us os"
      using m q(1) q(2) [OF m(4)] q(2) [OF m(5)] q(3) d(1,2,4) nms apart by (auto simp: mod_lists_def less_Suc_eq)
    ultimately show ?thesis using True by (intro exI [of _ ?es] exI [of _ ?m]) simp
  next
    case False
    let ?es = "pushed (entries s) (UserspaceIrpListEnd m) ?e p"
    let ?m = "m\<lparr>UserspaceIrpList := (if UserspaceIrpListEnd m = None then Some ?e else UserspaceIrpList m), UserspaceIrpListEnd := Some ?e\<rparr>"
    note q = queue_pushed [OF m(4) nms(2) d(3), where i = p]
    have "FuseAddIrpToModuleList p a to_module s = Some (True, s\<lparr>pool := Suc ?e, entries := ?es, mods := (mods s)(a \<mapsto> ?m)\<rparr>)"
      using False ends [OF m(4)]
      by (cases "UserspaceIrpListEnd m")
        (auto simp: FuseAddIrpToModuleList_def new_entry_def nt_alloc_ok p m(1) set_mod_def Let_def set_next_def pushed_def)
    moreover have "mod_lists (s\<lparr>pool := Suc ?e, entries := ?es, mods := (mods s)(a \<mapsto> ?m)\<rparr>) a fo ms (us @ [(?e, p)]) os"
      using m q(1) q(2) [OF m(3)] q(2) [OF m(5)] q(3) d(1,2,4) nms apart by (auto simp: mod_lists_def less_Suc_eq)
    ultimately show ?thesis using False by (intro exI [of _ ?es] exI [of _ ?m]) simp
  qed
qed

subsection \<open>Steps that change one packet\<close>

definition touches :: "u64 \<Rightarrow> nt \<Rightarrow> nt \<Rightarrow> bool" where
  "touches p s s' \<longleftrightarrow> (\<forall>q. q \<noteq> p \<longrightarrow> irps s' q = irps s q) \<and>
     map_option (\<lambda>r. (ir_sp r, ir_Cancel r)) (irps s' p) = map_option (\<lambda>r. (ir_sp r, ir_Cancel r)) (irps s p) \<and>
     entries s' = entries s \<and> mods s' = mods s \<and> pool s' = pool s \<and> ModuleMap s' = ModuleMap s \<and> fobjs s' = fobjs s \<and>
     completed s' = completed s \<and> abi s' = abi s"

lemma touches_refl [simp]: "touches p s s"
  by (simp add: touches_def)

lemma touches_trans: "touches p s s1 \<Longrightarrow> touches p s1 s' \<Longrightarrow> touches p s s'"
  by (simp add: touches_def)

lemma touches_live: "touches p s s' \<Longrightarrow> irps s p = Some r \<Longrightarrow> \<exists>r'. irps s' p = Some r' \<and> ir_sp r' = ir_sp r \<and> ir_Cancel r' = ir_Cancel r"
  by (cases "irps s' p") (auto simp: touches_def)

lemma touches_set_irp:
  "irps s p = Some r \<Longrightarrow> ir_sp r' = ir_sp r \<Longrightarrow> ir_Cancel r' = ir_Cancel r \<Longrightarrow> touches p s (set_irp p r' s)"
  by (simp add: touches_def set_irp_def)

text \<open>A result that is a changed state, alone or last in a tuple.\<close>

definition touching :: "u64 \<Rightarrow> nt \<Rightarrow> nt option \<Rightarrow> bool" where
  "touching p s x \<longleftrightarrow> (\<forall>s'. x = Some s' \<longrightarrow> touches p s s')"

definition touching2 :: "u64 \<Rightarrow> nt \<Rightarrow> ('a \<times> nt) option \<Rightarrow> bool" where
  "touching2 p s x \<longleftrightarrow> (\<forall>a s'. x = Some (a, s') \<longrightarrow> touches p s s')"

definition touching3 :: "u64 \<Rightarrow> nt \<Rightarrow> ('a \<times> 'b \<times> nt) option \<Rightarrow> bool" where
  "touching3 p s x \<longleftrightarrow> (\<forall>a b s'. x = Some (a, b, s') \<longrightarrow> touches p s s')"

lemmas touching_defs = touching_def touching2_def touching3_def

lemma touching_bind:
  "touching p s x \<Longrightarrow> (\<And>s1. touching p s1 (k s1)) \<Longrightarrow> touching p s (x \<bind> k)"
  "touching p s x \<Longrightarrow> (\<And>s1. touching2 p s1 (k2 s1)) \<Longrightarrow> touching2 p s (x \<bind> k2)"
  "touching p s x \<Longrightarrow> (\<And>s1. touching3 p s1 (k3 s1)) \<Longrightarrow> touching3 p s (x \<bind> k3)"
  unfolding touching_defs by (auto simp: bind_eq_Some_conv) (meson touches_trans)+

lemma touching2_bind:
  "touching2 p s y \<Longrightarrow> (\<And>a s1. touching2 p s1 (h a s1)) \<Longrightarrow> touching2 p s (y \<bind> (\<lambda>(a, s). h a s))"
  "touching3 p s z \<Longrightarrow> (\<And>a b s1. touching2 p s1 (g a b s1)) \<Longrightarrow> touching2 p s (z \<bind> (\<lambda>(a, b, s). g a b s))"
  "touching3 p s z \<Longrightarrow> (\<And>a b s1. touching3 p s1 (g' a b s1)) \<Longrightarrow> touching3 p s (z \<bind> (\<lambda>(a, b, s). g' a b s))"
  unfolding touching_defs by (auto simp: bind_eq_Some_conv) (meson touches_trans)+

lemma touching_read:
  "(\<And>v. x = Some v \<Longrightarrow> touching p s (k v)) \<Longrightarrow> touching p s (x \<bind> k)"
  "(\<And>v. x = Some v \<Longrightarrow> touching2 p s (k2 v)) \<Longrightarrow> touching2 p s (x \<bind> k2)"
  "(\<And>v. x = Some v \<Longrightarrow> touching3 p s (k3 v)) \<Longrightarrow> touching3 p s (x \<bind> k3)"
  unfolding touching_defs by (cases x; simp)+

lemma touching_if:
  "touching p s a \<Longrightarrow> touching p s b \<Longrightarrow> touching p s (if c then a else b)"
  "touching2 p s a2 \<Longrightarrow> touching2 p s b2 \<Longrightarrow> touching2 p s (if c then a2 else b2)"
  "touching3 p s a3 \<Longrightarrow> touching3 p s b3 \<Longrightarrow> touching3 p s (if c then a3 else b3)"
  by simp_all

lemma touching_unit [simp]: "touching p s (Some s)" "touching2 p s (Some (a, s))" "touching3 p s (Some (a, b, s))"
  "touching p s None" "touching2 p s None" "touching3 p s None"
  by (simp_all add: touching_defs)

lemma touching_set:
  "irps s p = Some r \<Longrightarrow> ir_sp r' = ir_sp r \<Longrightarrow> ir_Cancel r' = ir_Cancel r \<Longrightarrow> touching2 p s (Some (a, set_irp p r' s))"
  "irps s p = Some r \<Longrightarrow> ir_sp r' = ir_sp r \<Longrightarrow> ir_Cancel r' = ir_Cancel r \<Longrightarrow> touching p s (Some (set_irp p r' s))"
  by (simp_all add: touching_defs touches_set_irp)

lemma touching_write [simp]: "touching p s (write_system p off bs s)" "touching p s (write_user p off bs s)"
  by (auto simp: touching_def write_system_def write_user_def bind_eq_Some_conv touches_def set_irp_def)

lemma touching_map [simp]: "touching p s (FuseMapUserBuffer p s)"
  by (auto simp: touching_def FuseMapUserBuffer_def bind_eq_Some_conv touches_def split: prod.splits if_splits)

lemma touching_prepost [simp]: "touching p s (FusePrePostIrp p s)" "touching p s (IoMarkIrpPending p s)"
proof -
  have "touching p s (FuseLockUserBuffer p s)"
    by (cases "alloc (nt_mem s)"; cases "alloc (probe_ok s)")
      (auto simp: touching_def FuseLockUserBuffer_def bind_eq_Some_conv touches_def set_irp_def split: if_splits)
  then show "touching p s (FusePrePostIrp p s)" unfolding FusePrePostIrp_def by (intro touching_read touching_if touching_unit)
  show "touching p s (IoMarkIrpPending p s)"
    by (auto simp: touching_def IoMarkIrpPending_def bind_eq_Some_conv touches_def set_irp_def)
qed

lemma touching_fill [simp]: "touching q s (fill_request p u usp q sz name s)"
  unfolding fill_request_def Let_def
  by (intro touching_bind touching_write touching_if touching_unit; rule touching_read)
    (auto intro!: touching_bind touching_read touching_set touching_write)

lemma touching_info: "touching3 p s (FuseQueryBasicInfo p off info len s)" "touching3 p s (FuseQueryStandardInfo p off info len s)"
  "touching3 p s (FuseQueryNameInfo fo p off len s)"
  unfolding FuseQueryBasicInfo_def FuseQueryStandardInfo_def FuseQueryNameInfo_def Let_def
  by (intro touching_if touching_unit touching_bind(3) touching_write touching_read(3))+

lemma touching_cases:
  "touching p s a \<Longrightarrow> (\<And>y. touching p s (b y)) \<Longrightarrow> touching p s (case v of None \<Rightarrow> a | Some y \<Rightarrow> b y)"
  "(\<And>x y. touching2 p s (g x y)) \<Longrightarrow> touching2 p s (case_prod g z)"
  by (cases v; simp) (cases z; simp)

lemma touching_information:
  "touching2 p s (irps s p \<bind> (\<lambda>r. Some (st, set_irp p (r\<lparr>ir_Information := n r\<rparr>) s)))"
  "touching2 p s (irps s p \<bind> (\<lambda>r. Some (st, set_irp p (r\<lparr>ir_Status := st'\<rparr>) s)))"
  by (rule touching_read(2), rule touching_set, simp_all)+

lemma touching_copy_info: "touching2 p s (FuseCopyInformation p info s)"
  unfolding FuseCopyInformation_def Let_def
proof (rule touching_read(2), rule touching_read(2), rule touching_read(2), rule touching2_bind(2), goal_cases)
  case (1 r sp fo)
  show ?case by (cases "sl_InformationClass sp") (auto intro!: touching2_bind(3) touching_info)
qed (intro touching_cases touching_information)

lemma touching_dir_entry: "touching p s (put_dir_entry p cls info mp n dp k s)"
  unfolding put_dir_entry_def Let_def
  by (rule touching_bind, rule touching_write, rule touching_read, rule touching_bind, rule touching_write, rule touching_read,
      rule touching_bind, rule touching_write, rule touching_cases, rule touching_unit, rule touching_read, rule touching_bind)
    (rule touching_write)+

lemma touches_write: "write_user p off bs s = Some s' \<Longrightarrow> touches p s s'"
  using touching_write(2) by (auto simp: touching_def)

lemma touching_dir_loop: "dir_loop p cls info mp mlen dp len lst s = Some r \<Longrightarrow> touches p s (snd r)"
proof (rule dir_loop.raw_induct [of "\<lambda>p cls info mp mlen dp len lst s r. touches p s (snd r)", rotated])
  fix f p cls info mp mlen dp len lst s r
  assume IH: "\<And>p cls info mp mlen dp len lst s r. f p cls info mp mlen dp len lst s = Some r \<Longrightarrow> touches p s (snd r)"
    and run: "dir_entry_fits (\<lambda>n. sizeof_DIR s + n - 2 + 8) info mp mlen len s \<bind> (\<lambda>e. case e of None \<Rightarrow> Some (lst, s)
      | Some (next_off, name_len) \<Rightarrow> let n = align8 (nat ((int (sizeof_dir (abi s) cls + name_len) - 2 - 2) mod 2 ^ 32)) in
         if len \<ge> long n then put_dir_entry p cls info mp name_len dp n s \<bind> (\<lambda>s.
           f p cls info (mp + next_off) (mlen - (sizeof_DIR s + name_len - 2)) (dp + n) (len - int n) (Some dp) s)
         else write_user p dp (put32 0) s \<bind> (\<lambda>s. write_user p (dp + dir_FileNameLength (abi s)) (put32 0) s \<bind> (\<lambda>s. Some (lst, s)))) = Some r"
  have d: "touches p s s1" if "put_dir_entry p cls info mp n dp k s = Some s1" for n k s1
    using touching_dir_entry that by (auto simp: touching_def)
  obtain e where e: "dir_entry_fits (\<lambda>n. sizeof_DIR s + n - 2 + 8) info mp mlen len s = Some e" using run by (auto simp: bind_eq_Some_conv)
  show "touches p s (snd r)"
  proof (cases e)
    case None
    then show ?thesis using run e by auto
  next
    case (Some x)
    obtain next_off name_len where x: "x = (next_off, name_len)" by fastforce
    show ?thesis using run unfolding e Some x
      by (auto simp: bind_eq_Some_conv Let_def split: if_split_asm dest!: d touches_write IH intro: touches_trans)
  qed
qed

lemma touching_names_loop: "names_loop p info mp mlen dp len lst s = Some r \<Longrightarrow> touches p s (snd r)"
proof (rule names_loop.raw_induct [of "\<lambda>p info mp mlen dp len lst s r. touches p s (snd r)", rotated], goal_cases)
  case (2 f p info mp mlen dp len lst s r)
  obtain e where e: "dir_entry_fits (\<lambda>n. sizeof_names (abi s) + n - 2) info mp mlen len s = Some e" using 2(3) by (auto simp: bind_eq_Some_conv)
  show ?case
  proof (cases e)
    case None
    then show ?thesis using 2(3) e by auto
  next
    case (Some x)
    obtain next_off name_len where x: "x = (next_off, name_len)" by fastforce
    show ?thesis using 2(3) unfolding e Some x
      by (auto simp: bind_eq_Some_conv Let_def dest!: touches_write 2(2)) (meson touches_trans)
  qed
qed

lemma touching_directory: "touching2 p s (FuseCopyDirectoryControl p info mlen s)"
proof -
  have ends: "touches p s s'" if "end_entries p x = Some s'" "touches p s (snd x)" for x s s'
    using that by (cases x; cases "fst x") (auto simp: end_entries_def dest!: touches_write intro: touches_trans)
  have tail: "touching2 p s (dir_loop p cls info mp k dp len lst s \<bind> (\<lambda>x. end_entries p x \<bind> (\<lambda>s. Some (st, s))))"
    "touching2 p s (names_loop p info mp k dp len lst s \<bind> (\<lambda>x. end_entries p x \<bind> (\<lambda>s. Some (st, s))))" for cls mp k dp len lst st s
    by (auto simp: touching2_def bind_eq_Some_conv dest!: touching_dir_loop touching_names_loop ends)
  show ?thesis unfolding FuseCopyDirectoryControl_def Let_def
  proof (rule touching_read(2), rule touching_read(2), rule touching_bind(2), rule touching_map, rule touching_bind(2), rule touching_write, goal_cases)
    case (1 r sp s1 s2)
    show ?case by (cases "sl_InformationClass sp") (simp_all add: tail)
  qed
qed

lemma touching_response: "touching2 p s (copy_response p resp s)"
  unfolding copy_response_def Let_def
proof (rule touching_read(2), rule touching_read(2), rule touching_read(2), rule touching_read(2), goal_cases)
  case (1 u usp status param)
  have a: "touches p s (set_irp p (u\<lparr>ir_Status := status\<rparr>) s)" using 1(1) by (rule touches_set_irp) simp_all
  have b: "touching2 p s x" if "touching2 p (set_irp p (u\<lparr>ir_Status := status\<rparr>) s) x" for x :: "(ntstatus \<times> nt) option"
    using that touches_trans [OF a] by (auto simp: touching2_def)
  show ?case
  proof (rule b, rule touching2_bind(1))
  qed (intro touching_if touching_bind(2) touching_map touching_read(2) touching_write touching_information touching_unit
      touching_copy_info touching_directory)+
qed

subsection \<open>The request a module gets\<close>

lemma length_poke [simp]: "length (poke off bs mem) = length mem"
  by (simp add: poke_def)

lemma take_poke:
  assumes "take off mem = xs" "length xs = off" "off + length bs \<le> length mem"
  shows "take (off + length bs) (poke off bs mem) = xs @ bs"
  using assms by (simp add: poke_def)

lemma length_put_wchars [simp]: "length (put_wchars w) = 2 * length w"
  by (induction w) (simp_all add: put_wchars_def)

definition packet_ok :: "nt_abi \<Rightarrow> irp \<Rightarrow> bool" where
  "packet_ok a r \<longleftrightarrow> length (ir_image r) = sizeof_IRP a \<and> length (ir_stack r) = stack_length a r"

definition request_bytes :: "u64 \<Rightarrow> irp \<Rightarrow> io_stack_location \<Rightarrow> wstring option \<Rightarrow> bytes" where
  "request_bytes p u usp name = put64 p @ put64 (sl_FileObject usp) @ ir_image u @ ir_stack u @
     (case name of Some n \<Rightarrow> put32 (word_of_nat (2 * (length n + 1))) @ put_wchars (n @ [0]) | None \<Rightarrow> [])"

text \<open>A packet whose flags say what it is; writes are left aside.\<close>

definition plain_request :: "irp \<Rightarrow> io_stack_location \<Rightarrow> bool" where
  "plain_request u usp \<longleftrightarrow> (sl_MajorFunction usp = IRP_MJ_CREATE \<longleftrightarrow> ir_Flags u AND IRP_CREATE_OPERATION \<noteq> 0) \<and>
     ir_Flags u AND IRP_WRITE_OPERATION = 0 \<and> sl_MajorFunction usp \<noteq> IRP_MJ_WRITE"

lemma request_size_bytes:
  assumes "request_size u usp s = Some (sz, name)" "plain_request u usp" "packet_ok (abi s) u" "length (request_bytes p u usp name) < 2 ^ 32"
  shows "sz = length (request_bytes p u usp name)" "sl_MajorFunction usp = IRP_MJ_CREATE \<longleftrightarrow> name \<noteq> None"
proof -
  have len: "length (request_bytes p u usp None) = sizeof_FUSENT_REQ (abi s) + stack_length (abi s) u"
    "length (request_bytes p u usp (Some n)) = sizeof_FUSENT_REQ (abi s) + stack_length (abi s) u + 4 + 2 * (length n + 1)" for n
    using assms(3) by (simp_all add: request_bytes_def packet_ok_def sizeof_FUSENT_REQ_def)
  show "sz = length (request_bytes p u usp name)" "sl_MajorFunction usp = IRP_MJ_CREATE \<longleftrightarrow> name \<noteq> None"
    using assms(1,2,4) len by (auto simp: request_size_def Let_def plain_request_def bind_eq_Some_conv split: if_splits)
qed

lemma write_at:
  assumes "irps s q = Some r"
  shows "write_system q off bs s = Some (set_irp q (r\<lparr>ir_SystemBuffer := poke off bs (ir_SystemBuffer r)\<rparr>)
     (s\<lparr>stray := stray s + strays off (length bs) (ir_SystemBuffer r)\<rparr>))"
  using assms by (simp add: write_system_def)

lemma set_irp_simps [simp]:
  "irps (set_irp q r s) = (irps s)(q \<mapsto> r)" "set_irp q r (set_irp q r' s) = set_irp q r s" "abi (set_irp q r s) = abi s"
  "entries (set_irp q r s) = entries s" "mods (set_irp q r s) = mods s" "pool (set_irp q r s) = pool s"
  "completed (set_irp q r s) = completed s" "ModuleMap (set_irp q r s) = ModuleMap s" "fobjs (set_irp q r s) = fobjs s"
  "stray (set_irp q r s) = stray s" "nt_mem (set_irp q r s) = nt_mem s"
  by (simp_all add: set_irp_def)

lemma set_irp_stray: "(set_irp q r s)\<lparr>stray := n\<rparr> = set_irp q r (s\<lparr>stray := n\<rparr>)" "s\<lparr>stray := stray s\<rparr> = s"
  by (simp_all add: set_irp_def)

lemma take_poke_before: "n \<le> off \<Longrightarrow> take n (poke off bs mem) = take n mem"
  by (auto simp: poke_def min_def)

lemma drop_poke: "off + length bs \<le> length mem \<Longrightarrow> take (length bs) (drop off (poke off bs mem)) = bs"
  by (simp add: poke_def)

text \<open>How a request is written into the buffer of a packet of the module, whatever else the state is: the buffer
  after it, and how often memory outside of it is written.\<close>

definition fills :: "u64 \<Rightarrow> irp \<Rightarrow> io_stack_location \<Rightarrow> u64 \<Rightarrow> irp \<Rightarrow> nat \<Rightarrow> wstring option \<Rightarrow> nt_abi \<Rightarrow> bytes \<Rightarrow> nat \<Rightarrow> bool" where
  "fills p u usp q r sz name ab b k \<longleftrightarrow> (\<forall>s mdl pend. abi s = ab \<longrightarrow> irps s q = Some r \<longrightarrow>
     fill_request p (u\<lparr>ir_Mdl := mdl, ir_Pending := pend\<rparr>) usp q sz name s =
       Some (set_irp q (r\<lparr>ir_SystemBuffer := b, ir_Information := sz\<rparr>) (s\<lparr>stray := stray s + k\<rparr>)))"

lemma fillsD:
  "fills p u usp q r sz name (abi s) b k \<Longrightarrow> irps s q = Some r \<Longrightarrow>
     fill_request p u usp q sz name s = Some (set_irp q (r\<lparr>ir_SystemBuffer := b, ir_Information := sz\<rparr>) (s\<lparr>stray := stray s + k\<rparr>))"
  unfolding fills_def by (drule spec [of _ s], drule spec [of _ "ir_Mdl u"], drule spec [of _ "ir_Pending u"]) simp

lemma fills_pending: "fills p u usp q r sz name ab b k \<Longrightarrow> fills p (u\<lparr>ir_Mdl := mdl, ir_Pending := pend\<rparr>) usp q r sz name ab b k"
  unfolding fills_def by simp

text \<open>The part every request has, and what it leaves of the buffer.\<close>

lemma fill_fixed:
  fixes p :: u64 and usp :: io_stack_location
  assumes ok: "packet_ok ab u" and fits: "sizeof_FUSENT_REQ ab + stack_length ab u \<le> length mem"
  defines "b2 \<equiv> poke (sizeof_FUSENT_REQ ab) (ir_stack u) (poke 0 (put64 p @ put64 (sl_FileObject usp) @ ir_image u) mem)"
  shows "take (sizeof_FUSENT_REQ ab + stack_length ab u) b2 = request_bytes p u usp None" "length b2 = length mem"
    "drop (sizeof_FUSENT_REQ ab + stack_length ab u) b2 = drop (sizeof_FUSENT_REQ ab + stack_length ab u) mem"
    "strays 0 (length (put64 p @ put64 (sl_FileObject usp) @ ir_image u)) mem = 0"
    "strays (sizeof_FUSENT_REQ ab) (length (ir_stack u)) (poke 0 (put64 p @ put64 (sl_FileObject usp) @ ir_image u) mem) = 0"
proof -
  let ?A = "put64 p @ put64 (sl_FileObject usp) @ ir_image u"
  have lens: "length ?A = sizeof_FUSENT_REQ ab" "length (ir_stack u) = stack_length ab u"
    using ok by (simp_all add: packet_ok_def sizeof_FUSENT_REQ_def)
  have "take (length ?A) (poke 0 ?A mem) = ?A" using take_poke [of 0 mem "[]" ?A] fits lens by simp
  then show "take (sizeof_FUSENT_REQ ab + stack_length ab u) b2 = request_bytes p u usp None"
    unfolding b2_def using take_poke [of "sizeof_FUSENT_REQ ab" "poke 0 ?A mem" ?A "ir_stack u"] lens fits by (simp add: request_bytes_def)
  show "length b2 = length mem" by (simp add: b2_def)
  show "drop (sizeof_FUSENT_REQ ab + stack_length ab u) b2 = drop (sizeof_FUSENT_REQ ab + stack_length ab u) mem"
    unfolding b2_def using fits lens by (simp add: poke_def add.commute)
  show "strays 0 (length ?A) mem = 0" "strays (sizeof_FUSENT_REQ ab) (length (ir_stack u)) (poke 0 ?A mem) = 0"
    using fits lens by (simp_all only: strays_def length_poke) (simp_all split: if_splits)
qed

lemma fill_plain:
  assumes size: "sz = length (request_bytes p u usp name)" "sl_MajorFunction usp = IRP_MJ_CREATE \<longleftrightarrow> name \<noteq> None"
    and w: "sl_MajorFunction usp \<noteq> IRP_MJ_WRITE" and ok: "packet_ok ab u" and fits: "sz \<le> length (ir_SystemBuffer r)"
  shows "\<exists>b. fills p u usp q r sz name ab b 0 \<and> take sz b = request_bytes p u usp name"
proof -
  let ?fixed = "sizeof_FUSENT_REQ ab + stack_length ab u" and ?mem = "ir_SystemBuffer r"
  let ?A = "put64 p @ put64 (sl_FileObject usp) @ ir_image u"
  let ?b2 = "poke (sizeof_FUSENT_REQ ab) (ir_stack u) (poke 0 ?A ?mem)"
  have len: "length (request_bytes p u usp None) = ?fixed" using ok by (simp add: request_bytes_def packet_ok_def sizeof_FUSENT_REQ_def)
  have fx: "?fixed \<le> length ?mem" using size(1) fits len by (simp add: request_bytes_def)
  note F = fill_fixed [OF ok fx, of p usp]
  have stk: "stack_length a (u\<lparr>ir_Mdl := mdl, ir_Pending := pend\<rparr>) = stack_length a u" for a mdl pend by (simp add: stack_length_def)
  show ?thesis
  proof (cases name)
    case None
    have "fills p u usp q r sz name ab ?b2 0"
      using F(4,5) w size(2) None unfolding fills_def by (auto simp: fill_request_def write_at Let_def stk set_irp_stray)
    then show ?thesis using F(1) size(1) None len by auto
  next
    case (Some n)
    let ?C = "put32 (word_of_nat (2 * (length n + 1))) @ put_wchars (n @ [0])"
    have bytes: "request_bytes p u usp name = request_bytes p u usp None @ ?C" using Some by (simp add: request_bytes_def)
    have room: "?fixed + length ?C \<le> length ?b2" using fits size(1) len F(2) unfolding bytes by simp
    have nostray: "strays ?fixed (length ?C) ?b2 = 0" using room by (simp only: strays_def) simp
    have "fills p u usp q r sz name ab (poke ?fixed ?C ?b2) 0"
      using F(4,5) nostray w size(2) Some unfolding fills_def by (auto simp: fill_request_def write_at Let_def stk set_irp_stray)
    moreover have "take sz (poke ?fixed ?C ?b2) = request_bytes p u usp name"
      using take_poke [OF F(1) _ room] len size(1) unfolding bytes by simp
    ultimately show ?thesis by blast
  qed
qed

text \<open>A write: the length and the data go behind the size that is reported.\<close>

definition write_bytes :: "irp \<Rightarrow> io_stack_location \<Rightarrow> bytes" where
  "write_bytes u usp = put32 (word_of_nat (sl_Length usp)) @ take (sl_Length usp) (ir_SystemBuffer u)"

lemma fill_write:
  assumes w: "sl_MajorFunction usp = IRP_MJ_WRITE" and ok: "packet_ok ab u" and dat: "sl_Length usp \<le> length (ir_SystemBuffer u)"
    and fits: "sizeof_FUSENT_REQ ab + stack_length ab u \<le> sz" "sz \<le> length (ir_SystemBuffer r)"
  shows "\<exists>b. fills p u usp q r sz name ab b (strays sz (4 + sl_Length usp) (ir_SystemBuffer r)) \<and>
     take sz b = request_bytes p u usp None @ take (sz - (sizeof_FUSENT_REQ ab + stack_length ab u)) (drop (sizeof_FUSENT_REQ ab + stack_length ab u) (ir_SystemBuffer r)) \<and>
     (sz + 4 + sl_Length usp \<le> length (ir_SystemBuffer r) \<longrightarrow> take (4 + sl_Length usp) (drop sz b) = write_bytes u usp)"
proof -
  let ?fixed = "sizeof_FUSENT_REQ ab + stack_length ab u" and ?mem = "ir_SystemBuffer r"
  let ?A = "put64 p @ put64 (sl_FileObject usp) @ ir_image u"
  let ?b2 = "poke (sizeof_FUSENT_REQ ab) (ir_stack u) (poke 0 ?A ?mem)"
  let ?W = "write_bytes u usp"
  have lW: "length ?W = 4 + sl_Length usp" using dat by (simp add: write_bytes_def)
  have "?fixed \<le> length ?mem" using fits by simp
  note F = fill_fixed [OF ok this, of p usp]
  have stk: "stack_length a (u\<lparr>ir_Mdl := mdl, ir_Pending := pend\<rparr>) = stack_length a u" for a mdl pend by (simp add: stack_length_def)
  have "peek 0 (sl_Length usp) (ir_SystemBuffer u) = Some (take (sl_Length usp) (ir_SystemBuffer u))" using dat by (simp add: peek_def)
  moreover have "strays sz (length ?W) ?b2 = strays sz (4 + sl_Length usp) ?mem" by (simp add: strays_def lW)
  ultimately have "fills p u usp q r sz name ab (poke sz ?W ?b2) (strays sz (4 + sl_Length usp) ?mem)"
    using F(4,5) w unfolding fills_def by (auto simp: fill_request_def write_at Let_def stk set_irp_stray write_bytes_def [symmetric])
  moreover have "take sz (poke sz ?W ?b2) = request_bytes p u usp None @ take (sz - ?fixed) (drop ?fixed ?mem)"
  proof -
    have "take sz ?b2 = take ?fixed ?b2 @ take (sz - ?fixed) (drop ?fixed ?b2)"
      using fits(1) by (metis le_add_diff_inverse take_add)
    then show ?thesis using F(1,3) by (simp add: take_poke_before)
  qed
  moreover have "take (4 + sl_Length usp) (drop sz (poke sz ?W ?b2)) = ?W" if "sz + 4 + sl_Length usp \<le> length ?mem"
    using drop_poke [of sz ?W ?b2] that lW F(2) by simp
  ultimately show ?thesis by blast
qed

subsection \<open>Handing out work\<close>

text \<open>The first packet of the module can take a request: neither is cancelled, and the request fits.\<close>

definition handable :: "u64 \<Rightarrow> u64 \<Rightarrow> nt \<Rightarrow> irp \<Rightarrow> io_stack_location \<Rightarrow> irp \<Rightarrow> nat \<Rightarrow> wstring option \<Rightarrow> bool" where
  "handable p q s u usp r sz name \<longleftrightarrow> p \<noteq> q \<and> irps s p = Some u \<and> ir_sp u = Some usp \<and> \<not> ir_Cancel u \<and>
     irps s q = Some r \<and> \<not> ir_Cancel r \<and> (\<exists>qsp. ir_sp r = Some qsp \<and> sz \<le> sl_Length qsp \<and> sl_Length qsp \<le> length (ir_SystemBuffer r)) \<and>
     request_size u usp s = Some (sz, name)"

text \<open>The same for a request that is not a write.\<close>

definition ready :: "u64 \<Rightarrow> u64 \<Rightarrow> nt \<Rightarrow> irp \<Rightarrow> io_stack_location \<Rightarrow> irp \<Rightarrow> nat \<Rightarrow> wstring option \<Rightarrow> bool" where
  "ready p q s u usp r sz name \<longleftrightarrow> p \<noteq> q \<and> irps s p = Some u \<and> ir_sp u = Some usp \<and> \<not> ir_Cancel u \<and>
     irps s q = Some r \<and> \<not> ir_Cancel r \<and> (\<exists>qsp. ir_sp r = Some qsp \<and> sz \<le> sl_Length qsp \<and> sl_Length qsp \<le> length (ir_SystemBuffer r)) \<and>
     request_size u usp s = Some (sz, name) \<and> plain_request u usp \<and> packet_ok (abi s) u \<and> length (request_bytes p u usp name) < 2 ^ 32"

lemma ready_handable: "ready p q s u usp r sz name \<Longrightarrow> handable p q s u usp r sz name"
  by (auto simp: ready_def handable_def)

lemma ready_fills:
  assumes "ready p q s u usp r sz name"
  shows "\<exists>b. fills p u usp q r sz name (abi s) b 0 \<and> take sz b = request_bytes p u usp name"
proof -
  have r: "request_size u usp s = Some (sz, name)" "plain_request u usp" "packet_ok (abi s) u" "length (request_bytes p u usp name) < 2 ^ 32"
    "sz \<le> length (ir_SystemBuffer r)" using assms by (auto simp: ready_def)
  show ?thesis using fill_plain [OF request_size_bytes [OF r(1-4)] _ r(3,5)] r(2) by (auto simp: plain_request_def)
qed

lemma queue_pop:
  "queue h first lst (x # xs) \<Longrightarrow> \<exists>n. first = Some (fst x) \<and> h (fst x) = Some \<lparr>el_Irp = snd x, el_Next = n\<rparr> \<and>
     queue h n (if n = None then None else lst) xs"
  by (cases xs) (auto simp: queue_def end_of_def)

lemma queue_nil [simp]: "queue h first lst [] \<longleftrightarrow> first = None \<and> lst = None"
  by (auto simp: queue_def)

text \<open>The entries and the first one of the outstanding list after an entry is put at its end.\<close>

definition out_entries :: "module_struct \<Rightarrow> nat \<Rightarrow> (nat \<Rightarrow> irp_list option) \<Rightarrow> nat \<Rightarrow> irp_list option" where
  "out_entries m ue h = (case OutstandingIrpListEnd m of Some l \<Rightarrow> h(l := map_option (\<lambda>x. x\<lparr>el_Next := Some ue\<rparr>) (h l)) | None \<Rightarrow> h)"

definition out_first :: "module_struct \<Rightarrow> nat \<Rightarrow> nat option" where
  "out_first m ue = (if OutstandingIrpListEnd m = None then Some ue else OutstandingIrpList m)"

text \<open>One round of the loop, with requests behind the one that is handed out.\<close>

lemma work_round_run:
  assumes l: "mod_lists s a fo ((me, q) # ms) ((ue, p) # us) os" and h: "handable p q s u usp r sz name"
    and f: "fills p u usp q r sz name (abi s) b k" and m: "mods s a = Some m"
    and me: "entries s me = Some \<lparr>el_Irp = q, el_Next = n\<rparr>" and ue: "entries s ue = Some \<lparr>el_Irp = p, el_Next = n'\<rparr>"
  shows "work_round a me ue s = Some (s\<lparr>stray := stray s + k, irps := (irps s)(q := None),
      completed := completed s @ [(q, r\<lparr>ir_SystemBuffer := b, ir_Information := sz\<rparr>)], entries := (out_entries m ue (entries s))(me := None),
      mods := (mods s)(a \<mapsto> drop_module ((drop_userspace m n')\<lparr>OutstandingIrpList := out_first m ue, OutstandingIrpListEnd := Some ue\<rparr>) n)\<rparr>)"
proof -
  have qs: "queue (entries s) (OutstandingIrpList m) (OutstandingIrpListEnd m) os" using l m by (auto simp: mod_lists_def)
  have ne: "me \<noteq> ue" "me \<notin> fst ` set os" using l by (auto simp: mod_lists_def)
  have out_end: "OutstandingIrpListEnd m = Some l \<Longrightarrow> l \<noteq> me \<and> (\<exists>x. entries s l = Some x)" for l
    using end_in [of "entries s" "OutstandingIrpList m" l os] qs ne(2) by auto
  have keep: "out_entries m ue (entries s) me = entries s me"
    using out_end by (auto simp: out_entries_def split: option.splits)
  let ?s1 = "set_irp q (r\<lparr>ir_SystemBuffer := b, ir_Information := sz\<rparr>) (s\<lparr>stray := stray s + k\<rparr>)"
  let ?m1 = "drop_userspace m n'"
  have fill: "fill_request p u usp q sz name s = Some ?s1" using fillsD [OF f] h by (simp add: handable_def)
  have add: "add_outstanding a ue (set_mod a ?m1 ?s1) =
      Some (set_mod a (?m1\<lparr>OutstandingIrpList := out_first m ue, OutstandingIrpListEnd := Some ue\<rparr>) (?s1\<lparr>entries := out_entries m ue (entries s)\<rparr>))"
  proof (cases "OutstandingIrpListEnd m")
    case None
    then show ?thesis by (cases s) (simp add: out_entries_def out_first_def add_outstanding_def set_mod_def drop_userspace_def set_irp_def)
  next
    case (Some l)
    then obtain x where "entries s l = Some x" using out_end by blast
    then show ?thesis using Some by (simp add: out_entries_def out_first_def add_outstanding_def set_mod_def drop_userspace_def set_next_def set_irp_def)
  qed
  obtain qsp where qsp: "ir_sp r = Some qsp" "sz \<le> sl_Length qsp" using h by (auto simp: handable_def)
  show ?thesis
    using h fill ue me m add keep qsp unfolding handable_def
    by (simp add: work_round_def free_entry_def IoCompleteRequest_def Let_def) (simp add: set_mod_def set_irp_def)
qed

lemma work_round_hands_out:
  assumes l: "mod_lists s a fo ((me, q) # ms) [(ue, p)] os" and h: "handable p q s u usp r sz name" and f: "fills p u usp q r sz name (abi s) b k"
  shows "\<exists>s'. work_round a me ue s = Some s' \<and> mod_lists s' a fo ms [] (os @ [(ue, p)]) \<and>
     completed s' = completed s @ [(q, r\<lparr>ir_SystemBuffer := b, ir_Information := sz\<rparr>)] \<and>
     irps s' = (irps s)(q := None) \<and> fobjs s' = fobjs s \<and> ModuleMap s' = ModuleMap s \<and> abi s' = abi s \<and> stray s' = stray s + k \<and>
     nt_mem s' = nt_mem s \<and> pool s' = pool s"
proof -
  obtain m where m: "mods s a = Some m" "ModuleFileObject m = fo"
    "queue (entries s) (ModuleIrpList m) (ModuleIrpListEnd m) ((me, q) # ms)"
    "queue (entries s) (UserspaceIrpList m) (UserspaceIrpListEnd m) [(ue, p)]"
    "queue (entries s) (OutstandingIrpList m) (OutstandingIrpListEnd m) os"
    and d: "distinct (map fst (((me, q) # ms) @ [(ue, p)] @ os))" "\<forall>x\<in>set (((me, q) # ms) @ [(ue, p)] @ os). fst x < pool s"
    "\<forall>e\<ge>pool s. entries s e = None"
    using l unfolding mod_lists_def by blast
  have ue: "entries s ue = Some \<lparr>el_Irp = p, el_Next = None\<rparr>" using m(4) by (auto simp: queue_def)
  obtain n where me: "entries s me = Some \<lparr>el_Irp = q, el_Next = n\<rparr>" "queue (entries s) n (if n = None then None else ModuleIrpListEnd m) ms"
    using queue_pop [OF m(3)] by auto
  have ne: "ue \<noteq> me" "ue \<notin> fst ` set os" "me \<notin> fst ` set os" "ue \<notin> fst ` set ms" "me \<notin> fst ` set ms"
    "fst ` set ms \<inter> fst ` set os = {}" using d(1) by auto
  let ?H = "out_entries m ue (entries s)"
  let ?s' = "s\<lparr>stray := stray s + k, irps := (irps s)(q := None),
      completed := completed s @ [(q, r\<lparr>ir_SystemBuffer := b, ir_Information := sz\<rparr>)], entries := ?H(me := None),
      mods := (mods s)(a \<mapsto> drop_module ((drop_userspace m None)\<lparr>OutstandingIrpList := out_first m ue, OutstandingIrpListEnd := Some ue\<rparr>) n)\<rparr>"
  have run: "work_round a me ue s = Some ?s'" by (rule work_round_run [OF l h f m(1) me(1) ue])
  have out_end: "OutstandingIrpListEnd m = Some l \<Longrightarrow> l \<in> fst ` set os \<and> (\<exists>x. entries s l = Some x)" for l
    using end_in [of "entries s" "OutstandingIrpList m" l os] m(5) by simp
  have above: "e \<ge> pool s \<Longrightarrow> ?H e = None" for e
    using out_end d(3) by (auto simp: out_entries_def split: option.splits)
  have outs: "queue ?H (out_first m ue) (Some ue) (os @ [(ue, p)])"
  proof -
    have same: "(entries s)(ue \<mapsto> \<lparr>el_Irp = p, el_Next = None\<rparr>) = entries s" using ue by (simp add: fun_upd_idem)
    show ?thesis
    proof (cases "os = []")
      case True
      then show ?thesis using m(5) ue by (simp add: queue_def end_of_def out_entries_def out_first_def)
    next
      case False
      then have "links ((entries s)(fst (last os) \<mapsto> \<lparr>el_Irp = snd (last os), el_Next = Some ue\<rparr>)) (OutstandingIrpList m) (os @ [(ue, p)])"
        using links_snoc [of "entries s" "OutstandingIrpList m" os ue p] m(5) ne(2) by (simp add: queue_def same)
      moreover have "OutstandingIrpListEnd m = Some (fst (last os))" using m(5) False by (simp add: queue_def end_of_def)
      ultimately show ?thesis using m(5) False ne(2) links_last [of "entries s" "OutstandingIrpList m" os]
        by (simp add: queue_def out_entries_def out_first_def end_of_def)
    qed
  qed
  have mods': "queue ?H n (if n = None then None else ModuleIrpListEnd m) ms"
  proof (cases "OutstandingIrpListEnd m")
    case (Some l)
    then have "l \<notin> fst ` set ms" using out_end ne(6) by blast
    then show ?thesis using me(2) Some by (simp add: out_entries_def queue_other)
  qed (use me(2) in \<open>simp add: out_entries_def\<close>)
  have "mod_lists ?s' a fo ms [] (os @ [(ue, p)])"
    using m(2) d ne outs mods' above unfolding mod_lists_def
    by (auto simp: drop_module_def drop_userspace_def queue_other)
  then show ?thesis using run by (intro exI [of _ ?s']) simp
qed

lemma work_loop_idle:
  assumes "mod_lists s a fo ms us os" "ms = [] \<or> us = []"
  shows "work_loop a infl found s = Some (found, s)"
proof -
  obtain m where "mods s a = Some m" "queue (entries s) (ModuleIrpList m) (ModuleIrpListEnd m) ms"
    "queue (entries s) (UserspaceIrpList m) (UserspaceIrpListEnd m) us"
    using assms(1) by (auto simp: mod_lists_def)
  then show ?thesis using assms(2) by (subst work_loop.simps) (auto split: option.splits)
qed

lemma work_loop_hands_out:
  assumes l: "mod_lists s a fo ((me, q) # ms) [(ue, p)] os" and h: "handable p q s u usp r sz name" and f: "fills p u usp q r sz name (abi s) b k"
  shows "\<exists>s'. work_loop a infl found s = Some (found \<or> infl = Some q, s') \<and> mod_lists s' a fo ms [] (os @ [(ue, p)]) \<and>
     completed s' = completed s @ [(q, r\<lparr>ir_SystemBuffer := b, ir_Information := sz\<rparr>)] \<and>
     irps s' = (irps s)(q := None) \<and> fobjs s' = fobjs s \<and> ModuleMap s' = ModuleMap s \<and> abi s' = abi s \<and> stray s' = stray s + k \<and>
     nt_mem s' = nt_mem s \<and> pool s' = pool s"
proof -
  obtain m where m: "mods s a = Some m" "ModuleIrpList m = Some me" "UserspaceIrpList m = Some ue" "\<exists>n. entries s me = Some \<lparr>el_Irp = q, el_Next = n\<rparr>"
    using l by (auto simp: mod_lists_def queue_def)
  have infl: "in_flight me infl s \<longleftrightarrow> infl = Some q" using m(4) by (auto simp: in_flight_def)
  obtain s' where s': "work_round a me ue s = Some s'" "mod_lists s' a fo ms [] (os @ [(ue, p)])"
    "completed s' = completed s @ [(q, r\<lparr>ir_SystemBuffer := b, ir_Information := sz\<rparr>)]"
    "irps s' = (irps s)(q := None)" "fobjs s' = fobjs s" "ModuleMap s' = ModuleMap s" "abi s' = abi s" "stray s' = stray s + k"
    "nt_mem s' = nt_mem s" "pool s' = pool s"
    using work_round_hands_out [OF l h f] by blast
  have "work_loop a infl found s = Some (found \<or> infl = Some q, s')"
    using m s'(1) work_loop_idle [OF s'(2)] by (subst work_loop.simps) (simp add: infl)
  then show ?thesis using s' by blast
qed

text \<open>The module an application's file is on.\<close>

definition file_on :: "nt \<Rightarrow> file_object \<Rightarrow> nat \<Rightarrow> bool" where
  "file_on s fob a \<longleftrightarrow> fo_Length fob > 0 \<and> (\<exists>mem len. FuseExtractModuleName fob = Some (mem, len) \<and> len \<le> length mem \<and>
     hmap_get (ModuleMap s) (takeWhile (\<lambda>c. c \<noteq> 0) (take len mem)) = Some (Some a))"

text \<open>The state of an application's packet once it is queued: its buffer is locked, and it is pending.\<close>

lemma prepost_ok:
  assumes "irps s p = Some u" "ir_sp u = Some usp" "nt_mem s = []"
  shows "\<exists>mdl pr. FusePrePostIrp p s = Some (set_irp p (u\<lparr>ir_Mdl := mdl\<rparr>) (s\<lparr>probe_ok := pr\<rparr>))"
proof (cases "locks_buffer usp \<and> \<not> ir_Mdl u")
  case True
  obtain locked pr where "alloc (probe_ok s) = (locked, pr)" by fastforce
  then show ?thesis using assms True
    by (intro exI [of _ locked] exI [of _ pr], cases s) (simp add: FusePrePostIrp_def FuseLockUserBuffer_def)
next
  case False
  have "set_irp p (u\<lparr>ir_Mdl := ir_Mdl u\<rparr>) (s\<lparr>probe_ok := probe_ok s\<rparr>) = s"
    using assms(1) by (cases s) (simp add: set_irp_def fun_upd_idem)
  moreover have "FusePrePostIrp p s = Some s"
    using assms False by (auto simp: FusePrePostIrp_def FuseLockUserBuffer_def)
  ultimately show ?thesis by metis
qed

lemma handable_pending:
  assumes "handable p q s u usp r sz name" "irps s' = (irps s)(p \<mapsto> u\<lparr>ir_Mdl := mdl, ir_Pending := pend\<rparr>)" "abi s' = abi s" "fobjs s' = fobjs s"
  shows "handable p q s' (u\<lparr>ir_Mdl := mdl, ir_Pending := pend\<rparr>) usp r sz name"
proof -
  have "request_size (u\<lparr>ir_Mdl := mdl, ir_Pending := pend\<rparr>) usp s' = request_size u usp s"
    using assms(3,4) by (simp add: request_size_def stack_length_def Let_def)
  then show ?thesis using assms by (auto simp: handable_def)
qed

lemma handable_same:
  assumes "handable p q s u usp r sz name" "irps s' p = irps s p" "irps s' q = irps s q" "abi s' = abi s" "fobjs s' = fobjs s"
  shows "handable p q s' u usp r sz name"
proof -
  have "request_size u usp s' = request_size u usp s" by (simp only: request_size_def assms(4,5))
  then show ?thesis using assms by (simp add: handable_def)
qed

lemma userspace_irp_handed:
  assumes "mod_lists s a fo ((me, q) # ms) [] os" "handable p q s u usp r sz name" "fills p u usp q r sz name (abi s) b k"
    and "fobjs s (sl_FileObject usp) = Some fob" "file_on s fob a" "nt_mem s = []"
  shows "\<exists>s' mdl e. FuseAddUserspaceIrp p s = Some (STATUS_PENDING, s') \<and> mod_lists s' a fo ms [] (os @ [(e, p)]) \<and>
     completed s' = completed s @ [(q, r\<lparr>ir_SystemBuffer := b, ir_Information := sz\<rparr>)] \<and>
     irps s' = (irps s)(p \<mapsto> u\<lparr>ir_Mdl := mdl, ir_Pending := True\<rparr>, q := None) \<and>
     stray s' = stray s + k \<and> fobjs s' = fobjs s \<and> ModuleMap s' = ModuleMap s \<and> nt_mem s' = []"
proof -
  obtain mem len where f: "fo_Length fob > 0" "FuseExtractModuleName fob = Some (mem, len)" "len \<le> length mem"
    "hmap_get (ModuleMap s) (takeWhile (\<lambda>c. c \<noteq> 0) (take len mem)) = Some (Some a)"
    using assms(5) by (auto simp: file_on_def)
  have u: "irps s p = Some u" "ir_sp u = Some usp" "p \<noteq> q" using assms(2) by (simp_all add: handable_def)
  let ?s1 = "s\<lparr>pool := Suc (pool s)\<rparr>"
  have "mod_lists ?s1 a fo ((me, q) # ms) [] os" by (rule mod_lists_mono [OF assms(1)]) simp_all
  then obtain es m where add: "FuseAddIrpToModuleList p a False ?s1 = Some (True, ?s1\<lparr>pool := Suc (pool ?s1), entries := es, mods := (mods ?s1)(a \<mapsto> m)\<rparr>)"
    "mod_lists (?s1\<lparr>pool := Suc (pool ?s1), entries := es, mods := (mods ?s1)(a \<mapsto> m)\<rparr>) a fo ((me, q) # ms) [(pool ?s1, p)] os"
    using add_entry [of ?s1 a fo "(me, q) # ms" "[]" os p u False] u(1) assms(6) by auto
  let ?s2 = "?s1\<lparr>pool := Suc (pool ?s1), entries := es, mods := (mods ?s1)(a \<mapsto> m)\<rparr>"
  obtain mdl pr where pre: "FusePrePostIrp p ?s2 = Some (set_irp p (u\<lparr>ir_Mdl := mdl\<rparr>) (?s2\<lparr>probe_ok := pr\<rparr>))"
    using prepost_ok [of ?s2 p u usp] u assms(6) by auto
  let ?u = "u\<lparr>ir_Mdl := mdl, ir_Pending := True\<rparr>"
  let ?s4 = "set_irp p ?u (?s2\<lparr>probe_ok := pr\<rparr>)"
  have mark: "IoMarkIrpPending p (set_irp p (u\<lparr>ir_Mdl := mdl\<rparr>) (?s2\<lparr>probe_ok := pr\<rparr>)) = Some ?s4"
    by (simp add: IoMarkIrpPending_def)
  have "mod_lists ?s4 a fo ((me, q) # ms) [(pool ?s1, p)] os" by (rule mod_lists_mono [OF add(2)]) simp_all
  moreover have "handable p q ?s4 ?u usp r sz name" by (rule handable_pending [OF assms(2)]) simp_all
  moreover have "fills p ?u usp q r sz name (abi ?s4) b k" using fills_pending [OF assms(3)] by simp
  ultimately obtain s' where s': "work_loop a None False ?s4 = Some (False, s')" "mod_lists s' a fo ms [] (os @ [(pool ?s1, p)])"
    "completed s' = completed ?s4 @ [(q, r\<lparr>ir_SystemBuffer := b, ir_Information := sz\<rparr>)]"
    "irps s' = (irps ?s4)(q := None)" "stray s' = stray ?s4 + k" "fobjs s' = fobjs ?s4" "ModuleMap s' = ModuleMap ?s4" "nt_mem s' = nt_mem ?s4"
    using work_loop_hands_out [where infl = None and found = False and s = ?s4] by fastforce
  have "FuseAddUserspaceIrp p s = Some (STATUS_PENDING, s')"
    using u(1,2) assms(4) f add(1) pre mark s'(1)
    by (simp add: FuseAddUserspaceIrp_def FuseAllocateModuleName_def nt_alloc_ok [OF assms(6)] copy_name_def FuseCheckForWork_def)
  then show ?thesis using s'(2-8) u(3) assms(6)
    by (intro exI [of _ s'] exI [of _ mdl] exI [of _ "pool ?s1"]) simp
qed

text \<open>A packet whose flags say what it is, and whose request has a length that fits into 32 bits.\<close>

definition tagged :: "irp \<Rightarrow> io_stack_location \<Rightarrow> bool" where
  "tagged u usp \<longleftrightarrow> (sl_MajorFunction usp = IRP_MJ_CREATE \<longleftrightarrow> ir_Flags u AND IRP_CREATE_OPERATION \<noteq> 0) \<and>
     (sl_MajorFunction usp = IRP_MJ_WRITE \<longleftrightarrow> ir_Flags u AND IRP_WRITE_OPERATION \<noteq> 0)"

definition request_length :: "nt_abi \<Rightarrow> irp \<Rightarrow> io_stack_location \<Rightarrow> wstring option \<Rightarrow> nat" where
  "request_length ab u usp name = sizeof_FUSENT_REQ ab + stack_length ab u +
     (case name of Some n \<Rightarrow> 4 + 2 * (length n + 1) | None \<Rightarrow> if sl_MajorFunction usp = IRP_MJ_WRITE then 12 + sl_Length usp else 0)"

text \<open>What the module gets with a request, in the buffer \<open>b\<close> that was \<open>old\<close> before; \<open>k\<close> counts the writes behind the buffer.\<close>

definition delivered :: "nt_abi \<Rightarrow> u64 \<Rightarrow> irp \<Rightarrow> io_stack_location \<Rightarrow> nat \<Rightarrow> wstring option \<Rightarrow> bytes \<Rightarrow> bytes \<Rightarrow> nat \<Rightarrow> bool" where
  "delivered ab p u usp sz name old b k \<longleftrightarrow>
     (if sl_MajorFunction usp = IRP_MJ_WRITE
      then take sz b = request_bytes p u usp None @ take (12 + sl_Length usp) (drop (sizeof_FUSENT_REQ ab + stack_length ab u) old) \<and>
        (if sz + 4 + sl_Length usp \<le> length old then take (4 + sl_Length usp) (drop sz b) = write_bytes u usp \<and> k = 0 else k = 1)
      else take sz b = request_bytes p u usp name \<and> k = 0)"

lemma request_filled:
  assumes h: "handable p q s u usp r sz name" and t: "tagged u usp" and ok: "packet_ok (abi s) u"
    and len: "request_length (abi s) u usp name < 2 ^ 32" and dat: "sl_MajorFunction usp = IRP_MJ_WRITE \<longrightarrow> sl_Length usp \<le> length (ir_SystemBuffer u)"
  shows "sz = request_length (abi s) u usp name \<and>
     (\<exists>b k. fills p u usp q r sz name (abi s) b k \<and> delivered (abi s) p u usp sz name (ir_SystemBuffer r) b k)"
proof -
  have req: "request_size u usp s = Some (sz, name)" and fits: "sz \<le> length (ir_SystemBuffer r)" using h by (auto simp: handable_def)
  have create: "sl_MajorFunction usp = IRP_MJ_CREATE \<longleftrightarrow> name \<noteq> None"
    using req t by (auto simp: request_size_def Let_def tagged_def bind_eq_Some_conv split: if_splits)
  have sz: "sz = request_length (abi s) u usp name"
    using req t len by (auto simp: request_size_def request_length_def Let_def tagged_def bind_eq_Some_conv split: if_splits option.splits)
  show ?thesis
  proof (cases "sl_MajorFunction usp = IRP_MJ_WRITE")
    case True
    let ?fixed = "sizeof_FUSENT_REQ (abi s) + stack_length (abi s) u"
    have w: "sl_Length usp \<le> length (ir_SystemBuffer u)" using dat True by simp
    have n: "sz = ?fixed + (12 + sl_Length usp)" using sz create True by (simp add: request_length_def split: option.splits)
    then have "?fixed \<le> sz" "sz - ?fixed = 12 + sl_Length usp" by simp_all
    then obtain b where "fills p u usp q r sz name (abi s) b (strays sz (4 + sl_Length usp) (ir_SystemBuffer r))"
      "take sz b = request_bytes p u usp None @ take (12 + sl_Length usp) (drop ?fixed (ir_SystemBuffer r))"
      "sz + 4 + sl_Length usp \<le> length (ir_SystemBuffer r) \<longrightarrow> take (4 + sl_Length usp) (drop sz b) = write_bytes u usp"
      using fill_write [OF True ok w _ fits, of p q name] by auto
    then show ?thesis using sz True
      by (intro conjI exI [of _ b] exI [of _ "strays sz (4 + sl_Length usp) (ir_SystemBuffer r)"]) (auto simp: delivered_def strays_def)
  next
    case False
    have "sz = length (request_bytes p u usp name)" using sz ok False
      by (auto simp: request_length_def request_bytes_def packet_ok_def sizeof_FUSENT_REQ_def split: option.splits)
    then show ?thesis using fill_plain [OF _ create False ok fits, of p q] sz False by (auto simp: delivered_def)
  qed
qed

text \<open>
  C29: a request of an application reaches the module. When no request is waiting and the first packet the module
  waits with is large enough for it, the request is pending, and that packet, and no other, is completed with it and with its size: with
  the address of the application's packet, its file object, its image and stack and, for an open, the name
  without the module, all inside the buffer of the module. The request is then the last of the ones the module works on.
  A write is handed out as well, but the 12 bytes and the data its size accounts for are the ones the buffer had before; its length and its data are written behind them, at the end of the reported
  size, and memory outside of the buffer is written if they do not fit there. The flags of the packet are those of its kind, and the size does not exceed 32 bits.
\<close>

theorem request_reaches_module:
  assumes "mod_lists s a fo ((me, q) # ms) [] os" "handable p q s u usp r sz name" "tagged u usp" "packet_ok (abi s) u"
    and "request_length (abi s) u usp name < 2 ^ 32" "sl_MajorFunction usp = IRP_MJ_WRITE \<longrightarrow> sl_Length usp \<le> length (ir_SystemBuffer u)"
    and "fobjs s (sl_FileObject usp) = Some fob" "file_on s fob a" "nt_mem s = []"
  shows "\<exists>s' b k u' e. FuseAddUserspaceIrp p s = Some (STATUS_PENDING, s') \<and> mod_lists s' a fo ms [] (os @ [(e, p)]) \<and>
     completed s' = completed s @ [(q, r\<lparr>ir_SystemBuffer := b, ir_Information := sz\<rparr>)] \<and> irps s' = (irps s)(p \<mapsto> u', q := None) \<and> ir_Pending u' \<and>
     sz = request_length (abi s) u usp name \<and> delivered (abi s) p u usp sz name (ir_SystemBuffer r) b k \<and> stray s' = stray s + k"
proof -
  obtain b k where b: "sz = request_length (abi s) u usp name" "fills p u usp q r sz name (abi s) b k" "delivered (abi s) p u usp sz name (ir_SystemBuffer r) b k"
    using request_filled [OF assms(2-6)] by blast
  obtain s' mdl e where "FuseAddUserspaceIrp p s = Some (STATUS_PENDING, s')" "mod_lists s' a fo ms [] (os @ [(e, p)])"
    "completed s' = completed s @ [(q, r\<lparr>ir_SystemBuffer := b, ir_Information := sz\<rparr>)]"
    "irps s' = (irps s)(p \<mapsto> u\<lparr>ir_Mdl := mdl, ir_Pending := True\<rparr>, q := None)" "stray s' = stray s + k"
    using userspace_irp_handed [OF assms(1,2) b(2) assms(7-9)] by blast
  then show ?thesis using b(1,3) by (intro exI [of _ s'] exI [of _ b] exI [of _ k] exI [of _ "u\<lparr>ir_Mdl := mdl, ir_Pending := True\<rparr>"] exI [of _ e]) simp
qed

subsection \<open>Responses\<close>

lemma find_outstanding_links:
  assumes "links (entries s) cur xs"
  shows "p \<notin> snd ` set xs \<Longrightarrow> find_outstanding p cur prev s = Some None"
    "xs = ys @ (e, p) # zs \<Longrightarrow> p \<notin> snd ` set ys \<Longrightarrow>
       find_outstanding p cur prev s = Some (Some (if ys = [] then prev else Some (fst (last ys)), e))"
proof -
  show "find_outstanding p cur prev s = Some None" if "p \<notin> snd ` set xs"
    using assms that by (induction xs arbitrary: cur prev) (auto simp: find_outstanding.simps [of p _ _ s])
  show "find_outstanding p cur prev s = Some (Some (if ys = [] then prev else Some (fst (last ys)), e))"
    if "xs = ys @ (e, p) # zs" "p \<notin> snd ` set ys"
    using assms that by (induction ys arbitrary: xs cur prev) (auto simp: find_outstanding.simps [of p _ _ s])
qed

lemma queue_removed:
  assumes q: "queue h first lst (ys @ (e, p) # zs)" and x: "h e = Some x"
  shows "ys = [] \<Longrightarrow> queue (h(e := None)) (el_Next x) (if el_Next x = None then None else lst) zs"
    "ys \<noteq> [] \<Longrightarrow> \<exists>y. h (fst (last ys)) = Some y \<and> fst (last ys) \<noteq> e \<and>
       queue (h(fst (last ys) \<mapsto> y\<lparr>el_Next := el_Next x\<rparr>, e := None)) first (if el_Next x = None then Some (fst (last ys)) else lst) (ys @ zs)"
proof -
  have e: "e \<notin> fst ` set ys" "e \<notin> fst ` set zs" using q by (auto simp: queue_def)
  have x': "x = \<lparr>el_Irp = p, el_Next = el_Next x\<rparr>" and zs: "links h (el_Next x) zs"
    using q x links_mid [of h first ys e p zs] by (auto simp: queue_def)
  have n: "el_Next x = None \<longleftrightarrow> zs = []" using zs by (cases zs) auto
  show "queue (h(e := None)) (el_Next x) (if el_Next x = None then None else lst) zs" if "ys = []"
    using q that zs e(2) n by (auto simp: queue_def links_other end_of_def)
  show "\<exists>y. h (fst (last ys)) = Some y \<and> fst (last ys) \<noteq> e \<and>
       queue (h(fst (last ys) \<mapsto> y\<lparr>el_Next := el_Next x\<rparr>, e := None)) first (if el_Next x = None then Some (fst (last ys)) else lst) (ys @ zs)"
    if ne: "ys \<noteq> []"
  proof -
    have ls: "links h first (ys @ (e, p) # zs)" and d: "distinct (map fst (ys @ (e, p) # zs))" using q by (auto simp: queue_def)
    have "(fst (last ys), snd (last ys)) \<in> set (ys @ (e, p) # zs)" using ne by simp
    then obtain n' where y: "h (fst (last ys)) = Some \<lparr>el_Irp = snd (last ys), el_Next = n'\<rparr>" using links_entry [OF ls] by blast
    have le: "fst (last ys) \<noteq> e" using e(1) last_fst [OF ne] by metis
    have "links (h(fst (last ys) := Some \<lparr>el_Irp = snd (last ys), el_Next = el_Next x\<rparr>)) first (ys @ zs)"
      using links_remove [OF ls ne d, of "el_Next x"] x x' by simp
    moreover have "e \<notin> fst ` set (ys @ zs)" using e by auto
    ultimately have "links (h(fst (last ys) := Some \<lparr>el_Irp = snd (last ys), el_Next = el_Next x\<rparr>, e := None)) first (ys @ zs)"
      using links_other [of e "ys @ zs"] by blast
    then show ?thesis using y le d n ne q by (auto simp: queue_def end_of_def)
  qed
qed

lemma remove_outstanding_lists:
  assumes l: "mod_lists s a fo ms us (ys @ (e, p) # zs)"
  shows "\<exists>m es. remove_outstanding a (if ys = [] then None else Some (fst (last ys))) e s = Some (s\<lparr>mods := (mods s)(a \<mapsto> m), entries := es\<rparr>) \<and>
     mod_lists (s\<lparr>mods := (mods s)(a \<mapsto> m), entries := es\<rparr>) a fo ms us (ys @ zs)"
proof -
  obtain m where m: "mods s a = Some m" "ModuleFileObject m = fo"
    "queue (entries s) (ModuleIrpList m) (ModuleIrpListEnd m) ms" "queue (entries s) (UserspaceIrpList m) (UserspaceIrpListEnd m) us"
    "queue (entries s) (OutstandingIrpList m) (OutstandingIrpListEnd m) (ys @ (e, p) # zs)"
    and d: "distinct (map fst (ms @ us @ (ys @ (e, p) # zs)))" "\<forall>x\<in>set (ms @ us @ (ys @ (e, p) # zs)). fst x < pool s" "\<forall>e\<ge>pool s. entries s e = None"
    using l unfolding mod_lists_def by blast
  obtain x where x: "entries s e = Some x" using m(5) links_entry [of "entries s" "OutstandingIrpList m" "ys @ (e, p) # zs" e p] by (auto simp: queue_def)
  have e: "e \<notin> fst ` set ms" "e \<notin> fst ` set us" using d(1) by auto
  note q = queue_removed [OF m(5) x]
  show ?thesis
  proof (cases "ys = []")
    case True
    let ?m = "m\<lparr>OutstandingIrpList := el_Next x, OutstandingIrpListEnd := (if el_Next x = None then None else OutstandingIrpListEnd m)\<rparr>"
    let ?es = "(entries s)(e := None)"
    have "remove_outstanding a None e s = Some (s\<lparr>mods := (mods s)(a \<mapsto> ?m), entries := ?es\<rparr>)"
      using m(1) x by (simp add: remove_outstanding_def free_entry_def set_mod_def)
    moreover have "mod_lists (s\<lparr>mods := (mods s)(a \<mapsto> ?m), entries := ?es\<rparr>) a fo ms us (ys @ zs)"
      using m q(1) [OF True] d True e by (auto simp: mod_lists_def queue_other)
    ultimately show ?thesis using True by (intro exI [of _ ?m] exI [of _ ?es]) simp
  next
    case False
    obtain y where y: "entries s (fst (last ys)) = Some y" "fst (last ys) \<noteq> e"
      "queue ((entries s)(fst (last ys) \<mapsto> y\<lparr>el_Next := el_Next x\<rparr>, e := None)) (OutstandingIrpList m)
         (if el_Next x = None then Some (fst (last ys)) else OutstandingIrpListEnd m) (ys @ zs)"
      using q(2) [OF False] by blast
    let ?l = "fst (last ys)"
    let ?m = "m\<lparr>OutstandingIrpListEnd := (if el_Next x = None then Some ?l else OutstandingIrpListEnd m)\<rparr>"
    let ?es = "(entries s)(?l \<mapsto> y\<lparr>el_Next := el_Next x\<rparr>, e := None)"
    have "?l \<in> fst ` set ys" by (rule last_fst [OF False])
    then have l: "?l \<notin> fst ` set ms" "?l \<notin> fst ` set us" using d(1) by auto
    have lp: "?l < pool s" using d(2) False by simp
    have "remove_outstanding a (Some ?l) e s = Some (s\<lparr>mods := (mods s)(a \<mapsto> ?m), entries := ?es\<rparr>)"
      using m(1) x y(1,2) by (simp add: remove_outstanding_def free_entry_def set_mod_def set_next_def)
    moreover have "mod_lists (s\<lparr>mods := (mods s)(a \<mapsto> ?m), entries := ?es\<rparr>) a fo ms us (ys @ zs)"
      using m y(3) d e l lp by (auto simp: mod_lists_def queue_other)
    ultimately show ?thesis using False by (intro exI [of _ ?m] exI [of _ ?es]) simp
  qed
qed

text \<open>What a response makes of the packet it is for, when that asks neither for information nor for a directory: its
  status, the number of bytes read or written, and the bytes that were read.\<close>

definition answered :: "io_stack_location \<Rightarrow> ntstatus \<Rightarrow> nat \<Rightarrow> bytes \<Rightarrow> irp \<Rightarrow> irp" where
  "answered usp status n resp u =
     (if NT_SUCCESS status \<and> sl_MajorFunction usp = IRP_MJ_READ then
        if n \<le> sl_Length usp then u\<lparr>ir_Status := status, ir_UserBuffer := poke 0 (take n (drop 28 resp)) (ir_UserBuffer u), ir_Information := n\<rparr>
        else u\<lparr>ir_Status := STATUS_INVALID_BUFFER_SIZE\<rparr>
      else if NT_SUCCESS status \<and> sl_MajorFunction usp = IRP_MJ_WRITE then u\<lparr>ir_Status := status, ir_Information := n\<rparr>
      else u\<lparr>ir_Status := status\<rparr>)"

definition response_for :: "bytes \<Rightarrow> u64 \<Rightarrow> ntstatus \<Rightarrow> nat \<Rightarrow> bool" where
  "response_for resp p status n \<longleftrightarrow> resp_pirp resp = Some p \<and> resp_status resp = Some status \<and>
     (\<exists>param. resp_param resp = Some param \<and> n = unat param) \<and> 28 + n \<le> length resp"

lemma copy_response_plain:
  assumes u: "irps s p = Some u" "ir_sp u = Some usp" and r: "response_for resp p status n" and mem: "nt_mem s = []"
    and major: "sl_MajorFunction usp \<noteq> IRP_MJ_QUERY_INFORMATION" "sl_MajorFunction usp \<noteq> IRP_MJ_DIRECTORY_CONTROL"
    and user: "sl_Length usp \<le> length (ir_UserBuffer u)"
  shows "copy_response p resp s = Some (if ir_Status (answered usp status n resp u) = status then STATUS_SUCCESS else STATUS_INVALID_BUFFER_SIZE,
     set_irp p (answered usp status n resp u) s)"
proof -
  obtain param where param: "resp_param resp = Some param" "n = unat param" using r by (auto simp: response_for_def)
  have r': "resp_status resp = Some status" "28 + n \<le> length resp" using r by (simp_all add: response_for_def)
  let ?s1 = "set_irp p (u\<lparr>ir_Status := status\<rparr>) s"
  have map: "FuseMapUserBuffer p ?s1 = Some ?s1"
    using mem by (cases s) (simp add: FuseMapUserBuffer_def set_irp_def)
  have bad: "NT_SUCCESS status \<Longrightarrow> status \<noteq> STATUS_INVALID_BUFFER_SIZE" by (auto simp: NT_SUCCESS_def sint_uint)
  have set2: "set_irp p x (set_irp p y s) = set_irp p x s" for x y by (simp add: set_irp_def)
  note simps = copy_response_def u r'(1) param(1) set2 param(2) [symmetric]
  consider (read) "NT_SUCCESS status" "sl_MajorFunction usp = IRP_MJ_READ" "n \<le> sl_Length usp"
    | (too_long) "NT_SUCCESS status" "sl_MajorFunction usp = IRP_MJ_READ" "\<not> n \<le> sl_Length usp"
    | (written) "NT_SUCCESS status" "sl_MajorFunction usp = IRP_MJ_WRITE"
    | (other) "\<not> (NT_SUCCESS status \<and> sl_MajorFunction usp = IRP_MJ_READ)" "\<not> (NT_SUCCESS status \<and> sl_MajorFunction usp = IRP_MJ_WRITE)"
    by blast
  then show ?thesis
  proof cases
    case read
    have "write_user p 0 (take n (drop 28 resp)) ?s1 =
        Some (set_irp p (u\<lparr>ir_Status := status, ir_UserBuffer := poke 0 (take n (drop 28 resp)) (ir_UserBuffer u)\<rparr>) s)"
      using r'(2) read(3) user by (simp add: write_user_def strays_def set_irp_def)
    then show ?thesis using read r'(2) by (simp add: simps map peek_def answered_def)
  next
    case too_long
    then show ?thesis using bad by (simp add: simps map answered_def)
  next
    case written
    then show ?thesis by (simp add: simps answered_def)
  next
    case other
    then show ?thesis using major by (cases "NT_SUCCESS status") (simp_all add: simps answered_def)
  qed
qed

text \<open>A control packet a module sends through the file object it was mounted with.\<close>

definition module_packet :: "nt \<Rightarrow> nat \<Rightarrow> u64 \<Rightarrow> u32 \<Rightarrow> u64 \<Rightarrow> irp \<Rightarrow> io_stack_location \<Rightarrow> bool" where
  "module_packet s a fo code w rw wsp \<longleftrightarrow> irps s w = Some rw \<and> ir_sp rw = Some wsp \<and> sl_FsControlCode wsp = code \<and> sl_FileObject wsp = fo \<and>
     (\<exists>fob name. fobjs s fo = Some fob \<and> 1 < fo_Length fob \<and> name_of_module fob = Some name \<and> hmap_get (ModuleMap s) name = Some (Some a))"

lemma control_packet:
  assumes "module_packet s a fo code w rw wsp" "mods s a = Some m" "ModuleFileObject m = fo"
  shows "code = IRP_FUSE_MODULE_RESPONSE \<Longrightarrow> FuseFsdFileSystemControl w s = do { (status, s) \<leftarrow> FuseCopyResponse a w wsp s; s \<leftarrow> IoCompleteRequest w s; Some (status, s) }"
    "code = IRP_FUSE_MODULE_REQUEST \<Longrightarrow> FuseFsdFileSystemControl w s = FuseModuleRequest w a s"
  using assms by (auto simp: module_packet_def FuseFsdFileSystemControl_def)

lemma control_request:
  assumes "module_packet s a fo IRP_FUSE_MODULE_REQUEST w rw wsp" "mod_lists s a fo ms us os"
  shows "FuseFsdFileSystemControl w s = FuseModuleRequest w a s"
  using control_packet(2) [OF assms(1)] assms(2) by (auto simp: mod_lists_def)

text \<open>The packet of a response is completed last.\<close>

lemma control_response:
  assumes w: "module_packet s a fo IRP_FUSE_MODULE_RESPONSE w rw wsp" and l: "mod_lists s a fo ms us os"
    and copy: "FuseCopyResponse a w wsp s = Some (status, s1)" "irps s1 w = irps s w" "mod_lists s1 a fo ms' us' os'"
  shows "\<exists>s'. FuseFsdFileSystemControl w s = Some (status, s') \<and> s' = s1\<lparr>completed := completed s1 @ [(w, rw)], irps := (irps s1)(w := None)\<rparr> \<and>
     mod_lists s' a fo ms' us' os'"
proof -
  obtain m where "mods s a = Some m" "ModuleFileObject m = fo" using l by (auto simp: mod_lists_def)
  then have "FuseFsdFileSystemControl w s = Some (status, s1\<lparr>completed := completed s1 @ [(w, rw)], irps := (irps s1)(w := None)\<rparr>)"
    using control_packet(1) [OF w] w copy by (simp add: module_packet_def IoCompleteRequest_def)
  moreover have "mod_lists (s1\<lparr>completed := completed s1 @ [(w, rw)], irps := (irps s1)(w := None)\<rparr>) a fo ms' us' os'"
    by (rule mod_lists_mono [OF copy(3)]) simp_all
  ultimately show ?thesis by simp
qed

lemma response_completes:
  assumes l: "mod_lists s a fo ms us (ys @ (e, p) # zs)" and first: "p \<notin> snd ` set ys"
    and w: "irps s w = Some rw" "32 \<le> sl_InputBufferLength wsp" "resp_pirp (ir_SystemBuffer rw) = Some p"
    and u: "irps s p = Some u" "\<not> ir_Cancel u"
    and copy: "copy_response p (ir_SystemBuffer rw) s = Some (status, s1)"
  shows "\<exists>s' u'. FuseCopyResponse a w wsp s = Some (status, s') \<and> irps s1 p = Some u' \<and> mod_lists s' a fo ms us (ys @ zs) \<and>
     completed s' = completed s @ [(p, u')] \<and> irps s' = (irps s)(p := None) \<and> ModuleMap s' = ModuleMap s \<and> fobjs s' = fobjs s \<and>
     stray s' = stray s1"
proof -
  obtain m where m: "mods s a = Some m" "queue (entries s) (OutstandingIrpList m) (OutstandingIrpListEnd m) (ys @ (e, p) # zs)"
    using l unfolding mod_lists_def by blast
  have found: "find_outstanding p (OutstandingIrpList m) None s = Some (Some (if ys = [] then None else Some (fst (last ys)), e))"
    using find_outstanding_links(2) [OF _ refl first] m(2) by (auto simp: queue_def)
  have t: "touches p s s1" using touching_response copy by (auto simp: touching2_def)
  then obtain u' where u': "irps s1 p = Some u'" using touches_live u(1) by blast
  let ?s2 = "s1\<lparr>completed := completed s1 @ [(p, u')], irps := (irps s1)(p := None)\<rparr>"
  have "mod_lists ?s2 a fo ms us (ys @ (e, p) # zs)" using t by (intro mod_lists_mono [OF l]) (simp_all add: touches_def)
  then obtain m' es where rem: "remove_outstanding a (if ys = [] then None else Some (fst (last ys))) e ?s2 = Some (?s2\<lparr>mods := (mods ?s2)(a \<mapsto> m'), entries := es\<rparr>)"
    "mod_lists (?s2\<lparr>mods := (mods ?s2)(a \<mapsto> m'), entries := es\<rparr>) a fo ms us (ys @ zs)"
    using remove_outstanding_lists by blast
  let ?s' = "?s2\<lparr>mods := (mods ?s2)(a \<mapsto> m'), entries := es\<rparr>"
  have "FuseCopyResponse a w wsp s = Some (status, ?s')"
    using w u m(1) found copy u' rem(1) by (simp add: FuseCopyResponse_def IoCompleteRequest_def)
  moreover have "(irps s1)(p := None) = (irps s)(p := None)" using t by (auto simp: touches_def)
  ultimately show ?thesis using rem(2) u' t by (intro exI [of _ ?s'] exI [of _ u']) (simp add: touches_def)
qed

text \<open>The response to a cancelled packet cuts the list behind its entry.\<close>

lemma response_cancelled:
  assumes l: "mod_lists s a fo ms us (ys @ (e, p) # zs)" and first: "p \<notin> snd ` set ys"
    and w: "irps s w = Some rw" "32 \<le> sl_InputBufferLength wsp" "resp_pirp (ir_SystemBuffer rw) = Some p"
    and u: "irps s p = Some u" "ir_Cancel u"
  shows "\<exists>m. FuseCopyResponse a w wsp s = Some (STATUS_CANCELLED, set_mod a m s) \<and> mod_lists (set_mod a m s) a fo ms us zs"
proof -
  obtain m where m: "mods s a = Some m" "ModuleFileObject m = fo"
    "queue (entries s) (ModuleIrpList m) (ModuleIrpListEnd m) ms" "queue (entries s) (UserspaceIrpList m) (UserspaceIrpListEnd m) us"
    "queue (entries s) (OutstandingIrpList m) (OutstandingIrpListEnd m) (ys @ (e, p) # zs)"
    and d: "distinct (map fst (ms @ us @ (ys @ (e, p) # zs)))" "\<forall>x\<in>set (ms @ us @ (ys @ (e, p) # zs)). fst x < pool s" "\<forall>e\<ge>pool s. entries s e = None"
    using l unfolding mod_lists_def by blast
  have found: "find_outstanding p (OutstandingIrpList m) None s = Some (Some (if ys = [] then None else Some (fst (last ys)), e))"
    using find_outstanding_links(2) [OF _ refl first] m(5) by (auto simp: queue_def)
  obtain n where n: "entries s e = Some \<lparr>el_Irp = p, el_Next = n\<rparr>" "links (entries s) n zs"
    using m(5) links_mid unfolding queue_def by blast
  have zs: "n = None \<longleftrightarrow> zs = []" using n(2) by (cases zs) auto
  have lst: "zs \<noteq> [] \<Longrightarrow> OutstandingIrpListEnd m = end_of zs" using m(5) by (simp add: queue_def end_of_def)
  let ?m = "m\<lparr>OutstandingIrpList := n, OutstandingIrpListEnd := (if n = None then None else OutstandingIrpListEnd m)\<rparr>"
  have "FuseCopyResponse a w wsp s = Some (STATUS_CANCELLED, set_mod a ?m s)" using w u m(1) found n(1) by (simp add: FuseCopyResponse_def)
  moreover have "mod_lists (set_mod a ?m s) a fo ms us zs"
    using m(2-5) d n(2) zs lst by (auto simp: mod_lists_def set_mod_def queue_def)
  ultimately show ?thesis by blast
qed


lemma response_found:
  assumes l: "mod_lists s a fo ms us (ys @ (e, p) # zs)" "p \<notin> snd ` set ys" and w: "module_packet s a fo IRP_FUSE_MODULE_RESPONSE w rw wsp"
    and len: "32 \<le> sl_InputBufferLength wsp" "resp_pirp (ir_SystemBuffer rw) = Some p" and u: "irps s p = Some u" "w \<noteq> p"
  shows "ir_Cancel u \<Longrightarrow> \<exists>s'. FuseFsdFileSystemControl w s = Some (STATUS_CANCELLED, s') \<and> mod_lists s' a fo ms us zs \<and>
       completed s' = completed s @ [(w, rw)] \<and> irps s' = (irps s)(w := None) \<and> entries s' = entries s"
    "\<not> ir_Cancel u \<Longrightarrow> copy_response p (ir_SystemBuffer rw) s = Some (status, s1) \<Longrightarrow>
       \<exists>s' u'. FuseFsdFileSystemControl w s = Some (status, s') \<and> irps s1 p = Some u' \<and> mod_lists s' a fo ms us (ys @ zs) \<and>
         completed s' = completed s @ [(p, u'), (w, rw)] \<and> irps s' = (irps s)(p := None, w := None) \<and> stray s' = stray s1"
proof -
  have rw: "irps s w = Some rw" using w by (simp add: module_packet_def)
  show "\<exists>s'. FuseFsdFileSystemControl w s = Some (STATUS_CANCELLED, s') \<and> mod_lists s' a fo ms us zs \<and>
      completed s' = completed s @ [(w, rw)] \<and> irps s' = (irps s)(w := None) \<and> entries s' = entries s" if c: "ir_Cancel u"
  proof -
    obtain m where m: "FuseCopyResponse a w wsp s = Some (STATUS_CANCELLED, set_mod a m s)" "mod_lists (set_mod a m s) a fo ms us zs"
      using response_cancelled [OF l rw len u(1) c] by blast
    show ?thesis using control_response [OF w l(1) m(1) _ m(2)] by (auto simp: set_mod_def)
  qed
  show "\<exists>s' u'. FuseFsdFileSystemControl w s = Some (status, s') \<and> irps s1 p = Some u' \<and> mod_lists s' a fo ms us (ys @ zs) \<and>
      completed s' = completed s @ [(p, u'), (w, rw)] \<and> irps s' = (irps s)(p := None, w := None) \<and> stray s' = stray s1"
    if c: "\<not> ir_Cancel u" "copy_response p (ir_SystemBuffer rw) s = Some (status, s1)"
  proof -
    obtain s2 u' where s2: "FuseCopyResponse a w wsp s = Some (status, s2)" "irps s1 p = Some u'" "mod_lists s2 a fo ms us (ys @ zs)"
      "completed s2 = completed s @ [(p, u')]" "irps s2 = (irps s)(p := None)" "stray s2 = stray s1"
      using response_completes [OF l rw len u(1) c] by blast
    have "irps s2 w = irps s w" using s2(5) u(2) by simp
    from control_response [OF w l(1) s2(1) this s2(3)] show ?thesis using s2 by auto
  qed
qed

lemma response_plain:
  assumes l: "mod_lists s a fo ms us (ys @ (e, p) # zs)" "p \<notin> snd ` set ys" and w: "module_packet s a fo IRP_FUSE_MODULE_RESPONSE w rw wsp"
    and len: "32 \<le> sl_InputBufferLength wsp" "response_for (ir_SystemBuffer rw) p status n" and u: "irps s p = Some u" "w \<noteq> p" "ir_sp u = Some usp" "\<not> ir_Cancel u"
      "nt_mem s = []" "sl_MajorFunction usp \<notin> {IRP_MJ_QUERY_INFORMATION, IRP_MJ_DIRECTORY_CONTROL}" "sl_Length usp \<le> length (ir_UserBuffer u)"
  shows "\<exists>s' res. FuseFsdFileSystemControl w s = Some (res, s') \<and> mod_lists s' a fo ms us (ys @ zs) \<and>
     completed s' = completed s @ [(p, answered usp status n (ir_SystemBuffer rw) u), (w, rw)] \<and>
     irps s' = (irps s)(p := None, w := None) \<and> stray s' = stray s"
proof -
  have majors: "sl_MajorFunction usp \<noteq> IRP_MJ_QUERY_INFORMATION" "sl_MajorFunction usp \<noteq> IRP_MJ_DIRECTORY_CONTROL" using u(6) by auto
  have pirp: "resp_pirp (ir_SystemBuffer rw) = Some p" using len(2) by (simp add: response_for_def)
  show ?thesis using response_found(2) [OF l w len(1) pirp u(1,2,4) copy_response_plain [OF u(1,3) len(2) u(5) majors u(7)]] by auto
qed


lemma module_asks_cases:
  assumes "mod_lists s a fo ms us os" "module_packet s a fo IRP_FUSE_MODULE_REQUEST w rw wsp" "nt_mem s = []"
  shows "sl_Length wsp < sizeof_FUSENT_REQ (abi s) + stack_length (abi s) rw \<Longrightarrow> FuseFsdFileSystemControl w s =
       Some (STATUS_INVALID_USER_BUFFER, s\<lparr>completed := completed s @ [(w, rw)], irps := (irps s)(w := None)\<rparr>)"
    "sizeof_FUSENT_REQ (abi s) + stack_length (abi s) rw \<le> sl_Length wsp \<Longrightarrow> us = [] \<Longrightarrow>
       \<exists>s' e r'. FuseFsdFileSystemControl w s = Some (STATUS_PENDING, s') \<and> mod_lists s' a fo (ms @ [(e, w)]) [] os \<and>
         completed s' = completed s \<and> irps s' = (irps s)(w \<mapsto> r') \<and> ir_Pending r'"
    "sizeof_FUSENT_REQ (abi s) + stack_length (abi s) rw \<le> sl_Length wsp \<Longrightarrow> us = [(ue, p)] \<Longrightarrow> ms = [] \<Longrightarrow>
       ready p w s u usp rw sz name \<Longrightarrow>
       \<exists>s' b. FuseFsdFileSystemControl w s = Some (STATUS_SUCCESS, s') \<and> mod_lists s' a fo [] [] (os @ [(ue, p)]) \<and>
         completed s' = completed s @ [(w, rw\<lparr>ir_SystemBuffer := b, ir_Information := sz\<rparr>)] \<and>
         take sz b = request_bytes p u usp name \<and> irps s' = (irps s)(w := None) \<and> stray s' = stray s"
proof -
  have w: "irps s w = Some rw" "ir_sp rw = Some wsp" using assms(2) by (simp_all add: module_packet_def)
  note run = control_request [OF assms(2,1)] FuseModuleRequest_def
  show "FuseFsdFileSystemControl w s = Some (STATUS_INVALID_USER_BUFFER, s\<lparr>completed := completed s @ [(w, rw)], irps := (irps s)(w := None)\<rparr>)"
    if "sl_Length wsp < sizeof_FUSENT_REQ (abi s) + stack_length (abi s) rw"
    using w that by (simp add: run FuseAddIrpToModuleList_def IoCompleteRequest_def stack_length_def)
  have added: "\<exists>es m. FuseAddIrpToModuleList w a True s = Some (True, s\<lparr>pool := Suc (pool s), entries := es, mods := (mods s)(a \<mapsto> m)\<rparr>) \<and>
      mod_lists (s\<lparr>pool := Suc (pool s), entries := es, mods := (mods s)(a \<mapsto> m)\<rparr>) a fo (ms @ [(pool s, w)]) us os"
    if "sizeof_FUSENT_REQ (abi s) + stack_length (abi s) rw \<le> sl_Length wsp"
    using add_entry [OF assms(1) w(1) assms(3), where to_module = True] w(2) that by auto
  show "\<exists>s' e r'. FuseFsdFileSystemControl w s = Some (STATUS_PENDING, s') \<and> mod_lists s' a fo (ms @ [(e, w)]) [] os \<and>
      completed s' = completed s \<and> irps s' = (irps s)(w \<mapsto> r') \<and> ir_Pending r'"
    if fits: "sizeof_FUSENT_REQ (abi s) + stack_length (abi s) rw \<le> sl_Length wsp" and us: "us = []"
  proof -
    obtain es m where add: "FuseAddIrpToModuleList w a True s = Some (True, s\<lparr>pool := Suc (pool s), entries := es, mods := (mods s)(a \<mapsto> m)\<rparr>)"
      "mod_lists (s\<lparr>pool := Suc (pool s), entries := es, mods := (mods s)(a \<mapsto> m)\<rparr>) a fo (ms @ [(pool s, w)]) us os"
      using added [OF fits] by blast
    let ?s1 = "s\<lparr>pool := Suc (pool s), entries := es, mods := (mods s)(a \<mapsto> m)\<rparr>"
    obtain mdl pr where pre: "FusePrePostIrp w ?s1 = Some (set_irp w (rw\<lparr>ir_Mdl := mdl\<rparr>) (?s1\<lparr>probe_ok := pr\<rparr>))"
      using prepost_ok [of ?s1 w rw wsp] w assms(3) by auto
    let ?s' = "set_irp w (rw\<lparr>ir_Mdl := mdl, ir_Pending := True\<rparr>) (?s1\<lparr>probe_ok := pr\<rparr>)"
    have "FuseFsdFileSystemControl w s = Some (STATUS_PENDING, ?s')"
      using add(1) pre work_loop_idle [OF add(2)] us by (simp add: run FuseCheckForWork_def IoMarkIrpPending_def)
    moreover have "mod_lists ?s' a fo (ms @ [(pool s, w)]) [] os" using add(2) unfolding us by (rule mod_lists_mono) simp_all
    ultimately show ?thesis
      by (intro exI [of _ ?s'] exI [of _ "pool s"] exI [of _ "rw\<lparr>ir_Mdl := mdl, ir_Pending := True\<rparr>"]) simp
  qed
  show "\<exists>s' b. FuseFsdFileSystemControl w s = Some (STATUS_SUCCESS, s') \<and> mod_lists s' a fo [] [] (os @ [(ue, p)]) \<and>
      completed s' = completed s @ [(w, rw\<lparr>ir_SystemBuffer := b, ir_Information := sz\<rparr>)] \<and>
      take sz b = request_bytes p u usp name \<and> irps s' = (irps s)(w := None) \<and> stray s' = stray s"
    if fits: "sizeof_FUSENT_REQ (abi s) + stack_length (abi s) rw \<le> sl_Length wsp" and l: "us = [(ue, p)]" "ms = []"
      and r: "ready p w s u usp rw sz name"
  proof -
    obtain es m where add: "FuseAddIrpToModuleList w a True s = Some (True, s\<lparr>pool := Suc (pool s), entries := es, mods := (mods s)(a \<mapsto> m)\<rparr>)"
      "mod_lists (s\<lparr>pool := Suc (pool s), entries := es, mods := (mods s)(a \<mapsto> m)\<rparr>) a fo (ms @ [(pool s, w)]) us os"
      using added [OF fits] by blast
    let ?s1 = "s\<lparr>pool := Suc (pool s), entries := es, mods := (mods s)(a \<mapsto> m)\<rparr>"
    obtain b where b: "fills p u usp w rw sz name (abi ?s1) b 0" "take sz b = request_bytes p u usp name" using ready_fills [OF r] by auto
    have h: "handable p w ?s1 u usp rw sz name" by (rule handable_same [OF ready_handable [OF r]]) simp_all
    obtain s' where s': "work_loop a (Some w) False ?s1 = Some (True, s')" "mod_lists s' a fo [] [] (os @ [(ue, p)])"
      "completed s' = completed s @ [(w, rw\<lparr>ir_SystemBuffer := b, ir_Information := sz\<rparr>)]" "irps s' = (irps s)(w := None)" "stray s' = stray s"
      using work_loop_hands_out [OF _ h b(1), where infl = "Some w" and found = False] add(2) unfolding l by fastforce
    then show ?thesis using b(2) add(1) by (intro exI [of _ s'] exI [of _ b]) (simp add: run FuseCheckForWork_def)
  qed
qed

text \<open>
  C30: a module that asks for work. A packet too small for any request is refused. With no request waiting the packet is queued
  behind the other packets of the module and pending. With one request waiting that fits, and no
  other packet, it is completed at once, with the request, and the request is among the ones the module works on.
\<close>

theorem module_asks:
  assumes "mod_lists s a fo ms us os" "module_packet s a fo IRP_FUSE_MODULE_REQUEST w rw wsp" "nt_mem s = []"
  shows "if sl_Length wsp < sizeof_FUSENT_REQ (abi s) + stack_length (abi s) rw
     then FuseFsdFileSystemControl w s = Some (STATUS_INVALID_USER_BUFFER, s\<lparr>completed := completed s @ [(w, rw)], irps := (irps s)(w := None)\<rparr>)
     else (us = [] \<longrightarrow> (\<exists>s' e r'. FuseFsdFileSystemControl w s = Some (STATUS_PENDING, s') \<and> mod_lists s' a fo (ms @ [(e, w)]) [] os \<and>
         completed s' = completed s \<and> irps s' = (irps s)(w \<mapsto> r') \<and> ir_Pending r')) \<and>
       (\<forall>ue p u usp sz name. us = [(ue, p)] \<and> ms = [] \<and> ready p w s u usp rw sz name \<longrightarrow>
         (\<exists>s' b. FuseFsdFileSystemControl w s = Some (STATUS_SUCCESS, s') \<and> mod_lists s' a fo [] [] (os @ [(ue, p)]) \<and>
           completed s' = completed s @ [(w, rw\<lparr>ir_SystemBuffer := b, ir_Information := sz\<rparr>)] \<and>
           take sz b = request_bytes p u usp name \<and> irps s' = (irps s)(w := None) \<and> stray s' = stray s))"
  using module_asks_cases [OF assms] by (auto simp: not_less)

subsection \<open>A read, from the application to the module and back\<close>

text \<open>An answer the way the protocol has it, and the library for modules sends it: a \<open>FUSENT_RESP\<close>, with its four bytes of
  padding, and the data that was read behind it.\<close>

definition read_reply :: "u64 \<Rightarrow> u64 \<Rightarrow> u32 \<Rightarrow> ntstatus \<Rightarrow> bytes \<Rightarrow> bytes \<Rightarrow> bytes" where
  "read_reply pirp fop err status pad dat = put64 pirp @ put64 fop @ put32 err @ put32 status @ put32 (word_of_nat (length dat)) @ pad @ dat"

lemma response_for_read_reply:
  assumes "length dat < 2 ^ 32" "length pad = 4"
  shows "response_for (read_reply p fop err status pad dat) p status (length dat)" "drop 28 (read_reply p fop err status pad dat) = pad @ dat"
proof -
  have "unat (word_of_nat (length dat) :: 32 word) = length dat" using assms(1) by (simp add: unat_of_nat take_bit_eq_mod)
  then show "response_for (read_reply p fop err status pad dat) p status (length dat)"
    by (simp add: response_for_def resp_pirp_def resp_status_def resp_param_def read_reply_def)
  show "drop 28 (read_reply p fop err status pad dat) = pad @ dat" by (simp add: read_reply_def)
qed

text \<open>The request a module finds in its buffer begins with the address of the packet.\<close>

lemma request_pirp:
  assumes "take sz b = request_bytes p u usp name"
  shows "resp_pirp b = Some p"
proof -
  have "8 \<le> length (take sz b)" unfolding assms by (simp add: request_bytes_def)
  then have n: "8 \<le> sz" "8 \<le> length b" by simp_all
  have "take 8 b = take 8 (take sz b)" using n(1) by (simp add: min_def)
  then have "take 8 b = put64 p" unfolding assms by (simp add: request_bytes_def)
  then have "b = put64 p @ drop 8 b" by (metis append_take_drop_id)
  moreover have "get64 0 (put64 p @ drop 8 b) = Some p" by simp
  ultimately show ?thesis unfolding resp_pirp_def by metis
qed

text \<open>
  C14: a read on its way to the module and back. An application reads from a file of a module that waits for
  work: the read is pending and the module gets a packet that begins with the address of the read. Whatever response the module then
  gives for that address, with at most as many bytes as were asked for, the read is completed with the status of the response and, where that is a
  success, with this many bytes, the ones from offset 28 of the response, at the front of the application's buffer. A response the way
  \<open>fusent_proto.h\<close> and \<open>fusent_reply_read\<close> lay it out has its data at offset 32: the application then
  gets the four bytes of padding and the data without its last four bytes.
\<close>

theorem read_answered:
  assumes "mod_lists s a fo ((me, q) # ms) [] os" "ready p q s u usp r sz name" "p \<notin> snd ` set os"
    and "fobjs s (sl_FileObject usp) = Some fob" "file_on s fob a" "nt_mem s = []"
    and "sl_MajorFunction usp = IRP_MJ_READ" "0 < sl_Length usp" "sl_Length usp < 2 ^ 32" "sl_Length usp \<le> length (ir_UserBuffer u)"
    and "module_packet s a fo IRP_FUSE_MODULE_RESPONSE w rw wsp" "w \<noteq> p" "w \<noteq> q" "32 \<le> sl_InputBufferLength wsp"
  shows "\<exists>s1 b. FuseFsdRead p s = Some (STATUS_PENDING, s1) \<and>
     completed s1 = completed s @ [(q, r\<lparr>ir_SystemBuffer := b, ir_Information := sz\<rparr>)] \<and> resp_pirp b = Some p \<and>
     (\<forall>resp status n. response_for resp p status n \<and> n \<le> sl_Length usp \<longrightarrow>
        (let rw' = rw\<lparr>ir_SystemBuffer := resp\<rparr> in
         \<exists>s2 res u'. FuseFsdFileSystemControl w (set_irp w rw' s1) = Some (res, s2) \<and> mod_lists s2 a fo ms [] os \<and>
           completed s2 = completed s1 @ [(p, u'), (w, rw')] \<and> ir_Status u' = status \<and>
           (NT_SUCCESS status \<longrightarrow> ir_Information u' = n \<and> take n (ir_UserBuffer u') = take n (drop 28 resp) \<and>
              (\<forall>fop err pad dat. resp = read_reply p fop err status pad dat \<and> length pad = 4 \<and> length dat = n \<longrightarrow>
                 take n (ir_UserBuffer u') = take n (pad @ dat))) \<and>
           irps s2 = (irps s)(p := None, q := None, w := None) \<and> stray s2 = stray s))"
proof -
  have u: "irps s p = Some u" "ir_sp u = Some usp" "\<not> ir_Cancel u" "p \<noteq> q" using assms(2) by (simp_all add: ready_def)
  obtain b where b: "fills p u usp q r sz name (abi s) b 0" "take sz b = request_bytes p u usp name" using ready_fills [OF assms(2)] by blast
  obtain s1 mdl e where s1: "FuseAddUserspaceIrp p s = Some (STATUS_PENDING, s1)" "mod_lists s1 a fo ms [] (os @ [(e, p)])"
    "completed s1 = completed s @ [(q, r\<lparr>ir_SystemBuffer := b, ir_Information := sz\<rparr>)]"
    "irps s1 = (irps s)(p \<mapsto> u\<lparr>ir_Mdl := mdl, ir_Pending := True\<rparr>, q := None)" "stray s1 = stray s" "fobjs s1 = fobjs s"
    "ModuleMap s1 = ModuleMap s" "nt_mem s1 = []"
    using userspace_irp_handed [OF assms(1) ready_handable [OF assms(2)] b(1) assms(4-6)] by auto
  let ?u = "u\<lparr>ir_Mdl := mdl, ir_Pending := True\<rparr>"
  have read: "FuseFsdRead p s = Some (STATUS_PENDING, s1)" using u s1(1) assms(8) by (simp add: FuseFsdRead_def unless_empty_def)
  have answer: "\<exists>s2 res u'. FuseFsdFileSystemControl w (set_irp w (rw\<lparr>ir_SystemBuffer := resp\<rparr>) s1) = Some (res, s2) \<and> mod_lists s2 a fo ms [] os \<and>
           completed s2 = completed s1 @ [(p, u'), (w, rw\<lparr>ir_SystemBuffer := resp\<rparr>)] \<and> ir_Status u' = status \<and>
           (NT_SUCCESS status \<longrightarrow> ir_Information u' = n \<and> take n (ir_UserBuffer u') = take n (drop 28 resp) \<and>
              (\<forall>fop err pad dat. resp = read_reply p fop err status pad dat \<and> length pad = 4 \<and> length dat = n \<longrightarrow>
                 take n (ir_UserBuffer u') = take n (pad @ dat))) \<and>
           irps s2 = (irps s)(p := None, q := None, w := None) \<and> stray s2 = stray s"
    if resp: "response_for resp p status n" "n \<le> sl_Length usp" for resp status n
  proof -
    let ?rw = "rw\<lparr>ir_SystemBuffer := resp\<rparr>"
    let ?s = "set_irp w ?rw s1" and ?u' = "answered usp status n resp ?u"
    have l: "mod_lists ?s a fo ms [] (os @ (e, p) # [])" by (rule mod_lists_mono [OF s1(2)]) simp_all
    have w: "module_packet ?s a fo IRP_FUSE_MODULE_RESPONSE w ?rw wsp" using assms(11) s1(6,7) by (simp add: module_packet_def)
    have at_p: "irps ?s p = Some ?u" using assms(12) u(4) s1(4) by simp
    obtain s2 res where s2: "FuseFsdFileSystemControl w ?s = Some (res, s2)" "mod_lists s2 a fo ms [] os"
      "completed s2 = completed ?s @ [(p, ?u'), (w, ?rw)]" "irps s2 = (irps ?s)(p := None, w := None)" "stray s2 = stray ?s"
      using response_plain [OF l assms(3) w assms(14) _ at_p assms(12), of status n usp] resp(1) u(2,3) s1(8) assms(7,10) by auto
    have "28 + n \<le> length resp" using resp(1) by (simp add: response_for_def)
    then have ok: "ir_Status ?u' = status" "NT_SUCCESS status \<Longrightarrow> ir_Information ?u' = n" "NT_SUCCESS status \<Longrightarrow> take n (ir_UserBuffer ?u') = take n (drop 28 resp)"
      using assms(7,10) resp(2) by (simp_all add: answered_def poke_def)
    have "resp = read_reply p fop err status pad dat \<Longrightarrow> length pad = 4 \<Longrightarrow> length dat = n \<Longrightarrow> drop 28 resp = pad @ dat" for fop err pad dat
      using response_for_read_reply(2) [of dat pad p fop err status] resp(2) assms(9) by simp
    moreover have "irps s2 = (irps s)(p := None, q := None, w := None)" using s2(4) s1(4) by auto
    ultimately show ?thesis using s2(1-3,5) s1(5) ok by (intro exI [of _ s2] exI [of _ res] exI [of _ ?u']) auto
  qed
  show ?thesis unfolding Let_def using read s1(3) answer request_pirp [OF b(2)] by blast
qed

subsection \<open>Requests that pile up\<close>

text \<open>The state after a module has asked for work while two requests or more are waiting: the entry of the first one, \<open>e1\<close>, is the last of the
  outstanding ones, but still linked to the entry of the second one, which is the first of the waiting ones.\<close>

definition entangled :: "nt \<Rightarrow> nat \<Rightarrow> u64 \<Rightarrow> nat \<Rightarrow> u64 \<Rightarrow> nat \<Rightarrow> u64 \<Rightarrow> (nat \<times> u64) list \<Rightarrow> bool" where
  "entangled s a fo e1 p1 e2 p2 os \<longleftrightarrow> e1 \<noteq> e2 \<and> e1 \<noteq> pool s \<and> e2 \<noteq> pool s \<and> e1 \<notin> fst ` set os \<and> e2 \<notin> fst ` set os \<and>
     (\<exists>n. entries s e2 = Some \<lparr>el_Irp = p2, el_Next = n\<rparr>) \<and> entries s e1 = Some \<lparr>el_Irp = p1, el_Next = Some e2\<rparr> \<and>
     (\<forall>x\<in>set os. entries s (fst x) \<noteq> None) \<and>
     (\<exists>m xs. mods s a = Some m \<and> ModuleFileObject m = fo \<and> ModuleIrpList m = None \<and> ModuleIrpListEnd m = None \<and>
        UserspaceIrpList m = Some e2 \<and> OutstandingIrpListEnd m = Some e1 \<and> links (entries s) (OutstandingIrpList m) (os @ (e1, p1) # xs))"

lemma links_append:
  assumes "links h p xs" "distinct (map fst xs)" "xs \<noteq> []" "links h (Some e) ys" "fst (last xs) \<notin> fst ` set ys"
  shows "links (h(fst (last xs) := Some \<lparr>el_Irp = snd (last xs), el_Next = Some e\<rparr>)) p (xs @ ys)"
  using assms
proof (induction xs arbitrary: p)
  case (Cons x xs)
  show ?case
  proof (cases "xs = []")
    case True
    then show ?thesis using Cons.prems links_other [of "fst x" ys h] by (simp del: fun_upd_apply) (simp add: fun_upd_same)
  next
    case False
    have "fst x \<notin> fst ` set xs" using Cons.prems(2) by simp
    then have "fst (last xs) \<noteq> fst x" using last_fst [OF False] by metis
    then show ?thesis using Cons False by auto
  qed
qed simp

lemma out_entries_links:
  assumes q: "queue h (OutstandingIrpList m) (OutstandingIrpListEnd m) os" and u: "links h (Some e) ys" "fst ` set os \<inter> fst ` set ys = {}"
  shows "links (out_entries m e h) (out_first m e) (os @ ys)" "x \<notin> fst ` set os \<Longrightarrow> out_entries m e h x = h x" "out_entries m e h x = None \<longleftrightarrow> h x = None"
proof -
  have end_os: "OutstandingIrpListEnd m = end_of os" and ls: "links h (OutstandingIrpList m) os" "distinct (map fst os)" using q by (simp_all add: queue_def)
  show "links (out_entries m e h) (out_first m e) (os @ ys)"
  proof (cases "os = []")
    case True
    then show ?thesis using end_os u(1) by (simp add: out_entries_def out_first_def)
  next
    case False
    have "fst (last os) \<notin> fst ` set ys" using last_fst [OF False] u(2) by blast
    then show ?thesis using links_append [OF ls False u(1)] links_last [OF ls(1) False] end_os False
      by (simp add: out_entries_def out_first_def end_of_def)
  qed
  show "out_entries m e h x = h x" if "x \<notin> fst ` set os"
    using that end_os last_fst [of os] by (cases "os = []") (auto simp: out_entries_def end_of_def)
  show "out_entries m e h x = None \<longleftrightarrow> h x = None" by (auto simp: out_entries_def split: option.splits)
qed

lemma backlog_first:
  assumes l: "mod_lists s a fo [] ((e1, p1) # (e2, p2) # us) os" and w: "module_packet s a fo IRP_FUSE_MODULE_REQUEST w rw wsp" "nt_mem s = []"
    and fits: "sizeof_FUSENT_REQ (abi s) + stack_length (abi s) rw \<le> sl_Length wsp" and r: "ready p1 w s u usp rw sz name"
  shows "\<exists>s' b. FuseFsdFileSystemControl w s = Some (STATUS_SUCCESS, s') \<and> entangled s' a fo e1 p1 e2 p2 os \<and> take sz b = request_bytes p1 u usp name \<and>
     completed s' = completed s @ [(w, rw\<lparr>ir_SystemBuffer := b, ir_Information := sz\<rparr>)] \<and> irps s' = (irps s)(w := None) \<and>
     ModuleMap s' = ModuleMap s \<and> fobjs s' = fobjs s \<and> abi s' = abi s \<and> nt_mem s' = []"
proof -
  have rw: "irps s w = Some rw" "ir_sp rw = Some wsp" using w by (simp_all add: module_packet_def)
  obtain es m where add: "FuseAddIrpToModuleList w a True s = Some (True, s\<lparr>pool := Suc (pool s), entries := es, mods := (mods s)(a \<mapsto> m)\<rparr>)"
    "mod_lists (s\<lparr>pool := Suc (pool s), entries := es, mods := (mods s)(a \<mapsto> m)\<rparr>) a fo [(pool s, w)] ((e1, p1) # (e2, p2) # us) os"
    using add_entry [OF l rw(1) w(2), where to_module = True] rw(2) fits by auto
  let ?s1 = "s\<lparr>pool := Suc (pool s), entries := es, mods := (mods s)(a \<mapsto> m)\<rparr>" and ?us = "(e1, p1) # (e2, p2) # us"
  have m: "ModuleFileObject m = fo" "queue es (ModuleIrpList m) (ModuleIrpListEnd m) [(pool s, w)]" "queue es (UserspaceIrpList m) (UserspaceIrpListEnd m) ?us"
    "queue es (OutstandingIrpList m) (OutstandingIrpListEnd m) os" and d: "distinct (map fst ([(pool s, w)] @ ?us @ os))"
    and lt: "\<forall>x\<in>set ([(pool s, w)] @ ?us @ os). fst x < Suc (pool s)"
    using add(2) unfolding mod_lists_def by auto
  obtain b where b: "fills p1 u usp w rw sz name (abi ?s1) b 0" "take sz b = request_bytes p1 u usp name" using ready_fills [OF r] by auto
  have h: "handable p1 w ?s1 u usp rw sz name" by (rule handable_same [OF ready_handable [OF r]]) simp_all
  have me: "entries ?s1 (pool s) = Some \<lparr>el_Irp = w, el_Next = None\<rparr>" and e1: "entries ?s1 e1 = Some \<lparr>el_Irp = p1, el_Next = Some e2\<rparr>"
    and e2: "\<exists>n. es e2 = Some \<lparr>el_Irp = p2, el_Next = n\<rparr>" and ul: "UserspaceIrpList m = Some e1" and ml: "ModuleIrpList m = Some (pool s)"
    and uls: "links es (Some e1) ?us"
    using m(2,3) by (auto simp: queue_def)
  have mods1: "mods ?s1 a = Some m" by simp
  note run = work_round_run [OF add(2) h b(1) mods1 me e1]
  have apart: "fst ` set os \<inter> fst ` set ?us = {}" "e1 \<notin> fst ` set os" "e2 \<notin> fst ` set os" "pool s \<notin> fst ` set os" "e1 \<noteq> e2" "e1 \<noteq> pool s" "e2 \<noteq> pool s"
    "pool s \<notin> fst ` set ?us" using d by auto
  note oe = out_entries_links [OF m(4) uls apart(1)]
  let ?h = "(out_entries m e1 es)(pool s := None)"
  have "links ?h (out_first m e1) (os @ ?us)" using oe(1) apart(4,8) by (subst links_other) auto
  moreover have "\<forall>x\<in>set os. ?h (fst x) \<noteq> None"
  proof
    fix x assume x: "x \<in> set os"
    then have "fst x \<noteq> pool s" using apart(4) by force
    moreover have "es (fst x) \<noteq> None" using links_entry [of es "OutstandingIrpList m" os "fst x" "snd x"] m(4) x by (auto simp: queue_def)
    ultimately show "?h (fst x) \<noteq> None" using oe(3) [of "fst x"] by simp
  qed
  moreover have "e1 < Suc (pool s)" "e2 < Suc (pool s)" using lt by simp_all
  moreover obtain s2 where s2: "work_round a (pool s) e1 ?s1 = Some s2" "completed s2 = completed s @ [(w, rw\<lparr>ir_SystemBuffer := b, ir_Information := sz\<rparr>)]"
    "irps s2 = (irps s)(w := None)" "ModuleMap s2 = ModuleMap s" "fobjs s2 = fobjs s" "abi s2 = abi s" "nt_mem s2 = []"
    "mods s2 a = Some (drop_module ((drop_userspace m (Some e2))\<lparr>OutstandingIrpList := out_first m e1, OutstandingIrpListEnd := Some e1\<rparr>) None)"
    "entries s2 = ?h" "pool s2 = Suc (pool s)"
    using run w(2) by (simp del: fun_upd_apply) (simp add: fun_upd_same)
  ultimately have ent: "entangled s2 a fo e1 p1 e2 p2 os" using m(1) e1 e2 apart(2-7) oe(2)
    unfolding entangled_def s2(9) by (intro conjI) (simp_all add: drop_module_def drop_userspace_def, blast)
  have "work_loop a (Some w) True s2 = Some (True, s2)" using s2(8) by (subst work_loop.simps) (simp add: drop_module_def)
  then have "work_loop a (Some w) False ?s1 = Some (True, s2)"
    using s2(1) me ul ml by (subst work_loop.simps) (simp add: in_flight_def)
  then have "FuseFsdFileSystemControl w s = Some (STATUS_SUCCESS, s2)"
    using add(1) by (simp add: control_request [OF w(1) l] FuseModuleRequest_def FuseCheckForWork_def)
  then show ?thesis using s2(2-7) ent b(2) by blast
qed

text \<open>The response to the first request frees its entry, which remains the last of the outstanding ones.\<close>

definition dangling :: "nt \<Rightarrow> nat \<Rightarrow> u64 \<Rightarrow> nat \<Rightarrow> nat \<Rightarrow> u64 \<Rightarrow> bool" where
  "dangling s a fo e1 e2 p2 \<longleftrightarrow> e1 \<noteq> pool s \<and> e2 \<noteq> pool s \<and> entries s e1 = None \<and> (\<exists>n. entries s e2 = Some \<lparr>el_Irp = p2, el_Next = n\<rparr>) \<and>
     (\<exists>m. mods s a = Some m \<and> ModuleFileObject m = fo \<and> ModuleIrpList m = None \<and> ModuleIrpListEnd m = None \<and>
        UserspaceIrpList m = Some e2 \<and> OutstandingIrpListEnd m = Some e1)"

lemma remove_entangled:
  assumes "entangled s a fo e1 p1 e2 p2 os"
  shows "\<exists>m es. remove_outstanding a (if os = [] then None else Some (fst (last os))) e1 s = Some (s\<lparr>mods := (mods s)(a \<mapsto> m), entries := es\<rparr>) \<and>
     dangling (s\<lparr>mods := (mods s)(a \<mapsto> m), entries := es\<rparr>) a fo e1 e2 p2"
proof (cases "os = []")
  case True
  obtain m where "mods s a = Some m" using assms by (auto simp: entangled_def)
  then show ?thesis using assms True
    by (intro exI [of _ "m\<lparr>OutstandingIrpList := Some e2\<rparr>"] exI [of _ "(entries s)(e1 := None)"])
      (auto simp: entangled_def dangling_def remove_outstanding_def free_entry_def set_mod_def)
next
  case False
  then have "fst (last os) \<in> fst ` set os" "entries s (fst (last os)) \<noteq> None" using assms by (auto simp: entangled_def)
  then obtain x where x: "fst (last os) \<noteq> e1" "fst (last os) \<noteq> e2" "entries s (fst (last os)) = Some x" using assms by (auto simp: entangled_def)
  obtain m where "mods s a = Some m" using assms by (auto simp: entangled_def)
  then show ?thesis using assms False x
    by (intro exI [of _ m] exI [of _ "(entries s)(fst (last os) \<mapsto> x\<lparr>el_Next := Some e2\<rparr>, e1 := None)"])
      (auto simp: entangled_def dangling_def remove_outstanding_def free_entry_def set_mod_def set_next_def)
qed

lemma backlog_second:
  assumes t: "entangled s a fo e1 p1 e2 p2 os" "p1 \<notin> snd ` set os" and w: "module_packet s a fo IRP_FUSE_MODULE_RESPONSE w rw wsp" "nt_mem s = []" "w \<noteq> p1"
    and len: "32 \<le> sl_InputBufferLength wsp" "response_for (ir_SystemBuffer rw) p1 status n"
    and u: "irps s p1 = Some u" "ir_sp u = Some usp" "\<not> ir_Cancel u" "sl_MajorFunction usp \<notin> {IRP_MJ_QUERY_INFORMATION, IRP_MJ_DIRECTORY_CONTROL}"
      "sl_Length usp \<le> length (ir_UserBuffer u)"
  shows "\<exists>s' res. FuseFsdFileSystemControl w s = Some (res, s') \<and> dangling s' a fo e1 e2 p2 \<and>
     completed s' = completed s @ [(p1, answered usp status n (ir_SystemBuffer rw) u), (w, rw)] \<and> irps s' = (irps s)(p1 := None, w := None) \<and>
     ModuleMap s' = ModuleMap s \<and> fobjs s' = fobjs s \<and> abi s' = abi s \<and> nt_mem s' = []"
proof -
  have rw: "irps s w = Some rw" and pirp: "resp_pirp (ir_SystemBuffer rw) = Some p1" using w len(2) by (simp_all add: module_packet_def response_for_def)
  obtain m xs where m: "mods s a = Some m" "ModuleFileObject m = fo" "links (entries s) (OutstandingIrpList m) (os @ (e1, p1) # xs)"
    using t(1) by (auto simp: entangled_def)
  note found = find_outstanding_links(2) [OF m(3) refl t(2), of None]
  let ?u = "answered usp status n (ir_SystemBuffer rw) u" and ?prev = "if os = [] then None else Some (fst (last os))"
  let ?res = "if ir_Status ?u = status then STATUS_SUCCESS else STATUS_INVALID_BUFFER_SIZE"
  have copy: "copy_response p1 (ir_SystemBuffer rw) s = Some (?res, set_irp p1 ?u s)"
    using copy_response_plain [OF u(1,2) len(2) w(2) _ _ u(5)] u(4) by blast
  let ?s2 = "s\<lparr>completed := completed s @ [(p1, ?u)], irps := (irps s)(p1 := None)\<rparr>"
  have complete: "IoCompleteRequest p1 (set_irp p1 ?u s) = Some ?s2" by (simp add: IoCompleteRequest_def set_irp_def)
  have "entangled ?s2 a fo e1 p1 e2 p2 os" using t(1) by (simp add: entangled_def)
  then obtain m' es where rem: "remove_outstanding a ?prev e1 ?s2 = Some (?s2\<lparr>mods := (mods ?s2)(a \<mapsto> m'), entries := es\<rparr>)"
    "dangling (?s2\<lparr>mods := (mods ?s2)(a \<mapsto> m'), entries := es\<rparr>) a fo e1 e2 p2"
    using remove_entangled by blast
  let ?s3 = "?s2\<lparr>mods := (mods ?s2)(a \<mapsto> m'), entries := es\<rparr>"
  let ?s' = "?s3\<lparr>completed := completed ?s3 @ [(w, rw)], irps := (irps ?s3)(w := None)\<rparr>"
  have "FuseCopyResponse a w wsp s = Some (?res, ?s3)" using rw len(1) pirp m(1) found u(1,3) copy complete rem(1) by (simp add: FuseCopyResponse_def)
  then have "FuseFsdFileSystemControl w s = Some (?res, ?s')"
    using control_packet(1) [OF w(1) m(1,2) refl] rw w(3) by (simp add: IoCompleteRequest_def)
  moreover have "dangling ?s' a fo e1 e2 p2" using rem(2) by (simp add: dangling_def)
  ultimately show ?thesis using w(2) by (intro exI [of _ ?s'] exI [of _ ?res]) simp
qed

text \<open>The next request for work puts the second request behind the freed entry.\<close>

lemma backlog_third:
  assumes t: "dangling s a fo e1 e2 p2" and w: "module_packet s a fo IRP_FUSE_MODULE_REQUEST w rw wsp" "nt_mem s = []"
    and fits: "sizeof_FUSENT_REQ (abi s) + stack_length (abi s) rw \<le> sl_Length wsp" and h: "handable p2 w s u usp rw sz name" and f: "fills p2 u usp w rw sz name (abi s) b k"
  shows "FuseFsdFileSystemControl w s = None"
proof -
  have rw: "irps s w = Some rw" "ir_sp rw = Some wsp" using w by (simp_all add: module_packet_def)
  obtain m n where m: "mods s a = Some m" "ModuleFileObject m = fo" "ModuleIrpList m = None" "ModuleIrpListEnd m = None" "UserspaceIrpList m = Some e2"
    "OutstandingIrpListEnd m = Some e1" "entries s e1 = None" "entries s e2 = Some \<lparr>el_Irp = p2, el_Next = n\<rparr>" "e1 \<noteq> pool s" "e2 \<noteq> pool s"
    using t by (auto simp: dangling_def)
  let ?m = "m\<lparr>ModuleIrpList := Some (pool s), ModuleIrpListEnd := Some (pool s)\<rparr>"
  let ?s1 = "s\<lparr>pool := Suc (pool s), entries := (entries s)(pool s \<mapsto> \<lparr>el_Irp = w, el_Next = None\<rparr>), mods := (mods s)(a \<mapsto> ?m)\<rparr>"
  have add: "FuseAddIrpToModuleList w a True s = Some (True, ?s1)"
    using rw m fits by (simp add: FuseAddIrpToModuleList_def new_entry_def nt_alloc_ok [OF w(2)] set_mod_def stack_length_def)
  have h1: "handable p2 w ?s1 u usp rw sz name" by (rule handable_same [OF h]) simp_all
  have fill: "fill_request p2 u usp w sz name ?s1 = Some (set_irp w (rw\<lparr>ir_SystemBuffer := b, ir_Information := sz\<rparr>) (?s1\<lparr>stray := stray ?s1 + k\<rparr>))"
    using fillsD [of p2 u usp w rw sz name ?s1 b k] f rw(1) by simp
  obtain qsp where qsp: "ir_sp rw = Some qsp" "sz \<le> sl_Length qsp" using h1 by (auto simp: handable_def)
  have "work_round a (pool s) e2 ?s1 = None"
    using h1 fill qsp m unfolding handable_def
    by (simp add: work_round_def Let_def add_outstanding_def set_next_def set_mod_def drop_userspace_def)
  then have "work_loop a (Some w) False ?s1 = None" using m(5) by (subst work_loop.simps) simp
  then show ?thesis using control_packet(2) [OF w(1) m(1,2) refl] add by (simp add: FuseModuleRequest_def FuseCheckForWork_def)
qed

text \<open>
  C31: requests that pile up break the lists. Two requests or more wait, in good order, for a module that has no packet waiting. The module
  asks for work, responds to the first request, and asks again, each time with a packet of its own that is large enough: the first two
  controls complete what they should, but the last one stores into the entry of the first request, which has been freed. The
  entry that \<open>FuseCheckForWork\<close> moves to the outstanding ones keeps its link to the next waiting one, so that \<open>FuseCopyResponse\<close>
  takes it for one in the middle of the list and leaves the end of the list as it was. The first request asks neither for information nor for a directory, none of the packets
  is cancelled, and there is memory.
\<close>

theorem backlog_use_after_free:
  assumes l: "mod_lists s a fo [] ((e1, p1) # (e2, p2) # us) os" "p1 \<notin> snd ` set os" "nt_mem s = []" "distinct [w1, w2, w3, p1, p2]"
    and w1: "module_packet s a fo IRP_FUSE_MODULE_REQUEST w1 r1 wsp1" "sizeof_FUSENT_REQ (abi s) + stack_length (abi s) r1 \<le> sl_Length wsp1"
      "ready p1 w1 s u1 usp1 r1 sz1 name1"
    and w2: "module_packet s a fo IRP_FUSE_MODULE_RESPONSE w2 r2 wsp2" "32 \<le> sl_InputBufferLength wsp2" "response_for (ir_SystemBuffer r2) p1 status n"
      "sl_MajorFunction usp1 \<notin> {IRP_MJ_QUERY_INFORMATION, IRP_MJ_DIRECTORY_CONTROL}" "sl_Length usp1 \<le> length (ir_UserBuffer u1)"
    and w3: "module_packet s a fo IRP_FUSE_MODULE_REQUEST w3 r3 wsp3" "sizeof_FUSENT_REQ (abi s) + stack_length (abi s) r3 \<le> sl_Length wsp3"
      "ready p2 w3 s u2 usp2 r3 sz2 name2"
  shows "\<exists>s1 s2 res. FuseFsdFileSystemControl w1 s = Some (STATUS_SUCCESS, s1) \<and> map fst (completed s1) = map fst (completed s) @ [w1] \<and>
     FuseFsdFileSystemControl w2 s1 = Some (res, s2) \<and> map fst (completed s2) = map fst (completed s1) @ [p1, w2] \<and>
     entries s2 e1 = None \<and> (\<exists>m. mods s2 a = Some m \<and> OutstandingIrpListEnd m = Some e1) \<and> FuseFsdFileSystemControl w3 s2 = None"
proof -
  have u1: "irps s p1 = Some u1" "ir_sp u1 = Some usp1" "\<not> ir_Cancel u1" using w1(3) by (simp_all add: ready_def)
  obtain s1 b1 where s1: "FuseFsdFileSystemControl w1 s = Some (STATUS_SUCCESS, s1)" "entangled s1 a fo e1 p1 e2 p2 os"
    "completed s1 = completed s @ [(w1, r1\<lparr>ir_SystemBuffer := b1, ir_Information := sz1\<rparr>)]" "irps s1 = (irps s)(w1 := None)"
    "ModuleMap s1 = ModuleMap s" "fobjs s1 = fobjs s" "abi s1 = abi s" "nt_mem s1 = []"
    using backlog_first [OF l(1) w1(1) l(3) w1(2,3)] by blast
  have "module_packet s1 a fo IRP_FUSE_MODULE_RESPONSE w2 r2 wsp2" "irps s1 p1 = Some u1" "w2 \<noteq> p1"
    using w2(1) s1(4-6) u1(1) l(4) by (auto simp: module_packet_def)
  then obtain s2 res where s2: "FuseFsdFileSystemControl w2 s1 = Some (res, s2)" "dangling s2 a fo e1 e2 p2"
    "completed s2 = completed s1 @ [(p1, answered usp1 status n (ir_SystemBuffer r2) u1), (w2, r2)]" "irps s2 = (irps s1)(p1 := None, w2 := None)"
    "ModuleMap s2 = ModuleMap s1" "fobjs s2 = fobjs s1" "abi s2 = abi s1" "nt_mem s2 = []"
    using backlog_second [OF s1(2) l(2) _ s1(8) _ w2(2,3) _ u1(2,3) w2(4,5)] by blast
  obtain b where "fills p2 u2 usp2 w3 r3 sz2 name2 (abi s2) b 0" using ready_fills [OF w3(3)] s1(7) s2(7) by auto
  moreover have "module_packet s2 a fo IRP_FUSE_MODULE_REQUEST w3 r3 wsp3" "sizeof_FUSENT_REQ (abi s2) + stack_length (abi s2) r3 \<le> sl_Length wsp3"
    using w3(1,2) s1(4-7) s2(4-7) l(4) by (auto simp: module_packet_def)
  moreover have "handable p2 w3 s2 u2 usp2 r3 sz2 name2"
    using s1(4,6,7) s2(4,6,7) l(4) by (intro handable_same [OF ready_handable [OF w3(3)]]) auto
  ultimately have "FuseFsdFileSystemControl w3 s2 = None" using backlog_third [OF s2(2) _ s2(8)] by blast
  then show ?thesis using s1(1,3) s2(1-3) by (intro exI [of _ s1] exI [of _ s2] exI [of _ res]) (auto simp: dangling_def)
qed

subsection \<open>Witnesses\<close>

text \<open>A module, six packets and the files they are for; the sizes are the ones of 64-bit Windows.\<close>

definition demo_abi :: nt_abi where
  "demo_abi = \<lparr>sizeof_IRP = 208, sizeof_IO_STACK_LOCATION = 72, sizeof_dir = (\<lambda>_. 64), dir_FileNameLength = 60, dir_FileName = (\<lambda>_. 64),
     dir_ShortName = (\<lambda>_. None), dir_ShortNameLength = (\<lambda>_. 0), sizeof_names = 12, names_FileIndex = 4, names_FileNameLength = 8,
     names_FileName = 12, sizeof_basic = 40, put_basic = (\<lambda>_ _ _ _ _. zeros 40), sizeof_standard = 24, put_standard = (\<lambda>_ _ _ _ _. zeros 24),
     sizeof_name = 8, name_FileName = 4, all_StandardInformation = 40, all_NameInformation = 96, sizeof_fs = (\<lambda>_. 24),
     put_fs = (\<lambda>_. zeros 24), vol_VolumeLabel = 18, attr_FileSystemName = 12\<rparr>"

definition demo_sp :: "nat \<Rightarrow> u64 \<Rightarrow> nat \<Rightarrow> u32 \<Rightarrow> io_stack_location" where
  "demo_sp major fo len code = \<lparr>sl_MajorFunction = major, sl_MinorFunction = 0, sl_FileObject = fo, sl_Length = len,
     sl_InputBufferLength = len, sl_FsControlCode = code, sl_InformationClass = OtherInformation\<rparr>"

definition demo_irp :: "io_stack_location \<Rightarrow> bytes \<Rightarrow> irp" where
  "demo_irp sp buf = \<lparr>ir_Cancel = False, ir_Flags = 0, ir_StackCount = 1, ir_sp = Some sp, ir_image = zeros 208, ir_stack = zeros 72,
     ir_SystemBuffer = buf, ir_UserBuffer = zeros 4, ir_Mdl = False, ir_Status = 0, ir_Information = 0, ir_Pending = False\<rparr>"

abbreviation "demo_read \<equiv> demo_irp (demo_sp IRP_MJ_READ 11 4 0) []"
abbreviation "demo_ask \<equiv> demo_irp (demo_sp IRP_MJ_FILE_SYSTEM_CONTROL 10 512 IRP_FUSE_MODULE_REQUEST) (zeros 512)"
abbreviation "demo_small \<equiv> demo_irp (demo_sp IRP_MJ_FILE_SYSTEM_CONTROL 10 16 IRP_FUSE_MODULE_REQUEST) []"
abbreviation "demo_answer p \<equiv> demo_irp (demo_sp IRP_MJ_FILE_SYSTEM_CONTROL 10 32 IRP_FUSE_MODULE_RESPONSE) (put64 p @ zeros 24)"

definition demo_nt :: "(nat \<Rightarrow> irp_list option) \<Rightarrow> module_struct \<Rightarrow> nt" where
  "demo_nt es m = \<lparr>abi = demo_abi, irps = [1 \<mapsto> demo_read, 2 \<mapsto> demo_read, 3 \<mapsto> demo_ask, 4 \<mapsto> demo_answer 1, 5 \<mapsto> demo_ask, 6 \<mapsto> demo_small],
     fobjs = [10 \<mapsto> \<lparr>fo_Length = 4, fo_Buffer = [92, 97, 0]\<rparr>, 11 \<mapsto> \<lparr>fo_Length = 8, fo_Buffer = [92, 97, 92, 98, 0]\<rparr>],
     entries = es, mods = [7 \<mapsto> m], pool = 8, ModuleMap = demo_full, completed = [], nt_mem = [], probe_ok = [], stray = 0, system_time = 0\<rparr>"

definition demo_module :: "nat option \<Rightarrow> nat option \<Rightarrow> nat option \<Rightarrow> nat option \<Rightarrow> nat option \<Rightarrow> module_struct" where
  "demo_module ml ul ol ue oe = \<lparr>ModuleIrpList = ml, UserspaceIrpList = ul, OutstandingIrpList = ol, ModuleIrpListEnd = ml, UserspaceIrpListEnd = ue,
     OutstandingIrpListEnd = oe, ModuleName = [97], ModuleFileObject = 10\<rparr>"

definition demo_backlog :: nt where
  "demo_backlog = demo_nt [0 \<mapsto> \<lparr>el_Irp = 1, el_Next = Some 1\<rparr>, 1 \<mapsto> \<lparr>el_Irp = 2, el_Next = None\<rparr>] (demo_module None (Some 0) None (Some 1) None)"

lemmas demo_defs = demo_irp_def demo_sp_def demo_abi_def demo_module_def

lemma demo_hmap: "hmap_get demo_full [97] = Some (Some 7)"
  by (simp add: hmap_get_def oa_get_location_def demo_full_def) (subst oa_probe.simps, simp add: str_eq_fn_def)

lemma demo_irp_simps [simp]:
  "ir_Cancel (demo_irp sp b) = False" "ir_sp (demo_irp sp b) = Some sp" "ir_SystemBuffer (demo_irp sp b) = b"
  by (simp_all add: demo_irp_def)

lemma demo_nt_simps [simp]:
  "irps (demo_nt es m) = [1 \<mapsto> demo_read, 2 \<mapsto> demo_read, 3 \<mapsto> demo_ask, 4 \<mapsto> demo_answer 1, 5 \<mapsto> demo_ask, 6 \<mapsto> demo_small]"
  "entries (demo_nt es m) = es" "mods (demo_nt es m) = [7 \<mapsto> m]" "pool (demo_nt es m) = 8" "completed (demo_nt es m) = []"
  "abi (demo_nt es m) = demo_abi" "ModuleMap (demo_nt es m) = demo_full" "nt_mem (demo_nt es m) = []" "stray (demo_nt es m) = 0"
  by (simp_all add: demo_nt_def)

lemma demo_response: "response_for (put64 1 @ zeros 24) 1 0 0"
  by (simp add: response_for_def resp_pirp_def resp_status_def resp_param_def zeros_def get32_def numeral_eq_Suc)

definition demo_waiting :: nt where
  "demo_waiting = demo_nt [0 \<mapsto> \<lparr>el_Irp = 3, el_Next = None\<rparr>] (demo_module (Some 0) None None None None)"

definition demo_queued :: nt where
  "demo_queued = demo_nt [0 \<mapsto> \<lparr>el_Irp = 1, el_Next = None\<rparr>] (demo_module None (Some 0) None (Some 0) None)"

definition demo_working :: nt where
  "demo_working = demo_nt [0 \<mapsto> \<lparr>el_Irp = 1, el_Next = None\<rparr>] (demo_module None None (Some 0) None (Some 0))"

lemma demo_lists:
  "mod_lists demo_waiting 7 10 [(0, 3)] [] []" "mod_lists demo_queued 7 10 [] [(0, 1)] []" "mod_lists demo_working 7 10 [] [] [(0, 1)]"
  "mod_lists demo_backlog 7 10 [] [(0, 1), (1, 2)] []"
  by (auto simp: mod_lists_def demo_waiting_def demo_queued_def demo_working_def demo_backlog_def demo_module_def queue_def end_of_def)

lemma demo_packet_ready:
  assumes "s = demo_nt es m" "q = 3 \<or> q = 5" "p = 1 \<or> p = 2"
  shows "ready p q s demo_read (demo_sp IRP_MJ_READ 11 4 0) demo_ask 296 None"
  using assms by (auto simp: ready_def demo_defs request_size_def sizeof_FUSENT_REQ_def stack_length_def plain_request_def packet_ok_def request_bytes_def)

lemma demo_module_packet:
  assumes "s = demo_nt es m"
  shows "module_packet s 7 10 IRP_FUSE_MODULE_RESPONSE 4 (demo_answer 1) (demo_sp IRP_MJ_FILE_SYSTEM_CONTROL 10 32 IRP_FUSE_MODULE_RESPONSE)"
    "q = 3 \<or> q = 5 \<Longrightarrow> module_packet s 7 10 IRP_FUSE_MODULE_REQUEST q demo_ask (demo_sp IRP_MJ_FILE_SYSTEM_CONTROL 10 512 IRP_FUSE_MODULE_REQUEST)"
    "module_packet s 7 10 IRP_FUSE_MODULE_REQUEST 6 demo_small (demo_sp IRP_MJ_FILE_SYSTEM_CONTROL 10 16 IRP_FUSE_MODULE_REQUEST)"
  using assms by (auto simp: module_packet_def demo_hmap demo_nt_def demo_sp_def name_of_module_def wcs_def)

lemma demo_file_on: "file_on (demo_nt es m) \<lparr>fo_Length = 8, fo_Buffer = [92, 97, 92, 98, 0]\<rparr> 7"
  by (simp add: file_on_def FuseExtractModuleName_def wcs_def demo_hmap)

text \<open>A write of four bytes, with a packet of the module that has room for its data and one that has not.\<close>

abbreviation "demo_write \<equiv> demo_irp (demo_sp IRP_MJ_WRITE 11 4 0) ''data''\<lparr>ir_Flags := IRP_WRITE_OPERATION\<rparr>"

definition demo_writing :: nt where
  "demo_writing = demo_waiting\<lparr>irps := (irps demo_waiting)(1 \<mapsto> demo_write)\<rparr>"

lemma demo_write_ready:
  "handable 1 3 demo_writing demo_write (demo_sp IRP_MJ_WRITE 11 4 0) demo_ask 312 None" "tagged demo_write (demo_sp IRP_MJ_WRITE 11 4 0)"
  "packet_ok (abi demo_writing) demo_write" "request_length (abi demo_writing) demo_write (demo_sp IRP_MJ_WRITE 11 4 0) None < 2 ^ 32"
  by (simp_all add: demo_writing_def demo_waiting_def demo_defs handable_def tagged_def packet_ok_def request_length_def request_size_def sizeof_FUSENT_REQ_def stack_length_def)

theorem request_reaches_module_witness:
  "(\<exists>s' b. FuseAddUserspaceIrp 1 demo_waiting = Some (STATUS_PENDING, s') \<and> stray s' = 0 \<and>
     completed s' = [(3, demo_ask\<lparr>ir_SystemBuffer := b, ir_Information := 296\<rparr>)] \<and>
     take 296 b = request_bytes 1 demo_read (demo_sp IRP_MJ_READ 11 4 0) None) \<and>
   (\<exists>s' b. FuseAddUserspaceIrp 1 demo_writing = Some (STATUS_PENDING, s') \<and> stray s' = 0 \<and>
     completed s' = [(3, demo_ask\<lparr>ir_SystemBuffer := b, ir_Information := 312\<rparr>)] \<and>
     take 296 b = request_bytes 1 demo_write (demo_sp IRP_MJ_WRITE 11 4 0) None \<and> take 8 (drop 312 b) = put32 4 @ ''data'')"
proof
  let ?fob = "\<lparr>fo_Length = 8, fo_Buffer = [92, 97, 92, 98, 0]\<rparr>"
  have ok: "handable 1 3 demo_waiting demo_read (demo_sp IRP_MJ_READ 11 4 0) demo_ask 296 None"
    by (rule ready_handable, rule demo_packet_ready [OF demo_waiting_def]) simp_all
  have "tagged demo_read (demo_sp IRP_MJ_READ 11 4 0)" "packet_ok (abi demo_waiting) demo_read"
    "request_length (abi demo_waiting) demo_read (demo_sp IRP_MJ_READ 11 4 0) None < 2 ^ 32"
    "sl_MajorFunction (demo_sp IRP_MJ_READ 11 4 0) = IRP_MJ_WRITE \<longrightarrow> sl_Length (demo_sp IRP_MJ_READ 11 4 0) \<le> length (ir_SystemBuffer demo_read)"
    "fobjs demo_waiting (sl_FileObject (demo_sp IRP_MJ_READ 11 4 0)) = Some ?fob" "file_on demo_waiting ?fob 7" "nt_mem demo_waiting = []"
    by (simp_all add: demo_waiting_def demo_file_on tagged_def packet_ok_def request_length_def demo_defs sizeof_FUSENT_REQ_def stack_length_def) (simp add: demo_nt_def)
  from request_reaches_module [OF demo_lists(1) ok this]
  show "\<exists>s' b. FuseAddUserspaceIrp 1 demo_waiting = Some (STATUS_PENDING, s') \<and> stray s' = 0 \<and>
     completed s' = [(3, demo_ask\<lparr>ir_SystemBuffer := b, ir_Information := 296\<rparr>)] \<and> take 296 b = request_bytes 1 demo_read (demo_sp IRP_MJ_READ 11 4 0) None"
    by (auto simp: delivered_def demo_sp_def) (auto simp: demo_waiting_def)
  have l: "mod_lists demo_writing 7 10 [(0, 3)] [] []" by (rule mod_lists_mono [OF demo_lists(1)]) (simp_all add: demo_writing_def)
  have "file_on demo_writing ?fob 7" using demo_file_on [of "[0 \<mapsto> \<lparr>el_Irp = 3, el_Next = None\<rparr>]"] by (simp add: demo_writing_def demo_waiting_def file_on_def)
  moreover have "sl_MajorFunction (demo_sp IRP_MJ_WRITE 11 4 0) = IRP_MJ_WRITE \<longrightarrow> sl_Length (demo_sp IRP_MJ_WRITE 11 4 0) \<le> length (ir_SystemBuffer demo_write)"
    "fobjs demo_writing (sl_FileObject (demo_sp IRP_MJ_WRITE 11 4 0)) = Some ?fob" "nt_mem demo_writing = []"
    by (simp_all add: demo_writing_def demo_waiting_def demo_sp_def) (simp add: demo_nt_def)
  ultimately obtain s' b k where s': "FuseAddUserspaceIrp 1 demo_writing = Some (STATUS_PENDING, s')" "completed s' = completed demo_writing @ [(3, demo_ask\<lparr>ir_SystemBuffer := b, ir_Information := 312\<rparr>)]"
    "delivered (abi demo_writing) 1 demo_write (demo_sp IRP_MJ_WRITE 11 4 0) 312 None (zeros 512) b k" "stray s' = stray demo_writing + k"
    using request_reaches_module [OF l demo_write_ready] by auto
  have len: "length (request_bytes 1 demo_write (demo_sp IRP_MJ_WRITE 11 4 0) None) = 296" by (simp add: request_bytes_def demo_irp_def)
  have "take 312 b = request_bytes 1 demo_write (demo_sp IRP_MJ_WRITE 11 4 0) None @ take 16 (drop 296 (zeros 512))" "k = 0" "take 8 (drop 312 b) = put32 4 @ ''data''"
    using s'(3) by (simp_all add: delivered_def write_bytes_def demo_sp_def demo_writing_def demo_waiting_def sizeof_FUSENT_REQ_def stack_length_def demo_abi_def demo_irp_def)
  moreover from this(1) have "take 296 (take 312 b) = request_bytes 1 demo_write (demo_sp IRP_MJ_WRITE 11 4 0) None" using len by simp
  then have "take 296 b = request_bytes 1 demo_write (demo_sp IRP_MJ_WRITE 11 4 0) None" by (simp only: take_take) simp
  ultimately show "\<exists>s' b. FuseAddUserspaceIrp 1 demo_writing = Some (STATUS_PENDING, s') \<and> stray s' = 0 \<and>
     completed s' = [(3, demo_ask\<lparr>ir_SystemBuffer := b, ir_Information := 312\<rparr>)] \<and>
     take 296 b = request_bytes 1 demo_write (demo_sp IRP_MJ_WRITE 11 4 0) None \<and> take 8 (drop 312 b) = put32 4 @ ''data''"
    using s'(1,2,4) by (intro exI [of _ s'] exI [of _ b]) (simp add: demo_writing_def demo_waiting_def)
qed




theorem module_asks_witness:
  "FuseFsdFileSystemControl 6 demo_waiting = Some (STATUS_INVALID_USER_BUFFER, demo_waiting\<lparr>completed := [(6, demo_small)], irps := (irps demo_waiting)(6 := None)\<rparr>) \<and>
   (\<exists>s' e. FuseFsdFileSystemControl 5 demo_waiting = Some (STATUS_PENDING, s') \<and> mod_lists s' 7 10 [(0, 3), (e, 5)] [] []) \<and>
   (\<exists>s'. FuseFsdFileSystemControl 5 demo_queued = Some (STATUS_SUCCESS, s') \<and> mod_lists s' 7 10 [] [] [(0, 1)])"
proof (intro conjI)
  have mem: "nt_mem demo_waiting = []" "nt_mem demo_queued = []" by (simp_all add: demo_waiting_def demo_queued_def)
  have size: "sizeof_FUSENT_REQ (abi demo_waiting) + stack_length (abi demo_waiting) (demo_irp sp b) = 296"
    "sizeof_FUSENT_REQ (abi demo_queued) + stack_length (abi demo_queued) (demo_irp sp b) = 296" for sp b
    by (simp_all add: demo_waiting_def demo_queued_def sizeof_FUSENT_REQ_def stack_length_def demo_defs)
  show "FuseFsdFileSystemControl 6 demo_waiting = Some (STATUS_INVALID_USER_BUFFER, demo_waiting\<lparr>completed := [(6, demo_small)], irps := (irps demo_waiting)(6 := None)\<rparr>)"
    using module_asks [OF demo_lists(1) demo_module_packet(3) [OF demo_waiting_def] mem(1)] size(1) by (simp add: demo_sp_def) (simp add: demo_waiting_def)
  show "\<exists>s' e. FuseFsdFileSystemControl 5 demo_waiting = Some (STATUS_PENDING, s') \<and> mod_lists s' 7 10 [(0, 3), (e, 5)] [] []"
    using module_asks [OF demo_lists(1) demo_module_packet(2) [OF demo_waiting_def disjI2 [OF refl]] mem(1)] size(1) by (auto simp: demo_sp_def)
  show "\<exists>s'. FuseFsdFileSystemControl 5 demo_queued = Some (STATUS_SUCCESS, s') \<and> mod_lists s' 7 10 [] [] [(0, 1)]"
    using module_asks [OF demo_lists(2) demo_module_packet(2) [OF demo_queued_def disjI2 [OF refl]] mem(2)] demo_packet_ready [OF demo_queued_def, of 5 1] size(2) by (simp add: demo_sp_def) blast
qed

theorem read_answered_witness:
  "\<exists>s1. FuseFsdRead 1 demo_waiting = Some (STATUS_PENDING, s1) \<and>
     (\<exists>s2 res u'. FuseFsdFileSystemControl 4 (set_irp 4 (demo_answer 1\<lparr>ir_SystemBuffer := read_reply 1 11 0 0 (zeros 4) ''data''\<rparr>) s1) = Some (res, s2) \<and>
        fst (last (completed s2)) = 4 \<and> (1, u') \<in> set (completed s2) \<and> ir_Information u' = 4 \<and> take 4 (ir_UserBuffer u') = zeros 4)"
proof -
  have ok: "NT_SUCCESS 0" by (simp add: NT_SUCCESS_def)
  let ?resp = "read_reply 1 11 0 0 (zeros 4) ''data''"
  have len: "length ''data'' = 4" "length (zeros 4) = 4" by (simp_all add: zeros_def)
  have resp: "response_for ?resp 1 0 4" using response_for_read_reply(1) [of "''data''" "zeros 4" 1 11 0 0, unfolded len] by simp
  obtain s1 b where s1: "FuseFsdRead 1 demo_waiting = Some (STATUS_PENDING, s1)"
    and all: "\<forall>resp status n. response_for resp 1 status n \<and> n \<le> sl_Length (demo_sp IRP_MJ_READ 11 4 0) \<longrightarrow> (let rw' = demo_answer 1\<lparr>ir_SystemBuffer := resp\<rparr> in
         \<exists>s2 res u'. FuseFsdFileSystemControl 4 (set_irp 4 rw' s1) = Some (res, s2) \<and> mod_lists s2 7 10 [] [] [] \<and>
           completed s2 = completed s1 @ [(1, u'), (4, rw')] \<and> ir_Status u' = status \<and>
           (NT_SUCCESS status \<longrightarrow> ir_Information u' = n \<and> take n (ir_UserBuffer u') = take n (drop 28 resp) \<and>
              (\<forall>fop err pad dat. resp = read_reply 1 fop err status pad dat \<and> length pad = 4 \<and> length dat = n \<longrightarrow>
                 take n (ir_UserBuffer u') = take n (pad @ dat))) \<and>
           irps s2 = (irps demo_waiting)(1 := None, 3 := None, 4 := None) \<and> stray s2 = stray demo_waiting)"
    using read_answered [OF demo_lists(1) demo_packet_ready [OF demo_waiting_def], where p = 1 and fob = "\<lparr>fo_Length = 8, fo_Buffer = [92, 97, 92, 98, 0]\<rparr>"
        and w = 4 and rw = "demo_answer 1" and wsp = "demo_sp IRP_MJ_FILE_SYSTEM_CONTROL 10 32 IRP_FUSE_MODULE_RESPONSE"] demo_file_on
      demo_module_packet(1) [OF demo_waiting_def]
    by (auto simp: demo_waiting_def demo_nt_def demo_sp_def demo_irp_def)
  have four: "4 \<le> sl_Length (demo_sp IRP_MJ_READ 11 4 0)" by (simp add: demo_sp_def)
  obtain s2 res u' where s2: "FuseFsdFileSystemControl 4 (set_irp 4 (demo_answer 1\<lparr>ir_SystemBuffer := ?resp\<rparr>) s1) = Some (res, s2)"
    "completed s2 = completed s1 @ [(1, u'), (4, demo_answer 1\<lparr>ir_SystemBuffer := ?resp\<rparr>)]" "ir_Information u' = 4" "take 4 (ir_UserBuffer u') = take 4 (drop 28 ?resp)"
    using all [unfolded Let_def, rule_format, OF conjI [OF resp four]] ok by blast
  moreover have "take 4 (drop 28 ?resp) = zeros 4" using response_for_read_reply(2) [of "''data''" "zeros 4" 1 11 0 0] by (simp add: zeros_def)
  ultimately show ?thesis using s1 by (intro exI [of _ s1] conjI exI [of _ s2] exI [of _ res] exI [of _ u']) simp_all
qed

theorem backlog_use_after_free_witness:
  "\<exists>s1 s2 res. FuseFsdFileSystemControl 3 demo_backlog = Some (STATUS_SUCCESS, s1) \<and> map fst (completed s1) = [3] \<and>
     FuseFsdFileSystemControl 4 s1 = Some (res, s2) \<and> map fst (completed s2) = [3, 1, 4] \<and> entries s2 0 = None \<and> FuseFsdFileSystemControl 5 s2 = None"
proof -
  let ?ask = "demo_sp IRP_MJ_FILE_SYSTEM_CONTROL 10 512 IRP_FUSE_MODULE_REQUEST"
  have size: "sizeof_FUSENT_REQ (abi demo_backlog) + stack_length (abi demo_backlog) demo_ask \<le> sl_Length ?ask" "nt_mem demo_backlog = []" "completed demo_backlog = []"
    by (simp_all add: demo_backlog_def sizeof_FUSENT_REQ_def stack_length_def demo_defs)
  have ready: "ready 1 3 demo_backlog demo_read (demo_sp IRP_MJ_READ 11 4 0) demo_ask 296 None" "ready 2 5 demo_backlog demo_read (demo_sp IRP_MJ_READ 11 4 0) demo_ask 296 None"
    by (rule demo_packet_ready [OF demo_backlog_def]; simp)+
  have "distinct [3 :: u64, 4, 5, 1, 2]" "(1 :: u64) \<notin> snd ` set []" "32 \<le> sl_InputBufferLength (demo_sp IRP_MJ_FILE_SYSTEM_CONTROL 10 32 IRP_FUSE_MODULE_RESPONSE)"
    "sl_MajorFunction (demo_sp IRP_MJ_READ 11 4 0) \<notin> {IRP_MJ_QUERY_INFORMATION, IRP_MJ_DIRECTORY_CONTROL}" "sl_Length (demo_sp IRP_MJ_READ 11 4 0) \<le> length (ir_UserBuffer demo_read)"
    "response_for (ir_SystemBuffer (demo_answer 1)) 1 0 0" using demo_response by (simp_all add: demo_sp_def demo_irp_def)
  from backlog_use_after_free [OF demo_lists(4) this(2) size(2) this(1) demo_module_packet(2) [OF demo_backlog_def disjI1 [OF refl]] size(1) ready(1)
      demo_module_packet(1) [OF demo_backlog_def] this(3,6,4,5) demo_module_packet(2) [OF demo_backlog_def disjI2 [OF refl]] size(1) ready(2)]
  show ?thesis using size(3) by auto
qed

end
