(* ===== verification/Mount_Util.thy ===== *)
theory Mount_Util
  imports Complex_Main Fuse_Prelude Fuse_Opt Fuse_Fs "HOL-Library.State_Monad"
begin

text \<open>
  The helpers of mounting (\<open>lib/mount_util.c\<close>), and the interface of the programs that mount to the system.

  A program is a state transformer. Its state has the calls of the system it has made so far, in order, and the outcomes of
  its coming allocations. What a call answers is decided by the environment, from the calls made before and the call: the
  theorems hold for every environment. A child process runs between the call that makes it and
  the one that waits for it, and its calls are in the same list. Messages to the user are left out.
\<close>

unbundle bit_operations_syntax

subsection \<open>The system\<close>

datatype oflag = O_RDONLY | O_WRONLY | O_RDWR | O_LOCKFILE

record mntent =
  mnt_dir :: cstring
  mnt_type :: cstring
  mnt_opts :: cstring

datatype syscall =
    Lstat cstring | Fstat int | Access_W cstring | Open cstring oflag | Close int
  | Chdir cstring | Fchdir int | Getcwd | Realpath cstring
  | Opendir cstring  \<comment> \<open>with all of \<open>readdir\<close> and \<open>closedir\<close>\<close>
  | Setmntent cstring  \<comment> \<open>with all of \<open>getmntent\<close>\<close>
  | Fopen cstring  \<comment> \<open>with the contents\<close>
  | Mount cstring cstring cstring u32 "cstring option" | Umount2 cstring int
  | Setfsuid u32 | Setfsgid u32 | Getpwuid u32 | Uname | Umask int
  | Sigprocmask bool | Fork | Clone_newns | Waitpid | Setuid u32 | Dup2 int int
  | Mkdtemp cstring | Rmdir cstring | Execl "cstring list"
  | Lockf int bool | Sendmsg int int  \<comment> \<open>repeated while interrupted\<close>
  | Stat cstring | Poll int | Socketpair | Setcloexec int bool | Setenv cstring cstring | Execv "cstring list" | Execvp "cstring list" | Recvmsg int

text \<open>An answer: the value returned, -1 for failures (and for a null pointer), \<open>errno\<close>, and what was written.\<close>

record answer =
  ret :: int
  errnum :: int
  text_of :: cstring
  names_of :: "cstring list"
  ents_of :: "mntent list"
  stat_of :: stat
  status_of :: int
  pair_of :: "(int \<times> int) option"  \<comment> \<open>the descriptors of \<open>socketpair\<close>; the type and contents of the first control message of \<open>recvmsg\<close>\<close>

text \<open>The process: its user, and the environment that answers its calls.\<close>

record proc_env =
  getuid :: u32
  getgid :: u32
  geteuid :: u32
  commfd :: "cstring option"
  os :: "syscall list \<Rightarrow> syscall \<Rightarrow> answer"

record proc =
  trace :: "syscall list"
  pr_mem :: allocs
  user_allow_other :: bool
  mount_max :: int
  oldfsuid :: u32
  oldfsgid :: u32

type_synonym 'a io = "(proc, 'a) state"

abbreviation result :: "'a \<Rightarrow> 'a io" where "result \<equiv> State_Monad.return"

definition sys :: "proc_env \<Rightarrow> syscall \<Rightarrow> answer io" where
  "sys E c = State (\<lambda>s. (os E (trace s) c, s\<lparr>trace := trace s @ [c]\<rparr>))"

definition malloc :: "bool io" where
  "malloc = State (\<lambda>s. let (ok, m) = alloc (pr_mem s) in (ok, s\<lparr>pr_mem := m\<rparr>))"

subsection \<open>The C library\<close>

abbreviation (input) EROFS :: int where "EROFS \<equiv> 30"
abbreviation (input) NEWLINE :: char where "NEWLINE \<equiv> CHR 0x0A"
abbreviation (input) BACKSLASH_C :: char where "BACKSLASH_C \<equiv> CHR 0x5C"

definition S_IFMT :: "u32 \<Rightarrow> u32" where "S_IFMT mode = mode AND 0xF000"
definition S_ISLNK :: "u32 \<Rightarrow> bool" where "S_ISLNK mode \<longleftrightarrow> S_IFMT mode = 0xA000"
definition S_ISDIR :: "u32 \<Rightarrow> bool" where "S_ISDIR mode \<longleftrightarrow> S_IFMT mode = 0x4000"
definition S_ISREG :: "u32 \<Rightarrow> bool" where "S_ISREG mode \<longleftrightarrow> S_IFMT mode = 0x8000"

definition begins_with :: "cstring \<Rightarrow> cstring \<Rightarrow> bool" where
  "begins_with s beg \<longleftrightarrow> take (length beg) s = beg"

definition strstr :: "cstring \<Rightarrow> cstring \<Rightarrow> nat option" where
  "strstr s t = find (\<lambda>i. begins_with (drop i s) t) [0..<Suc (length s)]"

text \<open>The part behind the last slash, and the one in front of it.\<close>

definition last_part :: "cstring \<Rightarrow> cstring" where
  "last_part s = rev (takeWhile (\<lambda>c. c \<noteq> CHR ''/'') (rev s))"

definition first_part :: "cstring \<Rightarrow> cstring" where
  "first_part s = take (length s - length (last_part s) - 1) s"

text \<open>Numbers in base \<open>b\<close>, with at least one digit.\<close>

fun digits :: "nat \<Rightarrow> nat \<Rightarrow> cstring" where
  "digits b n = (if b < 2 then [] else if n < b then [''0123456789'' ! n] else digits b (n div b) @ [''0123456789'' ! (n mod b)])"

declare digits.simps [simp del]

definition fmt_i :: "int \<Rightarrow> cstring" where
  "fmt_i n = (if n < 0 then CHR ''-'' # digits 10 (nat (- n)) else digits 10 (nat n))"

text \<open>What successive calls of \<open>fgets\<close> with a buffer of 256 bytes give.\<close>

definition fgets :: "cstring \<Rightarrow> cstring" where
  "fgets s = (let l = takeWhile (\<lambda>c. c \<noteq> NEWLINE) s in take 255 (if length l < length s then l @ [NEWLINE] else l))"

lemma fgets_nonempty: "s \<noteq> [] \<Longrightarrow> fgets s \<noteq> []"
  by (cases s) (auto simp: fgets_def Let_def)

function fgets_all :: "cstring \<Rightarrow> cstring list" where
  "fgets_all s = (if s = [] then [] else fgets s # fgets_all (drop (length (fgets s)) s))"
  by pat_completeness auto
termination
  by (relation "measure length") (auto simp: fgets_nonempty)

declare fgets_all.simps [simp del]

subsection \<open>mount_util.c\<close>

abbreviation (input) PATH_MOUNTED :: cstring where "PATH_MOUNTED \<equiv> ''/etc/mtab''"

definition mtab_needs_update :: "proc_env \<Rightarrow> cstring \<Rightarrow> bool io" where
  "mtab_needs_update E mnt =
     (if length mnt < length PATH_MOUNTED \<and> take (length mnt) PATH_MOUNTED = mnt \<and> PATH_MOUNTED ! length mnt = CHR ''/''
      then result False
      else do {
        r \<leftarrow> sys E (Lstat PATH_MOUNTED);
        if ret r = - 1 then result (errnum r \<noteq> ENOENT)
        else if S_ISLNK (st_mode (stat_of r)) then result False
        else do {
          r \<leftarrow> sys E (Access_W PATH_MOUNTED);
          result (\<not> (ret r = - 1 \<and> errnum r = EROFS))
        }
      })"

text \<open>The frame the three functions that run a program share: signals are blocked, the child runs, the parent waits for
  it. A child that exits early says so by its status, which the environment gives.\<close>

definition run_child :: "proc_env \<Rightarrow> unit io \<Rightarrow> int io" where
  "run_child E child = do {
     r \<leftarrow> sys E (Sigprocmask True);
     if ret r = - 1 then result (- 1)
     else do {
       f \<leftarrow> sys E Fork;
       if ret f = - 1 then do { _ \<leftarrow> sys E (Sigprocmask False); result (- 1) }
       else do {
         _ \<leftarrow> child;
         w \<leftarrow> sys E Waitpid;
         _ \<leftarrow> sys E (Sigprocmask False);
         result (if status_of w \<noteq> 0 then - 1 else ret w)
       }
     }
   }"

definition add_mount_legacy :: "proc_env \<Rightarrow> cstring \<Rightarrow> cstring \<Rightarrow> cstring \<Rightarrow> cstring \<Rightarrow> int io" where
  "add_mount_legacy E fsname mnt type options = run_child E (do {
     _ \<leftarrow> sys E (Sigprocmask False);
     _ \<leftarrow> sys E (Setuid (geteuid E));
     t \<leftarrow> sys E (Mkdtemp ''/tmp/fusermountXXXXXX'');
     if ret t = - 1 then result ()
     else do {
       c \<leftarrow> sys E (Chdir (text_of t));
       if ret c \<noteq> 0 then result ()
       else do {
         _ \<leftarrow> sys E (Rmdir (text_of t));
         _ \<leftarrow> sys E (Execl [''/bin/mount'', ''/bin/mount'', ''-i'', ''-f'', ''-t'', type, ''-o'', options, fsname, mnt]);
         result ()
       }
     }
   })"

definition add_mount :: "proc_env \<Rightarrow> cstring \<Rightarrow> cstring \<Rightarrow> cstring \<Rightarrow> cstring \<Rightarrow> int io" where
  "add_mount E fsname mnt type options = run_child E (do {
     fd \<leftarrow> sys E (Open ''/dev/null'' O_RDONLY);
     _ \<leftarrow> sys E (Dup2 (ret fd) 1);
     _ \<leftarrow> sys E (Dup2 (ret fd) 2);
     _ \<leftarrow> sys E (Sigprocmask False);
     _ \<leftarrow> sys E (Setuid (geteuid E));
     _ \<leftarrow> sys E (Execl [''/bin/mount'', ''/bin/mount'', ''--no-canonicalize'', ''-i'', ''-f'', ''-t'', type, ''-o'', options, fsname, mnt]);
     result ()
   })"

definition fuse_mnt_add_mount :: "proc_env \<Rightarrow> cstring \<Rightarrow> cstring \<Rightarrow> cstring \<Rightarrow> cstring \<Rightarrow> int io" where
  "fuse_mnt_add_mount E fsname mnt type options = do {
     upd \<leftarrow> mtab_needs_update E mnt;
     if \<not> upd then result 0
     else do {
       res \<leftarrow> add_mount E fsname mnt type options;
       if res = - 1 then add_mount_legacy E fsname mnt type options else result res
     }
   }"

definition exec_umount :: "proc_env \<Rightarrow> cstring \<Rightarrow> bool \<Rightarrow> int io" where
  "exec_umount E rel_mnt lazy = run_child E (do {
     _ \<leftarrow> sys E (Sigprocmask False);
     _ \<leftarrow> sys E (Setuid (geteuid E));
     _ \<leftarrow> sys E (Execl ([''/bin/umount'', ''/bin/umount'', ''-i'', rel_mnt] @ (if lazy then [''-l''] else [])));
     result ()
   })"

definition fuse_mnt_umount :: "proc_env \<Rightarrow> cstring \<Rightarrow> cstring \<Rightarrow> bool \<Rightarrow> int io" where
  "fuse_mnt_umount E abs_mnt rel_mnt lazy = do {
     upd \<leftarrow> mtab_needs_update E abs_mnt;
     if \<not> upd then do { r \<leftarrow> sys E (Umount2 rel_mnt (if lazy then 2 else 0)); result (ret r) }
     else exec_umount E rel_mnt lazy
   }"

text \<open>The directory to resolve, and the last component, which is not resolved.\<close>

definition split_mountpoint :: "cstring \<Rightarrow> cstring \<times> cstring option" where
  "split_mountpoint orig =
     (let copy = rev (dropWhile (\<lambda>c. c = CHR ''/'') (rev orig))
      in if copy = [] then (orig, None)
         else if last_part copy = ''.'' \<or> last_part copy = ''..'' then (copy, None)
         else if CHR ''/'' \<notin> set copy then (''.'', Some copy)
         else (if first_part copy = [] then ''/'' else first_part copy, Some (last_part copy)))"

definition fuse_mnt_resolve_path :: "proc_env \<Rightarrow> cstring \<Rightarrow> cstring option io" where
  "fuse_mnt_resolve_path E orig =
     (if orig = [] then result None
      else do {
        ok \<leftarrow> malloc;
        if \<not> ok then result None
        else do {
          let (toresolv, lastcomp) = split_mountpoint orig;
          r \<leftarrow> sys E (Realpath toresolv);
          if ret r = - 1 then result None
          else do {
            ok \<leftarrow> malloc;
            result (if \<not> ok then None
              else Some (case lastcomp of
                  None \<Rightarrow> text_of r
                | Some l \<Rightarrow> if text_of r \<noteq> [] \<and> last (text_of r) = CHR ''/'' then text_of r @ l else text_of r @ ''/'' @ l))
          }
        }
      })"

definition fuse_mnt_check_empty :: "proc_env \<Rightarrow> cstring \<Rightarrow> u32 \<Rightarrow> off_t \<Rightarrow> int io" where
  "fuse_mnt_check_empty E mnt rootmode rootsize =
     (if S_ISDIR rootmode then do {
        r \<leftarrow> sys E (Opendir mnt);
        result (if ret r = - 1 then - 1 else if \<exists>n\<in>set (names_of r). n \<noteq> ''.'' \<and> n \<noteq> ''..'' then - 1 else 0)
      }
      else result (if rootsize \<noteq> 0 then - 1 else 0))"

definition fuse_mnt_check_fuseblk :: "proc_env \<Rightarrow> bool io" where
  "fuse_mnt_check_fuseblk E = do {
     f \<leftarrow> sys E (Fopen ''/proc/filesystems'');
     result (ret f = - 1 \<or> (\<exists>l\<in>set (fgets_all (text_of f)). strstr l (''fuseblk'' @ [NEWLINE]) \<noteq> None))
   }"

end
