(* ===== verification/Fusermount.thy ===== *)
theory Fusermount
  imports Mount_Util
begin

text \<open>
  The program that mounts and unmounts file systems for users (\<open>util/fusermount.c\<close>). It is installed set-user-id
  root: what it checks is all that keeps a user from mounting as root. Messages are left out.
\<close>

unbundle bit_operations_syntax

abbreviation (input) FUSE_DEV_OLD :: cstring where "FUSE_DEV_OLD \<equiv> ''/proc/fs/fuse/dev''"
abbreviation (input) FUSE_DEV_NEW :: cstring where "FUSE_DEV_NEW \<equiv> ''/dev/fuse''"
abbreviation (input) FUSE_CONF :: cstring where "FUSE_CONF \<equiv> ''/etc/fuse.conf''"

definition MS_RDONLY :: u32 where "MS_RDONLY = 1"
definition MS_NOSUID :: u32 where "MS_NOSUID = 2"
definition MS_NODEV :: u32 where "MS_NODEV = 4"
definition MS_NOEXEC :: u32 where "MS_NOEXEC = 8"
definition MS_SYNCHRONOUS :: u32 where "MS_SYNCHRONOUS = 16"
definition MS_DIRSYNC :: u32 where "MS_DIRSYNC = 128"
definition MS_NOATIME :: u32 where "MS_NOATIME = 1024"
abbreviation (input) MS_BIND :: u32 where "MS_BIND \<equiv> 4096"
abbreviation (input) MS_REC :: u32 where "MS_REC \<equiv> 16384"
abbreviation (input) MS_PRIVATE :: u32 where "MS_PRIVATE \<equiv> 0x40000"

definition get_user_name :: "proc_env \<Rightarrow> cstring option io" where
  "get_user_name E = do { r \<leftarrow> sys E (Getpwuid (getuid E)); result (if ret r = - 1 then None else Some (text_of r)) }"

text \<open>\<open>setfsuid\<close> and \<open>setfsgid\<close> answer with the identity that was in use.\<close>

definition drop_privs :: "proc_env \<Rightarrow> unit io" where
  "drop_privs E =
     (if getuid E \<noteq> 0 then do {
        u \<leftarrow> sys E (Setfsuid (getuid E));
        _ \<leftarrow> State_Monad.update (\<lambda>s. s\<lparr>oldfsuid := word_of_int (ret u)\<rparr>);
        g \<leftarrow> sys E (Setfsgid (getgid E));
        State_Monad.update (\<lambda>s. s\<lparr>oldfsgid := word_of_int (ret g)\<rparr>)
      } else result ())"

definition restore_privs :: "proc_env \<Rightarrow> unit io" where
  "restore_privs E =
     (if getuid E \<noteq> 0 then do {
        s \<leftarrow> State_Monad.get;
        _ \<leftarrow> sys E (Setfsuid (oldfsuid s));
        _ \<leftarrow> sys E (Setfsgid (oldfsgid s));
        result ()
      } else result ())"

subsection \<open>Unmounting\<close>

definition lock_umount :: "proc_env \<Rightarrow> int io" where
  "lock_umount E = do {
     l \<leftarrow> sys E (Lstat PATH_MOUNTED);
     if ret l = 0 \<and> S_ISLNK (st_mode (stat_of l)) then result (- 1)
     else do {
       fd \<leftarrow> sys E (Open (PATH_MOUNTED @ ''.fuselock'') O_LOCKFILE);
       if ret fd = - 1 then result (- 1)
       else do {
         r \<leftarrow> sys E (Lockf (ret fd) True);
         if ret r < 0 then do { _ \<leftarrow> sys E (Close (ret fd)); result (- 1) }
         else result (ret fd)
       }
     }
   }"

definition unlock_umount :: "proc_env \<Rightarrow> int \<Rightarrow> unit io" where
  "unlock_umount E mtablock = do { _ \<leftarrow> sys E (Lockf mtablock False); _ \<leftarrow> sys E (Close mtablock); result () }"

text \<open>Whether an entry of the table is a file system of this user: the option \<open>user=\<close>, which has to be the last one,
  or \<open>user_id=\<close>. Only the first place the name of the option is found at is looked at.\<close>

definition is_fuse_type :: "cstring \<Rightarrow> bool" where
  "is_fuse_type t \<longleftrightarrow> t = ''fuse'' \<or> t = ''fuseblk'' \<or> begins_with t ''fuse.'' \<or> begins_with t ''fuseblk.''"

definition at_option :: "cstring \<Rightarrow> cstring \<Rightarrow> cstring option" where
  "at_option options name =
     (case strstr options name of
        None \<Rightarrow> None
      | Some i \<Rightarrow> if i = 0 \<or> options ! (i - 1) = CHR '','' then Some (drop (i + length name) options) else None)"

definition mounted_by :: "cstring \<Rightarrow> cstring \<Rightarrow> cstring \<Rightarrow> bool" where
  "mounted_by options user uidstr \<longleftrightarrow>
     at_option options ''user='' = Some user \<or>
     (case at_option options ''user_id='' of
        None \<Rightarrow> False
      | Some v \<Rightarrow> begins_with v uidstr \<and> (drop (length uidstr) v = [] \<or> hd (drop (length uidstr) v) = CHR '',''))"

definition may_unmount :: "proc_env \<Rightarrow> cstring \<Rightarrow> int io" where
  "may_unmount E mnt = do {
     user \<leftarrow> get_user_name E;
     case user of
       None \<Rightarrow> result (- 1)
     | Some user \<Rightarrow> do {
         tab \<leftarrow> sys E (Setmntent PATH_MOUNTED);
         if ret tab = - 1 then result (- 1)
         else result (if \<exists>e\<in>set (ents_of tab). mnt_dir e = mnt \<and> is_fuse_type (mnt_type e) \<and>
             mounted_by (mnt_opts e) user (digits 10 (unat (getuid E))) then 0 else - 1)
       }
   }"

text \<open>The child in a name space of its own: 0 or 1, the status it exits with.\<close>

definition check_is_mount_child :: "proc_env \<Rightarrow> cstring \<Rightarrow> int io" where
  "check_is_mount_child E lst = do {
     r \<leftarrow> sys E (Mount [] ''/'' [] (MS_PRIVATE OR MS_REC) None);
     if ret r = - 1 then result 1
     else do {
       old \<leftarrow> sys E (Setmntent ''/proc/mounts'');
       if ret old = - 1 then result 1
       else do {
         tab \<leftarrow> sys E (Setmntent ''/proc/mounts'');
         if ret tab = - 1 then result 1
         else do {
           r \<leftarrow> sys E (Mount ''.'' ''/'' [] (MS_BIND OR MS_REC) None);
           result (if ret r = - 1 then 1
             else if \<exists>e\<in>set (drop (length (ents_of old)) (ents_of tab)). mnt_dir e = CHR ''/'' # lst then 0 else 1)
         }
       }
     }
   }"

definition check_is_mount :: "proc_env \<Rightarrow> cstring \<Rightarrow> int io" where
  "check_is_mount E lst = do {
     pid \<leftarrow> sys E Clone_newns;
     if ret pid = - 1 then result (- 1)
     else do {
       status \<leftarrow> check_is_mount_child E lst;
       w \<leftarrow> sys E Waitpid;
       result (if ret w = - 1 then - 1 else if status_of w \<noteq> 0 then - 1 else if status \<noteq> 0 then - 1 else 0)
     }
   }"

text \<open>The result, the last component and the descriptor of the directory the process was in.\<close>

definition chdir_to_parent :: "proc_env \<Rightarrow> cstring \<Rightarrow> (int \<times> cstring \<times> int) io" where
  "chdir_to_parent E copy =
     (if CHR ''/'' \<notin> set copy \<or> last_part copy = [] then result (- 1, [], - 1)
      else do {
        let lst = last_part copy;
        let parnt = (if first_part copy = [] then ''/'' else first_part copy);
        fd \<leftarrow> sys E (Open ''.'' O_RDONLY);
        if ret fd = - 1 then result (- 1, lst, - 1)
        else do {
          r \<leftarrow> sys E (Chdir parnt);
          if ret r = - 1 then result (- 1, lst, ret fd)
          else do {
            cwd \<leftarrow> sys E Getcwd;
            result (if ret cwd = - 1 then - 1 else if text_of cwd \<noteq> parnt then - 1 else 0, lst, ret fd)
          }
        }
      })"

definition back_to :: "proc_env \<Rightarrow> int \<Rightarrow> unit io" where
  "back_to E fd = (if fd \<noteq> - 1 then do { _ \<leftarrow> sys E (Fchdir fd); _ \<leftarrow> sys E (Close fd); result () } else result ())"

definition unmount_fuse_locked :: "proc_env \<Rightarrow> cstring \<Rightarrow> bool \<Rightarrow> int io" where
  "unmount_fuse_locked E mnt lazy = do {
     res \<leftarrow> (if getuid E \<noteq> 0 then may_unmount E mnt else result 0);
     if res = - 1 then result (- 1)
     else do {
       ok \<leftarrow> malloc;
       if \<not> ok then result (- 1)
       else do {
         (res, lst, fd) \<leftarrow> chdir_to_parent E mnt;
         res \<leftarrow> (if res = - 1 then result (- 1)
           else do {
             res \<leftarrow> check_is_mount E lst;
             if res = - 1 then result (- 1) else fuse_mnt_umount E mnt lst lazy
           });
         _ \<leftarrow> back_to E fd;
         result res
       }
     }
   }"

definition unmount_fuse :: "proc_env \<Rightarrow> cstring \<Rightarrow> bool \<Rightarrow> int io" where
  "unmount_fuse E mnt lazy = do {
     mtablock \<leftarrow> lock_umount E;
     res \<leftarrow> unmount_fuse_locked E mnt lazy;
     _ \<leftarrow> unlock_umount E mtablock;
     result res
   }"

definition count_fuse_fs :: "proc_env \<Rightarrow> int io" where
  "count_fuse_fs E = do {
     tab \<leftarrow> sys E (Setmntent PATH_MOUNTED);
     result (if ret tab = - 1 then - 1
       else int (length (filter (\<lambda>e. mnt_type e = ''fuse'' \<or> begins_with (mnt_type e) ''fuse.'') (ents_of tab))))
   }"

subsection \<open>The configuration\<close>

definition strip_line :: "cstring \<Rightarrow> cstring" where
  "strip_line line = dropWhile is_space (rev (dropWhile is_space (rev (takeWhile (\<lambda>c. c \<noteq> CHR ''#'') line))))"

text \<open>The conversion \<open>%i\<close>: a number with its base in front, read as \<open>long\<close> and stored as \<open>int\<close>, and what follows it.\<close>

definition scan_i :: "cstring \<Rightarrow> (int \<times> cstring) option" where
  "scan_i s =
     (let (neg, t) = scan_sign (dropWhile is_space s);
          (b, t) = (if begins_with t ''0x'' \<or> begins_with t ''0X'' then (16, drop 2 t)
                    else if begins_with t ''0'' then (8, t) else (10, t));
          ds = takeWhile (\<lambda>c. digit_val c < b) t;
          v = digits_value b ds;
          v = max (- (2 ^ 63)) (min (2 ^ 63 - 1) (if neg then - v else v))
      in if ds = [] \<and> b \<noteq> 16 then None else Some (sint (word_of_int v :: 32 word), drop (length ds) t))"

definition scan_mount_max :: "cstring \<Rightarrow> int option" where
  "scan_mount_max line =
     (if begins_with line ''mount_max'' then
        (case dropWhile is_space (drop 9 line) of
           c # r \<Rightarrow> if c = CHR ''='' then map_option fst (scan_i r) else None
         | [] \<Rightarrow> None)
      else None)"

definition parse_line :: "cstring \<Rightarrow> proc \<Rightarrow> proc" where
  "parse_line line s =
     (if line = ''user_allow_other'' then s\<lparr>user_allow_other := True\<rparr>
      else case scan_mount_max line of Some n \<Rightarrow> s\<lparr>mount_max := n\<rparr> | None \<Rightarrow> s)"

text \<open>The loop of \<open>read_conf\<close> over what \<open>fgets\<close> gives: lines that do not fit are skipped to their end.\<close>

primrec read_lines :: "cstring list \<Rightarrow> bool \<Rightarrow> proc \<Rightarrow> proc" where
  "read_lines [] isnewline s = s"
| "read_lines (line # lines) isnewline s =
     (if isnewline then
        if line \<noteq> [] \<and> last line = NEWLINE then read_lines lines True (parse_line (strip_line line) s)
        else read_lines lines False s
      else read_lines lines (line \<noteq> [] \<and> last line = NEWLINE) s)"

definition read_conf :: "proc_env \<Rightarrow> unit io" where
  "read_conf E = do {
     f \<leftarrow> sys E (Fopen FUSE_CONF);
     if ret f \<noteq> - 1 then State_Monad.update (read_lines (fgets_all (text_of f)) True) else result ()
   }"

subsection \<open>Mount options\<close>

record mount_flag =
  mf_opt :: cstring
  mf_flag :: u32
  mf_on :: bool
  mf_safe :: bool

definition mount_flags :: "mount_flag list" where
  "mount_flags =
     map (\<lambda>(opt, flag, on, safe). \<lparr>mf_opt = opt, mf_flag = flag, mf_on = on, mf_safe = safe\<rparr>)
       [(''rw'', MS_RDONLY, False, True), (''ro'', MS_RDONLY, True, True), (''suid'', MS_NOSUID, False, False),
        (''nosuid'', MS_NOSUID, True, True), (''dev'', MS_NODEV, False, False), (''nodev'', MS_NODEV, True, True),
        (''exec'', MS_NOEXEC, False, True), (''noexec'', MS_NOEXEC, True, True), (''async'', MS_SYNCHRONOUS, False, True),
        (''sync'', MS_SYNCHRONOUS, True, True), (''atime'', MS_NOATIME, False, True), (''noatime'', MS_NOATIME, True, True),
        (''dirsync'', MS_DIRSYNC, True, True)]"

definition find_mount_flag :: "proc_env \<Rightarrow> cstring \<Rightarrow> (bool \<times> u32) option" where
  "find_mount_flag E tok =
     map_option (\<lambda>f. (mf_on f, if \<not> mf_safe f \<and> getuid E \<noteq> 0 then 0 else mf_flag f)) (find (\<lambda>f. mf_opt f = tok) mount_flags)"

text \<open>The new string, if there is memory for it.\<close>

definition add_option :: "cstring option \<Rightarrow> cstring \<Rightarrow> cstring option io" where
  "add_option optsp opt = do {
     ok \<leftarrow> malloc;
     result (if \<not> ok then None else Some (case optsp of None \<Rightarrow> opt | Some s \<Rightarrow> s @ '','' @ opt))
   }"

primrec add_flag_options :: "u32 \<Rightarrow> mount_flag list \<Rightarrow> cstring option \<Rightarrow> cstring option option io" where
  "add_flag_options flags [] s = result (Some s)"
| "add_flag_options flags (f # fs) s =
     (if mf_on f \<and> flags AND mf_flag f \<noteq> 0 then do {
        s \<leftarrow> add_option s (mf_opt f);
        case s of None \<Rightarrow> result None | Some s \<Rightarrow> add_flag_options flags fs (Some s)
      } else add_flag_options flags fs s)"

definition get_mnt_opts :: "proc_env \<Rightarrow> u32 \<Rightarrow> cstring \<Rightarrow> cstring option io" where
  "get_mnt_opts E flags options = do {
     s \<leftarrow> (if flags AND MS_RDONLY = 0 then do { s \<leftarrow> add_option None ''rw''; result (map_option Some s) } else result (Some None));
     case s of
       None \<Rightarrow> result None
     | Some s \<Rightarrow> do {
         s \<leftarrow> add_flag_options flags mount_flags s;
         case s of
           None \<Rightarrow> result None
         | Some s \<Rightarrow> do {
             s \<leftarrow> add_option s options;
             case s of
               None \<Rightarrow> result None
             | Some s \<Rightarrow> do {
                 let s = (if s \<noteq> [] \<and> last s = CHR '','' then butlast s else s);
                 if getuid E \<noteq> 0 then do {
                   user \<leftarrow> get_user_name E;
                   case user of
                     None \<Rightarrow> result None
                   | Some user \<Rightarrow> do { s \<leftarrow> add_option (Some s) ''user=''; result (map_option (\<lambda>s. s @ user) s) }
                 } else result (Some s)
               }
           }
       }
   }"

text \<open>The length of the option a string begins with: up to a comma that no backslash stands in front of.\<close>

fun opt_len :: "cstring \<Rightarrow> nat" where
  "opt_len [] = 0"
| "opt_len (c # cs) =
     (if c = BACKSLASH_C then (case cs of [] \<Rightarrow> 1 | _ # cs' \<Rightarrow> 2 + opt_len cs')
      else if c = CHR '','' then 0 else 1 + opt_len cs)"

fun unescape :: "cstring \<Rightarrow> cstring" where
  "unescape [] = []"
| "unescape (c # cs) = (if c = BACKSLASH_C then (case cs of [] \<Rightarrow> [c] | e # cs' \<Rightarrow> e # unescape cs') else c # unescape cs)"

definition get_string_opt :: "cstring \<Rightarrow> cstring \<Rightarrow> cstring option io" where
  "get_string_opt tok opt = do { ok \<leftarrow> malloc; result (if ok then Some (unescape (drop (length opt) tok)) else None) }"

text \<open>What the loop of \<open>do_mount\<close> collects; \<open>mo_buf\<close> is what it has written to \<open>optbuf\<close>.\<close>

record mount_opts =
  mo_flags :: u32
  mo_fsname :: "cstring option"
  mo_subtype :: "cstring option"
  mo_check_empty :: bool
  mo_blkdev :: bool
  mo_buf :: cstring

definition kernel_release :: "cstring \<Rightarrow> (int \<times> int) option" where
  "kernel_release s =
     (let num = (\<lambda>s. let ds = takeWhile (\<lambda>c. digit_val c < 10) s in (ds, drop (length ds) s)); (a, r) = num s
      in if a = [] then None
         else case r of
             c # r \<Rightarrow> if c = CHR ''.'' \<and> fst (num r) \<noteq> [] then Some (digits_value 10 a, digits_value 10 (fst (num r))) else None
           | [] \<Rightarrow> None)"

text \<open>\<open>None\<close> is the jump to \<open>err\<close>.\<close>

definition other_option :: "proc_env \<Rightarrow> cstring \<Rightarrow> mount_opts \<Rightarrow> mount_opts option io" where
  "other_option E tok m = do {
     skip \<leftarrow> (if tok = ''large_read'' then do {
                r \<leftarrow> sys E Uname;
                result (ret r = 0 \<and> (case kernel_release (text_of r) of Some (a, b) \<Rightarrow> a > 2 \<or> a = 2 \<and> b > 4 | None \<Rightarrow> False))
              } else result False);
     s \<leftarrow> State_Monad.get;
     if getuid E \<noteq> 0 \<and> \<not> user_allow_other s \<and> (tok = ''allow_other'' \<or> tok = ''allow_root'') then result None
     else result (Some (if skip then m
       else case find_mount_flag E tok of
           Some (on, flag) \<Rightarrow> m\<lparr>mo_flags := (if on then mo_flags m OR flag else mo_flags m AND NOT flag)\<rparr>
         | None \<Rightarrow> m\<lparr>mo_buf := mo_buf m @ tok @ '',''\<rparr>))
   }"

definition mount_option :: "proc_env \<Rightarrow> cstring \<Rightarrow> mount_opts \<Rightarrow> mount_opts option io" where
  "mount_option E s m =
     (let tok = take (opt_len s) s
      in if begins_with s ''fsname='' then do {
           v \<leftarrow> get_string_opt tok ''fsname='';
           result (map_option (\<lambda>v. m\<lparr>mo_fsname := Some v\<rparr>) v)
         }
         else if begins_with s ''subtype='' then do {
           v \<leftarrow> get_string_opt tok ''subtype='';
           result (map_option (\<lambda>v. m\<lparr>mo_subtype := Some v\<rparr>) v)
         }
         else if tok = ''blkdev'' then result (if getuid E \<noteq> 0 then None else Some (m\<lparr>mo_blkdev := True\<rparr>))
         else if tok = ''nonempty'' then result (Some (m\<lparr>mo_check_empty := False\<rparr>))
         else if \<not> begins_with s ''fd='' \<and> \<not> begins_with s ''rootmode='' \<and> \<not> begins_with s ''user_id='' \<and> \<not> begins_with s ''group_id=''
           then other_option E tok m
         else result (Some m))"

definition next_option :: "cstring \<Rightarrow> cstring" where
  "next_option s = drop (Suc (opt_len s)) s"

function mount_options :: "proc_env \<Rightarrow> cstring \<Rightarrow> mount_opts \<Rightarrow> mount_opts option io" where
  "mount_options E s m =
     (if s = [] then result (Some m)
      else do {
        r \<leftarrow> mount_option E s m;
        case r of None \<Rightarrow> result None | Some m \<Rightarrow> mount_options E (next_option s) m
      })"
  by pat_completeness auto
termination
  by (relation "measure (\<lambda>(E, s, m). length s)") (auto simp: next_option_def)

declare mount_options.simps [simp del]

subsection \<open>Mounting\<close>

text \<open>The options the kernel gets behind the ones of the user.\<close>

definition fd_options :: "proc_env \<Rightarrow> int \<Rightarrow> u32 \<Rightarrow> bool \<Rightarrow> cstring" where
  "fd_options E fd rootmode with_group = ''fd='' @ fmt_i fd @ '',rootmode='' @ digits 8 (unat rootmode) @
     '',user_id='' @ fmt_i (sint (getuid E)) @ (if with_group then '',group_id='' @ fmt_i (sint (getgid E)) else [])"

text \<open>The call of \<open>mount\<close>, and the two others that are tried when it fails: without the subtype, and without the
  group. The last answer, the source and the type.\<close>

definition try_mount :: "proc_env \<Rightarrow> cstring \<Rightarrow> cstring \<Rightarrow> int \<Rightarrow> u32 \<Rightarrow> mount_opts \<Rightarrow> (answer \<times> cstring \<times> cstring) io" where
  "try_mount E mnt dev fd rootmode m = do {
     let base = (if mo_blkdev m then ''fuseblk'' else ''fuse'');
     let type = (case mo_subtype m of Some t \<Rightarrow> base @ ''.'' @ t | None \<Rightarrow> base);
     let source = (case mo_fsname m of Some f \<Rightarrow> f | None \<Rightarrow> (case mo_subtype m of Some t \<Rightarrow> t | None \<Rightarrow> dev));
     r \<leftarrow> sys E (Mount source mnt type (mo_flags m) (Some (mo_buf m @ fd_options E fd rootmode True)));
     (r, source, type) \<leftarrow>
       (case mo_subtype m of
          Some t \<Rightarrow>
            if ret r = - 1 \<and> errnum r = ENODEV then do {
              let source = (case mo_fsname m of Some f \<Rightarrow> if \<not> mo_blkdev m then t @ ''#'' @ f else source | None \<Rightarrow> base);
              r \<leftarrow> sys E (Mount source mnt base (mo_flags m) (Some (mo_buf m @ fd_options E fd rootmode True)));
              result (r, source, base)
            } else result (r, source, type)
        | None \<Rightarrow> result (r, source, type));
     if ret r = - 1 \<and> errnum r = EINVAL then do {
       r \<leftarrow> sys E (Mount source mnt type (mo_flags m) (Some (mo_buf m @ fd_options E fd rootmode False)));
       result (r, source, type)
     } else result (r, source, type)
   }"

definition default_opts :: mount_opts where
  "default_opts = \<lparr>mo_flags = MS_NOSUID OR MS_NODEV, mo_fsname = None, mo_subtype = None, mo_check_empty = True, mo_blkdev = False, mo_buf = []\<rparr>"

text \<open>\<open>do_mount\<close>: the source, the type and the options for the table, or \<open>None\<close> for -1.\<close>

definition do_mount :: "proc_env \<Rightarrow> cstring \<Rightarrow> u32 \<Rightarrow> int \<Rightarrow> cstring \<Rightarrow> cstring \<Rightarrow> off_t \<Rightarrow> (cstring \<times> cstring \<times> cstring) option io" where
  "do_mount E mnt rootmode fd options dev rootsize = do {
     ok \<leftarrow> malloc;
     if \<not> ok then result None
     else do {
       m \<leftarrow> mount_options E options default_opts;
       case m of
         None \<Rightarrow> result None
       | Some m \<Rightarrow> do {
           mopts \<leftarrow> get_mnt_opts E (mo_flags m) (mo_buf m);
           case mopts of
             None \<Rightarrow> result None
           | Some mopts \<Rightarrow> do {
               empty \<leftarrow> (if mo_check_empty m then fuse_mnt_check_empty E mnt rootmode rootsize else result 0);
               if empty = - 1 then result None
               else do {
                 ok1 \<leftarrow> malloc; ok2 \<leftarrow> malloc;
                 if \<not> ok1 \<or> \<not> ok2 then result None
                 else do {
                   (r, source, type) \<leftarrow> try_mount E mnt dev fd rootmode m;
                   if ret r = - 1 then do {
                     _ \<leftarrow> (if mo_blkdev m \<and> errnum r = ENODEV then fuse_mnt_check_fuseblk E else result True);
                     result None
                   } else result (Some (source, type, mopts))
                 }
               }
             }
         }
     }
   }"

definition check_version :: "proc_env \<Rightarrow> cstring \<Rightarrow> int io" where
  "check_version E dev =
     (if dev \<noteq> FUSE_DEV_OLD then result 0
      else do {
        f \<leftarrow> sys E (Fopen ''/proc/fs/fuse/version'');
        result (if ret f = - 1 then - 1
          else case scan_i (text_of f) of
              Some (major, c # r) \<Rightarrow> if c = CHR ''.'' \<and> scan_i r \<noteq> None then if major < 3 then - 1 else 0 else - 1
            | _ \<Rightarrow> - 1)
      })"

text \<open>What \<open>check_perm\<close> writes: the name to mount on, the attributes, and the two descriptors.\<close>

record perm =
  pm_mnt :: cstring
  pm_stat :: stat
  pm_currdir :: int
  pm_mountpoint :: int

definition check_dir :: "proc_env \<Rightarrow> cstring \<Rightarrow> perm \<Rightarrow> (int \<times> perm) io" where
  "check_dir E mnt p = do {
     fd \<leftarrow> sys E (Open ''.'' O_RDONLY);
     let p = p\<lparr>pm_currdir := ret fd\<rparr>;
     if ret fd = - 1 then result (- 1, p)
     else do {
       r \<leftarrow> sys E (Chdir mnt);
       if ret r = - 1 then result (- 1, p)
       else do {
         let p = p\<lparr>pm_mnt := ''.''\<rparr>;
         r \<leftarrow> sys E (Lstat ''.'');
         if ret r = - 1 then result (- 1, p)
         else do {
           let p = p\<lparr>pm_stat := stat_of r\<rparr>;
           if st_mode (stat_of r) AND 0x200 \<noteq> 0 \<and> st_uid (stat_of r) \<noteq> getuid E then result (- 1, p)
           else do {
             r \<leftarrow> sys E (Access_W ''.'');
             result (if ret r = - 1 then - 1 else 0, p)
           }
         }
       }
     }
   }"

definition check_file :: "proc_env \<Rightarrow> cstring \<Rightarrow> perm \<Rightarrow> (int \<times> perm) io" where
  "check_file E mnt p = do {
     fd \<leftarrow> sys E (Open mnt O_WRONLY);
     let p = p\<lparr>pm_mountpoint := ret fd\<rparr>;
     if ret fd = - 1 then result (- 1, p)
     else do {
       r \<leftarrow> sys E (Fstat (ret fd));
       if ret r = - 1 then result (- 1, p)
       else do {
         let p = p\<lparr>pm_stat := stat_of r\<rparr>;
         if \<not> S_ISREG (st_mode (stat_of r)) then result (- 1, p)
         else result (0, p\<lparr>pm_mnt := ''/proc/self/fd/'' @ fmt_i (ret fd)\<rparr>)
       }
     }
   }"

definition check_perm :: "proc_env \<Rightarrow> cstring \<Rightarrow> (int \<times> perm) io" where
  "check_perm E mnt = do {
     r \<leftarrow> sys E (Lstat mnt);
     let p = \<lparr>pm_mnt = mnt, pm_stat = stat_of r, pm_currdir = - 1, pm_mountpoint = - 1\<rparr>;
     if ret r = - 1 then result (- 1, p)
     else if getuid E = 0 then result (0, p)
     else if S_ISDIR (st_mode (stat_of r)) then check_dir E mnt p
     else if S_ISREG (st_mode (stat_of r)) then check_file E mnt p
     else result (- 1, p)
   }"

text \<open>The descriptor and the name of the device; \<open>- 2\<close> when there is none.\<close>

definition try_open :: "proc_env \<Rightarrow> cstring \<Rightarrow> int io" where
  "try_open E dev = do {
     fd \<leftarrow> sys E (Open dev O_RDWR);
     if ret fd \<noteq> - 1 then do {
       ok \<leftarrow> malloc;
       if ok then result (ret fd) else do { _ \<leftarrow> sys E (Close (ret fd)); result (- 1) }
     }
     else result (if errnum fd = ENODEV \<or> errnum fd = ENOENT then - 2 else - 1)
   }"

definition try_open_fuse_device :: "proc_env \<Rightarrow> (int \<times> cstring) io" where
  "try_open_fuse_device E = do {
     _ \<leftarrow> drop_privs E;
     fd \<leftarrow> try_open E FUSE_DEV_NEW;
     _ \<leftarrow> restore_privs E;
     if fd \<ge> 0 then result (fd, FUSE_DEV_NEW)
     else do {
       fd2 \<leftarrow> try_open E FUSE_DEV_OLD;
       result (if fd2 \<ge> 0 then fd2 else fd, FUSE_DEV_OLD)
     }
   }"

definition open_fuse_device :: "proc_env \<Rightarrow> (int \<times> cstring) io" where
  "open_fuse_device E = do {
     (fd, dev) \<leftarrow> try_open_fuse_device E;
     result (if fd \<ge> - 1 then fd else - 1, dev)
   }"

text \<open>The part of \<open>mount_fuse\<close> that needs the device: checks with the rights of the user, then the mount with
  those of the program.\<close>

definition mount_checked :: "proc_env \<Rightarrow> cstring \<Rightarrow> cstring \<Rightarrow> int \<Rightarrow> cstring \<Rightarrow> ((cstring \<times> cstring \<times> cstring) option \<times> perm) io" where
  "mount_checked E mnt options fd dev = do {
     v \<leftarrow> check_version E dev;
     if v \<noteq> - 1 then do {
       (res, p) \<leftarrow> check_perm E mnt;
       _ \<leftarrow> restore_privs E;
       if res \<noteq> - 1 then do {
         r \<leftarrow> do_mount E (pm_mnt p) (S_IFMT (st_mode (pm_stat p))) fd options dev (st_size (pm_stat p));
         result (r, p)
       } else result (None, p)
     } else do {
       _ \<leftarrow> restore_privs E;
       result (None, \<lparr>pm_mnt = mnt, pm_stat = stat0, pm_currdir = - 1, pm_mountpoint = - 1\<rparr>)
     }
   }"

definition mount_fuse :: "proc_env \<Rightarrow> cstring \<Rightarrow> cstring \<Rightarrow> int io" where
  "mount_fuse E mnt options = do {
     (fd, dev) \<leftarrow> open_fuse_device E;
     if fd = - 1 then result (- 1)
     else do {
       _ \<leftarrow> drop_privs E;
       _ \<leftarrow> read_conf E;
       s \<leftarrow> State_Monad.get;
       count \<leftarrow> (if getuid E \<noteq> 0 \<and> mount_max s \<noteq> - 1 then do { n \<leftarrow> count_fuse_fs E; result (n \<ge> mount_max s) } else result False);
       if count then do { _ \<leftarrow> sys E (Close fd); result (- 1) }
       else do {
         (r, p) \<leftarrow> mount_checked E mnt options fd dev;
         _ \<leftarrow> back_to E (pm_currdir p);
         _ \<leftarrow> (if pm_mountpoint p \<noteq> - 1 then do { _ \<leftarrow> sys E (Close (pm_mountpoint p)); result () } else result ());
         case r of
           None \<Rightarrow> do { _ \<leftarrow> sys E (Close fd); result (- 1) }
         | Some (source, type, mopts) \<Rightarrow>
             if geteuid E = 0 then do {
               res \<leftarrow> fuse_mnt_add_mount E source mnt type mopts;
               if res = - 1 then do { _ \<leftarrow> sys E (Umount2 mnt 2); _ \<leftarrow> sys E (Close fd); result (- 1) }
               else result fd
             } else result fd
       }
     }
   }"

definition send_fd :: "proc_env \<Rightarrow> int \<Rightarrow> int \<Rightarrow> int io" where
  "send_fd E sock_fd fd = do { r \<leftarrow> sys E (Sendmsg sock_fd fd); result (if ret r \<noteq> 1 then - 1 else 0) }"

text \<open>
  \<open>main\<close>: the options \<open>getopt_long\<close> found, in order, with their arguments, and what follows them; the status the program exits
  with.
\<close>

datatype fm_opt = Opt_h | Opt_V | Opt_o cstring | Opt_u | Opt_z | Opt_q | Opt_bad

fun stop_option :: "fm_opt list \<Rightarrow> int option" where
  "stop_option [] = None"
| "stop_option (Opt_h # fs) = Some 1"
| "stop_option (Opt_V # fs) = Some 0"
| "stop_option (Opt_bad # fs) = Some 1"
| "stop_option (_ # fs) = stop_option fs"

definition atoi :: "cstring \<Rightarrow> int" where
  "atoi s = (case scan_int 10 s of Some n \<Rightarrow> sint (word_of_int n :: 32 word) | None \<Rightarrow> 0)"

definition fusermount_main :: "proc_env \<Rightarrow> fm_opt list \<Rightarrow> cstring list \<Rightarrow> int io" where
  "fusermount_main E flags args = do {
     ok \<leftarrow> malloc;
     if \<not> ok then result 1
     else case stop_option flags of
       Some n \<Rightarrow> result n
     | None \<Rightarrow> do {
         let lazy = (Opt_z \<in> set flags);
         let unmount = (Opt_u \<in> set flags);
         let options = foldl (\<lambda>o' x. case x of Opt_o s \<Rightarrow> s | _ \<Rightarrow> o') [] flags;
         if lazy \<and> \<not> unmount then result 1
         else case args of
           [origmnt] \<Rightarrow> do {
             _ \<leftarrow> drop_privs E;
             mnt \<leftarrow> fuse_mnt_resolve_path E origmnt;
             _ \<leftarrow> restore_privs E;
             case mnt of
               None \<Rightarrow> result 1
             | Some mnt \<Rightarrow> do {
                 _ \<leftarrow> sys E (Umask 27);
                 if unmount then do {
                   res \<leftarrow> (if geteuid E = 0 then unmount_fuse E mnt lazy
                           else do { r \<leftarrow> sys E (Umount2 mnt (if lazy then 2 else 0)); result (ret r) });
                   result (if res = - 1 then 1 else 0)
                 }
                 else case commfd E of
                   None \<Rightarrow> result 1
                 | Some c \<Rightarrow> do {
                     fd \<leftarrow> mount_fuse E mnt options;
                     if fd = - 1 then result 1
                     else do { res \<leftarrow> send_fd E (atoi c) fd; result (if res = - 1 then 1 else 0) }
                   }
               }
           }
         | _ \<Rightarrow> result 1
       }
   }"

end
