(* ===== verification/Fusermount_Proofs.thy ===== *)
theory Fusermount_Proofs
  imports Fusermount
begin

text \<open>
  What the program that mounts for users lets them do, whatever the system answers: the mounts it makes for a user
  have the flags that take away set-user-id files and devices, end with the identity of the user, carry options of the list that was asked for,
  and are on a directory or file the user may write, as checked with the rights of the user.
  The last part is what it lets through: an escaped comma.
\<close>

unbundle bit_operations_syntax

subsection \<open>Assertions\<close>

definition holds :: "(proc \<Rightarrow> bool) \<Rightarrow> 'a io \<Rightarrow> ('a \<Rightarrow> proc \<Rightarrow> bool) \<Rightarrow> bool" where
  "holds P m Q \<longleftrightarrow> (\<forall>s. P s \<longrightarrow> (case run_state m s of (a, s') \<Rightarrow> Q a s'))"

abbreviation keeps_to :: "(proc \<Rightarrow> bool) \<Rightarrow> 'a io \<Rightarrow> bool" where
  "keeps_to P m \<equiv> holds P m (\<lambda>_. P)"

lemma holds_bind: "holds P m Q \<Longrightarrow> (\<And>a. holds (Q a) (k a) R) \<Longrightarrow> holds P (m \<bind> k) R"
  by (fastforce simp: holds_def split: prod.splits)

lemma holds_result: "(\<And>s. P s \<Longrightarrow> Q a s) \<Longrightarrow> holds P (result a) Q"
  by (simp add: holds_def)

lemma holds_sys: "(\<And>s. P s \<Longrightarrow> Q (os E (trace s) c) (s\<lparr>trace := trace s @ [c]\<rparr>)) \<Longrightarrow> holds P (sys E c) Q"
  by (simp add: holds_def sys_def)

lemma holds_malloc: "(\<And>s ok m. P s \<Longrightarrow> Q ok (s\<lparr>pr_mem := m\<rparr>)) \<Longrightarrow> holds P malloc Q"
  by (simp add: holds_def malloc_def split: prod.splits)

lemma holds_get: "(\<And>s. P s \<Longrightarrow> Q s s) \<Longrightarrow> holds P State_Monad.get Q"
  by (simp add: holds_def)

lemma holds_update: "(\<And>s. P s \<Longrightarrow> Q () (f s)) \<Longrightarrow> holds P (State_Monad.update f) Q"
  by (simp add: holds_def State_Monad.update_def)

lemma holds_conseq: "holds P m Q \<Longrightarrow> (\<And>s. P' s \<Longrightarrow> P s) \<Longrightarrow> (\<And>a s. Q a s \<Longrightarrow> Q' a s) \<Longrightarrow> holds P' m Q'"
  by (fastforce simp: holds_def split: prod.splits)

lemma holds_if: "(b \<Longrightarrow> holds P m Q) \<Longrightarrow> (\<not> b \<Longrightarrow> holds P m' Q) \<Longrightarrow> holds P (if b then m else m') Q"
  by simp

lemma holds_option: "(x = None \<Longrightarrow> holds P m Q) \<Longrightarrow> (\<And>a. x = Some a \<Longrightarrow> holds P (f a) Q) \<Longrightarrow> holds P (case x of None \<Rightarrow> m | Some a \<Rightarrow> f a) Q"
  by (cases x) auto

lemma holds_prod: "(\<And>a b. x = (a, b) \<Longrightarrow> holds P (f a b) Q) \<Longrightarrow> holds P (case x of (a, b) \<Rightarrow> f a b) Q"
  by (cases x) auto

lemma holds_pre: "(\<And>s. P s \<Longrightarrow> b) \<Longrightarrow> (b \<Longrightarrow> holds P m Q) \<Longrightarrow> holds P m Q"
  by (auto simp: holds_def)

subsection \<open>Calls that do not matter\<close>

text \<open>A predicate that holds no matter which calls but \<open>mount\<close> and \<open>setfsuid\<close> follow, and no matter what memory there is.\<close>

definition plain_call :: "syscall \<Rightarrow> bool" where
  "plain_call c \<longleftrightarrow> (\<forall>a b d e f. c \<noteq> Mount a b d e f) \<and> (\<forall>u. c \<noteq> Setfsuid u)"

definition robust :: "(proc \<Rightarrow> bool) \<Rightarrow> bool" where
  "robust P \<longleftrightarrow> (\<forall>s c. P s \<longrightarrow> plain_call c \<longrightarrow> P (s\<lparr>trace := trace s @ [c]\<rparr>)) \<and> (\<forall>s m. P s \<longrightarrow> P (s\<lparr>pr_mem := m\<rparr>))"

lemma plain_calls [simp]:
  "plain_call (Lstat p)" "plain_call (Fstat i)" "plain_call (Access_W p)" "plain_call (Open p fl)" "plain_call (Close i)" "plain_call (Chdir p)"
  "plain_call (Fchdir i)" "plain_call Getcwd" "plain_call (Realpath p)" "plain_call (Opendir p)" "plain_call (Setmntent p)" "plain_call (Fopen p)"
  "plain_call (Umount2 p i)" "plain_call (Setfsgid u)" "plain_call (Getpwuid u)" "plain_call Uname" "plain_call (Umask i)" "plain_call (Sigprocmask b)"
  "plain_call Fork" "plain_call Clone_newns" "plain_call Waitpid" "plain_call (Setuid u)" "plain_call (Dup2 i j)" "plain_call (Mkdtemp p)"
  "plain_call (Rmdir p)" "plain_call (Execl xs)" "plain_call (Lockf i b)" "plain_call (Sendmsg i j)"
  "\<not> plain_call (Mount p q t fls d)" "\<not> plain_call (Setfsuid u)"
  by (auto simp: plain_call_def)

lemma robust_sys: "robust P \<Longrightarrow> plain_call c \<Longrightarrow> keeps_to P (sys E c)"
  by (rule holds_sys) (simp add: robust_def)

lemma robust_malloc: "robust P \<Longrightarrow> keeps_to P malloc"
  by (rule holds_malloc) (simp add: robust_def)

lemma robust_result: "keeps_to P (result a)"
  by (rule holds_result)

lemma keeps_get: "(\<And>s. holds P (k s) Q) \<Longrightarrow> holds P (State_Monad.get \<bind> k) Q"
  by (auto simp: holds_def)

lemma keeps_to_bind: "keeps_to P m \<Longrightarrow> (\<And>a. keeps_to P (k a)) \<Longrightarrow> keeps_to P (m \<bind> k)"
  by (rule holds_bind)

lemmas keeps_rules = keeps_to_bind holds_if holds_option holds_prod robust_sys robust_malloc robust_result

lemma keeps_mtab: "robust P \<Longrightarrow> keeps_to P (mtab_needs_update E mnt)"
  unfolding mtab_needs_update_def by (intro keeps_rules) simp_all

lemma keeps_child: "robust P \<Longrightarrow> keeps_to P child \<Longrightarrow> keeps_to P (run_child E child)"
  unfolding run_child_def by (intro keeps_rules) simp_all

lemma keeps_add_mount: "robust P \<Longrightarrow> keeps_to P (fuse_mnt_add_mount E fsname mnt type options)"
  unfolding fuse_mnt_add_mount_def add_mount_def add_mount_legacy_def
  by (intro keeps_rules keeps_mtab keeps_child) simp_all

lemma keeps_check_empty: "robust P \<Longrightarrow> keeps_to P (fuse_mnt_check_empty E mnt rootmode rootsize)"
  unfolding fuse_mnt_check_empty_def by (intro keeps_rules) simp_all

lemma keeps_check_fuseblk: "robust P \<Longrightarrow> keeps_to P (fuse_mnt_check_fuseblk E)"
  unfolding fuse_mnt_check_fuseblk_def by (intro keeps_rules) simp_all

lemma keeps_resolve: "robust P \<Longrightarrow> keeps_to P (fuse_mnt_resolve_path E orig)"
  unfolding fuse_mnt_resolve_path_def Let_def by (intro keeps_rules) simp_all

lemma keeps_user_name: "robust P \<Longrightarrow> keeps_to P (get_user_name E)"
  unfolding get_user_name_def by (intro keeps_rules) simp_all

lemma keeps_add_option: "robust P \<Longrightarrow> keeps_to P (add_option s opt)"
  unfolding add_option_def by (intro keeps_rules)

lemma keeps_flag_options: "robust P \<Longrightarrow> keeps_to P (add_flag_options flags fs s)"
  by (induction fs arbitrary: s) (auto intro!: keeps_rules keeps_add_option)

lemma keeps_mnt_opts: "robust P \<Longrightarrow> keeps_to P (get_mnt_opts E flags options)"
  unfolding get_mnt_opts_def Let_def
  by (intro keeps_rules keeps_add_option keeps_flag_options keeps_user_name) simp_all

lemma keeps_try_open: "robust P \<Longrightarrow> keeps_to P (try_open E dev)"
  unfolding try_open_def by (intro keeps_rules) simp_all

lemma keeps_small:
  "robust P \<Longrightarrow> keeps_to P (check_version E dev)" "robust P \<Longrightarrow> keeps_to P (count_fuse_fs E)" "robust P \<Longrightarrow> keeps_to P (back_to E fd)"
  "robust P \<Longrightarrow> keeps_to P (send_fd E sock fd)" "robust P \<Longrightarrow> keeps_to P (get_string_opt tok opt)"
  unfolding check_version_def count_fuse_fs_def back_to_def send_fd_def get_string_opt_def by (intro keeps_rules; simp)+

subsection \<open>The mounts of a user\<close>

text \<open>The user whose rights decide on files, after a list of calls.\<close>

definition fsuid :: "proc_env \<Rightarrow> syscall list \<Rightarrow> u32" where
  "fsuid E tr = foldl (\<lambda>u c. case c of Setfsuid v \<Rightarrow> v | _ \<Rightarrow> u) (geteuid E) tr"

text \<open>A check of the user's rights on what is mounted on: write access to the directory the process is in, or a file opened for
  writing, granted to the user.\<close>

definition permitted :: "proc_env \<Rightarrow> cstring \<Rightarrow> syscall list \<Rightarrow> bool" where
  "permitted E target tr \<longleftrightarrow> (\<exists>a c b. tr = a @ c # b \<and> fsuid E a = getuid E \<and> ret (os E a c) \<noteq> - 1 \<and>
     (c = Access_W ''.'' \<and> target = ''.'' \<or> (\<exists>f. c = Open f O_WRONLY \<and> target = ''/proc/self/fd/'' @ fmt_i (ret (os E a c)))))"

text \<open>An option of the user that is handed on to the kernel.\<close>

definition user_option :: "bool \<Rightarrow> cstring \<Rightarrow> bool" where
  "user_option allow t \<longleftrightarrow> (t \<in> {''allow_other'', ''allow_root''} \<longrightarrow> allow) \<and> t \<noteq> ''blkdev'' \<and> t \<notin> mf_opt ` set mount_flags \<and>
     \<not> begins_with t ''fd='' \<and> \<not> begins_with t ''rootmode='' \<and> \<not> begins_with t ''user_id='' \<and> \<not> begins_with t ''group_id=''"

function option_list :: "cstring \<Rightarrow> cstring list" where
  "option_list s = (if s = [] then [] else take (opt_len s) s # option_list (next_option s))"
  by pat_completeness auto
termination
  by (relation "measure length") (auto simp: next_option_def)

declare option_list.simps [simp del]

definition mount_ok :: "proc_env \<Rightarrow> cstring \<Rightarrow> bool \<Rightarrow> syscall list \<Rightarrow> syscall \<Rightarrow> bool" where
  "mount_ok E options allow tr c \<longleftrightarrow> (\<forall>source target type flags dat. c = Mount source target type flags dat \<longrightarrow>
     flags AND MS_NOSUID \<noteq> 0 \<and> flags AND MS_NODEV \<noteq> 0 \<and> (type = ''fuse'' \<or> begins_with type ''fuse.'') \<and> permitted E target tr \<and>
     (\<exists>ts fd rootmode with_group. dat = Some (concat (map (\<lambda>t. t @ '','') ts) @ fd_options E fd rootmode with_group) \<and>
        (\<forall>t\<in>set ts. user_option allow t \<and> t \<in> set (option_list options))))"

definition mounts_ok :: "proc_env \<Rightarrow> cstring \<Rightarrow> proc \<Rightarrow> bool" where
  "mounts_ok E options s \<longleftrightarrow> (\<forall>a c b. trace s = a @ c # b \<longrightarrow> mount_ok E options (user_allow_other s) a c)"

lemma snoc_split: "(\<forall>a c b. tr @ [x] = a @ c # b \<longrightarrow> R a c) \<longleftrightarrow> (\<forall>a c b. tr = a @ c # b \<longrightarrow> R a c) \<and> R tr x"
proof
  assume l: "\<forall>a c b. tr @ [x] = a @ c # b \<longrightarrow> R a c"
  then show "(\<forall>a c b. tr = a @ c # b \<longrightarrow> R a c) \<and> R tr x" by auto
next
  assume r: "(\<forall>a c b. tr = a @ c # b \<longrightarrow> R a c) \<and> R tr x"
  show "\<forall>a c b. tr @ [x] = a @ c # b \<longrightarrow> R a c"
  proof (intro allI impI)
    fix a c b
    assume eq: "tr @ [x] = a @ c # b"
    show "R a c"
    proof (cases b rule: rev_cases)
      case Nil
      then show ?thesis using eq r by auto
    next
      case (snoc b' y)
      then have "tr = a @ c # b'" using eq by (metis append_assoc append_Cons butlast_snoc)
      then show ?thesis using r by blast
    qed
  qed
qed

lemma mounts_ok_snoc [simp]:
  "mounts_ok E options (s\<lparr>trace := trace s @ [c]\<rparr>) \<longleftrightarrow> mounts_ok E options s \<and> mount_ok E options (user_allow_other s) (trace s) c"
  using snoc_split [of "trace s" c "mount_ok E options (user_allow_other s)"] by (cases s) (simp only: mounts_ok_def proc.simps)

lemma mounts_ok_mem [simp]: "mounts_ok E options (s\<lparr>pr_mem := m\<rparr>) \<longleftrightarrow> mounts_ok E options s"
  by (simp add: mounts_ok_def)

lemma mount_ok_plain: "plain_call c \<Longrightarrow> mount_ok E options allow tr c" "mount_ok E options allow tr (Setfsuid u)"
  by (auto simp: mount_ok_def plain_call_def)

lemma fsuid_snoc: "fsuid E (tr @ [c]) = (case c of Setfsuid v \<Rightarrow> v | _ \<Rightarrow> fsuid E tr)"
  by (simp add: fsuid_def split: syscall.splits)

lemma fsuid_plain: "plain_call c \<Longrightarrow> fsuid E (tr @ [c]) = fsuid E tr"
  by (auto simp: fsuid_snoc plain_call_def split: syscall.splits)

lemma permitted_snoc: "permitted E target tr \<Longrightarrow> permitted E target (tr @ [c])"
  unfolding permitted_def by (metis append.assoc append_Cons)

lemma permitted_here:
  "fsuid E tr = getuid E \<Longrightarrow> ret (os E tr (Access_W ''.'')) \<noteq> - 1 \<Longrightarrow> permitted E ''.'' (tr @ [Access_W ''.''])"
  "fsuid E tr = getuid E \<Longrightarrow> ret (os E tr (Open f O_WRONLY)) \<noteq> - 1 \<Longrightarrow>
     permitted E (''/proc/self/fd/'' @ fmt_i (ret (os E tr (Open f O_WRONLY)))) (tr @ [Open f O_WRONLY])"
  unfolding permitted_def by blast+

lemma robust_mounts:
  "robust (mounts_ok E options)"
  "robust (\<lambda>s. mounts_ok E options s \<and> fsuid E (trace s) = getuid E)"
  "robust (\<lambda>s. mounts_ok E options s \<and> permitted E target (trace s) \<and> user_allow_other s = allow)"
  unfolding robust_def by (simp_all add: mount_ok_plain fsuid_plain permitted_snoc)

text \<open>What the loop over the options has made of the ones it has seen.\<close>

definition opts_ok :: "cstring \<Rightarrow> bool \<Rightarrow> mount_opts \<Rightarrow> bool" where
  "opts_ok options allow m \<longleftrightarrow> mo_flags m AND MS_NOSUID \<noteq> 0 \<and> mo_flags m AND MS_NODEV \<noteq> 0 \<and> \<not> mo_blkdev m \<and>
     (\<exists>ts. mo_buf m = concat (map (\<lambda>t. t @ '','') ts) \<and> (\<forall>t\<in>set ts. user_option allow t \<and> t \<in> set (option_list options)))"

lemma default_opts_ok: "opts_ok options allow default_opts"
  by (auto simp: opts_ok_def default_opts_def MS_NOSUID_def MS_NODEV_def intro: exI [of _ "[]"])

lemma opts_ok_fields:
  "opts_ok options allow (m\<lparr>mo_fsname := v\<rparr>) = opts_ok options allow m" "opts_ok options allow (m\<lparr>mo_subtype := v\<rparr>) = opts_ok options allow m"
  "opts_ok options allow (m\<lparr>mo_check_empty := e\<rparr>) = opts_ok options allow m"
  by (simp_all add: opts_ok_def)

text \<open>The flags of the table a user may set or clear are not the two.\<close>

lemma user_flags:
  assumes f: "find_mount_flag E tok = Some (on, flag)" and u: "getuid E \<noteq> 0" and fl: "fl AND MS_NOSUID \<noteq> 0" "fl AND MS_NODEV \<noteq> 0"
  shows "(if on then fl OR flag else fl AND NOT flag) AND MS_NOSUID \<noteq> 0" "(if on then fl OR flag else fl AND NOT flag) AND MS_NODEV \<noteq> 0"
proof -
  have off: "NOT flag AND MS_NOSUID = MS_NOSUID" "NOT flag AND MS_NODEV = MS_NODEV" if "\<not> on"
    using f u that by (auto simp: find_mount_flag_def mount_flags_def MS_RDONLY_def MS_NOSUID_def MS_NODEV_def MS_NOEXEC_def
        MS_SYNCHRONOUS_def MS_NOATIME_def MS_DIRSYNC_def split: if_split_asm)
  have on: "(fl OR flag) AND n \<noteq> 0" if "fl AND n \<noteq> 0" for n
    using that by (simp add: bit.conj_disj_distrib2 or_eq_0_iff)
  show "(if on then fl OR flag else fl AND NOT flag) AND MS_NOSUID \<noteq> 0" "(if on then fl OR flag else fl AND NOT flag) AND MS_NODEV \<noteq> 0"
    using fl on off by (simp_all add: and.assoc)
qed

lemma begins_with_take: "begins_with (take n s) x \<Longrightarrow> begins_with s x"
  by (metis begins_with_def min.absorb1 min.cobounded2 nle_le take_all_iff take_take)

lemma other_option_ok:
  assumes "getuid E \<noteq> 0" "opts_ok options allow m" "tok \<in> set (option_list options)" "tok \<noteq> ''blkdev''"
    "\<not> begins_with tok ''fd=''" "\<not> begins_with tok ''rootmode=''" "\<not> begins_with tok ''user_id=''" "\<not> begins_with tok ''group_id=''"
    and P: "robust P" "\<And>s. P s \<Longrightarrow> user_allow_other s = allow"
  shows "holds P (other_option E tok m) (\<lambda>r s. P s \<and> (\<forall>m'. r = Some m' \<longrightarrow> opts_ok options allow m'))"
proof -
  have new: "find_mount_flag E tok = None \<Longrightarrow> tok \<in> {''allow_other'', ''allow_root''} \<longrightarrow> allow \<Longrightarrow> opts_ok options allow (m\<lparr>mo_buf := mo_buf m @ tok @ '',''\<rparr>)"
  proof -
    assume n: "find_mount_flag E tok = None" and a: "tok \<in> {''allow_other'', ''allow_root''} \<longrightarrow> allow"
    obtain ts where ts: "mo_buf m = concat (map (\<lambda>t. t @ '','') ts)" "\<forall>t\<in>set ts. user_option allow t \<and> t \<in> set (option_list options)"
      using assms(2) by (auto simp: opts_ok_def)
    have "tok \<notin> mf_opt ` set mount_flags" using n by (auto simp: find_mount_flag_def find_None_iff)
    then have "user_option allow tok" using a assms(4-8) by (simp add: user_option_def)
    then show ?thesis using assms(2,3) ts unfolding opts_ok_def by (intro conjI exI [of _ "ts @ [tok]"]) auto
  qed
  have flag: "find_mount_flag E tok = Some (on, flag) \<Longrightarrow>
      opts_ok options allow (m\<lparr>mo_flags := (if on then mo_flags m OR flag else mo_flags m AND NOT flag)\<rparr>)" for on flag
    using user_flags [of E tok on flag "mo_flags m"] assms(1,2) by (simp add: opts_ok_def)
  have rest: "holds P (State_Monad.get \<bind> (\<lambda>s. if getuid E \<noteq> 0 \<and> \<not> user_allow_other s \<and> (tok = ''allow_other'' \<or> tok = ''allow_root'') then result None
     else result (Some (if skip then m
       else case find_mount_flag E tok of
           Some (on, flag) \<Rightarrow> m\<lparr>mo_flags := (if on then mo_flags m OR flag else mo_flags m AND NOT flag)\<rparr>
         | None \<Rightarrow> m\<lparr>mo_buf := mo_buf m @ tok @ '',''\<rparr>))))
     (\<lambda>r s. P s \<and> (\<forall>m'. r = Some m' \<longrightarrow> opts_ok options allow m'))" for skip
    using assms(1,2) P(2) new flag by (auto simp: holds_def split: option.splits)
  show ?thesis unfolding other_option_def
    by (rule holds_bind [where Q = "\<lambda>_. P"], intro keeps_rules P(1)) (simp_all only: plain_calls rest)
qed

lemma mount_option_ok:
  assumes "getuid E \<noteq> 0" "opts_ok options allow m" "take (opt_len s) s \<in> set (option_list options)"
    and P: "robust P" "\<And>s. P s \<Longrightarrow> user_allow_other s = allow"
  shows "holds P (mount_option E s m) (\<lambda>r s. P s \<and> (\<forall>m'. r = Some m' \<longrightarrow> opts_ok options allow m'))"
proof -
  have str: "holds P (get_string_opt tok opt) (\<lambda>v s. P s \<and> (\<forall>m'. map_option f v = Some m' \<longrightarrow> opts_ok options allow m'))"
    if "\<And>v. opts_ok options allow (f v)" for tok opt f
    using keeps_small(5) [OF P(1)] by (rule holds_conseq) (auto simp: that)
  show ?thesis unfolding mount_option_def Let_def
  proof (intro holds_if, goal_cases)
    case 1
    show ?case by (rule holds_bind [OF str [where f = "\<lambda>v. m\<lparr>mo_fsname := Some v\<rparr>"]]) (auto simp: opts_ok_fields assms(2) intro!: holds_result)
  next
    case 2
    show ?case by (rule holds_bind [OF str [where f = "\<lambda>v. m\<lparr>mo_subtype := Some v\<rparr>"]]) (auto simp: opts_ok_fields assms(2) intro!: holds_result)
  next
    case 3
    then show ?case using assms(1) by (auto intro!: holds_result)
  next
    case 4
    then show ?case using assms(2) by (auto simp: opts_ok_fields intro!: holds_result)
  next
    case 5
    then show ?case using assms by (intro other_option_ok) (auto dest: begins_with_take)
  next
    case 6
    then show ?case using assms(2) by (auto intro!: holds_result)
  qed
qed

lemma option_list_Cons: "s \<noteq> [] \<Longrightarrow> option_list s = take (opt_len s) s # option_list (next_option s)"
  by (simp add: option_list.simps [of s])

lemma mount_options_ok:
  assumes P: "robust P" "\<And>s. P s \<Longrightarrow> user_allow_other s = allow"
  shows "getuid E \<noteq> 0 \<Longrightarrow> opts_ok options allow m \<Longrightarrow> set (option_list s) \<subseteq> set (option_list options) \<Longrightarrow>
    holds P (mount_options E s m) (\<lambda>r s. P s \<and> (\<forall>m'. r = Some m' \<longrightarrow> opts_ok options allow m'))"
proof (induction E s m rule: mount_options.induct)
  case (1 E s m)
  show ?case
  proof (cases "s = []")
    case True
    then show ?thesis using 1(3) by (auto simp: mount_options.simps [of E "[]"] intro!: holds_result)
  next
    case False
    have tok: "take (opt_len s) s \<in> set (option_list options)" "set (option_list (next_option s)) \<subseteq> set (option_list options)"
      using 1(4) option_list_Cons [OF False] by auto
    have one: "holds P (mount_option E s m) (\<lambda>r s. P s \<and> (\<forall>m'. r = Some m' \<longrightarrow> opts_ok options allow m'))"
      by (rule mount_option_ok [OF 1(2,3) tok(1) P])
    have more: "holds P (mount_options E (next_option s) m') (\<lambda>r s. P s \<and> (\<forall>m'. r = Some m' \<longrightarrow> opts_ok options allow m'))"
      if "opts_ok options allow m'" for m'
      by (rule 1(1) [OF False 1(2) that tok(2)])
    show ?thesis unfolding mount_options.simps [of E s] if_not_P [OF False]
    proof (rule holds_bind [OF one], rule holds_option, goal_cases)
      case (1 r)
      then show ?case by (intro holds_result) simp
    next
      case (2 r m')
      show ?case
      proof (rule holds_pre [where b = "opts_ok options allow m'"])
        show "opts_ok options allow m'" if "P s \<and> (\<forall>m'. r = Some m' \<longrightarrow> opts_ok options allow m')" for s using that 2 by simp
        assume "opts_ok options allow m'"
        then show "holds (\<lambda>s. P s \<and> (\<forall>m'. r = Some m' \<longrightarrow> opts_ok options allow m')) (mount_options E (next_option s) m')
          (\<lambda>r s. P s \<and> (\<forall>m'. r = Some m' \<longrightarrow> opts_ok options allow m'))"
          by (rule holds_conseq [OF more]) auto
      qed
    qed
  qed
qed

text \<open>The state in which the program mounts: what is mounted on was checked.\<close>

definition may_mount :: "proc_env \<Rightarrow> cstring \<Rightarrow> bool \<Rightarrow> cstring \<Rightarrow> proc \<Rightarrow> bool" where
  "may_mount E options allow target s \<longleftrightarrow> mounts_ok E options s \<and> permitted E target (trace s) \<and> user_allow_other s = allow"

lemma robust_may_mount: "robust (may_mount E options allow target)"
  unfolding robust_def may_mount_def by (simp add: mount_ok_plain permitted_snoc)

lemma mount_call:
  assumes "opts_ok options allow m" "type = ''fuse'' \<or> begins_with type ''fuse.''"
  shows "keeps_to (may_mount E options allow target)
    (sys E (Mount source target type (mo_flags m) (Some (mo_buf m @ fd_options E fd rootmode g))))"
proof (rule holds_sys)
  fix s
  assume s: "may_mount E options allow target s"
  obtain ts where "mo_buf m = concat (map (\<lambda>t. t @ '','') ts)" "\<forall>t\<in>set ts. user_option allow t \<and> t \<in> set (option_list options)"
    using assms(1) by (auto simp: opts_ok_def)
  then have "mount_ok E options allow (trace s) (Mount source target type (mo_flags m) (Some (mo_buf m @ fd_options E fd rootmode g)))"
    using assms s unfolding mount_ok_def opts_ok_def may_mount_def by blast
  then show "may_mount E options allow target (s\<lparr>trace := trace s @ [Mount source target type (mo_flags m) (Some (mo_buf m @ fd_options E fd rootmode g))]\<rparr>)"
    using s by (simp add: may_mount_def permitted_snoc)
qed

lemma try_mount_ok:
  assumes "opts_ok options allow m"
  shows "keeps_to (may_mount E options allow target) (try_mount E target dev fd rootmode m)"
proof -
  have b: "\<not> mo_blkdev m" using assms by (simp add: opts_ok_def)
  have t: "(case mo_subtype m of Some t \<Rightarrow> ''fuse'' @ ''.'' @ t | None \<Rightarrow> ''fuse'') = ''fuse'' \<or>
      begins_with (case mo_subtype m of Some t \<Rightarrow> ''fuse'' @ ''.'' @ t | None \<Rightarrow> ''fuse'') ''fuse.''"
    by (auto simp: begins_with_def split: option.splits)
  let ?P = "may_mount E options allow target"
  let ?Q = "\<lambda>(r, source, type) s. ?P s \<and> (type = ''fuse'' \<or> begins_with type ''fuse.'')"
  have call: "keeps_to ?P (sys E (Mount source target type (mo_flags m) (Some (mo_buf m @ fd_options E fd rootmode g))))"
    if "type = ''fuse'' \<or> begins_with type ''fuse.''" for source type g
    by (rule mount_call [OF assms that])
  have last_try: "holds (\<lambda>s. ?P s \<and> (type = ''fuse'' \<or> begins_with type ''fuse.'')) (if ret r = - 1 \<and> errnum r = EINVAL then do {
       r \<leftarrow> sys E (Mount source target type (mo_flags m) (Some (mo_buf m @ fd_options E fd rootmode False)));
       result (r, source, type)
     } else result (r, source, type)) (\<lambda>_. ?P)" for r source type
    by (rule holds_pre [where b = "type = ''fuse'' \<or> begins_with type ''fuse.''"])
      (auto intro!: holds_if holds_result intro: holds_bind [OF call] holds_conseq)
  show ?thesis unfolding try_mount_def Let_def if_not_P [OF b]
  proof (rule holds_bind [OF call [OF t]], rule holds_bind [where Q = ?Q], goal_cases)
    case (1 r)
    show ?case using t by (intro holds_option holds_if holds_result) (auto intro!: holds_bind [OF call] holds_result)
  next
    case (2 r x)
    show ?case by (cases x) (simp only: prod.case last_try)
  qed
qed

lemma do_mount_ok:
  assumes "getuid E \<noteq> 0"
  shows "keeps_to (may_mount E options allow target) (do_mount E target rootmode fd options dev rootsize)"
proof -
  let ?P = "may_mount E options allow target"
  have opts: "holds ?P (mount_options E options default_opts) (\<lambda>r s. ?P s \<and> (\<forall>m'. r = Some m' \<longrightarrow> opts_ok options allow m'))"
    by (rule mount_options_ok [OF robust_may_mount _ assms default_opts_ok]) (simp_all add: may_mount_def)
  have rest: "keeps_to ?P (do {
           mopts \<leftarrow> get_mnt_opts E (mo_flags m) (mo_buf m);
           case mopts of
             None \<Rightarrow> result None
           | Some mopts \<Rightarrow> do {
               empty \<leftarrow> (if mo_check_empty m then fuse_mnt_check_empty E target rootmode rootsize else result 0);
               if empty = - 1 then result None
               else do {
                 ok1 \<leftarrow> malloc; ok2 \<leftarrow> malloc;
                 if \<not> ok1 \<or> \<not> ok2 then result None
                 else do {
                   (r, source, type) \<leftarrow> try_mount E target dev fd rootmode m;
                   if ret r = - 1 then do {
                     _ \<leftarrow> (if mo_blkdev m \<and> errnum r = ENODEV then fuse_mnt_check_fuseblk E else result True);
                     result None
                   } else result (Some (source, type, mopts))
                 }
               }
             }
         })" if "opts_ok options allow m" for m
    by (intro keeps_rules keeps_mnt_opts keeps_check_empty keeps_check_fuseblk try_mount_ok [OF that] robust_may_mount)
  show ?thesis unfolding do_mount_def
  proof (rule holds_bind [OF robust_malloc [OF robust_may_mount]], rule holds_if [OF holds_result], assumption,
      rule holds_bind [OF opts], rule holds_option, goal_cases)
    case (1 ok r)
    then show ?case by (intro holds_result) simp
  next
    case (2 ok r m)
    show ?case
      by (rule holds_pre [where b = "opts_ok options allow m"], use 2 in simp, rule holds_conseq [OF rest]) simp_all
  qed
qed

text \<open>The checks leave a permission when they succeed.\<close>

abbreviation as_user :: "proc_env \<Rightarrow> cstring \<Rightarrow> bool \<Rightarrow> proc \<Rightarrow> bool" where
  "as_user E options allow s \<equiv> mounts_ok E options s \<and> fsuid E (trace s) = getuid E \<and> user_allow_other s = allow"

abbreviation checked :: "proc_env \<Rightarrow> cstring \<Rightarrow> bool \<Rightarrow> int \<times> perm \<Rightarrow> proc \<Rightarrow> bool" where
  "checked E options allow x s \<equiv> mounts_ok E options s \<and> user_allow_other s = allow \<and> (fst x \<noteq> - 1 \<longrightarrow> permitted E (pm_mnt (snd x)) (trace s))"

lemma robust_as_user: "robust (as_user E options allow)"
  unfolding robust_def by (simp add: mount_ok_plain fsuid_plain)

lemma check_perm_ok:
  assumes "getuid E \<noteq> 0"
  shows "holds (as_user E options allow) (check_perm E mnt) (checked E options allow)"
proof -
  let ?P = "as_user E options allow"
  have call: "plain_call c \<Longrightarrow> keeps_to ?P (sys E c)" for c by (rule robust_sys [OF robust_as_user])
  have fail: "holds ?P (result (- 1, p)) (checked E options allow)" for p by (rule holds_result) simp
  have dir: "holds ?P (check_dir E mnt p) (checked E options allow)" for p
  proof -
    have acc: "holds ?P (sys E (Access_W ''.'') \<bind> (\<lambda>r. result (if ret r = - 1 then - 1 else 0, p))) (checked E options allow)"
      if "pm_mnt p = ''.''" for p
      by (rule holds_bind [where Q = "\<lambda>r s. mounts_ok E options s \<and> user_allow_other s = allow \<and> (ret r \<noteq> - 1 \<longrightarrow> permitted E ''.'' (trace s))"])
        (auto intro!: holds_sys holds_result simp: mount_ok_plain permitted_here that)
    show ?thesis unfolding check_dir_def Let_def
      by (rule holds_bind [OF call] holds_if fail acc | simp)+
  qed
  have reg: "holds ?P (check_file E mnt p) (checked E options allow)" for p
  proof -
    let ?Q = "\<lambda>fd s. mounts_ok E options s \<and> user_allow_other s = allow \<and> (ret fd \<noteq> - 1 \<longrightarrow> permitted E (''/proc/self/fd/'' @ fmt_i (ret fd)) (trace s))"
    have opened: "holds ?P (sys E (Open mnt O_WRONLY)) ?Q" by (rule holds_sys) (use permitted_here(2) [of E _ mnt] in \<open>auto simp: mount_ok_plain\<close>)
    have stat: "holds (?Q fd) (sys E (Fstat (ret fd))) (\<lambda>_. ?Q fd)" for fd by (rule holds_sys) (simp add: mount_ok_plain permitted_snoc)
    show ?thesis unfolding check_file_def Let_def
      by (rule holds_bind [OF opened], rule holds_if, rule holds_result, simp, rule holds_bind [OF stat])
        (auto intro!: holds_if holds_result)
  qed
  show ?thesis unfolding check_perm_def Let_def
    by (rule holds_bind [OF call], simp) (auto intro!: holds_if fail dir reg simp: assms)
qed

lemma holds_value: "(\<And>v. holds (\<lambda>s. P s \<and> f s = v) m Q) \<Longrightarrow> holds P m Q"
  by (simp add: holds_def)

lemma drop_privs_ok:
  assumes "getuid E \<noteq> 0"
  shows "holds (mounts_ok E options) (drop_privs E) (\<lambda>_ s. mounts_ok E options s \<and> fsuid E (trace s) = getuid E)"
proof -
  have upd: "mounts_ok E options (s\<lparr>oldfsuid := u\<rparr>) = mounts_ok E options s" "mounts_ok E options (s\<lparr>oldfsgid := u\<rparr>) = mounts_ok E options s" for s u
    by (simp_all add: mounts_ok_def)
  let ?U = "\<lambda>s. mounts_ok E options s \<and> fsuid E (trace s) = getuid E"
  have "holds (mounts_ok E options) (sys E (Setfsuid (getuid E))) (\<lambda>_. ?U)" by (rule holds_sys) (simp add: mount_ok_plain fsuid_snoc)
  moreover have "keeps_to ?U (State_Monad.update (oldfsuid_update (\<lambda>_. u)))" "keeps_to ?U (State_Monad.update (oldfsgid_update (\<lambda>_. u)))" for u
    by (auto intro!: holds_update simp: upd)
  moreover have "keeps_to ?U (sys E (Setfsgid (getgid E)))" by (rule robust_sys [OF robust_mounts(2)]) simp
  ultimately show ?thesis using assms unfolding drop_privs_def by (auto intro!: holds_bind)
qed

lemma restore_privs_ok: "keeps_to (mounts_ok E options) (restore_privs E)" "keeps_to (may_mount E options allow target) (restore_privs E)"
proof -
  have call: "keeps_to P (sys E (Setfsuid u))" if "P = mounts_ok E options \<or> P = may_mount E options allow target" for P u
    using that by (auto intro!: holds_sys simp: may_mount_def mount_ok_plain permitted_snoc)
  show "keeps_to (mounts_ok E options) (restore_privs E)" "keeps_to (may_mount E options allow target) (restore_privs E)"
    unfolding restore_privs_def by (intro holds_if keeps_get keeps_to_bind call robust_sys robust_result robust_mounts(1) robust_may_mount; simp)+
qed

text \<open>Reading the configuration can only allow more.\<close>

lemma mount_ok_mono: "mount_ok E options a tr c \<Longrightarrow> (a \<Longrightarrow> b) \<Longrightarrow> mount_ok E options b tr c"
  unfolding mount_ok_def user_option_def by fast

lemma read_lines_keep: "trace (read_lines ls nl s) = trace s" "user_allow_other s \<Longrightarrow> user_allow_other (read_lines ls nl s)"
proof -
  have p: "trace (parse_line l s) = trace s" "user_allow_other s \<Longrightarrow> user_allow_other (parse_line l s)" for l s
    by (simp_all add: parse_line_def split: option.splits)
  show "trace (read_lines ls nl s) = trace s" by (induction ls arbitrary: nl s) (simp_all add: p)
  show "user_allow_other s \<Longrightarrow> user_allow_other (read_lines ls nl s)" by (induction ls arbitrary: nl s) (simp_all add: p)
qed

lemma read_conf_ok: "keeps_to (\<lambda>s. mounts_ok E options s \<and> fsuid E (trace s) = getuid E) (read_conf E)"
proof -
  have "mounts_ok E options (read_lines ls nl s)" if "mounts_ok E options s" for ls nl s
    using that unfolding mounts_ok_def read_lines_keep by (meson mount_ok_mono read_lines_keep(2))
  then show ?thesis unfolding read_conf_def
    by (intro keeps_to_bind holds_if robust_sys robust_result robust_mounts(2) holds_update) (simp_all add: read_lines_keep)
qed

lemma mount_checked_ok:
  assumes "getuid E \<noteq> 0"
  shows "holds (as_user E options allow) (mount_checked E mnt options fd dev) (\<lambda>_. mounts_ok E options)"
proof -
  have ver: "keeps_to (as_user E options allow) (check_version E dev)" by (rule keeps_small(1) [OF robust_as_user])
  have restored: "holds (as_user E options allow) (restore_privs E) (\<lambda>_. mounts_ok E options)"
    by (rule holds_conseq [OF restore_privs_ok(1)]) simp_all
  have rest: "holds (checked E options allow x) (case x of (res, p) \<Rightarrow> restore_privs E \<bind> (\<lambda>_. if res \<noteq> - 1 then
       do_mount E (pm_mnt p) (S_IFMT (st_mode (pm_stat p))) fd options dev (st_size (pm_stat p)) \<bind> (\<lambda>r. result (r, p))
       else result (None, p))) (\<lambda>_. mounts_ok E options)" for x
  proof (cases "fst x = - 1")
    case True
    then show ?thesis by (cases x) (auto intro: holds_bind [OF holds_conseq [OF restore_privs_ok(1)]] holds_result)
  next
    case False
    have kept: "holds (may_mount E options allow (pm_mnt (snd x))) (case x of (res, p) \<Rightarrow> restore_privs E \<bind> (\<lambda>_. if res \<noteq> - 1 then
       do_mount E (pm_mnt p) (S_IFMT (st_mode (pm_stat p))) fd options dev (st_size (pm_stat p)) \<bind> (\<lambda>r. result (r, p))
       else result (None, p))) (\<lambda>_. may_mount E options allow (pm_mnt (snd x)))"
      using False by (cases x) (auto intro!: keeps_to_bind restore_privs_ok(2) do_mount_ok [OF assms] robust_result)
    show ?thesis by (rule holds_conseq [OF kept]) (use False in \<open>auto simp: may_mount_def\<close>)
  qed
  show ?thesis unfolding mount_checked_def
    by (rule holds_bind [OF ver], rule holds_if, rule holds_bind [OF check_perm_ok [OF assms] rest],
        rule holds_bind [OF restored], rule holds_result)
qed

lemma mount_fuse_ok:
  assumes "getuid E \<noteq> 0"
  shows "keeps_to (mounts_ok E options) (mount_fuse E mnt options)"
proof -
  let ?P = "mounts_ok E options" and ?U = "\<lambda>s. mounts_ok E options s \<and> fsuid E (trace s) = getuid E"
  have dropped: "holds ?P (drop_privs E) (\<lambda>_. ?P)" by (rule holds_conseq [OF drop_privs_ok [OF assms, of options]]) simp_all
  have dev: "keeps_to ?P (open_fuse_device E)"
    unfolding open_fuse_device_def try_open_fuse_device_def
    by (intro keeps_rules keeps_try_open restore_privs_ok(1) robust_mounts(1) dropped)
  have checked: "holds ?U (mount_checked E mnt options fd d) (\<lambda>_. ?P)" for fd d
    by (rule holds_value [where f = user_allow_other], rule holds_conseq [OF mount_checked_ok [OF assms]]) simp_all
  have close: "holds ?U (sys E (Close fd) \<bind> (\<lambda>_. result (- 1))) (\<lambda>_. ?P)" for fd
    by (rule holds_conseq [where P = ?P]) (auto intro!: keeps_rules robust_mounts(1))
  have count: "keeps_to ?U (if getuid E \<noteq> 0 \<and> mount_max s \<noteq> - 1 then do { n \<leftarrow> count_fuse_fs E; result (n \<ge> mount_max s) } else result False)" for s
    by (intro holds_if keeps_to_bind keeps_small(2) robust_mounts(2) robust_result)
  show ?thesis unfolding mount_fuse_def
    by (rule holds_bind [OF dev], rule holds_prod, rule holds_if [OF holds_result], assumption,
        rule holds_bind [OF drop_privs_ok [OF assms]], rule holds_bind [OF read_conf_ok], rule keeps_get, rule holds_bind [OF count],
        rule holds_if [OF close], rule holds_bind [OF checked], rule holds_prod)
      (intro keeps_rules keeps_small(3) keeps_add_mount robust_mounts(1); simp)
qed

subsection \<open>Mounting for a user\<close>

lemma mounts_ok_empty: "trace s = [] \<Longrightarrow> mounts_ok E options s"
  by (simp add: mounts_ok_def)

lemma mount_fuse_mounts:
  assumes "getuid E \<noteq> 0" "trace s = []" "run_state (mount_fuse E mnt options) s = (r, s')"
    "trace s' = a @ c # b"
  shows "mount_ok E options (user_allow_other s') a c"
  using mount_fuse_ok [OF assms(1), of options mnt] mounts_ok_empty [OF assms(2), of E options] assms(3,4)
  unfolding holds_def mounts_ok_def by (metis (mono_tags, lifting) case_prod_conv)

text \<open>C4: whatever the system answers, every file system that \<open>fusermount\<close> mounts for a user other than root is mounted
  with set-user-id files and devices disabled, has the type \<open>fuse\<close> or a subtype of it, is on the directory the process is in or on
  a file that is open for writing, and that was granted by a check made with the user's rights, and has as options some of the list the user gave,
  none of them one of the reserved ones, followed by the descriptor, the mode of the root and the identity of the user.\<close>

theorem user_mounts_restricted:
  assumes "getuid E \<noteq> 0" "trace s = []" "run_state (mount_fuse E mnt options) s = (r, s')"
    "trace s' = a @ Mount source target type flags dat # b"
  shows "flags AND MS_NOSUID \<noteq> 0 \<and> flags AND MS_NODEV \<noteq> 0 \<and> (type = ''fuse'' \<or> begins_with type ''fuse.'') \<and> permitted E target a \<and>
    (\<exists>ts fd rootmode with_group. dat = Some (concat (map (\<lambda>t. t @ '','') ts) @ fd_options E fd rootmode with_group) \<and>
      (\<forall>t\<in>set ts. user_option (user_allow_other s') t \<and> t \<in> set (option_list options)))"
  using mount_fuse_mounts [OF assms] unfolding mount_ok_def by blast

definition demo_user :: proc_env where
  "demo_user = \<lparr>getuid = 1000, getgid = 1000, geteuid = 0, commfd = None,
     os = (\<lambda>tr c. \<lparr>ret = (case c of Open p fl \<Rightarrow> 3 | Fopen p \<Rightarrow> - 1 | _ \<Rightarrow> 0), errnum = 0, text_of = [], names_of = [], ents_of = [],
       stat_of = stat0\<lparr>st_mode := (if c = Lstat ''/etc/mtab'' then 0xA000 else 0x4000), st_uid := 1000\<rparr>, status_of = 0, pair_of = None\<rparr>)\<rparr>"

definition demo_proc :: proc where
  "demo_proc = \<lparr>trace = [], pr_mem = [], user_allow_other = False, mount_max = - 1, oldfsuid = 0, oldfsgid = 0\<rparr>"

lemma demo_user_simps:
  "getuid demo_user = 1000" "getgid demo_user = 1000" "geteuid demo_user = 0"
  "ret (os demo_user tr c) = (case c of Open p fl \<Rightarrow> 3 | Fopen p \<Rightarrow> - 1 | _ \<Rightarrow> 0)" "errnum (os demo_user tr c) = 0"
  "text_of (os demo_user tr c) = []" "names_of (os demo_user tr c) = []" "st_uid (stat_of (os demo_user tr c)) = 1000"
  "st_mode (stat_of (os demo_user tr c)) = (if c = Lstat ''/etc/mtab'' then 0xA000 else 0x4000)"
  by (simp_all add: demo_user_def)

lemmas demo_run = mount_fuse_def mount_checked_def open_fuse_device_def try_open_fuse_device_def try_open_def drop_privs_def restore_privs_def
  read_conf_def back_to_def fuse_mnt_add_mount_def mtab_needs_update_def check_version_def check_perm_def check_dir_def
  do_mount_def get_mnt_opts_def get_user_name_def add_option_def fuse_mnt_check_empty_def try_mount_def
  sys_def malloc_def alloc_def State_Monad.update_def S_IFMT_def S_ISDIR_def S_ISREG_def S_ISLNK_def Let_def default_opts_def
  MS_RDONLY_def MS_NOSUID_def MS_NODEV_def MS_NOEXEC_def MS_SYNCHRONOUS_def MS_DIRSYNC_def MS_NOATIME_def mount_flags_def
  demo_user_simps

lemma demo_mount:
  assumes "\<And>s. \<not> user_allow_other s \<Longrightarrow> run_state (mount_options demo_user options default_opts) s = (Some (default_opts\<lparr>mo_buf := buf\<rparr>), s)"
  shows "\<exists>s'. run_state (mount_fuse demo_user ''/m'' options) demo_proc = (3, s') \<and> \<not> user_allow_other s' \<and>
    Mount ''/dev/fuse'' ''.'' ''fuse'' 6 (Some (buf @ fd_options demo_user 3 0x4000 True)) \<in> set (trace s')"
  using assms by (simp add: demo_run demo_proc_def)

lemmas demo_options = mount_options.simps mount_option_def other_option_def begins_with_def next_option_def find_mount_flag_def mount_flags_def
  default_opts_def Let_def demo_user_simps

theorem user_mounts_restricted_witness:
  "\<exists>a r s'. run_state (mount_fuse demo_user ''/m'' ''max_read=9'') demo_proc = (r, s') \<and> permitted demo_user ''.'' a \<and>
     (\<exists>ts fd rootmode g. concat (map (\<lambda>t. t @ '','') ts) @ fd_options demo_user fd rootmode g = ''max_read=9,'' @ fd_options demo_user 3 0x4000 True \<and>
       (\<forall>t\<in>set ts. user_option False t))"
proof -
  obtain s' where s': "run_state (mount_fuse demo_user ''/m'' ''max_read=9'') demo_proc = (3, s')" "\<not> user_allow_other s'"
    "Mount ''/dev/fuse'' ''.'' ''fuse'' 6 (Some (''max_read=9,'' @ fd_options demo_user 3 0x4000 True)) \<in> set (trace s')"
    using demo_mount [of "''max_read=9''" "''max_read=9,''"] by (auto simp: demo_options)
  then obtain a b where "trace s' = a @ Mount ''/dev/fuse'' ''.'' ''fuse'' 6 (Some (''max_read=9,'' @ fd_options demo_user 3 0x4000 True)) # b"
    by (metis in_set_conv_decomp)
  then have "permitted demo_user ''.'' a \<and>
     (\<exists>ts fd rootmode g. Some (''max_read=9,'' @ fd_options demo_user 3 0x4000 True) = Some (concat (map (\<lambda>t. t @ '','') ts) @ fd_options demo_user fd rootmode g) \<and>
       (\<forall>t\<in>set ts. user_option False t))"
    using user_mounts_restricted [OF _ _ s'(1)] s'(2) by (simp only: demo_user_simps demo_proc_def proc.simps) fastforce
  then show ?thesis using s'(1) by (metis option.inject)
qed

subsection \<open>Options as the kernel reads them\<close>

text \<open>The kernel splits the options at every comma.\<close>

fun comma_fields :: "cstring \<Rightarrow> cstring list" where
  "comma_fields [] = [[]]"
| "comma_fields (c # cs) =
     (if c = CHR '','' then [] # comma_fields cs else case comma_fields cs of [] \<Rightarrow> [[c]] | f # fs \<Rightarrow> (c # f) # fs)"

lemma comma_fields_none: "CHR '','' \<notin> set s \<Longrightarrow> comma_fields s = [s]"
  by (induction s) auto

lemma comma_fields_first: "CHR '','' \<notin> set t \<Longrightarrow> comma_fields (t @ '','' @ s) = t # comma_fields s"
  by (induction t) auto

lemma comma_fields_concat: "\<forall>t\<in>set ts. CHR '','' \<notin> set t \<Longrightarrow> comma_fields (concat (map (\<lambda>t. t @ '','') ts) @ s) = ts @ comma_fields s"
proof (induction ts)
  case (Cons t ts)
  then show ?case using comma_fields_first [of t "concat (map (\<lambda>t. t @ '','') ts) @ s"] by simp
qed simp

lemma opt_len_take: "BACKSLASH_C \<notin> set s \<Longrightarrow> take (opt_len s) s = takeWhile (\<lambda>c. c \<noteq> CHR '','') s"
  by (induction s) auto

lemma option_list_commas: "BACKSLASH_C \<notin> set s \<Longrightarrow> t \<in> set (option_list s) \<Longrightarrow> CHR '','' \<notin> set t"
proof (induction s rule: option_list.induct)
  case (1 s)
  then have ne: "s \<noteq> []" by (auto simp: option_list.simps)
  show ?case
  proof (cases "t = take (opt_len s) s")
    case True
    then show ?thesis using 1(2) by (auto simp: opt_len_take dest: set_takeWhileD)
  next
    case False
    have "BACKSLASH_C \<notin> set (next_option s)" using 1(2) in_set_dropD by (fastforce simp: next_option_def)
    then show ?thesis using 1 False ne by (simp add: option_list_Cons [OF ne])
  qed
qed

lemma digits_commas: "b \<le> 10 \<Longrightarrow> CHR '','' \<notin> set (digits b n)"
proof (induction b n rule: digits.induct)
  case (1 b n)
  have d: "''0123456789'' ! k \<noteq> CHR '',''" if "k < 10" for k :: nat
  proof -
    have "\<forall>k\<in>set [0..<10]. ''0123456789'' ! k \<noteq> CHR '',''" by code_simp
    then show ?thesis using that by auto
  qed
  have "b \<ge> 2 \<Longrightarrow> n mod b < 10" using 1(2) mod_less_divisor [of b n] by linarith
  then have "b \<ge> 2 \<Longrightarrow> CHR '','' \<noteq> ''0123456789'' ! (n mod b)" using d by metis
  moreover have "n < b \<Longrightarrow> CHR '','' \<noteq> ''0123456789'' ! n" using d 1(2) by (metis order_less_le_trans)
  ultimately show ?case using 1 by (subst digits.simps) (auto simp: not_less)
qed

lemma fmt_i_commas: "CHR '','' \<notin> set (fmt_i n)"
  by (simp add: fmt_i_def digits_commas)

lemma fd_options_fields:
  "comma_fields (fd_options E fd rootmode g) = [''fd='' @ fmt_i fd, ''rootmode='' @ digits 8 (unat rootmode), ''user_id='' @ fmt_i (sint (getuid E))] @
     (if g then [''group_id='' @ fmt_i (sint (getgid E))] else [])"
proof -
  let ?f = "''fd='' @ fmt_i fd" and ?r = "''rootmode='' @ digits 8 (unat rootmode)" and ?u = "''user_id='' @ fmt_i (sint (getuid E))"
    and ?g = "''group_id='' @ fmt_i (sint (getgid E))"
  have c: "CHR '','' \<notin> set ?f" "CHR '','' \<notin> set ?r" "CHR '','' \<notin> set ?u" "CHR '','' \<notin> set ?g"
    by (simp_all add: fmt_i_commas digits_commas)
  have e: "fd_options E fd rootmode g = ?f @ '','' @ ?r @ '','' @ (if g then ?u @ '','' @ ?g else ?u)" by (simp add: fd_options_def)
  show ?thesis unfolding e
    by (simp only: comma_fields_first [OF c(1)] comma_fields_first [OF c(2)] if_distrib [of comma_fields] comma_fields_first [OF c(3)] comma_fields_none [OF c(3)] comma_fields_none [OF c(4)])
      simp
qed

text \<open>C34: the options of every mount that \<open>fusermount\<close> makes for a user, read the way the kernel reads them, have
  \<open>allow_other\<close> or \<open>allow_root\<close> only if the configuration allows it, and name no user but the caller, provided that there is no backslash in the
  options.\<close>

theorem kernel_sees_allowed_options:
  assumes "getuid E \<noteq> 0" "trace s = []" "run_state (mount_fuse E mnt options) s = (r, s')"
    "Mount source target type flags (Some dat) \<in> set (trace s')" "BACKSLASH_C \<notin> set options" "f \<in> set (comma_fields dat)"
  shows "(f \<in> {''allow_other'', ''allow_root''} \<longrightarrow> user_allow_other s') \<and>
    (begins_with f ''user_id='' \<longrightarrow> f = ''user_id='' @ fmt_i (sint (getuid E)))"
proof -
  obtain a b where "trace s' = a @ Mount source target type flags (Some dat) # b" using assms(4) by (metis in_set_conv_decomp)
  from mount_fuse_mounts [OF assms(1-3) this] obtain ts fd rootmode g where
    dat: "dat = concat (map (\<lambda>t. t @ '','') ts) @ fd_options E fd rootmode g" and
    ts: "\<forall>t\<in>set ts. user_option (user_allow_other s') t \<and> t \<in> set (option_list options)"
    by (auto simp: mount_ok_def)
  have "\<forall>t\<in>set ts. CHR '','' \<notin> set t" using ts option_list_commas [OF assms(5)] by blast
  then have "f \<in> set ts \<or> f \<in> set (comma_fields (fd_options E fd rootmode g))" using assms(6) dat comma_fields_concat by auto
  then show ?thesis
  proof
    assume "f \<in> set ts"
    then show ?thesis using ts unfolding user_option_def by blast
  next
    assume "f \<in> set (comma_fields (fd_options E fd rootmode g))"
    then consider "f = ''fd='' @ fmt_i fd" | "f = ''rootmode='' @ digits 8 (unat rootmode)" | "f = ''user_id='' @ fmt_i (sint (getuid E))"
      | "f = ''group_id='' @ fmt_i (sint (getgid E))"
      unfolding fd_options_fields by (cases g) (simp_all only: if_True if_False set_append list.set, blast+)
    then show ?thesis by cases (simp_all add: begins_with_def)
  qed
qed

theorem kernel_sees_allowed_options_witness:
  "\<exists>r s' dat. run_state (mount_fuse demo_user ''/m'' ''max_read=9'') demo_proc = (r, s') \<and> Mount ''/dev/fuse'' ''.'' ''fuse'' 6 (Some dat) \<in> set (trace s') \<and>
     ''allow_other'' \<notin> set (comma_fields dat)"
proof -
  obtain s' where s': "run_state (mount_fuse demo_user ''/m'' ''max_read=9'') demo_proc = (3, s')" "\<not> user_allow_other s'"
    "Mount ''/dev/fuse'' ''.'' ''fuse'' 6 (Some (''max_read=9,'' @ fd_options demo_user 3 0x4000 True)) \<in> set (trace s')"
    using demo_mount [of "''max_read=9''" "''max_read=9,''"] by (auto simp: demo_options)
  have "''allow_other'' \<notin> set (comma_fields (''max_read=9,'' @ fd_options demo_user 3 0x4000 True))"
  proof
    assume "''allow_other'' \<in> set (comma_fields (''max_read=9,'' @ fd_options demo_user 3 0x4000 True))"
    then show False using kernel_sees_allowed_options [OF _ _ s'(1,3), of "''allow_other''"] s'(2) by (simp add: demo_user_simps demo_proc_def)
  qed
  then show ?thesis using s'(1,3) by blast
qed

subsection \<open>Options behind an escaped comma\<close>

text \<open>The field \<open>f\<close> is among the options of every mount so far.\<close>

definition gets_field :: "cstring \<Rightarrow> proc \<Rightarrow> bool" where
  "gets_field f s \<longleftrightarrow> (\<forall>source target type flags dat. Mount source target type flags dat \<in> set (trace s) \<longrightarrow> (\<exists>d. dat = Some d \<and> f \<in> set (comma_fields d)))"

lemma robust_gets: "robust (gets_field f)"
  by (auto simp: robust_def gets_field_def)

lemma gets_field_keep:
  "keeps_to (gets_field f) (sys E (Setfsuid u))" "(\<And>s. trace (g s) = trace s) \<Longrightarrow> keeps_to (gets_field f) (State_Monad.update g)"
  "f \<in> set (comma_fields d) \<Longrightarrow> keeps_to (gets_field f) (sys E (Mount source target type flags (Some d)))"
  by (rule holds_sys holds_update, fastforce simp: gets_field_def)+

lemma gets_privs: "keeps_to (gets_field f) (drop_privs E)" "keeps_to (gets_field f) (restore_privs E)"
  unfolding drop_privs_def restore_privs_def
  by (intro keeps_rules keeps_get gets_field_keep robust_gets; simp)+

lemma gets_checks:
  "keeps_to (gets_field f) (open_fuse_device E)" "keeps_to (gets_field f) (read_conf E)" "keeps_to (gets_field f) (check_perm E mnt)"
  unfolding open_fuse_device_def try_open_fuse_device_def read_conf_def check_perm_def check_dir_def check_file_def Let_def
  by (intro keeps_rules keeps_try_open gets_privs gets_field_keep(2) robust_gets; simp add: read_lines_keep)+

lemma gets_try_mount:
  assumes "\<And>fd rootmode g. f \<in> set (comma_fields (mo_buf m @ fd_options E fd rootmode g))"
  shows "keeps_to (gets_field f) (try_mount E mnt dev fd rootmode m)"
  unfolding try_mount_def Let_def by (intro keeps_rules gets_field_keep(3) assms)

lemma gets_do_mount:
  assumes "\<And>s. run_state (mount_options E options default_opts) s = (Some m, s)" "\<And>fd rootmode g. f \<in> set (comma_fields (mo_buf m @ fd_options E fd rootmode g))"
  shows "keeps_to (gets_field f) (do_mount E mnt rootmode fd options dev rootsize)"
proof -
  have "mount_options E options default_opts = result (Some m)" by (rule state.expand) (simp add: fun_eq_iff assms(1))
  then show ?thesis unfolding do_mount_def
    by (simp only: bind_left_identity option.case)
      (intro keeps_rules keeps_mnt_opts keeps_check_empty keeps_check_fuseblk gets_try_mount assms(2) robust_gets)
qed

text \<open>An option with an escaped comma is one option for \<open>fusermount\<close>.\<close>

definition escaped_pair :: "cstring \<Rightarrow> cstring \<Rightarrow> cstring" where
  "escaped_pair x f = x @ [BACKSLASH_C] @ '','' @ f"

lemma opt_len_unescaped: "BACKSLASH_C \<notin> set x \<Longrightarrow> CHR '','' \<notin> set x \<Longrightarrow> opt_len (x @ s) = length x + opt_len s"
  by (induction x) auto

lemma opt_len_pair:
  assumes "BACKSLASH_C \<notin> set (x @ f)" "CHR '','' \<notin> set (x @ f)"
  shows "opt_len (escaped_pair x f) = length (escaped_pair x f)"
  using assms opt_len_unescaped [of x "[BACKSLASH_C] @ '','' @ f"] opt_len_unescaped [of f "[]"] by (simp add: escaped_pair_def)

lemma begins_pair: "BACKSLASH_C \<notin> set p \<Longrightarrow> begins_with (escaped_pair x f) p \<longleftrightarrow> begins_with x p"
proof (induction p arbitrary: x)
  case (Cons c p)
  then show ?case by (cases x) (auto simp: escaped_pair_def begins_with_def)
qed (simp add: begins_with_def)

lemma pair_no_flag: "BACKSLASH_C \<notin> set t \<Longrightarrow> escaped_pair x f \<noteq> t"
  by (auto simp: escaped_pair_def)

lemma pair_options:
  assumes "BACKSLASH_C \<notin> set (x @ f)" "CHR '','' \<notin> set (x @ f)"
    and "\<forall>p\<in>set [''fsname='', ''subtype='', ''fd='', ''rootmode='', ''user_id='', ''group_id='']. \<not> begins_with x p"
  shows "run_state (mount_options E (escaped_pair x f) default_opts) s = (Some (default_opts\<lparr>mo_buf := escaped_pair x f @ '',''\<rparr>), s)"
proof -
  have no: "escaped_pair x f \<noteq> ''blkdev''" "escaped_pair x f \<noteq> ''nonempty''" "escaped_pair x f \<noteq> ''large_read''" "escaped_pair x f \<noteq> ''allow_other''" "escaped_pair x f \<noteq> ''allow_root''"
    by (rule pair_no_flag, simp)+
  have b: "\<not> begins_with (escaped_pair x f) p" if "p \<in> set [''fsname='', ''subtype='', ''fd='', ''rootmode='', ''user_id='', ''group_id='']" for p
    using assms(3) that by (subst begins_pair) auto
  have "\<forall>t\<in>set mount_flags. BACKSLASH_C \<notin> set (mf_opt t)" by (simp add: mount_flags_def)
  then have "find (\<lambda>t. mf_opt t = escaped_pair x f) mount_flags = None" by (auto simp: find_None_iff escaped_pair_def)
  then have flag: "find_mount_flag E (escaped_pair x f) = None" by (simp add: find_mount_flag_def)
  have "run_state (mount_option E (escaped_pair x f) default_opts) s = (Some (default_opts\<lparr>mo_buf := escaped_pair x f @ '',''\<rparr>), s)"
    using no b flag by (simp add: mount_option_def other_option_def opt_len_pair [OF assms(1,2)] Let_def) (simp add: default_opts_def)
  moreover have "escaped_pair x f \<noteq> []" "next_option (escaped_pair x f) = []"
    by (simp add: escaped_pair_def, simp add: next_option_def opt_len_pair [OF assms(1,2)])
  ultimately show ?thesis by (subst mount_options.simps) (simp add: mount_options.simps [of E "[]"])
qed

lemma pair_fields:
  assumes "CHR '','' \<notin> set (x @ f)"
  shows "f \<in> set (comma_fields ((escaped_pair x f @ '','') @ t))"
proof -
  have "comma_fields ((escaped_pair x f @ '','') @ t) = (x @ [BACKSLASH_C]) # f # comma_fields t"
    using comma_fields_concat [of "[x @ [BACKSLASH_C], f]" t] assms by (simp add: escaped_pair_def)
  then show ?thesis by simp
qed

lemma gets_mount_fuse:
  assumes "BACKSLASH_C \<notin> set (x @ f)" "CHR '','' \<notin> set (x @ f)"
    and "\<forall>p\<in>set [''fsname='', ''subtype='', ''fd='', ''rootmode='', ''user_id='', ''group_id='']. \<not> begins_with x p"
  shows "keeps_to (gets_field f) (mount_fuse E mnt (escaped_pair x f))"
proof -
  have mount: "keeps_to (gets_field f) (do_mount E target rootmode fd (escaped_pair x f) dev rootsize)" for target rootmode fd dev rootsize
    using gets_do_mount [of E "escaped_pair x f" "default_opts\<lparr>mo_buf := escaped_pair x f @ '',''\<rparr>" f] pair_options [OF assms] pair_fields [OF assms(2)] by simp
  show ?thesis unfolding mount_fuse_def mount_checked_def
    by (intro keeps_rules keeps_get keeps_small keeps_add_mount gets_privs gets_checks mount robust_gets; simp)
qed

text \<open>
  C35: the proviso is needed. A comma behind a backslash does not end an option for \<open>fusermount\<close>, but it does for the kernel. Whatever \<open>f\<close> is, and
  whoever calls \<open>fusermount\<close> with the option \<open>x\,f\<close>, where \<open>x\<close> does not begin like an option that \<open>fusermount\<close> takes apart or drops: every mount it makes, whatever the system answers,
  has \<open>f\<close> among its options as the kernel reads them. So a user gets \<open>allow_other\<close> although the configuration does not allow it,
  or names another user.
\<close>

theorem escaped_comma_passes:
  assumes "BACKSLASH_C \<notin> set (x @ f)" "CHR '','' \<notin> set (x @ f)"
    and "\<forall>p\<in>set [''fsname='', ''subtype='', ''fd='', ''rootmode='', ''user_id='', ''group_id='']. \<not> begins_with x p"
    and "trace s = []" "run_state (mount_fuse E mnt (x @ [BACKSLASH_C] @ '','' @ f)) s = (r, s')" "Mount source target type flags dat \<in> set (trace s')"
  shows "\<exists>d. dat = Some d \<and> f \<in> set (comma_fields d)"
proof -
  have "gets_field f s" using assms(4) by (simp add: gets_field_def)
  then have "gets_field f s'" using gets_mount_fuse [OF assms(1-3), of E mnt] assms(5) by (fastforce simp: holds_def escaped_pair_def)
  then show ?thesis using assms(6) unfolding gets_field_def by blast
qed

text \<open>The witness: a user who may not, and gets it.\<close>

theorem escaped_comma_passes_witness:
  "\<exists>s' r source target type flags d. getuid demo_user \<noteq> 0 \<and>
     run_state (mount_fuse demo_user ''/m'' (''x'' @ [BACKSLASH_C] @ '','' @ ''allow_other'')) demo_proc = (r, s') \<and> r \<ge> 0 \<and> \<not> user_allow_other s' \<and>
     Mount source target type flags (Some d) \<in> set (trace s') \<and> ''allow_other'' \<in> set (comma_fields d)"
proof -
  let ?o = "''x'' @ [BACKSLASH_C] @ '','' @ ''allow_other''" and ?buf = "''x'' @ [BACKSLASH_C] @ '',allow_other,''"
  obtain s' where s': "run_state (mount_fuse demo_user ''/m'' ?o) demo_proc = (3, s')" "\<not> user_allow_other s'"
    "Mount ''/dev/fuse'' ''.'' ''fuse'' 6 (Some (?buf @ fd_options demo_user 3 0x4000 True)) \<in> set (trace s')"
    using demo_mount [of ?o ?buf] by (auto simp: demo_options)
  have "BACKSLASH_C \<notin> set (''x'' @ ''allow_other'')" "CHR '','' \<notin> set (''x'' @ ''allow_other'')" "trace demo_proc = []"
    "\<forall>p\<in>set [''fsname='', ''subtype='', ''fd='', ''rootmode='', ''user_id='', ''group_id='']. \<not> begins_with ''x'' p"
    by (simp_all add: demo_proc_def begins_with_def)
  then have "''allow_other'' \<in> set (comma_fields (?buf @ fd_options demo_user 3 0x4000 True))"
    using escaped_comma_passes [OF _ _ _ _ s'(1,3)] by blast
  moreover have "getuid demo_user \<noteq> 0" "(3::int) \<ge> 0" by (simp_all add: demo_user_simps)
  ultimately show ?thesis using s' by blast
qed

end
