(* ===== verification/Fusermount_Unmount.thy ===== *)
theory Fusermount_Unmount
  imports Fusermount_Proofs
begin

text \<open>
  What the program that mounts for users unmounts for them, whatever the system answers: only mounts the table gives as the user's own, by the last
  component of their name, from a directory found to be their parent, and after a mount was found there.
\<close>

unbundle bit_operations_syntax

text \<open>The table had an entry of this user for the mount point; the process was in the parent directory; and a mount was found behind the last
  component in a name space of its own.\<close>

definition owned :: "proc_env \<Rightarrow> cstring \<Rightarrow> syscall list \<Rightarrow> bool" where
  "owned E mnt tr \<longleftrightarrow> (\<exists>a b. tr = a @ [Getpwuid (getuid E), Setmntent ''/etc/mtab''] @ b \<and>
     (\<exists>e\<in>set (ents_of (os E (a @ [Getpwuid (getuid E)]) (Setmntent ''/etc/mtab''))). mnt_dir e = mnt \<and> is_fuse_type (mnt_type e) \<and>
        mounted_by (mnt_opts e) (text_of (os E a (Getpwuid (getuid E)))) (digits 10 (unat (getuid E)))))"

definition in_parent :: "proc_env \<Rightarrow> cstring \<Rightarrow> syscall list \<Rightarrow> bool" where
  "in_parent E mnt tr \<longleftrightarrow> (\<exists>a p b. p = (if first_part mnt = [] then ''/'' else first_part mnt) \<and> tr = a @ [Chdir p, Getcwd] @ b \<and>
     ret (os E a (Chdir p)) \<noteq> - 1 \<and> text_of (os E (a @ [Chdir p]) Getcwd) = p)"

definition seen_mounted :: "proc_env \<Rightarrow> cstring \<Rightarrow> syscall list \<Rightarrow> bool" where
  "seen_mounted E lst tr \<longleftrightarrow> (\<exists>a b. let p = Mount [] ''/'' [] (MS_PRIVATE OR MS_REC) None; m = Setmntent ''/proc/mounts'' in
     tr = a @ [p, m, m, Mount ''.'' ''/'' [] (MS_BIND OR MS_REC) None] @ b \<and>
     (\<exists>e\<in>set (drop (length (ents_of (os E (a @ [p]) m))) (ents_of (os E (a @ [p, m]) m))). mnt_dir e = CHR ''/'' # lst))"

definition unmount_ok :: "proc_env \<Rightarrow> cstring \<Rightarrow> syscall list \<Rightarrow> syscall \<Rightarrow> bool" where
  "unmount_ok E mnt tr c \<longleftrightarrow> ((\<exists>p f. c = Umount2 p f) \<or> (\<exists>xs. c = Execl xs) \<longrightarrow>
     owned E mnt tr \<and> in_parent E mnt tr \<and> seen_mounted E (last_part mnt) tr \<and>
     (\<exists>f xs. c = Umount2 (last_part mnt) f \<or> c = Execl ([''/bin/umount'', ''/bin/umount'', ''-i'', last_part mnt] @ xs) \<and> set xs \<subseteq> {''-l''}))"

definition unmounts_ok :: "proc_env \<Rightarrow> cstring \<Rightarrow> proc \<Rightarrow> bool" where
  "unmounts_ok E mnt s \<longleftrightarrow> (\<forall>a c b. trace s = a @ c # b \<longrightarrow> unmount_ok E mnt a c)"

text \<open>What stays when calls are added.\<close>

definition lasting :: "(syscall list \<Rightarrow> bool) \<Rightarrow> bool" where
  "lasting R \<longleftrightarrow> (\<forall>tr c. R tr \<longrightarrow> R (tr @ [c]))"

lemma lasting_facts: "lasting (owned E mnt)" "lasting (in_parent E mnt)" "lasting (seen_mounted E lst)"
proof -
  have ext: "(tr = a @ xs @ b) \<Longrightarrow> tr @ [c] = a @ xs @ (b @ [c])" for tr a xs b and c :: syscall by simp
  show "lasting (owned E mnt)" unfolding lasting_def owned_def using ext by blast
  show "lasting (in_parent E mnt)" unfolding lasting_def in_parent_def using ext by blast
  show "lasting (seen_mounted E lst)" unfolding lasting_def seen_mounted_def Let_def using ext by blast
qed

abbreviation after :: "proc_env \<Rightarrow> cstring \<Rightarrow> (syscall list \<Rightarrow> bool) \<Rightarrow> proc \<Rightarrow> bool" where
  "after E mnt R s \<equiv> unmounts_ok E mnt s \<and> R (trace s)"

lemma lasting_rules: "lasting (\<lambda>_. True)" "lasting R \<Longrightarrow> lasting R' \<Longrightarrow> lasting (\<lambda>tr. R tr \<and> R' tr)"
  by (simp_all add: lasting_def)

lemma unmounts_ok_snoc [simp]:
  "unmounts_ok E mnt (s\<lparr>trace := trace s @ [c]\<rparr>) \<longleftrightarrow> unmounts_ok E mnt s \<and> unmount_ok E mnt (trace s) c"
  using snoc_split [of "trace s" c "unmount_ok E mnt"] by (cases s) (simp only: unmounts_ok_def proc.simps)

lemma unmounts_ok_mem [simp]: "unmounts_ok E mnt (s\<lparr>pr_mem := m\<rparr>) \<longleftrightarrow> unmounts_ok E mnt s"
  by (simp add: unmounts_ok_def)

definition quiet_call :: "syscall \<Rightarrow> bool" where
  "quiet_call c \<longleftrightarrow> (case c of Umount2 _ _ \<Rightarrow> False | Execl _ \<Rightarrow> False | _ \<Rightarrow> True)"

lemma unmount_ok_quiet: "quiet_call c \<Longrightarrow> unmount_ok E mnt tr c"
  by (auto simp: unmount_ok_def quiet_call_def)

lemma after_sys: "lasting R \<Longrightarrow> quiet_call c \<Longrightarrow> keeps_to (after E mnt R) (sys E c)"
  by (rule holds_sys) (simp add: unmount_ok_quiet lasting_def)

lemma after_malloc: "keeps_to (after E mnt R) malloc"
  by (rule holds_malloc) simp

lemmas after_rules = keeps_to_bind holds_if holds_option holds_prod after_sys after_malloc robust_result

lemma after_small:
  assumes "lasting R"
  shows "keeps_to (after E mnt R) (lock_umount E)" "keeps_to (after E mnt R) (unlock_umount E l)" "keeps_to (after E mnt R) (back_to E fd)"
    "keeps_to (after E mnt R) (mtab_needs_update E m)"
  unfolding lock_umount_def unlock_umount_def back_to_def mtab_needs_update_def using assms
  by (intro after_rules; simp add: quiet_call_def)+

lemma unmounts_ok_quiets: "unmounts_ok E mnt s \<Longrightarrow> list_all quiet_call cs \<Longrightarrow> unmounts_ok E mnt (s\<lparr>trace := trace s @ cs\<rparr>)"
proof (induction cs rule: rev_induct)
  case (snoc c cs)
  then show ?case using unmounts_ok_snoc [of E mnt "s\<lparr>trace := trace s @ cs\<rparr>" c] by (simp add: unmount_ok_quiet)
qed simp

lemma lasting_append: "lasting R \<Longrightarrow> R tr \<Longrightarrow> R (tr @ cs)"
proof (induction cs rule: rev_induct)
  case (snoc c cs)
  then show ?case unfolding lasting_def by (metis append_assoc)
qed simp

lemmas by_running = holds_def sys_def unmounts_ok_quiets lasting_append quiet_call_def unmount_ok_quiet

lemma may_unmount_ok:
  "holds (unmounts_ok E mnt) (may_unmount E mnt) (\<lambda>r. after E mnt (\<lambda>tr. r \<noteq> - 1 \<longrightarrow> owned E mnt tr))"
proof -
  have "owned E mnt (trace s @ [Getpwuid (getuid E), Setmntent ''/etc/mtab''])"
    if "e \<in> set (ents_of (os E (trace s @ [Getpwuid (getuid E)]) (Setmntent ''/etc/mtab'')))" "mnt_dir e = mnt" "is_fuse_type (mnt_type e)"
      "mounted_by (mnt_opts e) (text_of (os E (trace s) (Getpwuid (getuid E)))) (digits 10 (unat (getuid E)))" for s e
    using that unfolding owned_def by fastforce
  then show ?thesis by (auto simp: by_running may_unmount_def get_user_name_def)
qed

lemma chdir_to_parent_ok:
  assumes "lasting R"
  shows "holds (after E mnt R) (chdir_to_parent E mnt) (\<lambda>(r, lst, fd). after E mnt (\<lambda>tr. R tr \<and> (r \<noteq> - 1 \<longrightarrow> lst = last_part mnt \<and> in_parent E mnt tr)))"
proof -
  let ?p = "if first_part mnt = [] then ''/'' else first_part mnt"
  have "in_parent E mnt (trace s @ [Open ''.'' O_RDONLY, Chdir ?p, Getcwd])"
    if "ret (os E (trace s @ [Open ''.'' O_RDONLY]) (Chdir ?p)) \<noteq> - 1" "text_of (os E (trace s @ [Open ''.'' O_RDONLY, Chdir ?p]) Getcwd) = ?p" for s
    using that unfolding in_parent_def by (intro exI [of _ "trace s @ [Open ''.'' O_RDONLY]"] exI [of _ ?p] exI [of _ "[]"]) simp
  then show ?thesis using assms unfolding chdir_to_parent_def Let_def by (auto simp: by_running)
qed

lemma check_is_mount_ok:
  assumes "lasting R"
  shows "holds (after E mnt R) (check_is_mount E lst) (\<lambda>r. after E mnt (\<lambda>tr. R tr \<and> (r \<noteq> - 1 \<longrightarrow> seen_mounted E lst tr)))"
proof -
  let ?p = "Mount [] ''/'' [] (MS_PRIVATE OR MS_REC) None" and ?m = "Setmntent ''/proc/mounts''" and ?b = "Mount ''.'' ''/'' [] (MS_BIND OR MS_REC) None"
  have "seen_mounted E lst (trace s @ [Clone_newns, ?p, ?m, ?m, ?b, Waitpid])"
    if "e \<in> set (drop (length (ents_of (os E (trace s @ [Clone_newns, ?p]) ?m))) (ents_of (os E (trace s @ [Clone_newns, ?p, ?m]) ?m)))"
      "mnt_dir e = CHR ''/'' # lst" for s e
    using that unfolding seen_mounted_def Let_def by (intro exI [of _ "trace s @ [Clone_newns]"] exI [of _ "[Waitpid]"]) auto
  then show ?thesis using assms unfolding check_is_mount_def check_is_mount_child_def by (auto simp: by_running)
qed

text \<open>Every proof of ownership, in one fact.\<close>

abbreviation all_checked :: "proc_env \<Rightarrow> cstring \<Rightarrow> syscall list \<Rightarrow> bool" where
  "all_checked E mnt tr \<equiv> owned E mnt tr \<and> in_parent E mnt tr \<and> seen_mounted E (last_part mnt) tr"

lemma lasting_all: "lasting (all_checked E mnt)"
  by (intro lasting_rules lasting_facts)

lemma fuse_mnt_umount_ok: "keeps_to (after E mnt (all_checked E mnt)) (fuse_mnt_umount E mnt (last_part mnt) lazy)"
proof -
  have call: "keeps_to (after E mnt (all_checked E mnt)) (sys E c)"
    if "c = Umount2 (last_part mnt) f \<or> c = Execl ([''/bin/umount'', ''/bin/umount'', ''-i'', last_part mnt] @ (if lazy then [''-l''] else []))" for c f
    by (rule holds_sys) (use that lasting_all [of E mnt] in \<open>auto simp: unmount_ok_def lasting_def split: if_splits\<close>)
  show ?thesis unfolding fuse_mnt_umount_def exec_umount_def run_child_def
    by (intro after_rules after_small call lasting_all) (simp_all add: quiet_call_def)
qed

lemma unmount_mount_ok:
  "holds (after E mnt (\<lambda>tr. owned E mnt tr \<and> in_parent E mnt tr))
     (check_is_mount E (last_part mnt) \<bind> (\<lambda>res. if res = - 1 then result (- 1) else fuse_mnt_umount E mnt (last_part mnt) lazy)) (\<lambda>_. unmounts_ok E mnt)"
proof (rule holds_bind [OF check_is_mount_ok], goal_cases)
  case 1
  show ?case by (intro lasting_rules lasting_facts)
next
  case (2 res)
  show ?case
    by (rule holds_if, rule holds_result, simp, rule holds_conseq [OF fuse_mnt_umount_ok]) auto
qed

lemma unmount_fuse_ok:
  assumes "getuid E \<noteq> 0"
  shows "keeps_to (unmounts_ok E mnt) (unmount_fuse E mnt lazy)"
proof -
  have small: "keeps_to (unmounts_ok E mnt) (lock_umount E)" "keeps_to (unmounts_ok E mnt) (unlock_umount E l)" "keeps_to (unmounts_ok E mnt) (back_to E fd)" for l fd
    using after_small(1-3) [OF lasting_rules(1), of E mnt] by simp_all
  have part: "holds (after E mnt (\<lambda>tr. owned E mnt tr \<and> (res \<noteq> - 1 \<longrightarrow> lst = last_part mnt \<and> in_parent E mnt tr)))
    (if res = - 1 then result (- 1)
     else check_is_mount E lst \<bind> (\<lambda>res. if res = - 1 then result (- 1) else fuse_mnt_umount E mnt lst lazy)) (\<lambda>_. unmounts_ok E mnt)"
    (is "holds ?P _ _") for res lst
  proof (cases "res = - 1")
    case True
    then show ?thesis by (auto intro: holds_result)
  next
    case False
    have "holds ?P (check_is_mount E lst \<bind> (\<lambda>res. if res = - 1 then result (- 1) else fuse_mnt_umount E mnt lst lazy)) (\<lambda>_. unmounts_ok E mnt)"
    proof (rule holds_pre [where b = "lst = last_part mnt"])
      assume "lst = last_part mnt"
      then show ?thesis using False by (simp only:) (rule holds_conseq [OF unmount_mount_ok], simp_all)
    qed (use False in simp)
    then show ?thesis using False by simp
  qed
  have locked: "keeps_to (unmounts_ok E mnt) (unmount_fuse_locked E mnt lazy)"
    unfolding unmount_fuse_locked_def if_P [OF assms]
  proof (rule holds_bind [OF may_unmount_ok], rule holds_if, goal_cases)
    case (1 r)
    then show ?case by (intro holds_result) simp
  next
    case (2 r)
    have "holds (after E mnt (owned E mnt)) (malloc \<bind> (\<lambda>ok. if \<not> ok then result (- 1) else chdir_to_parent E mnt \<bind> (\<lambda>(res, lst, fd).
        (if res = - 1 then result (- 1)
         else check_is_mount E lst \<bind> (\<lambda>res. if res = - 1 then result (- 1) else fuse_mnt_umount E mnt lst lazy)) \<bind>
        (\<lambda>res. back_to E fd \<bind> (\<lambda>_. result res))))) (\<lambda>_. unmounts_ok E mnt)"
    proof (rule holds_bind [OF after_malloc], rule holds_if, goal_cases)
      case (1 ok)
      then show ?case by (intro holds_result) simp
    next
      case (2 ok)
      show ?case
      proof (rule holds_bind [OF chdir_to_parent_ok [OF lasting_facts(1)]], goal_cases)
        case (1 x)
        show ?case by (cases x) (simp only: prod.case, rule holds_bind [OF part], rule keeps_to_bind [OF small(3)], rule robust_result)
      qed
    qed
    then show ?case by (rule holds_conseq) (use 2 in simp_all)
  qed
  show ?thesis unfolding unmount_fuse_def by (intro keeps_to_bind small locked robust_result)
qed

text \<open>C36: whatever the system answers, every unmount that \<open>fusermount\<close> makes for a user other than root, itself or with the
  program \<open>umount\<close>, is of the last component of the name it was given, from a directory found to be the parent, after the table had
  an entry for the name, of a type of FUSE and with the user's name or number, and after a mount under that component was found in
  a private name space.\<close>

theorem user_unmounts_own:
  assumes "getuid E \<noteq> 0" "trace s = []" "run_state (unmount_fuse E mnt lazy) s = (r, s')"
    "trace s' = a @ c # b" "(\<exists>p f. c = Umount2 p f) \<or> (\<exists>xs. c = Execl xs)"
  shows "owned E mnt a \<and> in_parent E mnt a \<and> seen_mounted E (last_part mnt) a \<and>
     (\<exists>f xs. c = Umount2 (last_part mnt) f \<or> c = Execl ([''/bin/umount'', ''/bin/umount'', ''-i'', last_part mnt] @ xs) \<and> set xs \<subseteq> {''-l''})"
proof -
  have "unmounts_ok E mnt s" using assms(2) by (simp add: unmounts_ok_def)
  then have "unmount_ok E mnt a c"
    using unmount_fuse_ok [OF assms(1), of mnt lazy] assms(3,4) unfolding holds_def unmounts_ok_def by (metis (mono_tags, lifting) case_prod_conv)
  then show ?thesis using assms(5) unfolding unmount_ok_def by blast
qed

definition demo_owner :: proc_env where
  "demo_owner = \<lparr>getuid = 1000, getgid = 1000, geteuid = 0, commfd = None,
     os = (\<lambda>tr c. \<lparr>ret = 0, errnum = 0, text_of = (case c of Getcwd \<Rightarrow> ''/'' | _ \<Rightarrow> ''u''), names_of = [],
       ents_of = (if c = Setmntent ''/proc/mounts'' \<and> Setmntent ''/proc/mounts'' \<notin> set tr then []
                  else [\<lparr>mnt_dir = ''/m'', mnt_type = ''fuse'', mnt_opts = ''user=u''\<rparr>]),
       stat_of = stat0\<lparr>st_mode := 0xA000\<rparr>, status_of = 0, pair_of = None\<rparr>)\<rparr>"

lemma demo_owner_simps:
  "getuid demo_owner = 1000" "ret (os demo_owner tr c) = 0" "text_of (os demo_owner tr c) = (case c of Getcwd \<Rightarrow> ''/'' | _ \<Rightarrow> ''u'')"
  "ents_of (os demo_owner tr c) = (if c = Setmntent ''/proc/mounts'' \<and> Setmntent ''/proc/mounts'' \<notin> set tr then []
                  else [\<lparr>mnt_dir = ''/m'', mnt_type = ''fuse'', mnt_opts = ''user=u''\<rparr>])"
  "st_mode (stat_of (os demo_owner tr c)) = 0xA000" "status_of (os demo_owner tr c) = 0"
  by (simp_all add: demo_owner_def)

lemma demo_unmount:
  "\<exists>s'. run_state (unmount_fuse demo_owner ''/m'' True) demo_proc = (0, s') \<and> Umount2 ''m'' 2 \<in> set (trace s')"
proof -
  have "mounted_by ''user=u'' ''u'' x" for x
    unfolding mounted_by_def by (rule disjI1) code_simp
  moreover have "last_part ''/m'' = ''m''" "first_part ''/m'' = []" by code_simp+
  ultimately show ?thesis
    by (simp add: unmount_fuse_def lock_umount_def unlock_umount_def unmount_fuse_locked_def may_unmount_def get_user_name_def is_fuse_type_def
        chdir_to_parent_def check_is_mount_def check_is_mount_child_def fuse_mnt_umount_def mtab_needs_update_def back_to_def
        Let_def sys_def malloc_def alloc_def S_ISLNK_def S_IFMT_def demo_owner_simps demo_proc_def)
qed

theorem user_unmounts_own_witness:
  "\<exists>a b r s'. run_state (unmount_fuse demo_owner ''/m'' True) demo_proc = (r, s') \<and> trace s' = a @ Umount2 ''m'' 2 # b \<and>
     owned demo_owner ''/m'' a \<and> in_parent demo_owner ''/m'' a"
proof -
  obtain s' where s': "run_state (unmount_fuse demo_owner ''/m'' True) demo_proc = (0, s')" "Umount2 ''m'' 2 \<in> set (trace s')"
    using demo_unmount by blast
  then obtain a b where a: "trace s' = a @ Umount2 ''m'' 2 # b" by (metis in_set_conv_decomp)
  have "owned demo_owner ''/m'' a \<and> in_parent demo_owner ''/m'' a"
    using user_unmounts_own [OF _ _ s'(1) a] by (simp add: demo_owner_simps demo_proc_def)
  then show ?thesis using s'(1) a by blast
qed

end
