(* ===== verification/Fuse_Mount.thy ===== *)
theory Fuse_Mount
  imports Fusermount
begin

text \<open>
  How the library mounts a file system (\<open>lib/mount.c\<close>): its options, the mount with the rights of the process, and
  the program \<open>fusermount\<close> when these are not enough. As in \<open>Mount_Util\<close> a function is a program over calls of
  the system, whose answers the environment gives; \<open>None\<close> as the result of a program says that the process was
  ended by the dereference of a null pointer or by \<open>abort\<close>. The help text and the version of \<open>fusermount\<close>, which
  are only printed, are left out.
\<close>

unbundle bit_operations_syntax

subsection \<open>Options\<close>

text \<open>The fields of \<open>struct mount_opts\<close>; a field the options do not set is 0 or a null pointer.\<close>

datatype mount_field =
  Allow_other | Allow_root | Ishelp | Flags | Nonempty | Blkdev | Fsname | Subtype | Subtype_opt | Mtab_opts | Fusermount_opts | Kernel_opts

definition mo_int :: "mount_field optdata \<Rightarrow> mount_field \<Rightarrow> int" where
  "mo_int mo k = (case mo k of Some (VInt i) \<Rightarrow> i | _ \<Rightarrow> 0)"

definition mo_str :: "mount_field optdata \<Rightarrow> mount_field \<Rightarrow> cstring option" where
  "mo_str mo k = (case mo k of Some (VStr s) \<Rightarrow> Some s | _ \<Rightarrow> None)"

abbreviation (input) KEY_KERN_FLAG :: int where "KEY_KERN_FLAG \<equiv> 0"
abbreviation (input) KEY_KERN_OPT :: int where "KEY_KERN_OPT \<equiv> 1"
abbreviation (input) KEY_FUSERMOUNT_OPT :: int where "KEY_FUSERMOUNT_OPT \<equiv> 2"
abbreviation (input) KEY_SUBTYPE_OPT :: int where "KEY_SUBTYPE_OPT \<equiv> 3"
abbreviation (input) KEY_MTAB_OPT :: int where "KEY_MTAB_OPT \<equiv> 4"
abbreviation (input) KEY_ALLOW_ROOT :: int where "KEY_ALLOW_ROOT \<equiv> 5"
abbreviation (input) KEY_RO :: int where "KEY_RO \<equiv> 6"
abbreviation (input) KEY_HELP :: int where "KEY_HELP \<equiv> 7"
abbreviation (input) KEY_VERSION :: int where "KEY_VERSION \<equiv> 8"

definition fuse_mount_opts :: "mount_field fuse_opt list" where
  "fuse_mount_opts =
     map (\<lambda>(t, p). \<lparr>templ = t, offset = Some p, opt_value = 1\<rparr>)
       [(''allow_other'', Allow_other), (''allow_root'', Allow_root), (''nonempty'', Nonempty), (''blkdev'', Blkdev),
        (''fsname=%s'', Fsname), (''subtype=%s'', Subtype)] @
     map (\<lambda>(t, k). \<lparr>templ = t, offset = None, opt_value = k\<rparr>)
       [(''allow_other'', KEY_KERN_OPT), (''allow_root'', KEY_ALLOW_ROOT), (''nonempty'', KEY_FUSERMOUNT_OPT),
        (''blkdev'', KEY_FUSERMOUNT_OPT), (''fsname='', KEY_FUSERMOUNT_OPT), (''subtype='', KEY_SUBTYPE_OPT),
        (''large_read'', KEY_KERN_OPT), (''blksize='', KEY_KERN_OPT), (''default_permissions'', KEY_KERN_OPT),
        (''max_read='', KEY_KERN_OPT), (''max_read='', FUSE_OPT_KEY_KEEP), (''user='', KEY_MTAB_OPT), (''-r'', KEY_RO),
        (''ro'', KEY_KERN_FLAG), (''rw'', KEY_KERN_FLAG), (''suid'', KEY_KERN_FLAG), (''nosuid'', KEY_KERN_FLAG),
        (''dev'', KEY_KERN_FLAG), (''nodev'', KEY_KERN_FLAG), (''exec'', KEY_KERN_FLAG), (''noexec'', KEY_KERN_FLAG),
        (''async'', KEY_KERN_FLAG), (''sync'', KEY_KERN_FLAG), (''dirsync'', KEY_KERN_FLAG), (''atime'', KEY_KERN_FLAG),
        (''noatime'', KEY_KERN_FLAG), (''-h'', KEY_HELP), (''--help'', KEY_HELP), (''-V'', KEY_VERSION), (''--version'', KEY_VERSION)]"

text \<open>The table \<open>mount_flags\<close> of the library, which has no entries for safety.\<close>

definition lib_mount_flags :: "(cstring \<times> u32 \<times> bool) list" where
  "lib_mount_flags =
     [(''rw'', MS_RDONLY, False), (''ro'', MS_RDONLY, True), (''suid'', MS_NOSUID, False), (''nosuid'', MS_NOSUID, True),
      (''dev'', MS_NODEV, False), (''nodev'', MS_NODEV, True), (''exec'', MS_NOEXEC, False), (''noexec'', MS_NOEXEC, True),
      (''async'', MS_SYNCHRONOUS, False), (''sync'', MS_SYNCHRONOUS, True), (''atime'', MS_NOATIME, False),
      (''noatime'', MS_NOATIME, True), (''dirsync'', MS_DIRSYNC, True)]"

definition set_mount_flag :: "cstring \<Rightarrow> u32 \<Rightarrow> u32 option" where
  "set_mount_flag s flags =
     map_option (\<lambda>(opt, flag, on). if on then flags OR flag else flags AND NOT flag) (find (\<lambda>(opt, flag, on). opt = s) lib_mount_flags)"

definition mo_flag_word :: "mount_field optdata \<Rightarrow> u32" where
  "mo_flag_word mo = word_of_int (mo_int mo Flags)"

text \<open>An option added to one of the strings of the structure.\<close>

definition add_to :: "mount_field \<Rightarrow> cstring \<Rightarrow> bool \<Rightarrow> mount_field optdata \<Rightarrow> allocs \<Rightarrow> int \<times> mount_field optdata \<times> allocs" where
  "add_to k opt esc mo m =
     (let (res, s, m) = (if esc then fuse_opt_add_opt_escaped m (mo_str mo k) opt else fuse_opt_add_opt m (mo_str mo k) opt)
      in (res, mo(k := map_option VStr s), m))"

definition fuse_mount_opt_proc :: "mount_field opt_proc" where
  "fuse_mount_opt_proc mo arg key out m =
     (let string = (\<lambda>k esc. let (res, mo, m) = add_to k arg esc mo m in Some (res, mo, out, m))
      in if key = KEY_ALLOW_ROOT then
           (let (res, mo, m) = add_to Kernel_opts ''allow_other'' False mo m
            in if res = - 1 then Some (- 1, mo, out, m)
               else do {
                 (res, out, m) \<leftarrow> fuse_opt_add_arg m out ''-oallow_root'';
                 Some (if res = - 1 then - 1 else 0, mo, out, m)
               })
         else if key = KEY_RO \<or> key = KEY_KERN_FLAG then do {
           flags \<leftarrow> set_mount_flag (if key = KEY_RO then ''ro'' else arg) (mo_flag_word mo);
           Some (0, mo(Flags \<mapsto> VInt (uint flags)), out, m)
         }
         else if key = KEY_KERN_OPT then string Kernel_opts False
         else if key = KEY_FUSERMOUNT_OPT then string Fusermount_opts True
         else if key = KEY_SUBTYPE_OPT then string Subtype_opt False
         else if key = KEY_MTAB_OPT then string Mtab_opts False
         else if key = KEY_HELP \<or> key = KEY_VERSION then Some (1, mo(Ishelp \<mapsto> VInt 1), out, m)
         else Some (1, mo, out, m))"

subsection \<open>The program fusermount\<close>

text \<open>The directory of the programs, with the default prefix of the build.\<close>

definition FUSERMOUNT_PATH :: cstring where "FUSERMOUNT_PATH = ''/usr/local/bin/fusermount''"

definition exec_fusermount :: "proc_env \<Rightarrow> cstring list \<Rightarrow> unit io" where
  "exec_fusermount E args = do {
     r \<leftarrow> sys E (Execv (FUSERMOUNT_PATH # args));
     if ret r = - 1 then do { _ \<leftarrow> sys E (Execvp (''fusermount'' # args)); result () } else result ()
   }"

text \<open>The descriptor in the first control message. The type is only compared with 0: the code tests \<open>!cmsg->cmsg_type == SCM_RIGHTS\<close>, and
  \<open>SCM_RIGHTS\<close> is 1.\<close>

definition receive_fd :: "proc_env \<Rightarrow> int \<Rightarrow> int option io" where
  "receive_fd E fd = do {
     r \<leftarrow> sys E (Recvmsg fd);
     result (if ret r = - 1 \<or> ret r = 0 then Some (- 1)
       else map_option (\<lambda>(type, dat). if type = 0 then - 1 else dat) (pair_of r))
   }"

definition POLLERR :: "16 word" where "POLLERR = 8"

definition fuse_kern_unmount :: "proc_env \<Rightarrow> cstring option \<Rightarrow> int \<Rightarrow> unit io" where
  "fuse_kern_unmount E mountpoint fd =
     (case mountpoint of
        None \<Rightarrow> result ()
      | Some mnt \<Rightarrow> do {
          gone \<leftarrow> (if fd \<noteq> - 1 then do {
                     r \<leftarrow> sys E (Poll fd);
                     if ret r = 1 \<and> word_of_int (status_of r) AND POLLERR \<noteq> 0 then result True
                     else do { _ \<leftarrow> sys E (Close fd); result False }
                   } else result False);
          if gone then result ()
          else if geteuid E = 0 then do { _ \<leftarrow> fuse_mnt_umount E mnt mnt True; result () }
          else do {
            r \<leftarrow> sys E (Umount2 mnt 2);
            if ret r = 0 then result ()
            else do {
              f \<leftarrow> sys E Fork;
              if ret f = - 1 then result ()
              else do {
                _ \<leftarrow> exec_fusermount E [''fusermount'', ''-u'', ''-q'', ''-z'', ''--'', mnt];
                _ \<leftarrow> sys E Waitpid;
                result ()
              }
            }
          }
        })"

definition fuse_unmount_compat22 :: "proc_env \<Rightarrow> cstring option \<Rightarrow> unit io" where
  "fuse_unmount_compat22 E mountpoint = fuse_kern_unmount E mountpoint (- 1)"

text \<open>The child of \<open>fuse_mount_fusermount\<close>.\<close>

definition fusermount_child :: "proc_env \<Rightarrow> cstring \<Rightarrow> cstring option \<Rightarrow> bool \<Rightarrow> int \<Rightarrow> int \<Rightarrow> unit io" where
  "fusermount_child E mnt options quiet fd0 fd1 = do {
     _ \<leftarrow> (if quiet then do {
              fd \<leftarrow> sys E (Open ''/dev/null'' O_RDONLY);
              _ \<leftarrow> sys E (Dup2 (ret fd) 1);
              _ \<leftarrow> sys E (Dup2 (ret fd) 2);
              result ()
            } else result ());
     _ \<leftarrow> sys E (Close fd1);
     _ \<leftarrow> sys E (Setcloexec fd0 False);
     _ \<leftarrow> sys E (Setenv ''_FUSE_COMMFD'' (take 9 (fmt_i fd0)));
     exec_fusermount E ([''fusermount''] @ (case options of Some s \<Rightarrow> [''-o'', s] | None \<Rightarrow> []) @ [''--'', mnt])
   }"

text \<open>\<open>socketpair\<close> answers with its two descriptors. The descriptor \<open>fusermount\<close> sends is that of the device, after the mount.\<close>

definition fuse_mount_fusermount :: "proc_env \<Rightarrow> cstring option \<Rightarrow> cstring option \<Rightarrow> bool \<Rightarrow> int option io" where
  "fuse_mount_fusermount E mountpoint options quiet =
     (case mountpoint of
        None \<Rightarrow> result (Some (- 1))
      | Some mnt \<Rightarrow> do {
          r \<leftarrow> sys E Socketpair;
          if ret r = - 1 then result (Some (- 1))
          else do {
            let (fd0, fd1) = (case pair_of r of Some p \<Rightarrow> p | None \<Rightarrow> (- 1, - 1));
            f \<leftarrow> sys E Fork;
            if ret f = - 1 then do { _ \<leftarrow> sys E (Close fd0); _ \<leftarrow> sys E (Close fd1); result (Some (- 1)) }
            else do {
              _ \<leftarrow> fusermount_child E mnt options quiet fd0 fd1;
              _ \<leftarrow> sys E (Close fd0);
              rv \<leftarrow> receive_fd E fd1;
              case rv of
                None \<Rightarrow> result None
              | Some rv \<Rightarrow> do { _ \<leftarrow> sys E (Close fd1); _ \<leftarrow> sys E Waitpid; result (Some rv) }
            }
          }
        })"

definition fuse_mount_compat22 :: "proc_env \<Rightarrow> cstring option \<Rightarrow> cstring option \<Rightarrow> int option io" where
  "fuse_mount_compat22 E mountpoint options = fuse_mount_fusermount E mountpoint options False"

subsection \<open>Mounting with the rights of the process\<close>

abbreviation (input) FUSE_DEVICE :: cstring where "FUSE_DEVICE \<equiv> ''/dev/fuse''"

definition io_add_opt :: "cstring option \<Rightarrow> cstring \<Rightarrow> (int \<times> cstring option) io" where
  "io_add_opt options opt = State (\<lambda>s. let (res, options, m) = fuse_opt_add_opt (pr_mem s) options opt in ((res, options), s\<lparr>pr_mem := m\<rparr>))"

text \<open>The call of \<open>mount\<close>, and the one without the subtype if the first finds no such type: the last answer, the source and the type.\<close>

definition mount_calls :: "proc_env \<Rightarrow> cstring \<Rightarrow> mount_field optdata \<Rightarrow> cstring option \<Rightarrow> (answer \<times> cstring \<times> cstring) io" where
  "mount_calls E mnt mo kernel_opts = do {
     let base = (if mo_int mo Blkdev \<noteq> 0 then ''fuseblk'' else ''fuse'');
     let type = (case mo_str mo Subtype of Some t \<Rightarrow> base @ ''.'' @ t | None \<Rightarrow> base);
     let source = (case mo_str mo Fsname of Some f \<Rightarrow> f | None \<Rightarrow> (case mo_str mo Subtype of Some t \<Rightarrow> t | None \<Rightarrow> FUSE_DEVICE));
     r \<leftarrow> sys E (Mount source mnt type (mo_flag_word mo) kernel_opts);
     case mo_str mo Subtype of
       Some t \<Rightarrow>
         if ret r = - 1 \<and> errnum r = ENODEV then do {
           let source = (case mo_str mo Fsname of Some f \<Rightarrow> if mo_int mo Blkdev = 0 then t @ ''#'' @ f else source | None \<Rightarrow> base);
           r \<leftarrow> sys E (Mount source mnt base (mo_flag_word mo) kernel_opts);
           result (r, source, base)
         } else result (r, source, type)
     | None \<Rightarrow> result (r, source, type)
   }"

text \<open>What follows a mount: root enters it into the table of mounts, and takes it back when that fails.\<close>

definition note_mount :: "proc_env \<Rightarrow> cstring \<Rightarrow> int \<Rightarrow> cstring \<Rightarrow> cstring \<Rightarrow> cstring \<Rightarrow> int io" where
  "note_mount E mnt fd source type mopts =
     (let undo = do { _ \<leftarrow> sys E (Umount2 mnt 2); _ \<leftarrow> sys E (Close fd); result (- 1) }
      in if geteuid E = 0 then do {
           newmnt \<leftarrow> fuse_mnt_resolve_path E mnt;
           case newmnt of
             None \<Rightarrow> undo
           | Some newmnt \<Rightarrow> do {
               res \<leftarrow> fuse_mnt_add_mount E source newmnt type mopts;
               if res = - 1 then undo else result fd
             }
         } else result fd)"

text \<open>The mount with the device open: the result is \<open>out_close\<close>'s on every error.\<close>

definition mount_device :: "proc_env \<Rightarrow> cstring \<Rightarrow> mount_field optdata \<Rightarrow> cstring option \<Rightarrow> cstring \<Rightarrow> int \<Rightarrow> int io" where
  "mount_device E mnt mo kernel_opts mopts fd = do {
     (r, source, type) \<leftarrow> mount_calls E mnt mo kernel_opts;
     if ret r = - 1 then
       if errnum r = EPERM then do { _ \<leftarrow> sys E (Close fd); result (- 2) }
       else do {
         _ \<leftarrow> (if mo_int mo Blkdev \<noteq> 0 \<and> errnum r = ENODEV then fuse_mnt_check_fuseblk E else result True);
         _ \<leftarrow> sys E (Close fd);
         result (- 1)
       }
     else note_mount E mnt fd source type mopts
   }"

text \<open>The options for the kernel and the memory for the names of the source and the type; when there is none the result
  is that of the call before, 0.\<close>

definition prepare_mount :: "proc_env \<Rightarrow> cstring \<Rightarrow> mount_field optdata \<Rightarrow> cstring \<Rightarrow> u32 \<Rightarrow> int \<Rightarrow> int io" where
  "prepare_mount E mnt mo mopts mode fd = do {
     (res, kernel_opts) \<leftarrow> io_add_opt (mo_str mo Kernel_opts) (fd_options E fd (S_IFMT mode) True);
     if res = - 1 then do { _ \<leftarrow> sys E (Close fd); result (- 1) }
     else do {
       ok1 \<leftarrow> malloc; ok2 \<leftarrow> malloc;
       if \<not> ok1 \<or> \<not> ok2 then do { _ \<leftarrow> sys E (Close fd); result res }
       else mount_device E mnt mo kernel_opts mopts fd
     }
   }"

text \<open>\<open>fuse_mount_sys\<close>: the descriptor, -1 for an error, -2 when the kernel does not allow it.\<close>

definition fuse_mount_sys :: "proc_env \<Rightarrow> cstring option \<Rightarrow> mount_field optdata \<Rightarrow> cstring \<Rightarrow> int io" where
  "fuse_mount_sys E mountpoint mo mopts =
     (case mountpoint of
        None \<Rightarrow> result (- 1)
      | Some mnt \<Rightarrow> do {
          st \<leftarrow> sys E (Stat mnt);
          if ret st = - 1 then result (- 1)
          else do {
            empty \<leftarrow> (if mo_int mo Nonempty = 0 then fuse_mnt_check_empty E mnt (st_mode (stat_of st)) (st_size (stat_of st)) else result 0);
            if empty = - 1 then result (- 1)
            else do {
              d \<leftarrow> sys E (Open FUSE_DEVICE O_RDWR);
              if ret d = - 1 then result (- 1) else prepare_mount E mnt mo mopts (st_mode (stat_of st)) (ret d)
            }
          }
        })"

text \<open>The options of the flags; \<open>None\<close> is -1.\<close>

primrec flag_opts :: "u32 \<Rightarrow> (cstring \<times> u32 \<times> bool) list \<Rightarrow> cstring option \<Rightarrow> (int \<times> cstring option) io" where
  "flag_opts flags [] s = result (0, s)"
| "flag_opts flags (f # fs) s =
     (case f of (opt, flag, on) \<Rightarrow>
        if on \<and> flags AND flag \<noteq> 0 then do {
          (res, s) \<leftarrow> io_add_opt s opt;
          if res = - 1 then result (- 1, s) else flag_opts flags fs s
        } else flag_opts flags fs s)"

definition get_mnt_flag_opts :: "u32 \<Rightarrow> (int \<times> cstring option) io" where
  "get_mnt_flag_opts flags = do {
     (res, s) \<leftarrow> (if flags AND MS_RDONLY = 0 then io_add_opt None ''rw'' else result (0, None));
     if res = - 1 then result (- 1, s) else flag_opts flags lib_mount_flags s
   }"

text \<open>One string added to another if it is there.\<close>

definition io_add_some :: "cstring option \<Rightarrow> cstring option \<Rightarrow> (int \<times> cstring option) io" where
  "io_add_some options opt = (case opt of None \<Rightarrow> result (0, options) | Some opt \<Rightarrow> io_add_opt options opt)"

definition io_opt_parse ::
  "fuse_args option \<Rightarrow> mount_field optdata \<Rightarrow> (int \<times> fuse_args option \<times> mount_field optdata) option io" where
  "io_opt_parse args mo = State (\<lambda>s.
     case fuse_opt_parse (pr_mem s) args mo fuse_mount_opts (Some fuse_mount_opt_proc) of
       None \<Rightarrow> (None, s)
     | Some (res, args, mo, m) \<Rightarrow> (Some (res, args, mo), s\<lparr>pr_mem := m\<rparr>))"

text \<open>The mount by \<open>fusermount\<close>, first with the subtype, which an old one does not know.\<close>

definition mount_by_fusermount :: "proc_env \<Rightarrow> cstring option \<Rightarrow> mount_field optdata \<Rightarrow> cstring option \<Rightarrow> int option io" where
  "mount_by_fusermount E mountpoint mo mopts = do {
     (res, mopts) \<leftarrow> io_add_some mopts (mo_str mo Fusermount_opts);
     if res = - 1 then result (Some (- 2))
     else if mo_str mo Subtype \<noteq> None then do {
       (res1, tmp) \<leftarrow> io_add_some None mopts;
       (res2, tmp) \<leftarrow> (if res1 = - 1 then result (- 1, tmp) else io_add_some tmp (mo_str mo Subtype_opt));
       if res1 = - 1 \<or> res2 = - 1 then result (Some (- 1))
       else do {
         rv \<leftarrow> fuse_mount_fusermount E mountpoint tmp True;
         case rv of
           None \<Rightarrow> result None
         | Some rv \<Rightarrow> if rv = - 1 then fuse_mount_fusermount E mountpoint mopts False else result (Some rv)
       }
     }
     else fuse_mount_fusermount E mountpoint mopts False
   }"

definition fuse_kern_mount :: "proc_env \<Rightarrow> cstring option \<Rightarrow> fuse_args option \<Rightarrow> (int \<times> fuse_args option) option io" where
  "fuse_kern_mount E mountpoint args = do {
     p \<leftarrow> io_opt_parse args ((\<lambda>_. None)(Flags \<mapsto> VInt (uint (MS_NOSUID OR MS_NODEV))));
     case p of
       None \<Rightarrow> result None
     | Some (res, args, mo) \<Rightarrow>
         if res = - 1 then result (Some (- 1, args))
         else if mo_int mo Allow_other \<noteq> 0 \<and> mo_int mo Allow_root \<noteq> 0 then result (Some (- 1, args))
         else if mo_int mo Ishelp \<noteq> 0 then result (Some (0, args))
         else do {
           (r1, mopts) \<leftarrow> get_mnt_flag_opts (mo_flag_word mo);
           if r1 = - 1 then result (Some (- 1, args))
           else do {
             (r2, mopts) \<leftarrow> io_add_some mopts (mo_str mo Kernel_opts);
             if r2 = - 1 then result (Some (- 1, args))
             else do {
               (r3, mopts) \<leftarrow> io_add_some mopts (mo_str mo Mtab_opts);
               if r3 = - 1 then result (Some (- 1, args))
               else do {
                 res \<leftarrow> fuse_mount_sys E mountpoint mo (case mopts of Some s \<Rightarrow> s | None \<Rightarrow> []);
                 if res = - 2 then do {
                   rv \<leftarrow> mount_by_fusermount E mountpoint mo mopts;
                   result (map_option (\<lambda>res. (res, args)) rv)
                 }
                 else result (Some (res, args))
               }
             }
           }
         }
   }"

end
