(* ===== verification/Fuse_Mount_Proofs.thy ===== *)
theory Fuse_Mount_Proofs
  imports Fuse_Mount Fusermount_Proofs
begin

text \<open>
  What the mount of the library leaves behind, whatever the system answers, and what of the options reaches \<open>fusermount\<close>.
\<close>

subsection \<open>What is left behind\<close>

text \<open>Whether a file system is mounted at a place by these calls, and the descriptors of the device that are open. An unmount takes a mount back only if it
  succeeds; a descriptor is closed whatever \<open>close\<close> answers. What \<open>fusermount\<close> mounts, in another process, is not counted.\<close>

definition left_step :: "cstring \<Rightarrow> syscall \<Rightarrow> int \<Rightarrow> bool \<times> int list \<Rightarrow> bool \<times> int list" where
  "left_step mnt c r st =
     (case c of
        Mount _ target _ _ _ \<Rightarrow> (fst st \<or> target = mnt \<and> r \<noteq> - 1, snd st)
      | Umount2 target _ \<Rightarrow> (fst st \<and> (target \<noteq> mnt \<or> r = - 1), snd st)
      | Open p _ \<Rightarrow> (fst st, if p = FUSE_DEVICE \<and> r \<noteq> - 1 then snd st @ [r] else snd st)
      | Close fd \<Rightarrow> (fst st, filter (\<lambda>x. x \<noteq> fd) (snd st))
      | _ \<Rightarrow> st)"

definition left_behind :: "proc_env \<Rightarrow> cstring \<Rightarrow> syscall list \<Rightarrow> bool \<times> int list" where
  "left_behind E mnt tr =
     foldl (\<lambda>st i. left_step mnt (tr ! i) (ret (os E (take i tr) (tr ! i))) st) (False, []) [0..<length tr]"

lemma left_behind_snoc [simp]: "left_behind E mnt (tr @ [c]) = left_step mnt c (ret (os E tr c)) (left_behind E mnt tr)"
proof -
  have "foldl (\<lambda>st i. left_step mnt ((tr @ [c]) ! i) (ret (os E (take i (tr @ [c])) ((tr @ [c]) ! i))) st) (False, []) [0..<length tr] = left_behind E mnt tr"
    unfolding left_behind_def by (rule foldl_cong) (auto simp: nth_append)
  then show ?thesis by (simp add: left_behind_def)
qed

abbreviation lb :: "proc_env \<Rightarrow> cstring \<Rightarrow> bool \<times> int list \<Rightarrow> proc \<Rightarrow> bool" where
  "lb E mnt x s \<equiv> left_behind E mnt (trace s) = x"

lemma lb_sys: "holds (lb E mnt x) (sys E c) (\<lambda>a. lb E mnt (left_step mnt c (ret a) x))"
  by (rule holds_sys) simp

lemma lb_malloc: "keeps_to (lb E mnt x) malloc"
  by (rule holds_malloc) simp

lemma lb_result: "keeps_to (lb E mnt x) (result a)"
  by (rule holds_result)

lemma lb_add_opt: "keeps_to (lb E mnt x) (io_add_opt s opt)"
  by (auto simp: holds_def io_add_opt_def split: prod.splits)

lemma lb_parse: "keeps_to (lb E mnt x) (io_opt_parse args mo)"
  by (auto simp: holds_def io_opt_parse_def split: option.splits prod.splits)

lemma quiet_sys:
  "(\<And>r. left_step mnt c r x = x) \<Longrightarrow> keeps_to (lb E mnt x) (sys E c)"
  using lb_sys [of E mnt x c] by simp

lemmas lb_rules = keeps_to_bind holds_if holds_option holds_prod quiet_sys lb_malloc lb_result lb_add_opt

lemma lb_child: "keeps_to (lb E mnt x) child \<Longrightarrow> keeps_to (lb E mnt x) (run_child E child)"
  unfolding run_child_def by (intro lb_rules) (simp_all add: left_step_def)

lemma lb_mtab: "keeps_to (lb E mnt x) (mtab_needs_update E m)"
  unfolding mtab_needs_update_def by (intro lb_rules) (simp_all add: left_step_def)

lemma lb_utils:
  "keeps_to (lb E mnt x) (fuse_mnt_check_empty E m mode n)"
  "keeps_to (lb E mnt x) (fuse_mnt_check_fuseblk E)"
  "keeps_to (lb E mnt x) (fuse_mnt_resolve_path E m)"
  "keeps_to (lb E mnt x) (fuse_mnt_add_mount E source m type options)"
  unfolding fuse_mnt_check_empty_def fuse_mnt_check_fuseblk_def fuse_mnt_resolve_path_def fuse_mnt_add_mount_def add_mount_def add_mount_legacy_def Let_def
  by (intro lb_rules lb_child lb_mtab; simp add: left_step_def)+

lemma lb_mount_calls:
  "holds (lb E mnt (False, fds)) (mount_calls E mnt mo kopts) (\<lambda>(r, _). lb E mnt (ret r \<noteq> - 1, fds))"
  unfolding mount_calls_def Let_def
  by (intro holds_bind [OF lb_sys] holds_option holds_if holds_result) (auto simp: left_step_def)

text \<open>The system has refused to take the mount back.\<close>

definition refused_unmount :: "proc_env \<Rightarrow> cstring \<Rightarrow> syscall list \<Rightarrow> bool" where
  "refused_unmount E mnt tr \<longleftrightarrow> (\<exists>a b. tr = a @ Umount2 mnt 2 # b \<and> ret (os E a (Umount2 mnt 2)) = - 1)"

lemma refused_snoc: "refused_unmount E mnt tr \<Longrightarrow> refused_unmount E mnt (tr @ [c])"
  by (auto simp: refused_unmount_def) (metis append.assoc append_Cons)

text \<open>Nothing is left, or only the mount that the system does not take back.\<close>

definition undone :: "proc_env \<Rightarrow> cstring \<Rightarrow> int list \<Rightarrow> proc \<Rightarrow> bool" where
  "undone E mnt fds s \<longleftrightarrow> lb E mnt (False, fds) s \<or> lb E mnt (True, fds) s \<and> refused_unmount E mnt (trace s)"

lemma lb_umount: "holds (lb E mnt (True, fds)) (sys E (Umount2 mnt 2)) (\<lambda>_. undone E mnt fds)"
  by (rule holds_sys) (auto simp: undone_def left_step_def refused_unmount_def)

lemma undone_close: "holds (undone E mnt [fd]) (sys E (Close fd)) (\<lambda>_. undone E mnt [])"
  by (rule holds_sys) (auto simp: undone_def left_step_def refused_snoc)

lemma lb_note_mount:
  "holds (lb E mnt (True, [fd])) (note_mount E mnt fd source type mopts)
     (\<lambda>res s. res = - 1 \<and> undone E mnt [] s \<or> res = fd \<and> lb E mnt (True, [fd]) s)"
proof -
  have u: "holds (lb E mnt (True, [fd])) (do { _ \<leftarrow> sys E (Umount2 mnt 2); _ \<leftarrow> sys E (Close fd); result (- 1) })
      (\<lambda>res s. res = - 1 \<and> undone E mnt [] s \<or> res = fd \<and> lb E mnt (True, [fd]) s)"
    by (intro holds_bind [OF lb_umount] holds_bind [OF undone_close] holds_result) simp
  show ?thesis unfolding note_mount_def Let_def
    by (intro holds_if holds_bind [OF lb_utils(3)] holds_option holds_bind [OF lb_utils(4)] u holds_result) auto
qed

text \<open>Either nothing is left (but a mount the system does not take back), or the file system is mounted and exactly the descriptor that is returned is open.\<close>

definition all_or_nothing :: "proc_env \<Rightarrow> cstring \<Rightarrow> int \<Rightarrow> proc \<Rightarrow> bool" where
  "all_or_nothing E mnt res s \<longleftrightarrow>
     (if res = - 1 then undone E mnt [] s else if res = - 2 then lb E mnt (False, []) s else lb E mnt (True, [res]) s \<and> 0 \<le> res \<or> res = 0 \<and> lb E mnt (False, []) s)"

lemma lb_add_opt_res: "holds (lb E mnt x) (io_add_opt s opt) (\<lambda>(res, _) s. lb E mnt x s \<and> (res = - 1 \<or> res = 0))"
  by (auto simp: holds_def io_add_opt_def fuse_opt_add_opt_def add_opt_common_def Let_def split: prod.splits if_splits)

lemma lb_close:
  "res = - 1 \<or> res = - 2 \<or> res = 0 \<Longrightarrow> holds (lb E mnt (False, [fd])) (do { _ \<leftarrow> sys E (Close fd); result res }) (all_or_nothing E mnt)"
  by (intro holds_bind [OF lb_sys] holds_result) (auto simp: left_step_def all_or_nothing_def undone_def)

lemma lb_mount_device:
  assumes "0 \<le> fd"
  shows "holds (lb E mnt (False, [fd])) (mount_device E mnt mo kopts mopts fd) (all_or_nothing E mnt)"
  unfolding mount_device_def
proof (intro holds_bind [OF lb_mount_calls] holds_prod holds_if, goal_cases)
  case (1 a r b source type)
  then show ?case using lb_close [of "- 2" E mnt fd] by simp
next
  case (2 a r b source type)
  have "keeps_to (lb E mnt (False, [fd])) (if mo_int mo Blkdev \<noteq> 0 \<and> errnum r = ENODEV then fuse_mnt_check_fuseblk E else result True)"
    by (intro lb_rules lb_utils)
  then show ?case using 2 lb_close [of "- 1" E mnt fd] by (auto intro: holds_bind)
next
  case (3 a r b source type)
  have "holds (lb E mnt (True, [fd])) (note_mount E mnt fd source type mopts) (all_or_nothing E mnt)"
    using lb_note_mount by (rule holds_conseq) (use assms in \<open>auto simp: all_or_nothing_def\<close>)
  then show ?case using 3 by simp
qed

lemma lb_prepare_mount:
  assumes "0 \<le> fd"
  shows "holds (lb E mnt (False, [fd])) (prepare_mount E mnt mo mopts mode fd) (all_or_nothing E mnt)"
  unfolding prepare_mount_def
proof (intro holds_bind [OF lb_add_opt_res] holds_prod holds_if, goal_cases)
  case 1
  show ?case using lb_close [of "- 1" E mnt fd] by (rule holds_conseq) auto
next
  case (2 x res kopts)
  show ?case
    by (rule holds_pre [where b = "res = 0"], use 2 in simp,
        rule holds_conseq [where P = "lb E mnt (False, [fd])" and Q = "all_or_nothing E mnt"],
        intro holds_bind [OF lb_malloc] holds_if lb_close lb_mount_device assms) (use 2 in auto)
qed

lemma lb_mount_sys:
  assumes "\<And>tr. - 1 \<le> ret (os E tr (Open FUSE_DEVICE O_RDWR))"
  shows "holds (lb E mnt (False, [])) (fuse_mount_sys E (Some mnt) mo mopts) (all_or_nothing E mnt)"
proof -
  have open_dev: "holds (lb E mnt (False, [])) (sys E (Open FUSE_DEVICE O_RDWR))
      (\<lambda>d s. - 1 \<le> ret d \<and> lb E mnt (False, if ret d = - 1 then [] else [ret d]) s)"
    by (rule holds_sys) (simp add: assms left_step_def)
  have fail: "holds (lb E mnt (False, [])) (result (- 1)) (all_or_nothing E mnt)"
    by (rule holds_result) (simp add: all_or_nothing_def undone_def)
  have opened: "holds (lb E mnt (False, [])) (do {
      d \<leftarrow> sys E (Open FUSE_DEVICE O_RDWR);
      if ret d = - 1 then result (- 1) else prepare_mount E mnt mo mopts mode (ret d) }) (all_or_nothing E mnt)" for mode
  proof (intro holds_bind [OF open_dev] holds_if, goal_cases)
    case (1 d)
    then show ?case using fail by (auto intro: holds_conseq)
  next
    case (2 d)
    show ?case
      by (rule holds_pre [where b = "0 \<le> ret d"], use 2 in simp,
          rule holds_conseq [OF lb_prepare_mount [of "ret d"]]) (use 2 in auto)
  qed
  show ?thesis unfolding fuse_mount_sys_def option.case
    by (intro holds_bind [where Q = "\<lambda>_. lb E mnt (False, [])"] holds_if opened fail lb_rules lb_utils) (auto simp: left_step_def)
qed

subsection \<open>The descriptor that fusermount sends\<close>

definition received :: "proc_env \<Rightarrow> int \<Rightarrow> syscall list \<Rightarrow> bool" where
  "received E v tr \<longleftrightarrow> (\<exists>a fd b t. tr = a @ Recvmsg fd # b \<and> pair_of (os E a (Recvmsg fd)) = Some (t, v))"

lemma received_snoc: "received E v tr \<Longrightarrow> received E v (tr @ [c])"
  by (auto simp: received_def) (metis append.assoc append_Cons)

abbreviation lbr :: "proc_env \<Rightarrow> cstring \<Rightarrow> int \<Rightarrow> proc \<Rightarrow> bool" where
  "lbr E mnt v s \<equiv> lb E mnt (False, []) s \<and> (v < 0 \<or> received E v (trace s))"

lemma lbr_sys: "(\<And>r. left_step mnt c r (False, []) = (False, [])) \<Longrightarrow> keeps_to (lbr E mnt v) (sys E c)"
  by (rule holds_sys) (auto intro: received_snoc)

lemma lbr_result: "v < 0 \<Longrightarrow> holds (lb E mnt (False, [])) (result (Some v)) (\<lambda>rv s. \<forall>v. rv = Some v \<longrightarrow> lbr E mnt v s)"
  by (rule holds_result) simp

lemma lb_exec: "keeps_to (lb E mnt (False, [])) (exec_fusermount E xs)" "keeps_to (lb E mnt (False, [])) (fusermount_child E m options quiet fd0 fd1)"
  unfolding exec_fusermount_def fusermount_child_def by (intro lb_rules; simp add: left_step_def)+

lemma lbr_receive: "holds (lb E mnt (False, [])) (receive_fd E fd) (\<lambda>rv s. \<forall>v. rv = Some v \<longrightarrow> lbr E mnt v s)"
  unfolding receive_fd_def
  by (rule holds_bind [OF holds_sys [where Q = "\<lambda>r s. lb E mnt (False, []) s \<and> (\<forall>t v. pair_of r = Some (t, v) \<longrightarrow> received E v (trace s))"]],
      auto simp: left_step_def received_def holds_def)

lemma lbr_fusermount:
  "holds (lb E mnt (False, [])) (fuse_mount_fusermount E mountpoint options quiet) (\<lambda>rv s. \<forall>v. rv = Some v \<longrightarrow> lbr E mnt v s)"
proof -
  have received: "holds (\<lambda>s. \<forall>v. rv = Some v \<longrightarrow> lbr E mnt v s)
      (case rv of None \<Rightarrow> result None | Some rv \<Rightarrow> do { _ \<leftarrow> sys E (Close fd1); _ \<leftarrow> sys E Waitpid; result (Some rv) })
      (\<lambda>rv s. \<forall>v. rv = Some v \<longrightarrow> lbr E mnt v s)" for rv fd1
  proof (cases rv)
    case (Some v)
    have "holds (lbr E mnt v) (do { _ \<leftarrow> sys E (Close fd1); _ \<leftarrow> sys E Waitpid; result (Some v) }) (\<lambda>rv s. \<forall>v. rv = Some v \<longrightarrow> lbr E mnt v s)"
      by (intro holds_bind [OF lbr_sys] holds_result) (auto simp: left_step_def)
    then show ?thesis using Some by simp
  qed (simp add: holds_def)
  have quiet: "keeps_to (lb E mnt (False, [])) (sys E Socketpair)" "keeps_to (lb E mnt (False, [])) (sys E Fork)"
    "keeps_to (lb E mnt (False, [])) (sys E (Close fd))" for fd
    by (rule quiet_sys, simp add: left_step_def)+
  show ?thesis unfolding fuse_mount_fusermount_def Let_def
    by (intro holds_option holds_if holds_prod lbr_result holds_bind [OF quiet(1)] holds_bind [OF quiet(2)] holds_bind [OF lb_exec(2)]
        holds_bind [OF quiet(3)] holds_bind [OF lbr_receive] received) simp_all
qed

lemma lb_add_some: "keeps_to (lb E mnt x) (io_add_some s opt)"
  unfolding io_add_some_def by (intro lb_rules)

lemma lbr_by_fusermount:
  "holds (lb E mnt (False, [])) (mount_by_fusermount E mountpoint mo mopts) (\<lambda>rv s. \<forall>v. rv = Some v \<longrightarrow> lbr E mnt v s)"
proof -
  have again: "holds (\<lambda>s. \<forall>v. rv = Some v \<longrightarrow> lbr E mnt v s)
      (case rv of None \<Rightarrow> result None | Some rv \<Rightarrow> if rv = - 1 then fuse_mount_fusermount E mountpoint mopts False else result (Some rv))
      (\<lambda>rv s. \<forall>v. rv = Some v \<longrightarrow> lbr E mnt v s)" for rv mopts
    using lbr_fusermount [of E mnt mountpoint mopts False]
    by (cases rv) (auto simp: holds_def intro: holds_conseq)
  have tmp: "keeps_to (lb E mnt (False, [])) (if res1 = - 1 then result (- 1, tmp) else io_add_some tmp opt)" for res1 :: int and tmp opt
    by (intro lb_rules lb_add_some)
  show ?thesis unfolding mount_by_fusermount_def
    by (intro holds_bind [OF lb_add_some] holds_bind [OF tmp] holds_prod holds_if lbr_result holds_bind [OF lbr_fusermount] again lbr_fusermount) simp_all
qed

lemma lb_flag_opts: "keeps_to (lb E mnt x) (flag_opts flags fs s)"
  by (induction fs arbitrary: s) (auto intro!: lb_rules)

lemma lb_mnt_flag_opts: "keeps_to (lb E mnt x) (get_mnt_flag_opts flags)"
  unfolding get_mnt_flag_opts_def by (intro lb_rules lb_flag_opts)

text \<open>What is known when \<open>fuse_kern_mount\<close> returns.\<close>

definition kern_mount_post :: "proc_env \<Rightarrow> cstring \<Rightarrow> (int \<times> fuse_args option) option \<Rightarrow> proc \<Rightarrow> bool" where
  "kern_mount_post E mnt rv s \<longleftrightarrow> (\<forall>res args. rv = Some (res, args) \<longrightarrow>
     lb E mnt (True, [res]) s \<and> 0 \<le> res \<or> lb E mnt (False, []) s \<and> (res \<le> 0 \<or> received E res (trace s)) \<or>
     lb E mnt (True, []) s \<and> res = - 1 \<and> refused_unmount E mnt (trace s))"

lemma kern_mount_holds:
  assumes "\<And>tr. - 1 \<le> ret (os E tr (Open FUSE_DEVICE O_RDWR))"
  shows "holds (lb E mnt (False, [])) (fuse_kern_mount E (Some mnt) args) (kern_mount_post E mnt)"
proof -
  have early: "holds (lb E mnt (False, [])) (result rv) (kern_mount_post E mnt)" if "\<And>res args. rv = Some (res, args) \<Longrightarrow> res \<le> 0" for rv
    by (rule holds_result) (use that in \<open>auto simp: kern_mount_post_def\<close>)
  have mount_end: "holds (all_or_nothing E mnt res) (if res = - 2 then do {
        rv \<leftarrow> mount_by_fusermount E (Some mnt) mo mopts; result (map_option (\<lambda>res. (res, args)) rv) }
      else result (Some (res, args))) (kern_mount_post E mnt)" for res mo mopts args
  proof (intro holds_if, goal_cases)
    case 1
    have "holds (lb E mnt (False, [])) (do { rv \<leftarrow> mount_by_fusermount E (Some mnt) mo mopts; result (map_option (\<lambda>res. (res, args)) rv) }) (kern_mount_post E mnt)"
      by (intro holds_bind [OF lbr_by_fusermount] holds_result) (auto simp: kern_mount_post_def)
    then show ?case by (rule holds_conseq) (use 1 in \<open>auto simp: all_or_nothing_def\<close>)
  next
    case 2
    then show ?case by (intro holds_result) (auto simp: all_or_nothing_def kern_mount_post_def undone_def split: if_splits)
  qed
  show ?thesis unfolding fuse_kern_mount_def
    by (intro holds_bind [OF lb_parse] holds_option holds_prod holds_if holds_bind [OF lb_mnt_flag_opts] holds_bind [OF lb_add_some]
        holds_bind [OF lb_mount_sys [OF assms]] mount_end early) auto
qed

text \<open>C12: what a mount of the library leaves behind by its own calls, whatever the system answers: either the file system is mounted and the descriptor of the device that is returned
  is the only one that is open; or there is no mount and no open descriptor of the device, and the result is an error, 0, or a descriptor received from \<open>fusermount\<close>; or the result is -1, no descriptor of the device is open and
  the mount is still there because the system has refused to take it back. What \<open>fusermount\<close>, another process, mounts is not counted.\<close>

theorem kern_mount_all_or_nothing:
  assumes "\<forall>tr. - 1 \<le> ret (os E tr (Open ''/dev/fuse'' O_RDWR))" "left_behind E mnt (trace s) = (False, [])"
    "run_state (fuse_kern_mount E (Some mnt) args) s = (Some (res, args'), s')"
  shows "left_behind E mnt (trace s') = (True, [res]) \<and> 0 \<le> res \<or>
    left_behind E mnt (trace s') = (False, []) \<and> (res \<le> 0 \<or> received E res (trace s')) \<or>
    left_behind E mnt (trace s') = (True, []) \<and> res = - 1 \<and>
      (\<exists>a b. trace s' = a @ Umount2 mnt 2 # b \<and> ret (os E a (Umount2 mnt 2)) = - 1)"
  using kern_mount_holds [of E mnt args] assms by (auto simp: holds_def kern_mount_post_def refused_unmount_def)

definition demo_mount_env :: proc_env where
  "demo_mount_env = \<lparr>getuid = 1000, getgid = 1000, geteuid = 1000, commfd = None,
     os = (\<lambda>tr c. \<lparr>ret = (case c of Open _ _ \<Rightarrow> 3 | _ \<Rightarrow> 0), errnum = 0, text_of = [], names_of = [''.'', ''..''], ents_of = [],
       stat_of = stat0\<lparr>st_mode := 0x41ED\<rparr>, status_of = 0, pair_of = None\<rparr>)\<rparr>"

definition demo_proc :: "allocs \<Rightarrow> proc" where
  "demo_proc m = \<lparr>trace = [], pr_mem = m, user_allow_other = False, mount_max = 1000, oldfsuid = 0, oldfsgid = 0\<rparr>"

lemma demo_mount_os:
  "os demo_mount_env tr c = \<lparr>ret = (case c of Open _ _ \<Rightarrow> 3 | _ \<Rightarrow> 0), errnum = 0, text_of = [], names_of = [''.'', ''..''], ents_of = [],
     stat_of = stat0\<lparr>st_mode := 0x41ED\<rparr>, status_of = 0, pair_of = None\<rparr>" "geteuid demo_mount_env = 1000"
  by (simp_all add: demo_mount_env_def)

lemmas kern_mount_run = fuse_kern_mount_def io_opt_parse_def fuse_opt_parse_def get_mnt_flag_opts_def io_add_some_def io_add_opt_def
  fuse_opt_add_opt_def add_opt_common_def lib_mount_flags_def mo_int_def mo_str_def mo_flag_word_def fuse_mount_sys_def prepare_mount_def
  mount_device_def mount_calls_def note_mount_def fuse_mnt_check_empty_def sys_def malloc_def S_ISDIR_def S_IFMT_def
  MS_RDONLY_def MS_NOSUID_def MS_NODEV_def MS_NOEXEC_def MS_SYNCHRONOUS_def MS_DIRSYNC_def MS_NOATIME_def alloc_def

lemma demo_mount_run:
  "\<exists>s'. run_state (fuse_kern_mount demo_mount_env (Some ''/mnt'') None) (demo_proc []) = (Some (3, None), s')"
  by (simp add: kern_mount_run demo_proc_def demo_mount_os Let_def)

theorem kern_mount_all_or_nothing_witness:
  "\<exists>s'. run_state (fuse_kern_mount demo_mount_env (Some ''/mnt'') None) (demo_proc []) = (Some (3, None), s') \<and>
     left_behind demo_mount_env ''/mnt'' (trace s') = (True, [3])"
proof -
  obtain s' where r: "run_state (fuse_kern_mount demo_mount_env (Some ''/mnt'') None) (demo_proc []) = (Some (3, None), s')"
    using demo_mount_run by blast
  have "\<forall>tr. - 1 \<le> ret (os demo_mount_env tr (Open ''/dev/fuse'' O_RDWR))" "left_behind demo_mount_env ''/mnt'' (trace (demo_proc [])) = (False, [])"
    by (simp_all add: demo_mount_os left_behind_def demo_proc_def)
  from kern_mount_all_or_nothing [OF this r] r show ?thesis by (auto simp: received_def demo_mount_os)
qed

text \<open>When the memory for the name of the source cannot be had, 0 is returned, as if the file system were mounted with the descriptor 0.\<close>

lemma no_memory_is_success:
  "\<exists>s'. run_state (fuse_kern_mount demo_mount_env (Some ''/mnt'') None) (demo_proc [True, True, True, True, False]) = (Some (0, None), s') \<and>
     left_behind demo_mount_env ''/mnt'' (trace s') = (False, [])"
  by (simp add: kern_mount_run demo_proc_def demo_mount_os Let_def left_behind_def left_step_def)

subsection \<open>The name of the file system on its way through fusermount\<close>

lemma opt_len_plain: "BACKSLASH_C \<notin> set b \<Longrightarrow> opt_len (b @ CHR '','' # y) = opt_len b"
  by (induction b) auto

lemma opt_len_le: "opt_len s \<le> length s"
  by (induction s rule: opt_len.induct) (auto split: list.splits)

lemma opt_len_escape: "opt_len (escape True f) = length (escape True f)"
  by (induction f) auto

lemma escape_off: "escape False s = s"
  by (induction s) auto

lemma unescape_escape: "unescape (escape True f) = f"
  by (induction f) auto

lemma begins_with_comma: "CHR '','' \<notin> set p \<Longrightarrow> begins_with (b @ CHR '','' # y) p = begins_with b p"
proof (induction p arbitrary: b)
  case (Cons c p)
  then show ?case by (cases b) (auto simp: begins_with_def)
qed (simp add: begins_with_def)

lemma mount_option_comma:
  "BACKSLASH_C \<notin> set b \<Longrightarrow> mount_option E (b @ CHR '','' # y) m = mount_option E b m"
  using opt_len_le [of b] by (simp add: mount_option_def begins_with_comma opt_len_plain cong: if_cong)

lemma next_option_comma:
  assumes "BACKSLASH_C \<notin> set b"
  shows "next_option (b @ CHR '','' # y) = (if opt_len b = length b then y else next_option b @ CHR '','' # y)"
  using opt_len_le [of b] assms by (auto simp: next_option_def opt_len_plain Suc_le_eq)

lemma option_bind: "(case r of None \<Rightarrow> result None | Some m \<Rightarrow> f m) \<bind> k = (case r of None \<Rightarrow> k None | Some m \<Rightarrow> f m \<bind> k)"
  by (cases r) simp_all

lemma opt_len_comma: "opt_len b < length b \<Longrightarrow> BACKSLASH_C \<notin> set b \<Longrightarrow> b ! opt_len b = CHR '',''"
  by (induction b) auto

lemma next_option_last:
  assumes "opt_len b < length b" "BACKSLASH_C \<notin> set b" "last b \<noteq> CHR '',''"
  shows "next_option b \<noteq> [] \<and> last (next_option b) = last b"
proof -
  have "opt_len b \<noteq> length b - 1" using opt_len_comma [OF assms(1,2)] assms(1,3) by (cases b rule: rev_cases) auto
  then have "Suc (opt_len b) < length b" using assms(1) by simp
  then show ?thesis by (simp add: next_option_def)
qed

text \<open>The options of a list that ends with no comma and has no backslash are processed before the ones behind it.\<close>

lemma mount_options_append:
  assumes "b \<noteq> []" "last b \<noteq> CHR '',''" "BACKSLASH_C \<notin> set b"
  shows "mount_options E (b @ CHR '','' # y) m =
    do { r \<leftarrow> mount_options E b m; case r of None \<Rightarrow> result None | Some m \<Rightarrow> mount_options E y m }"
  using assms
proof (induction E b m rule: mount_options.induct)
  case (1 E b m)
  have unfolded: "mount_options E (b @ CHR '','' # y) m =
      do { r \<leftarrow> mount_option E b m; case r of None \<Rightarrow> result None | Some m \<Rightarrow> mount_options E (next_option (b @ CHR '','' # y)) m }"
    "mount_options E b m = do { r \<leftarrow> mount_option E b m; case r of None \<Rightarrow> result None | Some m \<Rightarrow> mount_options E (next_option b) m }"
    using 1(2,4) by (simp_all add: mount_options.simps [of E b] mount_options.simps [of E "b @ CHR '','' # y"] mount_option_comma)
  show ?case
  proof (cases "opt_len b = length b")
    case True
    then have "next_option b = []" by (simp add: next_option_def)
    then show ?thesis using True 1(4) by (simp add: unfolded next_option_comma option_bind mount_options.simps [of E "[]"] cong: option.case_cong)
  next
    case False
    then have l: "opt_len b < length b" using opt_len_le [of b] by simp
    have s: "BACKSLASH_C \<notin> set (next_option b)" using 1(4) by (auto simp: next_option_def dest: in_set_dropD)
    have "mount_options E (next_option b @ CHR '','' # y) m' =
        do { r \<leftarrow> mount_options E (next_option b) m'; case r of None \<Rightarrow> result None | Some m \<Rightarrow> mount_options E y m }" for m'
      using 1(1) [of m'] 1(2,3) next_option_last [OF l 1(4,3)] s by simp
    then show ?thesis using False 1(4) by (simp add: unfolded next_option_comma option_bind cong: option.case_cong)
  qed
qed

lemma mount_options_fsname:
  assumes "False \<notin> set (pr_mem s)"
  shows "\<exists>s'. run_state (mount_options E (''fsname='' @ escape True f) m) s = (Some (m\<lparr>mo_fsname := Some f\<rparr>), s')"
proof -
  have len: "opt_len (''fsname='' @ escape True f) = length (''fsname='' @ escape True f)" by (simp add: opt_len_escape)
  obtain m' where ok: "alloc (pr_mem s) = (True, m')" using assms by (cases "pr_mem s") (auto simp: alloc_def)
  have "begins_with (''fsname='' @ x) ''fsname=''" for x by (simp add: begins_with_def)
  then have "mount_option E (''fsname='' @ escape True f) m =
      do { v \<leftarrow> get_string_opt (''fsname='' @ escape True f) ''fsname=''; result (map_option (\<lambda>v. m\<lparr>mo_fsname := Some v\<rparr>) v) }"
    unfolding mount_option_def len by simp
  moreover have "next_option (''fsname='' @ escape True f) = []" unfolding next_option_def len by simp
  ultimately show ?thesis using ok
    by (simp add: mount_options.simps [of E "CHR ''f'' # _"] mount_options.simps [of E "[]"] get_string_opt_def malloc_def unescape_escape split: prod.splits)
qed

text \<open>C13: the name of a file system reaches \<open>fusermount\<close> as it was given to the library, whatever characters it has: the library escapes the commas
  and backslashes of the option, adds it to the ones for the flags and the kernel, and \<open>fusermount\<close> takes exactly the name out of the list again, after it has processed the
  other options as if they had been alone.\<close>

theorem fsname_reaches_fusermount:
  assumes "fuse_mount_opt_proc mo (''fsname='' @ f) 2 out m = Some (0, mo', out', m')" "mo_str mo Fusermount_opts = None"
    "base \<noteq> []" "last base \<noteq> CHR '',''" "CHR 0x5C \<notin> set base"
    "run_state (io_add_some (Some base) (mo_str mo' Fusermount_opts)) p = ((0, options), p')"
    "run_state (mount_options E base opts0) s = (Some opts1, s1)" "False \<notin> set (pr_mem s1)"
  shows "\<exists>s'. run_state (mount_options E (the options) opts0) s = (Some (opts1\<lparr>mo_fsname := Some f\<rparr>), s')"
proof -
  have "mo_str mo' Fusermount_opts = Some (''fsname='' @ escape True f)"
    using assms(1,2) by (auto simp: fuse_mount_opt_proc_def add_to_def fuse_opt_add_opt_escaped_def add_opt_common_def mo_str_def Let_def split: prod.splits if_splits)
  then have "options = Some (base @ CHR '','' # ''fsname='' @ escape True f)"
    using assms(3,6) by (auto simp: io_add_some_def io_add_opt_def fuse_opt_add_opt_def add_opt_common_def escape_off Let_def split: prod.splits if_splits)
  then show ?thesis using assms(7) mount_options_fsname [OF assms(8), of E f opts1]
    by (simp add: mount_options_append [OF assms(3-5)])
qed

theorem fsname_reaches_fusermount_witness:
  "\<exists>mo' options p' s'. fuse_mount_opt_proc (\<lambda>_. None) ''fsname=a,b'' 2 (FUSE_ARGS_INIT None) [] = Some (0, mo', FUSE_ARGS_INIT None, []) \<and>
     run_state (io_add_some (Some ''nonempty'') (mo_str mo' Fusermount_opts)) (demo_proc []) = ((0, options), p') \<and>
     run_state (mount_options demo_mount_env (the options) default_opts) (demo_proc []) = (Some (default_opts\<lparr>mo_check_empty := False, mo_fsname := Some ''a,b''\<rparr>), s')"
proof -
  let ?mo = "(\<lambda>_. None)(Fusermount_opts := Some (VStr (''fsname=a'' @ [CHR 0x5C] @ '',b'')))"
  have a: "fuse_mount_opt_proc (\<lambda>_. None) (''fsname='' @ ''a,b'') 2 (FUSE_ARGS_INIT None) [] = Some (0, ?mo, FUSE_ARGS_INIT None, [])"
    by (simp add: fuse_mount_opt_proc_def add_to_def fuse_opt_add_opt_escaped_def add_opt_common_def mo_str_def alloc_def)
  obtain options p' where b: "run_state (io_add_some (Some ''nonempty'') (mo_str ?mo Fusermount_opts)) (demo_proc []) = ((0, options), p')"
    by (simp add: io_add_some_def io_add_opt_def fuse_opt_add_opt_def add_opt_common_def mo_str_def alloc_def demo_proc_def)
  have c: "run_state (mount_options demo_mount_env ''nonempty'' default_opts) (demo_proc []) = (Some (default_opts\<lparr>mo_check_empty := False\<rparr>), demo_proc [])"
    by (simp add: mount_options.simps mount_option_def begins_with_def next_option_def)
  show ?thesis using fsname_reaches_fusermount [OF a _ _ _ _ b c] a b by (auto simp: mo_str_def demo_proc_def)
qed

end
