(* ===== verification/Fuse_Modules.thy ===== *)
theory Fuse_Modules
  imports Complex_Main Fuse_Prelude
begin

text \<open>
  The modules that can be stacked on a file system (\<open>lib/fuse.c\<close>: \<open>struct fuse_module\<close>, \<open>struct fusemod_so\<close>, \<open>fuse_register_module\<close>,
  \<open>fuse_get_module\<close>, \<open>fuse_put_module\<close> and what they call). A module is registered when the program starts or by the shared object that is
  loaded for it; modules and shared objects count their users.

  Modules live at addresses; the list \<open>fuse_modules\<close> is the list of the addresses on it. What the dynamic linker does is a parameter:
  the names of the modules a shared object registers while it is loaded, or nothing if it cannot be loaded. The code of a
  module is identified by its address, and is gone when its shared object is closed.
\<close>

record fuse_module =
  mod_name :: cstring
  mod_so :: "nat option"
  mod_ctr :: int

record fusemod_so =
  so_handle :: cstring
  so_ctr :: int

record mod_state =
  mods :: "nat \<Rightarrow> fuse_module option"  \<comment> \<open>the modules that are in memory\<close>
  sos :: "nat \<Rightarrow> fusemod_so option"
  mod_brk :: nat
  fuse_modules :: "nat list"
  fuse_current_so :: "nat option"
  mod_mem :: allocs

text \<open>The modules a shared object registers when it is loaded, or \<open>None\<close> if it cannot be; this may depend on what is loaded already.\<close>

type_synonym dlinker = "mod_state \<Rightarrow> cstring \<Rightarrow> cstring list option"

definition mod_malloc :: "mod_state \<Rightarrow> bool \<times> mod_state" where
  "mod_malloc s = (let (ok, m) = alloc (mod_mem s) in (ok, s\<lparr>mod_mem := m\<rparr>))"

text \<open>The static structure of a module appears with its shared object and registers itself.\<close>

definition fuse_register_module :: "cstring \<Rightarrow> mod_state \<Rightarrow> mod_state" where
  "fuse_register_module name s =
     (let a = mod_brk s; so = fuse_current_so s;
          s = s\<lparr>mods := (mods s)(a \<mapsto> \<lparr>mod_name = name, mod_so = so, mod_ctr = 0\<rparr>), mod_brk := a + 1\<rparr>;
          s = (case so of None \<Rightarrow> s | Some b \<Rightarrow> s\<lparr>sos := (sos s)(b := map_option (\<lambda>x. x\<lparr>so_ctr := so_ctr x + 1\<rparr>) (sos s b))\<rparr>)
      in s\<lparr>fuse_modules := a # fuse_modules s\<rparr>)"

text \<open>What closing a shared object takes out of memory.\<close>

definition dlclose :: "nat \<Rightarrow> mod_state \<Rightarrow> mod_state" where
  "dlclose so s = s\<lparr>mods := (\<lambda>a. case mods s a of Some m \<Rightarrow> if mod_so m = Some so then None else Some m | None \<Rightarrow> None)\<rparr>"

definition fuse_load_so_name :: "dlinker \<Rightarrow> cstring \<Rightarrow> mod_state \<Rightarrow> (int \<times> mod_state) option" where
  "fuse_load_so_name dl soname s =
     (let (ok, s) = mod_malloc s
      in if \<not> ok then Some (- 1, s)
         else let a = mod_brk s;
                  s = s\<lparr>sos := (sos s)(a \<mapsto> \<lparr>so_handle = soname, so_ctr = 0\<rparr>), mod_brk := a + 1, fuse_current_so := Some a\<rparr>
              in case dl s soname of
                   None \<Rightarrow> Some (- 1, s\<lparr>fuse_current_so := None, sos := (sos s)(a := None)\<rparr>)
                 | Some names \<Rightarrow> do {
                     let s = (fold fuse_register_module names s)\<lparr>fuse_current_so := None\<rparr>;
                     so \<leftarrow> sos s a;
                     if so_ctr so = 0 then Some (- 1, (dlclose a s)\<lparr>sos := (sos s)(a := None)\<rparr>) else Some (0, s)
                   })"

definition fuse_load_so_module :: "dlinker \<Rightarrow> cstring \<Rightarrow> mod_state \<Rightarrow> (int \<times> mod_state) option" where
  "fuse_load_so_module dl name s =
     (let (ok, s) = mod_malloc s in if \<not> ok then Some (- 1, s) else fuse_load_so_name dl (''libfusemod_'' @ name @ ''.so'') s)"

text \<open>The first module of the list with the name; \<open>None\<close> of the outer option is the use of a module that is not in memory.\<close>

primrec find_module :: "cstring \<Rightarrow> nat list \<Rightarrow> mod_state \<Rightarrow> (nat option \<times> mod_state) option" where
  "find_module name [] s = Some (None, s)"
| "find_module name (a # as) s = do {
     m \<leftarrow> mods s a;
     if mod_name m = name then Some (Some a, s\<lparr>mods := (mods s)(a \<mapsto> m\<lparr>mod_ctr := mod_ctr m + 1\<rparr>)\<rparr>)
     else find_module name as s
   }"

definition fuse_find_module :: "cstring \<Rightarrow> mod_state \<Rightarrow> (nat option \<times> mod_state) option" where
  "fuse_find_module name s = find_module name (fuse_modules s) s"

definition fuse_get_module :: "dlinker \<Rightarrow> cstring \<Rightarrow> mod_state \<Rightarrow> (nat option \<times> mod_state) option" where
  "fuse_get_module dl name s = do {
     (r, s) \<leftarrow> fuse_find_module name s;
     case r of
       Some a \<Rightarrow> Some (Some a, s)
     | None \<Rightarrow> do {
         (err, s) \<leftarrow> fuse_load_so_module dl name s;
         if err = 0 then fuse_find_module name s else Some (None, s)
       }
   }"

text \<open>The loop that takes the modules of a shared object off the list.\<close>

primrec unlink_modules :: "nat \<Rightarrow> nat list \<Rightarrow> mod_state \<Rightarrow> nat list option" where
  "unlink_modules so [] s = Some []"
| "unlink_modules so (a # as) s = do {
     m \<leftarrow> mods s a;
     rest \<leftarrow> unlink_modules so as s;
     Some (if mod_so m = Some so then rest else a # rest)
   }"

definition fuse_put_module :: "nat \<Rightarrow> mod_state \<Rightarrow> mod_state option" where
  "fuse_put_module a s = do {
     m \<leftarrow> mods s a;
     if mod_ctr m > 0 then do {
       let m = m\<lparr>mod_ctr := mod_ctr m - 1\<rparr>;
       let s = s\<lparr>mods := (mods s)(a \<mapsto> m)\<rparr>;
       case mod_so m of
         None \<Rightarrow> Some s
       | Some b \<Rightarrow>
           if mod_ctr m \<noteq> 0 then Some s
           else do {
             so \<leftarrow> sos s b;
             if so_ctr so > 0 then do {
               let so = so\<lparr>so_ctr := so_ctr so - 1\<rparr>;
               let s = s\<lparr>sos := (sos s)(b \<mapsto> so)\<rparr>;
               if so_ctr so \<noteq> 0 then Some s
               else do {
                 l \<leftarrow> unlink_modules b (fuse_modules s) s;
                 let s = dlclose b (s\<lparr>fuse_modules := l\<rparr>);
                 Some (s\<lparr>sos := (sos s)(b := None)\<rparr>)
               }
             } else None
           }
     } else None
   }"

subsection \<open>Modules in use\<close>

definition no_modules :: mod_state where
  "no_modules = \<lparr>mods = (\<lambda>_. None), sos = (\<lambda>_. None), mod_brk = 0, fuse_modules = [], fuse_current_so = None, mod_mem = []\<rparr>"

text \<open>The states of the program after its built-in modules are registered, with the number of times each module is in use: every use begins with
  \<open>fuse_get_module\<close> and ends with \<open>fuse_put_module\<close>. Memory may run short at any time.\<close>

inductive mod_reach :: "dlinker \<Rightarrow> mod_state \<Rightarrow> (nat \<Rightarrow> nat) \<Rightarrow> bool" for dl where
  start: "mod_reach dl (fold fuse_register_module names no_modules) (\<lambda>_. 0)"
| memory: "mod_reach dl s h \<Longrightarrow> mod_reach dl (s\<lparr>mod_mem := m\<rparr>) h"
| get: "mod_reach dl s h \<Longrightarrow> fuse_get_module dl name s = Some (Some a, s') \<Longrightarrow> mod_reach dl s' (h(a := h a + 1))"
| get_none: "mod_reach dl s h \<Longrightarrow> fuse_get_module dl name s = Some (None, s') \<Longrightarrow> mod_reach dl s' h"
| put: "mod_reach dl s h \<Longrightarrow> 0 < h a \<Longrightarrow> fuse_put_module a s = Some s' \<Longrightarrow> mod_reach dl s' (h(a := h a - 1))"

definition mod_inv :: "mod_state \<Rightarrow> (nat \<Rightarrow> nat) \<Rightarrow> bool" where
  "mod_inv s h \<longleftrightarrow> fuse_current_so s = None \<and> set (fuse_modules s) = dom (mods s) \<and> (\<forall>a \<ge> mod_brk s. mods s a = None \<and> sos s a = None) \<and>
     (\<forall>a. mods s a = None \<longrightarrow> h a = 0) \<and> (\<forall>a m. mods s a = Some m \<longrightarrow> mod_ctr m = int (h a) \<and> (\<forall>b. mod_so m = Some b \<longrightarrow> sos s b \<noteq> None)) \<and>
     (\<forall>b so. sos s b = Some so \<longrightarrow> so_ctr so = 1) \<and>
     (\<forall>a a' m m' b. mods s a = Some m \<longrightarrow> mods s a' = Some m' \<longrightarrow> mod_so m = Some b \<longrightarrow> mod_so m' = Some b \<longrightarrow> a = a')"

lemma mod_inv_register:
  assumes "mod_inv s h"
  shows "mod_inv (fuse_register_module name s) h"
  using assms by (auto simp: mod_inv_def fuse_register_module_def Let_def split: if_splits)

lemma mod_inv_mem: "mod_inv s h \<Longrightarrow> mod_inv (s\<lparr>mod_mem := m\<rparr>) h"
  by (simp add: mod_inv_def)

lemma mod_inv_start: "mod_inv (fold fuse_register_module names no_modules) (\<lambda>_. 0)"
proof -
  have "mod_inv s (\<lambda>_. 0) \<Longrightarrow> mod_inv (fold fuse_register_module names s) (\<lambda>_. 0)" for s
    by (induction names arbitrary: s) (simp_all add: mod_inv_register)
  moreover have "mod_inv no_modules (\<lambda>_. 0)" by (simp add: mod_inv_def no_modules_def)
  ultimately show ?thesis by blast
qed

lemma find_module_inv:
  assumes "mod_inv s h" "set as \<subseteq> dom (mods s)"
  shows "\<exists>r s'. find_module name as s = Some (r, s') \<and> (case r of None \<Rightarrow> s' = s | Some a \<Rightarrow> mod_inv s' (h(a := h a + 1)))"
  using assms(2)
proof (induction as)
  case (Cons a as)
  then obtain m where m: "mods s a = Some m" by auto
  show ?case
  proof (cases "mod_name m = name")
    case True
    have "mod_inv (s\<lparr>mods := (mods s)(a \<mapsto> m\<lparr>mod_ctr := mod_ctr m + 1\<rparr>)\<rparr>) (h(a := h a + 1))"
      using assms(1) m by (auto simp: mod_inv_def split: if_splits)
    then show ?thesis using m True by simp
  qed (use Cons m in simp)
qed simp

lemma fuse_find_module_inv:
  "mod_inv s h \<Longrightarrow> \<exists>r s'. fuse_find_module name s = Some (r, s') \<and> (case r of None \<Rightarrow> s' = s | Some a \<Rightarrow> mod_inv s' (h(a := h a + 1)))"
  unfolding fuse_find_module_def by (rule find_module_inv) (auto simp: mod_inv_def)

lemma load_inv:
  assumes "mod_inv s h" "\<forall>s n xs. dl s n = Some xs \<longrightarrow> length xs \<le> 1"
  shows "\<exists>err s'. fuse_load_so_name dl name s = Some (err, s') \<and> mod_inv s' h"
proof -
  obtain ok s1 where m: "mod_malloc s = (ok, s1)" by (cases "mod_malloc s")
  have i: "mod_inv s1 h" using m assms(1) by (auto simp: mod_malloc_def mod_inv_mem split: prod.splits)
  let ?a = "mod_brk s1"
  let ?s = "s1\<lparr>sos := (sos s1)(?a \<mapsto> \<lparr>so_handle = name, so_ctr = 0\<rparr>), mod_brk := ?a + 1, fuse_current_so := Some ?a\<rparr>"
  have fresh: "mods s1 ?a = None" "sos s1 ?a = None" "mods s1 (Suc ?a) = None"
    using i by (auto simp: mod_inv_def)
  have other: "mod_so m \<noteq> Some ?a" if "mods s1 a = Some m" for a m
    using i that fresh(2) unfolding mod_inv_def by metis
  show ?thesis
  proof (cases "ok")
    case True
    show ?thesis
    proof (cases "dl ?s name")
      case None
      have "(sos s1)(?a := None) = sos s1" using fresh by auto
      moreover have "mod_inv (s1\<lparr>mod_brk := ?a + 1\<rparr>) h" using i by (simp add: mod_inv_def)
      ultimately show ?thesis using i m True None by (auto simp: fuse_load_so_name_def mod_inv_def)
    next
      case (Some xs)
      have "length xs \<le> 1" using assms(2) Some by blast
      then consider "xs = []" | n where "xs = [n]" by (cases xs) auto
      then show ?thesis
      proof cases
        case 1
        have "(\<lambda>a. case mods s1 a of None \<Rightarrow> None | Some m \<Rightarrow> if mod_so m = Some ?a then None else Some m) = mods s1"
          by (auto simp: fun_eq_iff other split: option.splits)
        moreover have "(sos s1)(?a := None) = sos s1" using fresh by auto
        moreover have "mod_inv (s1\<lparr>mod_brk := Suc ?a, fuse_current_so := None\<rparr>) h" using i by (simp add: mod_inv_def)
        ultimately show ?thesis using m True Some 1
          by (simp add: fuse_load_so_name_def dlclose_def mod_inv_def Let_def)
      next
        case 2
        then show ?thesis using i fresh other m True Some
          by (auto simp: fuse_load_so_name_def mod_inv_def fuse_register_module_def Let_def split: option.splits)
      qed
    qed
  qed (use m i in \<open>simp add: fuse_load_so_name_def\<close>)
qed

lemma get_module_inv:
  assumes "mod_inv s h" "\<forall>s n xs. dl s n = Some xs \<longrightarrow> length xs \<le> 1"
  shows "\<exists>r s'. fuse_get_module dl name s = Some (r, s') \<and> mod_inv s' (case r of None \<Rightarrow> h | Some a \<Rightarrow> h(a := h a + 1))"
proof -
  obtain r s1 where f: "fuse_find_module name s = Some (r, s1)" "case r of None \<Rightarrow> s1 = s | Some a \<Rightarrow> mod_inv s1 (h(a := h a + 1))"
    using fuse_find_module_inv [OF assms(1)] by blast
  show ?thesis
  proof (cases r)
    case None
    obtain ok s2 where m: "mod_malloc s = (ok, s2)" by (cases "mod_malloc s")
    have i: "mod_inv s2 h" using m assms(1) by (auto simp: mod_malloc_def mod_inv_mem split: prod.splits)
    obtain err s3 where l: "fuse_load_so_name dl (''libfusemod_'' @ name @ ''.so'') s2 = Some (err, s3)" "mod_inv s3 h"
      using load_inv [OF i assms(2)] by blast
    obtain r' s4 where "fuse_find_module name s3 = Some (r', s4)" "case r' of None \<Rightarrow> s4 = s3 | Some a \<Rightarrow> mod_inv s4 (h(a := h a + 1))"
      using fuse_find_module_inv [OF l(2)] by blast
    then show ?thesis using f None m i l
      by (cases ok; cases "err = 0") (auto simp: fuse_get_module_def fuse_load_so_module_def split: option.splits)
  qed (use f in \<open>simp add: fuse_get_module_def\<close>)
qed

lemma unlink_modules_eq:
  "set as \<subseteq> dom (mods s) \<Longrightarrow> unlink_modules b as s = Some (filter (\<lambda>a. mod_so (the (mods s a)) \<noteq> Some b) as)"
  by (induction as) auto

lemma put_module_inv:
  assumes "mod_inv s h" "0 < h a"
  shows "\<exists>s'. fuse_put_module a s = Some s' \<and> mod_inv s' (h(a := h a - 1))"
proof -
  obtain m where m: "mods s a = Some m" "mod_ctr m = int (h a)" using assms unfolding mod_inv_def by (metis not_Some_eq less_not_refl)
  let ?m = "m\<lparr>mod_ctr := mod_ctr m - 1\<rparr>" and ?h = "h(a := h a - 1)"
  let ?s = "s\<lparr>mods := (mods s)(a \<mapsto> ?m)\<rparr>"
  have i: "mod_inv ?s ?h" using assms m by (auto simp: mod_inv_def split: if_splits)
  show ?thesis
  proof (cases "mod_so m = None \<or> mod_ctr ?m \<noteq> 0")
    case True
    then show ?thesis using m i assms(2) by (auto simp: fuse_put_module_def Let_def split: option.splits)
  next
    case False
    then obtain b where b: "mod_so m = Some b" "h a = 1" using m by auto
    then obtain so where so: "sos s b = Some so" "so_ctr so = 1" using assms(1) m unfolding mod_inv_def by (metis not_Some_eq)
    have only: "x = a" if "mods s x = Some y" "mod_so y = Some b" for x y
      using assms(1) m b that unfolding mod_inv_def by metis
    have mem: "(\<lambda>x. case if x = a then Some (m\<lparr>mod_ctr := 0\<rparr>) else mods s x of None \<Rightarrow> None | Some y \<Rightarrow> if mod_so y = Some b then None else Some y) = (mods s)(a := None)"
      using only b by (auto simp: fun_eq_iff split: option.splits)
    let ?l = "filter (\<lambda>x. x \<noteq> a) (fuse_modules s)"
    have "unlink_modules b (fuse_modules s) s' = Some (filter (\<lambda>x. mod_so (the (mods s' x)) \<noteq> Some b) (fuse_modules s))"
      if "mods s' = (mods s)(a \<mapsto> ?m)" for s'
      using assms(1) m by (intro unlink_modules_eq) (auto simp: mod_inv_def that)
    moreover have "filter (\<lambda>x. mod_so (the (((mods s)(a \<mapsto> ?m)) x)) \<noteq> Some b) (fuse_modules s) = ?l"
      using assms(1) b only by (intro filter_cong) (auto simp: mod_inv_def)
    ultimately have u: "unlink_modules b (fuse_modules s) s' = Some ?l" if "mods s' = (mods s)(a \<mapsto> ?m)" for s'
      using that by simp
    have "mod_inv (s\<lparr>mods := (mods s)(a := None), fuse_modules := ?l, sos := (sos s)(b := None)\<rparr>) ?h"
      using assms(1) b only by (auto simp: mod_inv_def split: if_splits)
    moreover have "fuse_put_module a s = Some (s\<lparr>mods := (mods s)(a := None), fuse_modules := ?l, sos := (sos s)(b := None)\<rparr>)"
      using m b so by (simp add: fuse_put_module_def Let_def u dlclose_def mem)
    ultimately show ?thesis by blast
  qed
qed

lemma mod_reach_inv:
  assumes "mod_reach dl s h" "\<forall>s n xs. dl s n = Some xs \<longrightarrow> length xs \<le> 1"
  shows "mod_inv s h"
  using assms(1)
proof induction
  case (get s h name a s')
  then show ?case using get_module_inv [OF get.IH assms(2), of name] by (auto simp: fun_upd_def)
next
  case (get_none s h name s')
  then show ?case using get_module_inv [OF get_none.IH assms(2), of name] by (auto simp: fun_upd_def)
next
  case (put s h a s')
  then show ?case using put_module_inv [OF put.IH put.hyps(2)] by (auto simp: fun_upd_def)
qed (auto intro: mod_inv_start mod_inv_mem)

text \<open>C38: as long as every shared object registers one module, a module that is in use stays in memory and on the list, counts exactly its users, and can be given back.\<close>

theorem modules_in_use:
  assumes "\<forall>s n xs. dl s n = Some xs \<longrightarrow> length xs \<le> 1" "mod_reach dl s h" "0 < h a"
  shows "\<exists>m s'. mods s a = Some m \<and> mod_ctr m = int (h a) \<and> a \<in> set (fuse_modules s) \<and> fuse_put_module a s = Some s'"
proof -
  have i: "mod_inv s h" by (rule mod_reach_inv [OF assms(2,1)])
  then obtain m where "mods s a = Some m" "mod_ctr m = int (h a)" "a \<in> set (fuse_modules s)"
    using assms(3) unfolding mod_inv_def by (metis domI not_Some_eq less_not_refl)
  then show ?thesis using put_module_inv [OF i assms(3)] by blast
qed

definition demo_dl :: "cstring list \<Rightarrow> dlinker" where
  "demo_dl names s n = (if sos s 0 = None \<or> fuse_current_so s = Some 0 then Some names else None)"

lemmas mod_run = fuse_get_module_def fuse_find_module_def fuse_load_so_module_def fuse_load_so_name_def mod_malloc_def fuse_register_module_def
  fuse_put_module_def dlclose_def demo_dl_def no_modules_def alloc_def Let_def

lemma demo_get_b:
  "fuse_get_module (demo_dl [''b'']) ''b'' no_modules = Some (Some 1, \<lparr>mods = [1 \<mapsto> \<lparr>mod_name = ''b'', mod_so = Some 0, mod_ctr = 1\<rparr>],
     sos = [0 \<mapsto> \<lparr>so_handle = ''libfusemod_b.so'', so_ctr = 1\<rparr>], mod_brk = 2, fuse_modules = [1], fuse_current_so = None, mod_mem = []\<rparr>)"
  by (simp add: mod_run)

theorem modules_in_use_witness:
  "\<exists>s. fuse_get_module (demo_dl [''b'']) ''b'' no_modules = Some (Some 1, s) \<and> (\<exists>s'. fuse_put_module 1 s = Some s')"
proof -
  have r: "mod_reach (demo_dl [''b'']) no_modules (\<lambda>_. 0)" using mod_reach.start [of "demo_dl [''b'']" "[]"] by simp
  have "\<forall>s n xs. demo_dl [''b''] s n = Some xs \<longrightarrow> length xs \<le> 1" by (auto simp: demo_dl_def split: if_splits)
  from modules_in_use [OF this mod_reach.get [OF r demo_get_b], of 1] show ?thesis using demo_get_b by auto
qed

text \<open>With two modules in one shared object this fails: each time a module is given back for the last time the shared object loses a user, and the
  module that is given back twice takes the other one out of memory with it, though that one is in use.\<close>

lemma two_modules_unloaded:
  "\<exists>s1 s2 s3 s4 s5. fuse_get_module (demo_dl [''a'', ''b'']) ''b'' no_modules = Some (Some 2, s1) \<and>
     fuse_get_module (demo_dl [''a'', ''b'']) ''a'' s1 = Some (Some 1, s2) \<and> fuse_put_module 1 s2 = Some s3 \<and>
     fuse_get_module (demo_dl [''a'', ''b'']) ''a'' s3 = Some (Some 1, s4) \<and> fuse_put_module 1 s4 = Some s5 \<and> mods s5 2 = None"
  by (simp add: mod_run)

end
