(* ===== verification/Fuse_Session.thy ===== *)
theory Fuse_Session
  imports Fuse_Lib_Proofs
begin

text \<open>
  Sessions, channels and the loop that serves them: \<open>fuse_session.c\<close>, \<open>fuse_kern_chan.c\<close>, \<open>fuse_loop.c\<close> and
  \<open>fuse_signals.c\<close>. A session has operations, the data they work on and at most one channel. Sessions and channels are
  objects in memory that point to each other. What \<open>read\<close> gives on a descriptor is a list of coming
  events, each with the signals that arrive while the call waits; a call that finds no event waits for ever.
\<close>

subsection \<open>Objects\<close>

text \<open>Operations of a session. A file system may ask for the end of the session while a message is worked off: the second
  component of \<open>sop_process\<close>.\<close>

record 'd fuse_session_ops =
  sop_process :: "cbuf \<Rightarrow> nat \<Rightarrow> 'd \<Rightarrow> ('d \<times> bool) option"
  sop_exit :: "(bool \<Rightarrow> 'd \<Rightarrow> 'd) option"
  sop_exited :: "('d \<Rightarrow> bool) option"
  sop_destroy :: "('d \<Rightarrow> 'd option) option"

record 'd fuse_session =
  se_op :: "'d fuse_session_ops"
  se_data :: 'd
  se_exited :: bool
  se_ch :: "nat option"

text \<open>A channel has the functions for the kernel's device, or ones of its own.\<close>

datatype chan_fun = Kern_fun | Own_fun nat

record fuse_chan_ops =
  cop_receive :: chan_fun
  cop_send :: chan_fun
  cop_destroy :: "chan_fun option"

record fuse_chan =
  ch_op :: fuse_chan_ops
  ch_se :: "nat option"
  ch_fd :: int
  ch_bufsize :: nat
  ch_data :: nat
  ch_compat :: nat

datatype sig_handler = Sig_dfl | Sig_ign | Exit_handler | Other_handler

record read_event =
  ev_sigs :: "nat list"
  ev_res :: "int + cbuf"  \<comment> \<open>\<open>errno\<close>, or what was read\<close>

record 'd sworld =
  sessions :: "nat \<Rightarrow> 'd fuse_session option"
  chans :: "nat \<Rightarrow> fuse_chan option"
  obj_brk :: nat
  reads :: "int \<Rightarrow> read_event list"
  closed :: "int list"
  sw_mem :: allocs
  sig_handlers :: "nat \<Rightarrow> sig_handler"
  fuse_instance :: "nat option"

text \<open>The functions of channels that are not the kernel's: receiving gives a result, the bytes and the channel they came from.\<close>

record 'd own_chan =
  oc_receive :: "nat \<Rightarrow> nat \<Rightarrow> nat \<Rightarrow> 'd sworld \<Rightarrow> (int \<times> cbuf \<times> nat \<times> 'd sworld) option"
  oc_receive24 :: "nat \<Rightarrow> nat \<Rightarrow> nat \<Rightarrow> 'd sworld \<Rightarrow> (int \<times> cbuf \<times> 'd sworld) option"
  oc_destroy :: "nat \<Rightarrow> nat \<Rightarrow> 'd sworld \<Rightarrow> 'd sworld option"

definition set_session :: "nat \<Rightarrow> 'd fuse_session option \<Rightarrow> 'd sworld \<Rightarrow> 'd sworld" where
  "set_session se s w = w\<lparr>sessions := (sessions w)(se := s)\<rparr>"

definition set_chan :: "nat \<Rightarrow> fuse_chan option \<Rightarrow> 'd sworld \<Rightarrow> 'd sworld" where
  "set_chan ch c w = w\<lparr>chans := (chans w)(ch := c)\<rparr>"

subsection \<open>fuse_session.c\<close>

definition fuse_session_new :: "'d fuse_session_ops \<Rightarrow> 'd \<Rightarrow> 'd sworld \<Rightarrow> nat option \<times> 'd sworld" where
  "fuse_session_new op d w =
     (let (ok, m) = alloc (sw_mem w); w = w\<lparr>sw_mem := m\<rparr>
      in if \<not> ok then (None, w)
         else (Some (obj_brk w), set_session (obj_brk w) (Some \<lparr>se_op = op, se_data = d, se_exited = False, se_ch = None\<rparr>)
             (w\<lparr>obj_brk := Suc (obj_brk w)\<rparr>)))"

definition fuse_session_add_chan :: "nat \<Rightarrow> nat \<Rightarrow> 'd sworld \<Rightarrow> 'd sworld option" where
  "fuse_session_add_chan se ch w = do {
     s \<leftarrow> sessions w se;
     c \<leftarrow> chans w ch;
     if se_ch s \<noteq> None \<or> ch_se c \<noteq> None then None
     else Some (set_chan ch (Some (c\<lparr>ch_se := Some se\<rparr>)) (set_session se (Some (s\<lparr>se_ch := Some ch\<rparr>)) w))
   }"

definition fuse_session_remove_chan :: "nat \<Rightarrow> 'd sworld \<Rightarrow> 'd sworld option" where
  "fuse_session_remove_chan ch w = do {
     c \<leftarrow> chans w ch;
     case ch_se c of
       None \<Rightarrow> Some w
     | Some se \<Rightarrow> do {
         s \<leftarrow> sessions w se;
         if se_ch s \<noteq> Some ch then None
         else Some (set_chan ch (Some (c\<lparr>ch_se := None\<rparr>)) (set_session se (Some (s\<lparr>se_ch := None\<rparr>)) w))
       }
   }"

definition fuse_session_next_chan :: "nat \<Rightarrow> nat option \<Rightarrow> 'd sworld \<Rightarrow> nat option option" where
  "fuse_session_next_chan se ch w = do {
     s \<leftarrow> sessions w se;
     if ch \<noteq> None \<and> ch \<noteq> se_ch s then None
     else Some (if ch = None then se_ch s else None)
   }"

definition fuse_session_exit :: "nat \<Rightarrow> 'd sworld \<Rightarrow> 'd sworld option" where
  "fuse_session_exit se w = do {
     s \<leftarrow> sessions w se;
     let d = (case sop_exit (se_op s) of Some f \<Rightarrow> f True (se_data s) | None \<Rightarrow> se_data s);
     Some (set_session se (Some (s\<lparr>se_data := d, se_exited := True\<rparr>)) w)
   }"

definition fuse_session_reset :: "nat \<Rightarrow> 'd sworld \<Rightarrow> 'd sworld option" where
  "fuse_session_reset se w = do {
     s \<leftarrow> sessions w se;
     let d = (case sop_exit (se_op s) of Some f \<Rightarrow> f False (se_data s) | None \<Rightarrow> se_data s);
     Some (set_session se (Some (s\<lparr>se_data := d, se_exited := False\<rparr>)) w)
   }"

definition fuse_session_exited :: "nat \<Rightarrow> 'd sworld \<Rightarrow> bool option" where
  "fuse_session_exited se w = do {
     s \<leftarrow> sessions w se;
     Some (case sop_exited (se_op s) of Some f \<Rightarrow> f (se_data s) | None \<Rightarrow> se_exited s)
   }"

definition fuse_session_process :: "nat \<Rightarrow> cbuf \<Rightarrow> nat \<Rightarrow> 'd sworld \<Rightarrow> 'd sworld option" where
  "fuse_session_process se buf ch w = do {
     s \<leftarrow> sessions w se;
     (d, quit) \<leftarrow> sop_process (se_op s) buf ch (se_data s);
     let w = set_session se (Some (s\<lparr>se_data := d\<rparr>)) w;
     if quit then fuse_session_exit se w else Some w
   }"

definition fuse_session_data :: "nat \<Rightarrow> 'd sworld \<Rightarrow> 'd option" where
  "fuse_session_data se w = map_option se_data (sessions w se)"

definition fuse_chan_new_common :: "fuse_chan_ops \<Rightarrow> int \<Rightarrow> nat \<Rightarrow> nat \<Rightarrow> nat \<Rightarrow> 'd sworld \<Rightarrow> nat option \<times> 'd sworld" where
  "fuse_chan_new_common op fd bufsize d ver w =
     (let (ok, m) = alloc (sw_mem w); w = w\<lparr>sw_mem := m\<rparr>
      in if \<not> ok then (None, w)
         else (Some (obj_brk w), set_chan (obj_brk w)
             (Some \<lparr>ch_op = op, ch_se = None, ch_fd = fd, ch_bufsize = bufsize, ch_data = d, ch_compat = ver\<rparr>)
             (w\<lparr>obj_brk := Suc (obj_brk w)\<rparr>)))"

definition fuse_chan_new :: "fuse_chan_ops \<Rightarrow> int \<Rightarrow> nat \<Rightarrow> nat \<Rightarrow> 'd sworld \<Rightarrow> nat option \<times> 'd sworld" where
  "fuse_chan_new op fd bufsize d = fuse_chan_new_common op fd bufsize d 0"

definition fuse_chan_new_compat24 :: "fuse_chan_ops \<Rightarrow> int \<Rightarrow> nat \<Rightarrow> nat \<Rightarrow> 'd sworld \<Rightarrow> nat option \<times> 'd sworld" where
  "fuse_chan_new_compat24 op fd bufsize d = fuse_chan_new_common op fd bufsize d 24"

definition fuse_chan_fd :: "nat \<Rightarrow> 'd sworld \<Rightarrow> int option" where
  "fuse_chan_fd ch w = map_option ch_fd (chans w ch)"

definition fuse_chan_bufsize :: "nat \<Rightarrow> 'd sworld \<Rightarrow> nat option" where
  "fuse_chan_bufsize ch w = map_option ch_bufsize (chans w ch)"

definition fuse_chan_data :: "nat \<Rightarrow> 'd sworld \<Rightarrow> nat option" where
  "fuse_chan_data ch w = map_option ch_data (chans w ch)"

definition fuse_chan_session :: "nat \<Rightarrow> 'd sworld \<Rightarrow> nat option option" where
  "fuse_chan_session ch w = map_option ch_se (chans w ch)"

subsection \<open>Signals\<close>

definition exit_handler :: "'d sworld \<Rightarrow> 'd sworld option" where
  "exit_handler w = (case fuse_instance w of Some se \<Rightarrow> fuse_session_exit se w | None \<Rightarrow> Some w)"

text \<open>A signal with its default action ends the process: then nothing returns.\<close>

definition deliver :: "nat \<Rightarrow> 'd sworld \<Rightarrow> 'd sworld option" where
  "deliver n w = (case sig_handlers w n of Exit_handler \<Rightarrow> exit_handler w | Sig_dfl \<Rightarrow> None | _ \<Rightarrow> Some w)"

primrec deliver_all :: "nat list \<Rightarrow> 'd sworld \<Rightarrow> 'd sworld option" where
  "deliver_all [] w = Some w"
| "deliver_all (n # ns) w = do { w \<leftarrow> deliver n w; deliver_all ns w }"

text \<open>Whether \<open>sigaction\<close> knows a signal is decided outside.\<close>

definition set_one_signal_handler :: "(nat \<Rightarrow> bool) \<Rightarrow> nat \<Rightarrow> sig_handler \<Rightarrow> 'd sworld \<Rightarrow> int \<times> 'd sworld" where
  "set_one_signal_handler known sig handler w =
     (if \<not> known sig then (- 1, w)
      else if sig_handlers w sig = Sig_dfl then (0, w\<lparr>sig_handlers := (sig_handlers w)(sig := handler)\<rparr>)
      else (0, w))"

abbreviation (input) SIGHUP :: nat where "SIGHUP \<equiv> 1"
abbreviation (input) SIGINT :: nat where "SIGINT \<equiv> 2"
abbreviation (input) SIGPIPE :: nat where "SIGPIPE \<equiv> 13"
abbreviation (input) SIGTERM :: nat where "SIGTERM \<equiv> 15"

primrec set_handlers :: "(nat \<Rightarrow> bool) \<Rightarrow> (nat \<times> sig_handler) list \<Rightarrow> 'd sworld \<Rightarrow> int \<times> 'd sworld" where
  "set_handlers known [] w = (0, w)"
| "set_handlers known (x # xs) w =
     (let (res, w) = set_one_signal_handler known (fst x) (snd x) w
      in if res = - 1 then (- 1, w) else set_handlers known xs w)"

definition fuse_set_signal_handlers :: "(nat \<Rightarrow> bool) \<Rightarrow> nat \<Rightarrow> 'd sworld \<Rightarrow> int \<times> 'd sworld" where
  "fuse_set_signal_handlers known se w =
     (let (res, w) = set_handlers known [(SIGHUP, Exit_handler), (SIGINT, Exit_handler), (SIGTERM, Exit_handler), (SIGPIPE, Sig_ign)] w
      in if res = - 1 then (- 1, w) else (0, w\<lparr>fuse_instance := Some se\<rparr>))"

definition fuse_remove_signal_handlers :: "(nat \<Rightarrow> bool) \<Rightarrow> nat \<Rightarrow> 'd sworld \<Rightarrow> 'd sworld" where
  "fuse_remove_signal_handlers known se w =
     (let w = (if fuse_instance w \<noteq> Some se then w else w\<lparr>fuse_instance := None\<rparr>)
      in foldl (\<lambda>w sig. snd (set_one_signal_handler known sig Sig_dfl w)) w [SIGHUP, SIGINT, SIGTERM, SIGPIPE])"

subsection \<open>fuse_kern_chan.c\<close>

text \<open>The calls of \<open>read\<close> up to the one that is not repeated; the events are the ones left for the descriptor.\<close>

fun kern_reads :: "nat \<Rightarrow> int \<Rightarrow> nat \<Rightarrow> read_event list \<Rightarrow> 'd sworld \<Rightarrow> (int \<times> cbuf \<times> 'd sworld) option" where
  "kern_reads se fd size' [] w = None"
| "kern_reads se fd size' (e # es) w = do {
     w \<leftarrow> deliver_all (ev_sigs e) (w\<lparr>reads := (reads w)(fd := es)\<rparr>);
     x \<leftarrow> fuse_session_exited se w;
     if x then Some (0, [], w)
     else case ev_res e of
       Inl err \<Rightarrow>
         if err = ENOENT then kern_reads se fd size' es w
         else if err = ENODEV then do { w \<leftarrow> fuse_session_exit se w; Some (0, [], w) }
         else Some (- err, [], w)
     | Inr buf \<Rightarrow>
         (let buf = take size' buf
          in Some (if length buf < 40 then - EIO else int (length buf), buf, w))
   }"

definition fuse_kern_chan_receive :: "nat \<Rightarrow> nat \<Rightarrow> 'd sworld \<Rightarrow> (int \<times> cbuf \<times> nat \<times> 'd sworld) option" where
  "fuse_kern_chan_receive ch size' w = do {
     c \<leftarrow> chans w ch;
     se \<leftarrow> ch_se c;
     (res, buf, w) \<leftarrow> kern_reads se (ch_fd c) size' (reads w (ch_fd c)) w;
     Some (res, buf, ch, w)
   }"

definition fuse_kern_chan_destroy :: "nat \<Rightarrow> 'd sworld \<Rightarrow> 'd sworld option" where
  "fuse_kern_chan_destroy ch w = do { fd \<leftarrow> fuse_chan_fd ch w; Some (w\<lparr>closed := closed w @ [fd]\<rparr>) }"

definition fuse_kern_chan_new :: "nat \<Rightarrow> int \<Rightarrow> 'd sworld \<Rightarrow> nat option \<times> 'd sworld" where
  "fuse_kern_chan_new pagesize fd =
     fuse_chan_new \<lparr>cop_receive = Kern_fun, cop_send = Kern_fun, cop_destroy = Some Kern_fun\<rparr> fd (max 0x21000 (pagesize + 0x1000)) 0"

subsection \<open>Channels in general\<close>

definition fuse_chan_recv :: "'d own_chan \<Rightarrow> nat \<Rightarrow> nat \<Rightarrow> 'd sworld \<Rightarrow> (int \<times> cbuf \<times> nat \<times> 'd sworld) option" where
  "fuse_chan_recv own ch size' w = do {
     c \<leftarrow> chans w ch;
     case cop_receive (ch_op c) of
       Kern_fun \<Rightarrow> fuse_kern_chan_receive ch size' w
     | Own_fun n \<Rightarrow>
         if ch_compat c \<noteq> 0 then do { (res, buf, w) \<leftarrow> oc_receive24 own n ch size' w; Some (res, buf, ch, w) }
         else oc_receive own n ch size' w
   }"

definition fuse_chan_receive :: "'d own_chan \<Rightarrow> nat \<Rightarrow> nat \<Rightarrow> 'd sworld \<Rightarrow> (int \<times> cbuf \<times> 'd sworld) option" where
  "fuse_chan_receive own ch size' w = do {
     (res, buf, ch, w) \<leftarrow> fuse_chan_recv own ch size' w;
     Some (if res \<ge> 0 then res else if res \<noteq> - EINTR \<and> res \<noteq> - EAGAIN then - 1 else 0, buf, w)
   }"

definition fuse_chan_destroy :: "'d own_chan \<Rightarrow> nat \<Rightarrow> 'd sworld \<Rightarrow> 'd sworld option" where
  "fuse_chan_destroy own ch w = do {
     w \<leftarrow> fuse_session_remove_chan ch w;
     c \<leftarrow> chans w ch;
     w \<leftarrow> (case cop_destroy (ch_op c) of
             None \<Rightarrow> Some w
           | Some Kern_fun \<Rightarrow> fuse_kern_chan_destroy ch w
           | Some (Own_fun n) \<Rightarrow> oc_destroy own n ch w);
     Some (set_chan ch None w)
   }"

definition fuse_session_destroy :: "'d own_chan \<Rightarrow> nat \<Rightarrow> 'd sworld \<Rightarrow> 'd sworld option" where
  "fuse_session_destroy own se w = do {
     s \<leftarrow> sessions w se;
     d \<leftarrow> (case sop_destroy (se_op s) of None \<Rightarrow> Some (se_data s) | Some f \<Rightarrow> f (se_data s));
     let w = set_session se (Some (s\<lparr>se_data := d\<rparr>)) w;
     w \<leftarrow> (case se_ch s of None \<Rightarrow> Some w | Some ch \<Rightarrow> fuse_chan_destroy own ch w);
     Some (set_session se None w)
   }"

subsection \<open>fuse_loop.c\<close>

text \<open>The last result, and the state when the loop is left. \<open>None\<close> when it waits for ever.\<close>

partial_function (option) session_loop :: "'d own_chan \<Rightarrow> nat \<Rightarrow> nat \<Rightarrow> nat \<Rightarrow> int \<Rightarrow> 'd sworld \<Rightarrow> (int \<times> 'd sworld) option" where
  [code]: "session_loop own se ch bufsize res w = do {
     x \<leftarrow> fuse_session_exited se w;
     if x then Some (res, w)
     else do {
       (res, buf, tmpch, w) \<leftarrow> fuse_chan_recv own ch bufsize w;
       if res = - EINTR then session_loop own se ch bufsize res w
       else if res \<le> 0 then Some (res, w)
       else do {
         w \<leftarrow> fuse_session_process se (take (nat res) buf) tmpch w;
         session_loop own se ch bufsize res w
       }
     }
   }"

definition fuse_session_loop :: "'d own_chan \<Rightarrow> nat \<Rightarrow> 'd sworld \<Rightarrow> (int \<times> 'd sworld) option" where
  "fuse_session_loop own se w = do {
     ch \<leftarrow> fuse_session_next_chan se None w;
     ch \<leftarrow> ch;
     bufsize \<leftarrow> fuse_chan_bufsize ch w;
     let (ok, m) = alloc (sw_mem w);
     let w = w\<lparr>sw_mem := m\<rparr>;
     if \<not> ok then Some (- 1, w)
     else do {
       (res, w) \<leftarrow> session_loop own se ch bufsize 0 w;
       w \<leftarrow> fuse_session_reset se w;
       Some (if res < 0 then - 1 else 0, w)
     }
   }"

text \<open>The session of the low-level library: its operations, which \<open>fuse_lowlevel_new_common\<close> hands to \<open>fuse_session_new\<close>.
  Whether a file system asked for the end while it worked off a message is told by \<open>quits\<close>.\<close>

definition ll_session_ops :: "'u fuse_lowlevel_ops \<Rightarrow> ('u fuse_ll \<Rightarrow> bool) \<Rightarrow> 'u fuse_ll fuse_session_ops" where
  "ll_session_ops ops quits =
     \<lparr>sop_process = (\<lambda>buf ch f. map_option (\<lambda>f'. (f', quits f')) (fuse_ll_process ops buf ch f)), sop_exit = None, sop_exited = None,
      sop_destroy = Some (fuse_ll_destroy ops)\<rparr>"

end
