(* ===== verification/Fuse_Session_Proofs.thy ===== *)
theory Fuse_Session_Proofs
  imports Fuse_Session
begin

text \<open>
  What the loop of a session does with what arrives on the kernel's device, for every kind of session whose end
  is its flag, and for the session of the high-level library.
\<close>

subsection \<open>What arrives\<close>

text \<open>Events that are no message: the kernel says that the request was interrupted, or a signal that is not for the session
  interrupted the call.\<close>

definition noise :: "read_event \<Rightarrow> bool" where
  "noise e \<longleftrightarrow> ev_sigs e = [] \<and> (ev_res e = Inl ENOENT \<or> ev_res e = Inl EINTR)"

definition message :: "nat \<Rightarrow> read_event \<Rightarrow> cbuf \<Rightarrow> bool" where
  "message n e m \<longleftrightarrow> ev_sigs e = [] \<and> ev_res e = Inr m \<and> 40 \<le> length m \<and> length m \<le> n"

text \<open>The messages of a list of events.\<close>

inductive arrive :: "nat \<Rightarrow> read_event list \<Rightarrow> cbuf list \<Rightarrow> bool" for n where
  none: "arrive n [] []"
| noise: "noise e \<Longrightarrow> arrive n es ms \<Longrightarrow> arrive n (e # es) ms"
| message: "message n e m \<Longrightarrow> arrive n es ms \<Longrightarrow> arrive n (e # es) (m # ms)"

inductive_cases arrive_NilE: "arrive n [] ms"
inductive_cases arrive_ConsE: "arrive n (e # es) ms"

text \<open>The event that ends the loop, and what the loop makes of it: the file system was unmounted, a signal asked for the end, or the read failed.\<close>

definition last_event :: "nat \<Rightarrow> 'd sworld \<Rightarrow> read_event \<Rightarrow> int \<Rightarrow> bool" where
  "last_event se w e r \<longleftrightarrow>
     r = 0 \<and> ev_sigs e = [] \<and> ev_res e = Inl ENODEV \<or>
     r = 0 \<and> (\<exists>n. ev_sigs e = [n] \<and> sig_handlers w n = Exit_handler) \<and> fuse_instance w = Some se \<or>
     r = - 1 \<and> ev_sigs e = [] \<and> (\<exists>err. ev_res e = Inl err \<and> err > 0 \<and> err \<notin> {ENOENT, ENODEV, EINTR}) \<or>
     r = - 1 \<and> ev_sigs e = [] \<and> (\<exists>buf. ev_res e = Inr buf \<and> length buf < 40)"

subsection \<open>The loop of a plain session\<close>

text \<open>The messages worked off in order, up to the one at which the end is asked for.\<close>

fun serve :: "'d fuse_session_ops \<Rightarrow> nat \<Rightarrow> cbuf list \<Rightarrow> 'd \<Rightarrow> ('d \<times> bool) option" where
  "serve ops ch [] d = Some (d, False)"
| "serve ops ch (m # ms) d = do { (d, quit) \<leftarrow> sop_process ops m ch d; if quit then Some (d, True) else serve ops ch ms d }"

definition serving :: "'d fuse_session_ops \<Rightarrow> nat \<Rightarrow> nat \<Rightarrow> int \<Rightarrow> nat \<Rightarrow> 'd \<Rightarrow> bool \<Rightarrow> 'd sworld \<Rightarrow> bool" where
  "serving ops se ch fd n d x w \<longleftrightarrow>
     sessions w se = Some \<lparr>se_op = ops, se_data = d, se_exited = x, se_ch = Some ch\<rparr> \<and>
     (\<exists>c. chans w ch = Some c \<and> cop_receive (ch_op c) = Kern_fun \<and> ch_se c = Some se \<and> ch_fd c = fd \<and> ch_bufsize c = n)"

text \<open>A session whose end is its flag.\<close>

locale plain_session =
  fixes ops :: "'d fuse_session_ops"
  assumes no_exit: "sop_exit ops = None" and no_exited: "sop_exited ops = None"
begin

lemma serving_exited: "serving ops se ch fd n d x w \<Longrightarrow> fuse_session_exited se w = Some x"
  by (simp add: serving_def fuse_session_exited_def no_exited)

lemma serving_exit:
  assumes "serving ops se ch fd n d x w"
  obtains w' where "fuse_session_exit se w = Some w'" "serving ops se ch fd n d True w'" "reads w' = reads w"
    "sig_handlers w' = sig_handlers w" "fuse_instance w' = fuse_instance w"
  using assms by (simp add: serving_def fuse_session_exit_def no_exit set_session_def)

lemma serving_reset:
  assumes "serving ops se ch fd n d x w"
  obtains w' where "fuse_session_reset se w = Some w'" "serving ops se ch fd n d False w'" "reads w' = reads w"
  using assms by (simp add: serving_def fuse_session_reset_def no_exit set_session_def)

lemma serving_process:
  assumes "serving ops se ch fd n d x w" "sop_process ops m ch d = Some (d', q)"
  obtains w' where "fuse_session_process se m ch w = Some w'" "serving ops se ch fd n d' (x \<or> q) w'" "reads w' = reads w"
    "sig_handlers w' = sig_handlers w" "fuse_instance w' = fuse_instance w"
  using assms by (cases q) (simp_all add: serving_def fuse_session_process_def fuse_session_exit_def no_exit set_session_def)

lemma serving_reads [simp]: "serving ops se ch fd n d x (w\<lparr>reads := r\<rparr>) = serving ops se ch fd n d x w"
  by (simp add: serving_def)

lemma recv_kern:
  assumes "serving ops se ch fd n d x w" "reads w fd = es"
  shows "fuse_chan_recv own ch n w = map_option (\<lambda>(res, buf, w). (res, buf, ch, w)) (kern_reads se fd n es w)"
  using assms by (auto simp: fuse_chan_recv_def fuse_kern_chan_receive_def serving_def map_option_case split: option.splits)

text \<open>One round of the loop.\<close>

lemma loop_noise:
  assumes s: "serving ops se ch fd n d False w" and e: "noise e"
  shows "\<exists>res'. session_loop own se ch n res (w\<lparr>reads := (reads w)(fd := e # es)\<rparr>) =
    session_loop own se ch n res' (w\<lparr>reads := (reads w)(fd := es)\<rparr>)"
proof -
  let ?w = "w\<lparr>reads := (reads w)(fd := e # es)\<rparr>" and ?w' = "w\<lparr>reads := (reads w)(fd := es)\<rparr>"
  have sv: "serving ops se ch fd n d False ?w" "serving ops se ch fd n d False ?w'" using s by simp_all
  note x = serving_exited [OF sv(1)] serving_exited [OF sv(2)]
  have kr: "fuse_chan_recv own ch n ?w = map_option (\<lambda>(res, buf, w). (res, buf, ch, w)) (kern_reads se fd n (e # es) ?w)"
    "fuse_chan_recv own ch n ?w' = map_option (\<lambda>(res, buf, w). (res, buf, ch, w)) (kern_reads se fd n es ?w')"
    using recv_kern [OF sv(1)] recv_kern [OF sv(2)] by simp_all
  show ?thesis
  proof (cases "ev_res e = Inl ENOENT")
    case True
    then have "fuse_chan_recv own ch n ?w = fuse_chan_recv own ch n ?w'" using e kr x(2) by (simp add: noise_def)
    then show ?thesis using x by (subst (1 2) session_loop.simps) (simp add: exI)
  next
    case False
    then have "fuse_chan_recv own ch n ?w = Some (- EINTR, [], ch, ?w')" using e kr x(2) by (simp add: noise_def)
    then show ?thesis using x by (intro exI [of _ "- EINTR"], subst session_loop.simps) simp
  qed
qed

lemma loop_message:
  assumes s: "serving ops se ch fd n d False w" and e: "message n e m" and p: "sop_process ops m ch d = Some (d', q)"
  obtains w' res' where "session_loop own se ch n res (w\<lparr>reads := (reads w)(fd := e # es)\<rparr>) = session_loop own se ch n res' w'" "res' > 0"
    "serving ops se ch fd n d' q w'" "reads w' fd = es" "sig_handlers w' = sig_handlers w" "fuse_instance w' = fuse_instance w"
proof -
  let ?w = "w\<lparr>reads := (reads w)(fd := e # es)\<rparr>" and ?w' = "w\<lparr>reads := (reads w)(fd := es)\<rparr>"
  have sv: "serving ops se ch fd n d False ?w" "serving ops se ch fd n d False ?w'" using s by simp_all
  obtain w' where w': "fuse_session_process se m ch ?w' = Some w'" "serving ops se ch fd n d' q w'" "reads w' fd = es"
    "sig_handlers w' = sig_handlers w" "fuse_instance w' = fuse_instance w"
    using serving_process [OF sv(2) p] by (metis (mono_tags, lifting) fun_upd_same sworld.select_convs(4,7,8) sworld.surjective sworld.update_convs(4))
  have "fuse_chan_recv own ch n ?w = Some (int (length m), m, ch, ?w')"
    using recv_kern [OF sv(1), of "e # es"] e serving_exited [OF sv(2)] by (simp add: message_def)
  then have "session_loop own se ch n res ?w = session_loop own se ch n (int (length m)) w'"
    using serving_exited [OF sv(1)] w'(1) e by (subst session_loop.simps) (auto simp: message_def)
  moreover have "int (length m) > 0" using e by (auto simp: message_def)
  ultimately show ?thesis using that w' by blast
qed

lemma loop_end:
  assumes s: "serving ops se ch fd n d False w" and e: "last_event se w e r" and n: "40 \<le> n"
  obtains w' res' where "session_loop own se ch n res (w\<lparr>reads := (reads w)(fd := e # es)\<rparr>) = Some (res', w')" "(if res' < 0 then - 1 else 0) = r"
    "\<exists>x. serving ops se ch fd n d x w'" "reads w' fd = es"
proof -
  let ?w = "w\<lparr>reads := (reads w)(fd := e # es)\<rparr>" and ?w' = "w\<lparr>reads := (reads w)(fd := es)\<rparr>"
  have sv: "serving ops se ch fd n d False ?w" "serving ops se ch fd n d False ?w'" using s by simp_all
  obtain w' where w': "fuse_session_exit se ?w' = Some w'" "serving ops se ch fd n d True w'" "reads w' = reads ?w'"
    using serving_exit [OF sv(2)] by metis
  note x = serving_exited [OF sv(2)] serving_exited [OF w'(2)]
  have kr: "fuse_chan_recv own ch n ?w = map_option (\<lambda>(res, buf, w). (res, buf, ch, w)) (kern_reads se fd n (e # es) ?w)"
    by (rule recv_kern [OF sv(1)]) simp
  have "\<exists>res' buf w''. fuse_chan_recv own ch n ?w = Some (res', buf, ch, w'') \<and> res' \<le> 0 \<and> res' \<noteq> - EINTR \<and> (if res' < 0 then - 1 else 0) = r \<and>
      (\<exists>x. serving ops se ch fd n d x w'') \<and> reads w'' fd = es"
    using e unfolding last_event_def
  proof (elim disjE conjE exE, goal_cases)
    case 1
    then show ?case by (intro exI [of _ 0] exI [of _ "[]"] exI [of _ w']) (use kr x w' in auto)
  next
    case (2 k)
    then show ?case by (intro exI [of _ 0] exI [of _ "[]"] exI [of _ w']) (use kr x w' in \<open>auto simp: deliver_def exit_handler_def\<close>)
  next
    case (3 err)
    then show ?case by (intro exI [of _ "- err"] exI [of _ "[]"] exI [of _ ?w']) (use kr x s in auto)
  next
    case (4 buf)
    then show ?case by (intro exI [of _ "- EIO"] exI [of _ "buf"] exI [of _ ?w']) (use kr x s n in auto)
  qed
  then obtain res' buf w'' where r: "fuse_chan_recv own ch n ?w = Some (res', buf, ch, w'')" "res' \<le> 0" "res' \<noteq> - EINTR"
    "(if res' < 0 then - 1 else 0) = r" "\<exists>x. serving ops se ch fd n d x w''" "reads w'' fd = es" by blast
  then have "session_loop own se ch n res ?w = Some (res', w'')"
    using serving_exited [OF sv(1)] by (subst session_loop.simps) simp
  then show ?thesis using that r by blast
qed

lemma loop_serves:
  assumes "arrive n es ms" "serving ops se ch fd n d False w" "reads w fd = es @ e # rest" "last_event se w e r" "40 \<le> n"
    and "serve ops ch ms d = Some (d', q)"
  shows "\<exists>res' w'. session_loop own se ch n res w = Some (res', w') \<and> (if res' < 0 then - 1 else 0) = (if q then 0 else r) \<and>
     (\<exists>x. serving ops se ch fd n d' x w') \<and> (\<not> q \<longrightarrow> reads w' fd = rest)"
  using assms
proof (induction arbitrary: d w res rule: arrive.induct)
  case none
  have "w = w\<lparr>reads := (reads w)(fd := e # rest)\<rparr>" using none(2) by (auto simp: fun_upd_idem)
  then show ?case using none loop_end [OF none(1,3,4), of own res rest] by (metis (no_types, lifting) Pair_inject option.inject serve.simps(1))
next
  case (noise e1 es ms)
  let ?w = "w\<lparr>reads := (reads w)(fd := es @ e # rest)\<rparr>"
  have w: "w = w\<lparr>reads := (reads w)(fd := e1 # es @ e # rest)\<rparr>" using noise.prems(2) by (auto simp: fun_upd_idem)
  obtain res' where "session_loop own se ch n res w = session_loop own se ch n res' ?w"
    using loop_noise [OF noise.prems(1) noise.hyps(1), of own res "es @ e # rest"] w by auto
  then show ?case using noise.IH [of d ?w res'] noise.prems by (simp add: last_event_def)
next
  case (message e1 m es ms)
  have w: "w = w\<lparr>reads := (reads w)(fd := e1 # es @ e # rest)\<rparr>" using message.prems(2) by (auto simp: fun_upd_idem)
  obtain d1 q1 where p: "sop_process ops m ch d = Some (d1, q1)" "(if q1 then Some (d1, True) else serve ops ch ms d1) = Some (d', q)"
    using message.prems(5) by (auto simp: bind_eq_Some_conv)
  obtain w1 res1 where l: "session_loop own se ch n res w = session_loop own se ch n res1 w1" "res1 > 0"
    "serving ops se ch fd n d1 q1 w1" "reads w1 fd = es @ e # rest" "sig_handlers w1 = sig_handlers w" "fuse_instance w1 = fuse_instance w"
    using loop_message [OF message.prems(1) message.hyps(1) p(1), of own res "es @ e # rest"] w by metis
  show ?case
  proof (cases q1)
    case True
    then have "session_loop own se ch n res1 w1 = Some (res1, w1)" using serving_exited [OF l(3)] by (subst session_loop.simps) simp
    then show ?thesis using l p True by auto
  next
    case False
    then have "serving ops se ch fd n d1 False w1" "last_event se w1 e r" "serve ops ch ms d1 = Some (d', q)"
      using l message.prems(3) p by (simp_all add: last_event_def)
    then show ?thesis using message.IH [of d1 w1 res1] l message.prems(4) by simp
  qed
qed

lemma session_serves:
  assumes "arrive n es ms" "serving ops se ch fd n d False w" "reads w fd = es @ e # rest" "last_event se w e r" "40 \<le> n"
    and "serve ops ch ms d = Some (d', q)" "fst (alloc (sw_mem w))"
  shows "\<exists>w'. fuse_session_loop own se w = Some (if q then 0 else r, w') \<and> serving ops se ch fd n d' False w' \<and> (\<not> q \<longrightarrow> reads w' fd = rest)"
proof -
  let ?w = "w\<lparr>sw_mem := snd (alloc (sw_mem w))\<rparr>"
  have sv: "serving ops se ch fd n d False ?w" using assms(2) by (simp add: serving_def)
  obtain res' w' x where l: "session_loop own se ch n 0 ?w = Some (res', w')" "(if res' < 0 then - 1 else 0) = (if q then 0 else r)"
    "serving ops se ch fd n d' x w'" "\<not> q \<longrightarrow> reads w' fd = rest"
    using loop_serves [OF assms(1) sv, of e rest r d' q own 0] assms by (auto simp: last_event_def)
  obtain w'' where "fuse_session_reset se w' = Some w''" "serving ops se ch fd n d' False w''" "reads w'' = reads w'"
    using serving_reset [OF l(3)] by metis
  then show ?thesis using assms(2,7) l
    by (auto simp: fuse_session_loop_def fuse_session_next_chan_def fuse_chan_bufsize_def serving_def split: prod.splits)
qed

end

interpretation ll: plain_session "ll_session_ops ops quits"
  by unfold_locales (simp_all add: ll_session_ops_def)

text \<open>
  The loop of a session of the low-level library works off every message that arrives on the kernel's device, in the order of
  arrival and once, whatever interrupted reads come between, up to the message at which the file system asks for
  the end. When the file system is unmounted or a signal asks for the end the loop returns 0, when a read fails or is too short it returns -1, and
  the session can be used again.
\<close>

theorem session_serves_messages:
  assumes "arrive n es ms" "serving (ll_session_ops ops quits) se ch fd n f False w" "reads w fd = es @ e # rest" "last_event se w e r"
    and "40 \<le> n" "fst (alloc (sw_mem w))" "serve (ll_session_ops ops quits) ch ms f = Some (f', q)"
  shows "\<exists>w'. fuse_session_loop own se w = Some (if q then 0 else r, w') \<and> fuse_session_data se w' = Some f' \<and>
    fuse_session_exited se w' = Some False \<and> (\<not> q \<longrightarrow> reads w' fd = rest)"
proof -
  obtain w' where w': "fuse_session_loop own se w = Some (if q then 0 else r, w')" "serving (ll_session_ops ops quits) se ch fd n f' False w'"
    "\<not> q \<longrightarrow> reads w' fd = rest"
    using ll.session_serves [OF assms(1-5,7,6)] by blast
  then show ?thesis using ll.serving_exited [OF w'(2)] by (auto simp: fuse_session_data_def serving_def)
qed

subsection \<open>The session of the high-level library\<close>

lemma serve_states:
  assumes "serve (ll_session_ops ops quits) ch ms f = Some (f', q)"
  shows "\<exists>fs. fs \<noteq> [] \<and> fs ! 0 = f \<and> last fs = f' \<and> length fs \<le> Suc (length ms) \<and> (\<not> q \<longrightarrow> length fs = Suc (length ms)) \<and>
    (\<forall>i. Suc i < length fs \<longrightarrow> fuse_ll_process ops (ms ! i) ch (fs ! i) = Some (fs ! Suc i))"
  using assms
proof (induction ms arbitrary: f)
  case Nil
  then show ?case by (intro exI [of _ "[f]"]) auto
next
  case (Cons m ms)
  obtain f1 where f1: "fuse_ll_process ops m ch f = Some f1" "if quits f1 then f1 = f' \<and> q else serve (ll_session_ops ops quits) ch ms f1 = Some (f', q)"
    using Cons.prems by (auto simp: ll_session_ops_def bind_eq_Some_conv split: if_splits)
  show ?case
  proof (cases "quits f1")
    case True
    then show ?thesis using f1 by (intro exI [of _ "[f, f1]"]) auto
  next
    case False
    then obtain fs where fs: "fs \<noteq> []" "fs ! 0 = f1" "last fs = f'" "length fs \<le> Suc (length ms)" "\<not> q \<longrightarrow> length fs = Suc (length ms)"
      "\<forall>i. Suc i < length fs \<longrightarrow> fuse_ll_process ops (ms ! i) ch (fs ! i) = Some (fs ! Suc i)"
      using Cons.IH f1(2) by auto
    show ?thesis
    proof (intro exI [of _ "f # fs"] conjI allI impI)
      fix i
      assume "Suc i < length (f # fs)"
      then show "fuse_ll_process ops ((m # ms) ! i) ch ((f # fs) ! i) = Some ((f # fs) ! Suc i)"
        using f1(1) fs by (cases i) auto
    qed (use fs in auto)
  qed
qed

lemma lib_reach_states:
  assumes "lib_reach (fs ! 0)" "\<forall>i. Suc i < length fs \<longrightarrow> fuse_ll_process fuse_path_ops (ms ! i) ch (fs ! i) = Some (fs ! Suc i)" "i < length fs"
  shows "lib_reach (fs ! i)"
  using assms by (induction i) (auto intro: lib_reach.message)

text \<open>
  C6: a session of the high-level library answers every message. When the loop has ended, there is for every message that was worked off,
  in order, exactly one answer, with the identifier of the message and on the channel it came from (nothing for an accepted FORGET), after at most one
  answer to an old INTERRUPT, whatever the file system below does; no request is left.
\<close>

theorem lib_session_answers:
  assumes "lib_reach f" "arrive n es ms" "serving (ll_session_ops fuse_path_ops quits) se ch fd n f False w" "reads w fd = es @ e # rest" "last_event se w e r"
    and "40 \<le> n" "fst (alloc (sw_mem w))" "serve (ll_session_ops fuse_path_ops quits) ch ms f = Some (f', q)"
  shows "\<exists>w' fs. fuse_session_loop own se w = Some (if q then 0 else r, w') \<and> fuse_session_data se w' = Some f' \<and> req_list f' = [] \<and>
    fs \<noteq> [] \<and> fs ! 0 = f \<and> last fs = f' \<and> (\<not> q \<longrightarrow> length fs = Suc (length ms)) \<and>
    (\<forall>i h. Suc i < length fs \<longrightarrow> header_of (ms ! i) = Some h \<longrightarrow> fst (alloc (ll_mem (fs ! i))) \<longrightarrow> unat (inh_opcode h) \<noteq> FUSE_INTERRUPT \<longrightarrow>
      (\<exists>pre msg. sent (fs ! Suc i) = sent (fs ! i) @ pre @ [(ch, msg)] \<and> length pre \<le> 1 \<and> (interrupts (fs ! i) = [] \<longrightarrow> pre = []) \<and>
         (if unat (inh_opcode h) = 2 \<and> ll_reject (fs ! i) 2 (inh_uid h) = None then msg = [] else get64 8 msg = Some (inh_unique h))))"
proof -
  obtain w' where w': "fuse_session_loop own se w = Some (if q then 0 else r, w')" "serving (ll_session_ops fuse_path_ops quits) se ch fd n f' False w'"
    using ll.session_serves [OF assms(2-6,8,7)] by blast
  have d: "fuse_session_data se w' = Some f'" using w'(2) by (simp add: fuse_session_data_def serving_def)
  obtain fs where fs: "fs \<noteq> []" "fs ! 0 = f" "last fs = f'" "\<not> q \<longrightarrow> length fs = Suc (length ms)"
    "\<forall>i. Suc i < length fs \<longrightarrow> fuse_ll_process fuse_path_ops (ms ! i) ch (fs ! i) = Some (fs ! Suc i)"
    using serve_states [OF assms(8)] by blast
  have reach: "i < length fs \<Longrightarrow> lib_reach (fs ! i)" for i using lib_reach_states assms(1) fs(2,5) by blast
  have idle: "req_list f' = []" using lib_reach_idle reach [of "length fs - 1"] fs(1,3) by (simp add: last_conv_nth)
  have "\<exists>pre msg. sent (fs ! Suc i) = sent (fs ! i) @ pre @ [(ch, msg)] \<and> length pre \<le> 1 \<and> (interrupts (fs ! i) = [] \<longrightarrow> pre = []) \<and>
      (if unat (inh_opcode h) = 2 \<and> ll_reject (fs ! i) 2 (inh_uid h) = None then msg = [] else get64 8 msg = Some (inh_unique h))"
    if "Suc i < length fs" "header_of (ms ! i) = Some h" "fst (alloc (ll_mem (fs ! i)))" "unat (inh_opcode h) \<noteq> FUSE_INTERRUPT" for i h
    using process_sends [OF lib_reach_inv lib_reach_idle _ that(2-4)] reach [of i] fs(5) that(1) by (metis Suc_lessD)
  then show ?thesis using w'(1) d fs idle by blast
qed

subsection \<open>Signals\<close>

text \<open>
  The handlers for the end of the session are never taken away: \<open>fuse_remove_signal_handlers\<close> sets a handler only where the default one is,
  so that the handlers it finds stay. After a session is over, SIGHUP, SIGINT and SIGTERM still go to the handler of the library, which does nothing.
\<close>

theorem handlers_stay:
  assumes "\<And>n. n \<in> {SIGHUP, SIGINT, SIGTERM, SIGPIPE} \<Longrightarrow> known n \<and> sig_handlers w n = Sig_dfl"
  shows "\<exists>w1 w2. fuse_set_signal_handlers known se w = (0, w1) \<and> fuse_remove_signal_handlers known se w1 = w2 \<and> fuse_instance w2 = None \<and>
    (\<forall>n\<in>{SIGHUP, SIGINT, SIGTERM}. sig_handlers w2 n = Exit_handler \<and> deliver n w2 = Some w2) \<and> sig_handlers w2 SIGPIPE = Sig_ign"
  using assms by (simp add: fuse_set_signal_handlers_def fuse_remove_signal_handlers_def set_one_signal_handler_def deliver_def exit_handler_def)

subsection \<open>A session\<close>

definition own_none :: "'d own_chan" where
  "own_none = \<lparr>oc_receive = (\<lambda>_ _ _ _. None), oc_receive24 = (\<lambda>_ _ _ _. None), oc_destroy = (\<lambda>_ _ _. None)\<rparr>"

definition demo_world :: "(unit, unit) lib_ll sworld" where
  "demo_world = \<lparr>sessions = [7 \<mapsto> \<lparr>se_op = ll_session_ops fuse_path_ops (\<lambda>_. False), se_data = demo_lib_new, se_exited = False, se_ch = Some 0\<rparr>],
     chans = [0 \<mapsto> \<lparr>ch_op = \<lparr>cop_receive = Kern_fun, cop_send = Kern_fun, cop_destroy = Some Kern_fun\<rparr>, ch_se = Some 7, ch_fd = 3,
       ch_bufsize = 0x21000, ch_data = 0, ch_compat = 0\<rparr>], obj_brk = 9,
     reads = (\<lambda>fd. [\<lparr>ev_sigs = [], ev_res = Inl EINTR\<rparr>, \<lparr>ev_sigs = [], ev_res = Inr demo_init\<rparr>, \<lparr>ev_sigs = [], ev_res = Inl ENODEV\<rparr>]),
     closed = [], sw_mem = [], sig_handlers = (\<lambda>_. Sig_dfl), fuse_instance = None\<rparr>"

lemma demo_world_serves:
  "arrive 0x21000 [\<lparr>ev_sigs = [], ev_res = Inl EINTR\<rparr>, \<lparr>ev_sigs = [], ev_res = Inr demo_init\<rparr>] [demo_init]"
  "serving (ll_session_ops fuse_path_ops (\<lambda>_. False)) 7 0 3 0x21000 demo_lib_new False demo_world"
  "last_event 7 demo_world \<lparr>ev_sigs = [], ev_res = Inl ENODEV\<rparr> 0"
  "\<exists>f. serve (ll_session_ops fuse_path_ops (\<lambda>_. False)) 0 [demo_init] demo_lib_new = Some (f, False)"
proof -
  have "length demo_init = 56" by (simp add: demo_init_def)
  then show "arrive 0x21000 [\<lparr>ev_sigs = [], ev_res = Inl EINTR\<rparr>, \<lparr>ev_sigs = [], ev_res = Inr demo_init\<rparr>] [demo_init]"
    by (intro arrive.intros) (simp_all add: noise_def message_def)
  show "\<exists>f. serve (ll_session_ops fuse_path_ops (\<lambda>_. False)) 0 [demo_init] demo_lib_new = Some (f, False)"
    using demo_lib_ready by (auto simp: ll_session_ops_def)
qed (simp_all add: serving_def demo_world_def last_event_def)

theorem session_serves_messages_witness:
  "\<exists>f w'. serve (ll_session_ops fuse_path_ops (\<lambda>_. False)) 0 [demo_init] demo_lib_new = Some (f, False) \<and>
     fuse_session_loop own_none 7 demo_world = Some (0, w') \<and> fuse_session_data 7 w' = Some f \<and> reads w' 3 = []"
proof -
  obtain f where f: "serve (ll_session_ops fuse_path_ops (\<lambda>_. False)) 0 [demo_init] demo_lib_new = Some (f, False)" using demo_world_serves(4) by blast
  then show ?thesis
    using session_serves_messages [OF demo_world_serves(1,2) _ demo_world_serves(3) _ _ f, of "[]" own_none] by (auto simp: demo_world_def)
qed

theorem lib_session_answers_witness:
  "\<exists>f w' msg. fuse_session_loop own_none 7 demo_world = Some (0, w') \<and> fuse_session_data 7 w' = Some f \<and> sent f = [(0, msg)] \<and> get64 8 msg = Some 1"
proof -
  obtain f where f: "serve (ll_session_ops fuse_path_ops (\<lambda>_. False)) 0 [demo_init] demo_lib_new = Some (f, False)" using demo_world_serves(4) by blast
  have h: "header_of demo_init = Some (demo_header 26 1)" by (simp add: demo_init_def)
  have m: "fst (alloc (ll_mem demo_lib_new))" "interrupts demo_lib_new = []" "sent demo_lib_new = []" by (simp_all add: demo_lib_new_def)
  obtain w' fs where r: "fuse_session_loop own_none 7 demo_world = Some (0, w')" "fuse_session_data 7 w' = Some f"
    "fs \<noteq> []" "fs ! 0 = demo_lib_new" "last fs = f" "length fs = 2"
    "\<forall>i h. Suc i < length fs \<longrightarrow> header_of ([demo_init] ! i) = Some h \<longrightarrow> fst (alloc (ll_mem (fs ! i))) \<longrightarrow> unat (inh_opcode h) \<noteq> FUSE_INTERRUPT \<longrightarrow>
      (\<exists>pre msg. sent (fs ! Suc i) = sent (fs ! i) @ pre @ [(0, msg)] \<and> length pre \<le> 1 \<and> (interrupts (fs ! i) = [] \<longrightarrow> pre = []) \<and>
         (if unat (inh_opcode h) = 2 \<and> ll_reject (fs ! i) 2 (inh_uid h) = None then msg = [] else get64 8 msg = Some (inh_unique h)))"
    using lib_session_answers [OF demo_lib_reach demo_world_serves(1,2) _ demo_world_serves(3) _ _ f, of "[]" own_none] by (auto simp: demo_world_def)
  have "fs ! Suc 0 = f" using r(3,5,6) by (simp add: last_conv_nth)
  then show ?thesis using r(1,2) spec [OF r(7), of 0] h m r(4,6) by (auto simp: demo_header_def)
qed

theorem handlers_stay_witness:
  "\<exists>w1 w2. fuse_set_signal_handlers (\<lambda>_. True) 7 demo_world = (0, w1) \<and> fuse_remove_signal_handlers (\<lambda>_. True) 7 w1 = w2 \<and>
     sig_handlers w2 SIGINT = Exit_handler \<and> deliver SIGINT w2 = Some w2"
  using handlers_stay [of "\<lambda>_. True" demo_world 7] by (auto simp: demo_world_def)

end
