(* ===== verification/Fuse_Loop_MT.thy ===== *)
theory Fuse_Loop_MT
  imports Fuse_Session "HOL-Library.Multiset"
begin

text \<open>
  The loop with several threads (\<open>fuse_loop_mt.c\<close>) as a step relation. The threads are the main one and the workers; what a worker does
  under the lock is one step, and so is everything else that other threads can see. What is received, when threads run,
  whether a thread can be made and when a signal arrives is left open.
\<close>

subsection \<open>Workers\<close>

text \<open>Where a worker is: at the head of its loop; waiting for a message; with a message, before the lock; working it off (a FORGET or not);
  done with it, before the lock; about to free itself; out of the loop; waiting to be cancelled; finished.\<close>

datatype wpc = Top | Recv | Got cbuf | Proc cbuf bool | Done bool | Freeing | Post | Paused | Dead

text \<open>The main thread: waiting for the end; at a worker it is about to cancel (0 is the head of the list); waiting for a worker to finish;
  returned; or behind the use of a worker that was freed.\<close>

datatype mpc = M_wait | M_cancel nat | M_join | M_done | M_crash

record fuse_mt =
  numworker :: int
  numavail :: int
  nxt :: "nat \<Rightarrow> nat"
  prv :: "nat \<Rightarrow> nat"
  pcs :: "nat \<Rightarrow> wpc option"  \<comment> \<open>\<open>None\<close>: no such worker\<close>
  finish :: nat
  mt_exit :: bool
  mt_error :: int
  exited :: bool
  cancelled :: "nat set"
  main_pc :: mpc
  w_brk :: nat
  create_failed :: bool  \<comment> \<open>whether a thread could not be made, for the theorems\<close>
  received :: "cbuf list"
  processed :: "cbuf list"

definition goto :: "nat \<Rightarrow> wpc option \<Rightarrow> fuse_mt \<Rightarrow> fuse_mt" where
  "goto w p s = s\<lparr>pcs := (pcs s)(w := p)\<rparr>"

definition list_add_worker :: "nat \<Rightarrow> nat \<Rightarrow> fuse_mt \<Rightarrow> fuse_mt" where
  "list_add_worker w next' s =
     (let prev = prv s next';
          s = s\<lparr>nxt := (nxt s)(w := next'), prv := (prv s)(w := prev)\<rparr>;
          s = s\<lparr>nxt := (nxt s)(prev := w)\<rparr>
      in s\<lparr>prv := (prv s)(next' := w)\<rparr>)"

definition list_del_worker :: "nat \<Rightarrow> fuse_mt \<Rightarrow> fuse_mt" where
  "list_del_worker w s =
     (let prev = prv s w; next' = nxt s w;
          s = s\<lparr>nxt := (nxt s)(prev := next')\<rparr>
      in s\<lparr>prv := (prv s)(next' := prev)\<rparr>)"

text \<open>\<open>ok\<close>: memory and thread are there.\<close>

definition fuse_start_thread :: "bool \<Rightarrow> fuse_mt \<Rightarrow> int \<times> fuse_mt" where
  "fuse_start_thread ok s =
     (if \<not> ok then (- 1, s\<lparr>create_failed := True\<rparr>)
      else
        (let w = w_brk s;
             s = list_add_worker w 0 (goto w (Some Top) (s\<lparr>w_brk := Suc w\<rparr>))
         in (0, s\<lparr>numavail := numavail s + 1, numworker := numworker s + 1\<rparr>)))"

subsection \<open>The steps of a worker\<close>

definition isforget :: "cbuf \<Rightarrow> bool" where
  "isforget m \<longleftrightarrow> inh_opcode_at m = Some 2"

text \<open>The part under the lock before a message is worked off, and the one behind.\<close>

definition take_message :: "bool \<Rightarrow> nat \<Rightarrow> cbuf \<Rightarrow> fuse_mt \<Rightarrow> fuse_mt" where
  "take_message ok w m s =
     (if mt_exit s then goto w (Some Dead) s
      else
        (let s = (if \<not> isforget m then s\<lparr>numavail := numavail s - 1\<rparr> else s);
             s = goto w (Some (Proc m (isforget m))) s
         in if numavail s = 0 then snd (fuse_start_thread ok s) else s))"

definition finish_message :: "nat \<Rightarrow> bool \<Rightarrow> fuse_mt \<Rightarrow> fuse_mt" where
  "finish_message w forget s =
     (let s = (if \<not> forget then s\<lparr>numavail := numavail s + 1\<rparr> else s)
      in if numavail s > 10
         then if mt_exit s then goto w (Some Dead) s
              else
                (let s = list_del_worker w s
                 in goto w (Some Freeing) (s\<lparr>numavail := numavail s - 1, numworker := numworker s - 1\<rparr>))
         else goto w (Some Top) s)"

inductive worker_step :: "nat \<Rightarrow> fuse_mt \<Rightarrow> fuse_mt \<Rightarrow> bool" for w where
  leave: "pcs s w = Some Top \<Longrightarrow> exited s \<Longrightarrow> worker_step w s (goto w (Some Post) s)"
| wait: "pcs s w = Some Top \<Longrightarrow> \<not> exited s \<Longrightarrow> worker_step w s (goto w (Some Recv) s)"
| interrupted: "pcs s w = Some Recv \<Longrightarrow> worker_step w s (goto w (Some Top) s)"
| ended: "pcs s w = Some Recv \<Longrightarrow> worker_step w s (goto w (Some Post) (s\<lparr>exited := exited s \<or> x\<rparr>))"
| failed: "pcs s w = Some Recv \<Longrightarrow> worker_step w s (goto w (Some Post) (s\<lparr>exited := True, mt_error := - 1\<rparr>))"
| receive: "pcs s w = Some Recv \<Longrightarrow> worker_step w s (goto w (Some (Got m)) (s\<lparr>received := received s @ [m]\<rparr>))"
| take: "pcs s w = Some (Got m) \<Longrightarrow> worker_step w s (take_message ok w m s)"
| process: "pcs s w = Some (Proc m f) \<Longrightarrow> worker_step w s (goto w (Some (Done f)) (s\<lparr>processed := processed s @ [m]\<rparr>))"
| finish: "pcs s w = Some (Done f) \<Longrightarrow> worker_step w s (finish_message w f s)"
| free: "pcs s w = Some Freeing \<Longrightarrow> worker_step w s (goto w None s)"
| post: "pcs s w = Some Post \<Longrightarrow> worker_step w s (goto w (Some Paused) (s\<lparr>finish := finish s + 1\<rparr>))"
| cancel: "w \<in> cancelled s \<Longrightarrow> pcs s w \<in> {Some Recv, Some Paused} \<Longrightarrow> worker_step w s (goto w (Some Dead) s)"

subsection \<open>The main thread\<close>

definition mt_init :: "nat \<Rightarrow> fuse_mt" where
  "mt_init start_at = \<lparr>numworker = 0, numavail = 0, nxt = (\<lambda>_. 0), prv = (\<lambda>_. 0), pcs = (\<lambda>_. None), finish = 0, mt_exit = False, mt_error = 0,
     exited = False, cancelled = {}, main_pc = M_wait, w_brk = start_at, create_failed = False, received = [], processed = []\<rparr>"

text \<open>The beginning: the result is the one of the first thread, and with -1 the loop returns it.\<close>

definition mt_start :: "bool \<Rightarrow> fuse_mt \<Rightarrow> int \<times> fuse_mt" where
  "mt_start ok s = (let (err, s) = fuse_start_thread ok s in (err, if err = 0 then s else s\<lparr>main_pc := M_done, exited := False\<rparr>))"

definition fuse_join_worker :: "nat \<Rightarrow> fuse_mt \<Rightarrow> fuse_mt" where
  "fuse_join_worker w s = goto w None (list_del_worker w s)"

inductive main_step :: "fuse_mt \<Rightarrow> fuse_mt \<Rightarrow> bool" where
  sem: "main_pc s = M_wait \<Longrightarrow> \<not> exited s \<Longrightarrow> finish s > 0 \<Longrightarrow> main_step s (s\<lparr>finish := finish s - 1\<rparr>)"
| wake: "main_pc s = M_wait \<Longrightarrow> exited s \<Longrightarrow> main_step s (s\<lparr>main_pc := M_cancel (nxt s 0)\<rparr>)"
| cancel: "main_pc s = M_cancel w \<Longrightarrow> w \<noteq> 0 \<Longrightarrow> pcs s w \<noteq> None \<Longrightarrow>
    main_step s (s\<lparr>cancelled := insert w (cancelled s), main_pc := M_cancel (nxt s w)\<rparr>)"
| crash: "main_pc s = M_cancel w \<Longrightarrow> w \<noteq> 0 \<Longrightarrow> pcs s w = None \<Longrightarrow> main_step s (s\<lparr>main_pc := M_crash\<rparr>)"
| set_exit: "main_pc s = M_cancel 0 \<Longrightarrow> main_step s (s\<lparr>mt_exit := True, main_pc := M_join\<rparr>)"
| join: "main_pc s = M_join \<Longrightarrow> nxt s 0 \<noteq> 0 \<Longrightarrow> pcs s (nxt s 0) = Some Dead \<Longrightarrow> main_step s (fuse_join_worker (nxt s 0) s)"
| finished: "main_pc s = M_join \<Longrightarrow> nxt s 0 = 0 \<Longrightarrow> main_step s (s\<lparr>main_pc := M_done, exited := False\<rparr>)"

inductive mt_step :: "fuse_mt \<Rightarrow> fuse_mt \<Rightarrow> bool" where
  worker: "worker_step w s s' \<Longrightarrow> mt_step s s'"
| main: "main_step s s' \<Longrightarrow> mt_step s s'"
| signal: "mt_step s (s\<lparr>exited := True\<rparr>)"

text \<open>What a loop can reach.\<close>

inductive mt_reach :: "fuse_mt \<Rightarrow> bool" where
  start: "0 < start_at \<Longrightarrow> mt_start ok (mt_init start_at) = (err, s) \<Longrightarrow> mt_reach s"
| step: "mt_reach s \<Longrightarrow> mt_step s s' \<Longrightarrow> mt_reach s'"

inductive_cases worker_stepE: "worker_step w s s'"
inductive_cases main_stepE: "main_step s s'"
inductive_cases mt_stepE: "mt_step s s'"


subsection \<open>The ring of workers\<close>

text \<open>The links make a ring through 0 and the workers of a list.\<close>

fun linked :: "(nat \<Rightarrow> nat) \<Rightarrow> (nat \<Rightarrow> nat) \<Rightarrow> nat list \<Rightarrow> bool" where
  "linked nx pv (a # b # vs) \<longleftrightarrow> nx a = b \<and> pv b = a \<and> linked nx pv (b # vs)"
| "linked nx pv _ \<longleftrightarrow> True"

definition ring :: "nat list \<Rightarrow> fuse_mt \<Rightarrow> bool" where
  "ring ws s \<longleftrightarrow> distinct (0 # ws) \<and> linked (nxt s) (prv s) (0 # ws @ [0])"

lemma linked_append: "linked nx pv (us @ a # vs) \<longleftrightarrow> linked nx pv (us @ [a]) \<and> linked nx pv (a # vs)"
proof (induction us)
  case (Cons u us)
  then show ?case by (cases us) auto
qed simp

lemma linked_upd_nxt: "a \<notin> set (butlast xs) \<Longrightarrow> linked (nx(a := b)) pv xs = linked nx pv xs"
  by (induction nx pv xs rule: linked.induct) (auto split: if_splits)

lemma linked_upd_prv: "b \<notin> set (tl xs) \<Longrightarrow> linked nx (pv(b := a)) xs = linked nx pv xs"
proof (induction nx pv xs rule: linked.induct)
  case (1 nx pv x y vs)
  then show ?case by (cases vs) auto
qed auto

lemma ring_add:
  assumes "ring ws s" "w \<notin> set ws" "w \<noteq> 0"
  shows "ring (ws @ [w]) (list_add_worker w 0 s)"
proof -
  obtain us p where us: "0 # ws = us @ [p]" by (metis append_butlast_last_id list.distinct(1))
  have l: "linked (nxt s) (prv s) (us @ [p, 0])" using assms(1) us unfolding ring_def by (metis append_Cons append_assoc append_Nil)
  then have prev: "prv s 0 = p" "linked (nxt s) (prv s) (us @ [p])" using linked_append [of _ _ us p "[0]"] by simp_all
  let ?n = "(nxt s)(w := 0, p := w)" and ?p = "(prv s)(w := p, 0 := w)"
  have d: "distinct (us @ [p])" "w \<notin> set (us @ [p])" using assms us unfolding ring_def by (metis, metis set_ConsD)
  have "0 \<notin> set (tl (us @ [p]))" using assms(1) unfolding us [symmetric] by (simp add: ring_def)
  moreover have "w \<notin> set (tl (us @ [p]))" "w \<notin> set (butlast (us @ [p]))" "p \<notin> set (butlast (us @ [p]))"
    using d by (auto dest: in_set_butlastD list.set_sel(2) [rotated])
  ultimately have "linked ?n ?p (us @ [p])" using prev(2) by (simp add: linked_upd_nxt linked_upd_prv)
  moreover have "linked ?n ?p [p, w, 0]" using d assms(3) by auto
  ultimately have "linked ?n ?p (us @ [p, w, 0])" using linked_append [of ?n ?p us p "[w, 0]"] by simp
  moreover have "us @ [p, w, 0] = 0 # (ws @ [w]) @ [0]" using us by (metis append_Cons append_assoc append_Nil)
  ultimately show ?thesis using assms unfolding ring_def by (simp add: list_add_worker_def Let_def prev(1))
qed

lemma ring_del:
  assumes "ring (us @ w # vs) s"
  shows "ring (us @ vs) (list_del_worker w s)"
proof -
  obtain as p where as: "0 # us = as @ [p]" by (metis append_butlast_last_id list.distinct(1))
  obtain q bs where bs: "vs @ [0] = q # bs" by (cases "vs @ [0]") auto
  have d: "distinct (0 # us @ w # vs)" using assms by (simp add: ring_def)
  have e: "0 # (us @ w # vs) @ [0] = as @ p # w # q # bs" using as bs by (metis append_Cons append_assoc append_Nil)
  have l: "linked (nxt s) (prv s) (as @ [p])" "nxt s p = w" "prv s w = p" "nxt s w = q" "prv s q = w" "linked (nxt s) (prv s) (q # bs)"
    using assms unfolding ring_def e linked_append [of _ _ as p "w # q # bs"] by simp_all
  let ?n = "(nxt s)(p := q)" and ?p = "(prv s)(q := p)"
  have "distinct (as @ [p])" unfolding as [symmetric] using d by simp
  moreover have "p \<in> set (0 # us)" unfolding as by simp
  ultimately have p: "p \<notin> set as" "p \<notin> set vs" using d by auto
  have q: "q \<notin> set (tl (as @ [p]))" "q \<notin> set bs"
  proof -
    have "tl (as @ [p]) = us" using as by (metis list.sel(3))
    moreover have "q \<in> set (vs @ [0])" using bs by simp
    ultimately show "q \<notin> set (tl (as @ [p]))" using d by auto
    have "distinct (vs @ [0])" using d by simp
    then show "q \<notin> set bs" unfolding bs by simp
  qed
  have "linked ?n ?p (as @ [p])" using l(1) p q by (simp add: linked_upd_nxt linked_upd_prv)
  moreover have "linked ?n ?p (q # bs)"
  proof -
    have "butlast (q # bs) = vs" using bs by (metis butlast_snoc)
    then show ?thesis using l(6) p(2) q(2) by (simp add: linked_upd_nxt linked_upd_prv)
  qed
  ultimately have "linked ?n ?p (as @ p # q # bs)" using linked_append [of ?n ?p as p "q # bs"] by simp
  moreover have "0 # (us @ vs) @ [0] = as @ p # q # bs" using as bs by (metis append_Cons append_assoc append_Nil)
  ultimately show ?thesis using d l unfolding ring_def by (simp add: list_del_worker_def Let_def)
qed

subsection \<open>Counts and messages\<close>

text \<open>How much a worker counts for \<open>numavail\<close>, and the messages it has.\<close>

definition avail_of :: "wpc option \<Rightarrow> int" where
  "avail_of p = (case p of Some (Proc m False) \<Rightarrow> 0 | Some (Done False) \<Rightarrow> 0 | _ \<Rightarrow> 1)"

definition held_by :: "wpc option \<Rightarrow> cbuf multiset" where
  "held_by p = (case p of Some (Got m) \<Rightarrow> {#m#} | Some (Proc m f) \<Rightarrow> {#m#} | _ \<Rightarrow> {#})"

lemma avail_of_simps [simp]:
  "avail_of (Some Top) = 1" "avail_of (Some Recv) = 1" "avail_of (Some (Got m)) = 1" "avail_of (Some (Proc m f)) = (if f then 1 else 0)"
  "avail_of (Some (Done f)) = (if f then 1 else 0)" "avail_of (Some Post) = 1" "avail_of (Some Paused) = 1" "avail_of (Some Dead) = 1"
  by (simp_all add: avail_of_def split: bool.splits)

lemma held_by_simps [simp]:
  "held_by (Some Top) = {#}" "held_by (Some Recv) = {#}" "held_by (Some (Got m)) = {#m#}" "held_by (Some (Proc m f)) = {#m#}"
  "held_by (Some (Done f)) = {#}" "held_by (Some Post) = {#}" "held_by (Some Paused) = {#}" "held_by (Some Dead) = {#}"
  by (simp_all add: held_by_def)

lemma avail_of_bounds: "0 \<le> avail_of p" "avail_of p \<le> 1"
  by (simp_all add: avail_of_def split: option.splits wpc.splits bool.splits)

lemma sum_frame: "w \<notin> set ws \<Longrightarrow> sum_list (map (\<lambda>v. g (if v = w then x else f v)) ws) = sum_list (map (\<lambda>v. g (f v)) ws)"
  by (induction ws) auto

lemma sum_list_upd:
  fixes g :: "'b \<Rightarrow> 'c :: comm_monoid_add"
  assumes "distinct ws" "w \<in> set ws"
  shows "sum_list (map (\<lambda>v. g ((f(w := x)) v)) ws) + g (f w) = sum_list (map (\<lambda>v. g (f v)) ws) + g x"
  using assms
proof (induction ws)
  case (Cons a ws)
  show ?case
  proof (cases "a = w")
    case True
    then show ?thesis using Cons.prems by (simp add: sum_frame ac_simps)
  next
    case False
    then show ?thesis using Cons by (simp add: ac_simps)
  qed
qed simp

definition mt_core :: "nat list \<Rightarrow> fuse_mt \<Rightarrow> bool" where
  "mt_core ws s \<longleftrightarrow> ring ws s \<and> (\<forall>w. w \<in> set ws \<longleftrightarrow> pcs s w \<notin> {None, Some Freeing}) \<and> (\<forall>w. w_brk s \<le> w \<longrightarrow> pcs s w = None) \<and> 0 < w_brk s \<and>
     numworker s = int (length ws) \<and> numavail s = sum_list (map (\<lambda>w. avail_of (pcs s w)) ws) \<and>
     mset (received s) = mset (processed s) + sum_list (map (\<lambda>w. held_by (pcs s w)) ws)"

lemma core_goto:
  assumes c: "mt_core ws s" "w \<in> set ws" and p: "p \<noteq> Freeing"
    and s': "nxt s' = nxt s" "prv s' = prv s" "pcs s' = (pcs s)(w := Some p)" "w_brk s' = w_brk s" "numworker s' = numworker s"
    and n: "numavail s' = numavail s + avail_of (Some p) - avail_of (pcs s w)"
    and m: "mset (received s') + mset (processed s) + held_by (pcs s w) = mset (received s) + mset (processed s') + held_by (Some p)"
  shows "mt_core ws s'"
proof -
  have d: "distinct ws" using c(1) by (simp add: mt_core_def ring_def)
  note a = sum_list_upd [OF d c(2), of avail_of "pcs s" "Some p"] and h = sum_list_upd [OF d c(2), of held_by "pcs s" "Some p"]
  have "mset (received s') + mset (processed s) + held_by (pcs s w) = mset (processed s') + mset (processed s) +
      (sum_list (map (\<lambda>w. held_by (pcs s w)) ws) + held_by (Some p))"
    using m c(1) by (simp add: mt_core_def ac_simps)
  then have "mset (received s') = mset (processed s') + sum_list (map (\<lambda>v. held_by (((pcs s)(w := Some p)) v)) ws)"
    unfolding h [symmetric] by simp
  moreover have "numavail s' = sum_list (map (\<lambda>v. avail_of (((pcs s)(w := Some p)) v)) ws)"
    using a n c(1) by (simp add: mt_core_def)
  moreover have "w < w_brk s" using c by (metis insertI1 mt_core_def not_le_imp_less)
  ultimately show ?thesis using c p s' unfolding mt_core_def ring_def by (auto simp: fun_upd_apply)
qed

lemma core_frame:
  assumes "nxt s' = nxt s" "prv s' = prv s" "pcs s' = pcs s" "w_brk s' = w_brk s" "numworker s' = numworker s" "numavail s' = numavail s"
    "received s' = received s" "processed s' = processed s"
  shows "mt_core ws s' = mt_core ws s"
  by (simp only: mt_core_def ring_def assms)

lemma core_go:
  assumes "mt_core ws s" "w \<in> set ws" "p \<noteq> Freeing" "nxt s' = nxt s" "prv s' = prv s" "pcs s' = pcs s" "w_brk s' = w_brk s" "numworker s' = numworker s"
    and "numavail s' = numavail s + avail_of (Some p) - avail_of (pcs s w)"
    and "mset (received s') + mset (processed s) + held_by (pcs s w) = mset (received s) + mset (processed s') + held_by (Some p)"
  shows "mt_core ws (goto w (Some p) s')"
  by (rule core_goto [OF assms(1-3)]) (simp_all add: goto_def assms)

lemma core_start:
  assumes c: "mt_core ws s"
  shows "mt_core (ws @ [w_brk s]) (snd (fuse_start_thread True s))"
proof -
  let ?w = "w_brk s" and ?s = "goto (w_brk s) (Some Top) (s\<lparr>w_brk := Suc (w_brk s)\<rparr>)"
  have "pcs s ?w = None" "?w \<noteq> 0" using c by (simp_all add: mt_core_def)
  then have new: "?w \<notin> set ws" "?w \<noteq> 0" using c unfolding mt_core_def by (metis insertI1, simp)
  have "ring ws s" using c by (simp add: mt_core_def)
  then have "ring ws ?s" by (simp add: ring_def goto_def)
  then have "ring (ws @ [?w]) (list_add_worker ?w 0 ?s)" using ring_add new by blast
  then show ?thesis using c new
    by (auto simp: mt_core_def fuse_start_thread_def Let_def list_add_worker_def goto_def ring_def sum_frame)
qed

lemma core_retire:
  assumes c: "mt_core ws s" "pcs s w = Some (Done f)"
  obtains us vs where "ws = us @ w # vs"
    "mt_core (us @ vs) (goto w (Some Freeing) ((list_del_worker w s)\<lparr>numavail := numavail s - avail_of (Some (Done f)), numworker := numworker s - 1\<rparr>))"
proof -
  have "w \<in> set ws" using c by (simp add: mt_core_def)
  then obtain us vs where ws: "ws = us @ w # vs" by (metis split_list)
  have "ring (us @ vs) (list_del_worker w s)" using ring_del c(1) ws by (simp add: mt_core_def)
  moreover have d: "distinct ws" using c(1) by (simp add: mt_core_def ring_def)
  ultimately have "mt_core (us @ vs) (goto w (Some Freeing) ((list_del_worker w s)\<lparr>numavail := numavail s - avail_of (Some (Done f)), numworker := numworker s - 1\<rparr>))"
    using c ws unfolding mt_core_def by (auto simp: list_del_worker_def Let_def goto_def ring_def sum_frame split: if_splits)
  then show ?thesis using that ws by blast
qed

lemma core_free:
  assumes "mt_core ws s" "pcs s w = Some Freeing"
  shows "mt_core ws (goto w None s)"
proof -
  have "w \<notin> set ws" using assms unfolding mt_core_def by auto
  then show ?thesis using assms unfolding mt_core_def ring_def by (auto simp: goto_def sum_frame)
qed

definition mt_inv :: "fuse_mt \<Rightarrow> bool" where
  "mt_inv s \<longleftrightarrow> mt_exit s \<or>
     main_pc s \<noteq> M_join \<and> (\<exists>ws. mt_core ws s \<and> numavail s \<le> 10 \<and> (numavail s = 0 \<longrightarrow> create_failed s))"

lemma inv_take:
  assumes c: "mt_core ws s" "numavail s \<le> 10" "numavail s = 0 \<longrightarrow> create_failed s" and s: "\<not> mt_exit s" "pcs s w = Some (Got m)"
  shows "\<exists>ws'. mt_core ws' (take_message ok w m s) \<and> numavail (take_message ok w m s) \<le> 10 \<and>
    (numavail (take_message ok w m s) = 0 \<longrightarrow> create_failed (take_message ok w m s))"
proof -
  let ?s = "goto w (Some (Proc m (isforget m))) (if \<not> isforget m then s\<lparr>numavail := numavail s - 1\<rparr> else s)"
  have "w \<in> set ws" using c(1) s(2) by (simp add: mt_core_def)
  then have core: "mt_core ws ?s" by (rule core_go [OF c(1)]) (use s in auto)
  have take_s: "take_message ok w m s = (if numavail ?s = 0 then snd (fuse_start_thread ok ?s) else ?s)"
    using s(1) by (simp add: take_message_def Let_def)
  have le: "numavail ?s \<le> 10" using c(2) by (simp add: goto_def)
  show ?thesis
  proof (cases "numavail ?s = 0")
    case zero: True
    show ?thesis
    proof (cases ok)
      case True
      have "numavail (snd (fuse_start_thread True ?s)) = 1" using zero by (simp add: fuse_start_thread_def Let_def list_add_worker_def goto_def)
      then show ?thesis using core_start [OF core] zero True take_s by auto
    next
      case False
      have "mt_core ws (snd (fuse_start_thread False ?s)) = mt_core ws ?s" by (rule core_frame) (simp_all add: fuse_start_thread_def)
      then show ?thesis using core zero False take_s by (auto simp: fuse_start_thread_def)
    qed
  next
    case False
    then show ?thesis using core le take_s by auto
  qed
qed

lemma inv_finish:
  assumes c: "mt_core ws s" "numavail s \<le> 10" "numavail s = 0 \<longrightarrow> create_failed s" and s: "\<not> mt_exit s" "pcs s w = Some (Done f)"
  shows "\<exists>ws'. mt_core ws' (finish_message w f s) \<and> numavail (finish_message w f s) \<le> 10 \<and>
    (numavail (finish_message w f s) = 0 \<longrightarrow> create_failed (finish_message w f s))"
proof -
  let ?n = "numavail s + (if f then 0 else 1)"
  have w: "w \<in> set ws" using c(1) s(2) by (simp add: mt_core_def)
  show ?thesis
  proof (cases "?n > 10")
    case True
    then have f: "\<not> f" "numavail s = 10" using c(2) by (auto split: if_splits)
    obtain us vs where r: "mt_core (us @ vs) (goto w (Some Freeing) ((list_del_worker w s)\<lparr>numavail := numavail s - avail_of (Some (Done f)), numworker := numworker s - 1\<rparr>))"
      using core_retire [OF c(1) s(2)] by blast
    have "finish_message w f s = goto w (Some Freeing) ((list_del_worker w s)\<lparr>numavail := 10, numworker := numworker s - 1\<rparr>)"
      using f s(1) by (simp add: finish_message_def Let_def list_del_worker_def)
    then show ?thesis using r f by (auto simp: goto_def)
  next
    case False
    then have e: "finish_message w f s = goto w (Some Top) (s\<lparr>numavail := ?n\<rparr>)" by (cases f) (simp_all add: finish_message_def Let_def)
    have "mt_core ws (finish_message w f s)" unfolding e
      by (rule core_go [OF c(1) w]) (use s(2) in auto)
    moreover have "0 \<le> numavail s" using c(1) avail_of_bounds(1) unfolding mt_core_def by (metis (mono_tags, lifting) in_set_conv_nth length_map nth_map sum_list_nonneg)
    ultimately show ?thesis using e False c(3) by (auto simp: goto_def)
  qed
qed

lemma worker_step_inv:
  assumes "worker_step w s s'" "mt_inv s"
  shows "mt_inv s'"
proof (cases "mt_exit s")
  case True
  have "mt_exit s'" using assms(1) True
    by cases (auto simp: goto_def take_message_def finish_message_def Let_def list_del_worker_def)
  then show ?thesis by (simp add: mt_inv_def)
next
  case False
  then obtain ws where c: "mt_core ws s" "numavail s \<le> 10" "numavail s = 0 \<longrightarrow> create_failed s" "main_pc s \<noteq> M_join"
    using assms(2) by (auto simp: mt_inv_def)
  have in_ws: "pcs s w = Some p \<Longrightarrow> p \<noteq> Freeing \<Longrightarrow> w \<in> set ws" for p using c(1) by (auto simp: mt_core_def)
  have go: "mt_inv (goto w (Some p) s1)" if "pcs s w = Some p0" "p0 \<noteq> Freeing" "p \<noteq> Freeing" "nxt s1 = nxt s" "prv s1 = prv s" "pcs s1 = pcs s" "w_brk s1 = w_brk s"
    "numworker s1 = numworker s" "numavail s1 = numavail s" "avail_of (Some p) = avail_of (Some p0)" "create_failed s1 = create_failed s" "main_pc s1 = main_pc s"
    "mset (received s1) + mset (processed s) + held_by (Some p0) = mset (received s) + mset (processed s1) + held_by (Some p)" for p0 p s1
  proof -
    have "mt_core ws (goto w (Some p) s1)" by (rule core_go [OF c(1) in_ws [OF that(1,2)]]) (simp_all add: that)
    then show ?thesis using that c by (auto simp: mt_inv_def goto_def)
  qed
  from assms(1) show ?thesis
  proof cases
    case (take m ok)
    have "main_pc s' = main_pc s" using take by (simp add: take_message_def goto_def Let_def fuse_start_thread_def list_add_worker_def)
    then show ?thesis using inv_take [OF c(1-3) False take(2), of ok] take(1) c(4) by (auto simp: mt_inv_def)
  next
    case (finish f)
    have "main_pc s' = main_pc s" using finish by (simp add: finish_message_def goto_def Let_def list_del_worker_def)
    then show ?thesis using inv_finish [OF c(1-3) False finish(2)] finish(1) c(4) by (auto simp: mt_inv_def)
  next
    case free
    then show ?thesis using core_free [OF c(1)] c by (auto simp: mt_inv_def goto_def)
  next
    case cancel
    then obtain p where p: "pcs s w = Some p" "p = Recv \<or> p = Paused" by auto
    show ?thesis unfolding cancel(1) by (rule go [OF p(1)]) (use p(2) in auto)
  qed ((hypsubst, rule go, assumption); simp)+
qed

lemma main_step_inv:
  assumes "main_step s s'" "mt_inv s"
  shows "mt_inv s'"
proof (cases "mt_exit s")
  case True
  have "mt_exit s'" using assms(1) True by cases (auto simp: fuse_join_worker_def goto_def list_del_worker_def Let_def)
  then show ?thesis by (simp add: mt_inv_def)
next
  case False
  then obtain ws where c: "mt_core ws s" "numavail s \<le> 10" "numavail s = 0 \<longrightarrow> create_failed s" "main_pc s \<noteq> M_join"
    using assms(2) by (auto simp: mt_inv_def)
  have frame: "mt_core ws (s\<lparr>main_pc := p\<rparr>)" "mt_core ws (s\<lparr>finish := n\<rparr>)" "mt_core ws (s\<lparr>cancelled := W, main_pc := p\<rparr>)" for p n W
    using c(1) core_frame [of "s\<lparr>main_pc := p\<rparr>" s ws] core_frame [of "s\<lparr>finish := n\<rparr>" s ws] core_frame [of "s\<lparr>cancelled := W, main_pc := p\<rparr>" s ws]
    by simp_all
  from assms(1) show ?thesis by cases (use c frame in \<open>auto simp: mt_inv_def intro!: exI [of _ ws]\<close>)
qed

lemma mt_reach_inv: "mt_reach s \<Longrightarrow> mt_inv s"
proof (induction rule: mt_reach.induct)
  case (start start_at ok err s)
  have core: "mt_core [] (mt_init start_at)" using start(1) by (simp add: mt_core_def ring_def mt_init_def)
  show ?case
  proof (cases ok)
    case True
    have "mt_core [start_at] (snd (fuse_start_thread True (mt_init start_at)))" using core_start [OF core] by (simp add: mt_init_def)
    then show ?thesis using start True
      by (auto simp: mt_inv_def mt_start_def fuse_start_thread_def mt_init_def Let_def list_add_worker_def goto_def)
  next
    case False
    then have s: "s = (mt_init start_at)\<lparr>create_failed := True, main_pc := M_done, exited := False\<rparr>"
      using start by (simp add: mt_start_def fuse_start_thread_def)
    have "mt_core [] s = mt_core [] (mt_init start_at)" unfolding s by (rule core_frame) simp_all
    then show ?thesis using core s by (auto simp: mt_inv_def mt_init_def)
  qed
next
  case (step s s')
  from step(2) show ?case
  proof cases
    case signal
    have "mt_core ws (s\<lparr>exited := True\<rparr>) = mt_core ws s" for ws by (rule core_frame) simp_all
    then show ?thesis using step(3) signal by (simp add: mt_inv_def)
  qed (use step(3) worker_step_inv main_step_inv in blast)+
qed

text \<open>
  C16: the workers are accounted for. In every state the loop can reach before its end, the list links of the workers make a ring, \<open>numworker\<close> is their number, \<open>numavail\<close>
  the number of those that do not work off a message other than a FORGET; it is never negative, never above 10, and not 0 unless a thread could not be
  made, so that somebody is there to read; and every message that was received was worked off once or is with exactly one worker.
\<close>

theorem workers_accounted:
  assumes "mt_reach s" "\<not> mt_exit s"
  shows "\<exists>ws. ring ws s \<and> (\<forall>w. w \<in> set ws \<longleftrightarrow> pcs s w \<notin> {None, Some Freeing}) \<and> numworker s = int (length ws) \<and>
    numavail s = sum_list (map (\<lambda>w. avail_of (pcs s w)) ws) \<and> 0 \<le> numavail s \<and> numavail s \<le> 10 \<and> (numavail s = 0 \<longrightarrow> create_failed s) \<and>
    mset (received s) = mset (processed s) + sum_list (map (\<lambda>w. held_by (pcs s w)) ws)"
proof -
  obtain ws where c: "mt_core ws s" "numavail s \<le> 10" "numavail s = 0 \<longrightarrow> create_failed s"
    using mt_reach_inv [OF assms(1)] assms(2) by (auto simp: mt_inv_def)
  moreover have "0 \<le> numavail s" using c(1) avail_of_bounds(1) unfolding mt_core_def
    by (metis (mono_tags, lifting) in_set_conv_nth length_map nth_map sum_list_nonneg)
  ultimately show ?thesis unfolding mt_core_def by blast
qed

definition mt_first :: fuse_mt where
  "mt_first = (mt_init 1)\<lparr>numworker := 1, numavail := 1, nxt := (\<lambda>_. 0)(0 := 1), prv := (\<lambda>_. 0)(0 := 1), pcs := [1 \<mapsto> Top], w_brk := 2\<rparr>"

lemma mt_first_reach: "mt_reach mt_first"
proof (rule mt_reach.start [of 1 True 0])
  show "mt_start True (mt_init 1) = (0, mt_first)"
    by (simp add: mt_start_def fuse_start_thread_def mt_first_def mt_init_def list_add_worker_def goto_def Let_def fun_eq_iff)
qed simp

theorem workers_accounted_witness: "mt_reach mt_first \<and> (\<exists>ws. ring ws mt_first \<and> set ws = {1})"
proof -
  obtain ws where "ring ws mt_first" "\<forall>w. w \<in> set ws \<longleftrightarrow> pcs mt_first w \<notin> {None, Some Freeing}"
    using workers_accounted [OF mt_first_reach] by (auto simp: mt_first_def mt_init_def)
  moreover from this(2) have "set ws = {1}" by (auto simp: mt_first_def mt_init_def split: if_splits)
  ultimately show ?thesis using mt_first_reach by blast
qed

subsection \<open>The end of the loop\<close>

lemma worker_reach: "mt_reach s \<Longrightarrow> worker_step w s s' \<Longrightarrow> mt_reach s'"
  by (blast intro: mt_reach.step mt_step.worker)

lemma main_reach: "mt_reach s \<Longrightarrow> main_step s s' \<Longrightarrow> mt_reach s'"
  by (blast intro: mt_reach.step mt_step.main)

lemma signal_reach: "mt_reach s \<Longrightarrow> mt_reach (s\<lparr>exited := True\<rparr>)"
  by (blast intro: mt_reach.step mt_step.signal)

lemma isforget_demo: "\<not> isforget demo_init"
  by (simp add: isforget_def demo_init_def demo_header_def)

text \<open>Many messages at once: all workers but the last have one.\<close>

definition crowd :: "cbuf \<Rightarrow> nat \<Rightarrow> fuse_mt \<Rightarrow> bool" where
  "crowd m k s \<longleftrightarrow> mt_reach s \<and> \<not> mt_exit s \<and> \<not> exited s \<and> main_pc s = M_wait \<and> pcs s k = Some Top \<and>
     (\<forall>i. 1 \<le> i \<and> i < k \<longrightarrow> pcs s i = Some (Proc m False)) \<and> w_brk s = Suc k \<and> numavail s = 1 \<and> nxt s 0 = 1 \<and> prv s 0 = k"

lemma crowd_grows:
  assumes "\<not> isforget m" "1 \<le> k"
  shows "\<exists>s. crowd m k s"
  using assms(2)
proof (induction k rule: dec_induct)
  case base
  show ?case by (rule exI [of _ mt_first]) (auto simp: crowd_def mt_first_reach, auto simp: mt_first_def mt_init_def)
next
  case (step k)
  then obtain s where s: "crowd m k s" by blast
  let ?s1 = "goto k (Some Recv) s" and ?s2 = "goto k (Some (Got m)) (s\<lparr>pcs := (pcs s)(k := Some Recv), received := received s @ [m]\<rparr>)"
  have "worker_step k s ?s1" using s by (intro worker_step.wait) (simp_all add: crowd_def)
  moreover have "worker_step k ?s1 ?s2" using worker_step.receive [of ?s1 k m] by (simp add: goto_def)
  moreover have "worker_step k ?s2 (take_message True k m ?s2)" by (rule worker_step.take) (simp add: goto_def)
  ultimately have r: "mt_reach (take_message True k m ?s2)" using s unfolding crowd_def by (blast intro: worker_reach)
  have "crowd m (Suc k) (take_message True k m ?s2)" using s step(1) assms(1) r unfolding crowd_def
    by (auto simp: take_message_def goto_def fuse_start_thread_def list_add_worker_def Let_def)
  then show ?case by blast
qed

text \<open>Then they finish, all but the first.\<close>

definition drained :: "cbuf \<Rightarrow> nat \<Rightarrow> fuse_mt \<Rightarrow> bool" where
  "drained m j s \<longleftrightarrow> mt_reach s \<and> \<not> mt_exit s \<and> \<not> exited s \<and> main_pc s = M_wait \<and>
     (\<forall>i. i = 1 \<or> j < i \<and> i < 11 \<longrightarrow> pcs s i = Some (Proc m False)) \<and> numavail s = int j \<and> nxt s 0 = 1"

lemma drains:
  assumes "\<not> isforget m" "1 \<le> j" "j \<le> 10"
  shows "\<exists>s. drained m j s"
  using assms(2,3)
proof (induction j rule: dec_induct)
  case base
  obtain s where "crowd m 11 s" using crowd_grows [OF assms(1), of 11] by auto
  then show ?case by (intro exI [of _ s]) (auto simp: crowd_def drained_def)
next
  case (step j)
  then obtain s where s: "drained m j s" by auto
  let ?w = "Suc j" and ?s1 = "goto (Suc j) (Some (Done False)) (s\<lparr>processed := processed s @ [m]\<rparr>)"
  have "worker_step ?w s ?s1" using s step by (intro worker_step.process) (simp add: drained_def)
  moreover have "worker_step ?w ?s1 (finish_message ?w False ?s1)" by (rule worker_step.finish) (simp add: goto_def)
  ultimately have r: "mt_reach (finish_message ?w False ?s1)" using s unfolding drained_def by (blast intro: worker_reach)
  have "drained m (Suc j) (finish_message ?w False ?s1)" using s step r unfolding drained_def
    by (auto simp: finish_message_def goto_def Let_def)
  then show ?case by blast
qed

lemma freed_worker_reach: "\<exists>s. mt_reach s \<and> main_pc s = M_crash"
proof -
  obtain m where m: "\<not> isforget m" using isforget_demo by blast
  obtain s where s: "drained m 10 s" using drains [OF m, of 10] by auto
  let ?s1 = "goto 1 (Some (Done False)) (s\<lparr>processed := processed s @ [m]\<rparr>)"
  let ?s2 = "?s1\<lparr>exited := True\<rparr>" and ?s3 = "?s1\<lparr>exited := True, main_pc := M_cancel 1\<rparr>"
  have "worker_step 1 s ?s1" using s by (intro worker_step.process) (simp add: drained_def)
  then have "mt_reach ?s1" using s unfolding drained_def by (blast intro: worker_reach)
  then have "mt_reach ?s2" by (rule signal_reach)
  moreover have "main_step ?s2 ?s3" using main_step.wake [of ?s2] s by (simp add: drained_def goto_def)
  ultimately have "mt_reach ?s3" by (rule main_reach)
  moreover have "worker_step 1 ?s3 (finish_message 1 False ?s3)" by (rule worker_step.finish) (simp add: goto_def)
  ultimately have r: "mt_reach (finish_message 1 False ?s3)" by (rule worker_reach)
  have f: "pcs (finish_message 1 False ?s3) 1 = Some Freeing" "main_pc (finish_message 1 False ?s3) = M_cancel 1"
    using s by (simp_all add: drained_def finish_message_def goto_def Let_def list_del_worker_def)
  let ?s5 = "goto 1 None (finish_message 1 False ?s3)"
  have "mt_reach ?s5" by (rule worker_reach [OF r worker_step.free [OF f(1)]])
  moreover have "main_step ?s5 (?s5\<lparr>main_pc := M_crash\<rparr>)" using f(2) by (intro main_step.crash [of _ 1]) (simp_all add: goto_def)
  ultimately have "mt_reach (?s5\<lparr>main_pc := M_crash\<rparr>)" by (rule main_reach)
  then show ?thesis by (intro exI) auto
qed

text \<open>A worker that nobody cancels waits for ever, and so does the main thread.\<close>

definition forgotten :: "fuse_mt \<Rightarrow> bool" where
  "forgotten s \<longleftrightarrow> main_pc s = M_join \<and> nxt s 0 = 2 \<and> pcs s = [2 \<mapsto> Paused] \<and> 2 \<notin> cancelled s"

lemma forgotten_step: "forgotten s \<Longrightarrow> mt_step s s' \<Longrightarrow> forgotten s'"
  by (auto simp: forgotten_def elim!: mt_stepE worker_stepE main_stepE split: if_splits)

lemma forgotten_reach: "\<exists>s. mt_reach s \<and> forgotten s"
proof -
  let ?m = demo_init
  let ?got = "mt_first\<lparr>pcs := [1 \<mapsto> Got ?m], received := [?m]\<rparr>"
  let ?ended = "?got\<lparr>exited := True, cancelled := {1}, main_pc := M_cancel 0\<rparr>"
  let ?two = "?ended\<lparr>numworker := 2, nxt := (\<lambda>_. 0)(0 := 1, 1 := 2), prv := (\<lambda>_. 0)(0 := 2, 2 := 1), w_brk := 3, mt_exit := True, main_pc := M_join\<rparr>"
  have worker: "mt_reach s \<Longrightarrow> worker_step w s s1 \<Longrightarrow> s1 = s' \<Longrightarrow> mt_reach s'" for w s s1 s' by (blast intro: worker_reach)
  have main: "mt_reach s \<Longrightarrow> main_step s s1 \<Longrightarrow> s1 = s' \<Longrightarrow> mt_reach s'" for s s1 s' by (blast intro: main_reach)
  have "mt_reach (mt_first\<lparr>pcs := [1 \<mapsto> Recv]\<rparr>)"
    by (rule worker [OF mt_first_reach worker_step.wait [of _ 1]]) (simp_all add: mt_first_def mt_init_def goto_def)
  then have "mt_reach ?got" by (rule worker [OF _ worker_step.receive [of _ 1 ?m]]) (simp_all add: mt_first_def mt_init_def goto_def)
  then have "mt_reach (?got\<lparr>exited := True\<rparr>)" by (rule signal_reach)
  then have "mt_reach (?got\<lparr>exited := True, main_pc := M_cancel 1\<rparr>)"
    by (rule main [OF _ main_step.wake]) (simp_all add: mt_first_def mt_init_def)
  then have "mt_reach ?ended" by (rule main [OF _ main_step.cancel [of _ 1]]) (simp_all add: mt_first_def mt_init_def)
  then have "mt_reach (?two\<lparr>pcs := [1 \<mapsto> Proc ?m False, 2 \<mapsto> Top], mt_exit := False, main_pc := M_cancel 0\<rparr>)"
    by (rule worker [OF _ worker_step.take [of _ 1 ?m True]])
      (auto simp: mt_first_def mt_init_def take_message_def isforget_demo goto_def fuse_start_thread_def list_add_worker_def Let_def fun_eq_iff)
  then have "mt_reach (?two\<lparr>pcs := [1 \<mapsto> Proc ?m False, 2 \<mapsto> Top]\<rparr>)" by (rule main [OF _ main_step.set_exit]) simp_all
  then have "mt_reach (?two\<lparr>pcs := [1 \<mapsto> Proc ?m False, 2 \<mapsto> Post]\<rparr>)"
    by (rule worker [OF _ worker_step.leave [of _ 2]]) (simp_all add: goto_def)
  then have "mt_reach (?two\<lparr>pcs := [1 \<mapsto> Proc ?m False, 2 \<mapsto> Paused], finish := 1\<rparr>)"
    by (rule worker [OF _ worker_step.post [of _ 2]]) (simp_all add: goto_def mt_first_def mt_init_def)
  then have "mt_reach (?two\<lparr>pcs := [1 \<mapsto> Done False, 2 \<mapsto> Paused], finish := 1, processed := [?m]\<rparr>)"
    by (rule worker [OF _ worker_step.process [of _ 1 ?m False]]) (auto simp: goto_def mt_first_def mt_init_def fun_eq_iff)
  then have "mt_reach (?two\<lparr>pcs := [1 \<mapsto> Top, 2 \<mapsto> Paused], finish := 1, processed := [?m], numavail := 2\<rparr>)"
    by (rule worker [OF _ worker_step.finish [of _ 1 False]]) (auto simp: goto_def mt_first_def mt_init_def finish_message_def Let_def fun_eq_iff)
  then have "mt_reach (?two\<lparr>pcs := [1 \<mapsto> Post, 2 \<mapsto> Paused], finish := 1, processed := [?m], numavail := 2\<rparr>)"
    by (rule worker [OF _ worker_step.leave [of _ 1]]) (auto simp: goto_def fun_eq_iff)
  then have "mt_reach (?two\<lparr>pcs := [1 \<mapsto> Paused, 2 \<mapsto> Paused], finish := 2, processed := [?m], numavail := 2\<rparr>)"
    by (rule worker [OF _ worker_step.post [of _ 1]]) (auto simp: goto_def fun_eq_iff)
  then have "mt_reach (?two\<lparr>pcs := [1 \<mapsto> Dead, 2 \<mapsto> Paused], finish := 2, processed := [?m], numavail := 2\<rparr>)"
    by (rule worker [OF _ worker_step.cancel [of 1]]) (auto simp: goto_def fun_eq_iff)
  then have "mt_reach (fuse_join_worker 1 (?two\<lparr>pcs := [1 \<mapsto> Dead, 2 \<mapsto> Paused], finish := 2, processed := [?m], numavail := 2\<rparr>))"
    by (rule main [OF _ main_step.join]) simp_all
  then show ?thesis
    by (intro exI conjI, assumption) (auto simp: forgotten_def fuse_join_worker_def goto_def list_del_worker_def Let_def fun_eq_iff)
qed

lemma forgotten_steps: "mt_step\<^sup>*\<^sup>* s s' \<Longrightarrow> forgotten s \<Longrightarrow> forgotten s'"
  by (induction rule: rtranclp_induct) (auto intro: forgotten_step)

text \<open>
  C37: two races at the end of the loop. The main thread walks the list of the workers to cancel them without holding the lock, and sets its flag only afterwards. A worker it has
  come to may take itself off the list and free itself before it is cancelled: then freed memory is used. A worker with a message may still start another one behind the
  last that was cancelled: the new worker waits to be cancelled and the main thread waits for the new worker, whatever happens next.
\<close>

theorem end_of_loop_races:
  "(\<exists>s. mt_reach s \<and> main_pc s = M_crash) \<and> (\<exists>s. mt_reach s \<and> {s'. mt_step\<^sup>*\<^sup>* s s'} \<subseteq> {s'. main_pc s' = M_join})"
proof -
  obtain s where s: "mt_reach s" "forgotten s" using forgotten_reach by blast
  then have "{s'. mt_step\<^sup>*\<^sup>* s s'} \<subseteq> {s'. main_pc s' = M_join}" using forgotten_steps by (auto simp: forgotten_def)
  then show ?thesis using s(1) freed_worker_reach by blast
qed

end
