(* ===== verification/Fuse_New.thy ===== *)
theory Fuse_New
  imports Fuse_Session_Proofs Fuse_Modules
begin

text \<open>
  How the high-level library is put together and taken apart (\<open>lib/fuse.c\<close>: \<open>fuse_lib_opts\<close>, \<open>fuse_push_module\<close>, \<open>fuse_new_common\<close>, \<open>fuse_destroy\<close>): the options, the modules on the user's file system,
  the session and the node cache.

  The factory of a module is a function of its address; the file systems on the stack have one type here, whose private data is that of every module. The module a file system belongs to
  (the field \<open>m\<close>) is kept in the list of the modules on the stack, from the bottom. Whether \<open>pthread_key_create\<close> succeeds and which signals there are is a parameter. Help output is left out.
\<close>

subsection \<open>Options\<close>

text \<open>The fields of \<open>struct fuse_config\<close>.\<close>

datatype conf_field =
    Uid | Gid | Umask_f | Entry_timeout | Negative_timeout | Attr_timeout | Ac_attr_timeout | Ac_attr_timeout_set | Noforget | Debug_f | Hard_remove
  | Use_ino | Readdir_ino | Set_mode | Set_uid | Set_gid | Direct_io | Kernel_cache | Auto_cache | Intr | Intr_signal | Help | Modules

definition fuse_lib_opts :: "conf_field fuse_opt list" where
  "fuse_lib_opts =
     map (\<lambda>(t, k). \<lparr>templ = t, offset = None, opt_value = k\<rparr>)
       [(''-h'', 0), (''--help'', 0), (''debug'', FUSE_OPT_KEY_KEEP), (''-d'', FUSE_OPT_KEY_KEEP)] @
     map (\<lambda>(t, p, v). \<lparr>templ = t, offset = Some p, opt_value = v\<rparr>)
       [(''debug'', Debug_f, 1), (''-d'', Debug_f, 1), (''hard_remove'', Hard_remove, 1), (''use_ino'', Use_ino, 1), (''readdir_ino'', Readdir_ino, 1),
        (''direct_io'', Direct_io, 1), (''kernel_cache'', Kernel_cache, 1), (''auto_cache'', Auto_cache, 1), (''noauto_cache'', Auto_cache, 0),
        (''umask='', Set_mode, 1), (''umask=%o'', Umask_f, 0), (''uid='', Set_uid, 1), (''uid=%d'', Uid, 0), (''gid='', Set_gid, 1), (''gid=%d'', Gid, 0),
        (''entry_timeout=%lf'', Entry_timeout, 0), (''attr_timeout=%lf'', Attr_timeout, 0), (''ac_attr_timeout=%lf'', Ac_attr_timeout, 0),
        (''ac_attr_timeout='', Ac_attr_timeout_set, 1), (''negative_timeout=%lf'', Negative_timeout, 0), (''noforget'', Noforget, 1), (''intr'', Intr, 1),
        (''intr_signal=%d'', Intr_signal, 0), (''modules=%s'', Modules, 0)]"

definition fuse_lib_opt_proc :: "conf_field opt_proc" where
  "fuse_lib_opt_proc dat arg key out m = Some (1, if key = 0 then dat(Help \<mapsto> VInt 1) else dat, out, m)"

definition fuse_is_lib_option :: "cstring \<Rightarrow> bool" where
  "fuse_is_lib_option opt \<longleftrightarrow> fuse_lowlevel_is_lib_option opt \<noteq> 0 \<or> fuse_opt_match fuse_lib_opts opt \<noteq> 0"

definition conf_int :: "conf_field optdata \<Rightarrow> conf_field \<Rightarrow> int" where
  "conf_int dat k = (case dat k of Some (VInt i) \<Rightarrow> i | _ \<Rightarrow> 0)"

definition conf_dbl :: "conf_field optdata \<Rightarrow> conf_field \<Rightarrow> real" where
  "conf_dbl dat k = (case dat k of Some (VDbl d) \<Rightarrow> d | _ \<Rightarrow> 0)"

text \<open>What \<open>fuse_new_common\<close> starts the parse from, and the configuration after it. \<open>SIGUSR1\<close> is 10.\<close>

definition conf_defaults :: "conf_field optdata" where
  "conf_defaults = (\<lambda>_. None)(Entry_timeout \<mapsto> VDbl 1, Attr_timeout \<mapsto> VDbl 1, Negative_timeout \<mapsto> VDbl 0, Intr_signal \<mapsto> VInt 10)"

definition config_of :: "conf_field optdata \<Rightarrow> fuse_config" where
  "config_of dat =
     \<lparr>conf_uid = word_of_int (conf_int dat Uid), conf_gid = word_of_int (conf_int dat Gid), conf_umask = word_of_int (conf_int dat Umask_f),
      entry_timeout = conf_dbl dat Entry_timeout, negative_timeout = conf_dbl dat Negative_timeout, attr_timeout = conf_dbl dat Attr_timeout,
      ac_attr_timeout = (if conf_int dat Ac_attr_timeout_set = 0 then conf_dbl dat Attr_timeout else conf_dbl dat Ac_attr_timeout),
      noforget = (conf_int dat Noforget \<noteq> 0), hard_remove = (conf_int dat Hard_remove \<noteq> 0), use_ino = (conf_int dat Use_ino \<noteq> 0),
      readdir_ino = (conf_int dat Readdir_ino \<noteq> 0), set_mode = (conf_int dat Set_mode \<noteq> 0), set_uid = (conf_int dat Set_uid \<noteq> 0),
      set_gid = (conf_int dat Set_gid \<noteq> 0), conf_direct_io = (conf_int dat Direct_io \<noteq> 0), kernel_cache = (conf_int dat Kernel_cache \<noteq> 0),
      auto_cache = (conf_int dat Auto_cache \<noteq> 0), conf_intr = (conf_int dat Intr \<noteq> 0)\<rparr>"

subsection \<open>Contexts and signals\<close>

text \<open>The number of file systems that use the key of thread contexts. \<open>ok\<close> is whether the key can be made.\<close>

definition fuse_create_context_key :: "bool \<Rightarrow> int \<Rightarrow> int \<times> int" where
  "fuse_create_context_key ok ctx_ref = (if ctx_ref = 0 \<and> \<not> ok then (- 1, ctx_ref) else (0, ctx_ref + 1))"

definition fuse_delete_context_key :: "int \<Rightarrow> int" where
  "fuse_delete_context_key ctx_ref = ctx_ref - 1"

text \<open>\<open>known\<close> are the signals \<open>sigaction\<close> knows: the result and \<open>intr_installed\<close>.\<close>

definition fuse_init_intr_signal :: "(nat \<Rightarrow> bool) \<Rightarrow> int \<Rightarrow> 'u sworld \<Rightarrow> int \<times> bool \<times> 'u sworld" where
  "fuse_init_intr_signal known signum w =
     (if signum < 0 \<or> \<not> known (nat signum) then (- 1, False, w)
      else if sig_handlers w (nat signum) = Sig_dfl then (0, True, w\<lparr>sig_handlers := (sig_handlers w)(nat signum := Other_handler)\<rparr>)
      else (0, False, w))"

definition fuse_restore_intr_signal :: "int \<Rightarrow> 'u sworld \<Rightarrow> 'u sworld" where
  "fuse_restore_intr_signal signum w = w\<lparr>sig_handlers := (sig_handlers w)(nat signum := Sig_dfl)\<rparr>"

subsection \<open>Modules on the stack\<close>

type_synonym 'fs factory = "nat \<Rightarrow> allocs \<Rightarrow> fuse_args option \<Rightarrow> 'fs list \<Rightarrow> ('fs option \<times> fuse_args option \<times> allocs) option"

text \<open>The file system on top, the modules it is made of, and \<open>nullpath_ok\<close>; the arguments, the registry and the memory.\<close>

record ('d, 'b, 'w) stack =
  top :: "('d, 'b, 'w) fuse_fs"
  stacked :: "nat list"
  nullp :: bool

record ('d, 'b, 'w) push_state =
  ps_stack :: "('d, 'b, 'w) stack"
  ps_args :: "fuse_args option"
  ps_mods :: mod_state
  ps_mem :: allocs

definition fuse_push_module ::
  "dlinker \<Rightarrow> ('d, 'b, 'w) fuse_fs factory \<Rightarrow> cstring \<Rightarrow> ('d, 'b, 'w) push_state \<Rightarrow> (int \<times> ('d, 'b, 'w) push_state) option" where
  "fuse_push_module dl factory name s = do {
     (m, reg) \<leftarrow> fuse_get_module dl name (ps_mods s);
     let s = s\<lparr>ps_mods := reg\<rparr>;
     case m of
       None \<Rightarrow> Some (- 1, s)
     | Some a \<Rightarrow> do {
         (newfs, args, m') \<leftarrow> factory a (ps_mem s) (ps_args s) [top (ps_stack s)];
         let s = s\<lparr>ps_args := args, ps_mem := m'\<rparr>;
         case newfs of
           None \<Rightarrow> do { reg \<leftarrow> fuse_put_module a (ps_mods s); Some (- 1, s\<lparr>ps_mods := reg\<rparr>) }
         | Some fs \<Rightarrow>
             Some (0, s\<lparr>ps_stack := \<lparr>top = fs, stacked = stacked (ps_stack s) @ [a], nullp = flag_nullpath_ok (fs_op fs) \<and> nullp (ps_stack s)\<rparr>\<rparr>)
       }
   }"

text \<open>The names between colons.\<close>

fun split_colons :: "cstring \<Rightarrow> cstring list" where
  "split_colons [] = [[]]"
| "split_colons (c # cs) =
     (if c = CHR '':'' then [] # split_colons cs
      else case split_colons cs of x # xs \<Rightarrow> (c # x) # xs | [] \<Rightarrow> [[c]])"

primrec push_modules ::
  "dlinker \<Rightarrow> ('d, 'b, 'w) fuse_fs factory \<Rightarrow> cstring list \<Rightarrow> ('d, 'b, 'w) push_state \<Rightarrow> (int \<times> ('d, 'b, 'w) push_state) option" where
  "push_modules dl factory [] s = Some (0, s)"
| "push_modules dl factory (name # names) s =
     (if name = [] then push_modules dl factory names s
      else do {
        (res, s) \<leftarrow> fuse_push_module dl factory name s;
        if res = - 1 then Some (- 1, s) else push_modules dl factory names s
      })"

text \<open>The end of the file systems of a stack, from the top: the operation \<open>destroy\<close> is called, and then the file system's own module is given back. The file system below is destroyed only if that operation
  does it, as the ones of \<open>subdir\<close> and \<open>iconv\<close> do: \<open>passes\<close> says for which modules it does. The user's file system, at the bottom, has no module.\<close>

primrec put_modules :: "(nat \<Rightarrow> bool) \<Rightarrow> nat list \<Rightarrow> mod_state \<Rightarrow> mod_state option" where
  "put_modules passes [] s = Some s"
| "put_modules passes (a # below) s = do { s \<leftarrow> (if passes a then put_modules passes below s else Some s); fuse_put_module a s }"

subsection \<open>A new file system\<close>

text \<open>What is outside the library when a file system is made: whether the key can be made, the signals there are, the user, the memory for the node cache,
  the world of the file system, the clock, the other threads, when the file system asks for the end, and which modules destroy the file system below them.\<close>

record ('d, 'x) new_env =
  key_ok :: bool
  sig_known :: "nat \<Rightarrow> bool"
  ne_uid :: u32
  node_mem :: allocs
  ne_world :: "'x world"
  ne_clock :: "nat \<Rightarrow> timespec"
  ne_wait :: "fuse \<Rightarrow> fuse option"
  ne_quits :: "('d, 'x) lib_ll \<Rightarrow> bool"
  ne_chains :: "nat \<Rightarrow> bool"

text \<open>What making a file system changes: the sessions and channels, the registry of modules, the users of the context key, the memory.\<close>

record ('d, 'x) assembly =
  su_sw :: "('d, 'x) lib_ll sworld"
  su_mods :: mod_state
  su_ctx :: int
  su_mem :: allocs

text \<open>\<open>struct fuse\<close> as its user has it: the session, whose data is the state of the library, and the rest of its fields.\<close>

record fuse_handle =
  fh_se :: nat
  fh_intr :: bool
  fh_signal :: int
  intr_installed :: bool
  fh_stacked :: "nat list"

definition new_lib :: "('d, 'x) new_env \<Rightarrow> ('d, dirbuf, 'x world) fuse_fs \<Rightarrow> fuse \<Rightarrow> ('d, 'x) fuse_lib" where
  "new_lib e fs ns = \<lparr>nodes = ns, lib_fs = Some fs, lib_world = ne_world e, dirhandles = (\<lambda>_. None), dh_brk = 1, lib_clock = ne_clock e, lib_ticks = 0, lib_wait = ne_wait e\<rparr>"

text \<open>The cache before its tables are there.\<close>

definition zero_nodes :: "fuse_config \<Rightarrow> bool \<Rightarrow> allocs \<Rightarrow> fuse" where
  "zero_nodes cfg np nm = \<lparr>heap = (\<lambda>_. None), brk = 0, name_table = (\<lambda>_. []), name_table_size = 14057, id_table = (\<lambda>_. []), id_table_size = 14057, ctr = 0,
     generation = 0, hidectr = 0, conf = cfg, nullpath_ok = np, curr_ticket = 0, lockq = [], signals = [], fuse_mem = nm\<rparr>"

text \<open>The node cache of a session that has its channel, and the signal for interrupts. When one of them cannot be made the session is destroyed, and with it its channel.\<close>

definition new_nodes ::
  "('d, 'x) lib_ll own_chan \<Rightarrow> ('d, 'x) new_env \<Rightarrow> nat \<Rightarrow> conf_field optdata \<Rightarrow> ('d, dirbuf, 'x world) stack \<Rightarrow> ('d, 'x) lib_ll sworld \<Rightarrow> (fuse_handle option \<times> ('d, 'x) lib_ll sworld) option" where
  "new_nodes own e se dat st w = do {
     let cfg = config_of dat;
     case init_nodes cfg (nullp st) True 0 (node_mem e) of
       None \<Rightarrow> do { w \<leftarrow> fuse_session_destroy own se w; Some (None, w) }
     | Some ns \<Rightarrow> do {
         let (res, installed, w) = (if conf_intr cfg then fuse_init_intr_signal (sig_known e) (conf_int dat Intr_signal) w else (0, False, w));
         if res = - 1 then do { w \<leftarrow> fuse_session_destroy own se w; Some (None, w) }
         else do {
           s \<leftarrow> sessions w se;
           let w = set_session se (Some (s\<lparr>se_data := (se_data s)\<lparr>userdata := new_lib e (top st) ns\<rparr>\<rparr>)) w;
           Some (Some \<lparr>fh_se = se, fh_intr = conf_intr cfg, fh_signal = conf_int dat Intr_signal, intr_installed = installed, fh_stacked = stacked st\<rparr>, w)
         }
       }
   }"

text \<open>The part from the session on. Memory for the session object is the last allocation of \<open>fuse_lowlevel_new_common\<close>.\<close>

definition new_session ::
  "('d, 'x) lib_ll own_chan \<Rightarrow> ('d, 'x) new_env \<Rightarrow> nat \<Rightarrow> ('d, 'x) fuse_lib fuse_lowlevel_ops \<Rightarrow> conf_field optdata \<Rightarrow> ('d, dirbuf, 'x world) stack \<Rightarrow> fuse_args option \<Rightarrow>
     ('d, 'x) assembly \<Rightarrow> (fuse_handle option \<times> fuse_args option \<times> ('d, 'x) assembly) option" where
  "new_session own e ch llop dat st args u = do {
     bufsize \<leftarrow> fuse_chan_bufsize ch (su_sw u);
     (ll, args) \<leftarrow> fuse_lowlevel_new_common (su_mem u) args llop (36 * 8) (new_lib e (top st) (zero_nodes (config_of dat) (nullp st) (node_mem e))) (ne_uid e) bufsize;
     case ll of
       None \<Rightarrow> Some (None, args, u)
     | Some (ll, ops) \<Rightarrow> do {
         let w = su_sw u;
         let se = obj_brk w;
         let w = set_session se (Some \<lparr>se_op = ll_session_ops ops (ne_quits e), se_data = ll, se_exited = False, se_ch = None\<rparr>) (w\<lparr>obj_brk := Suc se\<rparr>);
         w \<leftarrow> fuse_session_add_chan se ch w;
         (f, w) \<leftarrow> new_nodes own e se dat st w;
         Some (f, args, u\<lparr>su_sw := w\<rparr>)
       }
   }"

text \<open>The modules, the arguments of older interfaces, and the session, on the user's file system \<open>fs\<close>. On failure the file systems of the stack are destroyed; the user's, whose operation \<open>destroy\<close> is
  taken away before, is not called, and the modules free their own memory.\<close>

definition new_stacked ::
  "dlinker \<Rightarrow> ('d, dirbuf, 'x world) fuse_fs factory \<Rightarrow> ('d, 'x) lib_ll own_chan \<Rightarrow> ('d, 'x) new_env \<Rightarrow> nat \<Rightarrow> ('d, dirbuf, 'x world) fuse_fs \<Rightarrow> conf_field optdata \<Rightarrow> int \<Rightarrow>
     fuse_args option \<Rightarrow> ('d, 'x) assembly \<Rightarrow> (fuse_handle option \<times> fuse_args option \<times> ('d, 'x) assembly) option" where
  "new_stacked dl factory own e ch fs dat compat_version args u = do {
     let llop = (if op_lock (fs_op fs) = None then fuse_path_ops\<lparr>ll_getlk := None, ll_setlk := None\<rparr> else fuse_path_ops);
     let s = \<lparr>ps_stack = \<lparr>top = fs, stacked = [], nullp = flag_nullpath_ok (fs_op fs)\<rparr>, ps_args = args, ps_mods = su_mods u, ps_mem = su_mem u\<rparr>;
     (res, s) \<leftarrow> (case dat Modules of Some (VStr ms) \<Rightarrow> push_modules dl factory (split_colons ms) s | _ \<Rightarrow> Some (0, s));
     (res, args, m) \<leftarrow>
       (if res \<noteq> - 1 \<and> compat_version \<noteq> 0 \<and> compat_version \<le> 25 then do {
          a \<leftarrow> ps_args s;
          (res, a, m) \<leftarrow> fuse_sync_compat_args (ps_mem s) a;
          Some (res, Some a, m)
        } else Some (res, ps_args s, ps_mem s));
     let u = u\<lparr>su_mods := ps_mods s, su_mem := m\<rparr>;
     (f, args, u) \<leftarrow> (if res = - 1 then Some (None, args, u) else new_session own e ch llop dat (ps_stack s) args u);
     case f of
       Some f \<Rightarrow> Some (Some f, args, u)
     | None \<Rightarrow> do { reg \<leftarrow> put_modules (ne_chains e) (rev (stacked (ps_stack s))) (su_mods u); Some (None, args, u\<lparr>su_mods := reg\<rparr>) }
   }"

definition fuse_new_common ::
  "dlinker \<Rightarrow> ('d, dirbuf, 'x world) fuse_fs factory \<Rightarrow> ('d, 'x) lib_ll own_chan \<Rightarrow> ('d, 'x) new_env \<Rightarrow> nat \<Rightarrow> fuse_args option \<Rightarrow>
     ('d, dirbuf, 'x world) fuse_operations option \<Rightarrow> nat \<Rightarrow> 'd \<Rightarrow> int \<Rightarrow> ('d, 'x) assembly \<Rightarrow> (fuse_handle option \<times> fuse_args option \<times> ('d, 'x) assembly) option" where
  "fuse_new_common dl factory own e ch args op op_size d compat_version u =
     (let (res, ctx) = fuse_create_context_key (key_ok e) (su_ctx u);
          fail = (\<lambda>args u. Some (None, args, u\<lparr>su_ctx := fuse_delete_context_key ctx\<rparr>));
          (ok, m) = alloc (su_mem u);
          (fs, m') = fuse_fs_new m op op_size d
      in if res = - 1 then Some (None, args, u)
         else if \<not> ok then fail args (u\<lparr>su_mem := m\<rparr>)
         else case fs of
           None \<Rightarrow> fail args (u\<lparr>su_mem := m'\<rparr>)
         | Some fs \<Rightarrow> do {
             (res, args, dat, m) \<leftarrow> fuse_opt_parse m' args conf_defaults fuse_lib_opts (Some fuse_lib_opt_proc);
             if res = - 1 then fail args (u\<lparr>su_mem := m\<rparr>)
             else do {
               (f, args, u) \<leftarrow> new_stacked dl factory own e ch (fs\<lparr>compat := compat_version\<rparr>) dat compat_version args (u\<lparr>su_mem := m, su_ctx := ctx\<rparr>);
               case f of Some f \<Rightarrow> Some (Some f, args, u) | None \<Rightarrow> fail args u
             }
           })"

definition fuse_new ::
  "dlinker \<Rightarrow> ('d, dirbuf, 'x world) fuse_fs factory \<Rightarrow> ('d, 'x) lib_ll own_chan \<Rightarrow> ('d, 'x) new_env \<Rightarrow> nat \<Rightarrow> fuse_args option \<Rightarrow>
     ('d, dirbuf, 'x world) fuse_operations option \<Rightarrow> nat \<Rightarrow> 'd \<Rightarrow> ('d, 'x) assembly \<Rightarrow> (fuse_handle option \<times> fuse_args option \<times> ('d, 'x) assembly) option" where
  "fuse_new dl factory own e ch args op op_size d u = fuse_new_common dl factory own e ch args op op_size d 0 u"

subsection \<open>The end of a file system\<close>

text \<open>Files that were hidden because they were open when they were removed are removed now, if the file system is still there.\<close>

definition unlink_hidden :: "('d, dirbuf, 'x world) fuse_fs \<Rightarrow> addr \<Rightarrow> fuse \<times> 'x world \<Rightarrow> (fuse \<times> 'x world) option" where
  "unlink_hidden fs a s = do {
     n \<leftarrow> heap (fst s) a;
     if is_hidden n then do {
       (pr, ns) \<leftarrow> try_get_path (fst s) (nodeid n) None False 0;
       Some (ns, if pr_err pr = 0 then snd (fuse_fs_unlink fs (pr_path pr) (snd s)) else snd s)
     }
     else Some s
   }"

primrec unlink_all_hidden :: "('d, dirbuf, 'x world) fuse_fs \<Rightarrow> addr list \<Rightarrow> fuse \<times> 'x world \<Rightarrow> (fuse \<times> 'x world) option" where
  "unlink_all_hidden fs [] s = Some s"
| "unlink_all_hidden fs (a # as) s = do { s \<leftarrow> unlink_hidden fs a s; unlink_all_hidden fs as s }"

definition all_nodes :: "fuse \<Rightarrow> addr list" where
  "all_nodes ns = concat (map (id_table ns) [0..<id_table_size ns])"

text \<open>The nodes of the library are freed, after the hidden files are removed.\<close>

definition destroy_nodes :: "('d, 'x) fuse_lib \<Rightarrow> ('d, 'x) fuse_lib option" where
  "destroy_nodes l = do {
     (ns, w) \<leftarrow> (case lib_fs l of
        None \<Rightarrow> Some (nodes l, lib_world l)
      | Some fs \<Rightarrow> unlink_all_hidden fs (all_nodes (nodes l))
          (nodes l, (lib_world l)\<lparr>w_ctx := \<lparr>cx_req = 0, cx_uid = 0, cx_gid = 0, cx_pid = 0, cx_umask = 0\<rparr>\<rparr>));
     Some (l\<lparr>nodes := fold free_node (all_nodes ns) ns, lib_world := w\<rparr>)
   }"

text \<open>The modules are given back with the file system on top of the stack: by the message DESTROY, or when the session is destroyed after INIT.\<close>

definition fuse_destroy :: "('d, 'x) lib_ll own_chan \<Rightarrow> (nat \<Rightarrow> bool) \<Rightarrow> fuse_handle \<Rightarrow> ('d, 'x) assembly \<Rightarrow> ('d, 'x) assembly option" where
  "fuse_destroy own passes f u = do {
     let w = (if fh_intr f \<and> intr_installed f then fuse_restore_intr_signal (fh_signal f) (su_sw u) else su_sw u);
     s \<leftarrow> sessions w (fh_se f);
     l \<leftarrow> destroy_nodes (userdata (se_data s));
     let w = set_session (fh_se f) (Some (s\<lparr>se_data := (se_data s)\<lparr>userdata := l\<rparr>\<rparr>)) w;
     w \<leftarrow> fuse_session_destroy own (fh_se f) w;
     reg \<leftarrow> (if got_init (se_data s) then put_modules passes (rev (fh_stacked f)) (su_mods u) else Some (su_mods u));
     Some (u\<lparr>su_sw := w, su_mods := reg, su_ctx := fuse_delete_context_key (su_ctx u)\<rparr>)
   }"

subsection \<open>Modules are given back\<close>




text \<open>What is not given back, from the top of a stack: the modules below the first one that does not destroy the file system below it.\<close>

definition kept_modules :: "(nat \<Rightarrow> bool) \<Rightarrow> nat list \<Rightarrow> nat list" where
  "kept_modules passes as = tl (dropWhile passes as)"

lemma kept_modules_simps [simp]:
  "kept_modules passes [] = []" "kept_modules passes (a # as) = (if passes a then kept_modules passes as else as)"
  by (simp_all add: kept_modules_def)









text \<open>A failure after the session has its channel frees the channel, which the caller, \<open>fuse_setup_common\<close>, uses and frees again.\<close>

lemma destroyed_channel:
  assumes "fuse_session_destroy own se w = Some w'" "sessions w se = Some s" "se_ch s = Some ch"
  shows "fuse_chan_fd ch w' = None"
  using assms by (auto simp: fuse_session_destroy_def fuse_chan_destroy_def set_session_def set_chan_def fuse_chan_fd_def bind_eq_Some_conv Let_def)

lemma intr_signal_sessions: "fuse_init_intr_signal known sig w = (res, i, w') \<Longrightarrow> sessions w' = sessions w"
  by (auto simp: fuse_init_intr_signal_def split: if_splits)

lemma failed_new_frees_channel:
  assumes "new_nodes own e se dat st w = Some (None, w')" "sessions w se = Some s" "se_ch s = Some ch"
  shows "fuse_chan_fd ch w' = None"
proof -
  obtain res i w1 where r: "(if conf_intr (config_of dat) then fuse_init_intr_signal (sig_known e) (conf_int dat Intr_signal) w else (0, False, w)) = (res, i, w1)"
    by (rule prod_cases3)
  have s1: "sessions w1 se = Some s" using r assms(2) by (auto split: if_splits dest: intr_signal_sessions)
  have "fuse_session_destroy own se w = Some w' \<or> fuse_session_destroy own se w1 = Some w'"
    using assms(1) r by (auto simp: new_nodes_def Let_def bind_eq_Some_conv split: option.splits if_splits)
  then show ?thesis using destroyed_channel [OF _ assms(2,3)] destroyed_channel [OF _ s1 assms(3)] by blast
qed







abbreviation "demo_words \<equiv> \<lparr>argv = Some [''p'', ''-omodules=b''], allocated = False\<rparr>"







end
