(* ===== verification/Fuse_Helper.thy ===== *)
theory Fuse_Helper
  imports Fuse_New Fuse_Mount_Proofs
begin

text \<open>
  From a command line to a mounted file system and back (\<open>lib/helper.c\<close>). The state is that of the process and its system calls and that of the library's objects. What \<open>realpath\<close> and
  \<open>daemon\<close> answer is a parameter. The variants for older interfaces differ from these functions in their arguments only and are left out, as is output.
\<close>

subsection \<open>The command line\<close>

datatype helper_field = Singlethread | Foreground | Nodefault_subtype | Mountpoint

definition fuse_helper_opts :: "helper_field fuse_opt list" where
  "fuse_helper_opts =
     map (\<lambda>(t, p). \<lparr>templ = t, offset = Some p, opt_value = 1\<rparr>)
       [(''-d'', Foreground), (''debug'', Foreground), (''-f'', Foreground), (''-s'', Singlethread), (''fsname='', Nodefault_subtype), (''subtype='', Nodefault_subtype)] @
     map (\<lambda>(t, k). \<lparr>templ = t, offset = None, opt_value = k\<rparr>)
       [(''-h'', 0), (''--help'', 0), (''-ho'', 1), (''-V'', 2), (''--version'', 2), (''-d'', FUSE_OPT_KEY_KEEP), (''debug'', FUSE_OPT_KEY_KEEP),
        (''fsname='', FUSE_OPT_KEY_KEEP), (''subtype='', FUSE_OPT_KEY_KEEP)]"

definition hopt_str :: "helper_field optdata \<Rightarrow> cstring option" where
  "hopt_str dat = (case dat Mountpoint of Some (VStr s) \<Rightarrow> Some s | _ \<Rightarrow> None)"

definition hopt_set :: "helper_field optdata \<Rightarrow> helper_field \<Rightarrow> bool" where
  "hopt_set dat k \<longleftrightarrow> (case dat k of Some (VInt i) \<Rightarrow> i \<noteq> 0 | _ \<Rightarrow> False)"

definition fuse_helper_opt_proc :: "(cstring \<Rightarrow> cstring option) \<Rightarrow> helper_field opt_proc" where
  "fuse_helper_opt_proc realpath dat arg key out m =
     (if key = 0 \<or> key = 1 then do { (res, out, m) \<leftarrow> fuse_opt_add_arg m out ''-h''; Some (res, dat, out, m) }
      else if key = 2 then Some (1, dat, out, m)
      else if key = FUSE_OPT_KEY_NONOPT then
        (if hopt_str dat = None then
           (case realpath arg of
              None \<Rightarrow> Some (- 1, dat, out, m)
            | Some p \<Rightarrow> (let (res, s, m) = fuse_opt_add_opt m (hopt_str dat) p in Some (res, dat(Mountpoint := map_option VStr s), out, m)))
         else Some (- 1, dat, out, m))
      else Some (1, dat, out, m))"

text \<open>The name of the program without its directories.\<close>

definition basename :: "cstring \<Rightarrow> cstring" where
  "basename progname =
     (let l = rev (takeWhile (\<lambda>c. c \<noteq> CHR ''/'') (rev progname))
      in if CHR ''/'' \<notin> set progname then progname else if l = [] then ''/'' else l)"

definition add_default_subtype :: "cstring \<Rightarrow> fuse_args \<Rightarrow> allocs \<Rightarrow> (int \<times> fuse_args \<times> allocs) option" where
  "add_default_subtype progname args m =
     (let (ok, m) = alloc m in if \<not> ok then Some (- 1, args, m) else fuse_opt_add_arg m args (''-osubtype='' @ basename progname))"

text \<open>The result, the arguments, the mount point, whether there are several threads, whether the program stays in the foreground. The arguments always have the name of the program.\<close>

definition fuse_parse_cmdline ::
  "(cstring \<Rightarrow> cstring option) \<Rightarrow> fuse_args \<Rightarrow> allocs \<Rightarrow> (int \<times> fuse_args \<times> cstring option \<times> bool \<times> bool \<times> allocs) option" where
  "fuse_parse_cmdline realpath args m = do {
     (res, a, dat, m) \<leftarrow> fuse_opt_parse m (Some args) (\<lambda>_. None) fuse_helper_opts (Some (fuse_helper_opt_proc realpath));
     args \<leftarrow> a;
     if res = - 1 then Some (- 1, args, None, False, False, m)
     else do {
       (res, args, m) \<leftarrow>
         (if \<not> hopt_set dat Nodefault_subtype
          then (case args_list args of prog # _ \<Rightarrow> add_default_subtype prog args m | [] \<Rightarrow> None)
          else Some (0, args, m));
       if res = - 1 then Some (- 1, args, None, False, False, m)
       else Some (0, args, hopt_str dat, \<not> hopt_set dat Singlethread, hopt_set dat Foreground, m)
     }
   }"

definition fuse_daemonize :: "bool \<Rightarrow> bool \<Rightarrow> int" where
  "fuse_daemonize daemon_ok foreground = (if \<not> foreground \<and> \<not> daemon_ok then - 1 else 0)"

subsection \<open>Mounting and unmounting\<close>

text \<open>The descriptors 0, 1 and 2 are opened if they are not.\<close>

partial_function (option) open_std :: "proc_env \<Rightarrow> proc \<Rightarrow> proc option" where
  [code]: "open_std E p =
     (let (r, p) = run_state (sys E (Open ''/dev/null'' O_RDWR)) p;
          p = (if ret r > 2 then snd (run_state (sys E (Close (ret r))) p) else p)
      in if 0 \<le> ret r \<and> ret r \<le> 2 then open_std E p else Some p)"

text \<open>The channel, or \<open>None\<close> in the first component for a null pointer.\<close>

definition fuse_mount_common ::
  "proc_env \<Rightarrow> nat \<Rightarrow> cstring option \<Rightarrow> fuse_args \<Rightarrow> proc \<times> ('d, 'x) assembly \<Rightarrow> (nat option \<times> fuse_args \<times> proc \<times> ('d, 'x) assembly) option" where
  "fuse_mount_common E pagesize mountpoint args pu = do {
     p \<leftarrow> open_std E (fst pu);
     let (rv, p) = run_state (fuse_kern_mount E mountpoint (Some args)) p;
     (fd, a) \<leftarrow> rv;
     args \<leftarrow> a;
     if fd = - 1 then Some (None, args, p, snd pu)
     else let (ch, w) = fuse_kern_chan_new pagesize fd (su_sw (snd pu)); u = (snd pu)\<lparr>su_sw := w\<rparr>
          in case ch of
               None \<Rightarrow> Some (None, args, snd (run_state (fuse_kern_unmount E mountpoint fd) p), u)
             | Some ch \<Rightarrow> Some (Some ch, args, p, u)
   }"

definition fuse_unmount_common ::
  "proc_env \<Rightarrow> ('d, 'x) lib_ll own_chan \<Rightarrow> cstring option \<Rightarrow> nat option \<Rightarrow> proc \<times> ('d, 'x) assembly \<Rightarrow> (proc \<times> ('d, 'x) assembly) option" where
  "fuse_unmount_common E own mountpoint ch pu = do {
     fd \<leftarrow> (case ch of None \<Rightarrow> Some (- 1) | Some c \<Rightarrow> fuse_chan_fd c (su_sw (snd pu)));
     let p = snd (run_state (fuse_kern_unmount E mountpoint fd) (fst pu));
     c \<leftarrow> ch;
     w \<leftarrow> fuse_chan_destroy own c (su_sw (snd pu));
     Some (p, (snd pu)\<lparr>su_sw := w\<rparr>)
   }"

subsection \<open>Setting up and tearing down\<close>

text \<open>Everything that is given to \<open>fuse_setup\<close> or is outside the program.\<close>

record ('d, 'x) setup_env =
  s_proc :: proc_env
  s_new :: "('d, 'x) new_env"
  s_dl :: dlinker
  s_factory :: "('d, dirbuf, 'x world) fuse_fs factory"
  s_own :: "('d, 'x) lib_ll own_chan"
  s_realpath :: "cstring \<Rightarrow> cstring option"
  s_pagesize :: nat
  daemon_ok :: bool

text \<open>The program with the channel, up to the signal handlers: \<open>Inl\<close> is the jump to \<open>err_unmount\<close>, with the file system if there is one.\<close>

definition set_up_fuse ::
  "('d, 'x) setup_env \<Rightarrow> nat \<Rightarrow> fuse_args \<Rightarrow> ('d, dirbuf, 'x world) fuse_operations option \<Rightarrow> nat \<Rightarrow> 'd \<Rightarrow> int \<Rightarrow> bool \<Rightarrow> ('d, 'x) assembly \<Rightarrow>
     ((fuse_handle option + fuse_handle) \<times> ('d, 'x) assembly) option" where
  "set_up_fuse S ch args op op_size d compat_version foreground u = do {
     (f, args, u) \<leftarrow> fuse_new_common (s_dl S) (s_factory S) (s_own S) (s_new S) ch (Some args) op op_size d compat_version u;
     case f of
       None \<Rightarrow> Some (Inl None, u)
     | Some f \<Rightarrow>
         if fuse_daemonize (daemon_ok S) foreground = - 1 then Some (Inl (Some f), u)
         else let (res, w) = fuse_set_signal_handlers (sig_known (s_new S)) (fh_se f) (su_sw u); u = u\<lparr>su_sw := w\<rparr>
              in Some (if res = - 1 then Inl (Some f) else Inr f, u)
   }"

text \<open>\<open>fuse_setup_common\<close>: the file system, the mount point, and whether there are several threads.\<close>

definition fuse_setup_common ::
  "('d, 'x) setup_env \<Rightarrow> cstring list \<Rightarrow> ('d, dirbuf, 'x world) fuse_operations option \<Rightarrow> nat \<Rightarrow> 'd \<Rightarrow> int \<Rightarrow> proc \<times> ('d, 'x) assembly \<Rightarrow>
     ((fuse_handle \<times> cstring option \<times> bool) option \<times> proc \<times> ('d, 'x) assembly) option" where
  "fuse_setup_common S words op op_size d compat_version pu = do {
     (res, args, mountpoint, multithreaded, foreground, m) \<leftarrow> fuse_parse_cmdline (s_realpath S) (FUSE_ARGS_INIT (Some words)) (pr_mem (fst pu));
     let pu = ((fst pu)\<lparr>pr_mem := m\<rparr>, snd pu);
     if res = - 1 then Some (None, pu)
     else do {
       (ch, args, p, u) \<leftarrow> fuse_mount_common (s_proc S) (s_pagesize S) mountpoint args pu;
       case ch of
         None \<Rightarrow> Some (None, p, u)
       | Some ch \<Rightarrow> do {
           (r, u) \<leftarrow> set_up_fuse S ch args op op_size d compat_version foreground u;
           case r of
             Inr f \<Rightarrow> Some (Some (f, mountpoint, multithreaded), p, u)
           | Inl f \<Rightarrow> do {
               (p, u) \<leftarrow> fuse_unmount_common (s_proc S) (s_own S) mountpoint (Some ch) (p, u);
               u \<leftarrow> (case f of None \<Rightarrow> Some u | Some f \<Rightarrow> fuse_destroy (s_own S) (ne_chains (s_new S)) f u);
               Some (None, p, u)
             }
         }
     }
   }"

definition fuse_teardown_common ::
  "('d, 'x) setup_env \<Rightarrow> fuse_handle \<Rightarrow> cstring option \<Rightarrow> proc \<times> ('d, 'x) assembly \<Rightarrow> (proc \<times> ('d, 'x) assembly) option" where
  "fuse_teardown_common S f mountpoint pu = do {
     ch \<leftarrow> fuse_session_next_chan (fh_se f) None (su_sw (snd pu));
     let w = fuse_remove_signal_handlers (sig_known (s_new S)) (fh_se f) (su_sw (snd pu));
     (p, u) \<leftarrow> fuse_unmount_common (s_proc S) (s_own S) mountpoint ch (fst pu, (snd pu)\<lparr>su_sw := w\<rparr>);
     u \<leftarrow> fuse_destroy (s_own S) (ne_chains (s_new S)) f u;
     Some (p, u)
   }"

subsection \<open>What is set up\<close>

text \<open>A program that is called with a mount point only gets the resolved mount point, runs in the background with several threads, and hands on its name as the subtype.\<close>

lemma cmdline_mountpoint:
  assumes "take 1 mnt \<noteq> ''-''" "realpath mnt = Some p"
  shows "fuse_parse_cmdline realpath (FUSE_ARGS_INIT (Some [prog, mnt])) [] =
    Some (0, \<lparr>argv = Some [prog, ''-osubtype='' @ basename prog], allocated = True\<rparr>, Some p, True, False, [])"
  using assms by (simp add: fuse_parse_cmdline_def fuse_opt_parse_def opt_parse_def opt_parse_loop.simps process_one_def call_proc_def fuse_helper_opt_proc_def
      hopt_str_def hopt_set_def fuse_opt_add_opt_def add_opt_common_def escape_off add_default_subtype_def add_arg_def fuse_opt_add_arg_def alloc_def)

lemma unmount_freed_channel:
  "fuse_chan_fd ch (su_sw u) = None \<Longrightarrow> fuse_unmount_common E own mountpoint (Some ch) (p, u) = None"
  by (simp add: fuse_unmount_common_def)

text \<open>A set-up that fails when the channel belongs to a session already does not return: the channel is used after it was freed.\<close>

lemma setup_uses_freed_channel:
  assumes "fuse_parse_cmdline (s_realpath S) (FUSE_ARGS_INIT (Some words)) (pr_mem (fst pu)) = Some (0, args, mountpoint, mt, fg, m)"
    "fuse_mount_common (s_proc S) (s_pagesize S) mountpoint args ((fst pu)\<lparr>pr_mem := m\<rparr>, snd pu) = Some (Some ch, args', p, u)"
    "set_up_fuse S ch args' op op_size d v fg u = Some (Inl None, u')" "fuse_chan_fd ch (su_sw u') = None"
  shows "fuse_setup_common S words op op_size d v pu = None"
  using assms unmount_freed_channel [OF assms(4)] by (simp add: fuse_setup_common_def)

end
