(* ===== verification/Spec2Isabelle.thy ===== *)
theory Spec2Isabelle
  imports Fuse_Prelude Fuse_Locks Fuse_Opt Fuse_Node Fuse_Path Fuse_Fs Subdir_Module Iconv_Module Fuse_Kernel Fuse_Lowlevel Fuse_Lowlevel_Proofs Fuse_Requests Fuse_Dir Fuse_Lib Fuse_Lib_Proofs NT_Hashmap NT_Io NT_Query NT_Driver NT_Driver_Proofs Mount_Util Fusermount Fusermount_Proofs Fusermount_Unmount Fuse_Mount Fuse_Mount_Proofs Fuse_Modules Fuse_Session Fuse_Session_Proofs Fuse_Loop_MT Fuse_New Fuse_Helper
begin

text \<open>
  Correctness of FUSE-NT: the user-space library of FUSE 2.8.5 (\<open>src/fuse-2.8.5\<close>), the programs that mount for it, and the driver
  that brings it to Windows (\<open>src/ifs/fuse/wxp\<close>).

  \<^bold>\<open>The program.\<close> The kernel sends a request as a message on the device. A session reads it from a channel (\<open>fuse_loop.c\<close>, or several threads in
  \<open>fuse_loop_mt.c\<close>) and hands it to the low-level library (\<open>fuse_lowlevel.c\<close>), which checks it against the state of the
  connection, decodes it and calls a low-level operation. The high-level library (\<open>fuse.c\<close>) implements these operations on paths: it keeps a cache of
  nodes with names, turns identifiers into paths, locks paths against renames, and calls the operations of the user's file system, on which modules
  (\<open>subdir\<close>, \<open>iconv\<close>) may be stacked. Each operation ends with a reply, one message to the kernel. Options of the command line are parsed by \<open>fuse_opt.c\<close>;
  the file system is mounted by \<open>mount.c\<close> itself or by the set-user-id program \<open>fusermount\<close>, which sends the descriptor of the device back. On Windows a driver takes the place of the kernel's
  module: it queues the packets of applications at the module they are for and completes them with what the module answers.

  \<^bold>\<open>Conventions\<close> (\<open>Fuse_Prelude\<close>). A C function is a HOL function of the same name over the state it reads and writes; \<open>None\<close>, where the type is an option, is a function that does not
  return: a failed assertion, an abort, a null pointer, a use of freed memory, a loop or a wait without end. Machine integers are words of their width where they can
  wrap. Allocations take their outcome from a list of coming outcomes, so that every function is modelled with and without memory. Strings and buffers are lists of characters.

  \<^bold>\<open>Theories.\<close>

  \<^item> \<open>Fuse_Locks\<close>: record locks of a node (\<open>locks_insert\<close>, \<open>locks_conflict\<close> in \<open>fuse.c\<close>). The list of locks implements a map from owners and bytes to lock types; owners exclude each other.
    The locale \<open>lock_table\<close> states what a server of locks relies on, interpreted on the list.

  \<^item> \<open>Fuse_Opt\<close>: \<open>fuse_opt.c\<close>. Escaping and splitting of option groups are inverse.

  \<^item> \<open>Fuse_Node\<close>: the node cache of \<open>fuse.c\<close>, with its two hash tables, identifiers and counts. Every operation keeps an invariant and changes exactly the names it is meant to;
    the last section is the relation of reachable states. \<open>Fuse_Path\<close>: paths and the locks on them.

  \<^item> \<open>Fuse_Fs\<close>: the table of a file system's operations, with its older versions, and the dispatch. \<open>Subdir_Module\<close>, \<open>Iconv_Module\<close>: the two modules
    (\<open>lib/modules\<close>), whose operations forward to the file system below. The one hands only paths under its directory down, and its rewritten links lead where they led before;
    the other converts names character by character. \<open>Fuse_Modules\<close>: the registry of modules.

  \<^item> \<open>Fuse_Kernel\<close>: the messages of the protocol, byte by byte. \<open>Fuse_Lowlevel\<close>: \<open>fuse_lowlevel.c\<close>. \<open>Fuse_Lowlevel_Proofs\<close>: replies, the gate of a
    connection, the accounting of requests (where an interrupt function may itself answer), interrupts, which reach a request in progress, wait for
    the next request or are sent back, and negotiation for any table of operations; the locale \<open>ll_file_system\<close> has what a file system must keep to, and its lemmas hold for every
    file system that does. \<open>Fuse_Requests\<close>: the requests as data, and that the decoder refines them.

  \<^item> \<open>Fuse_Dir\<close>, \<open>Fuse_Lib\<close>: directory handles and the handlers \<open>fuse_lib_*\<close>. \<open>Fuse_Lib_Proofs\<close>: the table \<open>fuse_path_ops\<close> interprets \<open>ll_file_system\<close>; from this every message is answered exactly once.

  \<^item> \<open>Fuse_Session\<close>, \<open>Fuse_Session_Proofs\<close>: \<open>fuse_session.c\<close>, \<open>fuse_kern_chan.c\<close>, \<open>fuse_loop.c\<close>, \<open>fuse_signals.c\<close>. The locale \<open>plain_session\<close> is a session whose end is its flag; its loop
    works off what arrives in order. Interpreted on the low-level library it composes with the theorem before. \<open>Fuse_Loop_MT\<close>: \<open>fuse_loop_mt.c\<close> as a step relation.

  \<^item> \<open>Mount_Util\<close>, \<open>Fusermount\<close>, \<open>Fuse_Mount\<close>: \<open>mount_util.c\<close>, \<open>fusermount.c\<close> and \<open>mount.c\<close> as programs over system calls whose answers an environment gives. \<open>Fusermount_Proofs\<close>, \<open>Fusermount_Unmount\<close>,
    \<open>Fuse_Mount_Proofs\<close>: what they do to the system, for every environment, by rules for triples. A failed mount of the library leaves a mount only where the system refuses the unmount too;
    a mount made by \<open>fusermount\<close> is a step of that program and not counted as the library's own.

  \<^item> \<open>Fuse_New\<close>: \<open>fuse_new_common\<close> and \<open>fuse_destroy\<close>, which put the modules, the low-level library, the session and the node cache together; a failure gives everything back but the channel, and the modules whose own \<open>destroy\<close> operation (a parameter) does not pass the destruction on.
    \<open>Fuse_Helper\<close>: \<open>helper.c\<close>, from the command line to the mounted file system and back.

  \<^item> \<open>NT_Hashmap\<close>, \<open>NT_Io\<close>, \<open>NT_Query\<close>, \<open>NT_Driver\<close>: \<open>hashmap.cc\<close>, \<open>fuseutil.cc\<close>, \<open>fusequery.cc\<close>, \<open>fuseio.cc\<close> and \<open>fuseinit.cc\<close>. The hash table is a map as long as a slot is free (locale \<open>hash_keys\<close>, interpreted on
    the names of modules). \<open>NT_Driver_Proofs\<close>: what a module's request for work is given, for reads and writes, and what each of its responses completes, for every kind of packet, cancelled ones included;
    that read data is taken from offset 28 of a response, four bytes before where the protocol's structures put it; and that two requests waiting for one module make the driver use freed memory.

  \<^bold>\<open>Bounds and loops.\<close> Loops over data are recursive functions with a measure. Loops that may not end (the search for an identifier, the walk to the root, the doubling of a buffer, the retry of
  a locked path, the loop of a session, the probes of the driver's table) are partial functions into options, so that no bound has to be chosen; that they return is proved
  for the identifiers, the walk to the root and its unlocking, the session, the queues of the driver and its table while a slot is free. The buffer that would exceed 32 bits and the probes
  of a full table are proved not to return. Of the others (the retry of a locked path, the search for a free
  hidden name, the lists a closing handle cancels, the listings of directories, the opening of the standard descriptors) nothing is claimed about their end. Constants of the source (table sizes, 32-bit identifiers, 64 slots, buffer sizes) are kept.

  \<^bold>\<open>Parameters.\<close> The operations of the user's file system, the C library's character conversion, the dynamic linker, the answers of the system, what arrives on the device, the clock, the other threads during a wait
  and the layouts of Windows' structures are arguments of the definitions. Theorems about them hold for all of them, with what is documented of them as hypotheses.

  \<^bold>\<open>Not modelled.\<close> Debug and help output and messages to the user; symbol versions; \<open>fuse_req_getgroups\<close>, which parses \<open>/proc\<close>; \<open>fuse_main\<close>, which chooses between the two
  loops, and the wrappers for older interfaces; the registration of the driver with Windows. The examples, the lock manager \<open>ulockmgr\<close>, \<open>cuse_lowlevel.c\<close>, the deprecated
  \<open>fuse_mt.c\<close>, the mount for BSD and \<open>mount.fuse\<close> are left out: they are clients or variants of the parts above. Critical sections under the lock of a file system are one step; the concurrency of
  requests is seen through path locks and through the steps of the threaded loop.
\<close>

end
